(* ===== verification/Prelude.thy ===== *)
theory Prelude
  imports Main "HOL-Library.Char_ord" "HOL-Library.List_Lexorder" "HOL-Library.Product_Lexorder"
    "HOL-Library.Sublist" "HOL-Library.Signed_Division"
begin

text \<open>
  What the components share: the machine integers of the Rust sources with their wrap-around and
  saturation written out, the ordered association lists that stand for a \<open>BTreeMap\<close>, the
  iterator adaptors \<open>max_by_key\<close> and \<open>min_by_key\<close>, bounded logs, and the string functions of the
  standard library that the code uses. Unsigned integers are naturals, signed ones integers; an
  operation that can leave the range of its type reduces the result as the release build does.
\<close>

named_theorems u_arith \<open>unfolding rules for the machine-integer operations\<close>
named_theorems step_simps \<open>one-step equations of the state machines\<close>

section \<open>Machine integers\<close>

type_synonym u8 = nat
type_synonym u32 = nat
type_synonym u64 = nat
type_synonym usize = nat
type_synonym i32 = int
type_synonym i64 = int

abbreviation u32_max :: u32 where "u32_max \<equiv> 4294967295"
abbreviation u64_max :: u64 where "u64_max \<equiv> 18446744073709551615"

definition u32_add :: "u32 \<Rightarrow> u32 \<Rightarrow> u32" where
  [u_arith]: "u32_add a b = (a + b) mod 4294967296"

definition u32_sub :: "u32 \<Rightarrow> u32 \<Rightarrow> u32" where
  [u_arith]: "u32_sub a b = (a + (4294967296 - b mod 4294967296)) mod 4294967296"

definition u32_mul :: "u32 \<Rightarrow> u32 \<Rightarrow> u32" where
  [u_arith]: "u32_mul a b = (a * b) mod 4294967296"

definition u32_sat_add :: "u32 \<Rightarrow> u32 \<Rightarrow> u32" where
  [u_arith]: "u32_sat_add a b = min (a + b) u32_max"

definition u32_sat_sub :: "u32 \<Rightarrow> u32 \<Rightarrow> u32" where
  [u_arith]: "u32_sat_sub a b = a - b"

definition u64_sat_sub :: "u64 \<Rightarrow> u64 \<Rightarrow> u64" where
  [u_arith]: "u64_sat_sub a b = a - b"

definition u64_sat_add :: "u64 \<Rightarrow> u64 \<Rightarrow> u64" where
  [u_arith]: "u64_sat_add a b = min (a + b) u64_max"

text \<open>The cast \<open>as u32\<close> of a wider unsigned or of a signed value keeps the low 32 bits.\<close>

definition as_u32 :: "int \<Rightarrow> u32" where
  [u_arith]: "as_u32 x = nat (x mod 4294967296)"

definition i64_wrap :: "int \<Rightarrow> i64" where
  "i64_wrap x = signed_take_bit 63 x"

definition i32_wrap :: "int \<Rightarrow> i32" where
  "i32_wrap x = signed_take_bit 31 x"

definition i64_sub :: "i64 \<Rightarrow> i64 \<Rightarrow> i64" where
  "i64_sub a b = i64_wrap (a - b)"

definition i64_add :: "i64 \<Rightarrow> i64 \<Rightarrow> i64" where
  "i64_add a b = i64_wrap (a + b)"

definition i64_mul :: "i64 \<Rightarrow> i64 \<Rightarrow> i64" where
  "i64_mul a b = i64_wrap (a * b)"

text \<open>\<open>i64::abs\<close> leaves the least value as it is in a release build.\<close>

definition i64_abs :: "i64 \<Rightarrow> i64" where
  "i64_abs a = i64_wrap \<bar>a\<bar>"

text \<open>Integer division of the source truncates towards zero.\<close>

definition i64_div :: "i64 \<Rightarrow> i64 \<Rightarrow> i64" where
  "i64_div a b = i64_wrap (a sdiv b)"

definition as_i32 :: "nat \<Rightarrow> i32" where
  "as_i32 n = i32_wrap (int n)"

definition i32_sub :: "i32 \<Rightarrow> i32 \<Rightarrow> i32" where
  "i32_sub a b = i32_wrap (a - b)"

definition i32_add :: "i32 \<Rightarrow> i32 \<Rightarrow> i32" where
  "i32_add a b = i32_wrap (a + b)"

definition i32_mul :: "i32 \<Rightarrow> i32 \<Rightarrow> i32" where
  "i32_mul a b = i32_wrap (a * b)"

definition i32_neg :: "i32 \<Rightarrow> i32" where
  "i32_neg a = i32_wrap (- a)"

definition is_u32 :: "nat \<Rightarrow> bool" where
  "is_u32 n \<longleftrightarrow> n < 4294967296"

definition is_i64 :: "int \<Rightarrow> bool" where
  "is_i64 x \<longleftrightarrow> - (2 ^ 63) \<le> x \<and> x < 2 ^ 63"

definition is_i32 :: "int \<Rightarrow> bool" where
  "is_i32 x \<longleftrightarrow> - (2 ^ 31) \<le> x \<and> x < 2 ^ 31"

lemma i32_wrap_id [simp]: "is_i32 x \<Longrightarrow> i32_wrap x = x"
  by (simp add: i32_wrap_def is_i32_def signed_take_bit_int_eq_self)

lemma is_i32_wrap [simp]: "is_i32 (i32_wrap x)"
  using signed_take_bit_int_less_exp [of 31 x] signed_take_bit_int_greater_eq_minus_exp [of 31 x]
  by (simp add: i32_wrap_def is_i32_def)

lemma i32_wrap_add: "i32_wrap (a + i32_wrap b) = i32_wrap (a + b)"
  unfolding i32_wrap_def by (metis signed_take_bit_add signed_take_bit_signed_take_bit min.idem)

lemma as_u32_wrap: "as_u32 (i32_wrap x) = as_u32 x"
proof -
  have "take_bit 32 (signed_take_bit 31 x) = take_bit 32 x"
    by (simp add: take_bit_signed_take_bit)
  then show ?thesis by (simp add: as_u32_def i32_wrap_def take_bit_eq_mod)
qed

lemma as_u32_int [simp]: "n < 4294967296 \<Longrightarrow> as_u32 (int n) = n"
  by (simp add: as_u32_def nat_mod_as_int)

lemma i64_wrap_id [simp]: "is_i64 x \<Longrightarrow> i64_wrap x = x"
  by (simp add: i64_wrap_def is_i64_def signed_take_bit_int_eq_self)

lemma is_i64_wrap [simp]: "is_i64 (i64_wrap x)"
  using signed_take_bit_int_less_exp [of 63 x] signed_take_bit_int_greater_eq_minus_exp [of 63 x]
  by (simp add: i64_wrap_def is_i64_def)

lemma i64_wrap_numeral [simp]:
  "i64_wrap 0 = 0" "i64_wrap 1 = 1"
  by (simp_all add: is_i64_def)

lemma u32_add_id: "a + b < 4294967296 \<Longrightarrow> u32_add a b = a + b"
  by (simp add: u32_add_def)

lemma u32_sub_id: "b \<le> a \<Longrightarrow> a < 4294967296 \<Longrightarrow> u32_sub a b = a - b"
proof -
  assume ba: "b \<le> a" and a: "a < 4294967296"
  then have "a + (4294967296 - b mod 4294967296) = (a - b) + 4294967296" by simp
  then have "u32_sub a b = (a - b) mod 4294967296"
    unfolding u32_sub_def by (simp only: mod_add_self2)
  with a show ?thesis by simp
qed

lemma u32_sat_add_le: "u32_sat_add a b \<le> u32_max"
  by (simp add: u32_sat_add_def)

lemma u32_sat_add_mono: "a \<le> u32_max \<Longrightarrow> a \<le> u32_sat_add a b"
  by (simp add: u32_sat_add_def)

section \<open>Results\<close>

text \<open>
  \<open>Result<T, E>\<close> is the sum with the error on the left; \<open>Option\<close> is \<open>option\<close>. The operator \<open>?\<close>
  is a case split that hands the error on.
\<close>

type_synonym ('e, 'a) result = "'e + 'a"

definition is_err :: "('e, 'a) result \<Rightarrow> bool" where
  "is_err r = (case r of Inl _ \<Rightarrow> True | Inr _ \<Rightarrow> False)"

definition is_some_and :: "'a option \<Rightarrow> ('a \<Rightarrow> bool) \<Rightarrow> bool" where
  "is_some_and x p = (case x of None \<Rightarrow> False | Some v \<Rightarrow> p v)"

definition is_none_or :: "'a option \<Rightarrow> ('a \<Rightarrow> bool) \<Rightarrow> bool" where
  "is_none_or x p = (case x of None \<Rightarrow> True | Some v \<Rightarrow> p v)"

definition unwrap_or :: "'a option \<Rightarrow> 'a \<Rightarrow> 'a" where
  "unwrap_or x d = (case x of None \<Rightarrow> d | Some v \<Rightarrow> v)"

lemma is_err_simps [simp]: "is_err (Inl e)" "\<not> is_err (Inr a)"
  by (simp_all add: is_err_def)

lemma is_some_and_simps [simp]: "\<not> is_some_and None p" "is_some_and (Some v) p = p v"
  by (simp_all add: is_some_and_def)

lemma is_none_or_simps [simp]: "is_none_or None p" "is_none_or (Some v) p = p v"
  by (simp_all add: is_none_or_def)

lemma unwrap_or_simps [simp]: "unwrap_or None d = d" "unwrap_or (Some v) d = v"
  by (simp_all add: unwrap_or_def)

section \<open>Ordered maps\<close>

text \<open>
  A \<open>BTreeMap\<close> is the list of its entries in ascending key order; \<open>insert\<close> replaces the value of
  an equal key. Two maps are equal when their entry lists are, as in the source.
\<close>

fun bt_insert :: "'k::linorder \<Rightarrow> 'v \<Rightarrow> ('k \<times> 'v) list \<Rightarrow> ('k \<times> 'v) list" where
  "bt_insert k v [] = [(k, v)]"
| "bt_insert k v ((k', v') # m) =
     (if k < k' then (k, v) # (k', v') # m
      else if k = k' then (k, v) # m
      else (k', v') # bt_insert k v m)"

definition bt_of_list :: "('k::linorder \<times> 'v) list \<Rightarrow> ('k \<times> 'v) list" where
  "bt_of_list kvs = fold (\<lambda>(k, v). bt_insert k v) kvs []"

definition bt_wf :: "('k::linorder \<times> 'v) list \<Rightarrow> bool" where
  "bt_wf m \<longleftrightarrow> sorted (map fst m) \<and> distinct (map fst m)"

lemma set_bt_insert_keys: "set (map fst (bt_insert k v m)) = insert k (set (map fst m))"
  by (induction k v m rule: bt_insert.induct) auto

lemma bt_wf_insert: "bt_wf m \<Longrightarrow> bt_wf (bt_insert k v m)"
proof (induction k v m rule: bt_insert.induct)
  case (1 k v)
  then show ?case by (simp add: bt_wf_def)
next
  case (2 k v k' v' m)
  have "bt_wf m" using 2 by (simp add: bt_wf_def)
  then have IH: "\<not> k < k' \<Longrightarrow> k \<noteq> k' \<Longrightarrow> bt_wf (bt_insert k v m)" using 2 by simp
  show ?case
    using 2(2) IH set_bt_insert_keys [of k v m] by (fastforce simp: bt_wf_def)
qed

lemma map_of_bt_insert: "map_of (bt_insert k v m) = (map_of m)(k \<mapsto> v)"
  if "bt_wf m"
  using that
proof (induction k v m rule: bt_insert.induct)
  case (2 k v k' v' m)
  have "bt_wf m" using 2(2) by (simp add: bt_wf_def)
  with 2(1) show ?case by (auto simp: fun_eq_iff)
qed simp

lemma bt_wf_of_list: "bt_wf (bt_of_list kvs)"
proof -
  have "bt_wf m \<Longrightarrow> bt_wf (fold (\<lambda>(k, v). bt_insert k v) kvs m)" for m
    by (induction kvs arbitrary: m) (auto simp: bt_wf_insert)
  then show ?thesis by (simp add: bt_of_list_def bt_wf_def)
qed

section \<open>Iterator adaptors\<close>

text \<open>\<open>max_by_key\<close> returns the last of several maximal elements, \<open>min_by_key\<close> the first minimal one.\<close>

fun max_by_key :: "('a \<Rightarrow> 'k::linorder) \<Rightarrow> 'a list \<Rightarrow> 'a option" where
  "max_by_key f [] = None"
| "max_by_key f (x # xs) =
     (case max_by_key f xs of None \<Rightarrow> Some x | Some y \<Rightarrow> Some (if f x \<le> f y then y else x))"

fun min_by_key :: "('a \<Rightarrow> 'k::linorder) \<Rightarrow> 'a list \<Rightarrow> 'a option" where
  "min_by_key f [] = None"
| "min_by_key f (x # xs) =
     (case min_by_key f xs of None \<Rightarrow> Some x | Some y \<Rightarrow> Some (if f x \<le> f y then x else y))"

lemma max_by_key_None [simp]: "max_by_key f xs = None \<longleftrightarrow> xs = []"
  by (cases xs) (auto split: option.splits)

lemma min_by_key_None [simp]: "min_by_key f xs = None \<longleftrightarrow> xs = []"
  by (cases xs) (auto split: option.splits)

lemma max_by_key_SomeD: "max_by_key f xs = Some y \<Longrightarrow> y \<in> set xs \<and> (\<forall>x\<in>set xs. f x \<le> f y)"
  by (induction xs arbitrary: y) (fastforce split: option.splits if_splits)+

lemma min_by_key_SomeD: "min_by_key f xs = Some y \<Longrightarrow> y \<in> set xs \<and> (\<forall>x\<in>set xs. f y \<le> f x)"
  by (induction xs arbitrary: y) (fastforce split: option.splits if_splits)+

section \<open>Bounded logs\<close>

text \<open>
  \<open>push_capped\<close> appends and drains the oldest entries over the cap; it is used by the incident and
  crash logs of \<open>safe_loop.rs\<close>.
\<close>

definition push_capped :: "'a list \<Rightarrow> 'a \<Rightarrow> nat \<Rightarrow> 'a list" where
  "push_capped v item cap =
     (let v' = v @ [item]
      in if length v' > cap then drop (length v' - cap) v' else v')"

lemma length_push_capped: "length (push_capped v x cap) = min cap (Suc (length v))"
  by (simp add: push_capped_def Let_def del: drop_append)

lemma last_push_capped: "0 < cap \<Longrightarrow> push_capped v x cap \<noteq> [] \<and> last (push_capped v x cap) = x"
  by (auto simp: push_capped_def Let_def last_drop)

lemma suffix_push_capped: "suffix (push_capped v x cap) (v @ [x])"
  by (auto simp only: push_capped_def Let_def suffix_drop suffix_order.refl split: if_split)

section \<open>Strings\<close>

text \<open>Strings are their UTF-8 bytes. \<open>str_find\<close> is \<open>str::find\<close> for a string pattern.\<close>

fun str_find :: "string \<Rightarrow> string \<Rightarrow> nat option" where
  "str_find p [] = (if p = [] then Some 0 else None)"
| "str_find p (c # s) = (if prefix p (c # s) then Some 0 else map_option Suc (str_find p s))"

definition ascii_lower :: "char \<Rightarrow> char" where
  "ascii_lower c =
     (let n = (of_char c :: nat) in if 65 \<le> n \<and> n \<le> 90 then char_of (n + 32) else c)"

definition hex_digit :: "char \<Rightarrow> nat option" where
  "hex_digit c =
     (let n = (of_char c :: nat)
      in if 48 \<le> n \<and> n \<le> 57 then Some (n - 48)
         else if 97 \<le> n \<and> n \<le> 102 then Some (n - 87)
         else if 65 \<le> n \<and> n \<le> 70 then Some (n - 55)
         else None)"

fun hex_value :: "nat \<Rightarrow> string \<Rightarrow> nat" where
  "hex_value acc [] = acc"
| "hex_value acc (c # s) = hex_value (16 * acc + unwrap_or (hex_digit c) 0) s"

fun dec_digits :: "nat \<Rightarrow> string" where
  "dec_digits n =
     (if n < 10 then [char_of (48 + n)] else dec_digits (n div 10) @ [char_of (48 + n mod 10)])"

declare dec_digits.simps [simp del]

definition show_int :: "int \<Rightarrow> string" where
  "show_int i = (if i < 0 then CHR ''-'' # dec_digits (nat (- i)) else dec_digits (nat i))"

lemma str_find_SomeD: "str_find p s = Some i \<Longrightarrow> prefix p (drop i s) \<and> i \<le> length s"
  by (induction p s arbitrary: i rule: str_find.induct) (auto split: if_splits)

lemma str_find_append:
  assumes "str_find p s = None"
    and "\<And>k. k < length s \<Longrightarrow> \<not> prefix p (drop k (s @ p @ t))"
  shows "str_find p (s @ p @ t) = Some (length s)"
  using assms
proof (induction s)
  case Nil
  have "prefix p (p @ t)" by simp
  then show ?case by (cases "p @ t") auto
next
  case (Cons c s)
  have "\<not> prefix p (c # s @ p @ t)" using Cons.prems(2) [of 0] by simp
  moreover have "str_find p (s @ p @ t) = Some (length s)"
  proof (rule Cons.IH)
    show "str_find p s = None" using Cons.prems(1) by (auto split: if_splits)
    show "\<And>k. k < length s \<Longrightarrow> \<not> prefix p (drop k (s @ p @ t))"
      using Cons.prems(2) [of "Suc _"] by auto
  qed
  ultimately show ?case by simp
qed

end
