(* ===== verification/VfPlan.thy ===== *)
theory VfPlan
  imports Prelude
begin

text \<open>
  The pure planners of \<open>crates/gpu-nvapi/src/lib.rs\<close> and the loops that write a plan. A curve is the
  list of \<open>(index, voltage, clock)\<close> points; a plan gives every point the offset to write. The
  ceiling planners flatten downwards, the positive-offset planners raise one anchor bin and cap the
  bins above it. The driver calls (\<open>vfcurve::set_point\<close>, \<open>get_point\<close>, \<open>get_status\<close>) are arguments.
\<close>

type_synonym vf_curve = "(usize \<times> u32 \<times> u32) list"

abbreviation pt_index :: "usize \<times> u32 \<times> u32 \<Rightarrow> usize" where "pt_index p \<equiv> fst p"
abbreviation pt_mv :: "usize \<times> u32 \<times> u32 \<Rightarrow> u32" where "pt_mv p \<equiv> fst (snd p)"
abbreviation pt_mhz :: "usize \<times> u32 \<times> u32 \<Rightarrow> u32" where "pt_mhz p \<equiv> snd (snd p)"

section \<open>Snapping and flattening\<close>

definition nearest_vf_bin_at_or_above :: "vf_curve \<Rightarrow> u32 \<Rightarrow> (usize \<times> u32) option" where
  "nearest_vf_bin_at_or_above curve measured =
     (if curve = [] then None
      else case min_by_key pt_mv (filter (\<lambda>p. pt_mv p \<ge> measured) curve) of
             Some p \<Rightarrow> Some (pt_index p, pt_mv p)
           | None \<Rightarrow> map_option (\<lambda>p. (pt_index p, pt_mv p)) (max_by_key pt_mv curve))"

datatype vf_bin_class = BelowCeiling | FlattenDown | FlattenUp | AlreadyAtTarget

record vf_write_plan_entry =
  we_index :: usize
  we_voltage_mv :: u32
  we_base_mhz :: u32
  we_desired_offset_mhz :: i32
  we_below_ceiling :: bool
  we_in_flatten_set :: bool
  we_desired_offset_is_zero :: bool
  we_class :: vf_bin_class

definition plan_vf_ceiling :: "vf_curve \<Rightarrow> u32 \<Rightarrow> u32 \<Rightarrow> vf_write_plan_entry list" where
  "plan_vf_ceiling curve ceiling target =
     map (\<lambda>(index, voltage, base).
       (let inf = (voltage \<ge> ceiling);
            off = (if inf then i32_sub (as_i32 target) (as_i32 base) else 0);
            cls = (if \<not> inf then BelowCeiling
                   else if off = 0 then AlreadyAtTarget
                   else if off < 0 then FlattenDown
                   else FlattenUp)
        in \<lparr>we_index = index, we_voltage_mv = voltage, we_base_mhz = base,
            we_desired_offset_mhz = off, we_below_ceiling = \<not> inf, we_in_flatten_set = inf,
            we_desired_offset_is_zero = (off = 0), we_class = cls\<rparr>)) curve"

definition plan_vf_ceiling_monotone :: "vf_curve \<Rightarrow> u32 \<Rightarrow> u32 \<Rightarrow> vf_write_plan_entry list" where
  "plan_vf_ceiling_monotone static_base ceiling target =
     map (\<lambda>(index, voltage, base).
       (let inf = (voltage \<ge> ceiling);
            (off, cls) =
              (if \<not> inf then (0, BelowCeiling)
               else if base > target then (i32_sub (as_i32 target) (as_i32 base), FlattenDown)
               else (0, AlreadyAtTarget))
        in \<lparr>we_index = index, we_voltage_mv = voltage, we_base_mhz = base,
            we_desired_offset_mhz = off, we_below_ceiling = \<not> inf, we_in_flatten_set = inf,
            we_desired_offset_is_zero = (off = 0), we_class = cls\<rparr>)) static_base"

datatype vf_error =
  EmptyCurve
| NothingAtCeiling u32
| PositiveInMonotone i32 usize
| SetPointStatus usize i32
| ReadbackOffset usize i32
| ReadbackUnavailable usize

text \<open>The write loops; \<open>set_point\<close> returns the driver's status and the device afterwards.\<close>

type_synonym 'd set_point = "usize \<Rightarrow> i32 \<Rightarrow> 'd \<Rightarrow> i32 \<times> 'd"

fun write_ceiling ::
  "'d set_point \<Rightarrow> nat \<Rightarrow> vf_write_plan_entry list \<Rightarrow> 'd \<Rightarrow> (vf_error, nat) result \<times> 'd" where
  "write_ceiling sp n [] d = (Inr n, d)"
| "write_ceiling sp n (e # es) d =
     (case sp (we_index e) (i32_mul (we_desired_offset_mhz e) 1000) d of
        (st, d') \<Rightarrow>
          if st \<noteq> 0 then (Inl (SetPointStatus (we_index e) st), d')
          else write_ceiling sp (if we_desired_offset_mhz e \<noteq> 0 then n + 1 else n) es d')"

definition apply_vf_ceiling ::
  "'d set_point \<Rightarrow> vf_curve \<Rightarrow> u32 \<Rightarrow> u32 \<Rightarrow> 'd \<Rightarrow> (vf_error, nat) result \<times> 'd" where
  "apply_vf_ceiling sp curve ceiling target d =
     (if curve = [] then (Inl EmptyCurve, d)
      else write_ceiling sp 0 (plan_vf_ceiling curve ceiling target) d)"

fun write_monotone ::
  "'d set_point \<Rightarrow> nat \<Rightarrow> vf_write_plan_entry list \<Rightarrow> 'd \<Rightarrow> (vf_error, nat) result \<times> 'd" where
  "write_monotone sp n [] d = (Inr n, d)"
| "write_monotone sp n (e # es) d =
     (if we_desired_offset_mhz e > 0
      then (Inl (PositiveInMonotone (we_desired_offset_mhz e) (we_index e)), d)
      else case sp (we_index e) (i32_mul (we_desired_offset_mhz e) 1000) d of
             (st, d') \<Rightarrow>
               if st \<noteq> 0 then (Inl (SetPointStatus (we_index e) st), d')
               else write_monotone sp (if we_desired_offset_mhz e \<noteq> 0 then n + 1 else n) es d')"

definition apply_vf_ceiling_monotone ::
  "'d set_point \<Rightarrow> vf_curve \<Rightarrow> u32 \<Rightarrow> u32 \<Rightarrow> 'd \<Rightarrow> (vf_error, nat) result \<times> 'd" where
  "apply_vf_ceiling_monotone sp static_base ceiling target d =
     (if static_base = [] then (Inl EmptyCurve, d)
      else (let plan = plan_vf_ceiling_monotone static_base ceiling target
            in if \<not> (\<exists>e\<in>set plan. we_in_flatten_set e) then (Inl (NothingAtCeiling ceiling), d)
               else write_monotone sp 0 plan d))"

text \<open>\<open>reset_vf_curve_checked\<close>: every valid point is zeroed and read back.\<close>

fun reset_points ::
  "(usize \<Rightarrow> 'd \<Rightarrow> bool) \<Rightarrow> 'd set_point \<Rightarrow> (usize \<Rightarrow> 'd \<Rightarrow> i32 option) \<Rightarrow> nat \<Rightarrow> usize list \<Rightarrow> 'd \<Rightarrow>
   (vf_error, nat) result \<times> 'd" where
  "reset_points valid sp gp n [] d = (Inr n, d)"
| "reset_points valid sp gp n (i # is) d =
     (if \<not> valid i d then reset_points valid sp gp n is d
      else case sp i 0 d of
             (status, d') \<Rightarrow>
               if status \<noteq> 0 then (Inl (SetPointStatus i status), d')
               else (case gp i d' of
                       None \<Rightarrow> (Inl (ReadbackUnavailable i), d')
                     | Some khz \<Rightarrow>
                         if i32_wrap \<bar>khz\<bar> \<le> 1000 then reset_points valid sp gp (n + 1) is d'
                         else (Inl (ReadbackOffset i khz), d')))"

definition reset_vf_curve_checked ::
  "(usize \<Rightarrow> 'd \<Rightarrow> bool) \<Rightarrow> 'd set_point \<Rightarrow> (usize \<Rightarrow> 'd \<Rightarrow> i32 option) \<Rightarrow> 'd \<Rightarrow>
   (vf_error, nat) result \<times> 'd" where
  "reset_vf_curve_checked valid sp gp d = reset_points valid sp gp 0 [0..<255] d"

section \<open>Bounded positive offsets\<close>

definition is_sane_base_point :: "u32 \<Rightarrow> u32 \<Rightarrow> bool" where
  "is_sane_base_point mv mhz \<longleftrightarrow> 600 \<le> mv \<and> mv \<le> 1150 \<and> 500 \<le> mhz \<and> mhz \<le> 3500"

definition is_sane_base_curve :: "vf_curve \<Rightarrow> bool" where
  "is_sane_base_curve curve \<longleftrightarrow>
     curve \<noteq> [] \<and> (\<forall>p\<in>set curve. is_sane_base_point (pt_mv p) (pt_mhz p))"

record positive_offset_limits =
  abs_max_offset_mhz :: i32
  step_max_offset_mhz :: i32
  hw_floor_mv :: u32
  clock_ceiling_mhz :: u32

definition limits_conservative :: "u32 \<Rightarrow> u32 \<Rightarrow> positive_offset_limits" where
  "limits_conservative hw_floor ceiling =
     \<lparr>abs_max_offset_mhz = 30, step_max_offset_mhz = 15, hw_floor_mv = hw_floor,
      clock_ceiling_mhz = ceiling\<rparr>"

definition limits_manual_prior :: "u32 \<Rightarrow> u32 \<Rightarrow> i32 \<Rightarrow> positive_offset_limits" where
  "limits_manual_prior hw_floor ceiling max_offset =
     \<lparr>abs_max_offset_mhz = max_offset, step_max_offset_mhz = max_offset, hw_floor_mv = hw_floor,
      clock_ceiling_mhz = ceiling\<rparr>"

definition limits_target_sweep :: "u32 \<Rightarrow> u32 \<Rightarrow> positive_offset_limits" where
  "limits_target_sweep hw_floor ceiling =
     \<lparr>abs_max_offset_mhz = 210, step_max_offset_mhz = 15, hw_floor_mv = hw_floor,
      clock_ceiling_mhz = ceiling\<rparr>"

definition limits_hardware_frontier :: "u32 \<Rightarrow> u32 \<Rightarrow> u32 \<Rightarrow> positive_offset_limits" where
  "limits_hardware_frontier hw_floor ceiling min_base =
     (let physical_delta = as_i32 (max (u32_sat_sub ceiling min_base) 1)
      in \<lparr>abs_max_offset_mhz = physical_delta, step_max_offset_mhz = physical_delta,
          hw_floor_mv = hw_floor, clock_ceiling_mhz = ceiling\<rparr>)"

record positive_offset_plan =
  po_index :: usize
  po_voltage_mv :: u32
  po_base_mhz :: u32
  po_offset_mhz :: i32
  po_prev_offset_mhz :: i32
  po_step_delta_mhz :: i32
  po_effective_mhz :: u32

datatype plan_error =
  PlanEmptyCurve
| PlanInsaneCurve
| PlanNotARealBin usize
| PlanBelowFloor u32 u32
| PlanNotPositive u32 u32 i32
| PlanOverAbsolute i32
| PlanOverStep i32 i32
| PlanOverCeiling i32
| AnchoredNeedsRaise u32 i32
| AnchoredStaysAbove u32 i32
| AnchoredNonMonotone u32 u32
| AnchoredForeignRaise
| RefuseAnchorOffset i32
| RefuseForeignRaise i32 u32
| WriteStatus usize i32

definition plan_bounded_positive_offset ::
  "vf_curve \<Rightarrow> usize \<Rightarrow> u32 \<Rightarrow> i32 \<Rightarrow> positive_offset_limits \<Rightarrow>
   (plan_error, positive_offset_plan) result" where
  "plan_bounded_positive_offset curve bin target prev lim =
     (if curve = [] then Inl PlanEmptyCurve
      else if \<not> is_sane_base_curve curve then Inl PlanInsaneCurve
      else case find (\<lambda>p. pt_index p = bin) curve of
        None \<Rightarrow> Inl (PlanNotARealBin bin)
      | Some (index, voltage, base) \<Rightarrow>
          if voltage < hw_floor_mv lim then Inl (PlanBelowFloor voltage (hw_floor_mv lim))
          else let offset = i32_sub (as_i32 target) (as_i32 base)
          in if offset \<le> 0 then Inl (PlanNotPositive voltage base offset)
          else if offset > abs_max_offset_mhz lim then Inl (PlanOverAbsolute offset)
          else let step = i32_sub offset prev
          in if step > step_max_offset_mhz lim then Inl (PlanOverStep step prev)
          else let effective = i32_add (as_i32 base) offset
          in if effective \<le> 0 \<or> as_u32 effective > clock_ceiling_mhz lim
             then Inl (PlanOverCeiling effective)
          else Inr \<lparr>po_index = index, po_voltage_mv = voltage, po_base_mhz = base,
                    po_offset_mhz = offset, po_prev_offset_mhz = prev, po_step_delta_mhz = step,
                    po_effective_mhz = as_u32 effective\<rparr>)"

definition apply_bounded_positive_offset ::
  "'d set_point \<Rightarrow> vf_curve \<Rightarrow> usize \<Rightarrow> u32 \<Rightarrow> i32 \<Rightarrow> positive_offset_limits \<Rightarrow> 'd \<Rightarrow>
   (plan_error, positive_offset_plan) result \<times> 'd" where
  "apply_bounded_positive_offset sp curve bin target prev lim d =
     (case plan_bounded_positive_offset curve bin target prev lim of
        Inl e \<Rightarrow> (Inl e, d)
      | Inr plan \<Rightarrow>
          if po_offset_mhz plan \<le> 0 \<or> po_offset_mhz plan > abs_max_offset_mhz lim
          then (Inl (RefuseAnchorOffset (po_offset_mhz plan)), d)
          else case sp (po_index plan) (i32_mul (po_offset_mhz plan) 1000) d of
                 (st, d') \<Rightarrow> if st \<noteq> 0 then (Inl (WriteStatus (po_index plan) st), d')
                            else (Inr plan, d'))"

section \<open>Anchored plans\<close>

datatype anchored_bin_role = Anchor | CappedAbove | ElasticBelow

record anchored_bin_entry =
  ab_index :: usize
  ab_voltage_mv :: u32
  ab_base_mhz :: u32
  ab_offset_mhz :: i32
  ab_effective_mhz :: u32
  ab_role :: anchored_bin_role

record anchored_plan =
  ap_target_mhz :: u32
  ap_anchor :: positive_offset_plan
  ap_entries :: "anchored_bin_entry list"
  ap_capped_above_bins :: u32
  ap_above_already_ok_bins :: u32
  ap_elastic_below_bins :: u32
  ap_max_positive_offset_mhz :: i32
  ap_max_negative_flatten_mhz :: i32

text \<open>One turn of the loop over the curve: the entry, or the refusal.\<close>

definition anchored_entry ::
  "positive_offset_plan \<Rightarrow> u32 \<Rightarrow> usize \<times> u32 \<times> u32 \<Rightarrow> (plan_error, anchored_bin_entry) result" where
  "anchored_entry anchor target p =
     (case p of (index, voltage, base) \<Rightarrow>
        if index = po_index anchor
        then Inr \<lparr>ab_index = index, ab_voltage_mv = voltage, ab_base_mhz = base,
                  ab_offset_mhz = po_offset_mhz anchor, ab_effective_mhz = target, ab_role = Anchor\<rparr>
        else if voltage > po_voltage_mv anchor
        then (let target_i = as_i32 target; base_i = as_i32 base;
                  offset = (if base_i > target_i then i32_sub target_i base_i else 0)
              in if offset > 0 then Inl (AnchoredNeedsRaise voltage offset)
                 else let effective = i32_add base_i offset
                 in if effective > target_i then Inl (AnchoredStaysAbove voltage effective)
                    else Inr \<lparr>ab_index = index, ab_voltage_mv = voltage, ab_base_mhz = base,
                              ab_offset_mhz = offset, ab_effective_mhz = as_u32 (max effective 0),
                              ab_role = CappedAbove\<rparr>)
        else if as_i32 base > as_i32 target then Inl (AnchoredNonMonotone voltage base)
        else Inr \<lparr>ab_index = index, ab_voltage_mv = voltage, ab_base_mhz = base, ab_offset_mhz = 0,
                  ab_effective_mhz = base, ab_role = ElasticBelow\<rparr>)"

fun collect_results :: "('e, 'a) result list \<Rightarrow> ('e, 'a list) result" where
  "collect_results [] = Inr []"
| "collect_results (r # rs) =
     (case r of
        Inl e \<Rightarrow> Inl e
      | Inr x \<Rightarrow> (case collect_results rs of Inl e \<Rightarrow> Inl e | Inr xs \<Rightarrow> Inr (x # xs)))"

definition plan_anchored ::
  "vf_curve \<Rightarrow> usize \<Rightarrow> u32 \<Rightarrow> i32 \<Rightarrow> positive_offset_limits \<Rightarrow> (plan_error, anchored_plan) result" where
  "plan_anchored curve bin target prev lim =
     (case plan_bounded_positive_offset curve bin target prev lim of
        Inl e \<Rightarrow> Inl e
      | Inr anchor \<Rightarrow>
          (case collect_results (map (anchored_entry anchor target) curve) of
             Inl e \<Rightarrow> Inl e
           | Inr entries \<Rightarrow>
               (let positive = filter (\<lambda>e. ab_offset_mhz e > 0) entries;
                    above = filter (\<lambda>e. ab_role e = CappedAbove) entries
                in if length positive \<noteq> 1 \<or> ab_index (hd positive) \<noteq> po_index anchor
                   then Inl AnchoredForeignRaise
                   else Inr \<lparr>ap_target_mhz = target, ap_anchor = anchor, ap_entries = entries,
                        ap_capped_above_bins = length (filter (\<lambda>e. ab_offset_mhz e < 0) above),
                        ap_above_already_ok_bins = length (filter (\<lambda>e. \<not> ab_offset_mhz e < 0) above),
                        ap_elastic_below_bins =
                          length (filter (\<lambda>e. ab_role e = ElasticBelow) entries),
                        ap_max_positive_offset_mhz = po_offset_mhz anchor,
                        ap_max_negative_flatten_mhz =
                          fold (\<lambda>e m. if ab_offset_mhz e < 0 then max m (i32_neg (ab_offset_mhz e)) else m)
                            above 0\<rparr>)))"

fun write_anchored ::
  "'d set_point \<Rightarrow> usize \<Rightarrow> anchored_bin_entry list \<Rightarrow> 'd \<Rightarrow> (plan_error, unit) result \<times> 'd" where
  "write_anchored sp anchor [] d = (Inr (), d)"
| "write_anchored sp anchor (e # es) d =
     (if ab_offset_mhz e > 0 \<and> ab_index e \<noteq> anchor
      then (Inl (RefuseForeignRaise (ab_offset_mhz e) (ab_voltage_mv e)), d)
      else case sp (ab_index e) (i32_mul (ab_offset_mhz e) 1000) d of
             (st, d') \<Rightarrow> if st \<noteq> 0 then (Inl (WriteStatus (ab_index e) st), d')
                        else write_anchored sp anchor es d')"

definition apply_anchored ::
  "'d set_point \<Rightarrow> vf_curve \<Rightarrow> usize \<Rightarrow> u32 \<Rightarrow> i32 \<Rightarrow> positive_offset_limits \<Rightarrow> 'd \<Rightarrow>
   (plan_error, anchored_plan) result \<times> 'd" where
  "apply_anchored sp curve bin target prev lim d =
     (case plan_anchored curve bin target prev lim of
        Inl e \<Rightarrow> (Inl e, d)
      | Inr plan \<Rightarrow>
          (let off = po_offset_mhz (ap_anchor plan)
           in if off \<le> 0 \<or> off > abs_max_offset_mhz lim then (Inl (RefuseAnchorOffset off), d)
              else case write_anchored sp (po_index (ap_anchor plan)) (ap_entries plan) d of
                     (Inl e, d') \<Rightarrow> (Inl e, d')
                   | (Inr _, d') \<Rightarrow> (Inr plan, d')))"

section \<open>Lemmas\<close>

lemma as_i32_small [simp]: "n < 2147483648 \<Longrightarrow> as_i32 n = int n"
  by (simp add: as_i32_def is_i32_def)

lemma i32_sub_small [simp]: "is_i32 (a - b) \<Longrightarrow> i32_sub a b = a - b"
  by (simp add: i32_sub_def)

lemma i32_add_small [simp]: "is_i32 (a + b) \<Longrightarrow> i32_add a b = a + b"
  by (simp add: i32_add_def)

lemma i32_mul_small: "is_i32 (a * b) \<Longrightarrow> i32_mul a b = a * b"
  by (simp add: i32_mul_def)

lemma sane_point_bounds: "is_sane_base_curve curve \<Longrightarrow> p \<in> set curve \<Longrightarrow>
    600 \<le> pt_mv p \<and> pt_mv p \<le> 1150 \<and> 500 \<le> pt_mhz p \<and> pt_mhz p \<le> 3500"
  by (auto simp: is_sane_base_curve_def is_sane_base_point_def)

lemma find_SomeD: "find P xs = Some x \<Longrightarrow> P x \<and> x \<in> set xs"
  by (induction xs) (auto split: if_splits)

text \<open>Raising a base clock to a target never wraps unless the target is no clock at all.\<close>

lemma raise_arith:
  assumes "is_u32 target" and "base \<le> 3500"
  shows "i32_add (as_i32 base) (i32_sub (as_i32 target) (as_i32 base)) = as_i32 target"
    and "0 < as_i32 target \<longleftrightarrow> 0 < target \<and> target < 2147483648"
    and "as_u32 (as_i32 target) = target"
proof -
  have b: "as_i32 base = int base" using assms(2) by simp
  show "i32_add (as_i32 base) (i32_sub (as_i32 target) (as_i32 base)) = as_i32 target"
    unfolding b i32_add_def i32_sub_def i32_wrap_add by (simp add: as_i32_def)
  show 3: "as_u32 (as_i32 target) = target"
    using assms(1) by (simp add: as_i32_def as_u32_wrap is_u32_def)
  have rng: "is_i32 (as_i32 target)" by (simp add: as_i32_def)
  show "0 < as_i32 target \<longleftrightarrow> 0 < target \<and> target < 2147483648"
  proof
    assume pos: "0 < as_i32 target"
    then have "as_i32 target mod 4294967296 = as_i32 target" using rng by (simp add: is_i32_def)
    then have "int target = as_i32 target"
      using 3 pos by (simp add: as_u32_def)
    moreover have "as_i32 target < 2147483648" using rng by (simp add: is_i32_def)
    ultimately show "0 < target \<and> target < 2147483648" using pos by linarith
  next
    assume "0 < target \<and> target < 2147483648"
    then show "0 < as_i32 target" by (simp add: as_i32_small)
  qed
qed

lemma plan_bounded_iff:
  assumes "is_u32 target" and "is_i32 prev" and "0 \<le> prev"
  shows "plan_bounded_positive_offset curve bin target prev lim = Inr p \<longleftrightarrow>
    is_sane_base_curve curve \<and> target < 2147483648 \<and>
    (\<exists>i v b. find (\<lambda>q. pt_index q = bin) curve = Some (i, v, b) \<and>
       hw_floor_mv lim \<le> v \<and> b < target \<and>
       int target - int b \<le> abs_max_offset_mhz lim \<and>
       int target - int b - prev \<le> step_max_offset_mhz lim \<and> target \<le> clock_ceiling_mhz lim \<and>
       p = \<lparr>po_index = i, po_voltage_mv = v, po_base_mhz = b, po_offset_mhz = int target - int b,
            po_prev_offset_mhz = prev, po_step_delta_mhz = int target - int b - prev,
            po_effective_mhz = target\<rparr>)"
proof (cases "is_sane_base_curve curve \<and> find (\<lambda>q. pt_index q = bin) curve \<noteq> None")
  case False
  then show ?thesis
    by (auto simp: plan_bounded_positive_offset_def split: option.splits)
next
  case True
  then obtain i v b where f: "find (\<lambda>q. pt_index q = bin) curve = Some (i, v, b)" by auto
  have b: "b \<le> 3500"
    using sane_point_bounds True find_SomeD [OF f] by fastforce
  have ne: "curve \<noteq> []" using True by (auto simp: is_sane_base_curve_def)
  show ?thesis
  proof (cases "0 < target \<and> target < 2147483648")
    case pos: True
    have o: "i32_sub (as_i32 target) (as_i32 b) = int target - int b"
      using pos b by (simp add: is_i32_def)
    have st: "0 < int target - int b \<Longrightarrow> i32_sub (int target - int b) prev = int target - int b - prev"
      using pos b assms(2,3) by (simp add: is_i32_def)
    have e: "i32_add (as_i32 b) (int target - int b) = int target" "as_u32 (int target) = target"
      using raise_arith [OF assms(1) b] pos o by simp_all
    show ?thesis
      unfolding plan_bounded_positive_offset_def f Let_def option.case prod.case o
      using True ne pos st e by auto
  next
    case False
    have e: "i32_add (as_i32 b) (i32_sub (as_i32 target) (as_i32 b)) \<le> 0"
      using raise_arith [OF assms(1) b] False by auto
    show ?thesis
      unfolding plan_bounded_positive_offset_def f Let_def option.case prod.case
      using True ne False e by auto
  qed
qed

lemma collect_results_InrD: "collect_results (map f xs) = Inr ys \<Longrightarrow> list_all2 (\<lambda>x y. f x = Inr y) xs ys"
  by (induction xs arbitrary: ys) (auto split: sum.splits)

lemmas anchored_cases = anchored_entry_def Let_def

text \<open>What one entry of a successful anchored plan says about its bin.\<close>

lemma anchored_entry_ok:
  assumes "anchored_entry a target (i, v, b) = Inr e" and "target < 2147483648" and "b \<le> 3500"
    and "i = po_index a \<Longrightarrow> po_offset_mhz a = int target - int b"
  shows "ab_index e = i \<and> ab_voltage_mv e = v \<and> ab_base_mhz e = b \<and>
    int (ab_effective_mhz e) = int b + ab_offset_mhz e \<and> ab_effective_mhz e \<le> target \<and>
    (i \<noteq> po_index a \<longrightarrow> ab_offset_mhz e \<le> 0) \<and>
    (i = po_index a \<longrightarrow> ab_effective_mhz e = target) \<and>
    (i \<noteq> po_index a \<and> v \<le> po_voltage_mv a \<longrightarrow> ab_offset_mhz e = 0) \<and>
    (po_voltage_mv a < v \<and> i \<noteq> po_index a \<longrightarrow> ab_effective_mhz e = min b target)"
proof -
  have s: "as_i32 target = int target" "as_i32 b = int b"
    "i32_sub (int target) (int b) = int target - int b"
    using assms(2,3) by (simp_all add: is_i32_def)
  have r: "i32_add (int b) (int target - int b) = int target" "i32_add (int b) 0 = int b"
    using assms(2,3) by (simp_all add: is_i32_def)
  consider "i = po_index a" | "i \<noteq> po_index a" "po_voltage_mv a < v" "b > target"
    | "i \<noteq> po_index a" "po_voltage_mv a < v" "b \<le> target" | "i \<noteq> po_index a" "v \<le> po_voltage_mv a"
    by linarith
  then show ?thesis
  proof cases
    case 1
    then show ?thesis using assms(1,4) by (auto simp: anchored_cases)
  next
    case 2
    then show ?thesis
      using assms(1,2) r by (auto simp: anchored_cases s as_u32_def split: if_splits)
  next
    case 3
    then show ?thesis
      using assms(1,2,3) r by (auto simp: anchored_cases s as_u32_def split: if_splits)
  next
    case 4
    then show ?thesis using assms(1) by (auto simp: anchored_cases s split: if_splits)
  qed
qed

lemma list_all2_right: "list_all2 P xs ys \<Longrightarrow> \<forall>y\<in>set ys. \<exists>x\<in>set xs. P x y"
  by (induction xs ys rule: list_all2_induct) auto

lemma list_all2_left: "list_all2 P xs ys \<Longrightarrow> \<forall>x\<in>set xs. \<exists>y\<in>set ys. P x y"
  by (induction xs ys rule: list_all2_induct) auto

lemma plan_anchored_Inr:
  assumes "plan_anchored curve bin target prev lim = Inr plan"
  shows "plan_bounded_positive_offset curve bin target prev lim = Inr (ap_anchor plan) \<and>
    ap_target_mhz plan = target \<and>
    list_all2 (\<lambda>q e. anchored_entry (ap_anchor plan) target q = Inr e) curve (ap_entries plan)"
  using assms collect_results_InrD
  by (auto simp: plan_anchored_def Let_def split: sum.splits if_splits)

lemma find_distinct:
  "distinct (map pt_index curve) \<Longrightarrow> (i, v, b) \<in> set curve \<Longrightarrow>
   find (\<lambda>q. pt_index q = i) curve = Some (i, v, b)"
  by (induction curve) (auto simp: rev_image_eqI)

text \<open>The meaning of an accepted anchored plan, bin by bin.\<close>

definition entry_fits :: "usize \<Rightarrow> u32 \<Rightarrow> u32 \<Rightarrow> usize \<times> u32 \<times> u32 \<Rightarrow> anchored_bin_entry \<Rightarrow> bool" where
  "entry_fits bin anchor_mv target q e \<longleftrightarrow>
     q = (ab_index e, ab_voltage_mv e, ab_base_mhz e) \<and> ab_base_mhz e \<le> 3500 \<and>
     int (ab_effective_mhz e) = int (ab_base_mhz e) + ab_offset_mhz e \<and> ab_effective_mhz e \<le> target \<and>
     (if ab_index e = bin then 0 < ab_offset_mhz e \<and> ab_effective_mhz e = target
      else if ab_voltage_mv e \<le> anchor_mv then ab_offset_mhz e = 0
      else ab_effective_mhz e = min (ab_base_mhz e) target)"

lemma plan_anchored_fits:
  assumes "plan_anchored curve bin target prev lim = Inr plan"
    and "is_u32 target" "is_i32 prev" "0 \<le> prev" "distinct (map pt_index curve)"
  shows "list_all2 (entry_fits bin (po_voltage_mv (ap_anchor plan)) target) curve (ap_entries plan)"
proof -
  note P = plan_anchored_Inr [OF assms(1)]
  define a where "a = ap_anchor plan"
  obtain i0 v0 b0 where f: "find (\<lambda>q. pt_index q = bin) curve = Some (i0, v0, b0)"
    and a: "po_index a = bin" "po_offset_mhz a = int target - int b0" "target < 2147483648"
      "is_sane_base_curve curve" "b0 < target"
    using P plan_bounded_iff [OF assms(2-4)] find_SomeD unfolding a_def by fastforce
  have "list_all2 (\<lambda>q e. anchored_entry a target q = Inr e) curve (ap_entries plan)"
    using P by (simp add: a_def)
  then show ?thesis
    unfolding a_def [symmetric]
  proof (rule list.rel_mono_strong)
    fix q e
    assume q: "q \<in> set curve" and e: "anchored_entry a target q = Inr e"
    obtain i v b where ivb: "q = (i, v, b)" by (cases q)
    have b: "b \<le> 3500" using sane_point_bounds [OF a(4) q] by (simp add: ivb)
    have off: "po_offset_mhz a = int target - int b \<and> b < target" if "i = po_index a"
      using find_distinct [OF assms(5), of i v b] f q a that by (simp add: ivb)
    show "entry_fits bin (po_voltage_mv a) target q e"
      using anchored_entry_ok [OF e [unfolded ivb] a(3) b] off a(1) b
      by (auto simp: ivb entry_fits_def)
  qed
qed

text \<open>A device on which an accepted write is read back and touches no other point.\<close>

definition lawful_points :: "'d set_point \<Rightarrow> (usize \<Rightarrow> 'd \<Rightarrow> i32 option) \<Rightarrow> bool" where
  "lawful_points sp gp \<longleftrightarrow>
     (\<forall>i x d. fst (sp i x d) = 0 \<longrightarrow>
        gp i (snd (sp i x d)) = Some x \<and> (\<forall>j. j \<noteq> i \<longrightarrow> gp j (snd (sp i x d)) = gp j d))"

lemma lawful_pointsD:
  "lawful_points sp gp \<Longrightarrow> sp i x d = (0, d') \<Longrightarrow>
   gp i d' = Some x \<and> (\<forall>j. j \<noteq> i \<longrightarrow> gp j d' = gp j d)"
  unfolding lawful_points_def by (metis fst_conv snd_conv)

lemma write_anchored_ok:
  assumes "lawful_points sp gp" and "write_anchored sp anchor es d = (Inr u, d')"
    and "distinct (map ab_index es)"
  shows "(\<forall>e\<in>set es. gp (ab_index e) d' = Some (i32_mul (ab_offset_mhz e) 1000)) \<and>
    (\<forall>j. j \<notin> ab_index ` set es \<longrightarrow> gp j d' = gp j d)"
  using assms(2,3)
proof (induction es arbitrary: d)
  case Nil
  then show ?case by simp
next
  case (Cons e es)
  obtain d1 where sp: "sp (ab_index e) (i32_mul (ab_offset_mhz e) 1000) d = (0, d1)"
    and rest: "write_anchored sp anchor es d1 = (Inr u, d')"
    using Cons.prems(1) by (auto split: if_splits prod.splits)
  have IH: "(\<forall>e\<in>set es. gp (ab_index e) d' = Some (i32_mul (ab_offset_mhz e) 1000)) \<and>
      (\<forall>j. j \<notin> ab_index ` set es \<longrightarrow> gp j d' = gp j d1)"
    using Cons.IH [OF rest] Cons.prems(2) by simp
  show ?case
    using lawful_pointsD [OF assms(1) sp] IH Cons.prems(2) by auto
qed

lemma entries_indices:
  "list_all2 (entry_fits bin mv target) curve es \<Longrightarrow> map ab_index es = map pt_index curve"
  by (induction curve es rule: list_all2_induct) (auto simp: entry_fits_def)

lemma apply_anchored_ok:
  assumes "apply_anchored sp curve bin target prev lim d = (Inr plan, d')"
    and "lawful_points sp gp" and "distinct (map pt_index curve)"
    and "is_u32 target" "is_i32 prev" "0 \<le> prev" and "clock_ceiling_mhz lim \<le> 2000000"
  shows "list_all2 (\<lambda>q e. entry_fits bin (po_voltage_mv (ap_anchor plan)) target q e \<and>
        gp (pt_index q) d' = Some (ab_offset_mhz e * 1000)) curve (ap_entries plan) \<and>
    (\<forall>j. j \<notin> pt_index ` set curve \<longrightarrow> gp j d' = gp j d)"
proof -
  have pl: "plan_anchored curve bin target prev lim = Inr plan"
    and w: "write_anchored sp (po_index (ap_anchor plan)) (ap_entries plan) d = (Inr (), d')"
    using assms(1) by (auto simp: apply_anchored_def Let_def split: sum.splits if_splits prod.splits)
  note fits = plan_anchored_fits [OF pl assms(4-6,3)]
  note idx = entries_indices [OF fits]
  have dist: "distinct (map ab_index (ap_entries plan))" using assms(3) idx by simp
  note W = write_anchored_ok [OF assms(2) w dist]
  have tgt: "target \<le> 2000000"
    using plan_anchored_Inr [OF pl] plan_bounded_iff [OF assms(4-6)] assms(7) by auto
  show ?thesis
  proof (intro conjI)
    show "list_all2 (\<lambda>q e. entry_fits bin (po_voltage_mv (ap_anchor plan)) target q e \<and>
        gp (pt_index q) d' = Some (ab_offset_mhz e * 1000)) curve (ap_entries plan)"
      using fits
    proof (rule list.rel_mono_strong)
      fix q e
      assume e: "e \<in> set (ap_entries plan)"
        and fit: "entry_fits bin (po_voltage_mv (ap_anchor plan)) target q e"
      then have "is_i32 (ab_offset_mhz e * 1000)"
        using tgt by (auto simp: entry_fits_def is_i32_def)
      then have "i32_mul (ab_offset_mhz e) 1000 = ab_offset_mhz e * 1000" by (rule i32_mul_small)
      then show "entry_fits bin (po_voltage_mv (ap_anchor plan)) target q e \<and>
          gp (pt_index q) d' = Some (ab_offset_mhz e * 1000)"
        using fit W e by (auto simp: entry_fits_def)
    qed
    have "pt_index ` set curve = ab_index ` set (ap_entries plan)"
      using idx by (metis set_map)
    then show "\<forall>j. j \<notin> pt_index ` set curve \<longrightarrow> gp j d' = gp j d" using W by simp
  qed
qed

lemma anchor_entry_offset:
  assumes "plan_anchored curve bin target prev lim = Inr plan" and "e \<in> set (ap_entries plan)"
    and "ab_index e = po_index (ap_anchor plan)"
  shows "ab_offset_mhz e = po_offset_mhz (ap_anchor plan)"
proof -
  obtain q where "anchored_entry (ap_anchor plan) target q = Inr e"
    using bspec [OF list_all2_right [OF conjunct2 [OF conjunct2 [OF plan_anchored_Inr [OF assms(1)]]]]
        assms(2)] by blast
  then obtain i v b where q: "anchored_entry (ap_anchor plan) target (i, v, b) = Inr e" by (cases q) blast
  have "ab_index e = i" using q by (auto simp: anchored_cases split: if_splits)
  with assms(3) have "i = po_index (ap_anchor plan)" by simp
  with q show ?thesis by (auto simp: anchored_cases)
qed

lemma plan_anchored_anchor:
  assumes "plan_anchored curve bin target prev lim = Inr plan"
    and "is_u32 target" "is_i32 prev" "0 \<le> prev"
  shows "ap_target_mhz plan = target \<and> po_index (ap_anchor plan) = bin \<and> bin \<in> pt_index ` set curve \<and>
    target \<le> clock_ceiling_mhz lim \<and> 0 < po_offset_mhz (ap_anchor plan) \<and>
    po_offset_mhz (ap_anchor plan) \<le> int target \<and> target < 2147483648 \<and>
    po_voltage_mv (ap_anchor plan) \<ge> hw_floor_mv lim \<and>
    (bin, po_voltage_mv (ap_anchor plan), po_base_mhz (ap_anchor plan)) \<in> set curve"
proof -
  have "plan_bounded_positive_offset curve bin target prev lim = Inr (ap_anchor plan)"
    using plan_anchored_Inr [OF assms(1)] by simp
  then obtain i v b where f: "find (\<lambda>q. pt_index q = bin) curve = Some (i, v, b)"
    and r: "hw_floor_mv lim \<le> v" "b < target" "target \<le> clock_ceiling_mhz lim" "target < 2147483648"
      "ap_anchor plan = \<lparr>po_index = i, po_voltage_mv = v, po_base_mhz = b,
          po_offset_mhz = int target - int b, po_prev_offset_mhz = prev,
          po_step_delta_mhz = int target - int b - prev, po_effective_mhz = target\<rparr>"
    using plan_bounded_iff [OF assms(2-4)] by blast
  have "i = bin" "(bin, v, b) \<in> set curve" using find_SomeD [OF f] by auto
  moreover from this(2) have "bin \<in> pt_index ` set curve" by force
  ultimately show ?thesis using r plan_anchored_Inr [OF assms(1)] by auto
qed

text \<open>The raise of an accepted plan stays within the caps of its limits.\<close>

lemma plan_anchored_capped:
  assumes pl: "plan_anchored curve bin target prev lim = Inr plan"
    and "is_u32 target" "is_i32 prev" "0 \<le> prev" "distinct (map pt_index curve)"
    and e: "e \<in> set (ap_entries plan)" "0 < ab_offset_mhz e"
  shows "ab_index e = bin \<and> ab_offset_mhz e \<le> abs_max_offset_mhz lim \<and>
    ab_offset_mhz e - prev \<le> step_max_offset_mhz lim"
proof -
  have fits: "list_all2 (entry_fits bin (po_voltage_mv (ap_anchor plan)) target) curve (ap_entries plan)"
    using plan_anchored_fits [OF pl] assms by blast
  obtain q where q: "entry_fits bin (po_voltage_mv (ap_anchor plan)) target q e"
    using list_all2_right [OF fits] e(1) by blast
  then have idx: "ab_index e = bin" using e(2) by (auto simp: entry_fits_def split: if_splits)
  have anchor: "po_index (ap_anchor plan) = bin" using plan_anchored_anchor [OF pl assms(2-4)] by simp
  have "ab_offset_mhz e = po_offset_mhz (ap_anchor plan)"
    using anchor_entry_offset [OF pl e(1)] idx anchor by simp
  moreover have "plan_bounded_positive_offset curve bin target prev lim = Inr (ap_anchor plan)"
    using plan_anchored_Inr [OF pl] by simp
  then have "po_offset_mhz (ap_anchor plan) \<le> abs_max_offset_mhz lim \<and>
      po_offset_mhz (ap_anchor plan) - prev \<le> step_max_offset_mhz lim"
    using plan_bounded_iff [OF assms(2-4), of curve bin lim "ap_anchor plan"] by auto
  ultimately show ?thesis using idx by simp
qed

section \<open>Properties\<close>

text \<open>The single-bin planner accepts exactly the raises inside its bounds: a sane curve that has the
  bin, at or above the hardware floor, a target above the base clock, within the absolute offset, the
  step and the clock ceiling; the plan it returns ends on the target clock without wrap-around.\<close>

lemma bounded_plan_exact:
  assumes "is_u32 target" and "is_i32 prev" and "0 \<le> prev"
  shows "plan_bounded_positive_offset curve bin target prev lim = Inr p \<longleftrightarrow>
    is_sane_base_curve curve \<and> target < 2147483648 \<and>
    (\<exists>i v b. find (\<lambda>q. pt_index q = bin) curve = Some (i, v, b) \<and>
       hw_floor_mv lim \<le> v \<and> b < target \<and>
       int target - int b \<le> abs_max_offset_mhz lim \<and>
       int target - int b - prev \<le> step_max_offset_mhz lim \<and> target \<le> clock_ceiling_mhz lim \<and>
       p = \<lparr>po_index = i, po_voltage_mv = v, po_base_mhz = b, po_offset_mhz = int target - int b,
            po_prev_offset_mhz = prev, po_step_delta_mhz = int target - int b - prev,
            po_effective_mhz = target\<rparr>)"
  by (rule plan_bounded_iff [OF assms])

definition sample_curve :: vf_curve where
  "sample_curve = [(40, 800, 1800), (41, 850, 1900), (42, 900, 2000)]"

text \<open>C33: a successful anchored write leaves on the device exactly the plan it returns: one bin, the
  anchor, is raised to the target, by no more than the absolute cap and by no more than the step cap over
  the offset of before; no bin ends above the target; bins at or below the anchor voltage
  keep their base clock; bins above it are capped to the target and never raised; points outside the
  curve are untouched.\<close>

theorem anchored_write_shape:
  assumes "apply_anchored sp curve bin target prev lim d = (Inr plan, d')"
    and "lawful_points sp gp" and "distinct (map pt_index curve)"
    and "is_u32 target" "is_i32 prev" "0 \<le> prev" and "clock_ceiling_mhz lim \<le> 2000000"
  shows "list_all2 (\<lambda>q e. entry_fits bin (po_voltage_mv (ap_anchor plan)) target q e \<and>
        gp (pt_index q) d' = Some (ab_offset_mhz e * 1000)) curve (ap_entries plan) \<and>
    (\<forall>e\<in>set (ap_entries plan). 0 < ab_offset_mhz e \<longrightarrow> ab_index e = bin \<and>
       ab_offset_mhz e \<le> abs_max_offset_mhz lim \<and> ab_offset_mhz e - prev \<le> step_max_offset_mhz lim) \<and>
    (\<forall>j. j \<notin> pt_index ` set curve \<longrightarrow> gp j d' = gp j d)"
proof -
  have "plan_anchored curve bin target prev lim = Inr plan"
    using assms(1) by (auto simp: apply_anchored_def Let_def split: sum.splits if_splits prod.splits)
  from plan_anchored_capped [OF this assms(4-6,3)] apply_anchored_ok [OF assms] show ?thesis by blast
qed

text \<open>A device that stores every offset.\<close>

definition table_set :: "usize \<Rightarrow> i32 \<Rightarrow> (usize \<Rightarrow> i32) \<Rightarrow> i32 \<times> (usize \<Rightarrow> i32)" where
  "table_set i x d = (0, d(i := x))"

definition table_get :: "usize \<Rightarrow> (usize \<Rightarrow> i32) \<Rightarrow> i32 option" where
  "table_get i d = Some (d i)"

lemma lawful_table: "lawful_points table_set table_get"
  by (simp add: lawful_points_def table_set_def table_get_def)

lemma sample_run:
  "\<exists>plan d'. apply_anchored table_set sample_curve 41 1915 0 (limits_conservative 800 2100) (\<lambda>_. 7) =
     (Inr plan, d')"
  by (simp add: apply_anchored_def plan_anchored_def plan_bounded_positive_offset_def sample_curve_def
        is_sane_base_curve_def is_sane_base_point_def limits_conservative_def is_i32_def as_u32_def
        anchored_entry_def Let_def table_set_def)

theorem anchored_write_shape_witness:
  "\<exists>plan d'. apply_anchored table_set sample_curve 41 1915 0 (limits_conservative 800 2100) (\<lambda>_. 7) =
       (Inr plan, d') \<and> d' 99 = 7 \<and> (\<forall>e\<in>set (ap_entries plan). ab_offset_mhz e \<le> 75) \<and>
     map (\<lambda>e. d' (ab_index e)) (ap_entries plan) = map (\<lambda>e. ab_offset_mhz e * 1000) (ap_entries plan)"
proof -
  obtain plan d' where run:
    "apply_anchored table_set sample_curve 41 1915 0 (limits_conservative 800 2100) (\<lambda>_. 7) = (Inr plan, d')"
    using sample_run by blast
  have *: "list_all2 (\<lambda>q e. entry_fits 41 (po_voltage_mv (ap_anchor plan)) 1915 q e \<and>
        table_get (pt_index q) d' = Some (ab_offset_mhz e * 1000)) sample_curve (ap_entries plan) \<and>
      (\<forall>e\<in>set (ap_entries plan). 0 < ab_offset_mhz e \<longrightarrow> ab_index e = 41 \<and>
         ab_offset_mhz e \<le> abs_max_offset_mhz (limits_conservative 800 2100) \<and>
         ab_offset_mhz e - 0 \<le> step_max_offset_mhz (limits_conservative 800 2100)) \<and>
      (\<forall>j. j \<notin> pt_index ` set sample_curve \<longrightarrow> table_get j d' = table_get j (\<lambda>_. 7))"
    by (rule anchored_write_shape [OF run lawful_table])
      (simp_all add: sample_curve_def is_u32_def is_i32_def limits_conservative_def)
  have "map (\<lambda>e. d' (ab_index e)) es = map (\<lambda>e. ab_offset_mhz e * 1000) es"
    if "list_all2 (\<lambda>q e. entry_fits 41 mv 1915 q e \<and>
        table_get (pt_index q) d' = Some (ab_offset_mhz e * 1000)) c es" for mv c es
    using that by (induction c es rule: list_all2_induct) (auto simp: entry_fits_def table_get_def)
  moreover have "\<forall>e\<in>set (ap_entries plan). ab_offset_mhz e \<le> 75"
    using * by (force simp: limits_conservative_def)
  ultimately show ?thesis using * run by (auto simp: table_get_def sample_curve_def)
qed

text \<open>The build-frontier ceiling never raises a bin: below the ceiling voltage every offset is zero,
  at or above it every bin ends at the smaller of its base clock and the target, and the writer's
  refusal of a positive offset is never reached.\<close>

lemma monotone_ceiling_never_raises:
  assumes "\<forall>q\<in>set curve. pt_mhz q < 2147483648" and "target < 2147483648"
  shows "list_all2 (\<lambda>(i, v, b) e. we_index e = i \<and> we_desired_offset_mhz e \<le> 0 \<and>
        int b + we_desired_offset_mhz e = (if ceiling \<le> v then min (int b) (int target) else int b))
      curve (plan_vf_ceiling_monotone curve ceiling target) \<and>
    fst (apply_vf_ceiling_monotone sp curve ceiling target d) \<noteq> Inl (PositiveInMonotone off i)"
proof (intro conjI)
  show L: "list_all2 (\<lambda>(i, v, b) e. we_index e = i \<and> we_desired_offset_mhz e \<le> 0 \<and>
        int b + we_desired_offset_mhz e = (if ceiling \<le> v then min (int b) (int target) else int b))
      curve (plan_vf_ceiling_monotone curve ceiling target)"
    unfolding plan_vf_ceiling_monotone_def list_all2_map2
    by (rule list_all2_same [THEN iffD2]) (use assms in \<open>auto simp: is_i32_def Let_def\<close>)
  have "\<forall>e\<in>set es. we_desired_offset_mhz e \<le> 0 \<Longrightarrow>
      fst (write_monotone sp n es d) \<noteq> Inl (PositiveInMonotone off i)" for es n d
    by (induction es arbitrary: n d) (auto split: prod.splits)
  moreover have "\<forall>e\<in>set (plan_vf_ceiling_monotone curve ceiling target). we_desired_offset_mhz e \<le> 0"
    using list_all2_right [OF L] by auto
  ultimately show "fst (apply_vf_ceiling_monotone sp curve ceiling target d) \<noteq> Inl (PositiveInMonotone off i)"
    by (auto simp: apply_vf_ceiling_monotone_def Let_def)
qed

text \<open>On some drivers a write is accepted and ignored: all the reset relies on is that a write touches
  only its own point.\<close>

definition isolated_points :: "'d set_point \<Rightarrow> (usize \<Rightarrow> 'd \<Rightarrow> i32 option) \<Rightarrow> bool" where
  "isolated_points sp gp \<longleftrightarrow> (\<forall>i j x d. j \<noteq> i \<longrightarrow> gp j (snd (sp i x d)) = gp j d)"

definition near_zero :: "i32 option \<Rightarrow> bool" where
  "near_zero r = is_some_and r (\<lambda>khz. is_i32 khz \<and> khz \<noteq> - (2 ^ 31) \<longrightarrow> \<bar>khz\<bar> \<le> 1000)"

lemma reset_points_ok:
  assumes "reset_points valid sp gp n is d = (Inr m, d')"
    and "isolated_points sp gp" and "\<And>i j x d. valid i (snd (sp j x d)) = valid i d" and "distinct is"
  shows "m = n + length (filter (\<lambda>i. valid i d) is) \<and>
    (\<forall>i\<in>set is. valid i d \<longrightarrow> near_zero (gp i d')) \<and> (\<forall>j. j \<notin> set is \<longrightarrow> gp j d' = gp j d)"
  using assms(1,4)
proof (induction "is" arbitrary: n d)
  case Nil
  then show ?case by simp
next
  case (Cons i "is")
  show ?case
  proof (cases "valid i d")
    case False
    then show ?thesis using Cons by auto
  next
    case True
    then obtain d1 k where sp: "sp i 0 d = (0, d1)" and k: "gp i d1 = Some k" "i32_wrap \<bar>k\<bar> \<le> 1000"
      and rest: "reset_points valid sp gp (n + 1) is d1 = (Inr m, d')"
      using Cons.prems(1) by (auto split: prod.splits option.splits if_splits)
    have v: "valid j d1 = valid j d" for j using assms(3) [of j i 0 d] by (simp add: sp)
    have fr: "j \<noteq> i \<Longrightarrow> gp j d1 = gp j d" for j
      using assms(2) sp unfolding isolated_points_def by (metis snd_conv)
    have "\<bar>k\<bar> \<le> 1000" if "is_i32 k" "k \<noteq> - (2 ^ 31)"
    proof -
      have "is_i32 \<bar>k\<bar>" using that by (auto simp: is_i32_def)
      with k(2) show ?thesis by simp
    qed
    then have "near_zero (gp i d1)" using k(1) by (simp add: near_zero_def)
    then show ?thesis
      using Cons.IH [OF rest] Cons.prems(2) True v fr by auto
  qed
qed

text \<open>A checked reset that reports success has read an offset of at most one MHz back from every valid
  point of the table, even on a driver that ignores writes, has counted each point once and has left
  every other point alone.\<close>

lemma checked_reset_zeroes:
  assumes "reset_vf_curve_checked valid sp gp d = (Inr m, d')"
    and "isolated_points sp gp" and "\<And>i j x d. valid i (snd (sp j x d)) = valid i d"
  shows "m = length (filter (\<lambda>i. valid i d) [0..<255]) \<and>
    (\<forall>i<255. valid i d \<longrightarrow> near_zero (gp i d')) \<and> (\<forall>j\<ge>255. gp j d' = gp j d)"
  using reset_points_ok [OF assms(1) [unfolded reset_vf_curve_checked_def] assms(2,3)] by auto

lemma reset_table:
  "fst (reset_points (\<lambda>i _. i < 2) table_set table_get n is d) \<noteq> Inl e"
  by (induction "is" arbitrary: n d) (simp_all add: table_set_def table_get_def is_i32_def)

end
