(* ===== verification/CoreSeed.thy ===== *)
theory CoreSeed
  imports VfPlan
begin

text \<open>
  The stock reference of \<open>crates/service/src/gpu_power_sweep.rs\<close>: the sanity filter of a raw
  voltage/frequency read, the split into contiguous voltage runs, the choice of the core cluster and
  the seed derived from it. A lone point far above the dense core must not become the clock ceiling
  that every later raise is measured against; the lemmas say when it cannot.
\<close>

section \<open>Sane points and clusters\<close>

definition is_sane_core_point :: "u32 \<Rightarrow> u32 \<Rightarrow> bool" where
  "is_sane_core_point mv mhz \<longleftrightarrow> 500 \<le> mhz \<and> mhz \<le> 3500 \<and> 600 \<le> mv \<and> mv \<le> 1150"

definition sane_core_points :: "vf_curve \<Rightarrow> vf_curve" where
  "sane_core_points curve = filter (\<lambda>p. is_sane_core_point (pt_mv p) (pt_mhz p)) curve"

record core_cluster =
  cc_v_min :: u32
  cc_v_max :: u32
  cc_f_min :: u32
  cc_f_max :: u32
  cc_count :: nat
  cc_bins :: "u32 list"

definition core_cluster_gap_mv :: u32 where "core_cluster_gap_mv = 60"
definition min_core_cluster_points :: nat where "min_core_cluster_points = 8"

text \<open>One point of the loop: it joins the last run or opens a new one.\<close>

definition join_run :: "vf_curve list \<Rightarrow> usize \<times> u32 \<times> u32 \<Rightarrow> vf_curve list" where
  "join_run cs p =
     (if cs \<noteq> [] \<and> u32_sat_sub (pt_mv p) (pt_mv (last (last cs))) \<le> core_cluster_gap_mv
      then butlast cs @ [last cs @ [p]] else cs @ [[p]])"

definition voltage_runs :: "vf_curve \<Rightarrow> vf_curve list" where
  "voltage_runs sane = fold (\<lambda>p cs. join_run cs p) (sort_key (\<lambda>p. (pt_mv p, pt_index p)) sane) []"

definition largest_run :: "vf_curve list \<Rightarrow> vf_curve" where
  "largest_run cs = hd (sort_key (\<lambda>c. (- int (length c), pt_mv (hd c))) cs)"

datatype seed_error =
  NoSanePoints
| ClusterTooSmall nat
| BoostAboveHardMax u32
| StartAboveHardMax u32

definition select_core_cluster :: "vf_curve \<Rightarrow> (seed_error, core_cluster) result" where
  "select_core_cluster sane =
     (if sane = [] then Inl NoSanePoints
      else let chosen = largest_run (voltage_runs sane)
      in if length chosen < min_core_cluster_points then Inl (ClusterTooSmall (length chosen))
      else Inr \<lparr>cc_v_min = pt_mv (hd chosen), cc_v_max = pt_mv (last chosen),
                cc_f_min = Min (set (map pt_mhz chosen)), cc_f_max = Max (set (map pt_mhz chosen)),
                cc_count = length chosen, cc_bins = remdups_adj (map pt_mv chosen)\<rparr>)"

section \<open>The seed\<close>

datatype seed_warning = BoostAboveSoftWarn u32 | OutliersAbove nat u32

record core_seed =
  cs_boost_max :: u32
  cs_sustained :: u32
  cs_safe_start :: u32
  cs_raw :: nat
  cs_retained :: nat
  cs_rejected :: nat
  cs_rejected_max_freq :: "u32 option"
  cs_rejected_max_voltage :: "u32 option"
  cs_cluster :: core_cluster
  cs_outliers_above :: nat
  cs_warnings :: "seed_warning list"

definition max_opt :: "u32 list \<Rightarrow> u32 option" where
  "max_opt xs = (if xs = [] then None else Some (Max (set xs)))"

definition derive_core_seed :: "vf_curve \<Rightarrow> (seed_error, core_seed) result" where
  "derive_core_seed curve =
     (let sane = sane_core_points curve;
          insane = filter (\<lambda>p. \<not> is_sane_core_point (pt_mv p) (pt_mhz p)) curve
      in if sane = [] then Inl NoSanePoints
         else case select_core_cluster sane of
           Inl e \<Rightarrow> Inl e
         | Inr cluster \<Rightarrow>
             (let boost = cc_f_max cluster; start = cc_v_max cluster;
                  above = length (filter (\<lambda>p. pt_mv p > start) sane)
              in if boost > 3500 then Inl (BoostAboveHardMax boost)
                 else if start > 1150 then Inl (StartAboveHardMax start)
                 else Inr \<lparr>cs_boost_max = boost, cs_sustained = boost, cs_safe_start = start,
                           cs_raw = length curve, cs_retained = length sane,
                           cs_rejected = length curve - length sane,
                           cs_rejected_max_freq = max_opt (map pt_mhz insane),
                           cs_rejected_max_voltage = max_opt (map pt_mv insane),
                           cs_cluster = cluster, cs_outliers_above = above,
                           cs_warnings =
                             (if boost > 3200 then [BoostAboveSoftWarn boost] else []) @
                             (if above > 0 then [OutliersAbove above start] else [])\<rparr>))"

definition f2_stock_clock_ceiling :: "vf_curve \<Rightarrow> (seed_error, u32) result" where
  "f2_stock_clock_ceiling live =
     (case derive_core_seed live of Inl e \<Rightarrow> Inl e | Inr seed \<Rightarrow> Inr (cs_boost_max seed))"

section \<open>Lemmas\<close>

text \<open>Neighbours of a run are at most the gap apart; neighbouring runs are further apart.\<close>

definition close :: "usize \<times> u32 \<times> u32 \<Rightarrow> usize \<times> u32 \<times> u32 \<Rightarrow> bool" where
  "close p q \<longleftrightarrow> pt_mv q - pt_mv p \<le> core_cluster_gap_mv"

definition runs_ok :: "vf_curve list \<Rightarrow> bool" where
  "runs_ok cs \<longleftrightarrow>
     (\<forall>c\<in>set cs. c \<noteq> [] \<and> successively close c) \<and>
     successively (\<lambda>c d. \<not> close (last c) (hd d)) cs"

lemma runs_ok_snoc_new:
  "runs_ok cs \<Longrightarrow> (cs \<noteq> [] \<Longrightarrow> \<not> close (last (last cs)) p) \<Longrightarrow> runs_ok (cs @ [[p]])"
  by (auto simp: runs_ok_def successively_append_iff)

lemma runs_ok_snoc_join:
  assumes "runs_ok (cs @ [c])" and "close (last c) p"
  shows "runs_ok (cs @ [c @ [p]])"
proof -
  have "c \<noteq> []" using assms(1) by (auto simp: runs_ok_def)
  with assms show ?thesis by (auto simp: runs_ok_def successively_append_iff)
qed

lemma runs_ok_join: "runs_ok cs \<Longrightarrow> runs_ok (join_run cs p)"
proof (cases cs rule: rev_cases)
  case Nil
  then show ?thesis by (simp add: join_run_def runs_ok_def)
next
  case (snoc cs' c)
  assume ok: "runs_ok cs"
  show ?thesis
  proof (cases "close (last c) p")
    case True
    then show ?thesis
      using ok runs_ok_snoc_join [of cs' c p] snoc
      by (simp add: join_run_def close_def u32_sat_sub_def)
  next
    case False
    then have "\<not> (cs \<noteq> [] \<and> u32_sat_sub (pt_mv p) (pt_mv (last (last cs))) \<le> core_cluster_gap_mv)"
      using snoc by (simp add: close_def u32_sat_sub_def)
    then show ?thesis
      using ok False runs_ok_snoc_new [of cs p] snoc by (auto simp: join_run_def)
  qed
qed

lemma concat_join: "concat (join_run cs p) = concat cs @ [p]"
  by (cases cs rule: rev_cases) (auto simp: join_run_def)

lemma fold_join:
  "runs_ok cs \<Longrightarrow> runs_ok (fold (\<lambda>p cs. join_run cs p) ps cs) \<and>
     concat (fold (\<lambda>p cs. join_run cs p) ps cs) = concat cs @ ps"
  by (induction ps arbitrary: cs) (auto simp: runs_ok_join concat_join)

lemma voltage_runs_ok:
  "runs_ok (voltage_runs sane) \<and>
   concat (voltage_runs sane) = sort_key (\<lambda>p. (pt_mv p, pt_index p)) sane"
  using fold_join [of "[]"] by (simp add: voltage_runs_def runs_ok_def)

lemma sorted_mv: "sorted (map pt_mv (sort_key (\<lambda>p. (pt_mv p, pt_index p)) sane))"
proof -
  have "sorted (map fst xs)" if "sorted xs" for xs :: "(nat \<times> nat) list"
    using that by (induction xs) (auto simp: less_eq_prod_def)
  from this [OF sorted_sort_key [of "\<lambda>p. (pt_mv p, pt_index p)" sane]] show ?thesis
    by (simp add: comp_def)
qed

lemma sorted_ends:
  fixes f :: "'a \<Rightarrow> 'k::linorder"
  shows "sorted (map f xs) \<Longrightarrow> x \<in> set xs \<Longrightarrow> f (hd xs) \<le> f x \<and> f x \<le> f (last xs)"
  by (induction xs) (auto split: if_splits)

lemma voltage_runs_nonempty: "sane \<noteq> [] \<Longrightarrow> voltage_runs sane \<noteq> []"
proof
  assume ne: "sane \<noteq> []" and "voltage_runs sane = []"
  then have "set (sort_key (\<lambda>p. (pt_mv p, pt_index p)) sane) = {}"
    using voltage_runs_ok [of sane] by simp
  then show False using ne by simp
qed

lemma largest_run_in:
  assumes "cs \<noteq> []"
  shows "largest_run cs \<in> set cs"
proof -
  have "set (sort_key (\<lambda>c. (- int (length c), pt_mv (hd c))) cs) \<noteq> {}" using assms by simp
  then have "sort_key (\<lambda>c. (- int (length c), pt_mv (hd c))) cs \<noteq> []" by (simp only: set_empty not_False_eq_True)
  from hd_in_set [OF this] show ?thesis by (simp add: largest_run_def)
qed

lemma largest_run_max:
  assumes "c \<in> set cs"
  shows "length c \<le> length (largest_run cs)"
proof -
  define k where "k = (\<lambda>c :: vf_curve. (- int (length c), pt_mv (hd c)))"
  have "sorted (map k (sort_key k cs))" by (rule sorted_sort_key)
  moreover have "c \<in> set (sort_key k cs)" using assms by simp
  ultimately have "k (hd (sort_key k cs)) \<le> k c" using sorted_ends [of k "sort_key k cs" c] by simp
  then show ?thesis by (auto simp: largest_run_def k_def less_eq_prod_def)
qed

lemma last_of_concat: "xss \<noteq> [] \<Longrightarrow> \<forall>d\<in>set xss. d \<noteq> [] \<Longrightarrow> last (concat xss) = last (last xss)"
  by (cases xss rule: rev_cases) auto

lemma hd_of_concat: "xss \<noteq> [] \<Longrightarrow> \<forall>d\<in>set xss. d \<noteq> [] \<Longrightarrow> hd (concat xss) = hd (hd xss)"
  by (cases xss) auto

text \<open>In runs cut from a sorted list, whatever lies outside a run is beyond the gap.\<close>

lemma runs_separated:
  assumes ok: "runs_ok (pre @ c # post)" and srt: "sorted (map pt_mv (concat (pre @ c # post)))"
    and p: "p \<in> set (concat pre) \<union> set (concat post)"
  shows "pt_mv p + core_cluster_gap_mv < pt_mv (hd c) \<or> pt_mv (last c) + core_cluster_gap_mv < pt_mv p"
proof -
  have ne: "\<forall>d\<in>set (pre @ c # post). d \<noteq> []" using ok by (auto simp: runs_ok_def)
  show ?thesis
  proof (cases "p \<in> set (concat pre)")
    case True
    then have "pre \<noteq> []" by auto
    then have far: "\<not> close (last (last pre)) (hd c)" and l: "last (concat pre) = last (last pre)"
      using ok ne last_of_concat [of pre] by (auto simp: runs_ok_def successively_append_iff)
    have "sorted (map pt_mv (concat pre))" using srt by (auto simp: sorted_append)
    then have "pt_mv p \<le> pt_mv (last (last pre))" using sorted_ends [OF _ True, of pt_mv] l by simp
    with far show ?thesis unfolding close_def by arith
  next
    case False
    then have pp: "p \<in> set (concat post)" using p by blast
    then have "post \<noteq> []" by auto
    then have far: "\<not> close (last c) (hd (hd post))" and l: "hd (concat post) = hd (hd post)"
      using ok ne hd_of_concat [of post] by (auto simp: runs_ok_def successively_append_iff successively_Cons)
    have "sorted (map pt_mv (concat post))" using srt by (auto simp: sorted_append)
    then have "pt_mv (hd (hd post)) \<le> pt_mv p" using sorted_ends [OF _ pp, of pt_mv] l by simp
    with far show ?thesis unfolding close_def by arith
  qed
qed

lemma select_core_cluster_ok:
  assumes "select_core_cluster sane = Inr cl"
  obtains run where "set run \<subseteq> set sane" "min_core_cluster_points \<le> length run"
    "sorted (map pt_mv run)" "successively close run"
    "cc_v_min cl = pt_mv (hd run)" "cc_v_max cl = pt_mv (last run)" "cc_f_max cl = Max (set (map pt_mhz run))"
    "\<forall>p\<in>set sane. p \<notin> set run \<longrightarrow> pt_mv p + core_cluster_gap_mv < pt_mv (hd run) \<or>
       pt_mv (last run) + core_cluster_gap_mv < pt_mv p"
proof -
  let ?cs = "voltage_runs sane" and ?run = "largest_run (voltage_runs sane)"
  have ne: "sane \<noteq> []" and big: "min_core_cluster_points \<le> length ?run"
    and cl: "cc_v_min cl = pt_mv (hd ?run)" "cc_v_max cl = pt_mv (last ?run)"
      "cc_f_max cl = Max (set (map pt_mhz ?run))"
    using assms by (auto simp: select_core_cluster_def Let_def split: if_splits)
  have "?run \<in> set ?cs" by (rule largest_run_in [OF voltage_runs_nonempty [OF ne]])
  then obtain pre post where cs: "?cs = pre @ ?run # post" by (meson split_list)
  have ok: "runs_ok (pre @ ?run # post)"
    and cc: "concat (pre @ ?run # post) = sort_key (\<lambda>p. (pt_mv p, pt_index p)) sane"
    using voltage_runs_ok [of sane] unfolding cs [symmetric] by simp_all
  have srt: "sorted (map pt_mv (concat (pre @ ?run # post)))" unfolding cc by (rule sorted_mv)
  have all: "set sane = set (concat pre) \<union> set ?run \<union> set (concat post)"
    using arg_cong [OF cc, of set] by (simp add: Un_assoc)
  show ?thesis
  proof (rule that [of ?run])
    show "set ?run \<subseteq> set sane" using all by blast
    show "sorted (map pt_mv ?run)" using srt by (auto simp: sorted_append)
    show "successively close ?run" using ok by (simp add: runs_ok_def)
    show "\<forall>p\<in>set sane. p \<notin> set ?run \<longrightarrow> pt_mv p + core_cluster_gap_mv < pt_mv (hd ?run) \<or>
       pt_mv (last ?run) + core_cluster_gap_mv < pt_mv p"
      using all runs_separated [OF ok srt] by blast
  qed (use big cl in simp_all)
qed

section \<open>Properties\<close>

text \<open>The stock clock ceiling comes from a run of at least eight sane points whose voltages lie at
  most 60 mV apart; every sane point outside that run is more than 60 mV away from it, so an isolated
  high-voltage outlier never sets the ceiling.\<close>

lemma stock_ceiling_from_dense_run:
  assumes "f2_stock_clock_ceiling live = Inr boost"
  shows "\<exists>run. set run \<subseteq> set live \<and> 8 \<le> length run \<and> sorted (map pt_mv run) \<and>
    successively (\<lambda>p q. pt_mv q - pt_mv p \<le> 60) run \<and> boost \<in> pt_mhz ` set run \<and>
    (\<forall>p\<in>set run. pt_mhz p \<le> boost) \<and> 500 \<le> boost \<and> boost \<le> 3500 \<and>
    (\<forall>p\<in>set live. is_sane_core_point (pt_mv p) (pt_mhz p) \<and> boost < pt_mhz p \<longrightarrow>
       pt_mv p + 60 < pt_mv (hd run) \<or> pt_mv (last run) + 60 < pt_mv p)"
proof -
  obtain cl where sel: "select_core_cluster (sane_core_points live) = Inr cl"
    and bt: "boost = cc_f_max cl"
    using assms
    by (auto simp: f2_stock_clock_ceiling_def derive_core_seed_def Let_def split: sum.splits if_splits)
  obtain run where run: "set run \<subseteq> set (sane_core_points live)" "min_core_cluster_points \<le> length run"
      "sorted (map pt_mv run)" "successively close run" "cc_f_max cl = Max (set (map pt_mhz run))"
      "\<forall>p\<in>set (sane_core_points live). p \<notin> set run \<longrightarrow>
        pt_mv p + core_cluster_gap_mv < pt_mv (hd run) \<or> pt_mv (last run) + core_cluster_gap_mv < pt_mv p"
    using select_core_cluster_ok [OF sel] by metis
  have fin: "finite (set (map pt_mhz run))" "set (map pt_mhz run) \<noteq> {}"
    using run(2) by (auto simp: min_core_cluster_points_def)
  have mx: "boost \<in> pt_mhz ` set run" "\<forall>p\<in>set run. pt_mhz p \<le> boost"
    using Max_in [OF fin] Max_ge [OF fin(1)] run(5) bt by auto
  have rng: "500 \<le> boost \<and> boost \<le> 3500"
    using mx(1) run(1) by (auto simp: sane_core_points_def is_sane_core_point_def)
  show ?thesis
  proof (intro exI [of _ run] conjI)
    show "set run \<subseteq> set live" using run(1) by (auto simp: sane_core_points_def)
    show "8 \<le> length run" using run(2) by (simp add: min_core_cluster_points_def)
    show "successively (\<lambda>p q. pt_mv q - pt_mv p \<le> 60) run"
      using run(4) by (simp add: close_def [abs_def] core_cluster_gap_mv_def)
    show "\<forall>p\<in>set live. is_sane_core_point (pt_mv p) (pt_mhz p) \<and> boost < pt_mhz p \<longrightarrow>
       pt_mv p + 60 < pt_mv (hd run) \<or> pt_mv (last run) + 60 < pt_mv p"
    proof (intro ballI impI)
      fix p assume "p \<in> set live" "is_sane_core_point (pt_mv p) (pt_mhz p) \<and> boost < pt_mhz p"
      moreover from this have "p \<notin> set run" using mx(2) by auto
      ultimately show "pt_mv p + 60 < pt_mv (hd run) \<or> pt_mv (last run) + 60 < pt_mv p"
        using bspec [OF run(6), of p] by (simp add: sane_core_points_def core_cluster_gap_mv_def)
    qed
  qed (use run(3) mx rng in simp_all)
qed

definition outlier_curve :: vf_curve where
  "outlier_curve =
     [(0, 700, 1500), (1, 725, 1550), (2, 750, 1600), (3, 775, 1650), (4, 800, 1700), (5, 825, 1750),
      (6, 850, 1800), (7, 875, 1850), (8, 900, 1900), (9, 925, 1950), (10, 1150, 3400)]"

end
