(* ===== verification/SafeLoop.thy ===== *)
theory SafeLoop
  imports Prelude
begin

text \<open>
  \<open>crates/core/src/safe_loop.rs\<close>, the part without a file system: tuning points and blacklisted
  regions, the phase machine \<open>transition\<close>, the reading of bugcheck messages, the record that
  survives a reboot with its incident latch, and the recovery decision \<open>decide_recovery\<close> with its
  commit \<open>apply_recovery\<close>. The wall clock of \<open>chrono\<close> enters as the texts it renders.
\<close>

section \<open>Tuning points\<close>

record tuning_point =
  axes :: "(string \<times> i64) list"

definition stock :: tuning_point where
  "stock = \<lparr>axes = []\<rparr>"

definition from_axes :: "(string \<times> i64) list \<Rightarrow> tuning_point" where
  "from_axes kvs = \<lparr>axes = bt_of_list kvs\<rparr>"

definition is_stock :: "tuning_point \<Rightarrow> bool" where
  "is_stock p \<longleftrightarrow> (\<forall>kv\<in>set (axes p). snd kv = 0)"

definition axis :: "tuning_point \<Rightarrow> string \<Rightarrow> i64" where
  "axis p k = unwrap_or (map_of (axes p) k) 0"

definition chebyshev :: "tuning_point \<Rightarrow> tuning_point \<Rightarrow> i64" where
  "chebyshev p q =
     fold (\<lambda>k m. max m (i64_abs (i64_sub (axis p k) (axis q k))))
       (map fst (axes p) @ map fst (axes q)) 0"

record blacklist_region =
  center :: tuning_point
  radius :: i64

definition region_around :: "tuning_point \<Rightarrow> i64 \<Rightarrow> blacklist_region" where
  "region_around c r = \<lparr>center = c, radius = r\<rparr>"

definition region_contains :: "blacklist_region \<Rightarrow> tuning_point \<Rightarrow> bool" where
  "region_contains r p \<longleftrightarrow> chebyshev (center r) p \<le> radius r"

section \<open>The phase machine\<close>

datatype safe_loop_state = Idle | Probing | Applying | Dwell | Validated | Unstable | SafeMode

datatype safe_loop_event =
  StartProbe | Applied | EnterDwell | DwellPassed | SoftFail | HardCrash | TripSafeMode | Reset

fun transition :: "safe_loop_state \<Rightarrow> safe_loop_event \<Rightarrow> safe_loop_state" where
  "transition _ TripSafeMode = SafeMode"
| "transition _ Reset = Idle"
| "transition _ HardCrash = Unstable"
| "transition Idle StartProbe = Probing"
| "transition Probing Applied = Applying"
| "transition Applying EnterDwell = Dwell"
| "transition Dwell DwellPassed = Validated"
| "transition Dwell SoftFail = Unstable"
| "transition Validated StartProbe = Probing"
| "transition Unstable StartProbe = Probing"
| "transition other _ = other"

section \<open>Bugchecks\<close>

datatype crash_class = OcInstability | Unrelated | Unknown

definition classify_bugcheck :: "u64 \<Rightarrow> crash_class" where
  "classify_bugcheck code =
     (if code = 0 then Unknown
      else if code \<in> {0x101, 0x124, 0x133, 0x116, 0x117} then OcInstability
      else Unrelated)"

definition parse_bugcheck_code :: "string \<Rightarrow> u64 option" where
  "parse_bugcheck_code text =
     (let lower = map ascii_lower text
      in case str_find ''0x'' lower of
           None \<Rightarrow> None
         | Some idx \<Rightarrow>
             (let rest = drop (idx + 2) lower;
                  hex = takeWhile (\<lambda>c. hex_digit c \<noteq> None) rest
              in if hex = [] then None
                 else if hex_value 0 hex \<le> u64_max then Some (hex_value 0 hex) else None))"

definition whea_soft_fail :: "u32 \<Rightarrow> u32 \<Rightarrow> bool" where
  "whea_soft_fail count_before count_after \<longleftrightarrow> count_after > count_before"

section \<open>Incidents\<close>

datatype forge_incident_kind =
  CandidateCrash | UnaccountedRestart | OperatorFieldFailure | RuntimeFailure

record forge_incident =
  inc_id :: string
  inc_kind :: forge_incident_kind
  inc_detected_at :: string
  inc_run_id :: "string option"
  inc_gpu_key :: "string option"
  inc_target_mhz :: "u32 option"
  inc_anchor_mv :: "u32 option"
  inc_message :: string
  inc_acknowledged :: bool

text \<open>The clock of \<open>ForgeIncident::new\<close>: the RFC 3339 text and the nanoseconds, if representable.\<close>

definition forge_incident_new ::
  "string \<Rightarrow> i64 option \<Rightarrow> forge_incident_kind \<Rightarrow> string option \<Rightarrow> string option \<Rightarrow>
   u32 option \<Rightarrow> u32 option \<Rightarrow> string \<Rightarrow> forge_incident" where
  "forge_incident_new now nanos kind run gpu target anchor msg =
     \<lparr>inc_id = ''forge-incident-'' @ show_int (unwrap_or nanos 0), inc_kind = kind,
      inc_detected_at = now, inc_run_id = run, inc_gpu_key = gpu, inc_target_mhz = target,
      inc_anchor_mv = anchor, inc_message = msg, inc_acknowledged = False\<rparr>"

section \<open>The persisted record\<close>

record safe_loop_record =
  sl_state :: safe_loop_state
  consecutive_crashes :: u32
  last_validated :: "tuning_point option"
  blacklist :: "blacklist_region list"
  safe_mode :: bool
  crash_log :: "crash_class list"
  pending_forge_incident :: "forge_incident option"
  forge_incidents :: "forge_incident list"

definition default_record :: safe_loop_record where
  "default_record =
     \<lparr>sl_state = Idle, consecutive_crashes = 0, last_validated = None, blacklist = [],
      safe_mode = False, crash_log = [], pending_forge_incident = None, forge_incidents = []\<rparr>"

definition is_blacklisted :: "safe_loop_record \<Rightarrow> tuning_point \<Rightarrow> bool" where
  "is_blacklisted r p \<longleftrightarrow> (\<exists>b\<in>set (blacklist r). region_contains b p)"

definition mark_validated :: "tuning_point \<Rightarrow> safe_loop_record \<Rightarrow> safe_loop_record" where
  "mark_validated p r = r\<lparr>last_validated := Some p, consecutive_crashes := 0, sl_state := Validated\<rparr>"

definition recovery_target :: "safe_loop_record \<Rightarrow> tuning_point" where
  "recovery_target r = unwrap_or (last_validated r) stock"

definition clear_recovery_latch :: "safe_loop_record \<Rightarrow> safe_loop_record" where
  "clear_recovery_latch r =
     r\<lparr>safe_mode := False, consecutive_crashes := 0,
       sl_state := (if pending_forge_incident r \<noteq> None then Unstable else Idle)\<rparr>"

definition record_forge_incident ::
  "forge_incident \<Rightarrow> safe_loop_record \<Rightarrow> bool \<times> safe_loop_record" where
  "record_forge_incident inc r =
     (let duplicate = (\<exists>known\<in>set (forge_incidents r).
            inc_id known = inc_id inc \<or>
            (inc_run_id known \<noteq> None \<and> inc_run_id known = inc_run_id inc))
      in if duplicate then (False, r)
         else (let r' = r\<lparr>pending_forge_incident := Some inc,
                          forge_incidents := push_capped (forge_incidents r) inc 64\<rparr>
               in (True, if safe_mode r' then r' else r'\<lparr>sl_state := Unstable\<rparr>)))"

text \<open>\<open>iter_mut().find(..)\<close>: the first entry with the incident's id is marked.\<close>

fun ack_first :: "string \<Rightarrow> forge_incident list \<Rightarrow> forge_incident list" where
  "ack_first i [] = []"
| "ack_first i (x # xs) =
     (if inc_id x = i then x\<lparr>inc_acknowledged := True\<rparr> # xs else x # ack_first i xs)"

definition acknowledge_forge_incident ::
  "safe_loop_record \<Rightarrow> forge_incident option \<times> safe_loop_record" where
  "acknowledge_forge_incident r =
     (case pending_forge_incident r of
        None \<Rightarrow> (None, r)
      | Some inc \<Rightarrow>
          (let r' = r\<lparr>pending_forge_incident := None,
                      forge_incidents := ack_first (inc_id inc) (forge_incidents r)\<rparr>
           in (Some (inc\<lparr>inc_acknowledged := True\<rparr>),
               if safe_mode r' then r' else r'\<lparr>sl_state := Idle\<rparr>)))"

section \<open>Recovery\<close>

record boot_flag =
  bf_intent :: tuning_point
  bf_phase :: string
  bf_timestamp :: string

definition supervised_f2_forge_phase :: string where
  "supervised_f2_forge_phase = ''f2_undervolt_probe''"

definition safe_mode_crash_threshold :: u32 where
  "safe_mode_crash_threshold = 3"

definition default_blacklist_radius :: i64 where
  "default_blacklist_radius = 1"

datatype recovery_action =
  RecoverIdle
| ApplyLastValidated tuning_point
| AwaitOperatorAcknowledgement forge_incident
| BlacklistAndRecede (crashed: tuning_point) (recede_to: tuning_point) (crash_kind: crash_class)
    (counted: bool)
| EnterSafeMode tuning_point
| RemainSafeMode tuning_point

definition counts_toward_safe_mode :: "boot_flag \<Rightarrow> crash_class \<Rightarrow> bool" where
  "counts_toward_safe_mode flag bugcheck \<longleftrightarrow>
     \<not> (bf_phase flag = supervised_f2_forge_phase \<and> bugcheck \<noteq> Unrelated)"

definition decide_recovery ::
  "boot_flag option \<Rightarrow> crash_class \<Rightarrow> safe_loop_record \<Rightarrow> recovery_action" where
  "decide_recovery flag_opt bugcheck r =
     (case flag_opt of
        Some flag \<Rightarrow>
          (let count = counts_toward_safe_mode flag bugcheck;
               crashes = u32_sat_add (consecutive_crashes r) (if count then 1 else 0)
           in if count \<and> crashes \<ge> safe_mode_crash_threshold then EnterSafeMode stock
              else BlacklistAndRecede (bf_intent flag) (recovery_target r) bugcheck count)
      | None \<Rightarrow>
          (if safe_mode r then RemainSafeMode stock
           else case pending_forge_incident r of
                  Some inc \<Rightarrow> AwaitOperatorAcknowledgement inc
                | None \<Rightarrow>
                    (case last_validated r of
                       Some p \<Rightarrow> ApplyLastValidated p
                     | None \<Rightarrow> RecoverIdle)))"

fun apply_recovery ::
  "recovery_action \<Rightarrow> safe_loop_record \<Rightarrow> tuning_point \<times> safe_loop_record" where
  "apply_recovery RecoverIdle r = (stock, r\<lparr>sl_state := Idle\<rparr>)"
| "apply_recovery (ApplyLastValidated p) r = (p, r\<lparr>sl_state := Validated\<rparr>)"
| "apply_recovery (AwaitOperatorAcknowledgement _) r = (stock, r\<lparr>sl_state := Unstable\<rparr>)"
| "apply_recovery (BlacklistAndRecede c to cls cnt) r =
     (let r1 = (if cnt
                then r\<lparr>consecutive_crashes := u32_sat_add (consecutive_crashes r) 1\<rparr> else r);
          r2 = (if is_blacklisted r1 c then r1
                else r1\<lparr>blacklist := blacklist r1 @ [region_around c default_blacklist_radius]\<rparr>)
      in (to, r2\<lparr>crash_log := push_capped (crash_log r2) cls 32, sl_state := Unstable\<rparr>))"
| "apply_recovery (EnterSafeMode s) r =
     (s, r\<lparr>consecutive_crashes := u32_sat_add (consecutive_crashes r) 1, safe_mode := True,
           sl_state := SafeMode\<rparr>)"
| "apply_recovery (RemainSafeMode s) r = (s, r\<lparr>safe_mode := True, sl_state := SafeMode\<rparr>)"

section \<open>Distances and regions\<close>

lemma i64_wrap_abs_swap: "i64_abs (i64_sub a b) = i64_abs (i64_sub b a)"
proof -
  let ?x = "i64_wrap (a - b)"
  have neg: "i64_wrap (b - a) = i64_wrap (- ?x)"
    unfolding i64_wrap_def
    by (metis minus_diff_eq signed_take_bit_minus)
  have x: "is_i64 ?x" by simp
  show ?thesis
  proof (cases "?x = - (2 ^ 63)")
    case True
    have "i64_wrap (2 ^ 63) = - (2 ^ 63)"
      unfolding i64_wrap_def by code_simp
    with neg True show ?thesis by (simp add: i64_abs_def i64_sub_def)
  next
    case False
    with x have "is_i64 (- ?x)" by (auto simp: is_i64_def)
    with neg show ?thesis by (simp add: i64_abs_def i64_sub_def)
  qed
qed

lemma axis_outside: "k \<notin> set (map fst (axes p)) \<Longrightarrow> axis p k = 0"
  by (simp add: axis_def map_of_eq_None_iff [symmetric])

lemma fold_max_le_iff:
  "fold (\<lambda>k m. max m (f k)) ks m0 \<le> (r::int) \<longleftrightarrow> m0 \<le> r \<and> (\<forall>k\<in>set ks. f k \<le> r)"
  by (induction ks arbitrary: m0) auto

lemma chebyshev_le_iff:
  "chebyshev p q \<le> r \<longleftrightarrow> 0 \<le> r \<and> (\<forall>k. i64_abs (i64_sub (axis p k) (axis q k)) \<le> r)"
proof -
  have "i64_abs (i64_sub (axis p k) (axis q k)) = 0"
    if "k \<notin> set (map fst (axes p)) \<union> set (map fst (axes q))" for k
    using that by (simp add: axis_outside i64_sub_def i64_abs_def)
  then show ?thesis
    unfolding chebyshev_def fold_max_le_iff by (metis Un_iff set_append)
qed

lemma chebyshev_nonneg: "0 \<le> chebyshev p q"
  using chebyshev_le_iff [of p q "chebyshev p q"] by simp

lemma chebyshev_self [simp]: "chebyshev p p = 0"
  using chebyshev_le_iff [of p p 0] chebyshev_nonneg [of p p]
  by (simp add: i64_sub_def i64_abs_def)

lemma chebyshev_sym: "chebyshev p q = chebyshev q p"
proof -
  have "chebyshev p q \<le> chebyshev q p" for p q
    using chebyshev_le_iff [of p q "chebyshev q p"] chebyshev_le_iff [of q p "chebyshev q p"]
    by (simp add: i64_wrap_abs_swap)
  then show ?thesis by (simp add: antisym)
qed

text \<open>Settings whose differences stay inside the width: every tuning axis the code writes.\<close>

definition modest_point :: "tuning_point \<Rightarrow> bool" where
  "modest_point p \<longleftrightarrow> (\<forall>kv\<in>set (axes p). \<bar>snd kv\<bar> \<le> 2 ^ 61)"

lemma axis_modest: "modest_point p \<Longrightarrow> \<bar>axis p k\<bar> \<le> 2 ^ 61"
  unfolding modest_point_def axis_def
  by (cases "map_of (axes p) k") (force dest: map_of_SomeD)+

lemma axis_diff_modest:
  assumes "modest_point p" and "modest_point q"
  shows "i64_abs (i64_sub (axis p k) (axis q k)) = \<bar>axis p k - axis q k\<bar>"
proof -
  have "\<bar>axis p k\<bar> \<le> 2 ^ 61" and "\<bar>axis q k\<bar> \<le> 2 ^ 61"
    using assms axis_modest by blast+
  then have "is_i64 (axis p k - axis q k)" and "is_i64 \<bar>axis p k - axis q k\<bar>"
    by (auto simp: is_i64_def)
  then show ?thesis by (simp add: i64_sub_def i64_abs_def)
qed

lemma chebyshev_triangle:
  assumes "modest_point p" and "modest_point q" and "modest_point r"
  shows "chebyshev p r \<le> chebyshev p q + chebyshev q r"
proof -
  have "\<bar>axis p k - axis r k\<bar> \<le> chebyshev p q + chebyshev q r" for k
  proof -
    have "\<bar>axis p k - axis q k\<bar> \<le> chebyshev p q"
      using chebyshev_le_iff [of p q "chebyshev p q"] axis_diff_modest [OF assms(1,2)] by simp
    moreover have "\<bar>axis q k - axis r k\<bar> \<le> chebyshev q r"
      using chebyshev_le_iff [of q r "chebyshev q r"] axis_diff_modest [OF assms(2,3)] by simp
    ultimately show ?thesis by linarith
  qed
  then show ?thesis
    using chebyshev_nonneg axis_diff_modest [OF assms(1,3)]
    by (simp add: chebyshev_le_iff)
qed

lemma region_contains_center: "0 \<le> rad \<Longrightarrow> region_contains (region_around c rad) c"
  by (simp add: region_contains_def region_around_def)

section \<open>Runs of the phase machine\<close>

definition run_events :: "safe_loop_state \<Rightarrow> safe_loop_event list \<Rightarrow> safe_loop_state" where
  "run_events s es = fold (\<lambda>e s. transition s e) es s"

lemma run_events_simps [simp]:
  "run_events s [] = s"
  "run_events s (es @ [e]) = transition (run_events s es) e"
  by (simp_all add: run_events_def)

fun progress_trace :: "safe_loop_state \<Rightarrow> safe_loop_event list" where
  "progress_trace Probing = [StartProbe]"
| "progress_trace Applying = [StartProbe, Applied]"
| "progress_trace Dwell = [StartProbe, Applied, EnterDwell]"
| "progress_trace Validated = [StartProbe, Applied, EnterDwell, DwellPassed]"
| "progress_trace _ = []"

lemma progress_trace_step:
  "progress_trace (transition s e) = progress_trace s @ [e] \<or>
   progress_trace (transition s e) = progress_trace s \<or>
   progress_trace (transition s e) = [] \<or>
   progress_trace (transition s e) = [e]"
  by (cases s; cases e) simp_all

lemma run_events_trace: "subseq (progress_trace (run_events Idle es)) es"
proof (induction es rule: rev_induct)
  case Nil
  then show ?case by simp
next
  case (snoc e es)
  let ?s = "run_events Idle es"
  have "subseq (progress_trace ?s @ [e]) (es @ [e])"
    using snoc.IH by (simp add: subseq_append)
  moreover have "subseq (progress_trace ?s) (es @ [e])"
    using snoc.IH by (rule subseq_order.trans) (simp add: prefix_imp_subseq)
  moreover have "subseq [e] (es @ [e])" by (rule list_emb_append2) simp
  ultimately show ?case
    using progress_trace_step [of ?s e] by (auto simp: subseq_order.refl)
qed

section \<open>The record across boots\<close>

text \<open>
  One boot as the service takes it: decide, then commit. A boot \<open>(None, c)\<close> is clean, a boot
  \<open>(Some flag, c)\<close> found the flag armed and the event log classified as \<open>c\<close>.
\<close>

definition boot_record ::
  "boot_flag option \<times> crash_class \<Rightarrow> safe_loop_record \<Rightarrow> safe_loop_record" where
  "boot_record b r = snd (apply_recovery (decide_recovery (fst b) (snd b) r) r)"

definition boot_target ::
  "boot_flag option \<times> crash_class \<Rightarrow> safe_loop_record \<Rightarrow> tuning_point" where
  "boot_target b r = fst (apply_recovery (decide_recovery (fst b) (snd b) r) r)"

definition counted_boot :: "boot_flag option \<times> crash_class \<Rightarrow> bool" where
  "counted_boot b = (case fst b of None \<Rightarrow> False | Some f \<Rightarrow> counts_toward_safe_mode f (snd b))"

lemma is_blacklisted_cong: "blacklist r = blacklist r' \<Longrightarrow> is_blacklisted r p = is_blacklisted r' p"
  by (simp add: is_blacklisted_def)

lemmas boot_defs = boot_record_def boot_target_def counted_boot_def decide_recovery_def Let_def

lemma boot_crashes:
  "consecutive_crashes (boot_record b r) =
     (if counted_boot b then u32_sat_add (consecutive_crashes r) 1 else consecutive_crashes r)"
  by (cases b) (auto simp: boot_defs split: option.splits)

lemma boot_safe_mode:
  "safe_mode (boot_record b r) \<longleftrightarrow>
     safe_mode r \<or> (counted_boot b \<and> 3 \<le> u32_sat_add (consecutive_crashes r) 1)"
  by (cases b) (auto simp: boot_defs safe_mode_crash_threshold_def split: option.splits)

lemma boot_logs:
  "forge_incidents (boot_record b r) = forge_incidents r"
  "pending_forge_incident (boot_record b r) = pending_forge_incident r"
  "last_validated (boot_record b r) = last_validated r"
  by (cases b; auto simp: boot_defs split: option.splits)+

lemma boot_crash_log: "length (crash_log r) \<le> 32 \<Longrightarrow> length (crash_log (boot_record b r)) \<le> 32"
  by (cases b) (auto simp: boot_defs length_push_capped split: option.splits)

lemma boot_blacklist: "prefix (blacklist r) (blacklist (boot_record b r))"
  by (cases b) (auto simp: boot_defs split: option.splits)

lemma boot_clean:
  "blacklist (boot_record (None, c) r) = blacklist r"
  "crash_log (boot_record (None, c) r) = crash_log r"
  by (auto simp: boot_defs split: option.splits)

lemma prefix_is_blacklisted:
  "prefix (blacklist r) (blacklist r') \<Longrightarrow> is_blacklisted r p \<Longrightarrow> is_blacklisted r' p"
  by (auto simp: is_blacklisted_def dest: set_mono_prefix)

lemma recede_blacklists:
  "is_blacklisted (snd (apply_recovery (BlacklistAndRecede c to cls cnt) r)) c"
  using region_contains_center [of default_blacklist_radius c]
  by (auto simp: Let_def is_blacklisted_def default_blacklist_radius_def)

lemma boots_crashes:
  "consecutive_crashes r \<le> u32_max \<Longrightarrow>
   consecutive_crashes (fold boot_record bs r) =
     min (consecutive_crashes r + length (filter counted_boot bs)) u32_max"
  by (induction bs arbitrary: r) (auto simp: boot_crashes u32_sat_add_def)

lemma boots_safe_mode_mono: "safe_mode r \<Longrightarrow> safe_mode (fold boot_record bs r)"
  by (induction bs arbitrary: r) (simp_all add: boot_safe_mode)

section \<open>The invariant of the persisted record\<close>

definition record_inv :: "safe_loop_record \<Rightarrow> bool" where
  "record_inv r \<longleftrightarrow>
     (consecutive_crashes r < 3 \<or> safe_mode r) \<and> consecutive_crashes r \<le> u32_max \<and>
     length (crash_log r) \<le> 32 \<and> length (forge_incidents r) \<le> 64 \<and>
     (\<forall>i. pending_forge_incident r = Some i \<longrightarrow> \<not> inc_acknowledged i)"

lemma record_inv_default: "record_inv default_record"
  by (simp add: record_inv_def default_record_def)

lemma record_inv_boot: "record_inv r \<Longrightarrow> record_inv (boot_record b r)"
  unfolding record_inv_def boot_logs boot_crashes boot_safe_mode
  using boot_crash_log [of r b] by (auto simp: u32_sat_add_def)

lemma record_inv_mark_validated: "record_inv r \<Longrightarrow> record_inv (mark_validated p r)"
  by (simp add: record_inv_def mark_validated_def)

lemma record_inv_clear: "record_inv r \<Longrightarrow> record_inv (clear_recovery_latch r)"
  by (simp add: record_inv_def clear_recovery_latch_def)

lemma record_inv_incident:
  "record_inv r \<Longrightarrow> \<not> inc_acknowledged i \<Longrightarrow> record_inv (snd (record_forge_incident i r))"
  by (auto simp: record_inv_def record_forge_incident_def Let_def length_push_capped)

lemma length_ack_first [simp]: "length (ack_first i xs) = length xs"
  by (induction i xs rule: ack_first.induct) auto

lemma record_inv_ack: "record_inv r \<Longrightarrow> record_inv (snd (acknowledge_forge_incident r))"
  by (auto simp: record_inv_def acknowledge_forge_incident_def Let_def split: option.split)

lemma ack_first_ids: "map inc_id (ack_first i xs) = map inc_id xs"
  by (induction i xs rule: ack_first.induct) auto

lemma ack_first_marks:
  "\<exists>x\<in>set xs. inc_id x = i \<Longrightarrow> \<exists>y\<in>set (ack_first i xs). inc_id y = i \<and> inc_acknowledged y"
  by (induction i xs rule: ack_first.induct) auto

lemma ack_first_others: "x \<in> set xs \<Longrightarrow> inc_id x \<noteq> i \<Longrightarrow> x \<in> set (ack_first i xs)"
  by (induction i xs rule: ack_first.induct) auto

end
