(* ===== verification/Store.thy ===== *)
theory Store
  imports SafeLoop
begin

text \<open>
  \<open>SafeLoopStore\<close> of \<open>crates/core/src/safe_loop.rs\<close>: the boot flag, the record and the clean
  shutdown marker as files of the data directory. A disk maps file names to contents and lists the
  names whose writing or removal the operating system refuses and whose contents it will not read;
  \<open>serde_json\<close> enters as a codec, a pair of functions given to every operation that uses it. The
  locale \<open>guard_flag\<close> is the contract the apply paths rely on: arming is visible once it
  succeeded, and nothing but a successful removal disarms.
\<close>

section \<open>Files\<close>

record disk =
  files :: "string \<Rightarrow> string option"
  refused :: "string \<Rightarrow> bool"
  unreadable :: "string \<Rightarrow> bool"
  dir_refused :: bool

datatype io_error = NotFound | OtherIo | InvalidData

definition fs_exists :: "string \<Rightarrow> disk \<Rightarrow> bool" where
  "fs_exists n d \<longleftrightarrow> files d n \<noteq> None"

definition fs_read :: "string \<Rightarrow> disk \<Rightarrow> (io_error, string) result" where
  "fs_read n d =
     (case files d n of
        None \<Rightarrow> Inl NotFound
      | Some c \<Rightarrow> if unreadable d n then Inl OtherIo else Inr c)"

text \<open>
  A refused write is one that cannot open the file (access denied, a missing directory): the old content
  stays. \<open>std::fs::write\<close> can also fail between the truncation and the end of the new content, when the disk is
  full or the machine stops; that is left out.
\<close>

definition fs_write :: "string \<Rightarrow> string \<Rightarrow> disk \<Rightarrow> (io_error, unit) result \<times> disk" where
  "fs_write n c d =
     (if refused d n then (Inl OtherIo, d)
      else (Inr (), d\<lparr>files := (files d)(n \<mapsto> c)\<rparr>))"

definition fs_remove :: "string \<Rightarrow> disk \<Rightarrow> (io_error, unit) result \<times> disk" where
  "fs_remove n d =
     (if files d n = None then (Inl NotFound, d)
      else if refused d n then (Inl OtherIo, d)
      else (Inr (), d\<lparr>files := (files d)(n := None)\<rparr>))"

definition fs_create_dir :: "disk \<Rightarrow> (io_error, unit) result" where
  "fs_create_dir d = (if dir_refused d then Inl OtherIo else Inr ())"

text \<open>The removal that takes an absent file for success, written out in four places of the code.\<close>

definition remove_if_present :: "string \<Rightarrow> disk \<Rightarrow> (io_error, unit) result \<times> disk" where
  "remove_if_present n d =
     (case fs_remove n d of
        (Inr _, d') \<Rightarrow> (Inr (), d')
      | (Inl e, d') \<Rightarrow> if e = NotFound then (Inr (), d') else (Inl e, d'))"

lemmas fs_defs = fs_exists_def fs_read_def fs_write_def fs_remove_def fs_create_dir_def
  remove_if_present_def

lemma remove_if_present_cases:
  "remove_if_present n d =
     (if files d n = None then (Inr (), d)
      else if refused d n then (Inl OtherIo, d)
      else (Inr (), d\<lparr>files := (files d)(n := None)\<rparr>))"
  by (simp add: fs_defs)

text \<open>Files are independent of each other.\<close>

lemma fs_read_write_other: "n \<noteq> m \<Longrightarrow> fs_read m (snd (fs_write n c d)) = fs_read m d"
  by (cases "files d m") (simp_all add: fs_read_def fs_write_def)

lemma fs_exists_write_other: "n \<noteq> m \<Longrightarrow> fs_exists m (snd (fs_write n c d)) = fs_exists m d"
  by (simp add: fs_exists_def fs_write_def)

lemma fs_read_remove_other: "n \<noteq> m \<Longrightarrow> fs_read m (snd (remove_if_present n d)) = fs_read m d"
  by (cases "files d m") (auto simp: fs_read_def remove_if_present_cases)

lemma fs_exists_remove_other:
  "n \<noteq> m \<Longrightarrow> fs_exists m (snd (remove_if_present n d)) = fs_exists m d"
  by (auto simp: fs_exists_def remove_if_present_cases)

lemmas fs_frame = fs_read_write_other fs_exists_write_other fs_read_remove_other fs_exists_remove_other

section \<open>The store\<close>

record 'a codec =
  enc :: "'a \<Rightarrow> string option"
  dec :: "string \<Rightarrow> 'a option"

definition bom :: string where
  "bom = [CHR 0xEF, CHR 0xBB, CHR 0xBF]"

definition strip_bom :: "string \<Rightarrow> string" where
  "strip_bom s = (if prefix bom s then drop (length bom) s else s)"

definition boot_flag_file :: string where "boot_flag_file = ''boot_flag.json''"
definition record_file :: string where "record_file = ''safe_loop.json''"
definition heartbeat_file :: string where "heartbeat_file = ''heartbeat.txt''"
definition clean_shutdown_file :: string where "clean_shutdown_file = ''clean_shutdown.txt''"

lemmas file_names = boot_flag_file_def record_file_def heartbeat_file_def clean_shutdown_file_def

text \<open>\<open>to_string_pretty(..)?\<close> after \<open>ensure_dir()?\<close>, then the write.\<close>

definition write_doc ::
  "'a codec \<Rightarrow> string \<Rightarrow> 'a \<Rightarrow> disk \<Rightarrow> (io_error, unit) result \<times> disk" where
  "write_doc c n x d =
     (case fs_create_dir d of
        Inl e \<Rightarrow> (Inl e, d)
      | Inr _ \<Rightarrow>
          (case enc c x of
             None \<Rightarrow> (Inl InvalidData, d)
           | Some json \<Rightarrow> fs_write n json d))"

definition arm_boot_flag ::
  "boot_flag codec \<Rightarrow> boot_flag \<Rightarrow> disk \<Rightarrow> (io_error, unit) result \<times> disk" where
  "arm_boot_flag c flag d = write_doc c boot_flag_file flag d"

definition read_boot_flag :: "boot_flag codec \<Rightarrow> disk \<Rightarrow> boot_flag option" where
  "read_boot_flag c d =
     (case fs_read boot_flag_file d of Inl _ \<Rightarrow> None | Inr data \<Rightarrow> dec c (strip_bom data))"

definition is_boot_flag_armed :: "disk \<Rightarrow> bool" where
  "is_boot_flag_armed d = fs_exists boot_flag_file d"

definition clear_boot_flag :: "disk \<Rightarrow> (io_error, unit) result \<times> disk" where
  "clear_boot_flag d = remove_if_present boot_flag_file d"

definition load_record :: "safe_loop_record codec \<Rightarrow> disk \<Rightarrow> safe_loop_record" where
  "load_record c d =
     (case fs_read record_file d of
        Inl _ \<Rightarrow> default_record
      | Inr data \<Rightarrow> unwrap_or (dec c (strip_bom data)) default_record)"

definition save_record ::
  "safe_loop_record codec \<Rightarrow> safe_loop_record \<Rightarrow> disk \<Rightarrow> (io_error, unit) result \<times> disk" where
  "save_record c r d = write_doc c record_file r d"

definition write_stamp :: "string \<Rightarrow> string \<Rightarrow> disk \<Rightarrow> (io_error, unit) result \<times> disk" where
  "write_stamp n now d =
     (case fs_create_dir d of Inl e \<Rightarrow> (Inl e, d) | Inr _ \<Rightarrow> fs_write n now d)"

definition write_heartbeat :: "string \<Rightarrow> disk \<Rightarrow> (io_error, unit) result \<times> disk" where
  "write_heartbeat now d = write_stamp heartbeat_file now d"

definition write_clean_shutdown :: "string \<Rightarrow> disk \<Rightarrow> (io_error, unit) result \<times> disk" where
  "write_clean_shutdown now d = write_stamp clean_shutdown_file now d"

definition is_clean_shutdown_present :: "disk \<Rightarrow> bool" where
  "is_clean_shutdown_present d = fs_exists clean_shutdown_file d"

definition clear_clean_shutdown :: "disk \<Rightarrow> (io_error, unit) result \<times> disk" where
  "clear_clean_shutdown d = remove_if_present clean_shutdown_file d"

lemmas store_defs = arm_boot_flag_def read_boot_flag_def is_boot_flag_armed_def clear_boot_flag_def
  load_record_def save_record_def write_stamp_def write_heartbeat_def write_clean_shutdown_def
  is_clean_shutdown_present_def clear_clean_shutdown_def write_doc_def

lemma file_names_distinct [simp]:
  "record_file \<noteq> boot_flag_file" "boot_flag_file \<noteq> record_file"
  "clean_shutdown_file \<noteq> boot_flag_file" "boot_flag_file \<noteq> clean_shutdown_file"
  "clean_shutdown_file \<noteq> record_file" "record_file \<noteq> clean_shutdown_file"
  "heartbeat_file \<noteq> record_file" "heartbeat_file \<noteq> boot_flag_file"
  "heartbeat_file \<noteq> clean_shutdown_file"
  by (simp_all add: file_names)

lemma write_doc_cases:
  "snd (write_doc c n x d) = d \<or> (\<exists>json. snd (write_doc c n x d) = snd (fs_write n json d))"
  by (auto simp: write_doc_def split: sum.split option.split)

lemma write_doc_frame:
  assumes "n \<noteq> m"
  shows "fs_read m (snd (write_doc c n x d)) = fs_read m d"
    and "fs_exists m (snd (write_doc c n x d)) = fs_exists m d"
  using write_doc_cases [of c n x d] fs_frame [OF assms] by metis+

lemma save_record_frame:
  "is_boot_flag_armed (snd (save_record c r d)) = is_boot_flag_armed d"
  "read_boot_flag fc (snd (save_record c r d)) = read_boot_flag fc d"
  by (simp_all add: save_record_def is_boot_flag_armed_def read_boot_flag_def write_doc_frame)

lemma clear_boot_flag_frame:
  "load_record c (snd (clear_boot_flag d)) = load_record c d"
  "is_clean_shutdown_present (snd (clear_boot_flag d)) = is_clean_shutdown_present d"
  by (simp_all add: clear_boot_flag_def load_record_def is_clean_shutdown_present_def fs_frame)

lemma clear_clean_frame:
  "load_record c (snd (clear_clean_shutdown d)) = load_record c d"
  "read_boot_flag fc (snd (clear_clean_shutdown d)) = read_boot_flag fc d"
  "is_boot_flag_armed (snd (clear_clean_shutdown d)) = is_boot_flag_armed d"
  by (simp_all add: clear_clean_shutdown_def load_record_def read_boot_flag_def
      is_boot_flag_armed_def fs_frame)

lemma arm_frame: "load_record c (snd (arm_boot_flag fc f d)) = load_record c d"
  by (simp add: arm_boot_flag_def load_record_def write_doc_frame)

lemma armed_after_clear:
  "is_boot_flag_armed (snd (clear_boot_flag d)) \<longleftrightarrow> is_boot_flag_armed d \<and> refused d boot_flag_file"
  by (simp add: store_defs remove_if_present_cases fs_exists_def)

lemma save_record_permissions:
  "refused (snd (save_record c r d)) = refused d" "unreadable (snd (save_record c r d)) = unreadable d"
  "dir_refused (snd (save_record c r d)) = dir_refused d"
  by (auto simp: store_defs fs_defs split: option.splits)

lemma clear_permissions:
  "refused (snd (clear_boot_flag d)) = refused d" "unreadable (snd (clear_boot_flag d)) = unreadable d"
  "dir_refused (snd (clear_boot_flag d)) = dir_refused d"
  "refused (snd (clear_clean_shutdown d)) = refused d"
  "unreadable (snd (clear_clean_shutdown d)) = unreadable d"
  "dir_refused (snd (clear_clean_shutdown d)) = dir_refused d"
  by (auto simp: store_defs remove_if_present_cases)

lemma load_after_save:
  assumes "enc c r = Some s" and "dec c (strip_bom s) = Some r"
    and "\<not> refused d record_file" and "\<not> unreadable d record_file" and "\<not> dir_refused d"
  shows "load_record c (snd (save_record c r d)) = r"
  using assms by (simp add: store_defs fs_defs)

lemma read_after_arm:
  assumes "enc c f = Some s" and "dec c (strip_bom s) = Some f"
    and "\<not> refused d boot_flag_file" and "\<not> unreadable d boot_flag_file" and "\<not> dir_refused d"
  shows "fst (arm_boot_flag c f d) = Inr ()"
    and "read_boot_flag c (snd (arm_boot_flag c f d)) = Some f"
  using assms by (simp_all add: store_defs fs_defs)

section \<open>The contract of the boot flag\<close>

locale guard_flag =
  fixes arm :: "'f \<Rightarrow> 'd \<Rightarrow> ('e, unit) result \<times> 'd"
    and clear :: "'d \<Rightarrow> ('e, unit) result \<times> 'd"
    and armed :: "'d \<Rightarrow> bool"
  assumes arm_ok: "fst (arm f d) = Inr () \<Longrightarrow> armed (snd (arm f d))"
    and arm_err: "fst (arm f d) = Inl e \<Longrightarrow> snd (arm f d) = d"
    and clear_ok: "fst (clear d) = Inr () \<Longrightarrow> \<not> armed (snd (clear d))"
    and clear_err: "fst (clear d) = Inl e \<Longrightarrow> snd (clear d) = d"
begin

text \<open>A guarded action runs only when the arming succeeded, and it starts with the flag armed.\<close>

definition guarded :: "'f \<Rightarrow> ('d \<Rightarrow> ('e, unit) result \<times> 'd) \<Rightarrow> 'd \<Rightarrow> ('e, unit) result \<times> 'd" where
  "guarded f act d = (case arm f d of (Inl e, d') \<Rightarrow> (Inl e, d') | (Inr _, d') \<Rightarrow> act d')"

lemma armed_persists: "armed d \<Longrightarrow> armed (snd (arm f d))"
  by (cases "fst (arm f d)") (use arm_ok arm_err in auto)

lemma guarded_armed:
  assumes keeps: "\<And>d. armed d \<Longrightarrow> armed (snd (act d))"
    and ran: "fst (guarded f act d) = Inr ()"
  shows "armed (snd (guarded f act d))"
  using assms arm_ok [of f d]
  by (cases "arm f d") (auto simp: guarded_def split: sum.splits)

lemma guarded_refused: "fst (arm f d) = Inl e \<Longrightarrow> guarded f act d = (Inl e, d)"
  using arm_err [of f d e] by (cases "arm f d") (auto simp: guarded_def)

lemma clear_twice: "fst (clear d) = Inr () \<Longrightarrow> \<not> armed (snd (clear (snd (clear d))))"
  using clear_ok [of d] clear_ok [of "snd (clear d)"] clear_err [of "snd (clear d)"]
  by (cases "fst (clear (snd (clear d)))") auto

end

interpretation store_flag: guard_flag "arm_boot_flag c" clear_boot_flag is_boot_flag_armed for c
proof
  show "is_boot_flag_armed (snd (arm_boot_flag c f d))" if "fst (arm_boot_flag c f d) = Inr ()" for f d
    using that by (auto simp: store_defs fs_defs split: option.splits if_splits)
  show "snd (arm_boot_flag c f d) = d" if "fst (arm_boot_flag c f d) = Inl e" for f d e
    using that by (auto simp: store_defs fs_defs split: option.splits if_splits)
  show "\<not> is_boot_flag_armed (snd (clear_boot_flag d))" if "fst (clear_boot_flag d) = Inr ()" for d
    using that by (auto simp: store_defs remove_if_present_cases fs_exists_def split: if_splits)
  show "snd (clear_boot_flag d) = d" if "fst (clear_boot_flag d) = Inl e" for d e
    using that by (auto simp: store_defs remove_if_present_cases split: if_splits)
qed

end
