(* ===== verification/SafeLoopRuntime.thy ===== *)
theory SafeLoopRuntime
  imports Store
begin

text \<open>
  \<open>crates/service/src/safe_loop_runtime.rs\<close> and the places of the service that change the record:
  the startup recovery over the disk, the status snapshot's counters, the acknowledgement, the
  clean-run strip and the operator's field report of \<open>gpu_power_sweep.rs\<close>. The message of the
  Windows event log is the argument \<open>msg\<close>. A step relation collects every way the service updates
  the record; its reachable states carry the invariant of \<open>SafeLoop\<close>.
\<close>

section \<open>Startup recovery\<close>

fun retain_boot_flag_until_reapply :: "recovery_action \<Rightarrow> bool" where
  "retain_boot_flag_until_reapply (BlacklistAndRecede _ _ _ _) = True"
| "retain_boot_flag_until_reapply (EnterSafeMode _) = True"
| "retain_boot_flag_until_reapply _ = False"

definition read_last_bugcheck_class :: "string option \<Rightarrow> crash_class" where
  "read_last_bugcheck_class msg =
     (case msg of
        None \<Rightarrow> Unknown
      | Some m \<Rightarrow>
          (case parse_bugcheck_code m of
             None \<Rightarrow> Unknown
           | Some code \<Rightarrow> classify_bugcheck code))"

definition run_startup_recovery ::
  "boot_flag codec \<Rightarrow> safe_loop_record codec \<Rightarrow> string option \<Rightarrow> disk \<Rightarrow>
   safe_loop_record \<times> disk" where
  "run_startup_recovery fc rc msg d =
     (let r = load_record rc d;
          flag = read_boot_flag fc d;
          clean_shutdown = is_clean_shutdown_present d;
          d1 = snd (clear_clean_shutdown d);
          disarm = (flag \<noteq> None \<and> clean_shutdown);
          d2 = (if disarm then snd (clear_boot_flag d1) else d1);
          flag' = (if disarm then None else flag);
          bugcheck = (if flag' \<noteq> None then read_last_bugcheck_class msg else Unknown);
          action = decide_recovery flag' bugcheck r;
          r' = snd (apply_recovery action r);
          d3 = (if retain_boot_flag_until_reapply action then d2 else snd (clear_boot_flag d2));
          d4 = snd (save_record rc r' d3)
      in (r', d4))"

text \<open>What the boot amounts to for the record: the flag as the recovery sees it.\<close>

definition boot_view :: "boot_flag codec \<Rightarrow> string option \<Rightarrow> disk \<Rightarrow> boot_flag option \<times> crash_class" where
  "boot_view fc msg d =
     (if is_clean_shutdown_present d then (None, Unknown)
      else case read_boot_flag fc d of
             None \<Rightarrow> (None, Unknown)
           | Some f \<Rightarrow> (Some f, read_last_bugcheck_class msg))"

lemma startup_record:
  "fst (run_startup_recovery fc rc msg d) = boot_record (boot_view fc msg d) (load_record rc d)"
  by (auto simp: run_startup_recovery_def boot_view_def boot_record_def Let_def split: option.split)

lemma retain_iff_flag:
  "retain_boot_flag_until_reapply (decide_recovery f c r) \<longleftrightarrow> f \<noteq> None"
  by (auto simp: decide_recovery_def Let_def split: option.split)

lemma startup_flag:
  "is_boot_flag_armed (snd (run_startup_recovery fc rc msg d)) \<longleftrightarrow>
     is_boot_flag_armed d \<and> (fst (boot_view fc msg d) \<noteq> None \<or> refused d boot_flag_file)"
  by (auto simp: run_startup_recovery_def boot_view_def Let_def retain_iff_flag save_record_frame
      armed_after_clear clear_clean_frame clear_permissions split: option.split)

lemma startup_consumes_marker:
  "\<not> refused d clean_shutdown_file \<Longrightarrow>
   \<not> is_clean_shutdown_present (snd (run_startup_recovery fc rc msg d))"
proof -
  assume ok: "\<not> refused d clean_shutdown_file"
  have "\<not> is_clean_shutdown_present (snd (clear_clean_shutdown d))"
    using ok by (simp add: clear_clean_shutdown_def is_clean_shutdown_present_def fs_exists_def
        remove_if_present_cases)
  moreover have "is_clean_shutdown_present (snd (save_record rc r d')) = is_clean_shutdown_present d'"
    for r d'
    by (simp add: save_record_def is_clean_shutdown_present_def write_doc_frame)
  ultimately show ?thesis
    by (auto simp: run_startup_recovery_def Let_def clear_boot_flag_frame split: option.split)
qed

lemma startup_persists:
  assumes enc: "enc rc r' = Some s" "dec rc (strip_bom s) = Some r'"
    and io: "\<not> refused d record_file" "\<not> unreadable d record_file" "\<not> dir_refused d"
    and r': "r' = fst (run_startup_recovery fc rc msg d)"
  shows "load_record rc (snd (run_startup_recovery fc rc msg d)) = r'"
proof -
  obtain d3 where d3: "snd (run_startup_recovery fc rc msg d) = snd (save_record rc r' d3)"
    and perm: "refused d3 = refused d" "unreadable d3 = unreadable d" "dir_refused d3 = dir_refused d"
    unfolding r' run_startup_recovery_def Let_def
    by (auto simp: clear_permissions split: if_splits)
  show ?thesis
    unfolding d3 by (rule load_after_save [OF enc]) (use io perm in simp_all)
qed

section \<open>Other updates of the record\<close>

definition acknowledge_on_disk ::
  "safe_loop_record codec \<Rightarrow> disk \<Rightarrow> (io_error, bool) result \<times> disk" where
  "acknowledge_on_disk rc d =
     (case acknowledge_forge_incident (load_record rc d) of
        (None, _) \<Rightarrow> (Inr False, d)
      | (Some _, r) \<Rightarrow>
          (case save_record rc r d of
             (Inl e, d') \<Rightarrow> (Inl e, d')
           | (Inr _, d') \<Rightarrow> (Inr True, d')))"

definition strip_gpu_vf_blacklist :: "safe_loop_record \<Rightarrow> nat \<times> safe_loop_record" where
  "strip_gpu_vf_blacklist r =
     (let kept = filter (\<lambda>b. ''gpu_freq_mhz'' \<notin> set (map fst (axes (center b)))) (blacklist r)
      in (length (blacklist r) - length kept, r\<lparr>blacklist := kept\<rparr>))"

definition push_region :: "tuning_point \<Rightarrow> safe_loop_record \<Rightarrow> safe_loop_record" where
  "push_region p r =
     (if is_blacklisted r p then r
      else r\<lparr>blacklist := blacklist r @ [region_around p default_blacklist_radius]\<rparr>)"

text \<open>The push of the sentinel (\<open>persist_field_failure\<close>) asks for the very region, not for a point that
  some region covers.\<close>

definition push_exact_region :: "tuning_point \<Rightarrow> safe_loop_record \<Rightarrow> safe_loop_record" where
  "push_exact_region p r =
     (let region = region_around p default_blacklist_radius
      in if region \<in> set (blacklist r) then r else r\<lparr>blacklist := blacklist r @ [region]\<rparr>)"

text \<open>
  \<open>record_operator_field_failure\<close>: the fields of the point that it reads are its arguments, the
  incident is the one it builds and acknowledges on the spot.
\<close>

definition record_operator_field_failure ::
  "string \<Rightarrow> i64 option \<Rightarrow> string \<Rightarrow> u32 option \<times> u32 \<Rightarrow> u32 option \<times> u32 option \<times> u32 \<Rightarrow> i32 \<Rightarrow>
   string option \<Rightarrow> string \<Rightarrow> safe_loop_record \<Rightarrow> (u32 \<times> u32) \<times> safe_loop_record" where
  "record_operator_field_failure now nanos msg clocks volts offset run gpu r =
     (let target = unwrap_or (fst clocks) (snd clocks);
          anchor = (case fst volts of
                      Some v \<Rightarrow> v
                    | None \<Rightarrow> unwrap_or (fst (snd volts)) (snd (snd volts)));
          intent = from_axes [(''gpu_freq_mhz'', int target), (''gpu_offset_mhz'', offset),
                              (''gpu_vf_bin_mv'', int anchor)];
          r1 = push_region intent r;
          duplicate = (\<exists>i\<in>set (forge_incidents r1).
             inc_kind i = OperatorFieldFailure \<and> inc_gpu_key i = Some gpu \<and>
             inc_target_mhz i = Some target \<and> inc_anchor_mv i = Some anchor);
          inc = (forge_incident_new now nanos OperatorFieldFailure run (Some gpu) (Some target)
                   (Some anchor) msg)\<lparr>inc_acknowledged := True\<rparr>;
          r2 = (if duplicate then r1
                else r1\<lparr>forge_incidents :=
                          (if length (forge_incidents r1) \<ge> 64 then drop 1 (forge_incidents r1)
                           else forge_incidents r1) @ [inc]\<rparr>)
      in ((target, anchor), if safe_mode r2 then r2 else r2\<lparr>sl_state := Unstable\<rparr>))"

section \<open>Reachable records\<close>

inductive record_step :: "safe_loop_record \<Rightarrow> safe_loop_record \<Rightarrow> bool" where
  step_boot: "record_step r (boot_record b r)"
| step_validated: "record_step r (mark_validated p r)"
| step_reset: "record_step r (clear_recovery_latch r)"
| step_incident: "\<not> inc_acknowledged i \<Longrightarrow> record_step r (snd (record_forge_incident i r))"
| step_ack: "record_step r (snd (acknowledge_forge_incident r))"
| step_region: "record_step r (push_region p r)"
| step_sentinel: "record_step r (push_exact_region p r)"
| step_strip: "record_step r (snd (strip_gpu_vf_blacklist r))"
| step_operator: "record_step r (snd (record_operator_field_failure n ns m c v off run gpu r))"
| step_forget: "record_step r default_record"

inductive record_reachable :: "safe_loop_record \<Rightarrow> bool" where
  reach_default: "record_reachable default_record"
| reach_step: "record_reachable r \<Longrightarrow> record_step r r' \<Longrightarrow> record_reachable r'"

inductive_cases record_stepE: "record_step r r'"

lemma record_inv_push: "record_inv r \<Longrightarrow> record_inv (push_region p r)"
  by (simp add: record_inv_def push_region_def)

lemma record_inv_push_exact: "record_inv r \<Longrightarrow> record_inv (push_exact_region p r)"
  by (simp add: record_inv_def push_exact_region_def Let_def)

lemma push_exact_blacklists: "is_blacklisted (push_exact_region p r) p"
  using region_contains_center [of default_blacklist_radius p]
  by (auto simp: push_exact_region_def is_blacklisted_def default_blacklist_radius_def Let_def)

lemma push_region_blacklists: "is_blacklisted (push_region p r) p"
  using region_contains_center [of default_blacklist_radius p]
  by (auto simp: push_region_def is_blacklisted_def default_blacklist_radius_def)

lemma record_inv_operator:
  "record_inv r \<Longrightarrow> record_inv (snd (record_operator_field_failure n ns m c v off run gpu r))"
  by (auto simp: record_operator_field_failure_def Let_def record_inv_def push_region_def)

lemma record_step_inv: "record_step r r' \<Longrightarrow> record_inv r \<Longrightarrow> record_inv r'"
  by (induction rule: record_step.induct)
    (simp_all add: record_inv_boot record_inv_mark_validated record_inv_clear record_inv_incident
      record_inv_ack record_inv_push record_inv_push_exact record_inv_operator record_inv_default,
     simp add: record_inv_def strip_gpu_vf_blacklist_def Let_def)

lemma reachable_inv: "record_reachable r \<Longrightarrow> record_inv r"
  by (induction rule: record_reachable.induct) (simp_all add: record_inv_default record_step_inv)

text \<open>Only the operator's reset and the full reset leave Safe Mode.\<close>

lemma safe_mode_latched:
  assumes "record_step r r'" and "safe_mode r" and "\<not> safe_mode r'"
  shows "r' = clear_recovery_latch r \<or> r' = default_record"
  using assms
  by (induction rule: record_step.induct)
    (auto simp: boot_safe_mode mark_validated_def record_forge_incident_def Let_def push_region_def push_exact_region_def
      acknowledge_forge_incident_def strip_gpu_vf_blacklist_def record_operator_field_failure_def
      split: option.splits if_splits)

section \<open>Properties\<close>

text \<open>C12: every record the service can reach keeps the crash streak below the threshold unless Safe
  Mode is latched, keeps both logs within their caps and never holds an acknowledged incident as
  the pending one.\<close>

theorem reachable_record_ok:
  assumes "record_reachable r"
  shows "(consecutive_crashes r < safe_mode_crash_threshold \<or> safe_mode r) \<and>
    length (crash_log r) \<le> 32 \<and> length (forge_incidents r) \<le> 64 \<and>
    is_none_or (pending_forge_incident r) (\<lambda>i. \<not> inc_acknowledged i)"
  using reachable_inv [OF assms]
  by (cases "pending_forge_incident r") (auto simp: record_inv_def safe_mode_crash_threshold_def)

definition sample_flag :: "string \<Rightarrow> boot_flag" where
  "sample_flag ph = \<lparr>bf_intent = from_axes [(''gpu_freq_mhz'', 2700)], bf_phase = ph, bf_timestamp = ''t''\<rparr>"

lemma reachable_boot: "record_reachable (boot_record b default_record)"
  by (rule reach_step [OF reach_default step_boot])

theorem reachable_record_ok_witness:
  "consecutive_crashes (boot_record (Some (sample_flag ''apply''), Unknown) default_record) = 1 \<and>
   length (crash_log (boot_record (Some (sample_flag ''apply''), Unknown) default_record)) \<le> 32"
  using reachable_record_ok [OF reachable_boot [of "(Some (sample_flag ''apply''), Unknown)"]]
  by (simp add: boot_crashes counted_boot_def counts_toward_safe_mode_def sample_flag_def
      supervised_f2_forge_phase_def default_record_def u32_sat_add_def)

text \<open>C1: over any sequence of boots a reachable record is in Safe Mode exactly when it was before, or
  when the streak it started with and the counted crash boots together reach three. A boot counts when it
  finds a boot flag, unless the flag is the supervised one of the Forge and the bugcheck is one of an
  unstable overclock or unknown: an unrelated bugcheck counts during the Forge as it does elsewhere, and no number of the
  others trips Safe Mode.\<close>

theorem boots_trip_safe_mode:
  assumes "record_reachable r"
  shows "(safe_mode (fold boot_record bs r) \<longleftrightarrow>
      safe_mode r \<or> safe_mode_crash_threshold \<le> consecutive_crashes r + length (filter counted_boot bs)) \<and>
    (\<forall>b. counted_boot b \<longleftrightarrow>
      (\<exists>f. fst b = Some f \<and> (bf_phase f \<noteq> supervised_f2_forge_phase \<or> snd b = Unrelated)))"
proof
  show "\<forall>b. counted_boot b \<longleftrightarrow>
      (\<exists>f. fst b = Some f \<and> (bf_phase f \<noteq> supervised_f2_forge_phase \<or> snd b = Unrelated))"
    by (auto simp: counted_boot_def counts_toward_safe_mode_def split: option.splits)
  show "safe_mode (fold boot_record bs r) \<longleftrightarrow>
      safe_mode r \<or> safe_mode_crash_threshold \<le> consecutive_crashes r + length (filter counted_boot bs)"
    using reachable_inv [OF assms]
  proof (induction bs arbitrary: r)
    case Nil
    then show ?case by (auto simp: record_inv_def safe_mode_crash_threshold_def)
  next
    case (Cons b bs)
    have "safe_mode (fold boot_record bs (boot_record b r)) \<longleftrightarrow>
        safe_mode (boot_record b r) \<or>
        3 \<le> consecutive_crashes (boot_record b r) + length (filter counted_boot bs)"
      using Cons.IH [OF record_inv_boot [OF Cons.prems]] by (simp add: safe_mode_crash_threshold_def)
    then show ?case
      using Cons.prems
      by (auto simp: boot_safe_mode boot_crashes record_inv_def u32_sat_add_def
          safe_mode_crash_threshold_def)
  qed
qed

theorem boots_trip_safe_mode_witness:
  "safe_mode (fold boot_record (replicate 3 (Some (sample_flag ''apply''), Unknown)) default_record) \<and>
   \<not> safe_mode (fold boot_record
       (replicate 9 (Some (sample_flag supervised_f2_forge_phase), Unknown)) default_record) \<and>
   safe_mode (fold boot_record
       (replicate 3 (Some (sample_flag supervised_f2_forge_phase), Unrelated)) default_record)"
  unfolding boots_trip_safe_mode [OF reach_default, THEN conjunct1]
  by (simp add: counted_boot_def counts_toward_safe_mode_def sample_flag_def
      supervised_f2_forge_phase_def default_record_def safe_mode_crash_threshold_def)

text \<open>Whatever the service does, it leaves Safe Mode only by the operator's reset of the recovery
  latch or by forgetting the whole record.\<close>

lemma safe_mode_only_reset_leaves:
  assumes "record_step r r'" and "safe_mode r" and "\<not> safe_mode r'"
  shows "r' = clear_recovery_latch r \<or> r' = default_record"
  using assms by (rule safe_mode_latched)

text \<open>A blacklisted tuning point stays blacklisted under every step of the service except the strip
  that follows a clean run and the full reset.\<close>

lemma blacklist_is_kept:
  assumes "record_step r r'" and "is_blacklisted r p"
  shows "is_blacklisted r' p \<or> r' = snd (strip_gpu_vf_blacklist r) \<or> r' = default_record"
  using assms(1)
proof cases
  case (step_boot b)
  then show ?thesis using prefix_is_blacklisted [OF boot_blacklist] assms(2) by blast
qed (use assms(2) in \<open>auto simp: mark_validated_def clear_recovery_latch_def record_forge_incident_def
      acknowledge_forge_incident_def push_region_def push_exact_region_def record_operator_field_failure_def Let_def
      is_blacklisted_def split: option.splits\<close>)

text \<open>C2: the startup recovery does on the disk what the record machine specifies: the record it leaves
  is the boot of the record it loaded, the boot flag stays armed exactly when it stood for a crash,
  and the clean-shutdown marker is used up.\<close>

theorem startup_refines_boot:
  assumes "d' = snd (run_startup_recovery fc rc msg d)"
    and "r' = boot_record (boot_view fc msg d) (load_record rc d)"
    and "enc rc r' = Some s" and "dec rc (strip_bom s) = Some r'"
    and "\<not> refused d record_file" "\<not> unreadable d record_file" "\<not> dir_refused d"
    and "\<not> refused d boot_flag_file" "\<not> refused d clean_shutdown_file"
  shows "load_record rc d' = r' \<and>
    (is_boot_flag_armed d' \<longleftrightarrow> is_boot_flag_armed d \<and> fst (boot_view fc msg d) \<noteq> None) \<and>
    \<not> is_clean_shutdown_present d'"
proof (intro conjI)
  show "load_record rc d' = r'"
    unfolding assms(1)
    by (rule startup_persists [OF assms(3,4)]) (use assms in \<open>simp_all add: startup_record\<close>)
  show "is_boot_flag_armed d' \<longleftrightarrow> is_boot_flag_armed d \<and> fst (boot_view fc msg d) \<noteq> None"
    using assms(8) by (simp add: assms(1) startup_flag)
  show "\<not> is_clean_shutdown_present d'"
    using assms(9) by (simp add: assms(1) startup_consumes_marker)
qed

definition sample_disk :: disk where
  "sample_disk = \<lparr>files = [boot_flag_file \<mapsto> ''f''], refused = (\<lambda>_. False), unreadable = (\<lambda>_. False),
                  dir_refused = False\<rparr>"

definition sample_flag_codec :: "boot_flag codec" where
  "sample_flag_codec = \<lparr>enc = (\<lambda>_. Some ''f''), dec = (\<lambda>s. if s = ''f'' then Some (sample_flag ''apply'') else None)\<rparr>"

definition sample_record_codec :: "safe_loop_record codec" where
  "sample_record_codec =
     (let r = boot_record (Some (sample_flag ''apply''), Unknown) default_record
      in \<lparr>enc = (\<lambda>_. Some ''r''), dec = (\<lambda>s. if s = ''r'' then Some r else None)\<rparr>)"

theorem startup_refines_boot_witness:
  "is_boot_flag_armed (snd (run_startup_recovery sample_flag_codec sample_record_codec None sample_disk)) \<and>
   consecutive_crashes (load_record sample_record_codec
     (snd (run_startup_recovery sample_flag_codec sample_record_codec None sample_disk))) = 1"
proof -
  have v: "boot_view sample_flag_codec None sample_disk = (Some (sample_flag ''apply''), Unknown)"
    by (simp add: boot_view_def is_clean_shutdown_present_def read_boot_flag_def fs_defs sample_disk_def
        sample_flag_codec_def file_names strip_bom_def bom_def read_last_bugcheck_class_def)
  have l: "load_record sample_record_codec sample_disk = default_record"
    by (simp add: load_record_def fs_defs sample_disk_def file_names)
  show ?thesis
    using startup_refines_boot [OF refl refl, of sample_record_codec sample_flag_codec None sample_disk "''r''"]
    unfolding v l
    by (simp add: sample_record_codec_def Let_def sample_disk_def strip_bom_def bom_def
        is_boot_flag_armed_def fs_exists_def file_names boot_crashes counted_boot_def
        counts_toward_safe_mode_def sample_flag_def supervised_f2_forge_phase_def default_record_def
        u32_sat_add_def)
qed

text \<open>C13: after a boot that found the flag armed, the setting the machine crashed under is blacklisted,
  unless that boot is the one that latches Safe Mode and sends the tuner to stock.\<close>

theorem crashed_point_blacklisted:
  "is_blacklisted (boot_record (Some flag, cls) r) (bf_intent flag) \<or>
   (safe_mode (boot_record (Some flag, cls) r) \<and> boot_target (Some flag, cls) r = stock \<and>
    sl_state (boot_record (Some flag, cls) r) = SafeMode)"
proof (cases "counts_toward_safe_mode flag cls \<and>
    safe_mode_crash_threshold \<le> u32_sat_add (consecutive_crashes r) 1")
  case True
  then show ?thesis by (simp add: boot_defs)
next
  case False
  then have "boot_record (Some flag, cls) r =
      snd (apply_recovery (BlacklistAndRecede (bf_intent flag) (recovery_target r) cls
             (counts_toward_safe_mode flag cls)) r)"
    by (auto simp: boot_defs)
  then show ?thesis by (simp only: recede_blacklists simp_thms)
qed

text \<open>The phase machine reports a setting as validated only after a full cycle: the probe was
  started, the setting applied, the dwell entered and passed, in this order.\<close>

lemma validated_needs_full_cycle:
  assumes "run_events Idle es = Validated"
  shows "subseq [StartProbe, Applied, EnterDwell, DwellPassed] es"
  using run_events_trace [of es] assms by simp

end
