(* ===== verification/GpuDriver.thy ===== *)
theory GpuDriver
  imports VfPlan
begin

text \<open>
  The driver layer of \<open>crates/gpu-nvapi/src/lib.rs\<close> and the clock lock of
  \<open>crates/core/src/nvml_gpu.rs\<close>: voltage locks, global offsets, curve reads, the full reset, and the
  verified voltage lock and best-effort stock reset that \<open>gpu_undervolt.rs\<close> and
  \<open>gpu_power_sweep.rs\<close> build on them. The vendor libraries are a record of functions over an
  arbitrary device state; their documented behaviour is stated where a theorem needs it.
\<close>

section \<open>The vendor libraries\<close>

record 'g vendor =
  ven_locks :: "'g \<Rightarrow> (usize \<times> bool \<times> u32) list option"
  ven_set_locks :: "(usize \<times> u32 option) list \<Rightarrow> 'g \<Rightarrow> bool \<times> 'g"
  ven_set_core :: "i32 \<Rightarrow> 'g \<Rightarrow> bool \<times> 'g"
  ven_set_mem :: "i32 \<Rightarrow> 'g \<Rightarrow> bool \<times> 'g"
  ven_status :: "usize \<Rightarrow> 'g \<Rightarrow> (u32 \<times> u32) option"
  ven_base :: "usize \<Rightarrow> 'g \<Rightarrow> (u32 \<times> u32) option"
  ven_get_point :: "usize \<Rightarrow> 'g \<Rightarrow> i32 option"
  ven_set_point :: "'g set_point"
  ven_probe :: "'g \<Rightarrow> i32"
  ven_lock_clock :: "u32 \<Rightarrow> u32 \<Rightarrow> 'g \<Rightarrow> bool \<times> 'g"
  ven_reset_clock :: "'g \<Rightarrow> bool \<times> 'g"

text \<open>
  The lock table lists entry id, whether the mode is manual, and microvolts, in ascending id order;
  a status pair is kilohertz and microvolts; clocks are locked with a minimum and a maximum.
\<close>

datatype driver_error =
  LockTableUnreadable
| LockTableEmpty
| LockClearFailed usize
| LockSetFailed usize
| UnlockFailed
| CoreOffsetFailed
| MemOffsetFailed
| ResetFailed vf_error
| ClockLockFailed
| ClockResetFailed
| MultipleLocks "(usize \<times> u32) list"

type_synonym ('a, 'g) drv = "'g \<Rightarrow> (driver_error, 'a) result \<times> 'g"

definition drv_of :: "driver_error \<Rightarrow> bool \<times> 'g \<Rightarrow> (driver_error, unit) result \<times> 'g" where
  "drv_of e r = (if fst r then (Inr (), snd r) else (Inl e, snd r))"

text \<open>The operator \<open>?\<close> on a driver call.\<close>

definition drv_then :: "(unit, 'g) drv \<Rightarrow> ('a, 'g) drv \<Rightarrow> ('a, 'g) drv" where
  "drv_then f h g = (case f g of (Inl e, g') \<Rightarrow> (Inl e, g') | (Inr _, g') \<Rightarrow> h g')"

section \<open>Offsets, clocks and curves\<close>

definition set_core_offset_mhz :: "'g vendor \<Rightarrow> i32 \<Rightarrow> (unit, 'g) drv" where
  "set_core_offset_mhz v mhz g = drv_of CoreOffsetFailed (ven_set_core v (i32_mul mhz 1000) g)"

definition set_mem_offset_mhz :: "'g vendor \<Rightarrow> i32 \<Rightarrow> (unit, 'g) drv" where
  "set_mem_offset_mhz v mhz g = drv_of MemOffsetFailed (ven_set_mem v (i32_mul mhz 1000) g)"

definition lock_core_clock_max_mhz :: "'g vendor \<Rightarrow> u32 \<Rightarrow> (unit, 'g) drv" where
  "lock_core_clock_max_mhz v mhz g = drv_of ClockLockFailed (ven_lock_clock v 210 mhz g)"

definition pin_core_clock_mhz :: "'g vendor \<Rightarrow> u32 \<Rightarrow> (unit, 'g) drv" where
  "pin_core_clock_mhz v mhz g = drv_of ClockLockFailed (ven_lock_clock v mhz mhz g)"

definition reset_core_clock_lock :: "'g vendor \<Rightarrow> (unit, 'g) drv" where
  "reset_core_clock_lock v g = drv_of ClockResetFailed (ven_reset_clock v g)"

definition curve_of :: "(usize \<Rightarrow> (u32 \<times> u32) option) \<Rightarrow> vf_curve" where
  "curve_of read =
     concat (map (\<lambda>i. case read i of
                        Some (khz, uv) \<Rightarrow> if uv > 0 then [(i, uv div 1000, khz div 1000)] else []
                      | None \<Rightarrow> []) [0..<255])"

definition read_vf_curve_modern :: "'g vendor \<Rightarrow> 'g \<Rightarrow> vf_curve" where
  "read_vf_curve_modern v g = curve_of (\<lambda>i. ven_status v i g)"

definition read_vf_base_curve_modern :: "'g vendor \<Rightarrow> 'g \<Rightarrow> vf_curve" where
  "read_vf_base_curve_modern v g = curve_of (\<lambda>i. ven_base v i g)"

definition vf_curve_supported :: "'g vendor \<Rightarrow> 'g \<Rightarrow> bool" where
  "vf_curve_supported v g \<longleftrightarrow> ven_probe v g = 0"

definition vf_point_status :: "'g vendor \<Rightarrow> usize \<Rightarrow> 'g \<Rightarrow> (u32 \<times> u32) option" where
  "vf_point_status v i g = map_option (\<lambda>(f, uv). (f div 1000, uv div 1000)) (ven_status v i g)"

definition vf_set_point_mhz :: "'g vendor \<Rightarrow> usize \<Rightarrow> i32 \<Rightarrow> 'g \<Rightarrow> i32 \<times> 'g" where
  "vf_set_point_mhz v i mhz g = ven_set_point v i (i32_mul mhz 1000) g"

text \<open>\<open>GpuCurve::plateau\<close>: the highest clock and the lowest voltage that reaches it.\<close>

definition plateau :: "(u32 \<times> u32) list \<Rightarrow> (u32 \<times> u32) option" where
  "plateau points =
     (if points = [] then None
      else min_by_key fst (filter (\<lambda>p. snd p = Max (snd ` set points)) points))"

section \<open>Voltage locks\<close>

definition read_core_voltage_locks :: "'g vendor \<Rightarrow> 'g \<Rightarrow> (driver_error, (usize \<times> u32) list) result" where
  "read_core_voltage_locks v g =
     (case ven_locks v g of
        None \<Rightarrow> Inl LockTableUnreadable
      | Some locks \<Rightarrow>
          Inr (map (\<lambda>(i, _, uv). (i, uv div 1000)) (filter (\<lambda>(_, manual, uv). manual \<and> uv > 0) locks)))"

definition read_core_voltage_lock_mv :: "'g vendor \<Rightarrow> 'g \<Rightarrow> (driver_error, u32 option) result" where
  "read_core_voltage_lock_mv v g =
     (case read_core_voltage_locks v g of
        Inl e \<Rightarrow> Inl e
      | Inr [] \<Rightarrow> Inr None
      | Inr [(_, mv)] \<Rightarrow> Inr (Some mv)
      | Inr active \<Rightarrow> Inl (MultipleLocks active))"

definition lock_core_voltage_mv :: "'g vendor \<Rightarrow> u32 \<Rightarrow> (usize, 'g) drv" where
  "lock_core_voltage_mv v mv g =
     (case ven_locks v g of
        None \<Rightarrow> (Inl LockTableUnreadable, g)
      | Some locks \<Rightarrow>
          if locks = [] then (Inl LockTableEmpty, g)
          else let entry = fst (last locks)
          in case ven_set_locks v (map (\<lambda>l. (fst l, None)) locks) g of (ok, g1) \<Rightarrow>
               if \<not> ok then (Inl (LockClearFailed entry), g1)
               else case ven_set_locks v [(entry, Some (u32_mul mv 1000))] g1 of (ok', g2) \<Rightarrow>
                      if \<not> ok' then (Inl (LockSetFailed entry), g2) else (Inr entry, g2))"

definition unlock_core_voltage :: "'g vendor \<Rightarrow> (unit, 'g) drv" where
  "unlock_core_voltage v g =
     (case ven_locks v g of
        None \<Rightarrow> (Inl LockTableUnreadable, g)
      | Some locks \<Rightarrow>
          if locks = [] then (Inr (), g)
          else drv_of UnlockFailed (ven_set_locks v (map (\<lambda>l. (fst l, None)) locks) g))"

section \<open>Resets\<close>

definition drv_reset_curve :: "'g vendor \<Rightarrow> (nat, 'g) drv" where
  "drv_reset_curve v g =
     (case reset_vf_curve_checked (\<lambda>i g. ven_status v i g \<noteq> None) (ven_set_point v) (ven_get_point v) g of
        (Inl e, g') \<Rightarrow> (Inl (ResetFailed e), g')
      | (Inr n, g') \<Rightarrow> (Inr n, g'))"

definition reset_vf_curve :: "'g vendor \<Rightarrow> 'g \<Rightarrow> nat \<times> 'g" where
  "reset_vf_curve v g =
     (case drv_reset_curve v g of (Inl _, g') \<Rightarrow> (0, g') | (Inr n, g') \<Rightarrow> (n, g'))"

definition reset_all :: "'g vendor \<Rightarrow> (unit, 'g) drv" where
  "reset_all v =
     drv_then (unlock_core_voltage v)
       (drv_then (set_core_offset_mhz v 0)
         (drv_then (set_mem_offset_mhz v 0)
           (\<lambda>g. if vf_curve_supported v g
                then (case drv_reset_curve v g of (Inl e, g') \<Rightarrow> (Inl e, g') | (Inr _, g') \<Rightarrow> (Inr (), g'))
                else (Inr (), g))))"

text \<open>\<open>reset_to_stock\<close> of the sweep ignores every error on its way.\<close>

definition reset_to_stock :: "'g vendor \<Rightarrow> 'g \<Rightarrow> 'g" where
  "reset_to_stock v g =
     snd (reset_core_clock_lock v
       (snd (reset_vf_curve v
         (snd (set_core_offset_mhz v 0
           (snd (unlock_core_voltage v g)))))))"

section \<open>The verified voltage lock\<close>

datatype lock_error =
  LockWriteFailed driver_error
| LockReadbackFailed driver_error
| LockNotRetained usize
| LockMismatch usize "(usize \<times> u32) list"

text \<open>
  The readback loop of \<open>lock_core_voltage_verified\<close>: the argument \<open>polls\<close> is the number of times the
  clock is found before the deadline, each followed by a sleep of 50 ms that the device may use to
  settle.
\<close>

fun poll_lock ::
  "'g vendor \<Rightarrow> ('g \<Rightarrow> 'g) \<Rightarrow> nat \<Rightarrow> usize \<Rightarrow> u32 \<Rightarrow> 'g \<Rightarrow> (lock_error, unit) result \<times> 'g" where
  "poll_lock v settle polls entry mv g =
     (case read_core_voltage_locks v g of
        Inl e \<Rightarrow> (Inl (LockReadbackFailed e), g)
      | Inr active \<Rightarrow>
          if active = [(entry, mv)] then (Inr (), g)
          else (case polls of
                  0 \<Rightarrow> (Inl (if active = [] then LockNotRetained entry else LockMismatch entry active), g)
                | Suc n \<Rightarrow> poll_lock v settle n entry mv (settle g)))"

declare poll_lock.simps [simp del]

definition lock_core_voltage_verified ::
  "'g vendor \<Rightarrow> ('g \<Rightarrow> 'g) \<Rightarrow> nat \<Rightarrow> u32 \<Rightarrow> 'g \<Rightarrow> (lock_error, unit) result \<times> 'g" where
  "lock_core_voltage_verified v settle polls mv g =
     (case lock_core_voltage_mv v mv g of
        (Inl e, g') \<Rightarrow> (Inl (LockWriteFailed e), g')
      | (Inr entry, g') \<Rightarrow> poll_lock v settle polls entry mv g')"

end
