(* ===== verification/Float32.thy ===== *)
theory Float32
  imports Complex_Main Prelude
begin

text \<open>
  The single-precision numbers of the telemetry and of the coverage ratios: finite values are exact
  rationals, rounded to nearest with ties to even at 24 significant bits, with the infinities and the
  NaN apart; the two zeros are one. Comparisons are those of IEEE 754: nothing compares with NaN.
\<close>

section \<open>Rounding\<close>

fun nat_bits :: "nat \<Rightarrow> nat" where
  "nat_bits n = (if n = 0 then 0 else Suc (nat_bits (n div 2)))"

declare nat_bits.simps [simp del]

definition rat_pow2 :: "int \<Rightarrow> rat" where
  "rat_pow2 e = (if 0 \<le> e then 2 ^ nat e else 1 / 2 ^ nat (- e))"

text \<open>The exponent \<open>e\<close> with \<open>2\<^sup>e \<le> x < 2\<^sup>e\<^sup>+\<^sup>1\<close> of a positive rational.\<close>

definition rat_exp :: "rat \<Rightarrow> int" where
  "rat_exp x =
     (let (n, d) = quotient_of x;
          e = int (nat_bits (nat n)) - int (nat_bits (nat d))
      in if rat_pow2 e \<le> x then e else e - 1)"

definition round_half_even :: "rat \<Rightarrow> int" where
  "round_half_even x =
     (let f = \<lfloor>x\<rfloor>; r = x - of_int f
      in if r < 1 / 2 then f else if r > 1 / 2 then f + 1 else if even f then f else f + 1)"

definition f32_round_pos :: "rat \<Rightarrow> rat" where
  "f32_round_pos x =
     (let u = rat_pow2 (max (rat_exp x) (- 126) - 23) in of_int (round_half_even (x / u)) * u)"

datatype f32 = Fin rat | PosInf | NegInf | NotANumber

definition f32_round :: "rat \<Rightarrow> f32" where
  "f32_round x =
     (if x = 0 then Fin 0
      else let y = f32_round_pos \<bar>x\<bar>
      in if y \<ge> rat_pow2 128 then (if x > 0 then PosInf else NegInf)
         else Fin (if x > 0 then y else - y))"

section \<open>Comparisons and operations\<close>

fun f32_le :: "f32 \<Rightarrow> f32 \<Rightarrow> bool" where
  "f32_le NotANumber _ = False"
| "f32_le _ NotANumber = False"
| "f32_le NegInf _ = True"
| "f32_le _ PosInf = True"
| "f32_le (Fin x) (Fin y) = (x \<le> y)"
| "f32_le _ _ = False"

fun f32_lt :: "f32 \<Rightarrow> f32 \<Rightarrow> bool" where
  "f32_lt NotANumber _ = False"
| "f32_lt _ NotANumber = False"
| "f32_lt NegInf y = (y \<noteq> NegInf)"
| "f32_lt x PosInf = (x \<noteq> PosInf)"
| "f32_lt (Fin x) (Fin y) = (x < y)"
| "f32_lt _ _ = False"

definition f32_ge :: "f32 \<Rightarrow> f32 \<Rightarrow> bool" where "f32_ge x y = f32_le y x"
definition f32_gt :: "f32 \<Rightarrow> f32 \<Rightarrow> bool" where "f32_gt x y = f32_lt y x"

text \<open>The source writes the comparisons with the ordinary operators.\<close>

instantiation f32 :: ord
begin

definition less_eq_f32 :: "f32 \<Rightarrow> f32 \<Rightarrow> bool" where "less_eq_f32 = f32_le"

definition less_f32 :: "f32 \<Rightarrow> f32 \<Rightarrow> bool" where "less_f32 = f32_lt"

instance ..

end

lemmas f32_order = less_eq_f32_def less_f32_def f32_ge_def f32_gt_def

definition f32_is_finite :: "f32 \<Rightarrow> bool" where
  "f32_is_finite x = (case x of Fin _ \<Rightarrow> True | _ \<Rightarrow> False)"

definition f32_of_nat :: "nat \<Rightarrow> f32" where
  "f32_of_nat n = f32_round (of_nat n)"

text \<open>Arithmetic; an operand that is not finite gives the IEEE result except that the sign of zero is lost.\<close>

fun f32_add :: "f32 \<Rightarrow> f32 \<Rightarrow> f32" where
  "f32_add (Fin x) (Fin y) = f32_round (x + y)"
| "f32_add NotANumber _ = NotANumber"
| "f32_add _ NotANumber = NotANumber"
| "f32_add PosInf NegInf = NotANumber"
| "f32_add NegInf PosInf = NotANumber"
| "f32_add PosInf _ = PosInf"
| "f32_add NegInf _ = NegInf"
| "f32_add _ y = y"

fun f32_neg :: "f32 \<Rightarrow> f32" where
  "f32_neg (Fin x) = Fin (- x)"
| "f32_neg PosInf = NegInf"
| "f32_neg NegInf = PosInf"
| "f32_neg NotANumber = NotANumber"

definition f32_sub :: "f32 \<Rightarrow> f32 \<Rightarrow> f32" where
  "f32_sub x y = f32_add x (f32_neg y)"

definition f32_signed_inf :: "bool \<Rightarrow> f32" where
  "f32_signed_inf pos = (if pos then PosInf else NegInf)"

fun f32_mul :: "f32 \<Rightarrow> f32 \<Rightarrow> f32" where
  "f32_mul (Fin x) (Fin y) = f32_round (x * y)"
| "f32_mul NotANumber _ = NotANumber"
| "f32_mul _ NotANumber = NotANumber"
| "f32_mul (Fin x) y = (if x = 0 then NotANumber else f32_signed_inf ((x > 0) = (y = PosInf)))"
| "f32_mul x (Fin y) = (if y = 0 then NotANumber else f32_signed_inf ((y > 0) = (x = PosInf)))"
| "f32_mul x y = f32_signed_inf (x = y)"

text \<open>Division by zero is only used with a positive divisor in the sources; it is kept apart.\<close>

fun f32_div :: "f32 \<Rightarrow> f32 \<Rightarrow> f32" where
  "f32_div (Fin x) (Fin y) =
     (if y = 0 then (if x = 0 then NotANumber else f32_signed_inf (x > 0)) else f32_round (x / y))"
| "f32_div NotANumber _ = NotANumber"
| "f32_div _ NotANumber = NotANumber"
| "f32_div (Fin x) _ = Fin 0"
| "f32_div x (Fin y) = f32_signed_inf ((y \<ge> 0) = (x = PosInf))"
| "f32_div x y = NotANumber"

text \<open>
  A double has the same values; its width shows in the rounding. The sources divide doubles and round a
  single to an integer (a half goes away from zero) and saturate when they cast it to \<open>u32\<close>.
\<close>

type_synonym f64 = f32

definition f64_round :: "rat \<Rightarrow> f64" where
  "f64_round x =
     (if x = 0 then Fin 0
      else let u = rat_pow2 (max (rat_exp \<bar>x\<bar>) (- 1022) - 52);
               y = of_int (round_half_even (\<bar>x\<bar> / u)) * u
      in if y \<ge> rat_pow2 1024 then (if x > 0 then PosInf else NegInf)
         else Fin (if x > 0 then y else - y))"

definition f64_of_nat :: "nat \<Rightarrow> f64" where
  "f64_of_nat n = f64_round (of_nat n)"

fun f64_div :: "f64 \<Rightarrow> f64 \<Rightarrow> f64" where
  "f64_div (Fin x) (Fin y) =
     (if y = 0 then (if x = 0 then NotANumber else f32_signed_inf (x > 0)) else f64_round (x / y))"
| "f64_div x y = f32_div x y"

definition f32_round_to_u32 :: "f32 \<Rightarrow> nat" where
  "f32_round_to_u32 x =
     (case x of
        Fin r \<Rightarrow> min (nat (if r < 0 then 0 else \<lfloor>r + 1 / 2\<rfloor>)) u32_max
      | PosInf \<Rightarrow> u32_max
      | _ \<Rightarrow> 0)"

text \<open>\<open>f32::max\<close> passes over a NaN; \<open>total_cmp\<close> orders by this key, NaN last.\<close>

definition f32_max :: "f32 \<Rightarrow> f32 \<Rightarrow> f32" where
  "f32_max x y = (if x = NotANumber then y else if y = NotANumber then x else if x < y then y else x)"

definition total_key :: "f32 \<Rightarrow> nat \<times> rat" where
  "total_key x = (case x of NegInf \<Rightarrow> (0, 0) | Fin r \<Rightarrow> (1, r) | PosInf \<Rightarrow> (2, 0) | NotANumber \<Rightarrow> (3, 0))"

section \<open>Exact integers and ratios\<close>

lemma nat_bits_bounds: "0 < n \<Longrightarrow> 2 ^ (nat_bits n - 1) \<le> n \<and> n < 2 ^ nat_bits n"
proof (induction n rule: nat_bits.induct)
  case (1 n)
  show ?case
  proof (cases "n div 2 = 0")
    case True
    with 1 have "n = 1" by simp
    then show ?thesis by (simp add: nat_bits.simps)
  next
    case False
    then have IH: "2 ^ (nat_bits (n div 2) - 1) \<le> n div 2 \<and> n div 2 < 2 ^ nat_bits (n div 2)"
      using 1 by auto
    have pos: "0 < nat_bits (n div 2)" using False by (subst nat_bits.simps) simp
    have e: "nat_bits n = Suc (nat_bits (n div 2))" using 1 by (subst nat_bits.simps) simp
    have "2 ^ nat_bits (n div 2) = (2::nat) * 2 ^ (nat_bits (n div 2) - 1)"
      using pos by (metis Suc_pred power_Suc One_nat_def)
    with IH have lo: "2 ^ nat_bits (n div 2) \<le> n" by linarith
    have hi: "n < 2 * 2 ^ nat_bits (n div 2)" using IH by linarith
    show ?thesis using lo hi e by simp
  qed
qed

lemma rat_pow2_pos: "0 < rat_pow2 e"
  by (simp add: rat_pow2_def)

lemma rat_pow2_Suc: "rat_pow2 (e + 1) = 2 * rat_pow2 e"
proof (cases "0 \<le> e")
  case True
  then show ?thesis by (simp add: rat_pow2_def nat_add_distrib)
next
  case False
  then have "nat (- e) = Suc (nat (- (e + 1)))" by simp
  then show ?thesis using False by (simp add: rat_pow2_def field_simps)
qed

lemma rat_pow2_add_nat: "rat_pow2 (e + int k) = 2 ^ k * rat_pow2 e"
proof (induction k)
  case 0
  then show ?case by simp
next
  case (Suc k)
  have "rat_pow2 (e + int (Suc k)) = rat_pow2 ((e + int k) + 1)" by (simp add: algebra_simps)
  then show ?case using Suc by (simp add: rat_pow2_Suc)
qed

lemma rat_pow2_mono: "d \<le> e \<Longrightarrow> rat_pow2 d \<le> rat_pow2 e"
proof -
  assume "d \<le> e"
  then obtain k where "e = d + int k" using zle_iff_zadd by blast
  then show ?thesis
    using rat_pow2_add_nat [of d k] rat_pow2_pos [of d]
    by (simp add: mult_le_cancel_right1 less_imp_le not_less)
qed

text \<open>The exponent is the right one: \<open>n/d\<close> lies between \<open>2\<^sup>e\<^sup>-\<^sup>1\<close> and \<open>2\<^sup>e\<^sup>+\<^sup>1\<close> for the bit difference \<open>e\<close>.\<close>

lemma rat_exp_lower:
  assumes "0 < x"
  shows "rat_pow2 (rat_exp x) \<le> x"
proof -
  obtain n d where q: "quotient_of x = (n, d)" by (cases "quotient_of x")
  have d: "0 < d" and x: "x = of_int n / of_int d"
    using quotient_of_denom_pos [OF q] quotient_of_div [OF q] by simp_all
  have n: "0 < n" using assms d x by (simp add: zero_less_divide_iff)
  define bn where "bn = nat_bits (nat n)"
  define bd where "bd = nat_bits (nat d)"
  have "2 ^ (bn - 1) \<le> nat n" "nat d < 2 ^ bd"
    using nat_bits_bounds [of "nat n"] nat_bits_bounds [of "nat d"] n d by (auto simp: bn_def bd_def)
  then have "2 ^ (bn - 1) \<le> n" "d < 2 ^ bd"
    using n d by (simp_all add: le_nat_iff nat_less_iff)
  then have "of_int (2 ^ (bn - 1)) \<le> (of_int n :: rat)" "(of_int d :: rat) \<le> of_int (2 ^ bd)"
    by (simp_all only: of_int_le_iff less_imp_le)
  then have "(2::rat) ^ (bn - 1) \<le> of_int n" "(of_int d :: rat) \<le> 2 ^ bd"
    by simp_all
  then have "2 ^ (bn - 1) / 2 ^ bd \<le> (of_int n / of_int d :: rat)"
    using d n by (intro frac_le) simp_all
  moreover have "0 < bn" using n by (simp add: bn_def nat_bits.simps)
  moreover have "rat_pow2 (int bn - int bd - 1) = 2 ^ (bn - 1) / 2 ^ bd" if "0 < bn"
  proof -
    have "rat_pow2 (- int bd + int (bn - 1)) = 2 ^ (bn - 1) * rat_pow2 (- int bd)"
      by (rule rat_pow2_add_nat)
    moreover have "rat_pow2 (- int bd) = 1 / 2 ^ bd" by (simp add: rat_pow2_def)
    moreover have e: "int bn - int bd - 1 = - int bd + int (bn - 1)" using that by simp
    ultimately show ?thesis unfolding e by simp
  qed
  ultimately have "rat_pow2 (int bn - int bd - 1) \<le> x" using x by simp
  then show ?thesis by (simp add: rat_exp_def q bn_def bd_def Let_def)
qed

lemma round_half_even_error: "\<bar>of_int (round_half_even x) - x\<bar> \<le> 1 / 2"
proof -
  have "of_int \<lfloor>x\<rfloor> \<le> x" "x < of_int \<lfloor>x\<rfloor> + 1" by linarith+
  then show ?thesis by (auto simp: round_half_even_def Let_def)
qed

lemma round_half_even_int [simp]: "round_half_even (of_int n) = n"
  by (simp add: round_half_even_def)

text \<open>A normal value is off by at most half a unit in the last place.\<close>

lemma f32_round_pos_error:
  assumes "rat_pow2 (- 126) \<le> x" and "- 126 \<le> rat_exp x"
  shows "\<bar>f32_round_pos x - x\<bar> \<le> x / 2 ^ 24"
proof -
  have x: "0 < x" using assms(1) rat_pow2_pos [of "- 126"] by linarith
  define u where "u = rat_pow2 (rat_exp x - 23)"
  have u: "0 < u" by (simp add: u_def rat_pow2_pos)
  have "rat_pow2 ((rat_exp x - 23) + int 23) = 2 ^ 23 * u" unfolding u_def by (rule rat_pow2_add_nat)
  then have ux: "2 ^ 23 * u \<le> x" using rat_exp_lower [OF x] by simp
  have "f32_round_pos x = of_int (round_half_even (x / u)) * u"
    using assms(2) by (simp add: f32_round_pos_def u_def max_def Let_def)
  then have "f32_round_pos x - x = (of_int (round_half_even (x / u)) - x / u) * u"
    using u by (simp add: left_diff_distrib)
  then have "\<bar>f32_round_pos x - x\<bar> = \<bar>of_int (round_half_even (x / u)) - x / u\<bar> * u"
    using u by (simp add: abs_mult)
  also have "\<dots> \<le> 1 / 2 * u" using round_half_even_error u by (intro mult_right_mono) simp_all
  also have "\<dots> \<le> x / 2 ^ 24" using ux by simp
  finally show ?thesis .
qed

lemma rat_exp_upper:
  assumes "0 < x"
  shows "x < rat_pow2 (rat_exp x + 1)"
proof -
  obtain n d where q: "quotient_of x = (n, d)" by (cases "quotient_of x")
  have d: "0 < d" and x: "x = of_int n / of_int d"
    using quotient_of_denom_pos [OF q] quotient_of_div [OF q] by simp_all
  have n: "0 < n" using assms d x by (simp add: zero_less_divide_iff)
  define bn where "bn = nat_bits (nat n)"
  define bd where "bd = nat_bits (nat d)"
  have "2 ^ (bd - 1) \<le> nat d" "nat n < 2 ^ bn"
    using nat_bits_bounds [of "nat n"] nat_bits_bounds [of "nat d"] n d by (auto simp: bn_def bd_def)
  then have "2 ^ (bd - 1) \<le> d" "n < 2 ^ bn" using n d by (simp_all add: le_nat_iff nat_less_iff)
  then have "of_int (2 ^ (bd - 1)) \<le> (of_int d :: rat)" "(of_int n :: rat) < of_int (2 ^ bn)"
    by (simp_all only: of_int_le_iff of_int_less_iff)
  then have db: "(2::rat) ^ (bd - 1) \<le> of_int d" and nb: "(of_int n :: rat) < 2 ^ bn" by simp_all
  have bd: "0 < bd" using d by (simp add: bd_def nat_bits.simps)
  have "of_int n / of_int d < (2::rat) ^ bn / of_int d" using nb d by (simp add: divide_strict_right_mono)
  also have "\<dots> \<le> 2 ^ bn / 2 ^ (bd - 1)" using db d by (intro divide_left_mono) simp_all
  also have "\<dots> = rat_pow2 (int bn - int bd + 1)"
  proof -
    have e: "int bn - int bd + 1 = - int (bd - 1) + int bn" using bd by simp
    have "nat (int k) = k" for k by simp
    then have "rat_pow2 (- int (bd - 1)) = 1 / 2 ^ (bd - 1)"
      unfolding rat_pow2_def by (cases "bd - 1 = 0") (simp_all del: of_nat_diff)
    then show ?thesis unfolding e rat_pow2_add_nat by simp
  qed
  finally have "x < rat_pow2 (int bn - int bd + 1)" by (simp add: x)
  then show ?thesis by (auto simp: rat_exp_def q bn_def bd_def Let_def)
qed

lemma rat_exp_normal: "rat_pow2 (- 126) \<le> x \<Longrightarrow> - 126 \<le> rat_exp x"
proof (rule ccontr)
  assume x: "rat_pow2 (- 126) \<le> x" and "\<not> - 126 \<le> rat_exp x"
  then have "rat_pow2 (rat_exp x + 1) \<le> rat_pow2 (- 126)" by (intro rat_pow2_mono) simp
  moreover have "0 < x" using x rat_pow2_pos [of "- 126"] by linarith
  ultimately show False using rat_exp_upper [of x] x by linarith
qed

lemma f32_of_nat_exact:
  assumes "n < 16777216"
  shows "f32_of_nat n = Fin (of_nat n)"
proof (cases "n = 0")
  case True
  then show ?thesis by (simp add: f32_of_nat_def f32_round_def)
next
  case False
  define x :: rat where "x = of_nat n"
  have x: "1 \<le> x" using False by (simp add: x_def)
  have lo: "rat_pow2 (rat_exp x) \<le> x" and hi: "x < rat_pow2 (rat_exp x + 1)"
    using rat_exp_lower rat_exp_upper x by simp_all
  have e23: "rat_exp x \<le> 23"
  proof (rule ccontr)
    assume "\<not> rat_exp x \<le> 23"
    then have "rat_pow2 24 \<le> rat_pow2 (rat_exp x)" by (intro rat_pow2_mono) simp
    moreover have "x < rat_pow2 24"
    proof -
      have "(of_nat n :: rat) < of_nat 16777216" using assms by (simp only: of_nat_less_iff)
      then show ?thesis by (simp add: x_def rat_pow2_def)
    qed
    ultimately show False using lo by linarith
  qed
  have e0: "0 \<le> rat_exp x"
  proof (rule ccontr)
    assume "\<not> 0 \<le> rat_exp x"
    then have "rat_pow2 (rat_exp x + 1) \<le> rat_pow2 0" by (intro rat_pow2_mono) simp
    with hi x show False by (simp add: rat_pow2_def)
  qed
  define k where "k = nat (23 - rat_exp x)"
  have u: "rat_pow2 (max (rat_exp x) (- 126) - 23) = 1 / 2 ^ k"
    using e0 e23 by (cases "rat_exp x = 23") (simp_all add: rat_pow2_def k_def max_def)
  have q: "x / (1 / 2 ^ k) = of_int (int n * 2 ^ k)" by (simp add: x_def)
  have "f32_round_pos x = x"
    unfolding f32_round_pos_def Let_def u q round_half_even_int by (simp add: x_def)
  moreover have "\<not> rat_pow2 128 \<le> x"
  proof -
    have "x < rat_pow2 24"
      using hi rat_pow2_mono [of "rat_exp x + 1" 24] e23 by linarith
    then show ?thesis using rat_pow2_mono [of 24 128] by linarith
  qed
  ultimately show ?thesis using x by (simp add: f32_of_nat_def f32_round_def x_def [symmetric] Let_def)
qed

lemma f32_round_small:
  assumes "1 / 65536 \<le> x" and "x \<le> 1"
  shows "\<exists>y. f32_round x = Fin y \<and> \<bar>y - x\<bar> \<le> x / 2 ^ 24"
proof -
  have "rat_pow2 (- 126) \<le> rat_pow2 (- 16)" by (rule rat_pow2_mono) simp
  then have n: "rat_pow2 (- 126) \<le> x" using assms(1) by (simp add: rat_pow2_def)
  note err = f32_round_pos_error [OF n rat_exp_normal [OF n]]
  have "x / 2 ^ 24 \<le> x / 2" using assms(1) by simp
  then have "f32_round_pos x < 2" using err assms(2) by linarith
  moreover have "2 \<le> rat_pow2 128" by (simp add: rat_pow2_def)
  ultimately have "\<not> rat_pow2 128 \<le> f32_round_pos x" by linarith
  then show ?thesis using err assms by (auto simp: f32_round_def Let_def)
qed

text \<open>A coverage ratio compared with \<open>0.9\<close> in single precision is the exact comparison.\<close>

lemma f32_ratio_ge_nine_tenths:
  assumes "p \<le> q" and "0 < q" and "q \<le> 1000"
  shows "f32_ge (f32_div (f32_of_nat p) (f32_of_nat q)) (f32_round (9 / 10)) \<longleftrightarrow> 9 * q \<le> 10 * p"
proof -
  obtain f where f: "f32_round (9 / 10) = Fin f" "\<bar>f - 9 / 10\<bar> \<le> 9 / 10 / 2 ^ 24"
    using f32_round_small [of "9 / 10"] by auto
  have div: "f32_div (f32_of_nat p) (f32_of_nat q) = f32_round (of_nat p / of_nat q)"
    using assms f32_of_nat_exact [of p] f32_of_nat_exact [of q] by simp
  define Q :: rat where "Q = of_nat q"
  define P :: rat where "P = of_nat p"
  have Q: "0 < Q" "Q \<le> 1000"
  proof -
    show "0 < Q" using assms by (simp add: Q_def)
    have "(of_nat q :: rat) \<le> of_nat 1000" using assms by (simp only: of_nat_le_iff)
    then show "Q \<le> 1000" by (simp add: Q_def)
  qed
  show ?thesis
  proof (cases "p = 0")
    case True
    have z: "f32_round 0 = Fin 0" by (simp add: f32_round_def)
    have "f32_div (f32_of_nat 0) (f32_of_nat q) = Fin 0"
      using div z True by simp
    moreover have "\<not> f \<le> 0"
    proof -
      have "9 / 10 / 2 ^ 24 \<le> (1 / 10 :: rat)" by simp
      with f(2) show ?thesis by linarith
    qed
    ultimately show ?thesis using True assms(2) f(1) by (simp add: f32_ge_def)
  next
    case False
    have x: "1 / 65536 \<le> P / Q" "P / Q \<le> 1"
    proof -
      have "1 / 1000 \<le> P / Q" using False Q by (intro frac_le) (simp_all add: P_def)
      then show "1 / 65536 \<le> P / Q" by linarith
      show "P / Q \<le> 1" using assms by (simp add: P_def Q_def)
    qed
    obtain y where y: "f32_round (P / Q) = Fin y" "\<bar>y - P / Q\<bar> \<le> P / Q / 2 ^ 24"
      using f32_round_small [OF x] by auto
    have res: "f32_ge (f32_div (f32_of_nat p) (f32_of_nat q)) (f32_round (9 / 10)) \<longleftrightarrow> f \<le> y"
      using y f by (simp add: div P_def Q_def f32_ge_def)
    have tiny: "9 / 10 / 2 ^ 24 \<le> (1 / 1000000 :: rat)" "P / Q / 2 ^ 24 \<le> 1 / 1000000"
      using x(2) by simp_all
    consider "9 * q = 10 * p" | "9 * q + 1 \<le> 10 * p" | "10 * p + 1 \<le> 9 * q" by linarith
    then show ?thesis
    proof cases
      case 1
      then have "of_nat (9 * q) = (of_nat (10 * p) :: rat)" by (simp only:)
      then have "9 * Q = 10 * P" by (simp add: P_def Q_def)
      then have r: "P / Q = 9 / 10" using Q by (simp add: field_simps)
      have "y = f" using y(1) f(1) unfolding r by simp
      then show ?thesis using res 1 by simp
    next
      case 2
      then have "of_nat (9 * q + 1) \<le> (of_nat (10 * p) :: rat)" by (simp only: of_nat_le_iff)
      then have "9 * Q + 1 \<le> 10 * P" by (simp add: P_def Q_def)
      then have "9 / 10 + 1 / 10000 \<le> P / Q" using Q by (simp add: field_simps)
      then have "f \<le> y" using tiny f(2) y(2) by linarith
      then show ?thesis using res 2 by simp
    next
      case 3
      then have "of_nat (10 * p + 1) \<le> (of_nat (9 * q) :: rat)" by (simp only: of_nat_le_iff)
      then have "10 * P + 1 \<le> 9 * Q" by (simp add: P_def Q_def)
      then have "P / Q + 1 / 10000 \<le> 9 / 10" using Q by (simp add: field_simps)
      then have "\<not> f \<le> y" using tiny f(2) y(2) by linarith
      then show ?thesis using res 3 by simp
    qed
  qed
qed

end
