(* ===== verification/VfVerify.thy ===== *)
theory VfVerify
  imports VfPlan Float32
begin

text \<open>
  \<open>crates/service/src/gpu_verify.rs\<close>: whether the live curve is the applied one. The flatten-down
  classification with its two rescues, the verdicts for a raised bin and for an anchored curve, the
  load axis derived from recorded dwells, the choice of the dwell, and the diagnostics of a failed
  probe. Everything here only reads; the offsets read back from the driver are arguments.
\<close>

section \<open>Flatten-down classification\<close>

datatype curve_verification =
  NotApplicable | MetadataOnly | VerifiedCurve | LiveMismatch | VerificationFailed

record point_evidence =
  pe_index :: usize
  pe_voltage_mv :: u32
  pe_offset_khz :: "i32 option"
  pe_freq_mhz :: u32

definition abs_diff :: "u32 \<Rightarrow> u32 \<Rightarrow> u32" where
  "abs_diff a b = (if a \<ge> b then a - b else b - a)"

definition offset_nonzero :: "point_evidence \<Rightarrow> bool" where
  "offset_nonzero e = is_some_and (pe_offset_khz e) (\<lambda>off. off \<noteq> 0)"

definition nine_tenths :: f32 where "nine_tenths = f32_round (9 / 10)"

definition classify_curve ::
  "u32 \<Rightarrow> point_evidence list \<Rightarrow> u32 \<Rightarrow> curve_verification \<times> u32 \<times> u32 \<times> u32" where
  "classify_curve target expected tol =
     (let n = length expected;
          freq_match = length (filter (\<lambda>e. abs_diff (pe_freq_mhz e) target \<le> tol) expected)
      in if n = 0 then (VerificationFailed, 0, freq_match, 0)
         else if length (filter (\<lambda>e. pe_offset_khz e \<noteq> None) expected) = 0
         then (VerificationFailed, 0, freq_match, n)
         else let present = length (filter offset_nonzero expected);
                  ratio = f32_div (f32_of_nat present) (f32_of_nat n)
              in (if present \<ge> 1 \<and> nine_tenths \<le> ratio then VerifiedCurve else LiveMismatch,
                  present, freq_match, n))"

record curve_diag =
  cd_first_bin :: "u32 option"
  cd_first_mv :: "u32 option"
  cd_modified :: u32
  cd_expected :: u32
  cd_freq_match :: u32
  cd_plateau_min :: "u32 option"
  cd_plateau_max :: "u32 option"
  cd_overshoot :: "i32 option"
  cd_undershoot :: "i32 option"
  cd_first_offset :: "i32 option"
  cd_anchor_offset :: "i32 option"
  cd_highest_offset :: "i32 option"

definition opt_bind :: "'a option \<Rightarrow> ('a \<Rightarrow> 'b option) \<Rightarrow> 'b option" where
  "opt_bind x f = (case x of None \<Rightarrow> None | Some v \<Rightarrow> f v)"

definition compute_curve_diag ::
  "u32 \<Rightarrow> usize \<Rightarrow> point_evidence list \<Rightarrow> u32 \<Rightarrow> curve_diag" where
  "compute_curve_diag target anchor expected tol =
     (let first = find offset_nonzero expected;
          freqs = map pe_freq_mhz expected;
          lo = (if freqs = [] then None else Some (Min (set freqs)));
          hi = (if freqs = [] then None else Some (Max (set freqs)))
      in \<lparr>cd_first_bin = map_option (\<lambda>e. pe_index e mod 4294967296) first,
          cd_first_mv = map_option pe_voltage_mv first,
          cd_modified = length (filter offset_nonzero expected),
          cd_expected = length expected,
          cd_freq_match = length (filter (\<lambda>e. abs_diff (pe_freq_mhz e) target \<le> tol) expected),
          cd_plateau_min = lo, cd_plateau_max = hi,
          cd_overshoot = map_option (\<lambda>mx. max (i32_sub (as_i32 mx) (as_i32 target)) 0) hi,
          cd_undershoot = map_option (\<lambda>mn. max (i32_sub (as_i32 target) (as_i32 mn)) 0) lo,
          cd_first_offset = opt_bind first pe_offset_khz,
          cd_anchor_offset = opt_bind (find (\<lambda>e. pe_index e = anchor) expected) pe_offset_khz,
          cd_highest_offset = opt_bind (max_by_key pe_voltage_mv expected) pe_offset_khz\<rparr>)"

text \<open>The stock-equivalent check: its loop stops at the first bin that explains nothing.\<close>

fun stock_bins_loop :: "u32 \<Rightarrow> u32 \<Rightarrow> u32 \<Rightarrow> point_evidence list \<Rightarrow> bool \<times> u32" where
  "stock_bins_loop target tol n [] = (True, n)"
| "stock_bins_loop target tol n (e # es) =
     (case pe_offset_khz e of
        None \<Rightarrow> (False, 0)
      | Some off \<Rightarrow>
          if pe_freq_mhz e > target \<or> target - pe_freq_mhz e > tol then (False, 0)
          else if off = 0
          then (if pe_freq_mhz e \<noteq> target then (False, 0) else stock_bins_loop target tol (n + 1) es)
          else stock_bins_loop target tol n es)"

definition is_stock_equivalent_ceiling ::
  "u32 \<Rightarrow> u32 option \<Rightarrow> point_evidence list \<Rightarrow> u32 \<Rightarrow> bool \<times> u32" where
  "is_stock_equivalent_ceiling target stock_top expected tol =
     (case stock_top of
        None \<Rightarrow> (False, 0)
      | Some t \<Rightarrow>
          if target > t \<or> t - target > tol \<or> expected = [] then (False, 0)
          else stock_bins_loop target tol 0 expected)"

record no_down_cap_eval =
  nd_needed :: u32
  nd_veto :: bool
  nd_missing :: u32
  nd_evidence :: bool

definition index_lookup :: "(usize \<times> 'a) list \<Rightarrow> usize \<Rightarrow> 'a option" where
  "index_lookup m i = map_option snd (find (\<lambda>x. fst x = i) m)"

definition eval_no_down_cap ::
  "u32 \<Rightarrow> point_evidence list \<Rightarrow> (usize \<times> u32) list option \<Rightarrow> no_down_cap_eval" where
  "eval_no_down_cap target expected static_base =
     (let veto = (\<exists>e\<in>set expected. pe_freq_mhz e > target)
      in case static_base of
           None \<Rightarrow> \<lparr>nd_needed = 0, nd_veto = veto, nd_missing = length expected, nd_evidence = False\<rparr>
         | Some m \<Rightarrow>
             \<lparr>nd_needed = length (filter (\<lambda>e. case index_lookup m (pe_index e) of
                                              None \<Rightarrow> False
                                            | Some base \<Rightarrow> pe_offset_khz e = Some 0 \<and> base \<le> target) expected),
              nd_veto = veto,
              nd_missing = length (filter (\<lambda>e. index_lookup m (pe_index e) = None) expected),
              nd_evidence = True\<rparr>)"

record live_ceiling_eval =
  lc_state :: curve_verification
  lc_present :: u32
  lc_freq_match :: u32
  lc_expected :: u32
  lc_diag :: curve_diag
  lc_stock_equivalent :: bool
  lc_stock_bins :: u32
  lc_no_down_cap :: u32
  lc_rescue :: bool
  lc_veto :: bool
  lc_missing :: u32
  lc_coverage :: f32

definition eval_ceiling_evidence ::
  "u32 \<Rightarrow> usize \<Rightarrow> point_evidence list \<Rightarrow> u32 \<Rightarrow> u32 option \<Rightarrow> (usize \<times> u32) list option \<Rightarrow>
   live_ceiling_eval" where
  "eval_ceiling_evidence target anchor expected tol stock_top static_base =
     (let (state, present, freq_match, n) = classify_curve target expected tol;
          (equiv, bins) = (if state = LiveMismatch
                           then is_stock_equivalent_ceiling target stock_top expected tol else (False, 0));
          nd = eval_no_down_cap target expected static_base;
          coverage = (if n > 0 then f32_div (f32_of_nat (u32_add present (nd_needed nd))) (f32_of_nat n)
                      else Fin 0)
      in \<lparr>lc_state = state, lc_present = present, lc_freq_match = freq_match, lc_expected = n,
          lc_diag = compute_curve_diag target anchor expected tol,
          lc_stock_equivalent = equiv, lc_stock_bins = bins, lc_no_down_cap = nd_needed nd,
          lc_rescue = (state = LiveMismatch \<and> \<not> equiv \<and> nd_evidence nd \<and> nd_missing nd = 0 \<and>
                       \<not> nd_veto nd \<and> nine_tenths \<le> coverage),
          lc_veto = nd_veto nd, lc_missing = nd_missing nd, lc_coverage = coverage\<rparr>)"

definition classify_live_ceiling ::
  "(usize \<Rightarrow> i32 option) \<Rightarrow> vf_curve \<Rightarrow> usize \<Rightarrow> u32 \<Rightarrow> u32 \<Rightarrow> u32 \<Rightarrow> u32 option \<Rightarrow> vf_curve option \<Rightarrow>
   live_ceiling_eval" where
  "classify_live_ceiling offset_of live ceiling_idx ceiling_mv target tol stock_top static_base =
     eval_ceiling_evidence target ceiling_idx
       (map (\<lambda>(i, mv, freq). \<lparr>pe_index = i, pe_voltage_mv = mv, pe_offset_khz = offset_of i,
                              pe_freq_mhz = freq\<rparr>)
          (filter (\<lambda>p. pt_mv p \<ge> ceiling_mv) live))
       tol stock_top (map_option (map (\<lambda>(i, _, f). (i, f))) static_base)"

section \<open>Raised bins and anchored curves\<close>

datatype positive_offset_verification = RaiseVerified | RaiseIncomplete | OverRaise | RaiseUnverifiable

definition verify_positive_offset ::
  "i32 \<Rightarrow> u32 \<Rightarrow> i32 option \<Rightarrow> u32 option \<Rightarrow> u32 \<Rightarrow> positive_offset_verification" where
  "verify_positive_offset intended target observed freq tol_mhz =
     (case observed of
        None \<Rightarrow> RaiseUnverifiable
      | Some off \<Rightarrow>
          (let tol = as_i32 tol_mhz
           in if i32_sub off intended > tol then OverRaise
              else if i32_sub intended off > tol then RaiseIncomplete
              else case freq of
                     None \<Rightarrow> RaiseVerified
                   | Some f \<Rightarrow>
                       if i32_sub (as_i32 f) (as_i32 target) > tol then OverRaise
                       else if i32_sub (as_i32 target) (as_i32 f) > tol then RaiseIncomplete
                       else RaiseVerified))"

datatype anchored_offset_verification =
  AnchoredRaiseVerified
| AnchorRaiseIncomplete
| AnchorOverRaise
| HigherBinAboveTarget
| UnexpectedPositiveOffset
| AnchoredUnverifiable

fun verify_entries ::
  "(usize \<Rightarrow> i32 option) \<Rightarrow> usize \<Rightarrow> u32 \<Rightarrow> i32 \<Rightarrow> anchored_bin_entry list \<Rightarrow>
   anchored_offset_verification" where
  "verify_entries observed anchor target tol [] = AnchoredRaiseVerified"
| "verify_entries observed anchor target tol (e # es) =
     (if ab_index e = anchor then verify_entries observed anchor target tol es
      else case observed (ab_index e) of
             None \<Rightarrow> AnchoredUnverifiable
           | Some off \<Rightarrow>
               if off > tol then UnexpectedPositiveOffset
               else if i32_sub (i32_add (as_i32 (ab_base_mhz e)) off) (as_i32 target) > tol
               then HigherBinAboveTarget
               else verify_entries observed anchor target tol es)"

definition observed_at :: "(usize \<times> i32 option) list \<Rightarrow> usize \<Rightarrow> i32 option" where
  "observed_at obs i = opt_bind (find (\<lambda>x. fst x = i) obs) snd"

definition verify_anchored ::
  "anchored_plan \<Rightarrow> (usize \<times> i32 option) list \<Rightarrow> u32 \<Rightarrow> anchored_offset_verification" where
  "verify_anchored plan obs tol_mhz =
     (case verify_positive_offset (po_offset_mhz (ap_anchor plan)) (ap_target_mhz plan)
             (observed_at obs (po_index (ap_anchor plan))) None tol_mhz of
        RaiseUnverifiable \<Rightarrow> AnchoredUnverifiable
      | RaiseIncomplete \<Rightarrow> AnchorRaiseIncomplete
      | OverRaise \<Rightarrow> AnchorOverRaise
      | RaiseVerified \<Rightarrow>
          verify_entries (observed_at obs) (po_index (ap_anchor plan)) (ap_target_mhz plan)
            (as_i32 tol_mhz) (ap_entries plan))"

section \<open>The load axis\<close>

datatype dwell_quality = QHigh | QMedium | QLow | QUnavailable

record power_sweep_point =
  ps_voltage_mv :: u32
  ps_clock_mhz :: u32
  ps_offset_mhz :: i32
  ps_power_w :: f32
  ps_max_power_w :: f32
  ps_power_p99_w :: "f32 option"
  ps_power_std_w :: f32
  ps_power_capped_frac :: f32
  ps_stable :: bool
  ps_perf_per_watt :: f64
  ps_measured_voltage_mv :: "u32 option"
  ps_vf_table_voltage_mv :: "u32 option"
  ps_boundary_voltage_mv :: "u32 option"
  ps_apply_margin_mv :: "u32 option"
  ps_base_apply_mv :: "u32 option"
  ps_min_clock_mhz :: "u32 option"
  ps_p5_clock_mhz :: "u32 option"
  ps_p95_clock_mhz :: "u32 option"
  ps_avg_measured_mv :: "u32 option"
  ps_min_measured_mv :: "u32 option"
  ps_max_measured_mv :: "u32 option"
  ps_voltage_sample_count :: "u32 option"
  ps_voltage_quality :: "dwell_quality option"
  ps_dwell_sample_count :: "u32 option"
  ps_dwell_duration_ms :: "u64 option"
  ps_start_temp_c :: "f32 option"
  ps_end_temp_c :: "f32 option"
  ps_avg_temp_c :: "f32 option"
  ps_max_temp_c :: "f32 option"
  ps_thermal_throttled :: bool
  ps_telemetry_quality :: "dwell_quality option"
  ps_target_clock_mhz :: "u32 option"
  ps_confidence :: "f64 option"
  ps_validation_count :: "u32 option"
  ps_apply_qualified :: bool
  ps_apply_qualification_version :: "u32 option"

record sweep_progress =
  sp_points :: "power_sweep_point list"
  sp_godforge :: "power_sweep_point option"
  sp_brokkrs :: "power_sweep_point option"
  sp_deep_calm :: "power_sweep_point option"

datatype load_verification =
  NotEvaluated
| VerifiedUnderLoad
| TelemetryInsufficient
| LoadMismatch
| WorkloadStateMismatch
| LoadVerificationFailed

datatype load_reason =
  CurveNotVerified
| NoDwellStats
| PointNotStable
| ImplausiblePower
| LegacyQuality
| LowQuality
| VoltageOutOfRange
| NoP5
| P5BelowTarget u32
| SupportsPoint u32

definition near_clock :: "u32 \<Rightarrow> power_sweep_point \<Rightarrow> bool" where
  "near_clock target p \<longleftrightarrow> abs_diff (ps_clock_mhz p) target \<le> 5"

definition find_applied_point :: "sweep_progress \<Rightarrow> string \<Rightarrow> u32 \<Rightarrow> power_sweep_point option" where
  "find_applied_point pr label target =
     (let by_label = (if label = ''Godforge'' then sp_godforge pr
                      else if label = ''Brokkr'' @ [char_of (39::nat)] @ ''s Best'' then sp_brokkrs pr
                      else if label = ''Deep Calm'' then sp_deep_calm pr
                      else None)
      in if is_some_and by_label (near_clock target) then by_label
         else case filter (near_clock target) (sp_points pr) of
                [p] \<Rightarrow> Some p
              | _ \<Rightarrow> None)"

definition classify_load ::
  "curve_verification \<Rightarrow> power_sweep_point option \<Rightarrow> u32 \<Rightarrow> u32 \<Rightarrow> load_verification \<times> load_reason" where
  "classify_load curve_state point target tol =
     (if curve_state \<noteq> VerifiedCurve then (NotEvaluated, CurveNotVerified)
      else case point of
        None \<Rightarrow> (NotEvaluated, NoDwellStats)
      | Some p \<Rightarrow>
          if \<not> ps_stable p then (LoadMismatch, PointNotStable)
          else if ps_power_w p \<le> Fin 0 \<or> ps_max_power_w p < ps_power_w p \<or>
                  \<not> (Fin 0 \<le> ps_power_capped_frac p \<and> ps_power_capped_frac p \<le> Fin 1)
          then (LoadVerificationFailed, ImplausiblePower)
          else if ps_telemetry_quality p = None then (TelemetryInsufficient, LegacyQuality)
          else if ps_telemetry_quality p \<in> {Some QLow, Some QUnavailable}
          then (TelemetryInsufficient, LowQuality)
          else if is_some_and (ps_max_measured_mv p) (\<lambda>mv. \<not> (500 \<le> mv \<and> mv \<le> 1250))
          then (TelemetryInsufficient, VoltageOutOfRange)
          else case ps_p5_clock_mhz p of
                 None \<Rightarrow> (TelemetryInsufficient, NoP5)
               | Some p5 \<Rightarrow>
                   if u32_add p5 tol < target then (LoadMismatch, P5BelowTarget p5)
                   else (VerifiedUnderLoad, SupportsPoint p5))"

definition effective_status :: "curve_verification \<Rightarrow> load_verification \<Rightarrow> string" where
  "effective_status curve load =
     (case curve of
        VerifiedCurve \<Rightarrow> if load = VerifiedUnderLoad then ''verified_under_load'' else ''verified_curve''
      | LiveMismatch \<Rightarrow> ''live_mismatch''
      | VerificationFailed \<Rightarrow> ''verification_failed''
      | MetadataOnly \<Rightarrow> ''metadata_only''
      | NotApplicable \<Rightarrow> ''not_applicable'')"

section \<open>Diagnostics of a failed probe\<close>

datatype bin_diag_class = Flattened | NoDownCapNeeded | UnexplainedZero | StaticBaseMissing | Unreadable

record bin_diag_row =
  bd_index :: usize
  bd_voltage_mv :: u32
  bd_static_base :: "u32 option"
  bd_getstatus_base :: u32
  bd_desired_offset :: i32
  bd_post_offset :: "i32 option"
  bd_class :: bin_diag_class

definition classify_bin_diag :: "u32 option \<Rightarrow> i32 option \<Rightarrow> u32 \<Rightarrow> bin_diag_class" where
  "classify_bin_diag static_base post target =
     (case post of
        None \<Rightarrow> Unreadable
      | Some off \<Rightarrow>
          if off \<noteq> 0 then Flattened
          else case static_base of
                 None \<Rightarrow> StaticBaseMissing
               | Some b \<Rightarrow> if b \<le> target then NoDownCapNeeded else UnexplainedZero)"

record failed_probe_diag =
  fp_expected :: u32
  fp_non_zero :: u32
  fp_no_down_cap :: u32
  fp_unexplained :: u32
  fp_missing :: u32
  fp_unreadable :: u32
  fp_first_unexplained :: "usize option"
  fp_window :: "bin_diag_row list"

definition probe_step ::
  "(usize \<times> i32 option) list \<Rightarrow> (usize \<times> u32) list \<Rightarrow> u32 \<Rightarrow> u32 \<Rightarrow> u32 \<Rightarrow> vf_write_plan_entry \<Rightarrow>
   failed_probe_diag \<Rightarrow> failed_probe_diag" where
  "probe_step post_offsets static_base target lo hi e d =
     (let post = observed_at post_offsets (we_index e);
          sbase = index_lookup static_base (we_index e);
          cls = classify_bin_diag sbase post target;
          d1 = d\<lparr>fp_expected := fp_expected d + 1\<rparr>;
          d2 = (case cls of
                  Flattened \<Rightarrow> d1\<lparr>fp_non_zero := fp_non_zero d1 + 1\<rparr>
                | NoDownCapNeeded \<Rightarrow> d1\<lparr>fp_no_down_cap := fp_no_down_cap d1 + 1\<rparr>
                | UnexplainedZero \<Rightarrow>
                    d1\<lparr>fp_unexplained := fp_unexplained d1 + 1,
                       fp_first_unexplained :=
                         (if fp_first_unexplained d1 = None then Some (we_index e)
                          else fp_first_unexplained d1)\<rparr>
                | StaticBaseMissing \<Rightarrow> d1\<lparr>fp_missing := fp_missing d1 + 1\<rparr>
                | Unreadable \<Rightarrow> d1\<lparr>fp_unreadable := fp_unreadable d1 + 1\<rparr>)
      in if we_voltage_mv e \<ge> lo \<and> we_voltage_mv e \<le> hi
         then d2\<lparr>fp_window := fp_window d2 @
                   [\<lparr>bd_index = we_index e, bd_voltage_mv = we_voltage_mv e, bd_static_base = sbase,
                     bd_getstatus_base = we_base_mhz e, bd_desired_offset = we_desired_offset_mhz e,
                     bd_post_offset = post, bd_class = cls\<rparr>]\<rparr>
         else d2)"

definition empty_probe_diag :: failed_probe_diag where
  "empty_probe_diag =
     \<lparr>fp_expected = 0, fp_non_zero = 0, fp_no_down_cap = 0, fp_unexplained = 0, fp_missing = 0,
      fp_unreadable = 0, fp_first_unexplained = None, fp_window = []\<rparr>"

definition summarize_failed_probe ::
  "vf_write_plan_entry list \<Rightarrow> (usize \<times> i32 option) list \<Rightarrow> (usize \<times> u32) list \<Rightarrow> u32 \<Rightarrow> u32 \<Rightarrow>
   u32 \<Rightarrow> failed_probe_diag" where
  "summarize_failed_probe plan post_offsets static_base target lo hi =
     fold (probe_step post_offsets static_base target lo hi) (filter we_in_flatten_set plan)
       empty_probe_diag"

section \<open>Reading a plan back\<close>

text \<open>The evidence that every caller of the anchored verifier collects: each touched bin in megahertz.\<close>

definition observe_plan ::
  "(usize \<Rightarrow> 'd \<Rightarrow> i32 option) \<Rightarrow> anchored_plan \<Rightarrow> 'd \<Rightarrow> (usize \<times> i32 option) list" where
  "observe_plan gp plan d =
     map (\<lambda>e. (ab_index e, map_option (\<lambda>khz. khz sdiv 1000) (gp (ab_index e) d))) (ap_entries plan)"

lemma observed_at_observe:
  assumes "i \<in> ab_index ` set (ap_entries plan)"
  shows "observed_at (observe_plan gp plan d) i = map_option (\<lambda>khz. khz sdiv 1000) (gp i d)"
proof -
  define f where "f = (\<lambda>i. map_option (\<lambda>khz. khz sdiv 1000) (gp i d))"
  have "find (\<lambda>x. fst x = i) (map (\<lambda>e. (ab_index e, f (ab_index e))) es) = Some (i, f i)"
    if "i \<in> ab_index ` set es" for es
    using that by (induction es) auto
  from this [OF assms] have "observed_at (map (\<lambda>e. (ab_index e, f (ab_index e))) (ap_entries plan)) i = f i"
    by (simp only: observed_at_def opt_bind_def option.case snd_conv)
  then show ?thesis by (simp only: f_def observe_plan_def)
qed

lemma sdiv_thousand: "(x * 1000) sdiv 1000 = (x::int)"
  by (simp add: signed_divide_int_def sgn_mult abs_mult mult_sgn_abs)

section \<open>Lemmas\<close>

text \<open>Clocks and offsets as they occur on a card: nothing near the edge of the width.\<close>

definition tame :: "int \<Rightarrow> bool" where
  "tame x \<longleftrightarrow> \<bar>x\<bar> \<le> 100000000"

lemma tame_i32 [simp]: "tame x \<Longrightarrow> is_i32 x"
  by (auto simp: tame_def is_i32_def)

lemma tame_arith:
  "tame x \<Longrightarrow> tame y \<Longrightarrow> i32_sub x y = x - y" "tame x \<Longrightarrow> tame y \<Longrightarrow> i32_add x y = x + y"
  "tame x \<Longrightarrow> tame y \<Longrightarrow> tame z \<Longrightarrow> i32_sub (x + y) z = x + y - z"
proof -
  assume "tame x" "tame y"
  then have "is_i32 (x - y)" "is_i32 (x + y)" by (auto simp: tame_def is_i32_def)
  then show "i32_sub x y = x - y" "i32_add x y = x + y" by simp_all
next
  assume "tame x" "tame y" "tame z"
  then have "is_i32 (x + y - z)" by (auto simp: tame_def is_i32_def)
  then show "i32_sub (x + y) z = x + y - z" by simp
qed

lemma tame_nat: "n \<le> 100000000 \<Longrightarrow> as_i32 n = int n" "n \<le> 100000000 \<Longrightarrow> tame (int n)"
  by (simp_all add: tame_def)

lemma verify_positive_iff:
  assumes "tame off" "tame intended" "tol \<le> 100000000"
  shows "verify_positive_offset intended target (Some off) None tol = RaiseVerified \<longleftrightarrow>
    \<bar>off - intended\<bar> \<le> int tol"
  using assms tame_arith(1) [of off intended] tame_arith(1) [of intended off]
  by (auto simp: verify_positive_offset_def tame_nat Let_def)

lemma verify_entries_iff:
  assumes "\<forall>e\<in>set es. \<forall>off. observed (ab_index e) = Some off \<longrightarrow> tame off"
    and "\<forall>e\<in>set es. ab_base_mhz e \<le> 100000000" and "target \<le> 100000000"
  shows "verify_entries observed anchor target tol es = AnchoredRaiseVerified \<longleftrightarrow>
    (\<forall>e\<in>set es. ab_index e \<noteq> anchor \<longrightarrow>
       (\<exists>off. observed (ab_index e) = Some off \<and> off \<le> tol \<and>
          int (ab_base_mhz e) + off - int target \<le> tol))"
  using assms
proof (induction observed anchor target tol es rule: verify_entries.induct)
  case (2 observed anchor target tol e es)
  have arith: "i32_sub (i32_add (as_i32 (ab_base_mhz e)) off) (as_i32 target) =
      int (ab_base_mhz e) + off - int target" if "tame off" for off
    using 2(3-5) that by (simp add: tame_nat tame_arith)
  show ?case
  proof (cases "observed (ab_index e)")
    case None
    then show ?thesis using 2 by auto
  next
    case (Some off)
    then have "tame off" using 2(3) by auto
    note arith [OF this]
    then show ?thesis using 2 Some by (auto simp: not_le)
  qed
qed simp

lemma applied_plan:
  "apply_anchored sp curve bin target prev lm d = (Inr plan, d') \<Longrightarrow>
   plan_anchored curve bin target prev lm = Inr plan"
  by (auto simp: apply_anchored_def Let_def split: sum.splits if_splits prod.splits)

text \<open>What a successful write leaves on a lawful device is what the verifier reads.\<close>

lemma applied_observed:
  assumes "apply_anchored sp curve bin target prev lm d = (Inr plan, d')"
    and "lawful_points sp gp" and "distinct (map pt_index curve)"
    and "is_u32 target" "is_i32 prev" "0 \<le> prev" and "clock_ceiling_mhz lm \<le> 100000"
    and "e \<in> set (ap_entries plan)"
  shows "observed_at (observe_plan gp plan d') (ab_index e) = Some (ab_offset_mhz e) \<and>
    tame (ab_offset_mhz e) \<and> (\<exists>q. entry_fits bin (po_voltage_mv (ap_anchor plan)) target q e)"
proof -
  have tgt: "target \<le> 100000"
    using plan_anchored_anchor [OF applied_plan [OF assms(1)] assms(4-6)] assms(7) by linarith
  obtain q where q: "entry_fits bin (po_voltage_mv (ap_anchor plan)) target q e"
      "gp (pt_index q) d' = Some (ab_offset_mhz e * 1000)"
    using list_all2_right [OF conjunct1 [OF apply_anchored_ok [OF assms(1-6)]]] assms(7,8) by auto
  have "gp (ab_index e) d' = Some (ab_offset_mhz e * 1000)"
    using q by (simp add: entry_fits_def)
  then have "observed_at (observe_plan gp plan d') (ab_index e) = Some (ab_offset_mhz e)"
    using assms(8) by (simp add: observed_at_observe sdiv_thousand)
  moreover have "tame (ab_offset_mhz e)" using q(1) tgt by (auto simp: entry_fits_def tame_def)
  ultimately show ?thesis using q(1) by blast
qed

lemma write_then_verify:
  assumes "apply_anchored sp curve bin target prev lm d = (Inr plan, d')"
    and "lawful_points sp gp" and "distinct (map pt_index curve)"
    and "is_u32 target" "is_i32 prev" "0 \<le> prev" and "clock_ceiling_mhz lm \<le> 100000"
    and "tol \<le> 1000"
  shows "verify_anchored plan (observe_plan gp plan d') tol = AnchoredRaiseVerified"
proof -
  note pl = applied_plan [OF assms(1)]
  note A = plan_anchored_anchor [OF pl assms(4-6)]
  have tgt: "target \<le> 100000" using A assms(7) by linarith
  note O = applied_observed [OF assms(1-7)]
  have fit: "\<exists>q. entry_fits bin (po_voltage_mv (ap_anchor plan)) target q e" if "e \<in> set (ap_entries plan)" for e
    using O [OF that] by blast
  have obs: "observed_at (observe_plan gp plan d') (ab_index e) = Some (ab_offset_mhz e)"
    if "e \<in> set (ap_entries plan)" for e using O [OF that] by blast
  have tame_off: "tame (ab_offset_mhz e)" if "e \<in> set (ap_entries plan)" for e
    using O [OF that] by blast
  have "pt_index ` set curve = ab_index ` set (ap_entries plan)"
    using entries_indices [OF plan_anchored_fits [OF pl assms(4-6,3)]] by (metis set_map)
  then obtain ea where ea: "ea \<in> set (ap_entries plan)" "ab_index ea = bin" using A by auto
  have off_a: "ab_offset_mhz ea = po_offset_mhz (ap_anchor plan)"
    using anchor_entry_offset [OF pl ea(1)] ea(2) A by simp
  have vp: "verify_positive_offset (po_offset_mhz (ap_anchor plan)) target
      (observed_at (observe_plan gp plan d') bin) None tol = RaiseVerified"
    using obs [OF ea(1)] verify_positive_iff [of "ab_offset_mhz ea" "ab_offset_mhz ea" tol target]
      tame_off [OF ea(1)] assms(8) by (simp add: off_a ea(2))
  have "verify_entries (observed_at (observe_plan gp plan d')) bin target (int tol) (ap_entries plan) =
      AnchoredRaiseVerified"
  proof (subst verify_entries_iff)
    show "\<forall>e\<in>set (ap_entries plan). \<forall>off. observed_at (observe_plan gp plan d') (ab_index e) = Some off \<longrightarrow> tame off"
      using obs tame_off by simp
    show "\<forall>e\<in>set (ap_entries plan). ab_base_mhz e \<le> 100000000"
      using fit by (fastforce simp: entry_fits_def)
    show "target \<le> 100000000" using tgt by simp
    show "\<forall>e\<in>set (ap_entries plan). ab_index e \<noteq> bin \<longrightarrow>
       (\<exists>off. observed_at (observe_plan gp plan d') (ab_index e) = Some off \<and> off \<le> int tol \<and>
          int (ab_base_mhz e) + off - int target \<le> int tol)"
    proof (intro ballI impI)
      fix e assume e: "e \<in> set (ap_entries plan)" "ab_index e \<noteq> bin"
      have "ab_offset_mhz e \<le> 0 \<and> int (ab_base_mhz e) + ab_offset_mhz e \<le> int target"
        using fit [OF e(1)] e(2) by (auto simp: entry_fits_def split: if_splits)
      then show "\<exists>off. observed_at (observe_plan gp plan d') (ab_index e) = Some off \<and> off \<le> int tol \<and>
          int (ab_base_mhz e) + off - int target \<le> int tol"
        using obs [OF e(1)] by auto
    qed
  qed
  with vp A assms(8) show ?thesis by (simp add: verify_anchored_def)
qed


text \<open>What an accepted read-back says of one bin.\<close>

lemma verdict_ceiling:
  assumes "verify_anchored plan obs tol = AnchoredRaiseVerified"
    and "list_all2 (entry_fits (po_index (ap_anchor plan)) mv (ap_target_mhz plan)) curve (ap_entries plan)"
    and "\<forall>e\<in>set (ap_entries plan). ab_index e = po_index (ap_anchor plan) \<longrightarrow>
           ab_offset_mhz e = po_offset_mhz (ap_anchor plan)"
    and "\<forall>e\<in>set (ap_entries plan). \<forall>off. observed_at obs (ab_index e) = Some off \<longrightarrow> tame off"
    and "ap_target_mhz plan \<le> 100000" "tame (po_offset_mhz (ap_anchor plan))" "tol \<le> 1000"
    and "e \<in> set (ap_entries plan)"
  shows "\<exists>off. observed_at obs (ab_index e) = Some off \<and>
    int (ab_base_mhz e) + off \<le> int (ap_target_mhz plan) + int tol \<and>
    (if ab_index e = po_index (ap_anchor plan) then \<bar>off - ab_offset_mhz e\<bar> \<le> int tol
     else off \<le> int tol)"
proof -
  let ?a = "ap_anchor plan"
  have vp: "verify_positive_offset (po_offset_mhz ?a) (ap_target_mhz plan) (observed_at obs (po_index ?a))
      None tol = RaiseVerified"
    and ve: "verify_entries (observed_at obs) (po_index ?a) (ap_target_mhz plan) (as_i32 tol)
      (ap_entries plan) = AnchoredRaiseVerified"
    using assms(1) by (auto simp: verify_anchored_def split: positive_offset_verification.splits)
  obtain q where fit: "entry_fits (po_index ?a) mv (ap_target_mhz plan) q e"
    using list_all2_right [OF assms(2)] assms(8) by blast
  have fits: "\<forall>e\<in>set (ap_entries plan). ab_base_mhz e \<le> 100000000"
    using list_all2_right [OF assms(2)] by (fastforce simp: entry_fits_def)
  show ?thesis
  proof (cases "ab_index e = po_index ?a")
    case True
    obtain off where off: "observed_at obs (po_index ?a) = Some off"
      using vp by (cases "observed_at obs (po_index ?a)") (simp_all add: verify_positive_offset_def)
    have "\<bar>off - po_offset_mhz ?a\<bar> \<le> int tol"
      using vp off assms(4,6,7,8) True verify_positive_iff [of off "po_offset_mhz ?a" tol] by simp
    moreover have "int (ab_base_mhz e) + ab_offset_mhz e = int (ap_target_mhz plan)"
      using fit True by (simp add: entry_fits_def)
    ultimately show ?thesis using True off assms(3,8) by auto
  next
    case False
    have "as_i32 tol = int tol" using assms(7) by simp
    with ve False assms(4,5,8) fits show ?thesis
      using verify_entries_iff [of "ap_entries plan" "observed_at obs" "ap_target_mhz plan" "po_index ?a"
          "int tol"]
      by fastforce
  qed
qed

section \<open>Properties\<close>

text \<open>An anchored verdict is a ceiling: when the verifier accepts the offsets it read back, every bin of
  the plan has been read, no bin runs above the target by more than the tolerance, no bin but the
  anchor is raised by more than the tolerance, and the anchor sits within it of its plan.\<close>

lemma anchored_verdict_is_ceiling:
  assumes "verify_anchored plan obs tol = AnchoredRaiseVerified"
    and "list_all2 (entry_fits (po_index (ap_anchor plan)) mv (ap_target_mhz plan)) curve (ap_entries plan)"
    and "\<forall>e\<in>set (ap_entries plan). ab_index e = po_index (ap_anchor plan) \<longrightarrow>
           ab_offset_mhz e = po_offset_mhz (ap_anchor plan)"
    and "\<forall>e\<in>set (ap_entries plan). \<forall>off. observed_at obs (ab_index e) = Some off \<longrightarrow> tame off"
    and "ap_target_mhz plan \<le> 100000" "tame (po_offset_mhz (ap_anchor plan))" "tol \<le> 1000"
    and "e \<in> set (ap_entries plan)"
  shows "\<exists>off. observed_at obs (ab_index e) = Some off \<and>
    int (ab_base_mhz e) + off \<le> int (ap_target_mhz plan) + int tol \<and>
    (if ab_index e = po_index (ap_anchor plan) then \<bar>off - ab_offset_mhz e\<bar> \<le> int tol
     else off \<le> int tol)"
  by (rule verdict_ceiling [OF assms])

text \<open>C37: writing and verifying agree: on a device where an accepted write is read back, the anchored
  writer's success is followed by the anchored verdict.\<close>

theorem applied_curve_verifies:
  assumes "apply_anchored sp curve bin target prev lm d = (Inr plan, d')"
    and "lawful_points sp gp" and "distinct (map pt_index curve)"
    and "is_u32 target" "is_i32 prev" "0 \<le> prev" and "clock_ceiling_mhz lm \<le> 100000"
    and "tol \<le> 1000"
  shows "verify_anchored plan (observe_plan gp plan d') tol = AnchoredRaiseVerified"
  by (rule write_then_verify [OF assms])

theorem applied_curve_verifies_witness:
  "\<exists>plan d'. apply_anchored table_set sample_curve 41 1915 0 (limits_conservative 800 2100) (\<lambda>_. 7) =
     (Inr plan, d') \<and> verify_anchored plan (observe_plan table_get plan d') 15 = AnchoredRaiseVerified"
proof -
  obtain plan d' where run:
    "apply_anchored table_set sample_curve 41 1915 0 (limits_conservative 800 2100) (\<lambda>_. 7) = (Inr plan, d')"
    using sample_run by blast
  have "verify_anchored plan (observe_plan table_get plan d') 15 = AnchoredRaiseVerified"
    by (rule applied_curve_verifies [OF run lawful_table])
      (simp_all add: sample_curve_def is_u32_def is_i32_def limits_conservative_def)
  with run show ?thesis by blast
qed

text \<open>The flatten-down verdict counts offsets exactly, although it divides in single precision: a
  readable set of at most 1000 bins is verified when at least nine tenths of it carry an offset, and
  the benign-zero rescue accepts only a set in which no bin runs above the target and every bin has a
  static base.\<close>

lemma ceiling_verdict_exact:
  assumes "length expected \<le> 1000"
  shows "(fst (classify_curve target expected tol) = VerifiedCurve \<longleftrightarrow>
      (\<exists>e\<in>set expected. offset_nonzero e) \<and>
      9 * length expected \<le> 10 * length (filter offset_nonzero expected)) \<and>
    (lc_rescue (eval_ceiling_evidence target anchor expected tol stock_top static_base) \<longrightarrow>
      (\<forall>e\<in>set expected. pe_freq_mhz e \<le> target) \<and>
      (\<exists>m. static_base = Some m \<and> (\<forall>e\<in>set expected. index_lookup m (pe_index e) \<noteq> None)))"
proof (intro conjI)
  let ?n = "length expected" and ?p = "length (filter offset_nonzero expected)"
  have ratio: "nine_tenths \<le> f32_div (f32_of_nat ?p) (f32_of_nat ?n) \<longleftrightarrow> 9 * ?n \<le> 10 * ?p" if "0 < ?n"
    using f32_ratio_ge_nine_tenths [of ?p ?n] that assms
    by (simp add: nine_tenths_def f32_order)
  have present: "?p \<ge> 1 \<longleftrightarrow> (\<exists>e\<in>set expected. offset_nonzero e)"
    by (auto simp: Suc_le_eq filter_empty_conv)
  have read: "filter (\<lambda>e. pe_offset_khz e \<noteq> None) expected \<noteq> []" if p: "?p \<ge> 1"
  proof -
    obtain e where "e \<in> set expected" "offset_nonzero e" using p present by blast
    then have "pe_offset_khz e \<noteq> None" by (cases "pe_offset_khz e") (auto simp: offset_nonzero_def)
    with \<open>e \<in> set expected\<close> show ?thesis by (auto simp: filter_empty_conv)
  qed
  show "fst (classify_curve target expected tol) = VerifiedCurve \<longleftrightarrow>
      (\<exists>e\<in>set expected. offset_nonzero e) \<and> 9 * ?n \<le> 10 * ?p"
    using ratio read present by (auto simp: classify_curve_def Let_def)
next
  show "lc_rescue (eval_ceiling_evidence target anchor expected tol stock_top static_base) \<longrightarrow>
      (\<forall>e\<in>set expected. pe_freq_mhz e \<le> target) \<and>
      (\<exists>m. static_base = Some m \<and> (\<forall>e\<in>set expected. index_lookup m (pe_index e) \<noteq> None))"
    by (cases static_base)
      (auto simp: eval_ceiling_evidence_def eval_no_down_cap_def Let_def filter_empty_conv not_less
        split: prod.splits)
qed

end
