(* ===== verification/F2Apply.thy ===== *)
theory F2Apply
  imports CoreSeed GpuDriver VfVerify
begin

text \<open>
  The apply path of \<open>crates/service/src/gpu_undervolt.rs\<close>: the inputs of the Forge, the exact and the
  manual anchor, and \<open>apply_anchored_undervolt\<close>, which locks the voltage, writes the anchored curve,
  reads every bin back, sets the clock ceiling and undoes all of it when any of this cannot be
  confirmed. The device is the argument \<open>v\<close> of the driver layer; \<open>settle\<close> is what the device does
  while the lock readback waits and \<open>polls\<close> how often it is asked before the deadline.
\<close>

section \<open>Inputs and anchors\<close>

definition is_f2_sane_point :: "u32 \<Rightarrow> u32 \<Rightarrow> bool" where
  "is_f2_sane_point mv mhz \<longleftrightarrow> 600 \<le> mv \<and> mv \<le> 1150 \<and> 500 \<le> mhz \<and> mhz \<le> 3500"

definition f2_sane_curve :: "vf_curve \<Rightarrow> vf_curve" where
  "f2_sane_curve curve = filter (\<lambda>p. is_f2_sane_point (pt_mv p) (pt_mhz p)) curve"

record f2_forge_inputs_rec =
  fi_curve :: vf_curve
  fi_boost_top :: u32
  fi_limits :: positive_offset_limits

definition hardware_limits :: "vf_curve \<Rightarrow> u32 \<Rightarrow> positive_offset_limits" where
  "hardware_limits sane clock_top =
     limits_hardware_frontier (Min (set (map pt_mv sane))) clock_top (Min (set (map pt_mhz sane)))"

definition f2_forge_inputs :: "'g vendor \<Rightarrow> u32 \<Rightarrow> 'g \<Rightarrow> f2_forge_inputs_rec option" where
  "f2_forge_inputs v clock_top g =
     (let sane = f2_sane_curve (read_vf_base_curve_modern v g)
      in if sane = [] then None
         else Some \<lparr>fi_curve = sane, fi_boost_top = clock_top, fi_limits = hardware_limits sane clock_top\<rparr>)"

definition select_anchor_bin :: "vf_curve \<Rightarrow> u32 \<Rightarrow> u32 option \<Rightarrow> usize option" where
  "select_anchor_bin curve target start_mv =
     map_option pt_index
       (max_by_key pt_mv
         (filter (\<lambda>p. is_none_or start_mv (\<lambda>s. pt_mv p \<le> s) \<and> pt_mhz p < target) curve))"

definition select_exact_apply_anchor_bin :: "vf_curve \<Rightarrow> u32 \<Rightarrow> u32 \<Rightarrow> usize option" where
  "select_exact_apply_anchor_bin curve target anchor_mv =
     map_option pt_index (find (\<lambda>p. pt_mv p = anchor_mv \<and> pt_mhz p < target) curve)"

datatype manual_error =
  NoAnchorReaches u32
| TooFarFromBin u32 u32 u32
| NoSaneCurve

definition resolve_manual_diagnostic_anchor ::
  "vf_curve \<Rightarrow> u32 \<Rightarrow> u32 \<Rightarrow> (manual_error, usize \<times> u32 \<times> u32) result" where
  "resolve_manual_diagnostic_anchor sane target requested =
     (case min_by_key (\<lambda>p. abs_diff (pt_mv p) requested) (filter (\<lambda>p. pt_mhz p < target) sane) of
        None \<Rightarrow> Inl (NoAnchorReaches target)
      | Some p \<Rightarrow>
          if abs_diff (pt_mv p) requested > 8
          then Inl (TooFarFromBin requested (abs_diff (pt_mv p) requested) (pt_mv p))
          else Inr p)"

definition resolve_manual_diagnostic_point ::
  "'g vendor \<Rightarrow> u32 \<Rightarrow> u32 \<Rightarrow> 'g \<Rightarrow> (manual_error, u32 \<times> i32) result" where
  "resolve_manual_diagnostic_point v target requested g =
     (case f2_forge_inputs v target g of
        None \<Rightarrow> Inl NoSaneCurve
      | Some inputs \<Rightarrow>
          (case resolve_manual_diagnostic_anchor (fi_curve inputs) target requested of
             Inl e \<Rightarrow> Inl e
           | Inr (_, mv, base) \<Rightarrow> Inr (mv, i32_sub (as_i32 target) (as_i32 base))))"

section \<open>Confirmed reset\<close>

datatype unconfirmed =
  OffsetNotCleared i32 usize
| OffsetUnreadable usize
| LockStillActive u32
| LockUnreadable driver_error

text \<open>The readback of every touched bin and of the voltage lock after a stock reset.\<close>

fun confirm_bins :: "'g vendor \<Rightarrow> usize list \<Rightarrow> 'g \<Rightarrow> unconfirmed option" where
  "confirm_bins v [] g = None"
| "confirm_bins v (i # is) g =
     (case ven_get_point v i g of
        Some khz \<Rightarrow>
          if i32_wrap \<bar>khz\<bar> \<le> 1000 then confirm_bins v is g else Some (OffsetNotCleared khz i)
      | None \<Rightarrow> Some (OffsetUnreadable i))"

definition confirm_stock :: "'g vendor \<Rightarrow> usize list \<Rightarrow> 'g \<Rightarrow> unconfirmed option" where
  "confirm_stock v is g =
     (case confirm_bins v is g of
        Some u \<Rightarrow> Some u
      | None \<Rightarrow>
          (case read_core_voltage_lock_mv v g of
             Inr (Some mv) \<Rightarrow> Some (LockStillActive mv)
           | Inr None \<Rightarrow> None
           | Inl e \<Rightarrow> Some (LockUnreadable e)))"

datatype apply_reason =
  PreResetFailed driver_error
| NoSaneBase
| ClockDomain seed_error
| AnchorUnavailable u32
| VoltageLock lock_error
| WriteRejected plan_error
| ClockCeilingFailed driver_error
| VerifyRejected anchored_offset_verification

text \<open>The error carries what the reset could not confirm, if anything.\<close>

type_synonym apply_failure = "apply_reason \<times> unconfirmed option"

definition reset_and_confirm ::
  "'g vendor \<Rightarrow> usize list \<Rightarrow> apply_reason \<Rightarrow> 'g \<Rightarrow> (apply_failure, unit) result \<times> 'g" where
  "reset_and_confirm v is reason g =
     (let g' = reset_to_stock v g in (Inl (reason, confirm_stock v is g'), g'))"

section \<open>The apply\<close>

definition f2_verify_tol_mhz :: u32 where "f2_verify_tol_mhz = 15"

text \<open>From the locked voltage on: write, read back, ceiling.\<close>

definition write_and_verify ::
  "'g vendor \<Rightarrow> vf_curve \<Rightarrow> usize \<Rightarrow> u32 \<Rightarrow> positive_offset_limits \<Rightarrow> 'g \<Rightarrow>
   (apply_failure, unit) result \<times> 'g" where
  "write_and_verify v sane anchor target limits g =
     (case apply_anchored (ven_set_point v) sane anchor target 0 limits g of
        (Inl e, g1) \<Rightarrow> reset_and_confirm v (map pt_index sane) (WriteRejected e) g1
      | (Inr plan, g1) \<Rightarrow>
          (let verdict = verify_anchored plan (observe_plan (ven_get_point v) plan g1) f2_verify_tol_mhz;
               touched = map ab_index (ap_entries plan)
           in if verdict = AnchoredRaiseVerified
              then (case lock_core_clock_max_mhz v target g1 of
                      (Inl e, g2) \<Rightarrow> reset_and_confirm v touched (ClockCeilingFailed e) g2
                    | (Inr _, g2) \<Rightarrow> (Inr (), g2))
              else reset_and_confirm v touched (VerifyRejected verdict) g1))"

definition apply_anchored_undervolt ::
  "'g vendor \<Rightarrow> ('g \<Rightarrow> 'g) \<Rightarrow> nat \<Rightarrow> u32 \<Rightarrow> u32 \<Rightarrow> 'g \<Rightarrow> (apply_failure, unit) result \<times> 'g" where
  "apply_anchored_undervolt v settle polls target anchor_mv g =
     (case reset_all v g of
        (Inl e, g1) \<Rightarrow> (Inl (PreResetFailed e, None), g1)
      | (Inr _, g1) \<Rightarrow>
          (let sane = f2_sane_curve (read_vf_base_curve_modern v g1)
           in if sane = [] then (Inl (NoSaneBase, None), g1)
              else case f2_stock_clock_ceiling (read_vf_curve_modern v g1) of
                Inl e \<Rightarrow> (Inl (ClockDomain e, None), g1)
              | Inr boost \<Rightarrow>
                  (case select_exact_apply_anchor_bin sane target anchor_mv of
                     None \<Rightarrow> (Inl (AnchorUnavailable anchor_mv, None), g1)
                   | Some anchor \<Rightarrow>
                       (case lock_core_voltage_verified v settle polls anchor_mv g1 of
                          (Inl e, g2) \<Rightarrow> reset_and_confirm v (map pt_index sane) (VoltageLock e) g2
                        | (Inr _, g2) \<Rightarrow>
                            write_and_verify v sane anchor target (hardware_limits sane boost) g2))))"

section \<open>Lemmas\<close>

lemma distinct_curve_of: "distinct (map pt_index (curve_of read))"
proof -
  have "distinct (map pt_index (concat (map (\<lambda>i. case read i of
          Some (khz, uv) \<Rightarrow> if uv > 0 then [(i, uv div 1000, khz div 1000)] else [] | None \<Rightarrow> []) xs))) \<and>
      set (map pt_index (concat (map (\<lambda>i. case read i of
          Some (khz, uv) \<Rightarrow> if uv > 0 then [(i, uv div 1000, khz div 1000)] else [] | None \<Rightarrow> []) xs))) \<subseteq> set xs"
    if "distinct xs" for xs
    using that by (induction xs) (auto split: option.splits)
  then show ?thesis by (simp add: curve_of_def)
qed

lemma distinct_sane: "distinct (map pt_index (f2_sane_curve (curve_of read)))"
  by (simp add: f2_sane_curve_def distinct_curve_of distinct_map_filter)

lemma plan_anchored_indices:
  assumes "plan_anchored curve bin target prev lm = Inr plan"
  shows "map ab_index (ap_entries plan) = map pt_index curve"
proof -
  have "ab_index e = pt_index q" if "anchored_entry a target q = Inr e" for a q e
    using that by (cases q) (auto simp: anchored_cases split: if_splits)
  moreover have "list_all2 (\<lambda>q e. anchored_entry (ap_anchor plan) target q = Inr e) curve (ap_entries plan)"
    using plan_anchored_Inr [OF assms] by simp
  ultimately have "list_all2 (\<lambda>q e. ab_index e = pt_index q) curve (ap_entries plan)"
    by (metis (mono_tags, lifting) list_all2_mono)
  moreover have "map ab_index ys = map pt_index xs"
    if "list_all2 (\<lambda>q e. ab_index e = pt_index q) xs ys" for xs ys
    using that by (induction rule: list_all2_induct) auto
  ultimately show ?thesis by blast
qed

lemma boost_bound: "f2_stock_clock_ceiling live = Inr b \<Longrightarrow> b \<le> 3500"
  by (auto simp: f2_stock_clock_ceiling_def derive_core_seed_def Let_def split: sum.splits if_splits)

lemma confirm_bins_None:
  "confirm_bins v is g = None \<Longrightarrow> \<forall>i\<in>set is. near_zero (ven_get_point v i g)"
proof (induction "is")
  case (Cons i "is")
  then obtain khz where k: "ven_get_point v i g = Some khz" "i32_wrap \<bar>khz\<bar> \<le> 1000"
    and rest: "confirm_bins v is g = None"
    by (auto split: option.splits if_splits)
  have "\<bar>khz\<bar> \<le> 1000" if "is_i32 khz" "khz \<noteq> - (2 ^ 31)"
  proof -
    have "is_i32 \<bar>khz\<bar>" using that by (auto simp: is_i32_def)
    with k(2) show ?thesis by simp
  qed
  then show ?case using k(1) Cons.IH [OF rest] by (simp add: near_zero_def)
qed simp

lemma confirm_stock_None:
  "confirm_stock v is g = None \<Longrightarrow>
   (\<forall>i\<in>set is. near_zero (ven_get_point v i g)) \<and> read_core_voltage_lock_mv v g = Inr None"
  by (auto simp: confirm_stock_def dest!: confirm_bins_None split: option.splits sum.splits)

lemma reset_and_confirm_eq:
  "reset_and_confirm v is reason g = (Inl (reason', u), g') \<Longrightarrow>
   reason' = reason \<and> u = confirm_stock v is g'"
  by (auto simp: reset_and_confirm_def Let_def)

text \<open>A curve write does nothing but point writes.\<close>

inductive point_writes :: "'g vendor \<Rightarrow> 'g \<Rightarrow> 'g \<Rightarrow> bool" for v where
  pw_none: "point_writes v g g"
| pw_point: "point_writes v (snd (ven_set_point v i x g)) g' \<Longrightarrow> point_writes v g g'"

lemma write_anchored_points: "point_writes v g (snd (write_anchored (ven_set_point v) anchor es g))"
proof (induction es arbitrary: g)
  case Nil
  then show ?case by (simp add: pw_none)
next
  case (Cons e es)
  then show ?case
    by (auto split: prod.splits intro!: pw_point [of v "ab_index e" "i32_mul (ab_offset_mhz e) 1000" g] pw_none)
qed

lemma apply_anchored_points:
  "apply_anchored (ven_set_point v) curve bin target prev lm g = (r, g') \<Longrightarrow> point_writes v g g'"
  using write_anchored_points [of v g]
  by (auto simp: apply_anchored_def Let_def pw_none split: sum.splits if_splits prod.splits) (metis snd_conv)+

lemma poll_lock_ok:
  "poll_lock v settle polls entry mv g = (Inr u, g') \<Longrightarrow> read_core_voltage_locks v g' = Inr [(entry, mv)]"
proof (induction polls arbitrary: g)
  case 0
  then show ?case by (subst (asm) poll_lock.simps) (auto split: sum.splits if_splits)
next
  case (Suc n)
  show ?case
    using Suc.prems Suc.IH [of "settle g"]
    by (simp add: poll_lock.simps [of v settle "Suc n"] split: sum.splits if_splits)
qed

lemma lock_verified_ok:
  "lock_core_voltage_verified v settle polls mv g = (Inr u, g') \<Longrightarrow>
   \<exists>entry. read_core_voltage_locks v g' = Inr [(entry, mv)]"
  by (auto simp: lock_core_voltage_verified_def dest: poll_lock_ok split: sum.splits prod.splits)

lemma sdiv_1000_tame: "is_i32 x \<Longrightarrow> tame (x sdiv 1000)"
proof -
  assume x: "is_i32 x"
  have "\<bar>x sdiv 1000\<bar> = \<bar>x\<bar> div 1000"
    by (cases "x = 0") (simp_all add: signed_divide_int_def abs_mult abs_sgn_eq)
  moreover have "\<bar>x\<bar> div 1000 \<le> \<bar>x\<bar> div 1000" by simp
  ultimately show ?thesis using x by (auto simp: tame_def is_i32_def)
qed

text \<open>The write phase: what its success has read back, and what its failure has confirmed.\<close>

text \<open>The offsets the driver reads back are 32-bit numbers, as their type says. Nothing is asked of its
  lock table: it can be read at stock only, and the code reads it there.\<close>

definition i32_points :: "'g vendor \<Rightarrow> bool" where
  "i32_points v \<longleftrightarrow> (\<forall>i g khz. ven_get_point v i g = Some khz \<longrightarrow> is_i32 khz)"

definition holds_ceiling :: "'g vendor \<Rightarrow> vf_curve \<Rightarrow> usize \<Rightarrow> u32 \<Rightarrow> 'g \<Rightarrow> bool" where
  "holds_ceiling v curve anchor target g \<longleftrightarrow>
     (\<forall>(i, mv, base)\<in>set curve. \<exists>khz. ven_get_point v i g = Some khz \<and>
        int base + khz sdiv 1000 \<le> int target + 15 \<and> (i \<noteq> anchor \<longrightarrow> khz sdiv 1000 \<le> 15) \<and>
        (i = anchor \<longrightarrow> int target - 15 \<le> int base + khz sdiv 1000))"

lemma write_and_verify_ok:
  assumes "write_and_verify v sane anchor target limits g = (Inr u, g')" and "i32_points v"
    and "distinct (map pt_index sane)" and "is_u32 target" and "clock_ceiling_mhz limits \<le> 3500"
  shows "\<exists>g1. point_writes v g g1 \<and> holds_ceiling v sane anchor target g1 \<and>
    lock_core_clock_max_mhz v target g1 = (Inr (), g') \<and> target \<le> 3500"
proof -
  obtain plan g1 where w: "apply_anchored (ven_set_point v) sane anchor target 0 limits g = (Inr plan, g1)"
    and ver: "verify_anchored plan (observe_plan (ven_get_point v) plan g1) 15 = AnchoredRaiseVerified"
    and lk: "lock_core_clock_max_mhz v target g1 = (Inr (), g')"
    using assms(1)
    by (auto simp: write_and_verify_def reset_and_confirm_def Let_def f2_verify_tol_mhz_def
        split: sum.splits prod.splits if_splits)
  note pl = applied_plan [OF w]
  have A: "ap_target_mhz plan = target" "po_index (ap_anchor plan) = anchor" "target \<le> 3500"
    "tame (po_offset_mhz (ap_anchor plan))"
    using plan_anchored_anchor [OF pl assms(4)] assms(5) by (auto simp: is_i32_def tame_def)
  have fits: "list_all2 (entry_fits anchor (po_voltage_mv (ap_anchor plan)) target) sane (ap_entries plan)"
    using plan_anchored_fits [OF pl assms(4) _ _ assms(3)] by (simp add: is_i32_def)
  have obs: "observed_at (observe_plan (ven_get_point v) plan g1) (ab_index e) =
      map_option (\<lambda>khz. khz sdiv 1000) (ven_get_point v (ab_index e) g1)" if "e \<in> set (ap_entries plan)" for e
    using that by (simp add: observed_at_observe)
  have tame_obs: "\<forall>e\<in>set (ap_entries plan). \<forall>off.
      observed_at (observe_plan (ven_get_point v) plan g1) (ab_index e) = Some off \<longrightarrow> tame off"
    using obs assms(2) by (auto simp: i32_points_def sdiv_1000_tame)
  have main: "\<exists>khz. ven_get_point v i g1 = Some khz \<and>
        int base + khz sdiv 1000 \<le> int target + 15 \<and> (i \<noteq> anchor \<longrightarrow> khz sdiv 1000 \<le> 15) \<and>
        (i = anchor \<longrightarrow> int target - 15 \<le> int base + khz sdiv 1000)"
    if q: "(i, mv, base) \<in> set sane" for i mv base
  proof -
    obtain e where e: "e \<in> set (ap_entries plan)" and
      fit: "entry_fits anchor (po_voltage_mv (ap_anchor plan)) target (i, mv, base) e"
      using list_all2_left [OF fits] q by blast
    have "\<exists>off. observed_at (observe_plan (ven_get_point v) plan g1) (ab_index e) = Some off \<and>
        int (ab_base_mhz e) + off \<le> int (ap_target_mhz plan) + int 15 \<and>
        (if ab_index e = po_index (ap_anchor plan) then \<bar>off - ab_offset_mhz e\<bar> \<le> int 15
         else off \<le> int 15)"
    proof (rule verdict_ceiling [OF ver _ _ tame_obs])
      show "list_all2 (entry_fits (po_index (ap_anchor plan)) (po_voltage_mv (ap_anchor plan))
          (ap_target_mhz plan)) sane (ap_entries plan)" using fits A by simp
      show "\<forall>e\<in>set (ap_entries plan). ab_index e = po_index (ap_anchor plan) \<longrightarrow>
          ab_offset_mhz e = po_offset_mhz (ap_anchor plan)"
        using anchor_entry_offset [OF pl] by blast
    qed (use A e in simp_all)
    then show ?thesis
      using fit A by (auto simp: obs [OF e] entry_fits_def split: if_splits)
  qed
  have "holds_ceiling v sane anchor target g1" using main by (auto simp: holds_ceiling_def)
  then show ?thesis using apply_anchored_points [OF w] lk A(3) by blast
qed

text \<open>What an objection of \<open>confirm_stock\<close> says of the device: the first bin that does not read back as
  cleared, or the lock when all of them do.\<close>

fun objects :: "'g vendor \<Rightarrow> usize set \<Rightarrow> 'g \<Rightarrow> unconfirmed option \<Rightarrow> bool" where
  "objects v bins g (Some (OffsetNotCleared khz i)) \<longleftrightarrow>
     i \<in> bins \<and> ven_get_point v i g = Some khz \<and> \<not> i32_wrap \<bar>khz\<bar> \<le> 1000"
| "objects v bins g (Some (OffsetUnreadable i)) \<longleftrightarrow> i \<in> bins \<and> ven_get_point v i g = None"
| "objects v bins g (Some (LockStillActive mv)) \<longleftrightarrow>
     (\<forall>i\<in>bins. near_zero (ven_get_point v i g)) \<and> read_core_voltage_lock_mv v g = Inr (Some mv)"
| "objects v bins g (Some (LockUnreadable e)) \<longleftrightarrow>
     (\<forall>i\<in>bins. near_zero (ven_get_point v i g)) \<and> read_core_voltage_lock_mv v g = Inl e"
| "objects v bins g None \<longleftrightarrow>
     (\<forall>i\<in>bins. near_zero (ven_get_point v i g)) \<and> read_core_voltage_lock_mv v g = Inr None"

lemma confirm_bins_no_lock:
  "confirm_bins v is g \<noteq> Some (LockStillActive mv)" "confirm_bins v is g \<noteq> Some (LockUnreadable e)"
  by (induction "is") (auto split: option.splits)

lemma confirm_bins_Some: "confirm_bins v is g = Some u \<Longrightarrow> objects v (set is) g (Some u)"
proof (induction "is")
  case (Cons i "is")
  show ?case
  proof (cases "confirm_bins v is g = Some u")
    case True
    with Cons.IH show ?thesis by (cases u) (auto simp: confirm_bins_no_lock)
  next
    case False
    with Cons.prems show ?thesis by (auto split: option.splits if_splits)
  qed
qed simp

lemma confirm_stock_objects: "objects v (set is) g (confirm_stock v is g)"
proof (cases "confirm_bins v is g")
  case None
  note cleared = confirm_bins_None [OF None]
  show ?thesis
  proof (cases "read_core_voltage_lock_mv v g")
    case (Inl e)
    then show ?thesis using cleared None by (simp add: confirm_stock_def)
  next
    case (Inr l)
    then show ?thesis using cleared None by (cases l) (simp_all add: confirm_stock_def)
  qed
next
  case (Some u)
  then show ?thesis using confirm_bins_Some [OF Some] by (simp add: confirm_stock_def)
qed

text \<open>A failure after the first write ends with a full reset and what it could not confirm.\<close>

definition closed_by_reset :: "'g vendor \<Rightarrow> vf_curve \<Rightarrow> unconfirmed option \<Rightarrow> 'g \<Rightarrow> bool" where
  "closed_by_reset v curve u g' \<longleftrightarrow>
     (\<exists>g. g' = reset_to_stock v g) \<and> objects v (pt_index ` set curve) g' u"

lemma reset_and_confirm_closes:
  assumes "reset_and_confirm v is reason g = (Inl (r, u), g')" and "set is = pt_index ` set curve"
  shows "r = reason \<and> closed_by_reset v curve u g'"
  using assms confirm_stock_objects [of v "is" g'] by (auto simp: reset_and_confirm_def closed_by_reset_def Let_def)

lemma write_and_verify_err:
  assumes "write_and_verify v sane anchor target limits g = (Inl (reason, u), g')"
  shows "closed_by_reset v sane u g' \<and> (\<forall>e. reason \<noteq> PreResetFailed e)"
proof (cases "apply_anchored (ven_set_point v) sane anchor target 0 limits g")
  case (Pair r g1)
  show ?thesis
  proof (cases r)
    case (Inl e)
    then have "reset_and_confirm v (map pt_index sane) (WriteRejected e) g1 = (Inl (reason, u), g')"
      using assms Pair by (simp add: write_and_verify_def)
    from reset_and_confirm_closes [OF this, of sane] show ?thesis by simp
  next
    case (Inr plan)
    have same: "set (map ab_index (ap_entries plan)) = pt_index ` set sane"
      by (simp only: plan_anchored_indices [OF applied_plan [OF Pair [unfolded Inr]]] set_map)
    obtain why g2 where "reset_and_confirm v (map ab_index (ap_entries plan)) why g2 = (Inl (reason, u), g')"
      and "\<forall>e. why \<noteq> PreResetFailed e"
      using assms Pair Inr
      by (auto simp: write_and_verify_def Let_def split: sum.splits prod.splits if_splits)
    with reset_and_confirm_closes [OF _ same] show ?thesis by metis
  qed
qed

section \<open>A concrete card\<close>

text \<open>A card that stores what it is told: ten bins from 700 to 925 mV, one lock entry.\<close>

type_synonym toy_card = "(usize \<Rightarrow> i32) \<times> u32"

definition toy_vendor :: "bool \<Rightarrow> toy_card vendor" where
  "toy_vendor ignores =
     \<lparr>ven_locks = (\<lambda>(p, l). Some [(3, l > 0, l)]),
      ven_set_locks = (\<lambda>cmds (p, l). (True, (p, unwrap_or (snd (last cmds)) 0))),
      ven_set_core = (\<lambda>_ g. (True, g)), ven_set_mem = (\<lambda>_ g. (True, g)),
      ven_status = (\<lambda>i _. if i < 10 then Some ((1500 + 50 * i) * 1000, (700 + 25 * i) * 1000) else None),
      ven_base = (\<lambda>i _. if i < 10 then Some ((1500 + 50 * i) * 1000, (700 + 25 * i) * 1000) else None),
      ven_get_point = (\<lambda>i (p, l). Some (i32_wrap (p i))),
      ven_set_point = (\<lambda>i x (p, l). (0, (if ignores \<and> x > 0 then p else p(i := x), l))),
      ven_probe = (\<lambda>_. 0), ven_lock_clock = (\<lambda>_ _ g. (True, g)), ven_reset_clock = (\<lambda>g. (True, g))\<rparr>"

definition stock_card :: toy_card where
  "stock_card = ((\<lambda>_. 0), 0)"

definition toy_curve :: vf_curve where
  "toy_curve =
     [(0, 700, 1500), (1, 725, 1550), (2, 750, 1600), (3, 775, 1650), (4, 800, 1700), (5, 825, 1750),
      (6, 850, 1800), (7, 875, 1850), (8, 900, 1900), (9, 925, 1950)]"

lemma toy_points: "i32_points (toy_vendor b)"
  by (auto simp: i32_points_def toy_vendor_def split: prod.splits)

lemma upt_255: "[0..<255] = [0, 1, 2, 3, 4, 5, 6, 7, 8, 9] @ [10..<(255::nat)]"
proof -
  have "[0..<10 + 245] = [0..<10] @ [10..<10 + (245::nat)]" by (rule upt_add_eq_append) simp
  moreover have "[0..<10] = [0, 1, 2, 3, 4, 5, 6, 7, 8, (9::nat)]" by (simp add: upt_rec)
  ultimately show ?thesis by simp
qed

lemma toy_curve_of:
  "curve_of (\<lambda>i. if i < 10 then Some ((1500 + 50 * i) * 1000, (700 + 25 * i) * 1000) else None) = toy_curve"
proof -
  have "concat (map (\<lambda>i. case if i < (10::nat) then Some ((1500 + 50 * i) * 1000, (700 + 25 * i) * 1000)
      else None of Some (khz, uv) \<Rightarrow> if uv > 0 then [(i, uv div 1000, khz div 1000)] else [] | None \<Rightarrow> [])
      [10..<n]) = []" for n
    by (simp add: concat_eq_Nil_conv)
  then show ?thesis unfolding curve_of_def upt_255 by (simp add: toy_curve_def)
qed

lemma reset_points_invalid:
  "\<forall>i\<in>set is. \<not> valid i d \<Longrightarrow> reset_points valid sp gp n is d = (Inr n, d)"
  by (induction "is") auto

lemma reset_points_append:
  "reset_points valid sp gp n (is @ js) d =
     (case reset_points valid sp gp n is d of
        (Inl e, d') \<Rightarrow> (Inl e, d') | (Inr m, d') \<Rightarrow> reset_points valid sp gp m js d')"
  by (induction valid sp gp n "is" d rule: reset_points.induct) (auto split: prod.splits option.splits sum.splits)

lemma toy_reset_points:
  "reset_points (\<lambda>i g. ven_status (toy_vendor b) i g \<noteq> None) (ven_set_point (toy_vendor b))
     (ven_get_point (toy_vendor b)) 0 [0..<255] (p, l) =
   (Inr 10, (p(0 := 0, 1 := 0, 2 := 0, 3 := 0, 4 := 0, 5 := 0, 6 := 0, 7 := 0, 8 := 0, 9 := 0), l))"
  unfolding upt_255 reset_points_append
  by (simp add: toy_vendor_def reset_points_invalid is_i32_def)

definition clear_bins :: "(usize \<Rightarrow> i32) \<Rightarrow> usize \<Rightarrow> i32" where
  "clear_bins p = p(0 := 0, 1 := 0, 2 := 0, 3 := 0, 4 := 0, 5 := 0, 6 := 0, 7 := 0, 8 := 0, 9 := 0)"

lemma toy_reset_all: "reset_all (toy_vendor b) (p, l) = (Inr (), (clear_bins p, 0))"
proof -
  have c: "drv_reset_curve (toy_vendor b) (p, l) = (Inr 10, (clear_bins p, l))" for p l
    unfolding drv_reset_curve_def reset_vf_curve_checked_def toy_reset_points clear_bins_def by simp
  have "vf_curve_supported (toy_vendor b) g" for g by (simp add: vf_curve_supported_def toy_vendor_def)
  moreover have "unlock_core_voltage (toy_vendor b) (p, l) = (Inr (), (p, 0))"
    by (simp add: unlock_core_voltage_def toy_vendor_def drv_of_def)
  moreover have "set_core_offset_mhz (toy_vendor b) 0 g = (Inr (), g)"
    "set_mem_offset_mhz (toy_vendor b) 0 g = (Inr (), g)" for g
    by (simp_all add: set_core_offset_mhz_def set_mem_offset_mhz_def toy_vendor_def drv_of_def)
  ultimately show ?thesis by (simp add: reset_all_def drv_then_def c)
qed

lemma toy_reset_to_stock: "reset_to_stock (toy_vendor b) (p, l) = (clear_bins p, 0)"
proof -
  have c: "drv_reset_curve (toy_vendor b) (p, l) = (Inr 10, (clear_bins p, l))" for p l
    unfolding drv_reset_curve_def reset_vf_curve_checked_def toy_reset_points clear_bins_def by simp
  have "unlock_core_voltage (toy_vendor b) (p, l) = (Inr (), (p, 0))"
    by (simp add: unlock_core_voltage_def toy_vendor_def drv_of_def)
  moreover have "set_core_offset_mhz (toy_vendor b) 0 g = (Inr (), g)"
    "reset_core_clock_lock (toy_vendor b) g = (Inr (), g)" for g
    by (simp_all add: set_core_offset_mhz_def reset_core_clock_lock_def toy_vendor_def drv_of_def)
  ultimately show ?thesis by (simp add: reset_to_stock_def reset_vf_curve_def c)
qed

lemma toy_curves:
  "read_vf_base_curve_modern (toy_vendor b) g = toy_curve" "read_vf_curve_modern (toy_vendor b) g = toy_curve"
  using toy_curve_of by (simp_all add: read_vf_base_curve_modern_def read_vf_curve_modern_def toy_vendor_def)

lemma toy_sane: "f2_sane_curve toy_curve = toy_curve"
  by (simp add: f2_sane_curve_def toy_curve_def is_f2_sane_point_def)

lemma toy_boost: "f2_stock_clock_ceiling toy_curve = Inr 1950"
  by (simp add: toy_curve_def f2_stock_clock_ceiling_def derive_core_seed_def sane_core_points_def
      is_sane_core_point_def select_core_cluster_def voltage_runs_def join_run_def largest_run_def
      core_cluster_gap_mv_def min_core_cluster_points_def u32_sat_sub_def less_eq_prod_def Let_def)

lemma toy_lock:
  "lock_core_voltage_verified (toy_vendor b) settle polls 850 (p, l) = (Inr (), (p, 850000))"
  by (simp add: lock_core_voltage_verified_def lock_core_voltage_mv_def toy_vendor_def u32_mul_def
      poll_lock.simps read_core_voltage_locks_def)

lemma toy_limits: "hardware_limits toy_curve 1950 =
  \<lparr>abs_max_offset_mhz = 450, step_max_offset_mhz = 450, hw_floor_mv = 700, clock_ceiling_mhz = 1950\<rparr>"
  by (simp add: hardware_limits_def limits_hardware_frontier_def toy_curve_def u32_sat_sub_def is_i32_def
      Let_def)

lemma toy_anchor: "select_exact_apply_anchor_bin toy_curve 1900 850 = Some 6"
  by (simp add: select_exact_apply_anchor_bin_def toy_curve_def)

lemma toy_plan:
  obtains plan where "plan_anchored toy_curve 6 1900 0 (hardware_limits toy_curve 1950) = Inr plan"
    "ap_entries plan = map (\<lambda>(i, mv, mhz). \<lparr>ab_index = i, ab_voltage_mv = mv, ab_base_mhz = mhz,
       ab_offset_mhz = (if i = 6 then 100 else if i = 9 then - 50 else 0),
       ab_effective_mhz = (if i = 6 \<or> i = 9 then 1900 else mhz),
       ab_role = (if i = 6 then Anchor else if i > 6 then CappedAbove else ElasticBelow)\<rparr>) toy_curve"
    "po_index (ap_anchor plan) = 6" "po_offset_mhz (ap_anchor plan) = 100" "ap_target_mhz plan = 1900"
  unfolding toy_limits
  by (simp add: plan_anchored_def plan_bounded_positive_offset_def toy_curve_def is_sane_base_curve_def
      is_sane_base_point_def is_i32_def as_u32_def anchored_entry_def Let_def)

lemma toy_write_and_verify:
  "\<exists>g'. write_and_verify (toy_vendor b) toy_curve 6 1900 (hardware_limits toy_curve 1950) (p, l) =
     (if b \<and> p 6 = 0 then (Inl (VerifyRejected AnchorRaiseIncomplete, None), g') else (Inr (), g')) \<and>
     (\<not> b \<longrightarrow> snd g' = l)"
  if "\<not> b \<or> p 6 = 0"
proof -
  obtain plan where pl: "plan_anchored toy_curve 6 1900 0 (hardware_limits toy_curve 1950) = Inr plan"
    and en: "ap_entries plan = map (\<lambda>(i, mv, mhz). \<lparr>ab_index = i, ab_voltage_mv = mv, ab_base_mhz = mhz,
       ab_offset_mhz = (if i = 6 then 100 else if i = 9 then - 50 else 0),
       ab_effective_mhz = (if i = 6 \<or> i = 9 then 1900 else mhz),
       ab_role = (if i = 6 then Anchor else if i > 6 then CappedAbove else ElasticBelow)\<rparr>) toy_curve"
    and a: "po_index (ap_anchor plan) = 6" "po_offset_mhz (ap_anchor plan) = 100" "ap_target_mhz plan = 1900"
    by (rule toy_plan)
  define q where "q = p(0 := 0, 1 := 0, 2 := 0, 3 := 0, 4 := 0, 5 := 0, 6 := (if b then p 6 else 100000),
    7 := 0, 8 := 0, 9 := (- 50000 :: int))"
  have w: "apply_anchored (ven_set_point (toy_vendor b)) toy_curve 6 1900 0 (hardware_limits toy_curve 1950) (p, l)
      = (Inr plan, (q, l))"
    unfolding apply_anchored_def pl
    by (simp add: a en Let_def toy_limits) (simp add: toy_curve_def toy_vendor_def i32_mul_def is_i32_def q_def
      fun_eq_iff)
  have o: "observe_plan (ven_get_point (toy_vendor b)) plan (q, l) =
      [(0, Some 0), (1, Some 0), (2, Some 0), (3, Some 0), (4, Some 0), (5, Some 0),
       (6, Some (if b then 0 else 100)), (7, Some 0), (8, Some 0), (9, Some (- 50))]"
  proof -
    have "q 0 = 0" "q 1 = 0" "q 2 = 0" "q 3 = 0" "q 4 = 0" "q 5 = 0" "q 6 = (if b then 0 else 100000)" "q 7 = 0"
      "q 8 = 0" "q 9 = - 50000"
      using that by (simp_all add: q_def)
    moreover have "ven_get_point (toy_vendor b) i (q, l) = Some (i32_wrap (q i))" for i
      by (simp add: toy_vendor_def)
    ultimately show ?thesis
      by (simp add: observe_plan_def en toy_curve_def is_i32_def signed_divide_int_def)
  qed
  have ver: "verify_anchored plan (observe_plan (ven_get_point (toy_vendor b)) plan (q, l)) 15 =
      (if b then AnchorRaiseIncomplete else AnchoredRaiseVerified)"
    unfolding o
    by (cases b) (simp_all add: verify_anchored_def a observed_at_def opt_bind_def verify_positive_offset_def
        is_i32_def Let_def en toy_curve_def)
  have idx: "map ab_index (ap_entries plan) = [0, 1, 2, 3, 4, 5, 6, 7, 8, 9]"
    by (simp add: en toy_curve_def)
  have cs: "confirm_stock (toy_vendor c) [0, Suc 0, 2, 3, 4, 5, 6, 7, 8, 9] (clear_bins q, 0) = None" for c
    by (simp add: confirm_stock_def toy_vendor_def clear_bins_def is_i32_def read_core_voltage_lock_mv_def
        read_core_voltage_locks_def)
  have clk: "lock_core_clock_max_mhz (toy_vendor c) 1900 g = (Inr (), g)" for g c
    by (simp add: lock_core_clock_max_mhz_def drv_of_def toy_vendor_def)
  show ?thesis
    using that unfolding write_and_verify_def w prod.case sum.case f2_verify_tol_mhz_def ver idx Let_def
    by (cases b) (simp_all add: reset_and_confirm_def toy_reset_to_stock cs clk Let_def)
qed

lemma toy_apply:
  "\<exists>g'. apply_anchored_undervolt (toy_vendor b) (\<lambda>g. g) 20 1900 850 stock_card =
     (if b then Inl (VerifyRejected AnchorRaiseIncomplete, None) else Inr (), g') \<and>
     (\<not> b \<longrightarrow> snd g' = 850000)"
proof -
  have "clear_bins (\<lambda>_. 0) 6 = 0" by (simp add: clear_bins_def)
  moreover have "toy_curve \<noteq> []" by (simp add: toy_curve_def)
  ultimately show ?thesis
    using toy_write_and_verify [of b "clear_bins (\<lambda>_. 0)" 850000]
    by (cases b) (simp_all add: apply_anchored_undervolt_def stock_card_def toy_reset_all toy_curves toy_sane
        toy_boost toy_anchor toy_lock Let_def)
qed

section \<open>Properties\<close>

definition stock_curve_of :: "'g vendor \<Rightarrow> 'g \<Rightarrow> vf_curve" where
  "stock_curve_of v g = f2_sane_curve (read_vf_base_curve_modern v (snd (reset_all v g)))"

text \<open>C14: an anchored apply that succeeds has, in this order, locked exactly the requested voltage and read
  the lock back while the device was still in its reset state, written nothing but points of the curve,
  seen the device hold the point, whatever the driver made of the writes, and had the clock ceiling at the
  target accepted as its last write. Held means: the anchor is a bin of exactly the requested voltage,
  every bin reads back at most 15 MHz over the target, no other bin is raised by more, and the anchor is
  within 15 MHz of the target.\<close>

theorem undervolt_apply_holds:
  assumes "apply_anchored_undervolt v settle polls target anchor_mv g = (Inr u, g')"
    and "i32_points v" and "is_u32 target"
  shows "\<exists>anchor entry locked written.
    anchor \<in> pt_index ` {p \<in> set (stock_curve_of v g). pt_mv p = anchor_mv \<and> pt_mhz p < target} \<and>
    lock_core_voltage_verified v settle polls anchor_mv (snd (reset_all v g)) = (Inr (), locked) \<and>
    read_core_voltage_locks v locked = Inr [(entry, anchor_mv)] \<and>
    point_writes v locked written \<and> holds_ceiling v (stock_curve_of v g) anchor target written \<and>
    lock_core_clock_max_mhz v target written = (Inr (), g') \<and> target \<le> 3500"
proof -
  define sane where "sane = stock_curve_of v g"
  obtain g1 g2 boost anchor where r: "snd (reset_all v g) = g1"
    and b: "f2_stock_clock_ceiling (read_vf_curve_modern v g1) = Inr boost"
    and sel: "select_exact_apply_anchor_bin sane target anchor_mv = Some anchor"
    and lk: "lock_core_voltage_verified v settle polls anchor_mv g1 = (Inr (), g2)"
    and w: "write_and_verify v sane anchor target (hardware_limits sane boost) g2 = (Inr u, g')"
    using assms(1)
    by (auto simp: apply_anchored_undervolt_def sane_def stock_curve_of_def reset_and_confirm_def Let_def
        split: sum.splits prod.splits if_splits option.splits)
  have dist: "distinct (map pt_index sane)"
    by (simp add: sane_def stock_curve_of_def read_vf_base_curve_modern_def distinct_sane)
  have top: "clock_ceiling_mhz (hardware_limits sane boost) \<le> 3500"
    using boost_bound [OF b] by (simp add: hardware_limits_def limits_hardware_frontier_def Let_def)
  note W = write_and_verify_ok [OF w assms(2) dist assms(3) top]
  obtain entry where locked: "read_core_voltage_locks v g2 = Inr [(entry, anchor_mv)]"
    using lock_verified_ok [OF lk] by blast
  have "anchor \<in> pt_index ` {p \<in> set sane. pt_mv p = anchor_mv \<and> pt_mhz p < target}"
  proof -
    obtain p where p: "find (\<lambda>p. pt_mv p = anchor_mv \<and> pt_mhz p < target) sane = Some p" "anchor = pt_index p"
      using sel by (auto simp: select_exact_apply_anchor_bin_def)
    from find_SomeD [OF p(1)] p(2) show ?thesis by (intro image_eqI [of _ _ p]) simp_all
  qed
  then show ?thesis using W locked lk r unfolding sane_def by blast
qed

theorem undervolt_apply_holds_witness:
  "\<exists>g' anchor entry locked written.
     apply_anchored_undervolt (toy_vendor False) (\<lambda>g. g) 20 1900 850 stock_card = (Inr (), g') \<and>
     read_core_voltage_locks (toy_vendor False) locked = Inr [(entry, 850)] \<and>
     holds_ceiling (toy_vendor False) (stock_curve_of (toy_vendor False) stock_card) anchor 1900 written"
proof -
  obtain g' where r: "apply_anchored_undervolt (toy_vendor False) (\<lambda>g. g) 20 1900 850 stock_card = (Inr (), g')"
    using toy_apply [of False] by auto
  have "is_u32 1900" by (simp add: is_u32_def)
  from undervolt_apply_holds [OF r toy_points this] r show ?thesis by blast
qed

text \<open>C15: an anchored apply that fails is closed. Its error is the one of the initial reset, which was then
  the last thing done; or it stopped before any write after a successful initial reset; or a full reset
  came last, and then the error either carries no objection, every bin of the curve reads back at most
  1 MHz and no voltage lock is active, or it names what the device was found not to have cleared: the
  first bin that reads otherwise or not at all, or, when all bins are clear, the lock.\<close>

theorem undervolt_apply_fails_closed:
  assumes "apply_anchored_undervolt v settle polls target anchor_mv g = (Inl (reason, u), g')"
  shows "(\<exists>e. reason = PreResetFailed e \<and> u = None \<and> reset_all v g = (Inl e, g')) \<or>
    (reason \<in> {NoSaneBase, AnchorUnavailable anchor_mv} \<union> range ClockDomain \<and> u = None \<and>
      reset_all v g = (Inr (), g')) \<or>
    ((\<exists>g0. g' = reset_to_stock v g0) \<and> objects v (pt_index ` set (stock_curve_of v g)) g' u)"
proof (cases "reset_all v g")
  case (Pair r g1)
  show ?thesis
  proof (cases r)
    case (Inl e)
    then show ?thesis using assms Pair by (simp add: apply_anchored_undervolt_def)
  next
    case (Inr w)
    define sane where "sane = stock_curve_of v g"
    have sane: "f2_sane_curve (read_vf_base_curve_modern v g1) = sane"
      by (simp add: sane_def stock_curve_of_def Pair)
    consider "reason \<in> {NoSaneBase, AnchorUnavailable anchor_mv} \<union> range ClockDomain" "u = None" "g' = g1"
      | e g2 where "reset_and_confirm v (map pt_index sane) (VoltageLock e) g2 = (Inl (reason, u), g')"
      | anchor lims g2 where "write_and_verify v sane anchor target lims g2 = (Inl (reason, u), g')"
      using assms Pair Inr
      by (auto simp: apply_anchored_undervolt_def sane Let_def
          split: sum.splits prod.splits if_splits option.splits)
    then show ?thesis
    proof cases
      case 1
      then show ?thesis using Pair Inr by simp
    next
      case 2
      from reset_and_confirm_closes [OF this, of sane] show ?thesis by (simp add: closed_by_reset_def sane_def)
    next
      case 3
      from write_and_verify_err [OF this] show ?thesis by (simp add: closed_by_reset_def sane_def)
    qed
  qed
qed

theorem undervolt_apply_fails_closed_witness:
  "\<exists>g'. apply_anchored_undervolt (toy_vendor True) (\<lambda>g. g) 20 1900 850 stock_card =
       (Inl (VerifyRejected AnchorRaiseIncomplete, None), g') \<and>
     (\<forall>p\<in>set (stock_curve_of (toy_vendor True) stock_card).
        near_zero (ven_get_point (toy_vendor True) (pt_index p) g')) \<and>
     read_core_voltage_lock_mv (toy_vendor True) g' = Inr None"
proof -
  obtain g' where r: "apply_anchored_undervolt (toy_vendor True) (\<lambda>g. g) 20 1900 850 stock_card =
      (Inl (VerifyRejected AnchorRaiseIncomplete, None), g')"
    using toy_apply [of True] by auto
  from undervolt_apply_fails_closed [OF r] r show ?thesis by auto
qed

end
