(* ===== verification/Jsonl.thy ===== *)
theory Jsonl
  imports Store
begin

text \<open>
  Line-based append-only logs, the shape that \<open>F2ObservationStore\<close> of
  \<open>crates/core/src/f2_observation.rs\<close> and \<open>CondemnationLedger\<close> of
  \<open>crates/core/src/condemnation.rs\<close> share: one JSON document per line, appended with a line feed and
  read back line by line, lines that do not parse passed over. The locale \<open>append_log\<close> is what the
  learning relies on: on an intact log an append adds exactly its entry at the end.
\<close>

section \<open>String functions of the standard library\<close>

text \<open>\<open>trim_start_matches\<close> removes every leading byte-order mark, \<open>strip_bom\<close> of the store only one.\<close>

function trim_boms :: "string \<Rightarrow> string" where
  "trim_boms s = (if prefix bom s then trim_boms (drop (length bom) s) else s)"
  by auto

termination trim_boms
proof (relation "measure length")
  fix s :: string assume "prefix bom s"
  then have "length bom \<le> length s" by (rule prefix_length_le)
  moreover have "length bom = 3" by (simp add: bom_def)
  ultimately show "(drop (length bom) s, s) \<in> measure length" by simp
qed simp

declare trim_boms.simps [simp del]

text \<open>The white space of Unicode in UTF-8.\<close>

definition white_space :: "string list" where
  "white_space =
     [[CHR 0x09], [CHR 0x0A], [CHR 0x0B], [CHR 0x0C], [CHR 0x0D], [CHR 0x20], [CHR 0xC2, CHR 0x85],
      [CHR 0xC2, CHR 0xA0], [CHR 0xE1, CHR 0x9A, CHR 0x80], [CHR 0xE2, CHR 0x80, CHR 0x80],
      [CHR 0xE2, CHR 0x80, CHR 0x81], [CHR 0xE2, CHR 0x80, CHR 0x82],
      [CHR 0xE2, CHR 0x80, CHR 0x83], [CHR 0xE2, CHR 0x80, CHR 0x84],
      [CHR 0xE2, CHR 0x80, CHR 0x85], [CHR 0xE2, CHR 0x80, CHR 0x86],
      [CHR 0xE2, CHR 0x80, CHR 0x87], [CHR 0xE2, CHR 0x80, CHR 0x88],
      [CHR 0xE2, CHR 0x80, CHR 0x89], [CHR 0xE2, CHR 0x80, CHR 0x8A],
      [CHR 0xE2, CHR 0x80, CHR 0xA8], [CHR 0xE2, CHR 0x80, CHR 0xA9],
      [CHR 0xE2, CHR 0x80, CHR 0xAF], [CHR 0xE2, CHR 0x81, CHR 0x9F],
      [CHR 0xE3, CHR 0x80, CHR 0x80]]"

lemma white_space_nonempty: "w \<in> set white_space \<Longrightarrow> w \<noteq> []"
  by (auto simp: white_space_def)

function trim_start :: "string \<Rightarrow> string" where
  "trim_start s =
     (case find (\<lambda>w. prefix w s) white_space of None \<Rightarrow> s | Some w \<Rightarrow> trim_start (drop (length w) s))"
  by auto

termination trim_start
proof (relation "measure length")
  fix s w assume "find (\<lambda>w. prefix w s) white_space = Some w"
  then have "prefix w s" "w \<noteq> []" by (auto simp: find_Some_iff white_space_nonempty)
  then show "(drop (length w) s, s) \<in> measure length" by (auto simp: prefix_def)
qed simp

function trim_end :: "string \<Rightarrow> string" where
  "trim_end s =
     (case find (\<lambda>w. suffix w s) white_space of
        None \<Rightarrow> s | Some w \<Rightarrow> trim_end (take (length s - length w) s))"
  by auto

termination trim_end
proof (relation "measure length")
  fix s w assume "find (\<lambda>w. suffix w s) white_space = Some w"
  then have "suffix w s" "w \<noteq> []" by (auto simp: find_Some_iff white_space_nonempty)
  then show "(take (length s - length w) s, s) \<in> measure length" by (auto simp: suffix_def)
qed simp

declare trim_start.simps [simp del] trim_end.simps [simp del]

definition trim :: "string \<Rightarrow> string" where
  "trim s = trim_end (trim_start s)"

definition line_feed :: char where "line_feed = CHR 0x0A"
definition carriage_return :: char where "carriage_return = CHR 0x0D"

text \<open>\<open>str::lines\<close>: a line ends in a line feed or in a carriage return and a line feed.\<close>

fun text_lines :: "string \<Rightarrow> string list" where
  "text_lines [] = []"
| "text_lines (c # s) =
     (if c = line_feed then [] # text_lines s
      else if c = carriage_return \<and> s \<noteq> [] \<and> hd s = line_feed then text_lines s
      else case text_lines s of [] \<Rightarrow> [[c]] | l # ls \<Rightarrow> (c # l) # ls)"

section \<open>Logs\<close>

definition fs_append :: "string \<Rightarrow> string \<Rightarrow> disk \<Rightarrow> (io_error, unit) result \<times> disk" where
  "fs_append n c d = fs_write n (unwrap_or (files d n) [] @ c) d"

definition append_line :: "string \<Rightarrow> 'a codec \<Rightarrow> 'a \<Rightarrow> disk \<Rightarrow> (io_error, unit) result \<times> disk" where
  "append_line n c x d =
     (case fs_create_dir d of
        Inl e \<Rightarrow> (Inl e, d)
      | Inr _ \<Rightarrow>
          (case enc c x of
             None \<Rightarrow> (Inl InvalidData, d)
           | Some line \<Rightarrow> fs_append n (line @ [line_feed]) d))"

definition parse_lines :: "(string \<Rightarrow> 'a option) \<Rightarrow> string \<Rightarrow> 'a list" where
  "parse_lines p data = List.map_filter p (text_lines data)"

definition load_lines :: "string \<Rightarrow> (string \<Rightarrow> 'a option) \<Rightarrow> disk \<Rightarrow> 'a list" where
  "load_lines n p d = (case fs_read n d of Inl _ \<Rightarrow> [] | Inr data \<Rightarrow> parse_lines p data)"

section \<open>Lemmas\<close>

lemma text_lines_plain:
  "line_feed \<notin> set s \<Longrightarrow> s \<noteq> [] \<Longrightarrow> text_lines s = [s]"
proof (induction s)
  case (Cons c s)
  then show ?case by (cases "s = []") (auto dest: list.set_sel(1))
qed simp

lemma text_lines_line:
  assumes "line_feed \<notin> set s" and "s = [] \<or> last s \<noteq> carriage_return"
  shows "text_lines (s @ line_feed # t) = s # text_lines t"
  using assms
proof (induction s)
  case (Cons c s)
  have "hd s \<noteq> line_feed" if "s \<noteq> []" using Cons.prems(1) hd_in_set [OF that] by auto
  with Cons show ?case by (cases "s = []") auto
qed simp

lemma line_ends [simp]: "line_feed \<noteq> carriage_return" "carriage_return \<noteq> line_feed"
  by (simp_all add: line_feed_def carriage_return_def)

lemma text_lines_nonempty: "text_lines (s @ [line_feed]) \<noteq> []"
proof (induction s)
  case (Cons c s)
  then show ?case by (auto split: list.splits)
qed simp

lemma text_lines_append:
  "text_lines ((s @ [line_feed]) @ t) = text_lines (s @ [line_feed]) @ text_lines t"
proof (induction s)
  case (Cons c s)
  with text_lines_nonempty [of s] show ?case by (cases s) (auto split: list.splits)
qed simp

text \<open>A log is intact when it is absent or ends in a line feed.\<close>

definition log_intact :: "string \<Rightarrow> disk \<Rightarrow> bool" where
  "log_intact n d \<longleftrightarrow>
     (case files d n of None \<Rightarrow> True | Some s \<Rightarrow> s = [] \<or> last s = line_feed) \<and> \<not> unreadable d n"

text \<open>
  What \<open>serde_json::to_string\<close> promises of a structure: braces around it, no raw line break inside,
  and the parser reads it back.
\<close>

definition json_line :: "string \<Rightarrow> bool" where
  "json_line s \<longleftrightarrow>
     (\<exists>t. s = CHR ''{'' # t @ ''}'') \<and> line_feed \<notin> set s \<and> carriage_return \<notin> set s"

definition line_codec :: "'a codec \<Rightarrow> bool" where
  "line_codec c \<longleftrightarrow> (\<forall>x s. enc c x = Some s \<longrightarrow> json_line s \<and> dec c s = Some x)"

lemma trim_ends:
  assumes "s \<noteq> []" and "hd s \<notin> hd ` set white_space" and "last s \<notin> last ` set white_space"
  shows "trim s = s"
proof -
  have "\<not> prefix w s" if "w \<in> set white_space" for w
    using assms(2) that white_space_nonempty [OF that] by (auto simp: prefix_def)
  then have "find (\<lambda>w. prefix w s) white_space = None" by (auto simp: find_None_iff)
  then have "trim_start s = s" by (simp add: trim_start.simps [of s])
  have "\<not> suffix w s" if "w \<in> set white_space" for w
    using assms(3) that white_space_nonempty [OF that] by (auto simp: suffix_def)
  then have "find (\<lambda>w. suffix w s) white_space = None" by (auto simp: find_None_iff)
  then have "trim_end s = s" by (simp add: trim_end.simps [of s])
  with \<open>trim_start s = s\<close> show ?thesis by (simp add: trim_def)
qed

lemma json_line_trim:
  assumes "json_line s"
  shows "trim_boms s = s" "trim s = s" "s \<noteq> []"
proof -
  obtain t where s: "s = CHR ''{'' # t @ ''}''" using assms by (auto simp: json_line_def)
  show "trim s = s" by (rule trim_ends) (simp_all add: s white_space_def)
  have "\<not> prefix bom s" by (simp add: s bom_def)
  then show "trim_boms s = s" by (simp add: trim_boms.simps [of s])
  show "s \<noteq> []" by (simp add: s)
qed

text \<open>The parser only has to agree with the codec on such lines.\<close>

lemma append_line_load:
  assumes c: "line_codec c" and p: "\<And>s. json_line s \<Longrightarrow> p s = dec c s" and i: "log_intact n d"
    and ok: "fst (append_line n c x d) = Inr ()"
  shows "load_lines n p (snd (append_line n c x d)) = load_lines n p d @ [x] \<and>
    log_intact n (snd (append_line n c x d))"
proof -
  obtain line where l: "enc c x = Some line" "\<not> dir_refused d" "\<not> refused d n"
    using ok by (auto simp: append_line_def fs_append_def fs_defs split: option.splits if_splits)
  then have j: "json_line line" "dec c line = Some x" using c by (auto simp: line_codec_def)
  define old where "old = unwrap_or (files d n) []"
  have after: "snd (append_line n c x d) = d\<lparr>files := (files d)(n \<mapsto> old @ line @ [line_feed])\<rparr>"
    using l by (simp add: append_line_def fs_append_def fs_defs old_def)
  have "old = [] \<or> (\<exists>s. old = s @ [line_feed])"
  proof (cases "old = []")
    case False
    then have "last old = line_feed" using i by (auto simp: log_intact_def old_def split: option.splits)
    with False show ?thesis by (metis append_butlast_last_id)
  qed simp
  moreover have "text_lines (line @ [line_feed]) = [line]"
    using text_lines_line [of line "[]"] j(1) by (auto simp: json_line_def)
  ultimately have "text_lines (old @ line @ [line_feed]) = text_lines old @ [line]"
    using text_lines_append [of _ "line @ [line_feed]"] by auto
  then have "parse_lines p (old @ line @ [line_feed]) = parse_lines p old @ [x]"
    using p [OF j(1)] j(2) by (simp add: parse_lines_def List.map_filter_def)
  moreover have "load_lines n p d = parse_lines p old"
    using i by (auto simp: load_lines_def fs_read_def log_intact_def old_def parse_lines_def
        List.map_filter_def split: option.splits)
  moreover have "\<not> unreadable d n" using i by (simp add: log_intact_def)
  ultimately show ?thesis
    by (simp add: after load_lines_def fs_read_def log_intact_def)
qed

lemma append_line_err: "fst (append_line n c x d) = Inl e \<Longrightarrow> snd (append_line n c x d) = d"
  by (auto simp: append_line_def fs_append_def fs_defs split: option.splits if_splits)

lemma append_line_frame: "n \<noteq> m \<Longrightarrow> fs_read m (snd (append_line n c x d)) = fs_read m d"
  by (auto simp: append_line_def fs_append_def fs_defs split: option.splits)

section \<open>The interface\<close>

locale append_log =
  fixes add :: "'x \<Rightarrow> 'd \<Rightarrow> ('e, unit) result \<times> 'd"
    and load :: "'d \<Rightarrow> 'x list"
    and intact :: "'d \<Rightarrow> bool"
  assumes add_ok: "intact d \<Longrightarrow> fst (add x d) = Inr () \<Longrightarrow> load (snd (add x d)) = load d @ [x]"
    and add_err: "fst (add x d) = Inl e \<Longrightarrow> snd (add x d) = d"
    and add_intact: "intact d \<Longrightarrow> intact (snd (add x d))"
begin

text \<open>A run of appends, the refused ones dropped.\<close>

definition add_all :: "'x list \<Rightarrow> 'd \<Rightarrow> 'd" where
  "add_all xs d = fold (\<lambda>x d. snd (add x d)) xs d"

lemma add_load: "intact d \<Longrightarrow> load (snd (add x d)) = load d \<or> load (snd (add x d)) = load d @ [x]"
proof (cases "fst (add x d)")
  case (Inr u)
  then show ?thesis if "intact d" using add_ok [OF that] by simp
qed (simp add: add_err)

lemma add_all_prefix:
  "intact d \<Longrightarrow> intact (add_all xs d) \<and>
     (\<exists>ys. load (add_all xs d) = load d @ ys \<and> subseq ys xs)"
proof (induction xs arbitrary: d)
  case (Cons x xs)
  have i: "intact (snd (add x d))" by (rule add_intact [OF Cons.prems])
  from Cons.IH [OF i] obtain ys where ys: "intact (add_all xs (snd (add x d)))"
    "load (add_all xs (snd (add x d))) = load (snd (add x d)) @ ys" "subseq ys xs" by blast
  have eq: "add_all (x # xs) d = add_all xs (snd (add x d))" by (simp add: add_all_def)
  from add_load [OF Cons.prems, of x] show ?case
  proof
    assume "load (snd (add x d)) = load d"
    then show ?thesis using ys by (auto simp: eq)
  next
    assume "load (snd (add x d)) = load d @ [x]"
    then show ?thesis using ys by (auto simp: eq intro!: exI [of _ "x # ys"])
  qed
qed (simp add: add_all_def)

end

text \<open>Every line log whose parser agrees with the codec on the lines the codec writes is one.\<close>

lemma line_log:
  assumes "\<And>s. json_line s \<Longrightarrow> p s = dec c s"
  shows "append_log (append_line n c) (load_lines n p) (\<lambda>d. line_codec c \<and> log_intact n d)"
proof
  show "load_lines n p (snd (append_line n c x d)) = load_lines n p d @ [x]"
    if "line_codec c \<and> log_intact n d" "fst (append_line n c x d) = Inr ()" for d x
    using append_line_load [of c p n d x] assms that by blast
  show "snd (append_line n c x d) = d" if "fst (append_line n c x d) = Inl e" for x d e
    using that by (rule append_line_err)
  show "line_codec c \<and> log_intact n (snd (append_line n c x d))"
    if "line_codec c \<and> log_intact n d" for d x
  proof (cases "fst (append_line n c x d)")
    case (Inl e)
    with that append_line_err [of n c x d e] show ?thesis by simp
  next
    case (Inr u)
    with that append_line_load [of c p n d x] assms show ?thesis by simp
  qed
qed

end
