(* ===== verification/F2Observation.thy ===== *)
theory F2Observation
  imports Jsonl VfVerify
begin

text \<open>
  The evidence log of \<open>crates/core/src/f2_observation.rs\<close>: what an F2 attempt recorded, which records
  count as evidence under the current contracts, and what is derived from them: the deepest good and
  the shallowest bad voltage of a clock, the bracket, the resume baseline, the physical and the
  publishable frontier, and the power of an exact Apply pair. The confidence of a frontier entry is a
  power of a double, computed by the standard library; it is the argument \<open>conf\<close> of the definitions that
  carry it.
\<close>

section \<open>Evidence\<close>

definition f2_discovery_contract_version :: u32 where "f2_discovery_contract_version = 6"
definition f2_qualification_contract_version :: u32 where "f2_qualification_contract_version = 25"

datatype f2_evidence_kind = Legacy | Discovery | Qualification | ApplyQualification

record f2_provenance =
  pv_build_version :: "string option"
  pv_build_revision :: "string option"
  pv_workload_fingerprint :: "string option"
  pv_render_backend :: "string option"
  pv_adapter_name :: "string option"
  pv_driver_name :: "string option"
  pv_driver_info :: "string option"
  pv_checksum_method :: "string option"
  pv_golden_config :: "string option"

definition present :: "string option \<Rightarrow> bool" where
  "present x = is_some_and x (\<lambda>s. trim s \<noteq> [])"

definition is_reproducible :: "f2_provenance \<Rightarrow> bool" where
  "is_reproducible p \<longleftrightarrow>
     present (pv_build_version p) \<and> present (pv_build_revision p) \<and>
     present (pv_workload_fingerprint p) \<and> present (pv_render_backend p) \<and>
     present (pv_adapter_name p) \<and> (present (pv_driver_name p) \<or> present (pv_driver_info p)) \<and>
     present (pv_checksum_method p) \<and> present (pv_golden_config p)"

datatype qualification_verdict = QPass | QFail | QInconclusive
datatype qualification_strength = Fsgl1 | Fsgl2 | Fsgl3 | Fsgl4

datatype qualification_pattern =
  PatA | PatB | HighFps | Texture | Transitions | Memory | Endurance | TransitionShock | Dx11Game

definition required_qualification_patterns :: "qualification_pattern list" where
  "required_qualification_patterns = [Texture]"

fun position :: "('a \<Rightarrow> bool) \<Rightarrow> 'a list \<Rightarrow> nat option" where
  "position p [] = None"
| "position p (x # xs) = (if p x then Some 0 else map_option Suc (position p xs))"

definition required_pattern_index :: "qualification_pattern \<Rightarrow> nat option" where
  "required_pattern_index pat = position (\<lambda>r. r = pat) required_qualification_patterns"

record phase_metric =
  pm_phase_name :: string
  pm_phase_pattern :: string
  pm_duration_ms :: u64
  pm_frame_count :: u64
  pm_checksum_count :: u32
  pm_compute_check_count :: u32
  pm_clock_avg :: "f32 option"
  pm_clock_p5 :: "u32 option"
  pm_clock_p50 :: "u32 option"
  pm_clock_p95 :: "u32 option"
  pm_target_residency_pct :: "f32 option"
  pm_power_avg :: "f32 option"
  pm_power_p95 :: "f32 option"
  pm_power_capped_fraction :: "f32 option"
  pm_temperature_avg :: "f32 option"
  pm_temperature_max :: "f32 option"
  pm_coverage_status :: string

record f2_coverage =
  cv_strength :: qualification_strength
  cv_pattern :: "qualification_pattern option"
  cv_pass_index :: u32
  cv_verdict :: qualification_verdict
  cv_phases_completed :: u32
  cv_phases_expected :: u32
  cv_checksum_count :: u32
  cv_sample_count :: u32
  cv_compute_check_count :: u32
  cv_target_residency_frac :: "f32 option"
  cv_heavy_light_power_delta_w :: "f32 option"
  cv_failure_phase :: "string option"
  cv_retry_count :: u32
  cv_reason :: "string option"
  cv_phase_metrics :: "phase_metric list"

datatype f2_obs_mode =
  DefaultProgressive | ManualPrior | TargetSweep | LadderSweep | ApplyQualificationRun

datatype f2_obs_verifier =
  ObsRaiseVerified | ObsRaiseIncomplete | ObsOverRaise | ObsUnverifiable | VerifyNotRun

datatype f2_obs_dwell =
  DwStable | DwSilentError | DwUnstable | DwDeviceLost | DwClockDrop
| DwPowerTelemetryInconclusive | DwQualificationInconclusive | DwNotRun

datatype f2_obs_outcome =
  ObValidated | ObRejectedByPlanner | ObVerifierFailed | ObSilentError | ObUnstable | ObDeviceLost
| ObPowerBoundClockDrop | ObClockDrop | ObPowerTelemetryInconclusive | ObQualificationInconclusive
| ObResetFailed | ObBlacklisted | ObCrashOrRecovery | ObAbortedBySafetyGate

definition is_validated :: "f2_obs_outcome \<Rightarrow> bool" where
  "is_validated oc \<longleftrightarrow> oc = ObValidated"

definition is_bad :: "f2_obs_outcome \<Rightarrow> bool" where
  "is_bad oc \<longleftrightarrow>
     oc \<in> {ObVerifierFailed, ObSilentError, ObUnstable, ObDeviceLost, ObClockDrop, ObResetFailed,
           ObBlacklisted, ObCrashOrRecovery}"

definition is_safety_failure :: "f2_obs_outcome \<Rightarrow> bool" where
  "is_safety_failure oc \<longleftrightarrow> oc \<in> {ObDeviceLost, ObResetFailed, ObCrashOrRecovery}"

record f2_observation =
  fo_run_id :: string
  fo_timestamp :: string
  fo_gpu_key :: "string option"
  fo_evidence_kind :: f2_evidence_kind
  fo_discovery_contract :: "u32 option"
  fo_qualification_contract :: "u32 option"
  fo_coverage :: "f2_coverage option"
  fo_provenance :: "f2_provenance option"
  fo_mode :: f2_obs_mode
  fo_target_mhz :: u32
  fo_requested_start_mv :: "u32 option"
  fo_anchor_mv :: u32
  fo_base_mhz :: u32
  fo_offset_mhz :: i32
  fo_positive_offset_cap_mhz :: i32
  fo_higher_bins_capped :: u32
  fo_max_flatten_mhz :: i32
  fo_lower_bins_elastic :: u32
  fo_verifier_result :: f2_obs_verifier
  fo_dwell_result :: f2_obs_dwell
  fo_avg_clock_mhz :: "u32 option"
  fo_sustained_clock_mhz :: "u32 option"
  fo_sustained_upper_clock_mhz :: "u32 option"
  fo_watts :: "u32 option"
  fo_max_watts :: "u32 option"
  fo_power_p99_w :: "f32 option"
  fo_power_p99_confirmed :: bool
  fo_power_p99_attempts :: u32
  fo_measured_voltage_min_mv :: "u32 option"
  fo_measured_voltage_avg_mv :: "u32 option"
  fo_measured_voltage_max_mv :: "u32 option"
  fo_measured_voltage_sample_count :: u32
  fo_render_frames :: "u64 option"
  fo_render_fps :: "f64 option"
  fo_power_capped_frac :: "f32 option"
  fo_max_temp_c :: "f32 option"
  fo_thermal_throttled :: bool
  fo_dwell_duration_ms :: "u64 option"
  fo_sample_count :: "u32 option"
  fo_silent_error :: bool
  fo_device_lost :: bool
  fo_unstable :: bool
  fo_clock_drop :: bool
  fo_tdr_or_crash :: bool
  fo_reset_attempted :: bool
  fo_reset_ok :: bool
  fo_boot_flag_cleared :: bool
  fo_blacklisted :: bool
  fo_outcome :: f2_obs_outcome
  fo_confidence :: "f64 option"
  fo_notes :: "string option"

section \<open>Good, bad and the bracket\<close>

record voltage_bracket =
  vb_first_bad_mv :: u32
  vb_last_good_mv :: u32
  vb_width_mv :: u32

definition has_proven_cleanup :: "f2_observation \<Rightarrow> bool" where
  "has_proven_cleanup ob \<longleftrightarrow> fo_reset_ok ob \<and> fo_boot_flag_cleared ob"

definition has_reproducible_provenance :: "f2_observation \<Rightarrow> bool" where
  "has_reproducible_provenance ob = is_some_and (fo_provenance ob) is_reproducible"

definition is_current_discovery_evidence :: "f2_observation \<Rightarrow> bool" where
  "is_current_discovery_evidence ob \<longleftrightarrow>
     fo_evidence_kind ob = Discovery \<and>
     fo_discovery_contract ob = Some f2_discovery_contract_version \<and>
     fo_power_p99_confirmed ob \<and> has_proven_cleanup ob \<and> has_reproducible_provenance ob"

definition is_required_qualification_pattern :: "qualification_pattern \<Rightarrow> bool" where
  "is_required_qualification_pattern pat \<longleftrightarrow> required_pattern_index pat \<noteq> None"

definition is_current_qualification_pass :: "f2_observation \<Rightarrow> bool" where
  "is_current_qualification_pass ob \<longleftrightarrow>
     fo_evidence_kind ob = Qualification \<and>
     fo_qualification_contract ob = Some f2_qualification_contract_version \<and>
     is_validated (fo_outcome ob) \<and> has_proven_cleanup ob \<and> has_reproducible_provenance ob \<and>
     is_some_and (fo_coverage ob) (\<lambda>c. cv_strength c = Fsgl4 \<and>
       is_some_and (cv_pattern c) is_required_qualification_pattern \<and> cv_verdict c = QPass)"

definition is_current_apply_qualification_evidence :: "f2_observation \<Rightarrow> bool" where
  "is_current_apply_qualification_evidence ob \<longleftrightarrow>
     fo_evidence_kind ob = ApplyQualification \<and>
     fo_qualification_contract ob = Some f2_qualification_contract_version \<and>
     is_validated (fo_outcome ob) \<and> has_proven_cleanup ob \<and> has_reproducible_provenance ob \<and>
     is_some_and (fo_coverage ob) (\<lambda>c. cv_strength c = Fsgl4 \<and> cv_pattern c \<noteq> None \<and> cv_verdict c = QPass)"

definition coverage_pattern :: "f2_observation \<Rightarrow> qualification_pattern option" where
  "coverage_pattern ob = opt_bind (fo_coverage ob) cv_pattern"

definition is_current_apply_qualification_pass :: "f2_observation \<Rightarrow> bool" where
  "is_current_apply_qualification_pass ob \<longleftrightarrow>
     is_current_apply_qualification_evidence ob \<and>
     is_some_and (coverage_pattern ob) is_required_qualification_pattern"

definition is_known_failure :: "u32 \<Rightarrow> f2_observation \<Rightarrow> bool" where
  "is_known_failure target ob \<longleftrightarrow>
     fo_target_mhz ob = target \<and> fo_evidence_kind ob \<noteq> ApplyQualification \<and> is_bad (fo_outcome ob)"

definition first_bad_for_target :: "f2_observation list \<Rightarrow> u32 \<Rightarrow> f2_observation option" where
  "first_bad_for_target obs target = max_by_key fo_anchor_mv (filter (is_known_failure target) obs)"

definition above_first_bad :: "f2_observation list \<Rightarrow> u32 \<Rightarrow> f2_observation \<Rightarrow> bool" where
  "above_first_bad obs target ob =
     is_none_or (map_option fo_anchor_mv (first_bad_for_target obs target)) (\<lambda>bad. fo_anchor_mv ob > bad)"

definition last_good_for_target :: "f2_observation list \<Rightarrow> u32 \<Rightarrow> f2_observation option" where
  "last_good_for_target obs target =
     min_by_key fo_anchor_mv
       (filter (above_first_bad obs target)
         (filter (\<lambda>ob. fo_target_mhz ob = target \<and> is_validated (fo_outcome ob)) obs))"

definition last_discovery_good_for_target :: "f2_observation list \<Rightarrow> u32 \<Rightarrow> f2_observation option" where
  "last_discovery_good_for_target obs target =
     min_by_key fo_anchor_mv
       (filter (above_first_bad obs target)
         (filter (\<lambda>ob. fo_target_mhz ob = target \<and> is_validated (fo_outcome ob) \<and>
                       is_current_discovery_evidence ob) obs))"

definition bracket_for_target :: "f2_observation list \<Rightarrow> u32 \<Rightarrow> voltage_bracket option" where
  "bracket_for_target obs target =
     opt_bind (last_good_for_target obs target) (\<lambda>good.
     opt_bind (first_bad_for_target obs target) (\<lambda>bad.
       if fo_anchor_mv good > fo_anchor_mv bad
       then Some \<lparr>vb_first_bad_mv = fo_anchor_mv bad, vb_last_good_mv = fo_anchor_mv good,
                  vb_width_mv = u32_sub (fo_anchor_mv good) (fo_anchor_mv bad)\<rparr>
       else None))"

definition is_known_bad :: "f2_observation list \<Rightarrow> u32 \<Rightarrow> u32 \<Rightarrow> bool" where
  "is_known_bad obs target mv \<longleftrightarrow> (\<exists>ob\<in>set obs. is_known_failure target ob \<and> fo_anchor_mv ob \<ge> mv)"

definition validated_descent_baseline ::
  "f2_observation list \<Rightarrow> u32 \<Rightarrow> string option \<Rightarrow> f2_observation option" where
  "validated_descent_baseline obs target gpu =
     min_by_key fo_anchor_mv
       (filter (\<lambda>ob. case gpu of Some k \<Rightarrow> fo_gpu_key ob = Some k | None \<Rightarrow> True)
         (filter (\<lambda>ob. \<not> fo_device_lost ob \<and> \<not> fo_unstable ob \<and> \<not> fo_silent_error ob \<and> \<not> fo_clock_drop ob)
           (filter (\<lambda>ob. fo_reset_ok ob \<and> fo_boot_flag_cleared ob)
             (filter (\<lambda>ob. fo_target_mhz ob = target \<and> is_validated (fo_outcome ob)) obs))))"

section \<open>The frontier\<close>

record f2_frontier_entry =
  fe_target_mhz :: u32
  fe_best_anchor_mv :: u32
  fe_offset_mhz :: i32
  fe_watts :: "u32 option"
  fe_max_watts :: "u32 option"
  fe_power_p99_w :: "f32 option"
  fe_avg_clock_mhz :: "u32 option"
  fe_sustained_clock_mhz :: "u32 option"
  fe_sustained_upper_clock_mhz :: "u32 option"
  fe_power_capped_frac :: "f32 option"
  fe_dwell_duration_ms :: "u64 option"
  fe_sample_count :: "u32 option"
  fe_max_temp_c :: "f32 option"
  fe_thermal_throttled :: bool
  fe_confidence :: f64
  fe_validation_count :: usize
  fe_first_bad_mv :: "u32 option"
  fe_bracket_width_mv :: "u32 option"
  fe_observation_count :: usize
  fe_last_updated :: string
  fe_safety_notes :: "string option"

definition f2_crash_proximity_min_mv :: u32 where "f2_crash_proximity_min_mv = 12"

definition is_device_loss :: "u32 \<Rightarrow> f2_observation \<Rightarrow> bool" where
  "is_device_loss target ob \<longleftrightarrow>
     fo_target_mhz ob = target \<and> (fo_device_lost ob \<or> fo_outcome ob = ObDeviceLost)"

definition crash_floor_for_target :: "f2_observation list \<Rightarrow> u32 \<Rightarrow> u32 option" where
  "crash_floor_for_target obs target =
     max_by_key (\<lambda>x. x) (map fo_anchor_mv (filter (is_device_loss target) obs))"

definition has_pattern_pass :: "qualification_pattern \<Rightarrow> f2_observation \<Rightarrow> bool" where
  "has_pattern_pass pat ob \<longleftrightarrow> is_current_qualification_pass ob \<and> coverage_pattern ob = Some pat"

definition frontier_entry_from_best ::
  "(f2_observation list \<Rightarrow> f64) \<Rightarrow> f2_observation list \<Rightarrow> u32 \<Rightarrow> f2_observation \<Rightarrow> f2_frontier_entry" where
  "frontier_entry_from_best conf obs target best =
     (let evidence = filter (\<lambda>ob. fo_target_mhz ob = target \<and> is_validated (fo_outcome ob) \<and>
                fo_anchor_mv ob = fo_anchor_mv best \<and>
                (is_current_discovery_evidence ob \<or> is_current_qualification_pass ob)) obs;
          qualified = length (filter (\<lambda>pat. \<exists>ob\<in>set evidence. has_pattern_pass pat ob)
                        required_qualification_patterns)
      in \<lparr>fe_target_mhz = target, fe_best_anchor_mv = fo_anchor_mv best, fe_offset_mhz = fo_offset_mhz best,
          fe_watts = fo_watts best, fe_max_watts = fo_max_watts best,
          fe_power_p99_w = fo_power_p99_w best, fe_avg_clock_mhz = fo_avg_clock_mhz best,
          fe_sustained_clock_mhz = fo_sustained_clock_mhz best,
          fe_sustained_upper_clock_mhz = fo_sustained_upper_clock_mhz best,
          fe_power_capped_frac = fo_power_capped_frac best,
          fe_dwell_duration_ms = fo_dwell_duration_ms best, fe_sample_count = fo_sample_count best,
          fe_max_temp_c = fo_max_temp_c best, fe_thermal_throttled = fo_thermal_throttled best,
          fe_confidence = conf evidence, fe_validation_count = qualified,
          fe_first_bad_mv = map_option fo_anchor_mv (first_bad_for_target obs target),
          fe_bracket_width_mv = map_option vb_width_mv (bracket_for_target obs target),
          fe_observation_count = length (filter (\<lambda>ob. fo_target_mhz ob = target) obs),
          fe_last_updated = fo_timestamp best, fe_safety_notes = None\<rparr>)"

definition discovery_frontier_candidates ::
  "f2_observation list \<Rightarrow> u32 \<Rightarrow> f2_observation list" where
  "discovery_frontier_candidates obs target =
     (let crash_floor = crash_floor_for_target obs target
      in filter (\<lambda>ob. fo_target_mhz ob = target \<and> is_validated (fo_outcome ob) \<and>
           is_current_discovery_evidence ob \<and> above_first_bad obs target ob \<and>
           is_none_or crash_floor
             (\<lambda>crash_mv. fo_anchor_mv ob \<ge> u32_sat_add crash_mv f2_crash_proximity_min_mv)) obs)"

definition frontier_entry_for_target ::
  "(f2_observation list \<Rightarrow> f64) \<Rightarrow> f2_observation list \<Rightarrow> u32 \<Rightarrow> f2_frontier_entry option" where
  "frontier_entry_for_target conf obs target =
     map_option (frontier_entry_from_best conf obs target)
       (min_by_key fo_anchor_mv (discovery_frontier_candidates obs target))"

definition fully_qualified_at :: "f2_observation list \<Rightarrow> u32 \<Rightarrow> u32 \<Rightarrow> bool" where
  "fully_qualified_at obs target mv \<longleftrightarrow>
     list_all (\<lambda>pat. \<exists>q\<in>set obs. fo_target_mhz q = target \<and> fo_anchor_mv q = mv \<and> has_pattern_pass pat q)
       required_qualification_patterns"

definition qualified_frontier_entry_for_target ::
  "(f2_observation list \<Rightarrow> f64) \<Rightarrow> f2_observation list \<Rightarrow> u32 \<Rightarrow> f2_frontier_entry option" where
  "qualified_frontier_entry_for_target conf obs target =
     map_option (frontier_entry_from_best conf obs target)
       (min_by_key fo_anchor_mv
         (filter (\<lambda>ob. fully_qualified_at obs target (fo_anchor_mv ob))
           (discovery_frontier_candidates obs target)))"

definition observed_targets :: "f2_observation list \<Rightarrow> u32 list" where
  "observed_targets obs = remdups_adj (sort (map fo_target_mhz obs))"

definition for_gpu :: "string \<Rightarrow> f2_observation list \<Rightarrow> f2_observation list" where
  "for_gpu gpu obs = filter (\<lambda>ob. fo_gpu_key ob = Some gpu) obs"

definition learned_frontier ::
  "(f2_observation list \<Rightarrow> f64) \<Rightarrow> f2_observation list \<Rightarrow> f2_frontier_entry list" where
  "learned_frontier conf obs =
     List.map_filter (frontier_entry_for_target conf obs) (observed_targets obs)"

definition learned_frontier_for_gpu ::
  "(f2_observation list \<Rightarrow> f64) \<Rightarrow> f2_observation list \<Rightarrow> string \<Rightarrow> f2_frontier_entry list" where
  "learned_frontier_for_gpu conf obs gpu = learned_frontier conf (for_gpu gpu obs)"

definition qualified_frontier_for_gpu ::
  "(f2_observation list \<Rightarrow> f64) \<Rightarrow> f2_observation list \<Rightarrow> string \<Rightarrow> f2_frontier_entry list" where
  "qualified_frontier_for_gpu conf obs gpu =
     (let scoped = for_gpu gpu obs
      in List.map_filter (qualified_frontier_entry_for_target conf scoped) (observed_targets scoped))"

section \<open>Points for the classifier\<close>

definition default_power_point :: power_sweep_point where
  "default_power_point =
     \<lparr>ps_voltage_mv = 0, ps_clock_mhz = 0, ps_offset_mhz = 0, ps_power_w = Fin 0, ps_max_power_w = Fin 0,
      ps_power_p99_w = None, ps_power_std_w = Fin 0, ps_power_capped_frac = Fin 0, ps_stable = False,
      ps_perf_per_watt = Fin 0, ps_measured_voltage_mv = None, ps_vf_table_voltage_mv = None,
      ps_boundary_voltage_mv = None, ps_apply_margin_mv = None, ps_base_apply_mv = None,
      ps_min_clock_mhz = None, ps_p5_clock_mhz = None, ps_p95_clock_mhz = None,
      ps_avg_measured_mv = None, ps_min_measured_mv = None, ps_max_measured_mv = None,
      ps_voltage_sample_count = None, ps_voltage_quality = None, ps_dwell_sample_count = None,
      ps_dwell_duration_ms = None, ps_start_temp_c = None, ps_end_temp_c = None, ps_avg_temp_c = None,
      ps_max_temp_c = None, ps_thermal_throttled = False, ps_telemetry_quality = None,
      ps_target_clock_mhz = None, ps_confidence = None, ps_validation_count = None,
      ps_apply_qualified = False, ps_apply_qualification_version = None\<rparr>"

definition usable_power :: "f32 \<Rightarrow> bool" where
  "usable_power p \<longleftrightarrow> f32_is_finite p \<and> p > Fin 0"

definition opt_filter :: "('a \<Rightarrow> bool) \<Rightarrow> 'a option \<Rightarrow> 'a option" where
  "opt_filter p x = opt_bind x (\<lambda>v. if p v then Some v else None)"

definition to_power_sweep_point :: "f2_frontier_entry \<Rightarrow> power_sweep_point \<times> f64" where
  "to_power_sweep_point entry =
     (let clock = unwrap_or (fe_avg_clock_mhz entry) (fe_target_mhz entry);
          power = f32_of_nat (unwrap_or (fe_watts entry) 0);
          max_power = f32_of_nat (unwrap_or (fe_max_watts entry) (unwrap_or (fe_watts entry) 0));
          p99 = opt_filter usable_power (fe_power_p99_w entry);
          sustained = unwrap_or (fe_sustained_clock_mhz entry) clock;
          ppw = (case p99 of Some w \<Rightarrow> f64_div (f64_of_nat sustained) w | None \<Rightarrow> Fin 0)
      in (default_power_point
            \<lparr>ps_voltage_mv := fe_best_anchor_mv entry, ps_clock_mhz := clock,
             ps_offset_mhz := fe_offset_mhz entry, ps_power_w := power, ps_max_power_w := max_power,
             ps_power_p99_w := p99, ps_power_capped_frac := Fin 0, ps_stable := True,
             ps_perf_per_watt := ppw, ps_vf_table_voltage_mv := Some (fe_best_anchor_mv entry),
             ps_boundary_voltage_mv := Some (fe_best_anchor_mv entry), ps_apply_margin_mv := Some 0,
             ps_p5_clock_mhz := fe_sustained_clock_mhz entry,
             ps_p95_clock_mhz := fe_sustained_upper_clock_mhz entry,
             ps_max_temp_c := fe_max_temp_c entry, ps_thermal_throttled := fe_thermal_throttled entry,
             ps_target_clock_mhz := Some (fe_target_mhz entry), ps_confidence := Some (fe_confidence entry),
             ps_validation_count := Some (as_u32 (int (fe_validation_count entry)))\<rparr>,
          fe_confidence entry))"

definition frontier_to_points :: "f2_frontier_entry list \<Rightarrow> (power_sweep_point \<times> f64) list" where
  "frontier_to_points entries = map to_power_sweep_point entries"

section \<open>The power of an exact pair\<close>

definition p99_or_zero :: "f2_observation \<Rightarrow> f32" where
  "p99_or_zero ob = unwrap_or (fo_power_p99_w ob) (Fin 0)"

definition current_discovery_observation_at_anchor ::
  "f2_observation list \<Rightarrow> u32 \<Rightarrow> u32 \<Rightarrow> string \<Rightarrow> f2_observation option" where
  "current_discovery_observation_at_anchor obs target mv gpu =
     max_by_key (\<lambda>ob. total_key (p99_or_zero ob))
       (filter (\<lambda>ob. fo_target_mhz ob = target \<and> fo_anchor_mv ob = mv \<and> fo_gpu_key ob = Some gpu \<and>
          fo_outcome ob \<in> {ObValidated, ObPowerBoundClockDrop} \<and> is_current_discovery_evidence ob \<and>
          fo_reset_ok ob \<and> fo_boot_flag_cleared ob \<and> \<not> fo_thermal_throttled ob \<and>
          fo_avg_clock_mhz ob \<noteq> None \<and> fo_sustained_clock_mhz ob \<noteq> None \<and>
          is_some_and (fo_watts ob) (\<lambda>w. w > 0) \<and> is_some_and (fo_max_watts ob) (\<lambda>w. w > 0) \<and>
          is_some_and (fo_power_p99_w ob) usable_power) obs)"

definition f2_apply_clock_hold_tol_mhz :: u32 where "f2_apply_clock_hold_tol_mhz = 0"

definition apply_qual_reading_trustworthy :: "f2_observation \<Rightarrow> u32 \<Rightarrow> bool" where
  "apply_qual_reading_trustworthy ob target \<longleftrightarrow>
     \<not> fo_thermal_throttled ob \<or>
     is_some_and (fo_sustained_clock_mhz ob) (\<lambda>held. u32_add held f2_apply_clock_hold_tol_mhz \<ge> target)"

definition at_apply_pair ::
  "(f2_observation \<Rightarrow> bool) \<Rightarrow> string option \<Rightarrow> u32 \<Rightarrow> u32 \<Rightarrow> string \<Rightarrow> f2_observation \<Rightarrow> bool" where
  "at_apply_pair evidence run target mv gpu ob \<longleftrightarrow>
     is_none_or run (\<lambda>expected. fo_run_id ob = expected) \<and>
     fo_target_mhz ob = target \<and> fo_anchor_mv ob = mv \<and> fo_gpu_key ob = Some gpu \<and> evidence ob \<and>
     fo_reset_ok ob \<and> fo_boot_flag_cleared ob \<and> apply_qual_reading_trustworthy ob target"

definition no_patterns :: "bool list" where
  "no_patterns = replicate (length required_qualification_patterns) False"

definition pattern_of :: "f2_observation \<Rightarrow> nat option" where
  "pattern_of ob = opt_bind (coverage_pattern ob) required_pattern_index"

definition p99_step ::
  "(string \<times> bool list \<times> f32) list \<Rightarrow> f2_observation \<Rightarrow> (string \<times> bool list \<times> f32) list" where
  "p99_step runs ob =
     (let (seen, power) = unwrap_or (map_of runs (fo_run_id ob)) (no_patterns, Fin 0)
      in case pattern_of ob of
           None \<Rightarrow> bt_insert (fo_run_id ob) (seen, power) runs
         | Some i \<Rightarrow> bt_insert (fo_run_id ob) (seen[i := True], f32_max power (p99_or_zero ob)) runs)"

definition apply_qualification_p99_at_anchor ::
  "f2_observation list \<Rightarrow> string option \<Rightarrow> u32 \<Rightarrow> u32 \<Rightarrow> string \<Rightarrow> f32 option" where
  "apply_qualification_p99_at_anchor obs run target mv gpu =
     (let runs = foldl p99_step []
            (filter (\<lambda>ob. at_apply_pair is_current_apply_qualification_pass run target mv gpu ob \<and>
               is_some_and (fo_power_p99_w ob) usable_power) obs)
      in max_by_key total_key
           (map snd (filter (\<lambda>(seen, _). list_all (\<lambda>b. b) seen) (map snd runs))))"

definition gate_step ::
  "(string \<times> bool list \<times> bool \<times> f32) list \<Rightarrow> f2_observation \<Rightarrow> (string \<times> bool list \<times> bool \<times> f32) list" where
  "gate_step runs ob =
     (case coverage_pattern ob of
        None \<Rightarrow> runs
      | Some pat \<Rightarrow>
          (let (seen, endurance, power) = unwrap_or (map_of runs (fo_run_id ob)) (no_patterns, False, Fin 0)
           in case required_pattern_index pat of
                Some i \<Rightarrow>
                  bt_insert (fo_run_id ob) (seen[i := True], endurance, f32_max power (p99_or_zero ob)) runs
              | None \<Rightarrow>
                  if pat = Endurance
                  then bt_insert (fo_run_id ob) (seen, True, f32_max power (p99_or_zero ob)) runs
                  else bt_insert (fo_run_id ob) (seen, endurance, power) runs))"

definition gate_reading :: "string option \<Rightarrow> u32 \<Rightarrow> u32 \<Rightarrow> string \<Rightarrow> f2_observation \<Rightarrow> bool" where
  "gate_reading run target mv gpu ob \<longleftrightarrow>
     at_apply_pair is_current_apply_qualification_evidence run target mv gpu ob \<and>
     is_some_and (fo_power_p99_w ob) usable_power"

definition complete_apply_gate_p99_at_anchor ::
  "f2_observation list \<Rightarrow> string option \<Rightarrow> u32 \<Rightarrow> u32 \<Rightarrow> string \<Rightarrow> f32 option" where
  "complete_apply_gate_p99_at_anchor obs run target mv gpu =
     (let runs = foldl gate_step [] (filter (gate_reading run target mv gpu) obs)
      in max_by_key total_key
           (map (\<lambda>(_, _, power). power)
             (filter (\<lambda>(seen, endurance, _). list_all (\<lambda>b. b) seen \<and> endurance) (map snd runs))))"

fun p95_loop :: "bool list \<Rightarrow> u32 \<Rightarrow> f2_observation list \<Rightarrow> (bool list \<times> u32) option" where
  "p95_loop seen highest [] = Some (seen, highest)"
| "p95_loop seen highest (ob # obs) =
     (case opt_filter (\<lambda>c. c > 0) (fo_sustained_upper_clock_mhz ob) of
        None \<Rightarrow> None
      | Some clock \<Rightarrow>
          (case pattern_of ob of
             None \<Rightarrow> p95_loop seen highest obs
           | Some i \<Rightarrow> p95_loop (seen[i := True]) (max highest clock) obs))"

definition current_apply_qualification_p95_clock_at_anchor ::
  "f2_observation list \<Rightarrow> string \<Rightarrow> u32 \<Rightarrow> u32 \<Rightarrow> string \<Rightarrow> u32 option" where
  "current_apply_qualification_p95_clock_at_anchor obs run target mv gpu =
     opt_bind
       (p95_loop no_patterns 0
         (filter (at_apply_pair is_current_apply_qualification_pass (Some run) target mv gpu) obs))
       (\<lambda>(seen, highest). if list_all (\<lambda>b. b) seen \<and> highest > 0 then Some highest else None)"

definition point_has_current_endurance_qualification ::
  "f2_observation list \<Rightarrow> string \<Rightarrow> u32 \<Rightarrow> u32 \<Rightarrow> string \<Rightarrow> bool" where
  "point_has_current_endurance_qualification obs run target mv gpu \<longleftrightarrow>
     list_all (\<lambda>required. \<exists>ob\<in>set obs. fo_run_id ob = run \<and> fo_target_mhz ob = target \<and>
         fo_anchor_mv ob = mv \<and> fo_gpu_key ob = Some gpu \<and>
         is_current_apply_qualification_evidence ob \<and>
         is_some_and (fo_coverage ob) (\<lambda>c. cv_pattern c = Some required)) [Endurance]"

definition worst_current_apply_qualification_power_at_anchor ::
  "f2_observation list \<Rightarrow> string \<Rightarrow> u32 \<Rightarrow> u32 \<Rightarrow> string \<Rightarrow> f32 option" where
  "worst_current_apply_qualification_power_at_anchor obs run target mv gpu =
     max_by_key total_key
       (filter usable_power
         (concat (map (\<lambda>ob. (case fo_power_p99_w ob of None \<Rightarrow> [] | Some p \<Rightarrow> [p]) @
                            (case fo_max_watts ob of None \<Rightarrow> [] | Some w \<Rightarrow> [f32_of_nat w]))
           (filter (\<lambda>ob. fo_run_id ob = run \<and> fo_target_mhz ob = target \<and> fo_anchor_mv ob = mv \<and>
              fo_gpu_key ob = Some gpu \<and> is_current_apply_qualification_evidence ob) obs))))"

definition pattern_name :: "qualification_pattern \<Rightarrow> string" where
  "pattern_name pat =
     (case pat of PatA \<Rightarrow> ''A'' | PatB \<Rightarrow> ''B'' | HighFps \<Rightarrow> ''HighFps'' | Texture \<Rightarrow> ''Texture''
      | Transitions \<Rightarrow> ''Transitions'' | Memory \<Rightarrow> ''Memory'' | Endurance \<Rightarrow> ''Endurance''
      | TransitionShock \<Rightarrow> ''TransitionShock'' | Dx11Game \<Rightarrow> ''Dx11Game'')"

definition qualification_failure_histogram ::
  "f2_observation list \<Rightarrow> ((u32 \<times> u32 \<times> string \<times> string) \<times> u32) list" where
  "qualification_failure_histogram obs =
     foldl (\<lambda>hist ob.
       (case fo_coverage ob of
          None \<Rightarrow> hist
        | Some c \<Rightarrow>
            (case cv_failure_phase c of
               None \<Rightarrow> hist
             | Some phase \<Rightarrow>
                 (let pat = (case cv_pattern c of None \<Rightarrow> ''legacy'' | Some p \<Rightarrow> pattern_name p);
                      key = (fo_target_mhz ob, fo_anchor_mv ob, pat, phase)
                  in bt_insert key (u32_add (unwrap_or (map_of hist key) 0) 1) hist)))) [] obs"

section \<open>The log\<close>

definition observations_file :: string where "observations_file = ''f2_observations.jsonl''"

definition parse_observation :: "f2_observation codec \<Rightarrow> string \<Rightarrow> f2_observation option" where
  "parse_observation c l = (let t = trim (trim_boms l) in if t = [] then None else dec c t)"

definition parse_observations :: "f2_observation codec \<Rightarrow> string \<Rightarrow> f2_observation list" where
  "parse_observations c data = parse_lines (parse_observation c) data"

definition append_observation ::
  "f2_observation codec \<Rightarrow> f2_observation \<Rightarrow> disk \<Rightarrow> (io_error, unit) result \<times> disk" where
  "append_observation c ob d = append_line observations_file c ob d"

definition load_observations :: "f2_observation codec \<Rightarrow> disk \<Rightarrow> f2_observation list" where
  "load_observations c d = load_lines observations_file (parse_observation c) d"

definition query_by_target :: "f2_observation codec \<Rightarrow> disk \<Rightarrow> u32 \<Rightarrow> f2_observation list" where
  "query_by_target c d target = filter (\<lambda>ob. fo_target_mhz ob = target) (load_observations c d)"

definition query_by_target_for_gpu ::
  "f2_observation codec \<Rightarrow> disk \<Rightarrow> u32 \<Rightarrow> string \<Rightarrow> f2_observation list" where
  "query_by_target_for_gpu c d target gpu =
     filter (\<lambda>ob. fo_target_mhz ob = target \<and> fo_gpu_key ob = Some gpu) (load_observations c d)"

section \<open>Lemmas\<close>

lemma above_first_bad_iff: "above_first_bad obs target ob \<longleftrightarrow> \<not> is_known_bad obs target (fo_anchor_mv ob)"
proof (cases "first_bad_for_target obs target")
  case None
  then have "\<forall>x\<in>set obs. \<not> is_known_failure target x"
    by (simp add: first_bad_for_target_def filter_empty_conv)
  with None show ?thesis by (auto simp: above_first_bad_def is_known_bad_def)
next
  case (Some b)
  then have b: "b \<in> set obs" "is_known_failure target b"
    "\<And>x. x \<in> set obs \<Longrightarrow> is_known_failure target x \<Longrightarrow> fo_anchor_mv x \<le> fo_anchor_mv b"
    by (auto simp: first_bad_for_target_def dest: max_by_key_SomeD)
  show ?thesis unfolding above_first_bad_def is_known_bad_def Some
    using b by (auto simp: not_le intro: le_less_trans)
qed

lemma first_bad_is_known_bad:
  "first_bad_for_target obs target = Some b \<Longrightarrow> is_known_bad obs target (fo_anchor_mv b)"
  by (auto simp: first_bad_for_target_def is_known_bad_def dest!: max_by_key_SomeD)

lemma last_good_alt:
  "last_good_for_target obs target =
     min_by_key fo_anchor_mv (filter (\<lambda>ob. fo_target_mhz ob = target \<and> is_validated (fo_outcome ob) \<and>
       \<not> is_known_bad obs target (fo_anchor_mv ob)) obs)"
  by (simp add: last_good_for_target_def above_first_bad_iff conj_commute conj_left_commute)

lemma is_known_bad_mono: "is_known_bad obs target mv \<Longrightarrow> mv' \<le> mv \<Longrightarrow> is_known_bad obs target mv'"
  by (auto simp: is_known_bad_def intro: order_trans)

lemma is_known_bad_append:
  "is_known_bad (obs @ added) target mv \<longleftrightarrow> is_known_bad obs target mv \<or> is_known_bad added target mv"
  by (auto simp: is_known_bad_def)

lemma good_above_bad:
  assumes "last_good_for_target obs target = Some g" and "first_bad_for_target obs target = Some b"
  shows "fo_anchor_mv b < fo_anchor_mv g"
proof -
  have "\<not> is_known_bad obs target (fo_anchor_mv g)"
    using assms(1) by (auto simp: last_good_alt dest!: min_by_key_SomeD)
  then show ?thesis
    using first_bad_is_known_bad [OF assms(2)] by (meson is_known_bad_mono linorder_not_le)
qed

text \<open>The points from which the frontier is built, written out.\<close>

definition frontier_point :: "f2_observation list \<Rightarrow> u32 \<Rightarrow> f2_observation \<Rightarrow> bool" where
  "frontier_point obs target ob \<longleftrightarrow>
     ob \<in> set obs \<and> fo_target_mhz ob = target \<and> is_validated (fo_outcome ob) \<and>
     is_current_discovery_evidence ob \<and> \<not> is_known_bad obs target (fo_anchor_mv ob) \<and>
     (\<forall>x\<in>set obs. is_device_loss target x \<longrightarrow> u32_sat_add (fo_anchor_mv x) 12 \<le> fo_anchor_mv ob)"

lemma u32_sat_add_le_mono: "a \<le> b \<Longrightarrow> u32_sat_add a k \<le> u32_sat_add b k"
  by (simp add: u32_sat_add_def)

lemma crash_floor_iff:
  "is_none_or (crash_floor_for_target obs target) (\<lambda>c. u32_sat_add c k \<le> mv) \<longleftrightarrow>
     (\<forall>x\<in>set obs. is_device_loss target x \<longrightarrow> u32_sat_add (fo_anchor_mv x) k \<le> mv)"
proof (cases "crash_floor_for_target obs target")
  case None
  then show ?thesis by (simp add: crash_floor_for_target_def filter_empty_conv)
next
  case (Some c)
  from max_by_key_SomeD [OF this [unfolded crash_floor_for_target_def]]
  obtain w where w: "w \<in> set obs" "is_device_loss target w" "c = fo_anchor_mv w"
    and c: "\<And>x. x \<in> set obs \<Longrightarrow> is_device_loss target x \<Longrightarrow> fo_anchor_mv x \<le> c" by auto
  have "u32_sat_add (fo_anchor_mv x) k \<le> mv"
    if "u32_sat_add c k \<le> mv" "x \<in> set obs" "is_device_loss target x" for x
    using u32_sat_add_le_mono [OF c [OF that(2,3)], of k] that(1) by linarith
  with w Some show ?thesis by auto
qed

lemma set_frontier_candidates:
  "ob \<in> set (discovery_frontier_candidates obs target) \<longleftrightarrow> frontier_point obs target ob"
  by (auto simp: discovery_frontier_candidates_def frontier_point_def above_first_bad_iff
      crash_floor_iff f2_crash_proximity_min_mv_def)

lemma entry_fields [simp]:
  "fe_best_anchor_mv (frontier_entry_from_best conf obs target best) = fo_anchor_mv best"
  "fe_target_mhz (frontier_entry_from_best conf obs target best) = target"
  "fe_offset_mhz (frontier_entry_from_best conf obs target best) = fo_offset_mhz best"
  by (simp_all add: frontier_entry_from_best_def Let_def)

lemma frontier_entry_SomeD:
  assumes "frontier_entry_for_target conf obs target = Some e"
  shows "\<exists>best. frontier_point obs target best \<and> e = frontier_entry_from_best conf obs target best \<and>
    (\<forall>ob. frontier_point obs target ob \<longrightarrow> fo_anchor_mv best \<le> fo_anchor_mv ob)"
  using assms
  by (auto simp: frontier_entry_for_target_def set_frontier_candidates [symmetric] dest!: min_by_key_SomeD)

lemma qualified_entry_SomeD:
  assumes "qualified_frontier_entry_for_target conf obs target = Some e"
  shows "\<exists>best. frontier_point obs target best \<and> fully_qualified_at obs target (fo_anchor_mv best) \<and>
    e = frontier_entry_from_best conf obs target best \<and>
    (\<forall>ob. frontier_point obs target ob \<longrightarrow> fully_qualified_at obs target (fo_anchor_mv ob) \<longrightarrow>
       fo_anchor_mv best \<le> fo_anchor_mv ob)"
  using assms
  by (auto simp: qualified_frontier_entry_for_target_def set_frontier_candidates [symmetric]
      dest!: min_by_key_SomeD)

lemma frontier_entry_exists:
  "frontier_entry_for_target conf obs target \<noteq> None \<longleftrightarrow> (\<exists>ob. frontier_point obs target ob)"
  by (auto simp: frontier_entry_for_target_def set_frontier_candidates [symmetric])
     (metis list.set_intros(1) list.exhaust)

text \<open>More evidence that is not a validated point can only take frontier points away.\<close>

lemma frontier_point_append:
  assumes "frontier_point (obs @ added) target ob" and "\<forall>x\<in>set added. \<not> is_validated (fo_outcome x)"
  shows "frontier_point obs target ob"
  using assms by (auto simp: frontier_point_def is_known_bad_append)

lemma fully_qualified_append:
  assumes "fully_qualified_at (obs @ added) target mv" and "\<forall>x\<in>set added. \<not> is_validated (fo_outcome x)"
  shows "fully_qualified_at obs target mv"
  using assms
  by (auto simp: fully_qualified_at_def list_all_iff has_pattern_pass_def is_current_qualification_pass_def)

section \<open>Properties of the frontier\<close>

text \<open>The last good voltage of a clock is the lowest validated one that is not known to be bad, and
  the bracket exists exactly when there are both a good and a bad voltage: its lower end is always
  below its upper end.\<close>

lemma good_and_bracket_exact:
  "last_good_for_target obs target =
     min_by_key fo_anchor_mv (filter (\<lambda>ob. fo_target_mhz ob = target \<and> is_validated (fo_outcome ob) \<and>
       \<not> is_known_bad obs target (fo_anchor_mv ob)) obs) \<and>
   (bracket_for_target obs target = None \<longleftrightarrow>
     last_good_for_target obs target = None \<or> first_bad_for_target obs target = None)"
proof
  show "last_good_for_target obs target =
     min_by_key fo_anchor_mv (filter (\<lambda>ob. fo_target_mhz ob = target \<and> is_validated (fo_outcome ob) \<and>
       \<not> is_known_bad obs target (fo_anchor_mv ob)) obs)" by (rule last_good_alt)
  show "bracket_for_target obs target = None \<longleftrightarrow>
     last_good_for_target obs target = None \<or> first_bad_for_target obs target = None"
    using good_above_bad [of obs target]
    by (auto simp: bracket_for_target_def opt_bind_def split: option.splits)
qed

text \<open>A frontier entry rests on evidence in the log: a validated discovery record of the current
  contract with proven cleanup and provenance, at a voltage that is not known to be bad and at least
  12 mV above every device loss of that clock, and no other such record lies deeper.\<close>

lemma frontier_entry_sound:
  assumes "frontier_entry_for_target conf obs target = Some e"
  shows "\<exists>best. frontier_point obs target best \<and> fe_target_mhz e = target \<and>
    fe_best_anchor_mv e = fo_anchor_mv best \<and> fe_offset_mhz e = fo_offset_mhz best \<and>
    fo_reset_ok best \<and> fo_boot_flag_cleared best \<and>
    (\<forall>ob. frontier_point obs target ob \<longrightarrow> fe_best_anchor_mv e \<le> fo_anchor_mv ob)"
proof -
  obtain best where b: "frontier_point obs target best" "e = frontier_entry_from_best conf obs target best"
    "\<forall>ob. frontier_point obs target ob \<longrightarrow> fo_anchor_mv best \<le> fo_anchor_mv ob"
    using frontier_entry_SomeD [OF assms] by blast
  moreover have "fo_reset_ok best" "fo_boot_flag_cleared best"
    using b(1) by (auto simp: frontier_point_def is_current_discovery_evidence_def has_proven_cleanup_def)
  ultimately show ?thesis by (intro exI [of _ best]) simp
qed

text \<open>Failures only tighten: records that are not validated can raise the physical and the
  publishable frontier of a clock or remove them, and never lower or create them.\<close>

lemma failures_only_raise_the_frontier:
  assumes "\<forall>x\<in>set added. \<not> is_validated (fo_outcome x)"
  shows "(\<forall>e'. frontier_entry_for_target conf (obs @ added) target = Some e' \<longrightarrow>
      (\<exists>e. frontier_entry_for_target conf obs target = Some e \<and> fe_best_anchor_mv e \<le> fe_best_anchor_mv e')) \<and>
    (\<forall>e'. qualified_frontier_entry_for_target conf (obs @ added) target = Some e' \<longrightarrow>
      (\<exists>e. qualified_frontier_entry_for_target conf obs target = Some e \<and>
        fe_best_anchor_mv e \<le> fe_best_anchor_mv e'))"
proof (intro conjI allI impI)
  fix e' assume "frontier_entry_for_target conf (obs @ added) target = Some e'"
  then obtain best where b: "frontier_point obs target best" "fe_best_anchor_mv e' = fo_anchor_mv best"
    using frontier_entry_SomeD [of conf "obs @ added" target e'] frontier_point_append assms by fastforce
  then obtain e where e: "frontier_entry_for_target conf obs target = Some e"
    using frontier_entry_exists [of conf obs target] by auto
  with b frontier_entry_SomeD [OF e]
  show "\<exists>e. frontier_entry_for_target conf obs target = Some e \<and> fe_best_anchor_mv e \<le> fe_best_anchor_mv e'"
    by auto
next
  fix e' assume "qualified_frontier_entry_for_target conf (obs @ added) target = Some e'"
  then obtain best where b: "frontier_point obs target best"
    "fully_qualified_at obs target (fo_anchor_mv best)" "fe_best_anchor_mv e' = fo_anchor_mv best"
    using qualified_entry_SomeD [of conf "obs @ added" target e'] frontier_point_append
      fully_qualified_append assms by fastforce
  then have "qualified_frontier_entry_for_target conf obs target \<noteq> None"
    by (auto simp: qualified_frontier_entry_for_target_def filter_empty_conv set_frontier_candidates)
  then obtain e where e: "qualified_frontier_entry_for_target conf obs target = Some e" by blast
  with b qualified_entry_SomeD [OF e]
  show "\<exists>e. qualified_frontier_entry_for_target conf obs target = Some e \<and>
      fe_best_anchor_mv e \<le> fe_best_anchor_mv e'" by auto
qed

section \<open>The exact-Apply gate\<close>

definition gate_counted :: "string \<Rightarrow> f2_observation \<Rightarrow> bool" where
  "gate_counted r ob \<longleftrightarrow> fo_run_id ob = r \<and> coverage_pattern ob \<in> {Some Texture, Some Endurance}"

definition gate_has :: "f2_observation list \<Rightarrow> string \<Rightarrow> qualification_pattern \<Rightarrow> bool" where
  "gate_has obs r pat \<longleftrightarrow> (\<exists>ob\<in>set obs. fo_run_id ob = r \<and> coverage_pattern ob = Some pat)"

definition gate_run_complete :: "f2_observation list \<Rightarrow> string \<Rightarrow> bool" where
  "gate_run_complete obs r \<longleftrightarrow> gate_has obs r Texture \<and> gate_has obs r Endurance"

definition watts_of :: "f2_observation \<Rightarrow> rat" where
  "watts_of ob = (case fo_power_p99_w ob of Some (Fin x) \<Rightarrow> x | _ \<Rightarrow> 0)"

lemma usable_powerD: "usable_power p \<Longrightarrow> \<exists>x. p = Fin x \<and> 0 < x"
  by (cases p) (auto simp: usable_power_def f32_is_finite_def f32_order)

lemma usable_reading:
  "is_some_and (fo_power_p99_w ob) usable_power \<Longrightarrow>
     fo_power_p99_w ob = Some (Fin (watts_of ob)) \<and> p99_or_zero ob = Fin (watts_of ob) \<and> 0 < watts_of ob"
  by (cases "fo_power_p99_w ob") (auto dest!: usable_powerD simp: watts_of_def p99_or_zero_def)

lemma f32_max_Fin [simp]: "f32_max (Fin x) (Fin y) = Fin (max x y)"
  by (simp add: f32_max_def f32_order max_def)

lemma total_key_Fin [simp]: "total_key (Fin x) \<le> total_key (Fin y) \<longleftrightarrow> x \<le> y"
  by (simp add: total_key_def less_eq_prod_def)

lemma pattern_index [simp]: "required_pattern_index pat = (if pat = Texture then Some 0 else None)"
  by (simp add: required_pattern_index_def required_qualification_patterns_def)

definition counted_watts :: "f2_observation list \<Rightarrow> string \<Rightarrow> rat" where
  "counted_watts obs r = foldl (\<lambda>m ob. if gate_counted r ob then max m (watts_of ob) else m) 0 obs"

lemma counted_watts_snoc:
  "counted_watts (obs @ [ob]) r =
     (if gate_counted r ob then max (counted_watts obs r) (watts_of ob) else counted_watts obs r)"
  by (simp add: counted_watts_def)

lemma counted_watts_none: "\<forall>ob\<in>set obs. \<not> gate_counted r ob \<Longrightarrow> counted_watts obs r = 0"
  by (induction obs rule: rev_induct) (simp_all add: counted_watts_def)

lemma gate_has_snoc:
  "gate_has (obs @ [ob]) r pat \<longleftrightarrow> gate_has obs r pat \<or> (fo_run_id ob = r \<and> coverage_pattern ob = Some pat)"
  by (auto simp: gate_has_def)

definition gate_entry :: "f2_observation list \<Rightarrow> string \<Rightarrow> (bool list \<times> bool \<times> f32) option" where
  "gate_entry obs r =
     (if \<exists>ob\<in>set obs. fo_run_id ob = r \<and> coverage_pattern ob \<noteq> None
      then Some ([gate_has obs r Texture], gate_has obs r Endurance, Fin (counted_watts obs r)) else None)"

lemma gate_entry_default:
  "unwrap_or (gate_entry obs r) (no_patterns, False, Fin 0) =
     ([gate_has obs r Texture], gate_has obs r Endurance, Fin (counted_watts obs r))"
proof (cases "\<exists>ob\<in>set obs. fo_run_id ob = r \<and> coverage_pattern ob \<noteq> None")
  case False
  then have "counted_watts obs r = 0" "\<not> gate_has obs r pat" for pat
    by (auto simp: gate_counted_def gate_has_def intro!: counted_watts_none)
  with False show ?thesis
    by (simp add: gate_entry_def no_patterns_def required_qualification_patterns_def)
next
  case True
  then show ?thesis by (simp only: gate_entry_def if_True unwrap_or_simps)
qed

lemma gate_fold:
  assumes "\<forall>ob\<in>set obs. is_some_and (fo_power_p99_w ob) usable_power"
  shows "bt_wf (foldl gate_step [] obs) \<and> map_of (foldl gate_step [] obs) = gate_entry obs"
  using assms
proof (induction obs rule: rev_induct)
  case Nil
  then show ?case by (simp add: bt_wf_def gate_entry_def fun_eq_iff)
next
  case (snoc ob obs)
  let ?runs = "foldl gate_step [] obs"
  have wf: "bt_wf ?runs" and m: "map_of ?runs = gate_entry obs" using snoc by simp_all
  have w: "p99_or_zero ob = Fin (watts_of ob)" using usable_reading [of ob] snoc.prems by simp
  have e: "unwrap_or (map_of ?runs (fo_run_id ob)) (no_patterns, False, Fin 0) =
      ([gate_has obs (fo_run_id ob) Texture], gate_has obs (fo_run_id ob) Endurance,
       Fin (counted_watts obs (fo_run_id ob)))" by (simp only: m gate_entry_default)
  have other: "gate_entry (obs @ [ob]) r = gate_entry obs r"
    if "r \<noteq> fo_run_id ob \<or> coverage_pattern ob = None" for r
    using that by (auto simp: gate_entry_def gate_has_snoc counted_watts_snoc gate_counted_def)
  show ?case
  proof (cases "coverage_pattern ob")
    case None
    then have "gate_step ?runs ob = ?runs" by (simp add: gate_step_def)
    then show ?thesis using wf m other None by (simp add: fun_eq_iff)
  next
    case (Some pat)
    let ?v = "([gate_has (obs @ [ob]) (fo_run_id ob) Texture], gate_has (obs @ [ob]) (fo_run_id ob) Endurance,
       Fin (counted_watts (obs @ [ob]) (fo_run_id ob)))"
    have "gate_step ?runs ob = bt_insert (fo_run_id ob) ?v ?runs"
      using Some by (auto simp: gate_step_def e w gate_has_snoc counted_watts_snoc gate_counted_def)
    moreover have "gate_entry (obs @ [ob]) (fo_run_id ob) = Some ?v" using Some by (simp add: gate_entry_def)
    ultimately show ?thesis
      using wf m other by (auto simp: bt_wf_insert map_of_bt_insert fun_eq_iff)
  qed
qed

lemma gate_powers:
  assumes "\<forall>ob\<in>set obs. is_some_and (fo_power_p99_w ob) usable_power"
  shows "set (map (\<lambda>(_, _, power). power)
      (filter (\<lambda>(seen, endurance, _). list_all (\<lambda>b. b) seen \<and> endurance) (map snd (foldl gate_step [] obs)))) =
    {Fin (counted_watts obs r) | r. gate_run_complete obs r}"
proof -
  let ?runs = "foldl gate_step [] obs"
  have wf: "bt_wf ?runs" and m: "map_of ?runs = gate_entry obs" using gate_fold [OF assms] by simp_all
  have mem: "(r, v) \<in> set ?runs \<longleftrightarrow> gate_entry obs r = Some v" for r v
    using wf by (simp add: m [symmetric] bt_wf_def)
  have entry: "gate_entry obs r = Some ([gate_has obs r Texture], gate_has obs r Endurance, Fin (counted_watts obs r))"
    if "gate_run_complete obs r" for r
    using that by (auto simp: gate_run_complete_def gate_entry_def gate_has_def)
  show ?thesis (is "?L = ?R")
  proof
    show "?L \<subseteq> ?R"
      by (auto simp: mem gate_entry_def gate_run_complete_def split: if_splits)
    show "?R \<subseteq> ?L"
    proof
      fix p assume "p \<in> ?R"
      then obtain r where r: "p = Fin (counted_watts obs r)" "gate_run_complete obs r" by blast
      then have "(r, [True], True, p) \<in> set ?runs" using entry [of r] mem by (simp add: gate_run_complete_def)
      then show "p \<in> ?L" by (force simp: image_iff)
    qed
  qed
qed

lemma counted_watts_bound:
  "ob \<in> set obs \<Longrightarrow> gate_counted r ob \<Longrightarrow> watts_of ob \<le> counted_watts obs r"
  by (induction obs rule: rev_induct) (auto simp: counted_watts_snoc max.coboundedI1)

lemma counted_watts_in:
  "counted_watts obs r = 0 \<or> (\<exists>ob\<in>set obs. gate_counted r ob \<and> watts_of ob = counted_watts obs r)"
  by (induction obs rule: rev_induct) (auto simp: counted_watts_snoc max_def counted_watts_none)

lemma counted_watts_attained:
  assumes "\<forall>ob\<in>set obs. is_some_and (fo_power_p99_w ob) usable_power" and "gate_run_complete obs r"
  shows "\<exists>ob\<in>set obs. gate_counted r ob \<and> watts_of ob = counted_watts obs r"
proof -
  obtain ob where ob: "ob \<in> set obs" "gate_counted r ob"
    using assms(2) by (auto simp: gate_run_complete_def gate_has_def gate_counted_def)
  then have "0 < counted_watts obs r"
    using counted_watts_bound [OF ob] usable_reading [of ob] assms(1) by fastforce
  with counted_watts_in [of obs r] show ?thesis by auto
qed

lemma apply_gate_lemma:
  fixes obs run target mv gpu
  defines "rs \<equiv> filter (gate_reading run target mv gpu) obs"
  shows "complete_apply_gate_p99_at_anchor obs run target mv gpu = None \<longleftrightarrow> \<not> (\<exists>r. gate_run_complete rs r)"
    and "complete_apply_gate_p99_at_anchor obs run target mv gpu = Some p \<Longrightarrow>
      (\<exists>r ob. gate_run_complete rs r \<and> ob \<in> set rs \<and> gate_counted r ob \<and> fo_power_p99_w ob = Some p) \<and>
      (\<forall>r ob. gate_run_complete rs r \<longrightarrow> ob \<in> set rs \<longrightarrow> gate_counted r ob \<longrightarrow>
         total_key (p99_or_zero ob) \<le> total_key p)"
proof -
  have usable: "\<forall>ob\<in>set rs. is_some_and (fo_power_p99_w ob) usable_power"
    by (auto simp: rs_def gate_reading_def)
  note powers = gate_powers [OF usable]
  have gate: "complete_apply_gate_p99_at_anchor obs run target mv gpu =
      max_by_key total_key (map (\<lambda>(_, _, power). power)
        (filter (\<lambda>(seen, endurance, _). list_all (\<lambda>b. b) seen \<and> endurance) (map snd (foldl gate_step [] rs))))"
    by (simp add: complete_apply_gate_p99_at_anchor_def rs_def)
  show "complete_apply_gate_p99_at_anchor obs run target mv gpu = None \<longleftrightarrow> \<not> (\<exists>r. gate_run_complete rs r)"
    unfolding gate max_by_key_None set_empty [symmetric] powers by auto
  assume some: "complete_apply_gate_p99_at_anchor obs run target mv gpu = Some p"
  from max_by_key_SomeD [OF some [unfolded gate]]
  have mem: "p \<in> {Fin (counted_watts rs r) | r. gate_run_complete rs r}"
    and le: "\<forall>x\<in>{Fin (counted_watts rs r) | r. gate_run_complete rs r}. total_key x \<le> total_key p"
    unfolding powers by simp_all
  obtain r where r: "p = Fin (counted_watts rs r)" "gate_run_complete rs r" using mem by blast
  have upper: "total_key (Fin (counted_watts rs r')) \<le> total_key p" if "gate_run_complete rs r'" for r'
    using le that by blast
  obtain ob where ob: "ob \<in> set rs" "gate_counted r ob" "watts_of ob = counted_watts rs r"
    using counted_watts_attained [OF usable r(2)] by blast
  have "fo_power_p99_w ob = Some p" using usable_reading [of ob] usable ob r(1) by simp
  moreover have "total_key (p99_or_zero x) \<le> total_key p"
    if x: "gate_run_complete rs r'" "x \<in> set rs" "gate_counted r' x" for r' x
    using upper [OF x(1)] counted_watts_bound [OF x(2,3)] usable_reading [of x] usable x(2) r(1) by simp
  ultimately show "(\<exists>r ob. gate_run_complete rs r \<and> ob \<in> set rs \<and> gate_counted r ob \<and> fo_power_p99_w ob = Some p) \<and>
      (\<forall>r ob. gate_run_complete rs r \<longrightarrow> ob \<in> set rs \<longrightarrow> gate_counted r ob \<longrightarrow>
         total_key (p99_or_zero ob) \<le> total_key p)"
    using r(2) ob(1,2) by blast
qed

section \<open>Properties of the gate and of the log\<close>

text \<open>The exact-Apply gate yields a power exactly when one single run holds both the Texture and the
  Endurance pass among the readings it admits; the power is that of an admitted reading of such a run,
  and no counted reading of a complete run exceeds it.\<close>

lemma apply_gate_exact:
  "(complete_apply_gate_p99_at_anchor obs run target mv gpu = None \<longleftrightarrow>
      \<not> (\<exists>r. gate_run_complete (filter (gate_reading run target mv gpu) obs) r)) \<and>
   (complete_apply_gate_p99_at_anchor obs run target mv gpu = Some p \<longrightarrow>
      (\<exists>r ob. gate_run_complete (filter (gate_reading run target mv gpu) obs) r \<and> ob \<in> set obs \<and>
         gate_reading run target mv gpu ob \<and> gate_counted r ob \<and> fo_power_p99_w ob = Some p) \<and>
      (\<forall>r. \<forall>ob\<in>set obs. gate_run_complete (filter (gate_reading run target mv gpu) obs) r \<longrightarrow>
         gate_reading run target mv gpu ob \<longrightarrow> gate_counted r ob \<longrightarrow>
         total_key (p99_or_zero ob) \<le> total_key p))"
  using apply_gate_lemma [of obs run target mv gpu] by auto

text \<open>What the gate of a run publishes is covered by the run's own worst case: the Endurance
  qualification is present, and the worst measured power of the run is at least the gate's.\<close>

lemma gate_below_worst_case:
  assumes "complete_apply_gate_p99_at_anchor obs (Some run) target mv gpu = Some p"
  shows "point_has_current_endurance_qualification obs run target mv gpu \<and>
    (\<exists>q. worst_current_apply_qualification_power_at_anchor obs run target mv gpu = Some q \<and>
      total_key p \<le> total_key q)"
proof -
  let ?rs = "filter (gate_reading (Some run) target mv gpu) obs"
  obtain r ob where r: "gate_run_complete ?rs r" "ob \<in> set ?rs" "gate_counted r ob"
    "fo_power_p99_w ob = Some p"
    using apply_gate_lemma(2) [OF assms] by blast
  obtain en where en: "en \<in> set ?rs" "fo_run_id en = r" "coverage_pattern en = Some Endurance"
    using r(1) by (auto simp: gate_run_complete_def gate_has_def)
  have "point_has_current_endurance_qualification obs run target mv gpu"
    using en by (auto simp: point_has_current_endurance_qualification_def gate_reading_def at_apply_pair_def
        coverage_pattern_def opt_bind_def split: option.splits)
  moreover have "usable_power p" using r(2,4) by (simp add: gate_reading_def)
  then have mem: "p \<in> set (filter usable_power
         (concat (map (\<lambda>ob. (case fo_power_p99_w ob of None \<Rightarrow> [] | Some p \<Rightarrow> [p]) @
                            (case fo_max_watts ob of None \<Rightarrow> [] | Some w \<Rightarrow> [f32_of_nat w]))
           (filter (\<lambda>ob. fo_run_id ob = run \<and> fo_target_mhz ob = target \<and> fo_anchor_mv ob = mv \<and>
              fo_gpu_key ob = Some gpu \<and> is_current_apply_qualification_evidence ob) obs))))"
    using r(2,4) by (force simp: gate_reading_def at_apply_pair_def)
  have "\<exists>q. worst_current_apply_qualification_power_at_anchor obs run target mv gpu = Some q \<and>
      total_key p \<le> total_key q"
  proof (cases "worst_current_apply_qualification_power_at_anchor obs run target mv gpu")
    case None
    with mem show ?thesis
      by (simp add: worst_current_apply_qualification_power_at_anchor_def del: set_concat set_filter)
  next
    case (Some q)
    from max_by_key_SomeD [OF this [unfolded worst_current_apply_qualification_power_at_anchor_def]] mem Some
    show ?thesis by blast
  qed
  ultimately show ?thesis by blast
qed

definition observations_ready :: "f2_observation codec \<Rightarrow> disk \<Rightarrow> bool" where
  "observations_ready c d \<longleftrightarrow> line_codec c \<and> log_intact observations_file d"

lemma parse_observation_line: "json_line s \<Longrightarrow> parse_observation c s = dec c s"
  by (simp add: parse_observation_def json_line_trim)

interpretation obs_log: append_log "append_observation c" "load_observations c" "observations_ready c" for c
  using line_log [of "parse_observation c" c observations_file]
  by (simp add: parse_observation_line append_observation_def [abs_def] load_observations_def [abs_def]
      observations_ready_def [abs_def])

text \<open>C32: the log remembers failures. Once the append of a real failure succeeded on an intact log, its
  voltage and everything below stay known to be bad for that clock in whatever is read back later, and
  no frontier entry of that clock reaches down to it.\<close>

theorem observed_failure_stays_bad:
  assumes "observations_ready c d" and "fst (append_observation c ob d) = Inr ()"
    and "is_known_failure target ob" and "mv \<le> fo_anchor_mv ob"
  shows "let obs = load_observations c (obs_log.add_all c later (snd (append_observation c ob d)))
    in is_known_bad obs target mv \<and>
       (\<forall>e. frontier_entry_for_target conf obs target = Some e \<longrightarrow> mv < fe_best_anchor_mv e)"
proof -
  let ?d = "obs_log.add_all c later (snd (append_observation c ob d))"
  have load: "load_observations c (snd (append_observation c ob d)) = load_observations c d @ [ob]"
    by (rule obs_log.add_ok [OF assms(1,2)])
  from obs_log.add_all_prefix [OF obs_log.add_intact [OF assms(1), of ob], of later]
  obtain ys where ys: "load_observations c ?d = (load_observations c d @ [ob]) @ ys" unfolding load by blast
  have bad: "is_known_bad (load_observations c ?d) target mv"
    unfolding ys using assms(3,4) by (auto simp: is_known_bad_def)
  moreover have "mv < fe_best_anchor_mv e"
    if "frontier_entry_for_target conf (load_observations c ?d) target = Some e" for e
    using frontier_entry_SomeD [OF that] is_known_bad_mono [OF bad] by (force simp: frontier_point_def not_le)
  ultimately show ?thesis by (simp add: Let_def)
qed

section \<open>Witnesses\<close>

definition sample_provenance :: f2_provenance where
  "sample_provenance =
     \<lparr>pv_build_version = Some ''1'', pv_build_revision = Some ''r'', pv_workload_fingerprint = Some ''w'',
      pv_render_backend = Some ''v'', pv_adapter_name = Some ''a'', pv_driver_name = Some ''d'',
      pv_driver_info = None, pv_checksum_method = Some ''c'', pv_golden_config = Some ''g''\<rparr>"

lemma sample_reproducible: "is_reproducible sample_provenance"
  by (simp add: is_reproducible_def present_def sample_provenance_def trim_ends white_space_def)

definition sample_coverage :: "qualification_pattern \<Rightarrow> f2_coverage" where
  "sample_coverage pat =
     \<lparr>cv_strength = Fsgl4, cv_pattern = Some pat, cv_pass_index = 0, cv_verdict = QPass,
      cv_phases_completed = 3, cv_phases_expected = 3, cv_checksum_count = 10, cv_sample_count = 100,
      cv_compute_check_count = 5, cv_target_residency_frac = None, cv_heavy_light_power_delta_w = None,
      cv_failure_phase = None, cv_retry_count = 0, cv_reason = None, cv_phase_metrics = []\<rparr>"

definition sample_observation ::
  "f2_evidence_kind \<Rightarrow> qualification_pattern \<Rightarrow> u32 \<Rightarrow> rat \<Rightarrow> f2_obs_outcome \<Rightarrow> f2_observation" where
  "sample_observation kind pat mv watts outcome =
     \<lparr>fo_run_id = ''run'', fo_timestamp = ''t'', fo_gpu_key = Some ''gpu'', fo_evidence_kind = kind,
      fo_discovery_contract = Some 6, fo_qualification_contract = Some 25,
      fo_coverage = Some (sample_coverage pat), fo_provenance = Some sample_provenance,
      fo_mode = TargetSweep, fo_target_mhz = 1900, fo_requested_start_mv = None, fo_anchor_mv = mv,
      fo_base_mhz = 1800, fo_offset_mhz = 100, fo_positive_offset_cap_mhz = 250,
      fo_higher_bins_capped = 0, fo_max_flatten_mhz = 0, fo_lower_bins_elastic = 0,
      fo_verifier_result = ObsRaiseVerified, fo_dwell_result = DwStable, fo_avg_clock_mhz = Some 1900,
      fo_sustained_clock_mhz = Some 1900, fo_sustained_upper_clock_mhz = Some 1900,
      fo_watts = Some 180, fo_max_watts = None, fo_power_p99_w = Some (Fin watts),
      fo_power_p99_confirmed = True, fo_power_p99_attempts = 1, fo_measured_voltage_min_mv = None,
      fo_measured_voltage_avg_mv = None, fo_measured_voltage_max_mv = None,
      fo_measured_voltage_sample_count = 0, fo_render_frames = None, fo_render_fps = None,
      fo_power_capped_frac = None, fo_max_temp_c = None, fo_thermal_throttled = False,
      fo_dwell_duration_ms = None, fo_sample_count = None, fo_silent_error = False,
      fo_device_lost = False, fo_unstable = False, fo_clock_drop = False, fo_tdr_or_crash = False,
      fo_reset_attempted = True, fo_reset_ok = True, fo_boot_flag_cleared = True, fo_blacklisted = False,
      fo_outcome = outcome, fo_confidence = None, fo_notes = None\<rparr>"

abbreviation sample_discovery :: "u32 \<Rightarrow> f2_observation" where
  "sample_discovery mv \<equiv> sample_observation Discovery Texture mv 180 ObValidated"

abbreviation sample_failure :: "u32 \<Rightarrow> f2_observation" where
  "sample_failure mv \<equiv> sample_observation Discovery Texture mv 180 ObUnstable"

lemma sample_evidence [simp]:
  "is_current_discovery_evidence (sample_discovery mv)"
  "is_validated (fo_outcome (sample_discovery mv))"
  "fo_target_mhz (sample_observation k pat mv w oc) = 1900"
  "fo_anchor_mv (sample_observation k pat mv w oc) = mv"
  "is_known_failure 1900 (sample_failure mv)"
  "\<not> is_known_failure target (sample_discovery mv)"
  "\<not> is_device_loss target (sample_discovery mv)" "\<not> is_device_loss target (sample_failure mv)"
  "\<not> is_validated (fo_outcome (sample_failure mv))"
  by (simp_all add: is_current_discovery_evidence_def has_proven_cleanup_def
      has_reproducible_provenance_def sample_observation_def f2_discovery_contract_version_def
      sample_reproducible is_validated_def is_known_failure_def is_bad_def is_device_loss_def)

lemma sample_gate_reading:
  "gate_reading run 1900 mv ''gpu'' (sample_observation ApplyQualification pat mv 180 ObValidated) \<longleftrightarrow>
     is_none_or run (\<lambda>r. r = ''run'')"
  by (auto simp: gate_reading_def at_apply_pair_def is_current_apply_qualification_evidence_def
      has_proven_cleanup_def has_reproducible_provenance_def sample_observation_def sample_coverage_def
      f2_qualification_contract_version_def sample_reproducible is_validated_def usable_power_def
      f32_is_finite_def f32_order apply_qual_reading_trustworthy_def is_none_or_def split: option.splits)

definition sample_gate_log :: "f2_observation list" where
  "sample_gate_log =
     [sample_observation ApplyQualification Texture 850 180 ObValidated,
      sample_observation ApplyQualification Endurance 850 180 ObValidated]"

lemma sample_gate_complete:
  "gate_run_complete (filter (gate_reading (Some ''run'') 1900 850 ''gpu'') sample_gate_log) ''run''"
  by (simp add: gate_run_complete_def gate_has_def sample_gate_log_def sample_gate_reading)
     (simp add: sample_observation_def sample_coverage_def coverage_pattern_def opt_bind_def)

definition toy_observation_codec :: "f2_observation codec" where
  "toy_observation_codec =
     \<lparr>enc = (\<lambda>ob. if ob = sample_failure 840 then Some ''{a}'' else None),
      dec = (\<lambda>s. if s = ''{a}'' then Some (sample_failure 840) else None)\<rparr>"

definition no_files :: disk where
  "no_files = \<lparr>files = (\<lambda>_. None), refused = (\<lambda>_. False), unreadable = (\<lambda>_. False), dir_refused = False\<rparr>"

theorem observed_failure_stays_bad_witness:
  "is_known_bad (load_observations toy_observation_codec
     (snd (append_observation toy_observation_codec (sample_failure 840) no_files))) 1900 830"
proof -
  have "observations_ready toy_observation_codec no_files"
    by (simp add: observations_ready_def line_codec_def toy_observation_codec_def json_line_def
        line_feed_def carriage_return_def log_intact_def no_files_def)
  moreover have "fst (append_observation toy_observation_codec (sample_failure 840) no_files) = Inr ()"
    by (simp add: append_observation_def append_line_def fs_append_def fs_defs toy_observation_codec_def
        no_files_def)
  ultimately show ?thesis
    using observed_failure_stays_bad [of toy_observation_codec no_files "sample_failure 840" 1900 830 "[]"]
    by (simp add: obs_log.add_all_def Let_def)
qed

end
