(* ===== verification/SweepEngine.thy ===== *)
theory SweepEngine
  imports Float32 "HOL-Library.Product_Lexorder"
begin

text \<open>
  \<open>crates/core/src/gpu_sweep.rs\<close> and the simulated silicon of \<open>gpu_control.rs\<close>: the search for the lowest
  stable voltage of each clock, the engine that runs it over the clocks as a machine of commands and
  results, and the three named profiles made of its points. The description texts of the profiles are
  left out. The lemmas show that the search ends whatever the verdicts are, in a number of tests that the
  configuration bounds, and that on silicon with a threshold it finds the threshold.
\<close>

section \<open>Points, verdicts, margins\<close>

record vf_point =
  vp_freq_mhz :: u32
  vp_voltage_mv :: u32

datatype stability_result = ResStable | ResSilentError | ResCrash | ResUnstable

definition is_stable :: "stability_result \<Rightarrow> bool" where
  "is_stable r \<longleftrightarrow> r = ResStable"

definition validate_compute :: "u64 \<Rightarrow> u64 \<Rightarrow> stability_result" where
  "validate_compute expected actual = (if expected = actual then ResStable else ResSilentError)"

definition apply_safety_margin :: "u32 \<Rightarrow> u32 \<Rightarrow> u32 \<Rightarrow> u32 \<Rightarrow> u32" where
  "apply_safety_margin cliff fixed coeff headroom = u32_add (u32_add cliff fixed) (u32_mul coeff headroom)"

section \<open>The search at one clock\<close>

record voltage_bisection =
  vb_freq_mhz :: u32
  vb_stable_mv :: u32
  vb_unstable_mv :: "u32 option"
  vb_floor_mv :: u32
  vb_descent_step_mv :: u32
  vb_min_step_mv :: u32
  vb_current_mv :: "u32 option"

definition bisection_new :: "u32 \<Rightarrow> u32 \<Rightarrow> u32 \<Rightarrow> u32 \<Rightarrow> u32 \<Rightarrow> voltage_bisection" where
  "bisection_new freq stock floor_mv descent min_step =
     \<lparr>vb_freq_mhz = freq, vb_stable_mv = stock, vb_unstable_mv = None, vb_floor_mv = floor_mv,
      vb_descent_step_mv = max descent 1, vb_min_step_mv = max min_step 1, vb_current_mv = None\<rparr>"

definition midpoint :: "u32 \<Rightarrow> u32 \<Rightarrow> u32" where
  "midpoint a b = u32_add a (u32_sub b a div 2)"

definition next_candidate :: "voltage_bisection \<Rightarrow> u32 option" where
  "next_candidate b =
     (case vb_unstable_mv b of
        None \<Rightarrow>
          (if vb_stable_mv b \<le> vb_floor_mv b then None
           else Some (max (u32_sat_sub (vb_stable_mv b) (vb_descent_step_mv b)) (vb_floor_mv b)))
      | Some unstable \<Rightarrow>
          (if u32_sat_sub (vb_stable_mv b) unstable \<le> vb_min_step_mv b then None
           else Some (midpoint unstable (vb_stable_mv b))))"

definition next_test :: "voltage_bisection \<Rightarrow> u32 option \<times> voltage_bisection" where
  "next_test b = (next_candidate b, b\<lparr>vb_current_mv := next_candidate b\<rparr>)"

definition bisection_record :: "stability_result \<Rightarrow> voltage_bisection \<Rightarrow> voltage_bisection" where
  "bisection_record r b =
     (case vb_current_mv b of
        None \<Rightarrow> b
      | Some tested \<Rightarrow>
          (if is_stable r then b\<lparr>vb_stable_mv := min (vb_stable_mv b) tested, vb_current_mv := None\<rparr>
           else b\<lparr>vb_unstable_mv := Some (case vb_unstable_mv b of None \<Rightarrow> tested | Some u \<Rightarrow> max u tested),
                  vb_current_mv := None\<rparr>))"

definition is_converged :: "voltage_bisection \<Rightarrow> bool" where
  "is_converged b \<longleftrightarrow>
     (case vb_unstable_mv b of
        None \<Rightarrow> vb_stable_mv b \<le> vb_floor_mv b
      | Some unstable \<Rightarrow> u32_sat_sub (vb_stable_mv b) unstable \<le> vb_min_step_mv b)"

definition min_stable_mv :: "voltage_bisection \<Rightarrow> u32" where
  "min_stable_mv b = vb_stable_mv b"

section \<open>The named profiles\<close>

record tradeoff_point =
  tp_freq_mhz :: u32
  tp_vmin_mv :: u32

record gpu_profile =
  gp_name :: string
  gp_point :: vf_point

record gpu_profile_set =
  gs_godforge :: gpu_profile
  gs_brokkrs_best :: gpu_profile
  gs_deep_calm :: gpu_profile

definition profile_of :: "string \<Rightarrow> tradeoff_point \<Rightarrow> gpu_profile" where
  "profile_of name p = \<lparr>gp_name = name, gp_point = \<lparr>vp_freq_mhz = tp_freq_mhz p, vp_voltage_mv = tp_vmin_mv p\<rparr>\<rparr>"

definition brokkrs_name :: string where
  "brokkrs_name = ''Brokkr'' @ [CHR 0x27] @ ''s Best''"

definition ratio_key :: "tradeoff_point \<Rightarrow> u64" where
  "ratio_key p = tp_freq_mhz p * 1000 div max (tp_vmin_mv p) 1"

definition hold_threshold :: "u32 \<Rightarrow> u32" where
  "hold_threshold baseline = baseline * 95 div 100 mod 2 ^ 32"

definition synthesize_profiles :: "u32 \<Rightarrow> tradeoff_point list \<Rightarrow> gpu_profile_set option" where
  "synthesize_profiles baseline points =
     (case (max_by_key (\<lambda>p. (int (tp_freq_mhz p), - int (tp_vmin_mv p))) points, max_by_key ratio_key points) of
        (Some godforge, Some brokkrs) \<Rightarrow>
          Some \<lparr>gs_godforge = profile_of ''Godforge'' godforge,
                gs_brokkrs_best = profile_of brokkrs_name brokkrs,
                gs_deep_calm = profile_of ''Deep Calm''
                  (unwrap_or (min_by_key (\<lambda>p. (int (tp_vmin_mv p), - int (tp_freq_mhz p)))
                     (filter (\<lambda>p. tp_freq_mhz p \<ge> hold_threshold baseline) points)) godforge)\<rparr>
      | _ \<Rightarrow> None)"

section \<open>The engine\<close>

datatype sweep_phase =
  SwIdle
| SwBaseline
| SwVramDiagnostic
| SwVoltageBisection
| SwSynthesis
| SwDone
| SwAborted

record gpu_sweep_config =
  gc_target_freqs_mhz :: "u32 list"
  gc_stock_mv :: u32
  gc_floor_mv :: u32
  gc_descent_step_mv :: u32
  gc_min_step_mv :: u32
  gc_fixed_margin_mv :: u32
  gc_temp_coeff_mv_per_c :: u32
  gc_temp_headroom_c :: u32

definition default_sweep_config :: gpu_sweep_config where
  "default_sweep_config =
     \<lparr>gc_target_freqs_mhz = [1950, 1875, 1800, 1695], gc_stock_mv = 1050, gc_floor_mv = 700,
      gc_descent_step_mv = 25, gc_min_step_mv = 5, gc_fixed_margin_mv = 15, gc_temp_coeff_mv_per_c = 1,
      gc_temp_headroom_c = 15\<rparr>"

datatype sweep_command = ApplyAndTest vf_point | Finished

record gpu_sweep_engine =
  ge_config :: gpu_sweep_config
  ge_baseline_freq_mhz :: u32
  ge_phase :: sweep_phase
  ge_freq_index :: usize
  ge_bisection :: "voltage_bisection option"
  ge_tradeoffs :: "tradeoff_point list"
  ge_profiles :: "gpu_profile_set option"
  ge_simulated :: bool

definition engine_new :: "gpu_sweep_config \<Rightarrow> u32 \<Rightarrow> bool \<Rightarrow> gpu_sweep_engine" where
  "engine_new cfg baseline sim =
     \<lparr>ge_config = cfg, ge_baseline_freq_mhz = baseline, ge_phase = SwVoltageBisection, ge_freq_index = 0,
      ge_bisection = None, ge_tradeoffs = [], ge_profiles = None, ge_simulated = sim\<rparr>"

definition start_freq :: "gpu_sweep_config \<Rightarrow> u32 \<Rightarrow> voltage_bisection" where
  "start_freq cfg freq =
     bisection_new freq (gc_stock_mv cfg) (gc_floor_mv cfg) (gc_descent_step_mv cfg) (gc_min_step_mv cfg)"

definition engine_finish :: "gpu_sweep_engine \<Rightarrow> sweep_command \<times> gpu_sweep_engine" where
  "engine_finish e =
     (Finished, e\<lparr>ge_profiles := synthesize_profiles (ge_baseline_freq_mhz e) (ge_tradeoffs e), ge_phase := SwDone\<rparr>)"

definition engine_margin :: "gpu_sweep_config \<Rightarrow> u32 \<Rightarrow> u32" where
  "engine_margin cfg cliff =
     apply_safety_margin cliff (gc_fixed_margin_mv cfg) (gc_temp_coeff_mv_per_c cfg) (gc_temp_headroom_c cfg)"

definition engine_advance :: "voltage_bisection \<Rightarrow> gpu_sweep_engine \<Rightarrow> gpu_sweep_engine" where
  "engine_advance b e =
     e\<lparr>ge_tradeoffs := ge_tradeoffs e @
          [\<lparr>tp_freq_mhz = vb_freq_mhz b, tp_vmin_mv = engine_margin (ge_config e) (min_stable_mv b)\<rparr>],
       ge_bisection := None, ge_freq_index := ge_freq_index e + 1\<rparr>"

text \<open>What \<open>next_command\<close> does with the bisection it has, or the one it starts.\<close>

definition current_bisection :: "gpu_sweep_engine \<Rightarrow> voltage_bisection option" where
  "current_bisection e =
     (case ge_bisection e of
        Some b \<Rightarrow> Some b
      | None \<Rightarrow>
          if ge_freq_index e \<ge> length (gc_target_freqs_mhz (ge_config e)) then None
          else Some (start_freq (ge_config e) (gc_target_freqs_mhz (ge_config e) ! ge_freq_index e)))"

function (sequential) next_command :: "gpu_sweep_engine \<Rightarrow> sweep_command \<times> gpu_sweep_engine" where
  "next_command e =
     (if ge_phase e = SwDone \<or> ge_phase e = SwAborted then (Finished, e)
      else case current_bisection e of
             None \<Rightarrow> engine_finish e
           | Some b \<Rightarrow>
               (case next_test b of
                  (Some mv, b') \<Rightarrow>
                    (ApplyAndTest \<lparr>vp_freq_mhz = vb_freq_mhz b', vp_voltage_mv = mv\<rparr>, e\<lparr>ge_bisection := Some b'\<rparr>)
                | (None, b') \<Rightarrow> next_command (engine_advance b' e)))"
  by pat_completeness auto

termination
  by (relation "Wellfounded.measure (\<lambda>e. 2 * (length (gc_target_freqs_mhz (ge_config e)) - ge_freq_index e) +
        (if ge_bisection e = None then 0 else 1))")
    (auto simp: current_bisection_def engine_advance_def split: option.splits if_splits)

declare next_command.simps [simp del]

definition engine_record :: "stability_result \<Rightarrow> gpu_sweep_engine \<Rightarrow> gpu_sweep_engine" where
  "engine_record r e = e\<lparr>ge_bisection := map_option (bisection_record r) (ge_bisection e)\<rparr>"

definition engine_abort :: "gpu_sweep_engine \<Rightarrow> gpu_sweep_engine" where
  "engine_abort e = e\<lparr>ge_phase := SwAborted, ge_bisection := None\<rparr>"

text \<open>The notes of the sweeps on the hardware.\<close>

datatype sweep_text =
  SoakRunning
| SoakFailed
| SoakPassed u32 u32
| SoakCrashed
| SoakRetry nat

record gpu_sweep_progress =
  gr_phase :: sweep_phase
  gr_current :: "vf_point option"
  gr_freq_index :: usize
  gr_total_freqs :: usize
  gr_tradeoffs :: "tradeoff_point list"
  gr_profiles :: "gpu_profile_set option"
  gr_simulated :: bool
  gr_measured_mhz :: "u32 option"
  gr_gpu_temp_c :: "f32 option"
  gr_last_result :: "stability_result option"
  gr_validation_note :: "sweep_text option"

definition engine_progress :: "gpu_sweep_engine \<Rightarrow> gpu_sweep_progress" where
  "engine_progress e =
     \<lparr>gr_phase = ge_phase e,
      gr_current = (case ge_bisection e of
                      None \<Rightarrow> None
                    | Some b \<Rightarrow> map_option (\<lambda>mv. \<lparr>vp_freq_mhz = vb_freq_mhz b, vp_voltage_mv = mv\<rparr>) (vb_current_mv b)),
      gr_freq_index = ge_freq_index e, gr_total_freqs = length (gc_target_freqs_mhz (ge_config e)),
      gr_tradeoffs = ge_tradeoffs e, gr_profiles = ge_profiles e, gr_simulated = ge_simulated e,
      gr_measured_mhz = None, gr_gpu_temp_c = None, gr_last_result = None, gr_validation_note = None\<rparr>"

section \<open>Simulated silicon\<close>

record simulated_silicon =
  si_base_mv :: u32
  si_ref_freq_mhz :: u32
  si_slope_uv_per_mhz :: u32
  si_crash_margin_mv :: u32

definition default_silicon :: simulated_silicon where
  "default_silicon = \<lparr>si_base_mv = 850, si_ref_freq_mhz = 1800, si_slope_uv_per_mhz = 800, si_crash_margin_mv = 60\<rparr>"

text \<open>The quotient rounds towards zero; the product of an \<open>i64\<close> and a \<open>u32\<close> difference stays in range.\<close>

definition frontier_mv :: "simulated_silicon \<Rightarrow> u32 \<Rightarrow> u32" where
  "frontier_mv s freq =
     (let delta_mhz = int freq - int (si_ref_freq_mhz s);
          delta_mv = i64_div (i64_mul delta_mhz (int (si_slope_uv_per_mhz s))) 1000
      in as_u32 (max (int (si_base_mv s) + delta_mv) 0))"

definition silicon_evaluate :: "simulated_silicon \<Rightarrow> vf_point \<Rightarrow> stability_result" where
  "silicon_evaluate s p =
     (let f = frontier_mv s (vp_freq_mhz p)
      in if vp_voltage_mv p \<ge> f then ResStable
         else if u32_add (vp_voltage_mv p) (si_crash_margin_mv s) \<ge> f then ResSilentError
         else ResCrash)"

record simulated_tuner =
  tu_applied :: "vf_point option"
  tu_stock :: "vf_point option"

definition tuner_read_current :: "simulated_tuner \<Rightarrow> vf_point option" where
  "tuner_read_current t = (case tu_applied t of Some p \<Rightarrow> Some p | None \<Rightarrow> tu_stock t)"

definition tuner_apply :: "vf_point \<Rightarrow> simulated_tuner \<Rightarrow> simulated_tuner" where
  "tuner_apply p t = t\<lparr>tu_applied := Some p\<rparr>"

definition tuner_reset :: "simulated_tuner \<Rightarrow> simulated_tuner" where
  "tuner_reset t = t\<lparr>tu_applied := tu_stock t\<rparr>"

section \<open>The search ends\<close>

text \<open>What stays true of a search: the steps are positive and the bracket is proper.\<close>

definition bisection_ok :: "voltage_bisection \<Rightarrow> bool" where
  "bisection_ok b \<longleftrightarrow> 1 \<le> vb_descent_step_mv b \<and> 1 \<le> vb_min_step_mv b \<and> vb_stable_mv b < 2 ^ 32 \<and>
     (case vb_unstable_mv b of None \<Rightarrow> True | Some u \<Rightarrow> u < vb_stable_mv b)"

text \<open>How many tests it still needs at most: the coarse steps to the floor and the halvings of one step.\<close>

definition test_budget :: "voltage_bisection \<Rightarrow> nat" where
  "test_budget b =
     (case vb_unstable_mv b of
        None \<Rightarrow> (vb_stable_mv b - vb_floor_mv b + vb_descent_step_mv b - 1) div vb_descent_step_mv b +
                nat_bits (vb_descent_step_mv b - 1)
      | Some u \<Rightarrow> nat_bits (vb_stable_mv b - u - 1))"

lemma nat_bits_mono: "a \<le> b \<Longrightarrow> nat_bits a \<le> nat_bits b"
proof (induction b arbitrary: a rule: less_induct)
  case (less b)
  show ?case
  proof (cases "a = 0")
    case True
    then show ?thesis by (simp add: nat_bits.simps)
  next
    case False
    then have "nat_bits (a div 2) \<le> nat_bits (b div 2)" using less by (intro less.IH) (auto simp: div_le_mono)
    then show ?thesis using False less.prems by (simp add: nat_bits.simps [of a] nat_bits.simps [of b])
  qed
qed

lemma nat_bits_halved: "2 \<le> g \<Longrightarrow> h \<le> g - g div 2 \<Longrightarrow> nat_bits (h - 1) < nat_bits (g - 1)"
proof -
  assume g: "2 \<le> g" and h: "h \<le> g - g div 2"
  have "h - 1 \<le> (g - 1) div 2" using g h by linarith
  then have "nat_bits (h - 1) \<le> nat_bits ((g - 1) div 2)" by (rule nat_bits_mono)
  moreover have "nat_bits (g - 1) = Suc (nat_bits ((g - 1) div 2))" using g by (subst nat_bits.simps) simp
  ultimately show ?thesis by simp
qed

lemma midpoint_between:
  assumes "u < s" and "s < 2 ^ 32"
  shows "midpoint u s = u + (s - u) div 2"
  using assms by (simp add: midpoint_def u32_sub_id u32_add_id)

text \<open>One test: the candidate lies inside the bracket, and either verdict uses up the budget.\<close>

lemma test_step:
  assumes "bisection_ok b" and "next_test b = (Some mv, b')"
  shows "bisection_ok (bisection_record r b')" and "test_budget (bisection_record r b') < test_budget b"
    and "mv < vb_stable_mv b" and "vb_unstable_mv b = Some u \<Longrightarrow> u < mv"
    and "vb_unstable_mv b = None \<Longrightarrow> vb_floor_mv b \<le> mv"
proof -
  let ?s = "vb_stable_mv b" and ?d = "vb_descent_step_mv b" and ?f = "vb_floor_mv b"
  have ok: "1 \<le> ?d" "1 \<le> vb_min_step_mv b" "?s < 2 ^ 32" using assms(1) by (auto simp: bisection_ok_def)
  have b': "b' = b\<lparr>vb_current_mv := Some mv\<rparr>" and cand: "next_candidate b = Some mv"
    using assms(2) by (auto simp: next_test_def)
  have "bisection_ok (bisection_record r b') \<and> test_budget (bisection_record r b') < test_budget b \<and>
      mv < ?s \<and> (\<forall>u. vb_unstable_mv b = Some u \<longrightarrow> u < mv) \<and> (vb_unstable_mv b = None \<longrightarrow> ?f \<le> mv)"
  proof (cases "vb_unstable_mv b")
    case None
    with cand have s: "?f < ?s" and mv: "mv = max (?s - ?d) ?f"
      by (auto simp: next_candidate_def u32_sat_sub_def split: if_splits)
    have lt: "mv < ?s" "?f \<le> mv" "?s - mv \<le> ?d" using s mv ok by auto
    have steps: "(mv - ?f + ?d - 1) div ?d < (?s - ?f + ?d - 1) div ?d"
    proof (cases "?s - ?d \<le> ?f")
      case True
      then have "mv - ?f = 0" using mv by simp
      moreover have "1 \<le> (?s - ?f + ?d - 1) div ?d"
        using s ok by (simp add: Suc_le_eq div_greater_zero_iff)
      ultimately show ?thesis using ok by simp
    next
      case False
      then have eq: "?s - ?f + ?d - 1 = (mv - ?f + ?d - 1) + ?d" using mv ok by simp
      have "(?s - ?f + ?d - 1) div ?d = (mv - ?f + ?d - 1) div ?d + 1"
        by (subst eq, subst div_add_self2) (use ok in simp_all)
      then show ?thesis by simp
    qed
    have "nat_bits (?s - mv - 1) \<le> nat_bits (?d - 1)" by (rule nat_bits_mono) (use lt in simp)
    moreover have "1 \<le> (?s - ?f + ?d - 1) div ?d"
      using s ok by (simp add: Suc_le_eq div_greater_zero_iff)
    ultimately show ?thesis
      using None lt steps ok by (auto simp: bisection_record_def b' bisection_ok_def test_budget_def)
  next
    case (Some u)
    then have u: "u < ?s" using assms(1) by (simp add: bisection_ok_def)
    have gap: "2 \<le> ?s - u" and mv: "mv = u + (?s - u) div 2"
      using cand Some ok u by (auto simp: next_candidate_def u32_sat_sub_def midpoint_between split: if_splits)
    have lt: "u < mv" "mv < ?s" using gap mv by linarith+
    have "nat_bits (mv - u - 1) < nat_bits (?s - u - 1)" "nat_bits (?s - mv - 1) < nat_bits (?s - u - 1)"
      by (rule nat_bits_halved [OF gap]; use mv gap in linarith)+
    then show ?thesis using Some lt ok by (auto simp: bisection_record_def b' bisection_ok_def test_budget_def max_def)
  qed
  then show "bisection_ok (bisection_record r b')" and "test_budget (bisection_record r b') < test_budget b"
    and "mv < ?s" and "vb_unstable_mv b = Some u \<Longrightarrow> u < mv" and "vb_unstable_mv b = None \<Longrightarrow> ?f \<le> mv"
    by blast+
qed

section \<open>Running the engine\<close>

text \<open>The engine driven by verdicts: the \<open>n\<close>-th test of a point may have any verdict. The result counts the
  tests; not ending is \<open>None\<close>.\<close>

partial_function (option) drive ::
  "(nat \<Rightarrow> vf_point \<Rightarrow> stability_result) \<Rightarrow> nat \<Rightarrow> gpu_sweep_engine \<Rightarrow> (nat \<times> gpu_sweep_engine) option" where
  "drive ev n e =
     (case next_command e of
        (Finished, e') \<Rightarrow> Some (n, e')
      | (ApplyAndTest p, e') \<Rightarrow> drive ev (n + 1) (engine_record (ev n p) e'))"

definition point_at :: "u32 \<Rightarrow> u32 \<Rightarrow> vf_point" where
  "point_at f mv = \<lparr>vp_freq_mhz = f, vp_voltage_mv = mv\<rparr>"

definition verdict_seen :: "(nat \<Rightarrow> vf_point \<Rightarrow> stability_result) \<Rightarrow> bool \<Rightarrow> u32 \<Rightarrow> u32 \<Rightarrow> bool" where
  "verdict_seen ev good f mv \<longleftrightarrow> (\<exists>n. is_stable (ev n (point_at f mv)) = good)"

text \<open>A cliff that the search may report: stock or a voltage that passed, and below it the floor or, within
  the smallest step, a voltage that failed.\<close>

definition cliff_ok :: "gpu_sweep_config \<Rightarrow> (nat \<Rightarrow> vf_point \<Rightarrow> stability_result) \<Rightarrow> u32 \<Rightarrow> u32 \<Rightarrow> bool" where
  "cliff_ok cfg ev f cliff \<longleftrightarrow>
     cliff \<le> gc_stock_mv cfg \<and> (cliff = gc_stock_mv cfg \<or> verdict_seen ev True f cliff) \<and>
     (cliff \<le> gc_floor_mv cfg \<or>
      (\<exists>u. verdict_seen ev False f u \<and> u < cliff \<and> cliff - u \<le> max (gc_min_step_mv cfg) 1))"

definition tradeoff_ok :: "gpu_sweep_config \<Rightarrow> (nat \<Rightarrow> vf_point \<Rightarrow> stability_result) \<Rightarrow> u32 \<Rightarrow> tradeoff_point \<Rightarrow> bool" where
  "tradeoff_ok cfg ev f tp \<longleftrightarrow> tp_freq_mhz tp = f \<and>
     (\<exists>cliff. tp_vmin_mv tp = engine_margin cfg cliff \<and> cliff_ok cfg ev f cliff)"

definition search_ok :: "gpu_sweep_config \<Rightarrow> (nat \<Rightarrow> vf_point \<Rightarrow> stability_result) \<Rightarrow> u32 \<Rightarrow> voltage_bisection \<Rightarrow> bool" where
  "search_ok cfg ev f b \<longleftrightarrow>
     bisection_ok b \<and> vb_freq_mhz b = f \<and> vb_floor_mv b = gc_floor_mv cfg \<and>
     vb_min_step_mv b = max (gc_min_step_mv cfg) 1 \<and> vb_stable_mv b \<le> gc_stock_mv cfg \<and>
     (vb_stable_mv b = gc_stock_mv cfg \<or> verdict_seen ev True f (vb_stable_mv b)) \<and>
     (case vb_unstable_mv b of None \<Rightarrow> True | Some u \<Rightarrow> verdict_seen ev False f u)"

definition clock_budget :: "gpu_sweep_config \<Rightarrow> nat" where
  "clock_budget cfg = test_budget (start_freq cfg 0)"

definition engine_ok :: "gpu_sweep_config \<Rightarrow> (nat \<Rightarrow> vf_point \<Rightarrow> stability_result) \<Rightarrow> gpu_sweep_engine \<Rightarrow> bool" where
  "engine_ok cfg ev e \<longleftrightarrow>
     ge_config e = cfg \<and> ge_freq_index e \<le> length (gc_target_freqs_mhz cfg) \<and> ge_phase e = SwVoltageBisection \<and>
     list_all2 (tradeoff_ok cfg ev)
       (take (ge_freq_index e) (gc_target_freqs_mhz cfg)) (ge_tradeoffs e) \<and>
     (case ge_bisection e of
        None \<Rightarrow> True
      | Some b \<Rightarrow> ge_freq_index e < length (gc_target_freqs_mhz cfg) \<and>
          search_ok cfg ev (gc_target_freqs_mhz cfg ! ge_freq_index e) b)"

definition engine_budget :: "gpu_sweep_config \<Rightarrow> gpu_sweep_engine \<Rightarrow> nat" where
  "engine_budget cfg e =
     (case ge_bisection e of
        None \<Rightarrow> (length (gc_target_freqs_mhz cfg) - ge_freq_index e) * clock_budget cfg
      | Some b \<Rightarrow> (length (gc_target_freqs_mhz cfg) - ge_freq_index e - 1) * clock_budget cfg + test_budget b)"

lemma search_step:
  assumes "search_ok cfg ev f b" and "next_test b = (Some mv, b')"
  shows "search_ok cfg ev f (bisection_record (ev n (point_at f mv)) b')"
proof -
  have ok: "bisection_ok (bisection_record (ev n (point_at f mv)) b')" and lt: "mv < vb_stable_mv b"
    using test_step [OF _ assms(2)] assms(1) by (auto simp: search_ok_def)
  have b': "b' = b\<lparr>vb_current_mv := Some mv\<rparr>" using assms(2) by (auto simp: next_test_def)
  have "verdict_seen ev (is_stable (ev n (point_at f mv))) f mv" by (auto simp: verdict_seen_def)
  then show ?thesis
    using assms(1) ok lt
    by (cases "is_stable (ev n (point_at f mv))")
      (auto simp: search_ok_def b' bisection_record_def min_def max_def split: option.splits)
qed

lemma search_done:
  assumes "search_ok cfg ev f b" and "next_test b = (None, b')"
  shows "cliff_ok cfg ev f (min_stable_mv b)" and "b' = b\<lparr>vb_current_mv := None\<rparr>"
  using assms
  by (auto simp: search_ok_def next_test_def next_candidate_def cliff_ok_def min_stable_mv_def bisection_ok_def
      u32_sat_sub_def split: option.splits if_splits)

lemma search_start: "gc_stock_mv cfg < 2 ^ 32 \<Longrightarrow> search_ok cfg ev f (start_freq cfg f)"
  by (simp add: search_ok_def start_freq_def bisection_new_def bisection_ok_def)

lemma start_budget [simp]: "test_budget (start_freq cfg f) = clock_budget cfg"
  by (simp add: clock_budget_def start_freq_def bisection_new_def test_budget_def)

lemma current_ok:
  assumes "engine_ok cfg ev e" and "gc_stock_mv cfg < 2 ^ 32" and "current_bisection e = Some b"
  shows "ge_freq_index e < length (gc_target_freqs_mhz cfg)"
    and "search_ok cfg ev (gc_target_freqs_mhz cfg ! ge_freq_index e) b"
    and "engine_budget cfg e = (length (gc_target_freqs_mhz cfg) - ge_freq_index e - 1) * clock_budget cfg + test_budget b"
proof -
  show i: "ge_freq_index e < length (gc_target_freqs_mhz cfg)"
    and "search_ok cfg ev (gc_target_freqs_mhz cfg ! ge_freq_index e) b"
    using assms search_start [OF assms(2)]
    by (auto simp: engine_ok_def current_bisection_def split: option.splits if_splits)
  from i obtain k where "length (gc_target_freqs_mhz cfg) - ge_freq_index e = Suc k"
    by (metis Suc_diff_Suc)
  then show "engine_budget cfg e =
      (length (gc_target_freqs_mhz cfg) - ge_freq_index e - 1) * clock_budget cfg + test_budget b"
    using assms(1,3)
    by (auto simp: engine_ok_def current_bisection_def engine_budget_def split: option.splits if_splits)
qed

lemma advance_ok:
  assumes "engine_ok cfg ev e" and "gc_stock_mv cfg < 2 ^ 32" and "current_bisection e = Some b"
    and "next_test b = (None, b')"
  shows "engine_ok cfg ev (engine_advance b' e)" and "engine_budget cfg (engine_advance b' e) \<le> engine_budget cfg e"
proof -
  note c = current_ok [OF assms(1-3)] and d = search_done [OF _ assms(4)]
  let ?fs = "gc_target_freqs_mhz cfg" and ?i = "ge_freq_index e"
  have b': "vb_freq_mhz b' = ?fs ! ?i" "min_stable_mv b' = min_stable_mv b"
    using d(2) [OF c(2)] c(2) by (auto simp: search_ok_def min_stable_mv_def)
  have "take (Suc ?i) ?fs = take ?i ?fs @ [?fs ! ?i]" using c(1) by (rule take_Suc_conv_app_nth)
  moreover have "tradeoff_ok cfg ev (?fs ! ?i) \<lparr>tp_freq_mhz = vb_freq_mhz b', tp_vmin_mv = engine_margin cfg (min_stable_mv b')\<rparr>"
    using d(1) [OF c(2)] by (auto simp: tradeoff_ok_def b')
  ultimately show "engine_ok cfg ev (engine_advance b' e)"
    using assms(1) c(1)
    by (auto simp: engine_ok_def engine_advance_def intro: list_all2_appendI)
  show "engine_budget cfg (engine_advance b' e) \<le> engine_budget cfg e"
    unfolding c(3) by (simp add: engine_budget_def engine_advance_def)
qed

text \<open>A call of \<open>next_command\<close>: it ends the sweep with a point for every clock, or asks for a test inside the
  search of the present clock.\<close>

lemma command_cases:
  assumes "engine_ok cfg ev e" and "gc_stock_mv cfg < 2 ^ 32" and "next_command e = (c, e')"
  shows "(c = Finished \<and> ge_phase e' = SwDone \<and>
      ge_profiles e' = synthesize_profiles (ge_baseline_freq_mhz e) (ge_tradeoffs e') \<and>
      list_all2 (tradeoff_ok cfg ev)
        (gc_target_freqs_mhz cfg) (ge_tradeoffs e')) \<or>
    (\<exists>f mv. c = ApplyAndTest (point_at f mv) \<and>
       (\<forall>n. engine_ok cfg ev (engine_record (ev n (point_at f mv)) e') \<and>
            engine_budget cfg (engine_record (ev n (point_at f mv)) e') < engine_budget cfg e) \<and>
       ge_baseline_freq_mhz e' = ge_baseline_freq_mhz e)"
  using assms
proof (induction e rule: next_command.induct)
  case (1 e)
  have ph: "\<not> (ge_phase e = SwDone \<or> ge_phase e = SwAborted)" using "1.prems"(1) by (simp add: engine_ok_def)
  show ?case
  proof (cases "current_bisection e")
    case None
    then have "e' = snd (engine_finish e)" "c = Finished" "ge_freq_index e = length (gc_target_freqs_mhz cfg)"
      using "1.prems" ph
      by (auto simp: engine_finish_def current_bisection_def engine_ok_def next_command.simps [of e]
          split: option.splits if_splits)
    then show ?thesis using "1.prems"(1) by (simp add: engine_finish_def engine_ok_def)
  next
    case (Some b)
    obtain t b' where t: "next_test b = (t, b')" by fastforce
    note c = current_ok [OF "1.prems"(1,2) Some]
    show ?thesis
    proof (cases t)
      case None
      note a = advance_ok [OF "1.prems"(1,2) Some, unfolded t None, OF refl]
      have "next_command (engine_advance b' e) = (c, e')" using "1.prems"(3) ph Some t None
        by (simp add: next_command.simps [of e])
      from "1.IH" [OF ph Some t [symmetric] None a(1) "1.prems"(2) this] show ?thesis
        using a(2) by (auto simp: engine_advance_def dest: order.strict_trans2)
    next
      case t': (Some mv)
      let ?f = "gc_target_freqs_mhz cfg ! ge_freq_index e"
      have b': "b' = b\<lparr>vb_current_mv := Some mv\<rparr>" using t t' by (auto simp: next_test_def)
      have e': "c = ApplyAndTest (point_at ?f mv)" "e' = e\<lparr>ge_bisection := Some b'\<rparr>"
        using "1.prems"(3) ph Some t t' c(2) by (auto simp: b' point_at_def search_ok_def next_command.simps [of e])
      have "engine_ok cfg ev (engine_record (ev n (point_at ?f mv)) e') \<and>
          engine_budget cfg (engine_record (ev n (point_at ?f mv)) e') < engine_budget cfg e" for n
        using search_step [OF c(2) t [unfolded t'], of n] test_step(2) [OF _ t [unfolded t'], of "ev n (point_at ?f mv)"]
          "1.prems"(1) c
        by (simp add: engine_ok_def e' engine_record_def engine_budget_def search_ok_def)
      then show ?thesis using e' by auto
    qed
  qed
qed

lemma drive_ends:
  assumes "engine_ok cfg ev e" and "gc_stock_mv cfg < 2 ^ 32"
  shows "\<exists>m e'. drive ev n e = Some (m, e') \<and> m \<le> n + engine_budget cfg e \<and> ge_phase e' = SwDone \<and>
    ge_profiles e' = synthesize_profiles (ge_baseline_freq_mhz e) (ge_tradeoffs e') \<and>
    list_all2 (tradeoff_ok cfg ev)
      (gc_target_freqs_mhz cfg) (ge_tradeoffs e')"
  using assms(1)
proof (induction "engine_budget cfg e" arbitrary: e n rule: less_induct)
  case less
  obtain c e1 where c: "next_command e = (c, e1)" by fastforce
  from command_cases [OF less.prems assms(2) c] show ?case
  proof (elim disjE exE conjE)
    fix f mv
    assume a: "c = ApplyAndTest (point_at f mv)" and base: "ge_baseline_freq_mhz e1 = ge_baseline_freq_mhz e"
      and next1: "\<forall>n. engine_ok cfg ev (engine_record (ev n (point_at f mv)) e1) \<and>
        engine_budget cfg (engine_record (ev n (point_at f mv)) e1) < engine_budget cfg e"
    let ?e2 = "engine_record (ev n (point_at f mv)) e1"
    have n2: "engine_ok cfg ev ?e2" "engine_budget cfg ?e2 < engine_budget cfg e" using next1 by blast+
    have base2: "ge_baseline_freq_mhz ?e2 = ge_baseline_freq_mhz e" by (simp add: engine_record_def base)
    have "drive ev n e = drive ev (n + 1) ?e2" by (subst drive.simps) (simp add: c a)
    with less.hyps [OF n2(2) n2(1), of "n + 1"] n2(2) base2 show ?thesis by fastforce
  next
    assume a: "c = Finished"
    have "drive ev n e = Some (n, e1)" by (subst drive.simps) (simp add: c a)
    moreover assume "ge_phase e1 = SwDone"
      "ge_profiles e1 = synthesize_profiles (ge_baseline_freq_mhz e) (ge_tradeoffs e1)"
      "list_all2 (tradeoff_ok cfg ev) (gc_target_freqs_mhz cfg) (ge_tradeoffs e1)"
    ultimately show ?thesis by simp
  qed
qed

lemma engine_start: "engine_ok cfg ev (engine_new cfg baseline sim)"
  "engine_budget cfg (engine_new cfg baseline sim) = length (gc_target_freqs_mhz cfg) * clock_budget cfg"
  by (simp_all add: engine_ok_def engine_new_def engine_budget_def)

lemma synthesize_None: "synthesize_profiles baseline points = None \<longleftrightarrow> points = []"
  by (auto simp: synthesize_profiles_def split: option.splits)

text \<open>Each profile is a point of the sweep: the highest clock at its lowest voltage, the best clock per
  voltage, and the lowest voltage among the points that hold the baseline, or the first of the three.\<close>

lemma synthesize_exact:
  assumes "synthesize_profiles baseline points = Some s"
  shows "\<exists>g b d. g \<in> set points \<and> b \<in> set points \<and> d \<in> set points \<and>
    gs_godforge s = profile_of ''Godforge'' g \<and> gs_brokkrs_best s = profile_of brokkrs_name b \<and>
    gs_deep_calm s = profile_of ''Deep Calm'' d \<and>
    (\<forall>p\<in>set points. tp_freq_mhz p \<le> tp_freq_mhz g \<and> (tp_freq_mhz p = tp_freq_mhz g \<longrightarrow> tp_vmin_mv g \<le> tp_vmin_mv p) \<and>
       ratio_key p \<le> ratio_key b) \<and>
    (if \<exists>p\<in>set points. hold_threshold baseline \<le> tp_freq_mhz p
     then hold_threshold baseline \<le> tp_freq_mhz d \<and>
       (\<forall>p\<in>set points. hold_threshold baseline \<le> tp_freq_mhz p \<longrightarrow> tp_vmin_mv d \<le> tp_vmin_mv p)
     else d = g)"
proof -
  let ?held = "filter (\<lambda>p. hold_threshold baseline \<le> tp_freq_mhz p) points"
  obtain g b where g: "max_by_key (\<lambda>p. (int (tp_freq_mhz p), - int (tp_vmin_mv p))) points = Some g"
    and b: "max_by_key ratio_key points = Some b"
    and s: "s = \<lparr>gs_godforge = profile_of ''Godforge'' g, gs_brokkrs_best = profile_of brokkrs_name b,
      gs_deep_calm = profile_of ''Deep Calm''
        (unwrap_or (min_by_key (\<lambda>p. (int (tp_vmin_mv p), - int (tp_freq_mhz p))) ?held) g)\<rparr>"
    using assms by (auto simp: synthesize_profiles_def split: option.splits)
  note G = max_by_key_SomeD [OF g] and B = max_by_key_SomeD [OF b]
  define d where "d = unwrap_or (min_by_key (\<lambda>p. (int (tp_vmin_mv p), - int (tp_freq_mhz p))) ?held) g"
  have gmax: "tp_freq_mhz p \<le> tp_freq_mhz g" "tp_freq_mhz p = tp_freq_mhz g \<Longrightarrow> tp_vmin_mv g \<le> tp_vmin_mv p"
    if "p \<in> set points" for p
    using G that by (force simp: less_eq_prod_def)+
  have d: "if \<exists>p\<in>set points. hold_threshold baseline \<le> tp_freq_mhz p
     then d \<in> set points \<and> hold_threshold baseline \<le> tp_freq_mhz d \<and>
       (\<forall>p\<in>set points. hold_threshold baseline \<le> tp_freq_mhz p \<longrightarrow> tp_vmin_mv d \<le> tp_vmin_mv p)
     else d = g"
  proof (cases "min_by_key (\<lambda>p. (int (tp_vmin_mv p), - int (tp_freq_mhz p))) ?held")
    case None
    then show ?thesis by (auto simp: d_def filter_empty_conv)
  next
    case (Some x)
    from min_by_key_SomeD [OF Some] show ?thesis by (auto simp: d_def Some less_eq_prod_def)
  qed
  have dp: "d \<in> set points" using d G by (cases "\<exists>p\<in>set points. hold_threshold baseline \<le> tp_freq_mhz p") auto
  show ?thesis
  proof (intro exI conjI)
    show "g \<in> set points" "b \<in> set points" "d \<in> set points" using G B dp by simp_all
    show "gs_godforge s = profile_of ''Godforge'' g" "gs_brokkrs_best s = profile_of brokkrs_name b"
      "gs_deep_calm s = profile_of ''Deep Calm'' d" by (simp_all add: s d_def)
    show "\<forall>p\<in>set points. tp_freq_mhz p \<le> tp_freq_mhz g \<and>
        (tp_freq_mhz p = tp_freq_mhz g \<longrightarrow> tp_vmin_mv g \<le> tp_vmin_mv p) \<and> ratio_key p \<le> ratio_key b"
      using gmax B by simp
    show "if \<exists>p\<in>set points. hold_threshold baseline \<le> tp_freq_mhz p
       then hold_threshold baseline \<le> tp_freq_mhz d \<and>
         (\<forall>p\<in>set points. hold_threshold baseline \<le> tp_freq_mhz p \<longrightarrow> tp_vmin_mv d \<le> tp_vmin_mv p)
       else d = g"
      using d by (simp split: if_splits)
  qed
qed

section \<open>Properties\<close>

text \<open>C34: the sweep ends whatever the tests say, within a number of tests that its configuration gives for
  each clock, and every clock gets a point: a voltage that passed, or stock, plus the margin, with the
  floor or a failed voltage no more than the smallest step below it.\<close>

theorem sweep_brackets_every_clock:
  assumes "gc_stock_mv cfg < 2 ^ 32"
  shows "\<exists>m e. drive ev 0 (engine_new cfg baseline sim) = Some (m, e) \<and>
    m \<le> length (gc_target_freqs_mhz cfg) * clock_budget cfg \<and> ge_phase e = SwDone \<and>
    list_all2 (tradeoff_ok cfg ev) (gc_target_freqs_mhz cfg) (ge_tradeoffs e) \<and>
    ge_profiles e = synthesize_profiles baseline (ge_tradeoffs e)"
proof -
  have "ge_baseline_freq_mhz (engine_new cfg baseline sim) = baseline" by (simp add: engine_new_def)
  with drive_ends [OF engine_start(1) assms, of ev 0 baseline sim] show ?thesis
    unfolding engine_start(2) by auto
qed

lemma default_budget: "clock_budget default_sweep_config = 19"
  by (simp add: clock_budget_def start_freq_def default_sweep_config_def bisection_new_def test_budget_def
      nat_bits.simps)

theorem sweep_brackets_every_clock_witness:
  "\<exists>m e. drive (\<lambda>_. silicon_evaluate default_silicon) 0 (engine_new default_sweep_config 1900 True) = Some (m, e) \<and>
     m \<le> 76"
  using sweep_brackets_every_clock [of default_sweep_config "\<lambda>_. silicon_evaluate default_silicon" 1900 True]
  by (auto simp: default_budget) (auto simp: default_sweep_config_def)

text \<open>C35: on silicon with a threshold the engine finds it. Against the simulated silicon, whose stock voltage
  carries every clock, the cliff of every clock is at or above its true frontier, and above the floor it
  is less than the smallest step higher.\<close>

theorem sweep_finds_the_frontier:
  assumes "gc_stock_mv cfg < 2 ^ 32"
    and "\<forall>f\<in>set (gc_target_freqs_mhz cfg). frontier_mv s f \<le> gc_stock_mv cfg"
    and "drive (\<lambda>_. silicon_evaluate s) 0 (engine_new cfg baseline sim) = Some (m, e)"
  shows "list_all2 (\<lambda>f tp. tp_freq_mhz tp = f \<and> (\<exists>cliff. tp_vmin_mv tp = engine_margin cfg cliff \<and>
      frontier_mv s f \<le> cliff \<and> (cliff \<le> gc_floor_mv cfg \<or> cliff < frontier_mv s f + max (gc_min_step_mv cfg) 1)))
    (gc_target_freqs_mhz cfg) (ge_tradeoffs e)"
proof -
  have stable: "verdict_seen (\<lambda>_. silicon_evaluate s) good f mv \<longleftrightarrow> (good \<longleftrightarrow> frontier_mv s f \<le> mv)" for good f mv
    by (auto simp: verdict_seen_def silicon_evaluate_def is_stable_def point_at_def Let_def)
  have "list_all2 (tradeoff_ok cfg (\<lambda>_. silicon_evaluate s)) (gc_target_freqs_mhz cfg) (ge_tradeoffs e)"
    using drive_ends [OF engine_start(1) assms(1), of "\<lambda>_. silicon_evaluate s" 0 baseline sim] assms(3) by auto
  then show ?thesis
  proof (rule list.rel_mono_strong)
    fix f tp
    assume "f \<in> set (gc_target_freqs_mhz cfg)" and "tradeoff_ok cfg (\<lambda>_. silicon_evaluate s) f tp"
    then show "tp_freq_mhz tp = f \<and> (\<exists>cliff. tp_vmin_mv tp = engine_margin cfg cliff \<and>
        frontier_mv s f \<le> cliff \<and> (cliff \<le> gc_floor_mv cfg \<or> cliff < frontier_mv s f + max (gc_min_step_mv cfg) 1))"
      using assms(2) by (fastforce simp: tradeoff_ok_def cliff_ok_def stable)
  qed
qed

lemma default_frontier: "frontier_mv default_silicon 1950 = 970" "frontier_mv default_silicon 1875 = 910"
  "frontier_mv default_silicon 1800 = 850" "frontier_mv default_silicon 1695 = 766"
  by (simp_all add: frontier_mv_def default_silicon_def i64_mul_def i64_div_def is_i64_def as_u32_def Let_def)

theorem sweep_finds_the_frontier_witness:
  "\<exists>m e tp. drive (\<lambda>_. silicon_evaluate default_silicon) 0 (engine_new default_sweep_config 1900 True) = Some (m, e) \<and>
     hd (ge_tradeoffs e) = tp \<and> tp_freq_mhz tp = 1950 \<and>
     (\<exists>cliff. tp_vmin_mv tp = engine_margin default_sweep_config cliff \<and> 970 \<le> cliff \<and> cliff < 975)"
proof -
  obtain m e where e: "drive (\<lambda>_. silicon_evaluate default_silicon) 0 (engine_new default_sweep_config 1900 True) = Some (m, e)"
    using drive_ends [OF engine_start(1), of default_sweep_config "\<lambda>_. silicon_evaluate default_silicon" 0 1900 True]
    by (auto simp: default_sweep_config_def)
  from sweep_finds_the_frontier [OF _ _ this] obtain tp ts where "ge_tradeoffs e = tp # ts" "tp_freq_mhz tp = 1950"
    "\<exists>cliff. tp_vmin_mv tp = engine_margin default_sweep_config cliff \<and> 970 \<le> cliff \<and> cliff < 975"
    by (auto simp: default_sweep_config_def default_frontier list_all2_Cons1)
  then show ?thesis using e by auto
qed

end
