(* ===== verification/GpuApply.thy ===== *)
theory GpuApply
  imports SafeLoopRuntime F2Apply F2Observation SweepEngine
begin

text \<open>
  \<open>crates/service/src/gpu_apply.rs\<close> and \<open>manual_point.rs\<close>: applying a profile under the boot flag and
  remembering it, the reset, the re-application at boot, the full forgetting of what was learned and
  the temporary manual point. A machine is the disk, the card and the timers that will clear the boot
  flag: an apply that succeeds starts one, eight seconds before it fires. The profile file is a codec
  like the record; the sentinel's verdict on this boot is an argument.
\<close>

section \<open>Profiles\<close>

record undervolt_apply =
  uv_target_mhz :: u32
  uv_anchor_mv :: u32

record applied_profile =
  ap_label :: string
  ap_core :: "vf_point option"
  ap_mem_offset :: "i32 option"
  ap_applied_at :: "string option"
  ap_undervolt :: "undervolt_apply option"

definition applied_file :: string where "applied_file = ''gpu_applied.json''"
definition knowledge_file :: string where "knowledge_file = ''gpu_knowledge.json''"

definition load_applied :: "applied_profile codec \<Rightarrow> disk \<Rightarrow> applied_profile option" where
  "load_applied c d =
     (case fs_read applied_file d of Inl _ \<Rightarrow> None | Inr s \<Rightarrow> dec c (trim_boms s))"

definition save_applied :: "applied_profile codec \<Rightarrow> applied_profile \<Rightarrow> disk \<Rightarrow> disk" where
  "save_applied c p d =
     (case enc c p of
        None \<Rightarrow> d
      | Some s \<Rightarrow> if dir_refused d then d else snd (fs_write applied_file s d))"

definition clear_applied :: "disk \<Rightarrow> disk" where
  "clear_applied d = snd (fs_remove applied_file d)"

definition clear_all_learning :: "disk \<Rightarrow> string list \<times> disk" where
  "clear_all_learning d =
     fold (\<lambda>f (errors, d).
             (case remove_if_present f d of
                (Inr _, d') \<Rightarrow> (errors, d')
              | (Inl _, d') \<Rightarrow> (errors @ [f], d')))
       [observations_file, knowledge_file] ([], d)"

section \<open>Applying\<close>

record 'g machine =
  mc_disk :: disk
  mc_gpu :: 'g
  mc_timers :: "nat list"

record codecs =
  cx_flag :: "boot_flag codec"
  cx_record :: "safe_loop_record codec"
  cx_applied :: "applied_profile codec"

datatype gpu_apply_error =
  ArmFailed io_error
| DriverRefused driver_error
| UndervoltFailed apply_failure
| MemOffsetRefused driver_error "driver_error option"
| ResetIncomplete "driver_error option" "driver_error option"
| RecordNotCleared io_error
| FlagNotCleared io_error

definition choose_ceiling_mv :: "vf_curve \<Rightarrow> u32 \<Rightarrow> u32 \<times> bool" where
  "choose_ceiling_mv curve measured =
     (case nearest_vf_bin_at_or_above curve measured of
        Some (_, table_mv) \<Rightarrow> (table_mv, False)
      | None \<Rightarrow> (measured, True))"

text \<open>The legacy curve read of \<open>read_curve\<close> is an argument: the clock at or below a voltage.\<close>

definition curve_freq_at :: "(u32 \<times> u32) list option \<Rightarrow> u32 \<Rightarrow> u32 option" where
  "curve_freq_at points mv =
     opt_bind points (\<lambda>ps. map_option snd (max_by_key fst (filter (\<lambda>p. fst p \<le> mv) ps)))"

definition clamp :: "int \<Rightarrow> int \<Rightarrow> int \<Rightarrow> int" where
  "clamp lo hi x = max lo (min hi x)"

definition apply_core ::
  "'g vendor \<Rightarrow> ('g \<Rightarrow> (u32 \<times> u32) list option) \<Rightarrow> vf_point \<Rightarrow> (unit, 'g) drv" where
  "apply_core v legacy p g =
     (let fallback = (\<lambda>g.
            let base = unwrap_or (curve_freq_at (legacy g) (vp_voltage_mv p)) (vp_freq_mhz p);
                offset = clamp (- 300) 400 (int (vp_freq_mhz p) - int base)
            in (case set_core_offset_mhz v offset g of
                  (Inl e, g1) \<Rightarrow> (Inl e, g1)
                | (Inr _, g1) \<Rightarrow> (Inr (), snd (lock_core_clock_max_mhz v (vp_freq_mhz p) g1))))
      in if vf_curve_supported v g
         then (let curve = read_vf_curve_modern v g;
                   (ceiling_mv, _) = choose_ceiling_mv curve (vp_voltage_mv p)
               in (case apply_vf_ceiling (ven_set_point v) curve ceiling_mv (vp_freq_mhz p) g of
                     (Inr _, g1) \<Rightarrow> (Inr (), g1)
                   | (Inl _, g1) \<Rightarrow> fallback g1))
         else fallback g)"

definition apply_intent :: "vf_point option \<Rightarrow> i32 option \<Rightarrow> tuning_point" where
  "apply_intent core mem =
     from_axes
       ((case core of None \<Rightarrow> []
         | Some c \<Rightarrow> [(''gpu_freq_mhz'', int (vp_freq_mhz c)), (''gpu_voltage_mv'', int (vp_voltage_mv c))]) @
        (case mem of None \<Rightarrow> [] | Some m \<Rightarrow> [(''gpu_mem_offset_mhz'', m)]))"

definition start_timer :: "'g machine \<Rightarrow> 'g machine" where
  "start_timer m = m\<lparr>mc_timers := mc_timers m @ [8]\<rparr>"

definition remember_profile :: "codecs \<Rightarrow> applied_profile \<Rightarrow> 'g machine \<Rightarrow> 'g machine" where
  "remember_profile cx p m = start_timer (m\<lparr>mc_disk := save_applied (cx_applied cx) p (mc_disk m)\<rparr>)"

text \<open>Arming: the flag carries the intent, the phase and the clock's text.\<close>

definition arm ::
  "codecs \<Rightarrow> tuning_point \<Rightarrow> string \<Rightarrow> string \<Rightarrow> 'g machine \<Rightarrow> (gpu_apply_error, unit) result \<times> 'g machine" where
  "arm cx intent phase now m =
     (case arm_boot_flag (cx_flag cx) \<lparr>bf_intent = intent, bf_phase = phase, bf_timestamp = now\<rparr> (mc_disk m) of
        (Inl e, d) \<Rightarrow> (Inl (ArmFailed e), m\<lparr>mc_disk := d\<rparr>)
      | (Inr _, d) \<Rightarrow> (Inr (), m\<lparr>mc_disk := d\<rparr>))"

definition apply_mem_offset ::
  "'g vendor \<Rightarrow> i32 option \<Rightarrow> (unit, 'g) drv" where
  "apply_mem_offset v mem g = (case mem of None \<Rightarrow> (Inr (), g) | Some x \<Rightarrow> set_mem_offset_mhz v x g)"

definition apply_and_persist ::
  "'g vendor \<Rightarrow> ('g \<Rightarrow> (u32 \<times> u32) list option) \<Rightarrow> codecs \<Rightarrow> string \<Rightarrow> string \<Rightarrow> vf_point option \<Rightarrow>
   i32 option \<Rightarrow> 'g machine \<Rightarrow> (gpu_apply_error, unit) result \<times> 'g machine" where
  "apply_and_persist v legacy cx now label core mem m =
     (case arm cx (apply_intent core mem) ''gpu_apply'' now m of
        (Inl e, m1) \<Rightarrow> (Inl e, m1)
      | (Inr _, m1) \<Rightarrow>
          (case drv_then (case core of None \<Rightarrow> \<lambda>g. (Inr (), g) | Some c \<Rightarrow> apply_core v legacy c)
                  (apply_mem_offset v mem) (mc_gpu m1) of
             (Inl e, g) \<Rightarrow> (Inl (DriverRefused e), m1\<lparr>mc_gpu := g\<rparr>)
           | (Inr _, g) \<Rightarrow>
               (Inr (), remember_profile cx
                  \<lparr>ap_label = label, ap_core = core, ap_mem_offset = mem, ap_applied_at = Some now,
                   ap_undervolt = None\<rparr> (m1\<lparr>mc_gpu := g\<rparr>))))"

definition apply_and_persist_undervolt ::
  "'g vendor \<Rightarrow> ('g \<Rightarrow> 'g) \<Rightarrow> nat \<Rightarrow> codecs \<Rightarrow> string \<Rightarrow> string \<Rightarrow> u32 \<Rightarrow> u32 \<Rightarrow> i32 option \<Rightarrow>
   'g machine \<Rightarrow> (gpu_apply_error, unit) result \<times> 'g machine" where
  "apply_and_persist_undervolt v settle polls cx now label target anchor_mv mem m =
     (case arm cx (apply_intent (Some \<lparr>vp_freq_mhz = target, vp_voltage_mv = anchor_mv\<rparr>) mem)
             ''gpu_apply_undervolt'' now m of
        (Inl e, m1) \<Rightarrow> (Inl e, m1)
      | (Inr _, m1) \<Rightarrow>
          (case apply_anchored_undervolt v settle polls target anchor_mv (mc_gpu m1) of
             (Inl e, g) \<Rightarrow> (Inl (UndervoltFailed e), m1\<lparr>mc_gpu := g\<rparr>)
           | (Inr _, g) \<Rightarrow>
               (case apply_mem_offset v mem g of
                  (Inl e, g1) \<Rightarrow>
                    (case reset_all v (reset_to_stock v g1) of
                       (Inl e', g2) \<Rightarrow> (Inl (MemOffsetRefused e (Some e')), m1\<lparr>mc_gpu := g2\<rparr>)
                     | (Inr _, g2) \<Rightarrow> (Inl (MemOffsetRefused e None), m1\<lparr>mc_gpu := g2\<rparr>))
                | (Inr _, g1) \<Rightarrow>
                    (Inr (), remember_profile cx
                       \<lparr>ap_label = label,
                        ap_core = Some \<lparr>vp_freq_mhz = target, vp_voltage_mv = anchor_mv\<rparr>,
                        ap_mem_offset = mem, ap_applied_at = Some now,
                        ap_undervolt = Some \<lparr>uv_target_mhz = target, uv_anchor_mv = anchor_mv\<rparr>\<rparr>
                       (m1\<lparr>mc_gpu := g1\<rparr>)))))"

section \<open>Reset and boot\<close>

definition err_of :: "(driver_error, unit) result \<Rightarrow> driver_error option" where
  "err_of r = (case r of Inl e \<Rightarrow> Some e | Inr _ \<Rightarrow> None)"

text \<open>Both hardware resets run, whatever the first one returns.\<close>

definition reset_hardware :: "'g vendor \<Rightarrow> 'g \<Rightarrow> (driver_error option \<times> driver_error option) \<times> 'g" where
  "reset_hardware v g =
     (case reset_core_clock_lock v g of (r1, g1) \<Rightarrow>
      case reset_all v g1 of (r2, g2) \<Rightarrow> ((err_of r1, err_of r2), g2))"

definition gpu_reset :: "'g vendor \<Rightarrow> codecs \<Rightarrow> 'g machine \<Rightarrow> (gpu_apply_error, unit) result \<times> 'g machine" where
  "gpu_reset v cx m =
     (case reset_hardware v (mc_gpu m) of
        ((clock_err, gpu_err), g) \<Rightarrow>
          if clock_err \<noteq> None \<or> gpu_err \<noteq> None
          then (Inl (ResetIncomplete clock_err gpu_err), m\<lparr>mc_gpu := g\<rparr>)
          else (let d1 = clear_applied (mc_disk m);
                    r = clear_recovery_latch (load_record (cx_record cx) d1)
                in case save_record (cx_record cx) r d1 of (res_r, d2) \<Rightarrow>
                   case clear_boot_flag d2 of (res_f, d3) \<Rightarrow>
                     ((case res_r of
                         Inl e \<Rightarrow> Inl (RecordNotCleared e)
                       | Inr _ \<Rightarrow> (case res_f of Inl e \<Rightarrow> Inl (FlagNotCleared e) | Inr _ \<Rightarrow> Inr ())),
                      m\<lparr>mc_gpu := g, mc_disk := d3\<rparr>)))"

definition reapply_on_boot ::
  "'g vendor \<Rightarrow> ('g \<Rightarrow> (u32 \<times> u32) list option) \<Rightarrow> ('g \<Rightarrow> 'g) \<Rightarrow> nat \<Rightarrow> codecs \<Rightarrow> string \<Rightarrow> bool \<Rightarrow>
   'g machine \<Rightarrow> 'g machine" where
  "reapply_on_boot v legacy settle polls cx now reboot_required m =
     (let g0 = snd (unlock_core_voltage v (snd (reset_core_clock_lock v (mc_gpu m))));
          m0 = m\<lparr>mc_gpu := g0\<rparr>;
          r = load_record (cx_record cx) (mc_disk m0)
      in if reboot_required then m0
         else if is_boot_flag_armed (mc_disk m0)
         then m0\<lparr>mc_disk := snd (clear_boot_flag (mc_disk m0))\<rparr>
         else if safe_mode r then m0
         else if pending_forge_incident r \<noteq> None then m0
         else case load_applied (cx_applied cx) (mc_disk m0) of
                None \<Rightarrow> m0
              | Some ap \<Rightarrow>
                  (case ap_undervolt ap of
                     Some uv \<Rightarrow>
                       snd (apply_and_persist_undervolt v settle polls cx now (ap_label ap)
                              (uv_target_mhz uv) (uv_anchor_mv uv) (ap_mem_offset ap) m0)
                   | None \<Rightarrow>
                       snd (apply_and_persist v legacy cx now (ap_label ap) (ap_core ap)
                              (ap_mem_offset ap) m0)))"

text \<open>One second of the service: every timer counts down, and one that reaches zero clears the flag.\<close>

definition tick :: "'g machine \<Rightarrow> 'g machine" where
  "tick m =
     (let left = map (\<lambda>t. t - 1) (mc_timers m)
      in m\<lparr>mc_timers := filter (\<lambda>t. t > 0) left,
           mc_disk := (if 0 \<in> set left then snd (clear_boot_flag (mc_disk m)) else mc_disk m)\<rparr>)"

section \<open>The manual point\<close>

record manual_status =
  ms_active :: bool
  ms_target :: "u32 option"
  ms_requested :: "u32 option"
  ms_resolved :: "u32 option"
  ms_applied_at :: "u64 option"
  ms_verified :: bool

definition idle_status :: manual_status where
  "idle_status = \<lparr>ms_active = False, ms_target = None, ms_requested = None, ms_resolved = None,
                  ms_applied_at = None, ms_verified = False\<rparr>"

datatype manual_apply_error =
  AlreadyActive
| ClockOutOfRange
| VoltageOutOfBounds
| SafeModeActive
| RecoveryArmed
| NotResolved manual_error
| ManualResetFailed "driver_error option" "driver_error option"
| ManualApplyFailed gpu_apply_error "gpu_apply_error option"

definition apply_resolved_point ::
  "'g vendor \<Rightarrow> ('g \<Rightarrow> 'g) \<Rightarrow> nat \<Rightarrow> codecs \<Rightarrow> string \<Rightarrow> u32 \<Rightarrow> u32 \<Rightarrow> i32 \<Rightarrow> string \<Rightarrow>
   'g machine \<Rightarrow> (gpu_apply_error, unit) result \<times> 'g machine" where
  "apply_resolved_point v settle polls cx now target mv offset source m =
     (case arm cx (from_axes [(''gpu_freq_mhz'', int target), (''gpu_vf_bin_mv'', int mv),
                              (''gpu_offset_mhz'', offset)]) source now m of
        (Inl e, m1) \<Rightarrow> (Inl e, m1)
      | (Inr _, m1) \<Rightarrow>
          (case apply_anchored_undervolt v settle polls target mv (mc_gpu m1) of
             (Inl e, g) \<Rightarrow> (Inl (UndervoltFailed e), m1\<lparr>mc_gpu := g\<rparr>)
           | (Inr _, g) \<Rightarrow> (Inr (), m1\<lparr>mc_gpu := g\<rparr>)))"

definition reset_and_disarm ::
  "'g vendor \<Rightarrow> 'g machine \<Rightarrow> (gpu_apply_error, unit) result \<times> 'g machine" where
  "reset_and_disarm v m =
     (case reset_hardware v (mc_gpu m) of
        ((clock_err, vf_err), g) \<Rightarrow>
          if clock_err \<noteq> None \<or> vf_err \<noteq> None
          then (Inl (ResetIncomplete clock_err vf_err), m\<lparr>mc_gpu := g\<rparr>)
          else (case clear_boot_flag (clear_applied (mc_disk m)) of
                  (Inl e, d) \<Rightarrow> (Inl (FlagNotCleared e), m\<lparr>mc_gpu := g, mc_disk := d\<rparr>)
                | (Inr _, d) \<Rightarrow> (Inr (), m\<lparr>mc_gpu := g, mc_disk := d\<rparr>)))"

definition manual_point_apply ::
  "'g vendor \<Rightarrow> ('g \<Rightarrow> 'g) \<Rightarrow> nat \<Rightarrow> codecs \<Rightarrow> string \<Rightarrow> u64 option \<Rightarrow> u32 \<Rightarrow> u32 \<Rightarrow>
   manual_status \<times> 'g machine \<Rightarrow> (manual_apply_error, manual_status) result \<times> manual_status \<times> 'g machine" where
  "manual_point_apply v settle polls cx now epoch target requested sm =
     (case sm of (st, m) \<Rightarrow>
      if ms_active st then (Inl AlreadyActive, sm)
      else if \<not> (300 \<le> target \<and> target \<le> 4000) then (Inl ClockOutOfRange, sm)
      else if \<not> (500 \<le> requested \<and> requested \<le> 1250) then (Inl VoltageOutOfBounds, sm)
      else if safe_mode (load_record (cx_record cx) (mc_disk m)) then (Inl SafeModeActive, sm)
      else if is_boot_flag_armed (mc_disk m) then (Inl RecoveryArmed, sm)
      else case resolve_manual_diagnostic_point v target requested (mc_gpu m) of
        Inl e \<Rightarrow> (Inl (NotResolved e), sm)
      | Inr (mv, offset) \<Rightarrow>
          (case reset_hardware v (mc_gpu m) of
             ((clock_err, vf_err), g) \<Rightarrow>
               if clock_err \<noteq> None \<or> vf_err \<noteq> None
               then (Inl (ManualResetFailed clock_err vf_err), st, m\<lparr>mc_gpu := g\<rparr>)
               else (let m1 = m\<lparr>mc_gpu := g, mc_disk := clear_applied (mc_disk m)\<rparr>
                     in case apply_resolved_point v settle polls cx now target mv offset
                               ''manual_diagnostic_point'' m1 of
                          (Inl e, m2) \<Rightarrow>
                            (case reset_and_disarm v m2 of
                               (Inr _, m3) \<Rightarrow> (Inl (ManualApplyFailed e None), st, m3)
                             | (Inl e', m3) \<Rightarrow> (Inl (ManualApplyFailed e (Some e')), st, m3))
                        | (Inr _, m2) \<Rightarrow>
                            (let st' = \<lparr>ms_active = True, ms_target = Some target,
                                        ms_requested = Some requested, ms_resolved = Some mv,
                                        ms_applied_at = epoch, ms_verified = True\<rparr>
                             in (Inr st', st', m2)))))"

definition manual_point_reset ::
  "'g vendor \<Rightarrow> manual_status \<times> 'g machine \<Rightarrow> (gpu_apply_error, manual_status) result \<times> manual_status \<times> 'g machine" where
  "manual_point_reset v sm =
     (case sm of (st, m) \<Rightarrow>
      (case reset_and_disarm v m of
         (Inl e, m') \<Rightarrow> (Inl e, st, m')
       | (Inr _, m') \<Rightarrow> (Inr idle_status, idle_status, m')))"

section \<open>Lemmas\<close>

lemma applied_file_other:
  "applied_file \<noteq> boot_flag_file" "applied_file \<noteq> record_file" "applied_file \<noteq> clean_shutdown_file"
  by (simp_all add: applied_file_def file_names)

lemma armed_save_applied [simp]: "is_boot_flag_armed (save_applied c p d) = is_boot_flag_armed d"
  by (auto simp: save_applied_def is_boot_flag_armed_def fs_exists_write_other applied_file_other
      split: option.split)

lemma armed_clear_applied [simp]: "is_boot_flag_armed (clear_applied d) = is_boot_flag_armed d"
  by (simp add: clear_applied_def is_boot_flag_armed_def fs_remove_def fs_exists_def
      applied_file_other [symmetric])

lemma save_applied_refused [simp]: "refused (save_applied c p d) = refused d"
  by (auto simp: save_applied_def fs_write_def split: option.split)

lemma arm_Inr: "arm cx i ph now m = (Inr u, m') \<Longrightarrow>
    mc_gpu m' = mc_gpu m \<and> mc_timers m' = mc_timers m \<and> is_boot_flag_armed (mc_disk m') \<and>
    refused (mc_disk m') = refused (mc_disk m)"
  using store_flag.arm_ok [of "cx_flag cx" "\<lparr>bf_intent = i, bf_phase = ph, bf_timestamp = now\<rparr>" "mc_disk m"]
  by (auto simp: arm_def store_defs fs_defs split: sum.splits prod.splits option.splits if_splits)

lemma arm_Inl: "arm cx i ph now m = (Inl e, m') \<Longrightarrow> m' = m \<and> (\<exists>io. e = ArmFailed io)"
proof -
  assume a: "arm cx i ph now m = (Inl e, m')"
  then obtain io d where r: "arm_boot_flag (cx_flag cx)
      \<lparr>bf_intent = i, bf_phase = ph, bf_timestamp = now\<rparr> (mc_disk m) = (Inl io, d)"
    and m': "m' = m\<lparr>mc_disk := d\<rparr>" "e = ArmFailed io"
    by (auto simp: arm_def split: sum.splits prod.splits)
  have "d = mc_disk m"
    using store_flag.arm_err [of "cx_flag cx" _ "mc_disk m" io] r by (metis fst_conv snd_conv)
  then show ?thesis using m' by simp
qed

lemma remember_simps [simp]:
  "mc_gpu (remember_profile cx p m) = mc_gpu m"
  "mc_timers (remember_profile cx p m) = mc_timers m @ [8]"
  "is_boot_flag_armed (mc_disk (remember_profile cx p m)) = is_boot_flag_armed (mc_disk m)"
  "refused (mc_disk (remember_profile cx p m)) = refused (mc_disk m)"
  by (simp_all add: remember_profile_def start_timer_def)

text \<open>Either apply, seen from outside: refused untouched, or armed.\<close>

lemma apply_persist_cases:
  assumes "apply_and_persist v legacy cx now label core mem m = (r, m')"
  shows "(m' = m \<and> (\<exists>e. r = Inl (ArmFailed e))) \<or>
    (is_boot_flag_armed (mc_disk m') \<and> refused (mc_disk m') = refused (mc_disk m) \<and>
     mc_timers m' = (if is_err r then mc_timers m else mc_timers m @ [8]))"
proof (cases "arm cx (apply_intent core mem) ''gpu_apply'' now m")
  case (Pair x m1)
  show ?thesis
  proof (cases x)
    case (Inl e)
    then show ?thesis using assms Pair arm_Inl by (fastforce simp: apply_and_persist_def)
  next
    case (Inr u)
    note A = arm_Inr [OF Pair [unfolded Inr]]
    show ?thesis
      using assms Pair Inr A
      by (auto simp: apply_and_persist_def split: sum.splits prod.splits)
  qed
qed

lemma apply_undervolt_cases:
  assumes "apply_and_persist_undervolt v settle polls cx now label target mv mem m = (r, m')"
  shows "(m' = m \<and> (\<exists>e. r = Inl (ArmFailed e))) \<or>
    (is_boot_flag_armed (mc_disk m') \<and> refused (mc_disk m') = refused (mc_disk m) \<and>
     mc_timers m' = (if is_err r then mc_timers m else mc_timers m @ [8]))"
proof (cases "arm cx (apply_intent (Some \<lparr>vp_freq_mhz = target, vp_voltage_mv = mv\<rparr>) mem)
    ''gpu_apply_undervolt'' now m")
  case (Pair x m1)
  show ?thesis
  proof (cases x)
    case (Inl e)
    then show ?thesis using assms Pair arm_Inl by (fastforce simp: apply_and_persist_undervolt_def)
  next
    case (Inr u)
    note A = arm_Inr [OF Pair [unfolded Inr]]
    show ?thesis
      using assms Pair Inr A
      by (auto simp: apply_and_persist_undervolt_def split: sum.splits prod.splits)
  qed
qed

definition ticks :: "nat \<Rightarrow> 'g machine \<Rightarrow> 'g machine" where
  "ticks n m = (tick ^^ n) m"

lemma ticks_Suc: "ticks (Suc n) m = ticks n (tick m)"
  by (simp add: ticks_def funpow_swap1)

lemma ticks_0 [simp]: "ticks 0 m = m"
  by (simp add: ticks_def)

lemma clear_flag_ok: "\<not> refused d boot_flag_file \<Longrightarrow> \<not> is_boot_flag_armed (snd (clear_boot_flag d))"
  using store_flag.clear_ok [of d]
  by (auto simp: clear_boot_flag_def remove_if_present_cases is_boot_flag_armed_def fs_exists_def)

text \<open>While every timer is still running the flag is left alone.\<close>

lemma ticks_running:
  "\<forall>t\<in>set (mc_timers m). n < t \<Longrightarrow>
   mc_disk (ticks n m) = mc_disk m \<and> mc_timers (ticks n m) = map (\<lambda>t. t - n) (mc_timers m)"
proof (induction n arbitrary: m)
  case 0
  then show ?case by simp
next
  case (Suc n)
  have t1: "mc_disk (tick m) = mc_disk m \<and> mc_timers (tick m) = map (\<lambda>t. t - 1) (mc_timers m)"
    using Suc.prems by (auto simp: tick_def Let_def filter_id_conv)
  then have "\<forall>t\<in>set (mc_timers (tick m)). n < t" using Suc.prems by auto
  from Suc.IH [OF this] show ?case using t1 by (simp add: ticks_Suc)
qed

lemma ticks_fire:
  assumes "t \<in> set (mc_timers m)" "0 < t" "\<forall>s\<in>set (mc_timers m). t \<le> s"
    "\<not> refused (mc_disk m) boot_flag_file"
  shows "\<not> is_boot_flag_armed (mc_disk (ticks t m)) \<and>
    mc_timers (ticks t m) = map (\<lambda>s. s - t) (filter (\<lambda>s. t < s) (mc_timers m))"
proof -
  obtain n where n: "t = Suc n" using assms(2) by (cases t) auto
  have "\<forall>s\<in>set (mc_timers m). n < s" using assms(3) n by auto
  note R = ticks_running [OF this]
  have "ticks t m = tick (ticks n m)" unfolding n ticks_def by simp
  moreover have "0 \<in> (\<lambda>s. s - Suc 0) ` (\<lambda>s. s - n) ` set (mc_timers m)"
    using assms(1) n by (force simp: image_image)
  ultimately show ?thesis
    using R clear_flag_ok assms(4) n
    by (auto simp: tick_def Let_def filter_map comp_def image_image)
qed

section \<open>Properties\<close>

text \<open>C16: the card is never touched without the flag: when either apply has changed the card, whether it
  then succeeded or failed, the boot flag is armed, so a crash of that apply is accounted for.\<close>

theorem no_write_without_flag:
  assumes "apply_and_persist v legacy cx now label core mem m = (r1, m1)"
    and "apply_and_persist_undervolt v settle polls cx now label target mv mem m = (r2, m2)"
  shows "(mc_gpu m1 \<noteq> mc_gpu m \<longrightarrow> is_boot_flag_armed (mc_disk m1)) \<and>
    (mc_gpu m2 \<noteq> mc_gpu m \<longrightarrow> is_boot_flag_armed (mc_disk m2))"
  using apply_persist_cases [OF assms(1)] apply_undervolt_cases [OF assms(2)] by auto

text \<open>A machine whose files are writable and whose codecs know one document each.\<close>

definition toy_disk :: disk where
  "toy_disk = \<lparr>files = (\<lambda>_. None), refused = (\<lambda>_. False), unreadable = (\<lambda>_. False), dir_refused = False\<rparr>"

definition toy_codecs :: codecs where
  "toy_codecs =
     \<lparr>cx_flag = \<lparr>enc = (\<lambda>_. Some ''f''), dec = (\<lambda>s. if s = ''f'' then Some (sample_flag ''apply'') else None)\<rparr>,
      cx_record = \<lparr>enc = (\<lambda>_. Some ''r''), dec = (\<lambda>s. if s = ''r'' then Some default_record else None)\<rparr>,
      cx_applied = \<lparr>enc = (\<lambda>_. Some ''p''),
        dec = (\<lambda>s. if s = ''p''
                   then Some \<lparr>ap_label = ''l'', ap_core = None, ap_mem_offset = None, ap_applied_at = None,
                              ap_undervolt = Some \<lparr>uv_target_mhz = 1900, uv_anchor_mv = 850\<rparr>\<rparr>
                   else None)\<rparr>\<rparr>"

definition toy_machine :: "nat list \<Rightarrow> toy_card machine" where
  "toy_machine ts = \<lparr>mc_disk = toy_disk, mc_gpu = stock_card, mc_timers = ts\<rparr>"

lemma toy_arm: "arm toy_codecs i ph now (toy_machine ts) =
    (Inr (), (toy_machine ts)\<lparr>mc_disk := toy_disk\<lparr>files := [boot_flag_file \<mapsto> ''f'']\<rparr>\<rparr>)"
  by (simp add: arm_def toy_machine_def toy_disk_def toy_codecs_def store_defs fs_defs fun_upd_def)

lemma toy_undervolt_apply:
  "fst (apply_and_persist_undervolt (toy_vendor False) (\<lambda>g. g) 20 toy_codecs now label 1900 850 None
     (toy_machine ts)) = Inr ()"
proof -
  obtain g' where "apply_anchored_undervolt (toy_vendor False) (\<lambda>g. g) 20 1900 850 stock_card = (Inr (), g')"
    using toy_apply [of False] by auto
  then show ?thesis
    unfolding apply_and_persist_undervolt_def toy_arm by (simp add: toy_machine_def apply_mem_offset_def)
qed

theorem no_write_without_flag_witness:
  "\<exists>m'. apply_and_persist_undervolt (toy_vendor False) (\<lambda>g. g) 20 toy_codecs ''now'' ''label'' 1900 850 None
      (toy_machine []) = (Inr (), m') \<and> mc_gpu m' \<noteq> mc_gpu (toy_machine []) \<and>
    is_boot_flag_armed (mc_disk m')"
proof -
  obtain g' where "apply_anchored_undervolt (toy_vendor False) (\<lambda>g. g) 20 1900 850 stock_card = (Inr (), g')"
    "snd g' = 850000"
    using toy_apply [of False] by auto
  then obtain m' where r: "apply_and_persist_undervolt (toy_vendor False) (\<lambda>g. g) 20 toy_codecs ''now'' ''label''
      1900 850 None (toy_machine []) = (Inr (), m')" and g: "snd (mc_gpu m') = 850000"
    unfolding apply_and_persist_undervolt_def toy_arm
    by (auto simp: toy_machine_def apply_mem_offset_def remember_profile_def start_timer_def)
  have "mc_gpu m' \<noteq> mc_gpu (toy_machine [])" using g by (auto simp: toy_machine_def stock_card_def)
  with no_write_without_flag [OF prod.collapse [symmetric] r] r show ?thesis by blast
qed

text \<open>The window of eight seconds after a successful apply holds only when no earlier window is open:
  alone, the flag stays armed for seven ticks and is cleared by the eighth; with a timer of an earlier
  apply still running, that timer disarms the new apply early, while its own timer has time left.\<close>

lemma survival_window:
  assumes "apply_and_persist_undervolt v settle polls cx now label target mv mem m = (Inr u, m')"
    and "\<not> refused (mc_disk m) boot_flag_file"
  shows "(mc_timers m = [] \<longrightarrow>
      (\<forall>n<8. is_boot_flag_armed (mc_disk (ticks n m'))) \<and> \<not> is_boot_flag_armed (mc_disk (ticks 8 m'))) \<and>
    (mc_timers m = [t] \<and> 0 < t \<and> t < 8 \<longrightarrow>
      \<not> is_boot_flag_armed (mc_disk (ticks t m')) \<and> mc_timers (ticks t m') = [8 - t])"
proof -
  have A: "is_boot_flag_armed (mc_disk m')" "refused (mc_disk m') = refused (mc_disk m)"
    "mc_timers m' = mc_timers m @ [8]"
    using apply_undervolt_cases [OF assms(1)] by auto
  show ?thesis
  proof (intro conjI impI allI)
    fix n :: nat assume "mc_timers m = []" "n < 8"
    then show "is_boot_flag_armed (mc_disk (ticks n m'))"
      using ticks_running [of m' n] A by simp
  next
    assume "mc_timers m = []"
    then show "\<not> is_boot_flag_armed (mc_disk (ticks 8 m'))"
      using ticks_fire [of 8 m'] A assms(2) by simp
  next
    assume "mc_timers m = [t] \<and> 0 < t \<and> t < 8"
    then show "\<not> is_boot_flag_armed (mc_disk (ticks t m'))" "mc_timers (ticks t m') = [8 - t]"
      using ticks_fire [of t m'] A assms(2) by simp_all
  qed
qed

text \<open>The service re-applies a profile at boot only when nothing forbids it: with a driver reset in this
  boot, an armed flag, Safe Mode or a pending incident the card only has its clock and voltage locks
  released and no timer starts; an armed flag is cleared on the way, unless a reboot is required.\<close>

lemma reapply_guarded:
  assumes "reboot_required \<or> is_boot_flag_armed (mc_disk m) \<or>
      safe_mode (load_record (cx_record cx) (mc_disk m)) \<or>
      pending_forge_incident (load_record (cx_record cx) (mc_disk m)) \<noteq> None"
    and "m' = reapply_on_boot v legacy settle polls cx now reboot_required m"
  shows "mc_gpu m' = snd (unlock_core_voltage v (snd (reset_core_clock_lock v (mc_gpu m)))) \<and>
    mc_timers m' = mc_timers m \<and>
    mc_disk m' = (if \<not> reboot_required \<and> is_boot_flag_armed (mc_disk m)
                  then snd (clear_boot_flag (mc_disk m)) else mc_disk m)"
  unfolding assms(2) reapply_on_boot_def Let_def
  by (rule disjE [OF assms(1)]) (auto split: option.split)

text \<open>A reset that reports success leaves a service that may tune again and remembers what it learned:
  Safe Mode is off, the streak is zero, the blacklist and the incidents are those of before, no profile
  is left to re-apply, and the boot flag is disarmed.\<close>

lemma reset_forgets_profile_only:
  assumes "gpu_reset v cx m = (Inr u, m')"
    and "r = load_record (cx_record cx) (mc_disk m)"
    and "enc (cx_record cx) (clear_recovery_latch r) = Some s"
    and "dec (cx_record cx) (strip_bom s) = Some (clear_recovery_latch r)"
    and "\<not> refused (mc_disk m) applied_file" "\<not> unreadable (mc_disk m) record_file"
  shows "load_record (cx_record cx) (mc_disk m') = clear_recovery_latch r \<and>
    \<not> safe_mode (clear_recovery_latch r) \<and> consecutive_crashes (clear_recovery_latch r) = 0 \<and>
    blacklist (clear_recovery_latch r) = blacklist r \<and>
    load_applied (cx_applied cx) (mc_disk m') = None \<and> \<not> is_boot_flag_armed (mc_disk m')"
proof -
  define d1 where "d1 = clear_applied (mc_disk m)"
  have d1: "load_record (cx_record cx) d1 = r"
    by (auto simp: d1_def assms(2) load_record_def clear_applied_def fs_remove_def fs_read_def
        applied_file_def record_file_def split: option.split)
  obtain d2 d3 where s2: "save_record (cx_record cx) (clear_recovery_latch r) d1 = (Inr (), d2)"
    and s3: "clear_boot_flag d2 = (Inr (), d3)" and m': "mc_disk m' = d3"
    using assms(1) d1
    by (auto simp: gpu_reset_def d1_def [symmetric] Let_def split: prod.splits if_splits sum.splits)
  have io: "\<not> refused d1 record_file" "\<not> dir_refused d1"
    using s2 assms(3) by (auto simp: store_defs fs_defs split: if_splits)
  have un: "\<not> unreadable d1 record_file"
    using assms(6) by (simp add: d1_def clear_applied_def fs_remove_def)
  have d2: "load_record (cx_record cx) d2 = clear_recovery_latch r"
    using load_after_save [OF assms(3,4) io(1) un io(2)] s2 by simp
  have rec: "load_record (cx_record cx) d3 = clear_recovery_latch r"
    using d2 s3 fs_read_remove_other [of boot_flag_file record_file d2]
    by (simp add: load_record_def clear_boot_flag_def file_names)
  have gone: "files d1 applied_file = None"
    using assms(5) by (auto simp: d1_def clear_applied_def fs_remove_def)
  have "files d2 applied_file = None"
    using s2 gone by (auto simp: store_defs fs_defs applied_file_def record_file_def split: option.splits if_splits)
  then have "files d3 applied_file = None"
    using s3 by (auto simp: clear_boot_flag_def remove_if_present_cases applied_file_def file_names
        split: if_splits)
  then have "load_applied (cx_applied cx) d3 = None" by (simp add: load_applied_def fs_read_def)
  moreover have "\<not> is_boot_flag_armed d3" using store_flag.clear_ok [of d2] s3 by simp
  ultimately show ?thesis using rec m' by (simp add: clear_recovery_latch_def)
qed

lemma toy_reset_hardware: "reset_hardware (toy_vendor b) (p, l) = ((None, None), (clear_bins p, 0))"
proof -
  have "reset_core_clock_lock (toy_vendor b) g = (Inr (), g)" for g
    by (simp add: reset_core_clock_lock_def toy_vendor_def drv_of_def)
  then show ?thesis by (simp add: reset_hardware_def toy_reset_all err_of_def)
qed

text \<open>Forgetting everything that was learned deletes the observations and the legacy knowledge and
  nothing else: the condemnation ledger, the record, the boot flag and the profile are as before.\<close>

lemma clear_learning_frame:
  assumes "f \<noteq> observations_file" and "f \<noteq> knowledge_file"
  shows "files (snd (clear_all_learning d)) f = files d f \<and>
    (fst (clear_all_learning d) = [] \<longrightarrow>
       files (snd (clear_all_learning d)) observations_file = None \<and>
       files (snd (clear_all_learning d)) knowledge_file = None)"
  using assms
  by (auto simp: clear_all_learning_def remove_if_present_cases observations_file_def knowledge_file_def
      split: if_splits)

end
