(* ===== verification/VfFloor.thy ===== *)
theory VfFloor
  imports Prelude
begin

text \<open>
  The voltage-floor envelope that \<open>vf_floor_envelope\<close> of \<open>crates/core/src/condemnation.rs\<close> and
  \<open>field_vf_floor_mv\<close> of \<open>crates/service/src/gpu_undervolt.rs\<close> compute: the running maximum of the
  condemned voltages by clock, interpolated with the quotient rounded up, held flat above the last
  clock. Proved here: its shape, that it dominates every condemned pair, and that it is monotone in
  the clock. The bound \<open>small\<close> keeps the 64-bit products from wrapping.
\<close>

section \<open>The envelope\<close>

definition i64_min :: i64 where
  "i64_min = - (2 ^ 63)"

fun env_build :: "i64 \<Rightarrow> (i64 \<times> i64) list \<Rightarrow> (i64 \<times> i64) list \<Rightarrow> (i64 \<times> i64) list" where
  "env_build worst env [] = env"
| "env_build worst env ((clock, mv) # pts) =
     (let w = max worst mv
      in env_build w
           (if env \<noteq> [] \<and> fst (last env) = clock then butlast env @ [(clock, w)]
            else env @ [(clock, w)]) pts)"

definition running_envelope :: "(i64 \<times> i64) list \<Rightarrow> (i64 \<times> i64) list" where
  "running_envelope pts = env_build i64_min [] (sort pts)"

definition interpolate_ceil :: "i64 \<Rightarrow> i64 \<Rightarrow> i64 \<Rightarrow> i64 \<Rightarrow> i64 \<Rightarrow> i64" where
  "interpolate_ceil c0 v0 c1 v1 clock =
     i64_add v0
       (i64_div
          (i64_sub (i64_add (i64_mul (i64_sub v1 v0) (i64_sub clock c0)) (i64_sub c1 c0)) 1)
          (i64_sub c1 c0))"

fun env_walk :: "i64 \<Rightarrow> i64 \<Rightarrow> (i64 \<times> i64) list \<Rightarrow> i64" where
  "env_walk clock floor ((c0, v0) # (c1, v1) # env) =
     (if clock \<ge> c1 then env_walk clock v1 ((c1, v1) # env)
      else if clock > c0 then interpolate_ceil c0 v0 c1 v1 clock
      else floor)"
| "env_walk clock floor _ = floor"

definition envelope_at :: "(i64 \<times> i64) list \<Rightarrow> i64 \<Rightarrow> i64 option" where
  "envelope_at pts clock =
     (case running_envelope pts of
        [] \<Rightarrow> None
      | (c, v) # env \<Rightarrow> if clock < c then None else Some (env_walk clock v ((c, v) # env)))"

section \<open>Its shape\<close>

definition small :: "i64 \<Rightarrow> bool" where
  "small x \<longleftrightarrow> 0 \<le> x \<and> x < 2 ^ 31"

definition env_ok :: "(i64 \<times> i64) list \<Rightarrow> bool" where
  "env_ok env \<longleftrightarrow> sorted_wrt (\<lambda>a b. fst a < fst b \<and> snd a \<le> snd b) env"

lemma env_ok_simps [simp]:
  "env_ok []"
  "env_ok ((c, v) # env) \<longleftrightarrow> (\<forall>p\<in>set env. c < fst p \<and> v \<le> snd p) \<and> env_ok env"
  by (auto simp: env_ok_def)

lemma env_ok_snoc:
  "env_ok (env @ [(c, v)]) \<longleftrightarrow> env_ok env \<and> (\<forall>p\<in>set env. fst p < c \<and> snd p \<le> v)"
  by (auto simp: env_ok_def sorted_wrt_append)

lemma env_ok_last:
  "env_ok env \<Longrightarrow> p \<in> set env \<Longrightarrow> fst p \<le> fst (last env) \<and> snd p \<le> snd (last env)"
  by (induction env rule: rev_induct) (fastforce simp: env_ok_snoc)+

lemma env_ok_unique: "env_ok env \<Longrightarrow> p \<in> set env \<Longrightarrow> q \<in> set env \<Longrightarrow> fst p = fst q \<Longrightarrow> p = q"
  by (induction env) fastforce+

definition env_state :: "i64 \<Rightarrow> (i64 \<times> i64) list \<Rightarrow> bool" where
  "env_state worst env \<longleftrightarrow> env_ok env \<and> (env \<noteq> [] \<longrightarrow> snd (last env) = worst)"

lemma env_push_state:
  fixes worst clock mv :: i64 and env :: "(i64 \<times> i64) list"
  assumes st: "env_state worst env" and le: "\<forall>p\<in>set env. fst p \<le> clock"
  defines "w \<equiv> max worst mv"
  defines "env' \<equiv> (if env \<noteq> [] \<and> fst (last env) = clock then butlast env @ [(clock, w)]
                    else env @ [(clock, w)])"
  shows "env_state w env'" and "\<forall>p\<in>set env'. fst p \<le> clock"
    and "(clock, w) \<in> set env'"
    and "p \<in> set env \<Longrightarrow> \<exists>q\<in>set env'. fst q = fst p \<and> snd p \<le> snd q"
    and "q \<in> set env' \<Longrightarrow> fst q = clock \<or> q \<in> set env"
proof -
  have ok: "env_ok env" and last: "env \<noteq> [] \<Longrightarrow> snd (last env) = worst"
    using st by (auto simp: env_state_def)
  have hi: "snd p \<le> w" if "p \<in> set env" for p
    using env_ok_last [OF ok that] last that by (cases "env = []") (auto simp: w_def)
  have "env_ok env'"
  proof (cases "env \<noteq> [] \<and> fst (last env) = clock")
    case True
    then obtain env0 v where env: "env = env0 @ [(clock, v)]"
      by (metis append_butlast_last_id prod.collapse)
    show ?thesis using ok hi True by (auto simp: env'_def env env_ok_snoc)
  next
    case False
    have "fst p < clock" if "p \<in> set env" for p
      using env_ok_last [OF ok that] le False that
      by (metis last_in_set le_less_trans length_pos_if_in_set length_greater_0_conv less_le)
    then show ?thesis using ok hi False by (auto simp: env'_def env_ok_snoc)
  qed
  then show "env_state w env'" by (simp add: env_state_def env'_def)
  show "\<forall>p\<in>set env'. fst p \<le> clock" using le by (auto simp: env'_def dest: in_set_butlastD)
  show "(clock, w) \<in> set env'" by (simp add: env'_def)
  show "\<exists>q\<in>set env'. fst q = fst p \<and> snd p \<le> snd q" if p: "p \<in> set env"
  proof (cases "env \<noteq> [] \<and> fst (last env) = clock")
    case True
    then obtain env0 v where env: "env = env0 @ [(clock, v)]"
      by (metis append_butlast_last_id prod.collapse)
    show ?thesis using p hi [OF p] by (auto simp: env'_def env)
  next
    case False
    then show ?thesis using p by (auto simp: env'_def)
  qed
  show "q \<in> set env' \<Longrightarrow> fst q = clock \<or> q \<in> set env"
    by (auto simp: env'_def dest: in_set_butlastD split: if_splits)
qed

definition env_covers :: "(i64 \<times> i64) list \<Rightarrow> (i64 \<times> i64) set \<Rightarrow> bool" where
  "env_covers env P \<longleftrightarrow>
     (\<forall>p\<in>P. \<exists>q\<in>set env. fst q = fst p \<and> snd p \<le> snd q) \<and> (\<forall>q\<in>set env. fst q \<in> fst ` P)"

lemma env_build_props:
  assumes "env_state worst env" and "\<forall>p\<in>set env. \<forall>q\<in>set pts. fst p \<le> fst q"
    and "sorted (map fst pts)" and "env_covers env P"
  shows "env_ok (env_build worst env pts) \<and> env_covers (env_build worst env pts) (P \<union> set pts)"
  using assms
proof (induction worst env pts arbitrary: P rule: env_build.induct)
  case (1 worst env)
  then show ?case by (simp add: env_state_def)
next
  case (2 worst env clock mv pts)
  define w where "w = max worst mv"
  define e where "e = (if env \<noteq> [] \<and> fst (last env) = clock then butlast env @ [(clock, w)]
                       else env @ [(clock, w)])"
  have build: "env_build worst env ((clock, mv) # pts) = env_build w e pts"
    by (simp add: Let_def w_def e_def)
  note IH = "2.IH" [OF w_def, folded e_def]
  have le: "\<forall>p\<in>set env. fst p \<le> clock" using "2.prems"(2) by auto
  note push = env_push_state [OF "2.prems"(1) le, where mv = mv, folded w_def, folded e_def]
  have ord: "\<forall>p\<in>set e. \<forall>q\<in>set pts. fst p \<le> fst q"
    using push(2) "2.prems"(3) by (fastforce dest: order.trans)
  have cov: "env_covers e (insert (clock, mv) P)"
    unfolding env_covers_def
  proof (intro conjI ballI)
    fix p assume "p \<in> insert (clock, mv) P"
    then consider "p = (clock, mv)" | "p \<in> P" by blast
    then show "\<exists>q\<in>set e. fst q = fst p \<and> snd p \<le> snd q"
    proof cases
      case 1
      moreover have "mv \<le> w" by (simp add: w_def)
      ultimately show ?thesis using push(3) by (auto intro!: bexI [of _ "(clock, w)"])
    next
      case 2
      then obtain q where q: "q \<in> set env" "fst q = fst p" "snd p \<le> snd q"
        using "2.prems"(4) by (auto simp: env_covers_def)
      then show ?thesis using push(4) [OF q(1)] by (metis order.trans)
    qed
  next
    fix q assume "q \<in> set e"
    then have "fst q = clock \<or> q \<in> set env" by (rule push(5))
    moreover have "fst q \<in> fst ` P" if "q \<in> set env"
      using "2.prems"(4) that by (simp add: env_covers_def)
    ultimately show "fst q \<in> fst ` insert (clock, mv) P" by auto
  qed
  have srt: "sorted (map fst pts)" using "2.prems"(3) by simp
  have "insert (clock, mv) P \<union> set pts = P \<union> set ((clock, mv) # pts)" by simp
  then show ?case unfolding build using IH [OF push(1) ord srt cov] by (simp only:)
qed

lemma running_envelope_props:
  "env_ok (running_envelope pts)" "env_covers (running_envelope pts) (set pts)"
proof -
  have "sorted (map fst (sort pts))"
    by (rule sorted_map_mono [OF sorted_sort mono_onI]) (auto simp: less_eq_prod_def)
  then have "env_ok (running_envelope pts) \<and> env_covers (running_envelope pts) ({} \<union> set (sort pts))"
    unfolding running_envelope_def
    by (intro env_build_props) (auto simp: env_state_def env_covers_def)
  then show "env_ok (running_envelope pts)" "env_covers (running_envelope pts) (set pts)" by simp_all
qed

lemma running_envelope_cover:
  "p \<in> set pts \<Longrightarrow> \<exists>q\<in>set (running_envelope pts). fst q = fst p \<and> snd p \<le> snd q"
  using running_envelope_props(2) [of pts] by (simp add: env_covers_def)

lemma running_envelope_Nil [simp]: "running_envelope pts = [] \<longleftrightarrow> pts = []"
  using running_envelope_props(2) [of pts] by (cases pts) (auto simp: env_covers_def running_envelope_def)

section \<open>Walking the envelope\<close>

lemma small_i64:
  assumes "small a" "small b" "small c" "small d" "small e"
  shows "is_i64 (a - b)" "is_i64 ((a - b) * (c - d))" "is_i64 ((a - b) * (c - d) + e)"
proof -
  show "is_i64 (a - b)" using assms by (simp add: small_def is_i64_def)
  have "\<bar>a - b\<bar> \<le> 2 ^ 31" "\<bar>c - d\<bar> \<le> 2 ^ 31" using assms by (auto simp: small_def)
  then have "\<bar>(a - b) * (c - d)\<bar> \<le> 2 ^ 31 * 2 ^ 31"
    unfolding abs_mult by (rule mult_mono) auto
  with assms(5) show "is_i64 ((a - b) * (c - d))" "is_i64 ((a - b) * (c - d) + e)"
    by (auto simp: is_i64_def small_def abs_le_iff)
qed

lemma interpolate_ceil_eq:
  assumes sm: "small c0" "small v0" "small c1" "small v1" "small clock"
    and c: "c0 < c1" and clk: "c0 < clock" "clock < c1" and v: "v0 \<le> v1"
  shows "interpolate_ceil c0 v0 c1 v1 clock =
           v0 + ((v1 - v0) * (clock - c0) + (c1 - c0) - 1) div (c1 - c0)" (is "_ = v0 + ?q")
    and "v0 \<le> interpolate_ceil c0 v0 c1 v1 clock"
    and "interpolate_ceil c0 v0 c1 v1 clock \<le> v1"
proof -
  let ?n = "(v1 - v0) * (clock - c0) + (c1 - c0) - 1"
  have "0 \<le> (v1 - v0) * (clock - c0)" using clk v by simp
  then have n0: "0 \<le> ?n" using c by linarith
  have "(v1 - v0) * (clock - c0) \<le> (v1 - v0) * (c1 - c0)"
    using clk v by (intro mult_left_mono) auto
  then have "?n \<le> (v1 - v0) * (c1 - c0) + (c1 - c0 - 1)" by simp
  then have "?q \<le> ((v1 - v0) * (c1 - c0) + (c1 - c0 - 1)) div (c1 - c0)"
    using c by (intro zdiv_mono1) auto
  also have "\<dots> = v1 - v0" using c by simp
  finally have q1: "?q \<le> v1 - v0" .
  have q0: "0 \<le> ?q" using n0 c by (simp add: pos_imp_zdiv_nonneg_iff)
  have sd: "?n sdiv (c1 - c0) = ?q"
    using n0 c by (cases "?n = 0") (simp_all add: signed_divide_int_def sgn_if)
  have w1: "i64_mul (i64_sub v1 v0) (i64_sub clock c0) = (v1 - v0) * (clock - c0)"
    using small_i64 [OF sm(4,2,5,1,1)] small_i64 [OF sm(5,1,5,1,1)]
    by (simp add: i64_mul_def i64_sub_def)
  have s3: "small (c1 - c0)" "small (c1 - c0 - 1)" using sm c by (auto simp: small_def)
  have w2: "i64_sub (i64_add ((v1 - v0) * (clock - c0)) (c1 - c0)) 1 = ?n"
    using small_i64(3) [OF sm(4,2,5,1) s3(1)] small_i64(3) [OF sm(4,2,5,1) s3(2)]
      small_i64(1) [OF sm(3,1,3,1,1)]
    by (simp add: i64_add_def i64_sub_def algebra_simps)
  have w3: "i64_sub c1 c0 = c1 - c0"
    using small_i64(1) [OF sm(3,1,3,1,1)] by (simp add: i64_sub_def)
  have "is_i64 ?q" "is_i64 (v0 + ?q)" using q0 q1 sm by (auto simp: is_i64_def small_def)
  then show eq: "interpolate_ceil c0 v0 c1 v1 clock = v0 + ?q"
    unfolding interpolate_ceil_def w1 w3 w2 i64_div_def sd by (simp add: i64_add_def)
  show "v0 \<le> interpolate_ceil c0 v0 c1 v1 clock" "interpolate_ceil c0 v0 c1 v1 clock \<le> v1"
    unfolding eq using q0 q1 by simp_all
qed

definition env_small :: "(i64 \<times> i64) list \<Rightarrow> bool" where
  "env_small env \<longleftrightarrow> (\<forall>p\<in>set env. small (fst p) \<and> small (snd p))"

lemma env_walk_ge_first:
  assumes "env_ok ((c, v) # env)" "env_small ((c, v) # env)" "small clock" "c \<le> clock"
  shows "v \<le> env_walk clock v ((c, v) # env)"
  using assms
proof (induction env arbitrary: c v)
  case (Cons p env)
  obtain c1 v1 where p: "p = (c1, v1)" by (cases p)
  show ?case
  proof (cases "clock \<ge> c1")
    case True
    have "v1 \<le> env_walk clock v1 ((c1, v1) # env)"
      by (rule Cons.IH) (use Cons.prems True in \<open>auto simp: p env_small_def\<close>)
    with True Cons.prems(1) show ?thesis by (simp add: p)
  next
    case False
    then show ?thesis
      using Cons.prems interpolate_ceil_eq(2) [of c v c1 v1 clock] by (auto simp: p env_small_def)
  qed
qed simp

text \<open>The floor dominates the voltage of every entry at or below the clock.\<close>

lemma env_walk_dominates:
  assumes "env_ok ((c, v) # env)" "env_small ((c, v) # env)" "small clock"
    and "q \<in> set ((c, v) # env)" "fst q \<le> clock" "c \<le> clock"
  shows "snd q \<le> env_walk clock v ((c, v) # env)"
  using assms
proof (induction env arbitrary: c v)
  case (Cons p env)
  obtain c1 v1 where p: "p = (c1, v1)" by (cases p)
  show ?case
  proof (cases "q = (c, v)")
    case True
    then show ?thesis using env_walk_ge_first [of c v "p # env" clock] Cons.prems by simp
  next
    case False
    then have q: "q \<in> set ((c1, v1) # env)" using Cons.prems(4) by (simp add: p)
    then have "c1 \<le> fst q" using Cons.prems(1) by (auto simp: p intro: less_imp_le)
    with Cons.prems(5) have c1: "c1 \<le> clock" by simp
    have "snd q \<le> env_walk clock v1 ((c1, v1) # env)"
      by (rule Cons.IH) (use Cons.prems q c1 in \<open>auto simp: p env_small_def\<close>)
    with c1 show ?thesis by (simp add: p)
  qed
qed simp

lemma env_walk_mono:
  assumes "env_ok ((c, v) # env)" "env_small ((c, v) # env)" "small clock" "small clock'"
    and "c \<le> clock" "clock \<le> clock'"
  shows "env_walk clock v ((c, v) # env) \<le> env_walk clock' v ((c, v) # env)"
  using assms
proof (induction env arbitrary: c v)
  case (Cons p env)
  obtain c1 v1 where p: "p = (c1, v1)" by (cases p)
  have ok1: "env_ok ((c1, v1) # env)" "env_small ((c1, v1) # env)"
    using Cons.prems(1,2) by (auto simp: p env_small_def)
  have cv: "c < c1" "v \<le> v1" "small c" "small v" "small c1" "small v1"
    using Cons.prems(1,2) by (auto simp: p env_small_def)
  consider "c1 \<le> clock" | "clock < c1" "c1 \<le> clock'" | "clock' < c1" by linarith
  then show ?case
  proof cases
    case 1
    then show ?thesis
      using Cons.IH [OF ok1 Cons.prems(3,4) 1 Cons.prems(6)] Cons.prems(6) by (simp add: p)
  next
    case 2
    have "v1 \<le> env_walk clock' v1 ((c1, v1) # env)"
      by (rule env_walk_ge_first [OF ok1 Cons.prems(4) 2(2)])
    moreover have "interpolate_ceil c v c1 v1 clock \<le> v1" if "c < clock"
      using interpolate_ceil_eq(3) [of c v c1 v1 clock] cv that 2 Cons.prems(3) by simp
    ultimately show ?thesis using 2 cv by (auto simp: p)
  next
    case 3
    have ub: "v \<le> interpolate_ceil c v c1 v1 clock'" if "c < clock'"
      using interpolate_ceil_eq(2) [of c v c1 v1 clock'] cv that 3 Cons.prems(4) by simp
    have "interpolate_ceil c v c1 v1 clock \<le> interpolate_ceil c v c1 v1 clock'" if "c < clock"
    proof -
      have "(v1 - v) * (clock - c) \<le> (v1 - v) * (clock' - c)"
        using cv Cons.prems(6) by (intro mult_left_mono) auto
      then have "((v1 - v) * (clock - c) + (c1 - c) - 1) div (c1 - c)
               \<le> ((v1 - v) * (clock' - c) + (c1 - c) - 1) div (c1 - c)"
        using cv by (intro zdiv_mono1) auto
      then show ?thesis
        using interpolate_ceil_eq(1) [of c v c1 v1 clock] interpolate_ceil_eq(1) [of c v c1 v1 clock']
          cv that 3 Cons.prems(3,4,6) by simp
    qed
    with ub show ?thesis using 3 Cons.prems(6) by (auto simp: p)
  qed
qed simp

lemma env_walk_range:
  assumes "env_ok ((c, v) # env)" "env_small ((c, v) # env)" "small clock" "c \<le> clock"
  shows "small (env_walk clock v ((c, v) # env))"
  using assms
proof (induction env arbitrary: c v)
  case Nil
  then show ?case by (simp add: env_small_def)
next
  case (Cons p env)
  obtain c1 v1 where p: "p = (c1, v1)" by (cases p)
  have cv: "c < c1" "v \<le> v1" "small c" "small v" "small c1" "small v1"
    using Cons.prems(1,2) by (auto simp: p env_small_def)
  show ?case
  proof (cases "clock \<ge> c1")
    case True
    then show ?thesis using Cons.IH [of c1 v1] Cons.prems by (auto simp: p env_small_def)
  next
    case False
    then show ?thesis
      using interpolate_ceil_eq(2,3) [of c v c1 v1 clock] cv Cons.prems(3)
      by (auto simp: p small_def)
  qed
qed

section \<open>The floor as the callers use it\<close>

definition pts_small :: "(i64 \<times> i64) list \<Rightarrow> bool" where
  "pts_small pts \<longleftrightarrow> (\<forall>p\<in>set pts. small (fst p) \<and> small (snd p))"

lemma env_build_mvs:
  "q \<in> set (env_build worst env pts) \<Longrightarrow>
   q \<in> set env \<or> snd q = worst \<or> snd q \<in> snd ` set pts"
proof (induction worst env pts rule: env_build.induct)
  case (2 worst env clock mv pts)
  from "2.IH" [OF refl] "2.prems"
  show ?case
    by (auto simp: Let_def max_def dest: in_set_butlastD split: if_splits)
qed simp

lemma running_envelope_small:
  assumes "pts_small pts"
  shows "env_small (running_envelope pts)"
  unfolding env_small_def
proof (intro ballI conjI)
  fix q assume q: "q \<in> set (running_envelope pts)"
  then show "small (fst q)"
    using running_envelope_props(2) [of pts] assms by (force simp: env_covers_def pts_small_def)
  have "snd q \<noteq> i64_min"
  proof
    assume min: "snd q = i64_min"
    have "fst q \<in> fst ` set pts"
      using running_envelope_props(2) [of pts] q by (simp add: env_covers_def)
    then obtain p where "p \<in> set pts" "fst p = fst q" by auto
    then obtain q' where q': "q' \<in> set (running_envelope pts)" "fst q' = fst q" "snd p \<le> snd q'"
      using running_envelope_props(2) [of pts] by (metis env_covers_def)
    have "q' = q"
      using running_envelope_props(1) [of pts] q q'(1,2)
      by (metis env_ok_unique)
    with q'(3) min \<open>p \<in> set pts\<close> assms show False by (auto simp: pts_small_def small_def i64_min_def)
  qed
  then show "small (snd q)"
    using env_build_mvs [of q i64_min "[]" "sort pts"] q assms
    by (auto simp: running_envelope_def pts_small_def)
qed

lemma envelope_at_SomeE:
  assumes "envelope_at pts clock = Some f"
  obtains c v env where "running_envelope pts = (c, v) # env" "c \<le> clock"
    "f = env_walk clock v ((c, v) # env)"
  using assms by (auto simp: envelope_at_def split: list.splits if_splits)

lemma envelope_at_dominates:
  assumes "pts_small pts" "small clock" "p \<in> set pts" "fst p \<le> clock"
  shows "\<exists>f. envelope_at pts clock = Some f \<and> snd p \<le> f \<and> small f"
proof -
  obtain c v env where env: "running_envelope pts = (c, v) # env"
    using assms(3) running_envelope_Nil [of pts] by (cases "running_envelope pts") auto
  obtain q where q: "q \<in> set ((c, v) # env)" "fst q = fst p" "snd p \<le> snd q"
    using running_envelope_cover [OF assms(3)] unfolding env by blast
  have ok: "env_ok ((c, v) # env)" "env_small ((c, v) # env)"
    using running_envelope_props(1) [of pts] running_envelope_small [OF assms(1)] by (simp_all add: env)
  have "c \<le> fst q" using q(1) ok(1) by auto
  then have c: "c \<le> clock" using q(2) assms(4) by simp
  have "snd q \<le> env_walk clock v ((c, v) # env)"
    using q(2) assms(4) by (intro env_walk_dominates [OF ok assms(2) q(1) _ c]) simp
  moreover have "small (env_walk clock v ((c, v) # env))"
    by (rule env_walk_range [OF ok assms(2) c])
  moreover have "envelope_at pts clock = Some (env_walk clock v ((c, v) # env))"
    using c by (simp add: envelope_at_def env)
  ultimately show ?thesis using q(3) by (intro exI [of _ "env_walk clock v ((c, v) # env)"]) auto
qed

lemma envelope_at_mono:
  assumes "pts_small pts" "small clock" "small clock'" "clock \<le> clock'"
    and "envelope_at pts clock = Some f"
  shows "\<exists>f'. envelope_at pts clock' = Some f' \<and> f \<le> f' \<and> small f'"
proof -
  obtain c v env where env: "running_envelope pts = (c, v) # env" and c: "c \<le> clock"
    and f: "f = env_walk clock v ((c, v) # env)"
    using assms(5) by (rule envelope_at_SomeE)
  have ok: "env_ok ((c, v) # env)" "env_small ((c, v) # env)"
    using running_envelope_props(1) [of pts] running_envelope_small [OF assms(1)] by (simp_all add: env)
  have "f \<le> env_walk clock' v ((c, v) # env)"
    unfolding f by (rule env_walk_mono [OF ok assms(2,3) c assms(4)])
  moreover have "small (env_walk clock' v ((c, v) # env))"
    using c assms(4) by (intro env_walk_range [OF ok assms(3)]) simp
  moreover have "envelope_at pts clock' = Some (env_walk clock' v ((c, v) # env))"
    using c assms(4) by (simp add: envelope_at_def env)
  ultimately show ?thesis by blast
qed

lemma envelope_at_small:
  assumes "pts_small pts" "small clock" "envelope_at pts clock = Some f"
  shows "small f"
  using envelope_at_mono [OF assms(1,2,2) order.refl assms(3)] assms(3) by auto

lemma envelope_at_None: "envelope_at pts clock = None \<longleftrightarrow> (\<forall>p\<in>set pts. clock < fst p)"
proof
  assume none: "envelope_at pts clock = None"
  show "\<forall>p\<in>set pts. clock < fst p"
  proof
    fix p assume p: "p \<in> set pts"
    then obtain c v env where env: "running_envelope pts = (c, v) # env"
      using running_envelope_Nil [of pts] by (cases "running_envelope pts") auto
    obtain q where q: "q \<in> set ((c, v) # env)" "fst q = fst p"
      using running_envelope_cover [OF p] unfolding env by blast
    have "c \<le> fst q" using q(1) running_envelope_props(1) [of pts] by (auto simp: env)
    moreover have "clock < c" using none by (simp add: envelope_at_def env split: if_splits)
    ultimately show "clock < fst p" using q(2) by simp
  qed
next
  assume lt: "\<forall>p\<in>set pts. clock < fst p"
  show "envelope_at pts clock = None"
  proof (cases "running_envelope pts")
    case (Cons q env)
    then have "fst q \<in> fst ` set pts"
      using running_envelope_props(2) [of pts] by (simp add: env_covers_def)
    with lt show ?thesis by (cases q) (auto simp: envelope_at_def Cons)
  next
    case Nil
    then show ?thesis by (simp add: envelope_at_def del: running_envelope_Nil)
  qed
qed

end
