(* ===== verification/Condemnation.thy ===== *)
theory Condemnation
  imports VfFloor
begin

text \<open>
  \<open>crates/core/src/condemnation.rs\<close>: the append-only ledger of hard failures. Its events, the
  effective pairs per GPU with rehabilitation, the refusal over the voltage-floor envelope and the
  number of passes a quarantined pair needs. The locale \<open>voltage_refusal\<close> is what the candidate
  searches rely on: refusal is closed towards lower voltages.
\<close>

section \<open>Events and effective pairs\<close>

datatype condemnation_severity = Rigid | Quarantine

record condemnation_event =
  ev_timestamp :: string
  ev_gpu_key :: "string option"
  ev_severity :: condemnation_severity
  ev_kind :: string
  ev_target_mhz :: u32
  ev_vf_bin_mv :: u32
  ev_run_id :: "string option"
  ev_contract :: "u32 option"
  ev_note :: "string option"
  ev_rehabilitated :: bool

record condemned_pairs =
  rigid :: "(u32 \<times> u32) list"
  quarantine :: "(u32 \<times> u32) list"
  quarantine_contracts :: "(u32 \<times> u32 \<times> u32 option) list"

definition no_pairs :: condemned_pairs where
  "no_pairs = \<lparr>rigid = [], quarantine = [], quarantine_contracts = []\<rparr>"

definition ev_pair :: "condemnation_event \<Rightarrow> u32 \<times> u32" where
  "ev_pair e = (ev_target_mhz e, ev_vf_bin_mv e)"

text \<open>An event without a key matches every GPU.\<close>

definition foreign_key :: "condemnation_event \<Rightarrow> string \<Rightarrow> bool" where
  "foreign_key e gpu = is_some_and (ev_gpu_key e) (\<lambda>k. k \<noteq> gpu)"

definition cancels :: "condemnation_event \<Rightarrow> string \<Rightarrow> condemnation_event \<Rightarrow> bool" where
  "cancels r gpu e \<longleftrightarrow>
     ev_rehabilitated r \<and> ev_target_mhz r = ev_target_mhz e \<and> ev_vf_bin_mv r = ev_vf_bin_mv e \<and>
     \<not> foreign_key r gpu"

definition push_event :: "condemnation_event \<Rightarrow> condemned_pairs \<Rightarrow> condemned_pairs" where
  "push_event e out =
     (case ev_severity e of
        Rigid \<Rightarrow> out\<lparr>rigid := rigid out @ [ev_pair e]\<rparr>
      | Quarantine \<Rightarrow>
          out\<lparr>quarantine := quarantine out @ [ev_pair e],
              quarantine_contracts :=
                quarantine_contracts out @ [(ev_target_mhz e, ev_vf_bin_mv e, ev_contract e)]\<rparr>)"

fun condemned_loop ::
  "string \<Rightarrow> condemned_pairs \<Rightarrow> condemnation_event list \<Rightarrow> condemned_pairs" where
  "condemned_loop gpu out [] = out"
| "condemned_loop gpu out (e # later) =
     (if foreign_key e gpu \<or> ev_rehabilitated e then condemned_loop gpu out later
      else if \<exists>r\<in>set later. cancels r gpu e then condemned_loop gpu out later
      else condemned_loop gpu (push_event e out) later)"

definition condemned_pairs_of :: "condemnation_event list \<Rightarrow> string \<Rightarrow> condemned_pairs" where
  "condemned_pairs_of events gpu = condemned_loop gpu no_pairs events"

definition condemned_pairs_for_run ::
  "condemnation_event list \<Rightarrow> string \<Rightarrow> string \<Rightarrow> condemned_pairs" where
  "condemned_pairs_for_run events gpu run =
     condemned_pairs_of (filter (\<lambda>e. ev_run_id e = Some run) events) gpu"

fun effective_condemnation_events :: "condemnation_event list \<Rightarrow> condemnation_event list" where
  "effective_condemnation_events [] = []"
| "effective_condemnation_events (e # later) =
     (if \<not> ev_rehabilitated e \<and>
         \<not> (\<exists>r\<in>set later. ev_rehabilitated r \<and> ev_target_mhz r = ev_target_mhz e \<and>
              ev_vf_bin_mv r = ev_vf_bin_mv e \<and> ev_gpu_key r = ev_gpu_key e)
      then e # effective_condemnation_events later
      else effective_condemnation_events later)"

section \<open>Refusal\<close>

definition int_pair :: "u32 \<times> u32 \<Rightarrow> i64 \<times> i64" where
  "int_pair p = (int (fst p), int (snd p))"

definition u32_try_from :: "i64 \<Rightarrow> u32 option" where
  "u32_try_from x = (if 0 \<le> x \<and> x < 4294967296 then Some (nat x) else None)"

definition vf_floor_envelope :: "(u32 \<times> u32) list \<Rightarrow> u32 \<Rightarrow> u32 option" where
  "vf_floor_envelope pairs clock =
     (case envelope_at (map int_pair pairs) (int clock) of
        None \<Rightarrow> None
      | Some floor \<Rightarrow> u32_try_from floor)"

definition refuses :: "condemned_pairs \<Rightarrow> u32 \<Rightarrow> u32 \<Rightarrow> bool" where
  "refuses cp clock anchor \<longleftrightarrow>
     is_some_and (vf_floor_envelope (rigid cp) clock) (\<lambda>floor. anchor \<le> floor) \<or>
     is_some_and (vf_floor_envelope (quarantine cp) clock) (\<lambda>floor. anchor < floor)"

definition required_apply_passes :: "condemned_pairs \<Rightarrow> u32 \<Rightarrow> u32 \<Rightarrow> u32 \<Rightarrow> u32" where
  "required_apply_passes cp clock anchor current =
     (let quarantined = (\<exists>(c, v, contract)\<in>set (quarantine_contracts cp).
            c = clock \<and> v = anchor \<and> is_none_or contract (\<lambda>under. under \<ge> current))
      in if quarantined then 2 else 1)"

section \<open>Effective pairs, lemma by lemma\<close>

text \<open>The events that reach the refusal: of this GPU, no rehabilitation, not lifted later.\<close>

fun effective_list :: "string \<Rightarrow> condemnation_event list \<Rightarrow> condemnation_event list" where
  "effective_list gpu [] = []"
| "effective_list gpu (e # later) =
     (if foreign_key e gpu \<or> ev_rehabilitated e \<or> (\<exists>r\<in>set later. cancels r gpu e)
      then effective_list gpu later else e # effective_list gpu later)"

definition effective_for :: "string \<Rightarrow> condemnation_event list \<Rightarrow> condemnation_event \<Rightarrow> bool" where
  "effective_for gpu es e \<longleftrightarrow>
     (\<exists>before later. es = before @ e # later \<and> \<not> foreign_key e gpu \<and> \<not> ev_rehabilitated e \<and>
        (\<forall>r\<in>set later. \<not> cancels r gpu e))"

lemma effective_for_Cons:
  "effective_for gpu (x # es) e \<longleftrightarrow>
     (e = x \<and> \<not> foreign_key e gpu \<and> \<not> ev_rehabilitated e \<and> (\<forall>r\<in>set es. \<not> cancels r gpu e)) \<or>
     effective_for gpu es e"
  unfolding effective_for_def by (auto simp: Cons_eq_append_conv)

lemma set_effective_list: "e \<in> set (effective_list gpu es) \<longleftrightarrow> effective_for gpu es e"
proof (induction es)
  case Nil
  show ?case by (simp add: effective_for_def)
next
  case (Cons x es)
  then show ?case by (simp add: effective_for_Cons) blast
qed

lemma condemned_loop_fold: "condemned_loop gpu out es = fold push_event (effective_list gpu es) out"
  by (induction gpu out es rule: condemned_loop.induct) auto

lemma fold_push_event:
  "rigid (fold push_event xs out) = rigid out @ map ev_pair (filter (\<lambda>e. ev_severity e = Rigid) xs)"
  "quarantine (fold push_event xs out) =
     quarantine out @ map ev_pair (filter (\<lambda>e. ev_severity e = Quarantine) xs)"
  "quarantine_contracts (fold push_event xs out) =
     quarantine_contracts out @
     map (\<lambda>e. (ev_target_mhz e, ev_vf_bin_mv e, ev_contract e))
       (filter (\<lambda>e. ev_severity e = Quarantine) xs)"
  by (induction xs arbitrary: out; simp add: push_event_def split: condemnation_severity.splits)+

lemma condemned_pairs_lists:
  "rigid (condemned_pairs_of es gpu) =
     map ev_pair (filter (\<lambda>e. ev_severity e = Rigid) (effective_list gpu es))"
  "quarantine (condemned_pairs_of es gpu) =
     map ev_pair (filter (\<lambda>e. ev_severity e = Quarantine) (effective_list gpu es))"
  "quarantine_contracts (condemned_pairs_of es gpu) =
     map (\<lambda>e. (ev_target_mhz e, ev_vf_bin_mv e, ev_contract e))
       (filter (\<lambda>e. ev_severity e = Quarantine) (effective_list gpu es))"
  by (simp_all add: condemned_pairs_of_def condemned_loop_fold fold_push_event no_pairs_def)

lemma effective_append:
  "effective_for gpu es e \<Longrightarrow> \<forall>r\<in>set added. \<not> cancels r gpu e \<Longrightarrow> effective_for gpu (es @ added) e"
  by (fastforce simp: effective_for_def)

section \<open>Refusal, lemma by lemma\<close>

lemma u32_try_from_small [simp]: "small x \<Longrightarrow> u32_try_from x = Some (nat x)"
  by (simp add: u32_try_from_def small_def)

definition pairs_small :: "(u32 \<times> u32) list \<Rightarrow> bool" where
  "pairs_small ps \<longleftrightarrow> (\<forall>p\<in>set ps. fst p < 2 ^ 31 \<and> snd p < 2 ^ 31)"

lemma small_int: "n < 2 ^ 31 \<Longrightarrow> small (int n)"
  by (simp add: small_def)

lemma pairs_small_pts: "pairs_small ps \<Longrightarrow> pts_small (map int_pair ps)"
  by (auto simp: pairs_small_def pts_small_def int_pair_def small_def)

lemma floor_dominates:
  assumes "pairs_small ps" "clock < 2 ^ 31" "(c, v) \<in> set ps" "c \<le> clock"
  shows "\<exists>f. vf_floor_envelope ps clock = Some f \<and> v \<le> f"
proof -
  have in_pts: "int_pair (c, v) \<in> set (map int_pair ps)"
    using assms(3) by (simp only: set_map imageI)
  obtain f where f: "envelope_at (map int_pair ps) (int clock) = Some f"
      "int v \<le> f" "small f"
    using envelope_at_dominates [OF pairs_small_pts [OF assms(1)] small_int [OF assms(2)] in_pts] assms(4)
    by (auto simp: int_pair_def)
  then show ?thesis by (simp add: vf_floor_envelope_def)
qed

lemma floor_mono:
  assumes "pairs_small ps" "clock' < 2 ^ 31" "clock \<le> clock'" "vf_floor_envelope ps clock = Some f"
  shows "\<exists>f'. vf_floor_envelope ps clock' = Some f' \<and> f \<le> f'"
proof -
  note sm = pairs_small_pts [OF assms(1)]
  have c: "small (int clock)" "small (int clock')" using assms(2,3) by (auto simp: small_def)
  obtain g where g: "envelope_at (map int_pair ps) (int clock) = Some g"
    using assms(4) by (auto simp: vf_floor_envelope_def split: option.splits)
  have "small g" by (rule envelope_at_small [OF sm c(1) g])
  obtain g' where "envelope_at (map int_pair ps) (int clock') = Some g'" "g \<le> g'" "small g'"
    using envelope_at_mono [OF sm c _ g] assms(3) by auto
  with \<open>small g\<close> g assms(4) show ?thesis by (simp add: vf_floor_envelope_def nat_mono)
qed

lemma floor_None: "(\<forall>p\<in>set ps. clock < fst p) \<Longrightarrow> vf_floor_envelope ps clock = None"
  using envelope_at_None [of "map int_pair ps" "int clock"]
  by (auto simp: vf_floor_envelope_def int_pair_def)

text \<open>What a search down the voltages needs of a refusal.\<close>

locale voltage_refusal =
  fixes refused :: "nat \<Rightarrow> nat \<Rightarrow> bool"
  assumes refused_down: "refused clock v \<Longrightarrow> v' \<le> v \<Longrightarrow> refused clock v'"
begin

text \<open>In a descending list of bins the admitted ones are an initial segment.\<close>

lemma admitted_prefix:
  assumes "sorted (rev bins)"
  shows "filter (\<lambda>v. \<not> refused clock v) bins = takeWhile (\<lambda>v. \<not> refused clock v) bins"
  using assms
proof (induction bins)
  case (Cons b bins)
  then have "\<forall>x\<in>set bins. x \<le> b" and "sorted (rev bins)" by (auto simp: sorted_append)
  with Cons.IH refused_down [of clock b] show ?case
    by (auto simp: filter_empty_conv)
qed simp

lemma admitted_up: "\<not> refused clock v \<Longrightarrow> v \<le> v' \<Longrightarrow> \<not> refused clock v'"
  using refused_down by blast

end

interpretation ledger: voltage_refusal "refuses cp" for cp
  by unfold_locales (auto simp: refuses_def is_some_and_def split: option.splits)

section \<open>Properties\<close>

lemma refuses_rigid:
  assumes "pairs_small (rigid cp)" "clock < 2 ^ 31" "(c, v) \<in> set (rigid cp)" "c \<le> clock" "anchor \<le> v"
  shows "refuses cp clock anchor"
  using floor_dominates [OF assms(1-4)] assms(5) by (auto simp: refuses_def)

lemma refuses_quarantine:
  assumes "pairs_small (quarantine cp)" "clock < 2 ^ 31" "(c, v) \<in> set (quarantine cp)" "c \<le> clock"
    "anchor < v"
  shows "refuses cp clock anchor"
  using floor_dominates [OF assms(1-4)] assms(5) by (auto simp: refuses_def)

definition events_small :: "condemnation_event list \<Rightarrow> bool" where
  "events_small es \<longleftrightarrow> (\<forall>e\<in>set es. ev_target_mhz e < 2 ^ 31 \<and> ev_vf_bin_mv e < 2 ^ 31)"

lemma effective_list_subset: "set (effective_list gpu es) \<subseteq> set es"
  by (induction es) auto

lemma events_small_pairs:
  assumes "events_small es"
  shows "pairs_small (rigid (condemned_pairs_of es gpu)) \<and>
    pairs_small (quarantine (condemned_pairs_of es gpu))"
  using assms effective_list_subset [of gpu es]
  unfolding events_small_def pairs_small_def condemned_pairs_lists ev_pair_def
  by auto

lemma condemned_kept:
  assumes "events_small (es @ added)" and "effective_for gpu es e"
    and "\<forall>r\<in>set added. \<not> cancels r gpu e"
    and "ev_target_mhz e \<le> clock" and "clock < 2 ^ 31"
    and "if ev_severity e = Rigid then anchor \<le> ev_vf_bin_mv e else anchor < ev_vf_bin_mv e"
  shows "refuses (condemned_pairs_of (es @ added) gpu) clock anchor"
proof -
  have "e \<in> set (effective_list gpu (es @ added))"
    using effective_append [OF assms(2,3)] by (simp add: set_effective_list)
  then have "ev_pair e \<in> set (if ev_severity e = Rigid then rigid (condemned_pairs_of (es @ added) gpu)
      else quarantine (condemned_pairs_of (es @ added) gpu))"
    by (cases "ev_severity e") (auto simp: condemned_pairs_lists)
  then show ?thesis
    using assms(4-6) events_small_pairs [OF assms(1), of gpu]
    by (auto simp: ev_pair_def intro: refuses_rigid refuses_quarantine split: if_splits)
qed

text \<open>C11: a condemned pair stays refused while the ledger grows: as long as no later event lifts it,
  the candidate is refused at the condemned clock and every higher one, at the condemned voltage and
  below for a rigid event and strictly below it for a quarantine.\<close>

theorem condemned_stays_refused:
  assumes "events_small (es @ added)" and "effective_for gpu es e"
    and "\<forall>r\<in>set added. \<not> cancels r gpu e"
    and "ev_target_mhz e \<le> clock" and "clock < 2 ^ 31"
    and "if ev_severity e = Rigid then anchor \<le> ev_vf_bin_mv e else anchor < ev_vf_bin_mv e"
  shows "refuses (condemned_pairs_of (es @ added) gpu) clock anchor"
  by (rule condemned_kept [OF assms])

definition sample_event :: "condemnation_severity \<Rightarrow> u32 \<Rightarrow> u32 \<Rightarrow> condemnation_event" where
  "sample_event sev mhz mv =
     \<lparr>ev_timestamp = ''t'', ev_gpu_key = Some ''g'', ev_severity = sev, ev_kind = ''crash'',
      ev_target_mhz = mhz, ev_vf_bin_mv = mv, ev_run_id = None, ev_contract = None, ev_note = None,
      ev_rehabilitated = False\<rparr>"

theorem condemned_stays_refused_witness:
  "refuses (condemned_pairs_of ([sample_event Rigid 1800 850] @ [sample_event Quarantine 1900 800]) ''g'')
     2000 850"
  by (rule condemned_stays_refused [where e = "sample_event Rigid 1800 850"])
    (simp_all add: events_small_def sample_event_def effective_for_Cons foreign_key_def cancels_def)

text \<open>Appending a rehabilitation lifts exactly the events it names: those of its clock and voltage
  on a GPU it applies to; every other condemnation stays effective.\<close>

lemma rehabilitation_exact:
  assumes "ev_rehabilitated r"
  shows "effective_for gpu (es @ [r]) e \<longleftrightarrow> effective_for gpu es e \<and> \<not> cancels r gpu e"
proof (induction es)
  case Nil
  have "\<not> effective_for gpu [] e" by (simp add: effective_for_def)
  with assms show ?case by (auto simp: effective_for_Cons)
next
  case (Cons x es)
  then show ?case by (auto simp: effective_for_Cons)
qed

text \<open>A refusal carries over to higher clocks and to lower voltages, so a search that walks the bins
  of a clock downwards meets the refused ones as a final segment.\<close>

lemma refusal_shape:
  assumes "pairs_small (rigid cp)" "pairs_small (quarantine cp)" "clock' < 2 ^ 31"
    and "sorted (rev bins)"
  shows "filter (\<lambda>v. \<not> refuses cp clock v) bins = takeWhile (\<lambda>v. \<not> refuses cp clock v) bins \<and>
    (refuses cp clock v \<and> clock \<le> clock' \<longrightarrow> refuses cp clock' v)"
proof (intro conjI impI)
  show "filter (\<lambda>v. \<not> refuses cp clock v) bins = takeWhile (\<lambda>v. \<not> refuses cp clock v) bins"
    by (rule ledger.admitted_prefix [OF assms(4)])
next
  assume "refuses cp clock v \<and> clock \<le> clock'"
  then have r: "refuses cp clock v" and c: "clock \<le> clock'" by simp_all
  have up: "is_some_and (vf_floor_envelope ps clock') q"
    if "pairs_small ps" "is_some_and (vf_floor_envelope ps clock) q"
      "\<And>f f'. q f \<Longrightarrow> f \<le> f' \<Longrightarrow> q f'" for ps q
    using floor_mono [OF that(1) assms(3) c] that(2,3)
    by (cases "vf_floor_envelope ps clock") fastforce+
  show "refuses cp clock' v"
    using r up [OF assms(1), of "\<lambda>f. v \<le> f"] up [OF assms(2), of "\<lambda>f. v < f"]
    unfolding refuses_def by (metis le_trans less_le_trans)
qed

text \<open>The interpolated floor is not monotone in the ledger: recording one more hard failure between
  two condemned clocks can admit a candidate that was refused before.\<close>

lemma more_failures_can_admit:
  "refuses (condemned_pairs_of [sample_event Rigid 1800 800, sample_event Rigid 1900 900] ''g'') 1850 840 \<and>
   \<not> refuses (condemned_pairs_of [sample_event Rigid 1800 800, sample_event Rigid 1900 900,
                sample_event Rigid 1850 810] ''g'') 1850 840"
  by code_simp

end
