(* ===== verification/F2Guards.thy ===== *)
theory F2Guards
  imports GpuApply Condemnation
begin

text \<open>
  The refusals that stand before a hardware write in \<open>crates/service/src/gpu_undervolt.rs\<close>: the
  voltage floor learned in the field from the blacklist, the ledger, and the preflights of the
  single-step, manual-prior and multi-step runs. The messages are the constructors of \<open>refusal\<close>.
\<close>

section \<open>The field floor\<close>

definition f2_intent :: "u32 \<Rightarrow> positive_offset_plan \<Rightarrow> tuning_point" where
  "f2_intent target cand =
     from_axes [(''gpu_freq_mhz'', int target), (''gpu_vf_bin_mv'', int (po_voltage_mv cand)),
                (''gpu_offset_mhz'', po_offset_mhz cand)]"

definition field_points :: "safe_loop_record \<Rightarrow> (i64 \<times> i64) list" where
  "field_points r =
     List.map_filter (\<lambda>b. case (map_of (axes (center b)) ''gpu_freq_mhz'',
                                map_of (axes (center b)) ''gpu_vf_bin_mv'') of
                            (Some f, Some v) \<Rightarrow> Some (f, v)
                          | _ \<Rightarrow> None) (blacklist r)"

definition field_vf_floor_mv :: "safe_loop_record \<Rightarrow> i64 \<Rightarrow> i64 option" where
  "field_vf_floor_mv r clock = envelope_at (field_points r) clock"

definition field_floor_refuses :: "safe_loop_record \<Rightarrow> u32 \<Rightarrow> u32 \<Rightarrow> bool" where
  "field_floor_refuses r target anchor \<longleftrightarrow>
     is_some_and (field_vf_floor_mv r (int target)) (\<lambda>floor_mv. int anchor \<le> floor_mv)"

definition field_pair_blacklisted :: "safe_loop_record \<Rightarrow> u32 \<Rightarrow> u32 \<Rightarrow> bool" where
  "field_pair_blacklisted r target anchor \<longleftrightarrow>
     is_blacklisted r (from_axes [(''gpu_freq_mhz'', int target), (''gpu_vf_bin_mv'', int anchor)]) \<or>
     field_floor_refuses r target anchor"

definition candidate_blacklisted :: "safe_loop_record \<Rightarrow> u32 \<Rightarrow> positive_offset_plan \<Rightarrow> bool" where
  "candidate_blacklisted r target cand \<longleftrightarrow>
     is_blacklisted r (f2_intent target cand) \<or> field_pair_blacklisted r target (po_voltage_mv cand)"

section \<open>Refusals\<close>

datatype refusal =
  NotSingleStep "nat option"
| StepsMissing nat
| StepsBelowOne nat
| StepsOverCap nat nat
| RefusedSafeMode
| RefusedFlagArmed
| CrashesOverThreshold u32
| NoCandidate
| OffsetNotPositive i32
| OffsetOverCap i32
| StepOverCap i32
| BinBelowFloor u32
| ClockOverCeiling u32
| RefusedBlacklisted
| NeedsStartMv
| LedgerRefuses u32 u32

definition ledger_refusal :: "condemned_pairs \<Rightarrow> u32 \<Rightarrow> u32 \<Rightarrow> refusal option" where
  "ledger_refusal cp target anchor =
     (if refuses cp target anchor then Some (LedgerRefuses target anchor) else None)"

definition confirmed_f2_refusal ::
  "safe_loop_record \<Rightarrow> bool \<Rightarrow> nat option \<Rightarrow> positive_offset_plan option \<Rightarrow> positive_offset_limits \<Rightarrow>
   u32 \<Rightarrow> refusal option" where
  "confirmed_f2_refusal r armed steps candidate limits target =
     (if steps \<noteq> Some 1 then Some (NotSingleStep steps)
      else if safe_mode r then Some RefusedSafeMode
      else if armed then Some RefusedFlagArmed
      else if consecutive_crashes r \<ge> safe_mode_crash_threshold
      then Some (CrashesOverThreshold (consecutive_crashes r))
      else case candidate of
        None \<Rightarrow> Some NoCandidate
      | Some cand \<Rightarrow>
          if po_offset_mhz cand \<le> 0 then Some (OffsetNotPositive (po_offset_mhz cand))
          else if po_offset_mhz cand > abs_max_offset_mhz limits
          then Some (OffsetOverCap (po_offset_mhz cand))
          else if po_step_delta_mhz cand > step_max_offset_mhz limits
          then Some (StepOverCap (po_step_delta_mhz cand))
          else if po_voltage_mv cand < hw_floor_mv limits then Some (BinBelowFloor (po_voltage_mv cand))
          else if po_effective_mhz cand > clock_ceiling_mhz limits
          then Some (ClockOverCeiling (po_effective_mhz cand))
          else if candidate_blacklisted r target cand then Some RefusedBlacklisted
          else None)"

definition confirmed_manual_prior_refusal ::
  "safe_loop_record \<Rightarrow> bool \<Rightarrow> u32 option \<Rightarrow> nat option \<Rightarrow> positive_offset_plan option \<Rightarrow>
   positive_offset_limits \<Rightarrow> u32 \<Rightarrow> refusal option" where
  "confirmed_manual_prior_refusal r armed start_mv steps candidate limits target =
     (if start_mv = None then Some NeedsStartMv
      else confirmed_f2_refusal r armed steps candidate limits target)"

definition confirmed_f2_multi_refusal ::
  "safe_loop_record \<Rightarrow> bool \<Rightarrow> nat option \<Rightarrow> nat \<Rightarrow> nat \<Rightarrow> refusal option" where
  "confirmed_f2_multi_refusal r armed steps count cap =
     (case steps of
        None \<Rightarrow> Some (StepsMissing cap)
      | Some n \<Rightarrow>
          if n < 1 then Some (StepsBelowOne n)
          else if n > cap then Some (StepsOverCap n cap)
          else if safe_mode r then Some RefusedSafeMode
          else if armed then Some RefusedFlagArmed
          else if count = 0 then Some NoCandidate
          else None)"

section \<open>Lemmas\<close>

interpretation field: voltage_refusal "field_floor_refuses r" for r
  by unfold_locales (auto simp: field_floor_refuses_def is_some_and_def split: option.splits)

text \<open>A blacklisted F2 intent is a point of the field floor.\<close>

lemma f2_intent_axes:
  "map_of (axes (f2_intent target cand)) ''gpu_freq_mhz'' = Some (int target)"
  "map_of (axes (f2_intent target cand)) ''gpu_vf_bin_mv'' = Some (int (po_voltage_mv cand))"
  by (simp_all add: f2_intent_def from_axes_def bt_of_list_def)

lemma field_points_mem:
  assumes "b \<in> set (blacklist r)" and "map_of (axes (center b)) ''gpu_freq_mhz'' = Some f"
    and "map_of (axes (center b)) ''gpu_vf_bin_mv'' = Some v"
  shows "(f, v) \<in> set (field_points r)"
  using assms by (force simp: field_points_def List.map_filter_def)

definition field_small :: "safe_loop_record \<Rightarrow> bool" where
  "field_small r \<longleftrightarrow> pts_small (field_points r)"

lemma field_floor_refuses_dominated:
  assumes "field_small r" and "b \<in> set (blacklist r)"
    and "map_of (axes (center b)) ''gpu_freq_mhz'' = Some f"
    and "map_of (axes (center b)) ''gpu_vf_bin_mv'' = Some v"
    and "f \<le> int target" "int anchor \<le> v" "target < 2 ^ 31"
  shows "field_floor_refuses r target anchor"
proof -
  have "small (int target)" using assms(7) by (simp add: small_def)
  have "fst (f, v) \<le> int target" using assms(5) by simp
  with envelope_at_dominates [OF assms(1) [unfolded field_small_def] \<open>small (int target)\<close>
      field_points_mem [OF assms(2-4)]]
  obtain fl where "envelope_at (field_points r) (int target) = Some fl" "v \<le> fl" by auto
  then show ?thesis using assms(6) by (simp add: field_floor_refuses_def field_vf_floor_mv_def)
qed

section \<open>Properties\<close>

text \<open>The preflight of a confirmed single step lets a candidate through exactly when it asks for one
  step, no recovery state stands against it, the plan is inside every bound of its limits and neither
  the blacklist nor the field floor condemns it.\<close>

lemma preflight_exact:
  "confirmed_f2_refusal r armed steps candidate limits target = None \<longleftrightarrow>
     steps = Some 1 \<and> \<not> safe_mode r \<and> \<not> armed \<and> consecutive_crashes r < 3 \<and>
     (\<exists>cand. candidate = Some cand \<and> 0 < po_offset_mhz cand \<and>
        po_offset_mhz cand \<le> abs_max_offset_mhz limits \<and>
        po_step_delta_mhz cand \<le> step_max_offset_mhz limits \<and>
        hw_floor_mv limits \<le> po_voltage_mv cand \<and> po_effective_mhz cand \<le> clock_ceiling_mhz limits \<and>
        \<not> candidate_blacklisted r target cand)"
  by (auto simp: confirmed_f2_refusal_def safe_mode_crash_threshold_def not_le not_less
      split: option.splits if_splits)

text \<open>A point that crashed in the field condemns everything it dominates: once its region is on the
  blacklist, every candidate at the same or a higher clock and the same or a lower voltage is refused,
  and along a descending list of bins the admitted ones come first.\<close>

lemma field_failure_dominates:
  assumes "field_small (push_region (f2_intent target cand) r)"
    and "target \<le> target'" "po_voltage_mv cand' \<le> po_voltage_mv cand" "target' < 2 ^ 31"
    and "\<not> is_blacklisted r (f2_intent target cand)" and "sorted (rev bins)"
  shows "candidate_blacklisted (push_region (f2_intent target cand) r) target' cand' \<and>
    filter (\<lambda>mv. \<not> field_floor_refuses r clock mv) bins =
      takeWhile (\<lambda>mv. \<not> field_floor_refuses r clock mv) bins"
proof (intro conjI)
  let ?r = "push_region (f2_intent target cand) r"
  have "region_around (f2_intent target cand) default_blacklist_radius \<in> set (blacklist ?r)"
    using assms(5) by (simp add: push_region_def)
  moreover have "int target \<le> int target'" "int (po_voltage_mv cand') \<le> int (po_voltage_mv cand)"
    using assms(2,3) by simp_all
  ultimately have "field_floor_refuses ?r target' (po_voltage_mv cand')"
    using field_floor_refuses_dominated [OF assms(1)] assms(4)
    by (simp add: region_around_def f2_intent_axes)
  then show "candidate_blacklisted ?r target' cand'"
    by (simp add: candidate_blacklisted_def field_pair_blacklisted_def)
  show "filter (\<lambda>mv. \<not> field_floor_refuses r clock mv) bins =
      takeWhile (\<lambda>mv. \<not> field_floor_refuses r clock mv) bins"
    by (rule field.admitted_prefix [OF assms(6)])
qed

definition sample_candidate :: "u32 \<Rightarrow> positive_offset_plan" where
  "sample_candidate mv = \<lparr>po_index = 6, po_voltage_mv = mv, po_base_mhz = 1800, po_offset_mhz = 100,
     po_prev_offset_mhz = 0, po_step_delta_mhz = 100, po_effective_mhz = 1900\<rparr>"

end
