(* ===== verification/F2Motor.thy ===== *)
theory F2Motor
  imports F2Observation
begin

text \<open>
  The fail-closed step of \<open>crates/service/src/gpu_undervolt.rs\<close>: arm, apply, verify, dwell, reset, clear,
  over the operations of the trait \<open>F2Ops\<close>, the chained descent over the candidates of one clock, the
  extra validations, and the candidate transaction that runs several phases under one write. The trait
  is the record \<open>f2_ops\<close> of functions on a state; its contract is the locale \<open>f2_motor\<close>. The provenance of
  the running build is the argument \<open>build\<close>.
\<close>

section \<open>Dwells, outcomes and reports\<close>

datatype f2_dwell_outcome =
  DoStable | DoSilentError | DoUnstable | DoDeviceLost | DoClockDrop | DoInconclusive

record f2_dwell_result =
  dr_outcome :: f2_dwell_outcome
  dr_avg_clock_mhz :: u32
  dr_p5_clock_mhz :: u32
  dr_p95_clock_mhz :: u32
  dr_power_w :: f32
  dr_max_power_w :: f32
  dr_power_p99_w :: "f32 option"
  dr_power_capped_frac :: f32
  dr_max_temp_c :: "f32 option"
  dr_thermal_throttled :: bool
  dr_voltage_min_mv :: "u32 option"
  dr_voltage_avg_mv :: "u32 option"
  dr_voltage_max_mv :: "u32 option"
  dr_voltage_sample_count :: u32
  dr_render_frames :: "u64 option"
  dr_render_fps :: "f64 option"
  dr_duration_ms :: u64
  dr_sample_count :: u32
  dr_coverage :: "f2_coverage option"
  dr_provenance :: "f2_provenance option"

datatype 'e f2_outcome =
  OcArmFailed 'e | OcApplyFailed 'e | OcVerifyFailed | OcSilentError | OcUnstable | OcDeviceLost
| OcPowerBoundClockDrop | OcClockDrop | OcInconclusive | OcResetFailed | OcValidated

record 'e f2_step_report =
  sr_outcome :: "'e f2_outcome"
  sr_armed :: bool
  sr_applied :: bool
  sr_verify :: "positive_offset_verification option"
  sr_dwell :: "f2_dwell_outcome option"
  sr_avg_clock_mhz :: "u32 option"
  sr_p5_clock_mhz :: "u32 option"
  sr_p95_clock_mhz :: "u32 option"
  sr_power_w :: "u32 option"
  sr_max_power_w :: "u32 option"
  sr_power_p99_w :: "f32 option"
  sr_power_p99_confirmed :: bool
  sr_power_p99_attempts :: u32
  sr_power_capped_frac :: "f32 option"
  sr_max_temp_c :: "f32 option"
  sr_thermal_throttled :: bool
  sr_voltage_min_mv :: "u32 option"
  sr_voltage_avg_mv :: "u32 option"
  sr_voltage_max_mv :: "u32 option"
  sr_voltage_sample_count :: u32
  sr_render_frames :: "u64 option"
  sr_render_fps :: "f64 option"
  sr_dwell_duration_ms :: "u64 option"
  sr_sample_count :: "u32 option"
  sr_coverage :: "f2_coverage option"
  sr_provenance :: "f2_provenance option"
  sr_reset_ok :: "bool option"
  sr_boot_flag_cleared :: bool
  sr_blacklisted :: bool
  sr_validated :: bool

definition empty_f2_step_report :: "f2_provenance \<Rightarrow> 'e f2_step_report" where
  "empty_f2_step_report build =
     \<lparr>sr_outcome = OcValidated, sr_armed = False, sr_applied = False, sr_verify = None, sr_dwell = None,
      sr_avg_clock_mhz = None, sr_p5_clock_mhz = None, sr_p95_clock_mhz = None, sr_power_w = None,
      sr_max_power_w = None, sr_power_p99_w = None, sr_power_p99_confirmed = False,
      sr_power_p99_attempts = 0, sr_power_capped_frac = None, sr_max_temp_c = None,
      sr_thermal_throttled = False, sr_voltage_min_mv = None, sr_voltage_avg_mv = None,
      sr_voltage_max_mv = None, sr_voltage_sample_count = 0, sr_render_frames = None,
      sr_render_fps = None, sr_dwell_duration_ms = None, sr_sample_count = None, sr_coverage = None,
      sr_provenance = Some build, sr_reset_ok = None, sr_boot_flag_cleared = False,
      sr_blacklisted = False, sr_validated = False\<rparr>"

definition outcome_of_dwell :: "f2_dwell_outcome \<Rightarrow> 'e f2_outcome" where
  "outcome_of_dwell oc =
     (case oc of DoDeviceLost \<Rightarrow> OcDeviceLost | DoSilentError \<Rightarrow> OcSilentError | DoUnstable \<Rightarrow> OcUnstable
      | DoClockDrop \<Rightarrow> OcClockDrop | DoInconclusive \<Rightarrow> OcInconclusive | DoStable \<Rightarrow> OcValidated)"

definition populate_f2_dwell_report ::
  "'e f2_step_report \<Rightarrow> f2_dwell_result \<Rightarrow> 'e f2_step_report" where
  "populate_f2_dwell_report r d =
     r\<lparr>sr_dwell := Some (dr_outcome d), sr_avg_clock_mhz := Some (dr_avg_clock_mhz d),
       sr_p5_clock_mhz := Some (dr_p5_clock_mhz d), sr_p95_clock_mhz := Some (dr_p95_clock_mhz d),
       sr_power_w := Some (f32_round_to_u32 (dr_power_w d)),
       sr_max_power_w := Some (f32_round_to_u32 (dr_max_power_w d)),
       sr_power_p99_w := dr_power_p99_w d, sr_power_capped_frac := Some (dr_power_capped_frac d),
       sr_max_temp_c := dr_max_temp_c d, sr_thermal_throttled := dr_thermal_throttled d,
       sr_voltage_min_mv := dr_voltage_min_mv d, sr_voltage_avg_mv := dr_voltage_avg_mv d,
       sr_voltage_max_mv := dr_voltage_max_mv d, sr_voltage_sample_count := dr_voltage_sample_count d,
       sr_render_frames := dr_render_frames d, sr_render_fps := dr_render_fps d,
       sr_dwell_duration_ms := Some (dr_duration_ms d), sr_sample_count := Some (dr_sample_count d),
       sr_coverage := dr_coverage d,
       sr_provenance := (if dr_provenance d \<noteq> None then dr_provenance d else sr_provenance r),
       sr_outcome := outcome_of_dwell (dr_outcome d)\<rparr>"

section \<open>The step\<close>

record ('s, 'e) f2_ops =
  op_arm :: "'s \<Rightarrow> ('e, unit) result \<times> 's"
  op_apply :: "'s \<Rightarrow> ('e, unit) result \<times> 's"
  op_verify :: "'s \<Rightarrow> positive_offset_verification \<times> 's"
  op_dwell :: "'s \<Rightarrow> f2_dwell_result \<times> 's"
  op_reset :: "'s \<Rightarrow> ('e, unit) result \<times> 's"
  op_clear :: "'s \<Rightarrow> ('e, unit) result \<times> 's"
  op_blacklist :: "bool \<Rightarrow> 's \<Rightarrow> ('e, unit) result \<times> 's"

definition is_ok :: "('e, 'a) result \<Rightarrow> bool" where
  "is_ok r \<longleftrightarrow> \<not> is_err r"

definition finish_after_write ::
  "('s, 'e, 'm) f2_ops_scheme \<Rightarrow> 'e f2_step_report \<Rightarrow> bool \<Rightarrow> 's \<Rightarrow> 'e f2_step_report \<times> 's" where
  "finish_after_write ops r listed s =
     (case op_reset ops s of (reset, s1) \<Rightarrow>
      let r1 = r\<lparr>sr_reset_ok := Some (is_ok reset)\<rparr>
      in case (if listed
               then (case op_blacklist ops False s1 of (res, s2) \<Rightarrow> (r1\<lparr>sr_blacklisted := is_ok res\<rparr>, s2))
               else (r1, s1)) of (r2, s2) \<Rightarrow>
         if is_ok reset
         then (case op_clear ops s2 of
                 (Inr _, s3) \<Rightarrow>
                   (if sr_outcome r2 = OcValidated then r2\<lparr>sr_boot_flag_cleared := True, sr_validated := True\<rparr>
                    else r2\<lparr>sr_boot_flag_cleared := True\<rparr>, s3)
               | (Inl _, s3) \<Rightarrow> (r2\<lparr>sr_outcome := OcResetFailed, sr_validated := False\<rparr>, s3))
         else (r2\<lparr>sr_outcome := OcResetFailed\<rparr>, s2))"

definition finish_device_lost ::
  "('s, 'e, 'm) f2_ops_scheme \<Rightarrow> 'e f2_step_report \<Rightarrow> 's \<Rightarrow> 'e f2_step_report \<times> 's" where
  "finish_device_lost ops r s =
     (case op_reset ops s of (reset, s1) \<Rightarrow>
      case op_blacklist ops True s1 of (res, s2) \<Rightarrow>
        (r\<lparr>sr_reset_ok := Some (is_ok reset), sr_blacklisted := is_ok res, sr_outcome := OcDeviceLost\<rparr>, s2))"

definition run_confirmed_f2_step ::
  "f2_provenance \<Rightarrow> ('s, 'e, 'm) f2_ops_scheme \<Rightarrow> 's \<Rightarrow> 'e f2_step_report \<times> 's" where
  "run_confirmed_f2_step build ops s =
     (let r = empty_f2_step_report build in
      case op_arm ops s of
        (Inl e, s1) \<Rightarrow>
          (case op_reset ops s1 of (reset, s2) \<Rightarrow>
             (r\<lparr>sr_reset_ok := Some (is_ok reset), sr_outcome := OcArmFailed e\<rparr>, s2))
      | (Inr _, s1) \<Rightarrow>
          (let r = r\<lparr>sr_armed := True\<rparr> in
           case op_apply ops s1 of
             (Inl e, s2) \<Rightarrow> finish_after_write ops (r\<lparr>sr_outcome := OcApplyFailed e\<rparr>) False s2
           | (Inr _, s2) \<Rightarrow>
               (let r = r\<lparr>sr_applied := True\<rparr> in
                case op_verify ops s2 of (v, s3) \<Rightarrow>
                let r = r\<lparr>sr_verify := Some v\<rparr> in
                if v \<noteq> RaiseVerified
                then finish_after_write ops (r\<lparr>sr_outcome := OcVerifyFailed\<rparr>) False s3
                else case op_dwell ops s3 of (d, s4) \<Rightarrow>
                  let r = populate_f2_dwell_report r d in
                  case dr_outcome d of
                    DoDeviceLost \<Rightarrow> finish_device_lost ops r s4
                  | DoSilentError \<Rightarrow> finish_after_write ops r True s4
                  | DoUnstable \<Rightarrow> finish_after_write ops r True s4
                  | DoClockDrop \<Rightarrow> finish_after_write ops r False s4
                  | DoInconclusive \<Rightarrow> finish_after_write ops r False s4
                  | DoStable \<Rightarrow> finish_after_write ops r False s4)))"

section \<open>The chained descent\<close>

record ('s, 'e) f2_multi_ops = "('s, 'e) f2_ops" +
  mo_count :: "'s \<Rightarrow> nat"
  mo_select :: "nat \<Rightarrow> 's \<Rightarrow> ('e, unit) result \<times> 's"

datatype f2_stop_reason =
  CompletedAllPlanned | VerifierFailed | StopSilentError | StopUnstable | StopDeviceLost | StopClockDrop
| StopInconclusive | StopBlacklisted | StopResetFailed | StopArmFailed | StopApplyFailed
| NoMoreCandidates

record 'e f2_multi_report =
  mr_planned :: nat
  mr_executed :: nat
  mr_steps :: "'e f2_step_report list"
  mr_last_good_index :: "nat option"
  mr_stop_reason :: f2_stop_reason

text \<open>Why a step ends the descent; \<open>None\<close> is the \<open>continue\<close> of the loop.\<close>

definition stop_of :: "'e f2_outcome \<Rightarrow> f2_stop_reason option" where
  "stop_of oc =
     (case oc of OcValidated \<Rightarrow> None | OcPowerBoundClockDrop \<Rightarrow> None
      | OcVerifyFailed \<Rightarrow> Some VerifierFailed | OcSilentError \<Rightarrow> Some StopSilentError
      | OcUnstable \<Rightarrow> Some StopUnstable | OcDeviceLost \<Rightarrow> Some StopDeviceLost
      | OcClockDrop \<Rightarrow> Some StopClockDrop | OcInconclusive \<Rightarrow> Some StopInconclusive
      | OcResetFailed \<Rightarrow> Some StopResetFailed | OcArmFailed _ \<Rightarrow> Some StopArmFailed
      | OcApplyFailed _ \<Rightarrow> Some StopApplyFailed)"

fun multi_loop ::
  "f2_provenance \<Rightarrow> ('s, 'e, 'm) f2_multi_ops_scheme \<Rightarrow> nat list \<Rightarrow> f2_stop_reason \<Rightarrow>
   'e f2_step_report list \<Rightarrow> nat option \<Rightarrow> 's \<Rightarrow>
   ('e f2_step_report list \<times> nat option \<times> f2_stop_reason) \<times> 's" where
  "multi_loop build ops [] stop steps lst s = ((steps, lst, stop), s)"
| "multi_loop build ops (i # is) stop steps lst s =
     (case mo_select ops i s of
        (Inl _, s1) \<Rightarrow> ((steps, lst, StopBlacklisted), s1)
      | (Inr _, s1) \<Rightarrow>
          (case run_confirmed_f2_step build ops s1 of (r, s2) \<Rightarrow>
             (case stop_of (sr_outcome r) of
                Some reason \<Rightarrow> ((steps @ [r], lst, reason), s2)
              | None \<Rightarrow>
                  multi_loop build ops is stop (steps @ [r])
                    (if sr_outcome r = OcValidated then Some i else lst) s2)))"

definition run_confirmed_f2_multi_step ::
  "f2_provenance \<Rightarrow> ('s, 'e, 'm) f2_multi_ops_scheme \<Rightarrow> nat \<Rightarrow> 's \<Rightarrow> 'e f2_multi_report \<times> 's" where
  "run_confirmed_f2_multi_step build ops cap s =
     (let planned = min (mo_count ops s) cap;
          stop = (if planned = 0 then NoMoreCandidates else CompletedAllPlanned)
      in case multi_loop build ops [0..<planned] stop [] None s of
           ((steps, lst, reason), s') \<Rightarrow>
             (\<lparr>mr_planned = planned, mr_executed = length steps, mr_steps = steps,
               mr_last_good_index = lst, mr_stop_reason = reason\<rparr>, s'))"

fun run_confirmed_f2_extra_validations ::
  "f2_provenance \<Rightarrow> ('s, 'e, 'm) f2_multi_ops_scheme \<Rightarrow> nat \<Rightarrow> nat \<Rightarrow> 's \<Rightarrow> 'e f2_step_report list \<times> 's" where
  "run_confirmed_f2_extra_validations build ops deepest 0 s = ([], s)"
| "run_confirmed_f2_extra_validations build ops deepest (Suc passes) s =
     (case mo_select ops deepest s of
        (Inl _, s1) \<Rightarrow> ([], s1)
      | (Inr _, s1) \<Rightarrow>
          (case run_confirmed_f2_step build ops s1 of (r, s2) \<Rightarrow>
             if sr_outcome r \<noteq> OcValidated then ([r], s2)
             else (case run_confirmed_f2_extra_validations build ops deepest passes s2 of
                     (rs, s3) \<Rightarrow> (r # rs, s3))))"

section \<open>The candidate transaction\<close>

datatype 'e tx_stop =
  TxDeviceLost | BlacklistPersistFailed 'e | TransactionResetFailed 'e | BootFlagClearFailed 'e
| TransactionArmFailed

record 'e tx_cleanup =
  tx_clean :: bool
  tx_retain_boot_flag :: bool
  tx_stop_reason :: "'e tx_stop option"

definition mark_last_failed :: "'e f2_step_report list \<Rightarrow> 'e f2_step_report list" where
  "mark_last_failed rs = (if rs = [] then [] else butlast rs @ [last rs\<lparr>sr_outcome := OcResetFailed\<rparr>])"

definition tx_failed :: "'e tx_stop \<Rightarrow> 'e tx_cleanup" where
  "tx_failed reason = \<lparr>tx_clean = False, tx_retain_boot_flag = True, tx_stop_reason = Some reason\<rparr>"

text \<open>\<open>finish_f2_transaction_reports\<close> in its two halves: the recording of the failure, and the conclusion.\<close>

definition tx_record ::
  "('s, 'e, 'm) f2_ops_scheme \<Rightarrow> bool \<Rightarrow> nat option \<Rightarrow> 'e f2_step_report list \<Rightarrow> 's \<Rightarrow>
   (('e, unit) result option \<times> 'e f2_step_report list) \<times> 's" where
  "tx_record ops lost index rs s =
     (case index of
        None \<Rightarrow> ((None, rs), s)
      | Some i \<Rightarrow>
          (case op_blacklist ops lost s of (res, s') \<Rightarrow>
             ((Some res, rs[i := (rs ! i)\<lparr>sr_blacklisted := is_ok res\<rparr>]), s')))"

definition tx_conclude ::
  "('s, 'e, 'm) f2_ops_scheme \<Rightarrow> bool \<Rightarrow> ('e, unit) result \<Rightarrow> ('e, unit) result option \<Rightarrow>
   'e f2_step_report list \<Rightarrow> 's \<Rightarrow> ('e tx_cleanup \<times> 'e f2_step_report list) \<times> 's" where
  "tx_conclude ops lost reset listed rs s =
     (if lost then ((tx_failed TxDeviceLost, rs), s)
      else case listed of
        Some (Inl e) \<Rightarrow> ((tx_failed (BlacklistPersistFailed e), mark_last_failed rs), s)
      | _ \<Rightarrow>
          (case reset of
             Inl e \<Rightarrow> ((tx_failed (TransactionResetFailed e), mark_last_failed rs), s)
           | Inr _ \<Rightarrow>
               (case op_clear ops s of
                  (Inr _, s') \<Rightarrow>
                    ((\<lparr>tx_clean = True, tx_retain_boot_flag = False, tx_stop_reason = None\<rparr>,
                      map (\<lambda>r. r\<lparr>sr_boot_flag_cleared := True,
                                 sr_validated := (sr_outcome r = OcValidated)\<rparr>) rs), s')
                | (Inl e, s') \<Rightarrow> ((tx_failed (BootFlagClearFailed e), mark_last_failed rs), s'))))"

definition finish_f2_transaction_reports ::
  "('s, 'e, 'm) f2_ops_scheme \<Rightarrow> 'e f2_step_report list \<Rightarrow> 's \<Rightarrow>
   ('e tx_cleanup \<times> 'e f2_step_report list) \<times> 's" where
  "finish_f2_transaction_reports ops rs s =
     (let lost = position (\<lambda>r. sr_outcome r = OcDeviceLost) rs;
          boundary = position (\<lambda>r. sr_outcome r \<in> {OcSilentError, OcUnstable}) rs;
          index = (case lost of Some i \<Rightarrow> Some i | None \<Rightarrow> boundary)
      in case op_reset ops s of (reset, s1) \<Rightarrow>
         let rs1 = map (\<lambda>r. r\<lparr>sr_reset_ok := Some (is_ok reset), sr_boot_flag_cleared := False,
                             sr_validated := False\<rparr>) rs
         in case tx_record ops (lost \<noteq> None) index rs1 s1 of
              ((listed, rs2), s2) \<Rightarrow> tx_conclude ops (lost \<noteq> None) reset listed rs2 s2)"

text \<open>
  An active transaction is its base report; \<open>Err\<close> hands the report and the cleanup back. Dropping an
  active transaction without finishing it resets, and nothing more.
\<close>

definition begin_f2_candidate_transaction ::
  "f2_provenance \<Rightarrow> ('s, 'e, 'm) f2_ops_scheme \<Rightarrow> 's \<Rightarrow>
   ('e f2_step_report \<times> 'e tx_cleanup, 'e f2_step_report) result \<times> 's" where
  "begin_f2_candidate_transaction build ops s =
     (let r = empty_f2_step_report build;
          fail = (\<lambda>r s. case finish_f2_transaction_reports ops [r] s of
                     ((cleanup, rs), s') \<Rightarrow> (Inl (hd rs, cleanup), s'))
      in case op_arm ops s of
        (Inl e, s1) \<Rightarrow>
          (case op_reset ops s1 of (reset, s2) \<Rightarrow>
             (Inl (r\<lparr>sr_reset_ok := Some (is_ok reset), sr_outcome := OcArmFailed e\<rparr>,
                   \<lparr>tx_clean = False, tx_retain_boot_flag = False,
                    tx_stop_reason = Some TransactionArmFailed\<rparr>), s2))
      | (Inr _, s1) \<Rightarrow>
          (let r = r\<lparr>sr_armed := True\<rparr> in
           case op_apply ops s1 of
             (Inl e, s2) \<Rightarrow> fail (r\<lparr>sr_outcome := OcApplyFailed e\<rparr>) s2
           | (Inr _, s2) \<Rightarrow>
               (let r = r\<lparr>sr_applied := True\<rparr> in
                case op_verify ops s2 of (v, s3) \<Rightarrow>
                let r = r\<lparr>sr_verify := Some v\<rparr> in
                if v \<noteq> RaiseVerified then fail (r\<lparr>sr_outcome := OcVerifyFailed\<rparr>) s3
                else (Inr r, s3))))"

definition tx_run_phase ::
  "('s, 'e, 'm) f2_ops_scheme \<Rightarrow> ('s \<Rightarrow> 's) \<Rightarrow> 'e f2_step_report \<Rightarrow> 's \<Rightarrow> 'e f2_step_report \<times> 's" where
  "tx_run_phase ops configure base s =
     (case op_dwell ops (configure s) of (d, s') \<Rightarrow> (populate_f2_dwell_report base d, s'))"

definition tx_drop :: "('s, 'e, 'm) f2_ops_scheme \<Rightarrow> 's \<Rightarrow> 's" where
  "tx_drop ops s = snd (op_reset ops s)"

section \<open>The contract of the operations\<close>

text \<open>
  What a driver of the motor relies on: arming is visible, no operation but the clearing disarms, an
  \<open>Ok\<close> of the reset means confirmed stock, and the record-keeping leaves the card alone.
\<close>

locale f2_motor =
  fixes ops :: "('s, 'e, 'm) f2_ops_scheme"
    and armed :: "'s \<Rightarrow> bool"
    and at_stock :: "'s \<Rightarrow> bool"
  assumes arm_ok: "fst (op_arm ops s) = Inr () \<Longrightarrow> armed (snd (op_arm ops s))"
    and apply_armed: "armed s \<Longrightarrow> armed (snd (op_apply ops s))"
    and verify_armed: "armed s \<Longrightarrow> armed (snd (op_verify ops s))"
    and dwell_armed: "armed s \<Longrightarrow> armed (snd (op_dwell ops s))"
    and reset_armed: "armed s \<Longrightarrow> armed (snd (op_reset ops s))"
    and blacklist_armed: "armed s \<Longrightarrow> armed (snd (op_blacklist ops crash s))"
    and reset_ok: "fst (op_reset ops s) = Inr () \<Longrightarrow> at_stock (snd (op_reset ops s))"
    and blacklist_stock: "at_stock s \<Longrightarrow> at_stock (snd (op_blacklist ops crash s))"
    and clear_stock: "at_stock s \<Longrightarrow> at_stock (snd (op_clear ops s))"
    and clear_ok: "fst (op_clear ops s) = Inr () \<Longrightarrow> \<not> armed (snd (op_clear ops s))"
    and clear_err: "fst (op_clear ops s) = Inl e \<Longrightarrow> armed s \<Longrightarrow> armed (snd (op_clear ops s))"
begin

text \<open>The state a step or a transaction may leave: recovered, or the flag still stands.\<close>

definition settled :: "bool \<Rightarrow> 's \<Rightarrow> bool" where
  "settled cleared s \<longleftrightarrow> (if cleared then at_stock s \<and> \<not> armed s else armed s)"

lemma finish_after_write_settled:
  assumes "finish_after_write ops r listed s = (r', s')" and "armed s"
    and "\<not> sr_boot_flag_cleared r" and "\<not> sr_validated r"
  shows "settled (sr_boot_flag_cleared r') s' \<and>
    (sr_validated r' \<longleftrightarrow> sr_boot_flag_cleared r' \<and> sr_outcome r = OcValidated) \<and>
    (sr_validated r' \<longleftrightarrow> sr_outcome r' = OcValidated) \<and> sr_armed r' = sr_armed r \<and>
    sr_outcome r' \<in> {sr_outcome r, OcResetFailed}"
proof -
  obtain reset s1 where r: "op_reset ops s = (reset, s1)" by (cases "op_reset ops s")
  obtain res s2 where b: "op_blacklist ops False s1 = (res, s2)" by (cases "op_blacklist ops False s1")
  have a1: "armed s1" using reset_armed [OF assms(2)] r by simp
  have a2: "armed s2" using blacklist_armed [OF a1, of False] b by simp
  have st1: "is_ok reset \<Longrightarrow> at_stock s1" using reset_ok [of s] r by (cases reset) (auto simp: is_ok_def)
  have st2: "is_ok reset \<Longrightarrow> at_stock s2" using blacklist_stock [OF st1, of False] b by simp
  have "armed (if listed then s2 else s1)" "is_ok reset \<Longrightarrow> at_stock (if listed then s2 else s1)"
    using a1 a2 st1 st2 by simp_all
  note after = this
  obtain c s3 where c: "op_clear ops (if listed then s2 else s1) = (c, s3)"
    by (cases "op_clear ops (if listed then s2 else s1)")
  have "c = Inr () \<Longrightarrow> \<not> armed s3" "\<And>e. c = Inl e \<Longrightarrow> armed s3" "is_ok reset \<Longrightarrow> at_stock s3"
    using clear_ok [of "if listed then s2 else s1"] clear_err [of "if listed then s2 else s1"]
      clear_stock [OF after(2)] after(1) c by auto
  then show ?thesis
    using assms(1,3,4) after r b c
    by (cases listed; cases reset; cases c)
      (auto simp: finish_after_write_def is_ok_def settled_def Let_def split: if_splits)
qed

lemma finish_device_lost_settled:
  assumes "finish_device_lost ops r s = (r', s')" and "armed s"
    and "\<not> sr_boot_flag_cleared r" and "\<not> sr_validated r"
  shows "settled False s' \<and> \<not> sr_boot_flag_cleared r' \<and> \<not> sr_validated r' \<and>
    sr_outcome r' = OcDeviceLost \<and> sr_armed r' = sr_armed r"
proof -
  obtain reset s1 where r: "op_reset ops s = (reset, s1)" by (cases "op_reset ops s")
  obtain res s2 where b: "op_blacklist ops True s1 = (res, s2)" by (cases "op_blacklist ops True s1")
  have "armed s1" using reset_armed [OF assms(2)] r by simp
  then have "armed s2" using blacklist_armed [of s1 True] b by simp
  then show ?thesis using assms(1,3,4) r b by (auto simp: finish_device_lost_def settled_def)
qed

lemma populate_flags [simp]:
  "sr_boot_flag_cleared (populate_f2_dwell_report r d) = sr_boot_flag_cleared r"
  "sr_validated (populate_f2_dwell_report r d) = sr_validated r"
  "sr_armed (populate_f2_dwell_report r d) = sr_armed r"
  "sr_outcome (populate_f2_dwell_report r d) = outcome_of_dwell (dr_outcome d)"
  by (simp_all add: populate_f2_dwell_report_def)

lemma empty_flags [simp]:
  "\<not> sr_boot_flag_cleared (empty_f2_step_report build)" "\<not> sr_validated (empty_f2_step_report build)"
  "\<not> sr_armed (empty_f2_step_report build)"
  by (simp_all add: empty_f2_step_report_def)

text \<open>The step, all ways out at once.\<close>

lemma step_settled:
  assumes "run_confirmed_f2_step build ops s = (r, s')"
  shows "(if sr_armed r then settled (sr_boot_flag_cleared r) s'
          else \<not> sr_boot_flag_cleared r \<and> (\<exists>e. sr_outcome r = OcArmFailed e)) \<and>
    (sr_validated r \<longleftrightarrow> sr_outcome r = OcValidated) \<and>
    (sr_validated r \<longrightarrow> sr_armed r \<and> sr_boot_flag_cleared r) \<and>
    (sr_outcome r = OcDeviceLost \<longrightarrow> \<not> sr_boot_flag_cleared r)"
proof (cases "op_arm ops s")
  case (Pair a s1)
  show ?thesis
  proof (cases a)
    case (Inl e)
    with assms Pair show ?thesis
      by (auto simp: run_confirmed_f2_step_def Let_def split: prod.splits)
  next
    case (Inr u)
    then have arm: "op_arm ops s = (Inr (), s1)" using Pair by simp
    then have a1: "armed s1" using arm_ok [of s] by simp
    obtain ap s2 where ap: "op_apply ops s1 = (ap, s2)" by (cases "op_apply ops s1")
    obtain v s3 where v: "op_verify ops s2 = (v, s3)" by (cases "op_verify ops s2")
    obtain d s4 where d: "op_dwell ops s3 = (d, s4)" by (cases "op_dwell ops s3")
    have a2: "armed s2" using apply_armed [OF a1] ap by simp
    have a3: "armed s3" using verify_armed [OF a2] v by simp
    have a4: "armed s4" using dwell_armed [OF a3] d by simp
    note fin = finish_after_write_settled [of _ _ _ r s']
    show ?thesis
    proof (cases ap)
      case (Inl e)
      with assms arm ap show ?thesis
        by (auto simp: run_confirmed_f2_step_def Let_def dest!: fin [OF _ a2])
    next
      case (Inr u)
      show ?thesis
      proof (cases "v = RaiseVerified")
        case False
        with assms arm ap v Inr show ?thesis
          by (auto simp: run_confirmed_f2_step_def Let_def dest!: fin [OF _ a3])
      next
        case True
        with assms arm ap v d Inr show ?thesis
          by (cases "dr_outcome d")
            (auto simp: run_confirmed_f2_step_def Let_def outcome_of_dwell_def
              dest!: fin [OF _ a4] finish_device_lost_settled [OF _ a4])
      qed
    qed
  qed
qed

end

section \<open>The shape of a descent, whatever the operations do\<close>

lemma finish_after_write_outcome:
  "sr_outcome (fst (finish_after_write ops r listed s)) \<in> {sr_outcome r, OcResetFailed}"
  by (auto simp: finish_after_write_def Let_def split: prod.splits sum.splits if_splits)

lemma step_never_power_bound: "sr_outcome (fst (run_confirmed_f2_step build ops s)) \<noteq> OcPowerBoundClockDrop"
proof -
  have fin: "sr_outcome (fst (finish_after_write ops r listed s)) \<noteq> OcPowerBoundClockDrop"
    if "sr_outcome r \<noteq> OcPowerBoundClockDrop" for r listed s
    using finish_after_write_outcome [of ops r listed s] that by auto
  have lost: "sr_outcome (fst (finish_device_lost ops r s)) \<noteq> OcPowerBoundClockDrop" for r s
    by (simp add: finish_device_lost_def split: prod.splits)
  show ?thesis
    by (auto simp: run_confirmed_f2_step_def Let_def populate_f2_dwell_report_def outcome_of_dwell_def
        intro!: fin lost split: prod.splits sum.splits f2_dwell_outcome.splits)
qed

lemma stop_of_step:
  "run_confirmed_f2_step build ops s = (r, s') \<Longrightarrow> stop_of (sr_outcome r) = None \<longleftrightarrow> sr_outcome r = OcValidated"
  using step_never_power_bound [of build ops s] by (cases "sr_outcome r") (auto simp: stop_of_def)

lemma stop_of_not_completed [simp]:
  "stop_of oc \<noteq> Some CompletedAllPlanned" "stop_of oc \<noteq> Some NoMoreCandidates"
  by (simp_all add: stop_of_def split: f2_outcome.splits)

definition validated_prefix :: "'e f2_step_report list \<Rightarrow> bool" where
  "validated_prefix rs \<longleftrightarrow> (\<forall>r\<in>set (butlast rs). sr_outcome r = OcValidated)"

lemma multi_loop_shape:
  assumes "multi_loop build ops is stop steps lst s = ((steps', lst', reason), s')"
    and "stop \<in> {CompletedAllPlanned, NoMoreCandidates}"
  shows "\<exists>new. steps' = steps @ new \<and> length new \<le> length is \<and> validated_prefix new \<and>
    (reason = stop \<longleftrightarrow> length new = length is \<and> (\<forall>r\<in>set new. sr_outcome r = OcValidated)) \<and>
    (let good = length (takeWhile (\<lambda>r. sr_outcome r = OcValidated) new)
     in lst' = (if good = 0 then lst else Some (is ! (good - 1))))"
  using assms(1)
proof (induction "is" arbitrary: steps lst s)
  case Nil
  then show ?case by (simp add: validated_prefix_def)
next
  case (Cons i "is")
  obtain sel s1 where sel: "mo_select ops i s = (sel, s1)" by (cases "mo_select ops i s")
  obtain r s2 where r: "run_confirmed_f2_step build ops s1 = (r, s2)"
    by (cases "run_confirmed_f2_step build ops s1")
  show ?case
  proof (cases sel)
    case (Inl e)
    then show ?thesis using Cons.prems sel assms(2)
      by (intro exI [of _ "[]"]) (auto simp: validated_prefix_def)
  next
    case (Inr u)
    show ?thesis
    proof (cases "sr_outcome r = OcValidated")
      case False
      then obtain why where "stop_of (sr_outcome r) = Some why" using stop_of_step [OF r] by auto
      moreover from this have "why \<noteq> stop" using assms(2) by auto
      ultimately show ?thesis using Cons.prems sel r Inr False
        by (intro exI [of _ "[r]"]) (auto simp: validated_prefix_def)
    next
      case True
      then have go: "stop_of (sr_outcome r) = None" by (simp add: stop_of_def)
      have rest: "multi_loop build ops is stop (steps @ [r]) (Some i) s2 = ((steps', lst', reason), s')"
        using Cons.prems sel r Inr True go by simp
      from Cons.IH [OF rest] obtain new where new: "steps' = (steps @ [r]) @ new" "length new \<le> length is"
        "validated_prefix new"
        "reason = stop \<longleftrightarrow> length new = length is \<and> (\<forall>r\<in>set new. sr_outcome r = OcValidated)"
        "let good = length (takeWhile (\<lambda>r. sr_outcome r = OcValidated) new)
         in lst' = (if good = 0 then Some i else Some (is ! (good - 1)))" by blast
      show ?thesis
        using new True by (intro exI [of _ "r # new"]) (auto simp: validated_prefix_def Let_def nth_Cons')
    qed
  qed
qed

text \<open>The candidates tried from the first on, each selected and then run through the motor, with the
  reports in that order.\<close>

inductive descended ::
  "f2_provenance \<Rightarrow> ('s, 'e, 'm) f2_multi_ops_scheme \<Rightarrow> 's \<Rightarrow> 'e f2_step_report list \<Rightarrow> 's \<Rightarrow> bool"
  for build ops s where
  dn_none: "descended build ops s [] s"
| dn_step: "descended build ops s rs s1 \<Longrightarrow> mo_select ops (length rs) s1 = (Inr u, s2) \<Longrightarrow>
     run_confirmed_f2_step build ops s2 = (r, s3) \<Longrightarrow> descended build ops s (rs @ [r]) s3"

text \<open>Which outcome of the last step a stop reason stands for.\<close>

fun stands_for :: "f2_stop_reason \<Rightarrow> 'e f2_outcome \<Rightarrow> bool" where
  "stands_for VerifierFailed oc \<longleftrightarrow> oc = OcVerifyFailed"
| "stands_for StopSilentError oc \<longleftrightarrow> oc = OcSilentError"
| "stands_for StopUnstable oc \<longleftrightarrow> oc = OcUnstable"
| "stands_for StopDeviceLost oc \<longleftrightarrow> oc = OcDeviceLost"
| "stands_for StopClockDrop oc \<longleftrightarrow> oc = OcClockDrop"
| "stands_for StopInconclusive oc \<longleftrightarrow> oc = OcInconclusive"
| "stands_for StopResetFailed oc \<longleftrightarrow> oc = OcResetFailed"
| "stands_for StopArmFailed oc \<longleftrightarrow> (\<exists>e. oc = OcArmFailed e)"
| "stands_for StopApplyFailed oc \<longleftrightarrow> (\<exists>e. oc = OcApplyFailed e)"
| "stands_for _ oc \<longleftrightarrow> False"

lemma stop_of_stands_for: "stop_of oc = Some reason \<Longrightarrow> stands_for reason oc"
  by (cases oc) (auto simp: stop_of_def)

definition all_validated :: "'e f2_step_report list \<Rightarrow> bool" where
  "all_validated rs \<longleftrightarrow> (\<forall>r\<in>set rs. sr_outcome r = OcValidated)"

text \<open>How a descent over \<open>n\<close> candidates that tried \<open>rs\<close> and reached \<open>s1\<close> came to its end.\<close>

fun ended :: "('s, 'e, 'm) f2_multi_ops_scheme \<Rightarrow> nat \<Rightarrow> 'e f2_step_report list \<Rightarrow> 's \<Rightarrow> f2_stop_reason \<Rightarrow> 's \<Rightarrow> bool" where
  "ended ops n rs s1 NoMoreCandidates s' \<longleftrightarrow> n = 0 \<and> rs = [] \<and> s' = s1"
| "ended ops n rs s1 CompletedAllPlanned s' \<longleftrightarrow> n > 0 \<and> length rs = n \<and> all_validated rs \<and> s' = s1"
| "ended ops n rs s1 StopBlacklisted s' \<longleftrightarrow>
     length rs < n \<and> all_validated rs \<and> (\<exists>e. mo_select ops (length rs) s1 = (Inl e, s'))"
| "ended ops n rs s1 reason s' \<longleftrightarrow>
     rs \<noteq> [] \<and> all_validated (butlast rs) \<and> stands_for reason (sr_outcome (last rs)) \<and> s' = s1"

lemma ended_at_outcome:
  "stands_for reason (sr_outcome r) \<Longrightarrow> all_validated rs \<Longrightarrow> ended ops n (rs @ [r]) s1 reason s1"
  by (cases reason) auto

lemma multi_loop_ran:
  assumes "multi_loop build ops [k..<n] stop steps lst s = ((steps', lst', reason), s')"
    and "descended build ops s0 steps s" and "length steps = k" and "k \<le> n" and "all_validated steps"
    and "stop = (if n = 0 then NoMoreCandidates else CompletedAllPlanned)"
  shows "\<exists>s1. descended build ops s0 steps' s1 \<and> ended ops n steps' s1 reason s'"
  using assms(1-5)
proof (induction "n - k" arbitrary: k steps lst s)
  case 0
  then show ?case using assms(6) by (intro exI [of _ s]) auto
next
  case (Suc m)
  then have idx: "[k..<n] = k # [Suc k..<n]" by (simp add: upt_conv_Cons)
  obtain sel s1 where sel: "mo_select ops k s = (sel, s1)" by (cases "mo_select ops k s")
  obtain r s2 where r: "run_confirmed_f2_step build ops s1 = (r, s2)"
    by (cases "run_confirmed_f2_step build ops s1")
  show ?case
  proof (cases sel)
    case (Inl e)
    then have "steps' = steps" "reason = StopBlacklisted" "s' = s1" using Suc.prems(1) sel idx by auto
    then have "ended ops n steps' s reason s'" using Suc.prems(3,5) Suc.hyps(2) sel Inl by simp
    then show ?thesis using Suc.prems(2) \<open>steps' = steps\<close> by blast
  next
    case (Inr u)
    have more: "descended build ops s0 (steps @ [r]) s2"
      using dn_step [OF Suc.prems(2) _ r, of u] sel Inr Suc.prems(3) by simp
    show ?thesis
    proof (cases "stop_of (sr_outcome r)")
      case (Some why)
      then have "steps' = steps @ [r]" "reason = why" "s' = s2" using Suc.prems(1) sel r idx Inr by auto
      then have "ended ops n steps' s2 reason s'"
        using ended_at_outcome [OF stop_of_stands_for [OF Some] Suc.prems(5), of ops n s2] by simp
      then show ?thesis using more \<open>steps' = steps @ [r]\<close> by (intro exI [of _ s2]) simp
    next
      case None
      then have val: "sr_outcome r = OcValidated" using stop_of_step [OF r] by simp
      have rest: "multi_loop build ops [Suc k..<n] stop (steps @ [r]) (Some k) s2 = ((steps', lst', reason), s')"
        using Suc.prems(1) sel r idx Inr None val by simp
      have "m = n - Suc k" "length (steps @ [r]) = Suc k" "Suc k \<le> n"
        using Suc.hyps(2) Suc.prems(3) by simp_all
      moreover have "all_validated (steps @ [r])" using Suc.prems(5) val by (simp add: all_validated_def)
      ultimately show ?thesis using Suc.hyps(1) [OF _ rest more] by blast
    qed
  qed
qed

text \<open>C17: a confirmed descent reports exactly what it did. The reports are those of the motor, run once on
  each of the candidates 0, 1, 2 and so on after its selection, and no more than planned; all but the last
  validated; the last good index is the last validated one; and the stop reason is the outcome of the last
  step, or the refused selection of the next candidate, or that all planned candidates validated, or that
  there was none.\<close>

theorem descent_shape:
  "case run_confirmed_f2_multi_step build ops cap s of (rep, s') \<Rightarrow>
     mr_planned rep = min (mo_count ops s) cap \<and> mr_executed rep = length (mr_steps rep) \<and>
     mr_executed rep \<le> mr_planned rep \<and> validated_prefix (mr_steps rep) \<and>
     (\<exists>s1. descended build ops s (mr_steps rep) s1 \<and>
        ended ops (mr_planned rep) (mr_steps rep) s1 (mr_stop_reason rep) s') \<and>
     mr_last_good_index rep =
       (let good = length (takeWhile (\<lambda>r. sr_outcome r = OcValidated) (mr_steps rep))
        in if good = 0 then None else Some (good - 1))"
proof -
  let ?n = "min (mo_count ops s) cap"
  let ?stop = "if ?n = 0 then NoMoreCandidates else CompletedAllPlanned"
  obtain steps lst reason s' where run: "multi_loop build ops [0..<?n] ?stop [] None s = ((steps, lst, reason), s')"
    by (cases "multi_loop build ops [0..<?n] ?stop [] None s") auto
  from multi_loop_shape [OF run] have sh: "length steps \<le> ?n" "validated_prefix steps"
    "let good = length (takeWhile (\<lambda>r. sr_outcome r = OcValidated) steps)
     in lst = (if good = 0 then None else Some ([0..<?n] ! (good - 1)))" by auto
  have good: "length (takeWhile (\<lambda>r. sr_outcome r = OcValidated) steps) \<le> ?n"
    using sh(1) length_takeWhile_le order_trans by blast
  have nth: "[0..<?n] ! (k - 1) = k - 1" if "0 < k" "k \<le> ?n" for k using that by (subst nth_upt) auto
  have "lst = (let k = length (takeWhile (\<lambda>r. sr_outcome r = OcValidated) steps)
      in if k = 0 then None else Some (k - 1))"
    using sh(3) good nth by (auto simp: Let_def)
  moreover have "\<exists>s1. descended build ops s steps s1 \<and> ended ops ?n steps s1 reason s'"
    by (rule multi_loop_ran [OF run dn_none]) (simp_all add: all_validated_def)
  ultimately show ?thesis
    using sh(1,2) by (simp add: run_confirmed_f2_multi_step_def run Let_def)
qed

text \<open>Extra validations stop at the first that is not validated and never exceed the passes asked for.\<close>

lemma extra_validations_shape:
  "length (fst (run_confirmed_f2_extra_validations build ops deepest passes s)) \<le> passes \<and>
   validated_prefix (fst (run_confirmed_f2_extra_validations build ops deepest passes s))"
proof (induction passes arbitrary: s)
  case (Suc passes)
  obtain sel s1 where sel: "mo_select ops deepest s = (sel, s1)" by (cases "mo_select ops deepest s")
  obtain r s2 where r: "run_confirmed_f2_step build ops s1 = (r, s2)"
    by (cases "run_confirmed_f2_step build ops s1")
  obtain rs s3 where rs: "run_confirmed_f2_extra_validations build ops deepest passes s2 = (rs, s3)"
    by (cases "run_confirmed_f2_extra_validations build ops deepest passes s2")
  show ?case
    using sel r rs Suc.IH [of s2] by (cases sel) (auto simp: validated_prefix_def)
qed (simp add: validated_prefix_def)

section \<open>The transaction under the contract\<close>

lemma position_Some: "position p xs = Some i \<Longrightarrow> i < length xs \<and> p (xs ! i)"
  by (induction xs arbitrary: i) (auto split: if_splits)

lemma position_None: "position p xs = None \<longleftrightarrow> (\<forall>x\<in>set xs. \<not> p x)"
  by (induction xs) auto

definition open_report :: "'e f2_step_report \<Rightarrow> bool" where
  "open_report r \<longleftrightarrow> \<not> sr_boot_flag_cleared r \<and> \<not> sr_validated r"

lemma mark_last_failed_open: "list_all open_report rs \<Longrightarrow> list_all open_report (mark_last_failed rs)"
  by (auto simp: mark_last_failed_def list_all_iff open_report_def dest: in_set_butlastD)

lemma length_mark_last_failed [simp]: "length (mark_last_failed rs) = length rs"
  by (simp add: mark_last_failed_def)

context f2_motor
begin

lemma tx_record_ok:
  assumes "tx_record ops lost index rs s = ((listed, rs'), s')" and "\<forall>i. index = Some i \<longrightarrow> i < length rs"
  shows "(armed s \<longrightarrow> armed s') \<and> (at_stock s \<longrightarrow> at_stock s') \<and> map sr_outcome rs' = map sr_outcome rs \<and>
    (list_all open_report rs \<longrightarrow> list_all open_report rs') \<and>
    (index \<noteq> None \<longrightarrow> listed \<noteq> None \<and> (is_ok (the listed) \<longrightarrow> (\<exists>r\<in>set rs'. sr_blacklisted r)))"
proof (cases index)
  case None
  with assms show ?thesis by (simp add: tx_record_def)
next
  case (Some i)
  obtain res s1 where b: "op_blacklist ops lost s = (res, s1)" by (cases "op_blacklist ops lost s")
  have i: "i < length rs" using assms(2) Some by simp
  have eqs: "listed = Some res" "s' = s1" "rs' = rs[i := (rs ! i)\<lparr>sr_blacklisted := is_ok res\<rparr>]"
    using assms(1) Some b by (auto simp: tx_record_def)
  have "map sr_outcome rs' = map sr_outcome rs"
    using i by (simp add: eqs map_update) (metis length_map list_update_id nth_map)
  moreover have "list_all open_report rs'" if "list_all open_report rs"
    using that i by (simp add: eqs list_all_length nth_list_update open_report_def)
  moreover have "sr_blacklisted (rs' ! i) = is_ok res" "rs' ! i \<in> set rs'" using i by (simp_all add: eqs set_update_memI)
  ultimately show ?thesis
    using eqs Some b blacklist_armed [of s lost] blacklist_stock [of s lost] by auto
qed

lemma tx_conclude_settled:
  assumes "tx_conclude ops lost reset listed rs s = ((cl, rs'), s')"
    and "armed s" and "is_ok reset \<longrightarrow> at_stock s" and "list_all open_report rs"
  shows "settled (tx_clean cl) s' \<and> tx_retain_boot_flag cl = (\<not> tx_clean cl) \<and> length rs' = length rs \<and>
    (\<forall>r\<in>set rs'. sr_boot_flag_cleared r = tx_clean cl \<and>
       (sr_validated r \<longleftrightarrow> tx_clean cl \<and> sr_outcome r = OcValidated)) \<and>
    (tx_clean cl \<longrightarrow> \<not> lost \<and> map sr_outcome rs' = map sr_outcome rs \<and>
       map sr_blacklisted rs' = map sr_blacklisted rs \<and> (listed \<noteq> None \<longrightarrow> is_ok (the listed)))"
proof -
  obtain c s1 where c: "op_clear ops s = (c, s1)" by (cases "op_clear ops s")
  have ok: "c = Inr () \<Longrightarrow> \<not> armed s1" "c = Inl e \<Longrightarrow> armed s1" "at_stock s \<Longrightarrow> at_stock s1" for e
    using clear_ok [of s] clear_err [of s] clear_stock [of s] c assms(2) by auto
  have op: "list_all open_report (mark_last_failed rs)" by (rule mark_last_failed_open [OF assms(4)])
  have failed: ?thesis if "\<not> tx_clean cl" "tx_retain_boot_flag cl" "armed s'" "list_all open_report rs'"
    "length rs' = length rs"
    using that by (auto simp: settled_def list_all_iff open_report_def)
  consider "lost" | e where "\<not> lost" "listed = Some (Inl e)"
    | e where "\<not> lost" "\<forall>e. listed \<noteq> Some (Inl e)" "reset = Inl e"
    | e where "\<not> lost" "\<forall>e. listed \<noteq> Some (Inl e)" "reset = Inr ()" "c = Inl e"
    | "\<not> lost" "\<forall>e. listed \<noteq> Some (Inl e)" "reset = Inr ()" "c = Inr ()"
    by (cases lost; cases reset; cases c) auto
  then show ?thesis
  proof cases
    case 1
    with assms show ?thesis by (intro failed) (auto simp: tx_conclude_def tx_failed_def)
  next
    case 2
    with assms op show ?thesis by (intro failed) (auto simp: tx_conclude_def tx_failed_def)
  next
    case 3
    with assms op show ?thesis
      by (intro failed) (auto simp: tx_conclude_def tx_failed_def split: option.splits sum.splits)
  next
    case 4
    with assms op c ok show ?thesis
      by (intro failed) (auto simp: tx_conclude_def tx_failed_def split: option.splits sum.splits)
  next
    case 5
    then have "cl = \<lparr>tx_clean = True, tx_retain_boot_flag = False, tx_stop_reason = None\<rparr>"
      "rs' = map (\<lambda>r. r\<lparr>sr_boot_flag_cleared := True, sr_validated := (sr_outcome r = OcValidated)\<rparr>) rs"
      "s' = s1"
      using assms(1) c by (auto simp: tx_conclude_def split: option.splits sum.splits)
    moreover have "at_stock s1" "\<not> armed s1" using 5 ok assms(3) by (simp_all add: is_ok_def)
    moreover have "listed \<noteq> None \<longrightarrow> is_ok (the listed)"
      using 5 by (cases listed) (auto simp: is_ok_def is_err_def split: sum.splits)
    ultimately show ?thesis using 5 by (simp add: settled_def)
  qed
qed

lemma transaction_settled:
  assumes "finish_f2_transaction_reports ops rs s = ((cl, rs'), s')" and "armed s"
  shows "settled (tx_clean cl) s' \<and> tx_retain_boot_flag cl = (\<not> tx_clean cl) \<and> length rs' = length rs \<and>
    (\<forall>r\<in>set rs'. sr_boot_flag_cleared r = tx_clean cl \<and>
       (sr_validated r \<longleftrightarrow> tx_clean cl \<and> sr_outcome r = OcValidated)) \<and>
    (tx_clean cl \<longrightarrow> map sr_outcome rs' = map sr_outcome rs \<and> OcDeviceLost \<notin> sr_outcome ` set rs \<and>
       (sr_outcome ` set rs \<inter> {OcSilentError, OcUnstable} \<noteq> {} \<longrightarrow> (\<exists>r\<in>set rs'. sr_blacklisted r)))"
proof -
  let ?lost = "position (\<lambda>r. sr_outcome r = OcDeviceLost) rs"
  let ?bound = "position (\<lambda>r. sr_outcome r \<in> {OcSilentError, OcUnstable}) rs"
  define index where "index = (case ?lost of Some i \<Rightarrow> Some i | None \<Rightarrow> ?bound)"
  obtain reset s1 where r: "op_reset ops s = (reset, s1)" by (cases "op_reset ops s")
  define rs1 where "rs1 = map (\<lambda>r. r\<lparr>sr_reset_ok := Some (is_ok reset), sr_boot_flag_cleared := False,
      sr_validated := False\<rparr>) rs"
  obtain listed rs2 s2 where t: "tx_record ops (?lost \<noteq> None) index rs1 s1 = ((listed, rs2), s2)"
    by (cases "tx_record ops (?lost \<noteq> None) index rs1 s1") auto
  have run: "tx_conclude ops (?lost \<noteq> None) reset listed rs2 s2 = ((cl, rs'), s')"
    using assms(1) r t unfolding finish_f2_transaction_reports_def Let_def rs1_def index_def
    by (simp only: prod.case)
  have idx: "\<forall>i. index = Some i \<longrightarrow> i < length rs1"
    using position_Some [of _ rs] by (auto simp: index_def rs1_def split: option.splits)
  have rs1: "list_all open_report rs1" "map sr_outcome rs1 = map sr_outcome rs"
    by (simp_all add: rs1_def open_report_def list_all_iff)
  note rec = tx_record_ok [OF t idx]
  have a1: "armed s1" using reset_armed [OF assms(2)] r by simp
  have st1: "is_ok reset \<longrightarrow> at_stock s1" using reset_ok [of s] r by (cases reset) (auto simp: is_ok_def)
  note con = tx_conclude_settled [OF run]
  have bound: "index \<noteq> None" if failed: "sr_outcome ` set rs \<inter> {OcSilentError, OcUnstable} \<noteq> {}"
  proof -
    obtain x where "x \<in> set rs" "sr_outcome x \<in> {OcSilentError, OcUnstable}"
      using failed by blast
    then have "?bound \<noteq> None" unfolding position_None by blast
    then show ?thesis by (simp add: index_def split: option.splits)
  qed
  have lost: "OcDeviceLost \<notin> sr_outcome ` set rs" if "?lost = None"
    using that by (auto simp: position_None)
  have "length rs2 = length rs" using rec rs1(2) by (metis length_map)
  moreover have "\<exists>r\<in>set rs'. sr_blacklisted r"
    if "\<exists>r\<in>set rs2. sr_blacklisted r" "map sr_blacklisted rs' = map sr_blacklisted rs2"
    using that by (metis (no_types, lifting) imageE image_eqI list.set_map)
  ultimately show ?thesis
    using con rec a1 st1 rs1 bound lost by metis
qed

end

section \<open>The descent under the contract\<close>

lemma finish_after_write_armed [simp]: "sr_armed (fst (finish_after_write ops r listed s)) = sr_armed r"
  by (auto simp: finish_after_write_def Let_def split: prod.splits sum.splits if_splits)

lemma finish_device_lost_armed [simp]: "sr_armed (fst (finish_device_lost ops r s)) = sr_armed r"
  by (simp add: finish_device_lost_def split: prod.splits)

lemma arm_flag_report:
  "run_confirmed_f2_step build ops s = (r, s') \<Longrightarrow> sr_armed r \<longleftrightarrow> \<not> is_err (fst (op_arm ops s))"
proof -
  assume r: "run_confirmed_f2_step build ops s = (r, s')"
  have "sr_armed (fst (run_confirmed_f2_step build ops s)) \<longleftrightarrow> \<not> is_err (fst (op_arm ops s))"
    by (auto simp: run_confirmed_f2_step_def Let_def populate_f2_dwell_report_def empty_f2_step_report_def
        split: prod.splits sum.splits f2_dwell_outcome.splits)
  then show ?thesis by (simp add: r)
qed

lemma multi_loop_grows:
  "multi_loop build ops is stop steps lst s = ((steps', lst', reason), s') \<Longrightarrow> length steps \<le> length steps'"
  by (induction "is" arbitrary: steps lst s) (fastforce split: prod.splits sum.splits option.splits)+

text \<open>
  What the descent asks beyond the step: a selection that succeeds finds the flag down and leaves it so,
  one that refuses changes nothing, and neither a failed arming nor a reset touches the flag.
\<close>

locale f2_descent = f2_motor ops armed at_stock
  for ops :: "('s, 'e, 'm) f2_multi_ops_scheme" and armed :: "'s \<Rightarrow> bool" and at_stock :: "'s \<Rightarrow> bool" +
  assumes select_ok: "fst (mo_select ops i s) = Inr () \<Longrightarrow> \<not> armed (snd (mo_select ops i s))"
    and select_err: "fst (mo_select ops i s) = Inl e \<Longrightarrow> snd (mo_select ops i s) = s"
    and arm_err: "fst (op_arm ops s) = Inl e \<Longrightarrow> armed (snd (op_arm ops s)) = armed s"
    and reset_keeps: "armed (snd (op_reset ops s)) = armed s"
begin

lemma step_flag:
  assumes "run_confirmed_f2_step build ops s = (r, s')" and "\<not> armed s"
  shows "armed s' \<longleftrightarrow> sr_armed r \<and> \<not> sr_boot_flag_cleared r"
proof (cases "sr_armed r")
  case True
  then show ?thesis using step_settled [OF assms(1)] by (auto simp: settled_def split: if_splits)
next
  case False
  obtain a s1 where a: "op_arm ops s = (a, s1)" by (cases "op_arm ops s")
  have "\<exists>e. sr_outcome r = OcArmFailed e" using step_settled [OF assms(1)] False by simp
  moreover have "sr_armed r" if "a = Inr ()"
    using that a assms(1) arm_flag_report [OF assms(1)] by simp
  ultimately obtain e where e: "a = Inl e" using False by (cases a) auto
  have "s' = snd (op_reset ops s1)"
    using assms(1) a e by (auto simp: run_confirmed_f2_step_def Let_def split: prod.splits)
  then show ?thesis using reset_keeps [of s1] arm_err [of s e] a e assms(2) False by simp
qed

lemma descent_flag:
  assumes "multi_loop build ops is stop steps lst s = ((steps', lst', reason), s')" and "\<not> armed s"
  shows "armed s' \<longleftrightarrow> (\<exists>r. steps' \<noteq> steps \<and> r = last steps' \<and> sr_armed r \<and> \<not> sr_boot_flag_cleared r)"
  using assms
proof (induction "is" arbitrary: steps lst s)
  case (Cons i "is")
  obtain sel s1 where sel: "mo_select ops i s = (sel, s1)" by (cases "mo_select ops i s")
  obtain r s2 where r: "run_confirmed_f2_step build ops s1 = (r, s2)"
    by (cases "run_confirmed_f2_step build ops s1")
  show ?case
  proof (cases sel)
    case (Inl e)
    then show ?thesis using Cons.prems sel select_err [of i s e] by simp
  next
    case (Inr u)
    then have low: "\<not> armed s1" using select_ok [of i s] sel by simp
    note flag = step_flag [OF r low]
    show ?thesis
    proof (cases "stop_of (sr_outcome r)")
      case (Some why)
      then show ?thesis using Cons.prems sel r Inr flag by auto
    next
      case None
      then have val: "sr_outcome r = OcValidated" using stop_of_step [OF r] by simp
      then have low2: "\<not> armed s2" using step_settled [OF r] flag by auto
      have rest: "multi_loop build ops is stop (steps @ [r]) (Some i) s2 = ((steps', lst', reason), s')"
        using Cons.prems(1) sel r Inr None val by simp
      have longer: "length steps' \<ge> Suc (length steps)"
        using multi_loop_grows [OF rest] by simp
      have settled_r: "\<not> (sr_armed r \<and> \<not> sr_boot_flag_cleared r)" using low2 flag by simp
      show ?thesis
      proof (cases "steps' = steps @ [r]")
        case True
        then show ?thesis using Cons.IH [OF rest low2] settled_r by auto
      next
        case False
        then show ?thesis using Cons.IH [OF rest low2] longer by auto
      qed
    qed
  qed
qed auto

end

end
