(* ===== verification/F2Real.thy ===== *)
theory F2Real
  imports F2Guards F2Motor
begin

text \<open>
  The real executor of \<open>crates/service/src/gpu_undervolt.rs\<close>: \<open>RealF2Ops\<close> and \<open>RealF2MultiOps\<close> over a
  machine, the classification of a stress dwell and the authority the voltage lock must have shown. The
  dwell itself is the argument \<open>workload\<close>: it runs a workload on the card and returns telemetry. The
  interpretation \<open>real\<close> discharges the contract of the motor, and the theorems say what a confirmed step
  and a candidate transaction leave on the machine.
\<close>

section \<open>Purposes and the classification of a dwell\<close>

record 'x render_goldens =
  rg_power :: u32
  rg_boost :: u32
  rg_texrop :: u32
  rg_cadence :: u32
  rg_geometry :: u32
  rg_stream :: u32
  rg_stream_frame_reference_ms :: u32
  rg_boost_frame_reference_us :: u32
  rg_dx11 :: 'x

datatype 'x f2_stress_purpose =
  PowerDiscovery
| V8Qualification qualification_pattern "'x render_goldens"
| ApplyQualificationOf qualification_pattern "'x render_goldens"

datatype vf_qualifier_pattern =
  VqFsgl1 | VqFsgl2A | VqFsgl2B | VqFsgl3A | VqFsgl3B | VqHighFps | VqTexture | VqTransitions | VqMemory
| VqEndurance | VqTransitionShock | VqDetectorLabDense

fun is_qualification :: "'x f2_stress_purpose \<Rightarrow> bool" where
  "is_qualification PowerDiscovery = False"
| "is_qualification (V8Qualification _ _) = True"
| "is_qualification (ApplyQualificationOf _ _) = True"

definition qualifier_of :: "qualification_pattern \<Rightarrow> vf_qualifier_pattern option" where
  "qualifier_of pat =
     (case pat of PatA \<Rightarrow> Some VqFsgl3A | PatB \<Rightarrow> Some VqFsgl3B | HighFps \<Rightarrow> Some VqHighFps
      | Texture \<Rightarrow> Some VqTexture | Transitions \<Rightarrow> Some VqTransitions | Memory \<Rightarrow> Some VqMemory
      | Endurance \<Rightarrow> Some VqEndurance | TransitionShock \<Rightarrow> Some VqTransitionShock | Dx11Game \<Rightarrow> None)"

fun qualifier_pattern :: "'x f2_stress_purpose \<Rightarrow> vf_qualifier_pattern option" where
  "qualifier_pattern PowerDiscovery = None"
| "qualifier_pattern (V8Qualification pat _) = qualifier_of pat"
| "qualifier_pattern (ApplyQualificationOf pat _) = qualifier_of pat"

fun purpose_goldens :: "'x f2_stress_purpose \<Rightarrow> 'x render_goldens option" where
  "purpose_goldens PowerDiscovery = None"
| "purpose_goldens (V8Qualification _ g) = Some g"
| "purpose_goldens (ApplyQualificationOf _ g) = Some g"

record single_dwell =
  sd_cancelled :: bool
  sd_crashed :: bool
  sd_silent_error :: bool
  sd_stable :: bool
  sd_avg_clock_mhz :: u32
  sd_p5_clock_mhz :: u32
  sd_p95_clock_mhz :: u32
  sd_power_w :: f32
  sd_max_power_w :: f32
  sd_power_p99_w :: "f32 option"
  sd_power_capped_frac :: f32
  sd_max_temp_c :: "f32 option"
  sd_thermal_throttled :: bool
  sd_volt_min_mv :: "u32 option"
  sd_volt_avg_mv :: "u32 option"
  sd_volt_max_mv :: "u32 option"
  sd_volt_sample_count :: u32
  sd_render_frames :: "u64 option"
  sd_render_fps :: "f64 option"
  sd_duration_ms :: u64
  sd_sample_count :: u32
  sd_coverage :: "f2_coverage option"
  sd_provenance :: "f2_provenance option"
  sd_prehang_stall :: bool

definition f2_clock_drop_tol_mhz :: u32 where "f2_clock_drop_tol_mhz = 0"
definition f2_clock_ceiling_tol_mhz :: u32 where "f2_clock_ceiling_tol_mhz = 15"
definition f2_voltage_ceiling_tol_mv :: u32 where "f2_voltage_ceiling_tol_mv = 0"
definition f2_voltage_authority_min_samples :: u32 where "f2_voltage_authority_min_samples = 3"

definition enforce_voltage_authority :: "f2_dwell_outcome \<Rightarrow> single_dwell \<Rightarrow> u32 \<Rightarrow> f2_dwell_outcome" where
  "enforce_voltage_authority oc d anchor_mv =
     (if oc \<noteq> DoStable then oc
      else if sd_volt_sample_count d < f2_voltage_authority_min_samples then DoInconclusive
      else if is_some_and (sd_volt_max_mv d) (\<lambda>mv. mv \<le> u32_sat_add anchor_mv f2_voltage_ceiling_tol_mv)
      then DoStable else DoInconclusive)"

definition held_clock :: "single_dwell \<Rightarrow> u32 \<Rightarrow> bool" where
  "held_clock d target \<longleftrightarrow> \<not> u32_add (sd_p5_clock_mhz d) f2_clock_drop_tol_mhz < target"

definition continuous_apply :: "'x f2_stress_purpose \<Rightarrow> bool" where
  "continuous_apply p =
     (case p of ApplyQualificationOf pat _ \<Rightarrow> pat \<noteq> TransitionShock | _ \<Rightarrow> False)"

definition classify_f2_stress_dwell ::
  "single_dwell \<Rightarrow> u32 \<Rightarrow> 'x f2_stress_purpose \<Rightarrow> f2_dwell_outcome" where
  "classify_f2_stress_dwell d target p =
     (if sd_cancelled d then DoInconclusive
      else if sd_crashed d then DoDeviceLost
      else if sd_silent_error d then DoSilentError
      else if \<not> sd_stable d then DoUnstable
      else if sd_p95_clock_mhz d > u32_add target f2_clock_ceiling_tol_mhz then DoInconclusive
      else if p = PowerDiscovery \<and> sd_thermal_throttled d then DoInconclusive
      else if continuous_apply p \<and> sd_thermal_throttled d \<and> \<not> held_clock d target then DoInconclusive
      else if p = PowerDiscovery \<and> sd_power_p99_w d = None then DoInconclusive
      else if is_qualification p \<and> \<not> is_some_and (sd_coverage d) (\<lambda>c. cv_verdict c = QPass)
      then DoInconclusive
      else if is_qualification p \<and> sd_prehang_stall d then DoUnstable
      else if p = PowerDiscovery \<and> \<not> held_clock d target then DoClockDrop
      else DoStable)"

definition chained_prev_offset :: "anchored_plan list \<Rightarrow> nat \<Rightarrow> i32 \<Rightarrow> i32" where
  "chained_prev_offset candidates i baseline =
     (if i > 0 \<and> i - 1 < length candidates then po_offset_mhz (ap_anchor (candidates ! (i - 1)))
      else baseline)"

section \<open>The real operations\<close>

datatype undervolt_mode = Anchored | Simple

datatype f2_op_error =
  ArmBootFlag io_error
| VoltageLockFailed lock_error
| WriterRefused plan_error
| ClockCeilingRefused driver_error
| ResetNotConfirmed unconfirmed
| ClearBootFlag io_error
| SaveRecord io_error
| NoCandidateAt nat
| SelectSafeMode
| SelectFlagArmed
| SelectBlacklisted nat

record 'x real_f2 =
  rf_curve :: vf_curve
  rf_candidate :: positive_offset_plan
  rf_anchored :: "anchored_plan option"
  rf_mode :: undervolt_mode
  rf_limits :: positive_offset_limits
  rf_target_mhz :: u32
  rf_prev_offset_mhz :: i32
  rf_dwell_ms :: u64
  rf_purpose :: "'x f2_stress_purpose"

definition rf_plan :: "'x real_f2 \<Rightarrow> anchored_plan option" where
  "rf_plan rf = (if rf_mode rf = Anchored then rf_anchored rf else None)"

definition lift_gpu :: "('e \<Rightarrow> 'f) \<Rightarrow> ('e, 'a) result \<times> 'g \<Rightarrow> 'g machine \<Rightarrow> ('f, unit) result \<times> 'g machine" where
  "lift_gpu err r m =
     (case r of (Inl e, g) \<Rightarrow> (Inl (err e), m\<lparr>mc_gpu := g\<rparr>) | (Inr _, g) \<Rightarrow> (Inr (), m\<lparr>mc_gpu := g\<rparr>))"

definition lift_disk ::
  "('e \<Rightarrow> 'f) \<Rightarrow> ('e, 'a) result \<times> disk \<Rightarrow> 'g machine \<Rightarrow> ('f, unit) result \<times> 'g machine" where
  "lift_disk err r m =
     (case r of (Inl e, d) \<Rightarrow> (Inl (err e), m\<lparr>mc_disk := d\<rparr>) | (Inr _, d) \<Rightarrow> (Inr (), m\<lparr>mc_disk := d\<rparr>))"

definition real_arm ::
  "codecs \<Rightarrow> string \<Rightarrow> 'x real_f2 \<Rightarrow> 'g machine \<Rightarrow> (f2_op_error, unit) result \<times> 'g machine" where
  "real_arm cx now rf m =
     lift_disk ArmBootFlag
       (arm_boot_flag (cx_flag cx)
          \<lparr>bf_intent = f2_intent (rf_target_mhz rf) (rf_candidate rf), bf_phase = ''f2_undervolt_probe'',
           bf_timestamp = now\<rparr> (mc_disk m)) m"

definition real_write :: "'g vendor \<Rightarrow> 'x real_f2 \<Rightarrow> 'g \<Rightarrow> (plan_error, unit) result \<times> 'g" where
  "real_write v rf g =
     (case rf_plan rf of
        Some _ \<Rightarrow>
          (case apply_anchored (ven_set_point v) (rf_curve rf) (po_index (rf_candidate rf)) (rf_target_mhz rf)
                  (rf_prev_offset_mhz rf) (rf_limits rf) g of
             (Inl e, g') \<Rightarrow> (Inl e, g') | (Inr _, g') \<Rightarrow> (Inr (), g'))
      | None \<Rightarrow>
          (case apply_bounded_positive_offset (ven_set_point v) (rf_curve rf) (po_index (rf_candidate rf))
                  (rf_target_mhz rf) (rf_prev_offset_mhz rf) (rf_limits rf) g of
             (Inl e, g') \<Rightarrow> (Inl e, g') | (Inr _, g') \<Rightarrow> (Inr (), g')))"

definition real_apply ::
  "'g vendor \<Rightarrow> ('g \<Rightarrow> 'g) \<Rightarrow> nat \<Rightarrow> 'x real_f2 \<Rightarrow> 'g machine \<Rightarrow> (f2_op_error, unit) result \<times> 'g machine" where
  "real_apply v settle polls rf m =
     (case lock_core_voltage_verified v settle polls (po_voltage_mv (rf_candidate rf)) (mc_gpu m) of
        (Inl e, g1) \<Rightarrow> (Inl (VoltageLockFailed e), m\<lparr>mc_gpu := g1\<rparr>)
      | (Inr _, g1) \<Rightarrow>
          (case real_write v rf g1 of
             (Inl e, g2) \<Rightarrow> (Inl (WriterRefused e), m\<lparr>mc_gpu := g2\<rparr>)
           | (Inr _, g2) \<Rightarrow> lift_gpu ClockCeilingRefused (lock_core_clock_max_mhz v (rf_target_mhz rf) g2) m))"

definition gate_of_anchored :: "anchored_offset_verification \<Rightarrow> positive_offset_verification" where
  "gate_of_anchored av =
     (case av of AnchoredRaiseVerified \<Rightarrow> RaiseVerified | AnchorRaiseIncomplete \<Rightarrow> RaiseIncomplete
      | AnchorOverRaise \<Rightarrow> OverRaise | HigherBinAboveTarget \<Rightarrow> OverRaise
      | UnexpectedPositiveOffset \<Rightarrow> OverRaise | AnchoredUnverifiable \<Rightarrow> RaiseUnverifiable)"

definition real_verify :: "'g vendor \<Rightarrow> 'x real_f2 \<Rightarrow> 'g machine \<Rightarrow> positive_offset_verification \<times> 'g machine" where
  "real_verify v rf m =
     (case rf_plan rf of
        Some plan \<Rightarrow>
          gate_of_anchored (verify_anchored plan (observe_plan (ven_get_point v) plan (mc_gpu m)) f2_verify_tol_mhz)
      | None \<Rightarrow>
          verify_positive_offset (po_offset_mhz (rf_candidate rf)) (po_effective_mhz (rf_candidate rf))
            (map_option (\<lambda>khz. khz sdiv 1000) (ven_get_point v (po_index (rf_candidate rf)) (mc_gpu m)))
            None f2_verify_tol_mhz, m)"

definition dwell_result_of :: "f2_dwell_outcome \<Rightarrow> single_dwell \<Rightarrow> f2_dwell_result" where
  "dwell_result_of oc d =
     \<lparr>dr_outcome = oc, dr_avg_clock_mhz = sd_avg_clock_mhz d, dr_p5_clock_mhz = sd_p5_clock_mhz d,
      dr_p95_clock_mhz = sd_p95_clock_mhz d, dr_power_w = sd_power_w d, dr_max_power_w = sd_max_power_w d,
      dr_power_p99_w = sd_power_p99_w d, dr_power_capped_frac = sd_power_capped_frac d,
      dr_max_temp_c = sd_max_temp_c d, dr_thermal_throttled = sd_thermal_throttled d,
      dr_voltage_min_mv = sd_volt_min_mv d, dr_voltage_avg_mv = sd_volt_avg_mv d,
      dr_voltage_max_mv = sd_volt_max_mv d, dr_voltage_sample_count = sd_volt_sample_count d,
      dr_render_frames = sd_render_frames d, dr_render_fps = sd_render_fps d,
      dr_duration_ms = sd_duration_ms d, dr_sample_count = sd_sample_count d,
      dr_coverage = sd_coverage d, dr_provenance = sd_provenance d\<rparr>"

text \<open>
  Which dwell a purpose runs; \<open>ExpectPanics\<close> stands for the two \<open>expect\<close>s. The workload itself is an
  argument: it may change the card, and the flag that cancels it is part of it.
\<close>

datatype 'x dwell_request =
  LoadDwell
| Dx11Dwell u32 'x
| QualifierDwell u32 vf_qualifier_pattern "'x render_goldens"
| ExpectPanics

definition qualifier_request :: "u32 \<Rightarrow> 'x f2_stress_purpose \<Rightarrow> 'x dwell_request" where
  "qualifier_request target p =
     (case (qualifier_pattern p, purpose_goldens p) of
        (Some pat, Some goldens) \<Rightarrow> QualifierDwell target pat goldens
      | _ \<Rightarrow> ExpectPanics)"

definition dwell_request_of :: "u32 \<Rightarrow> 'x f2_stress_purpose \<Rightarrow> 'x dwell_request" where
  "dwell_request_of target p =
     (case p of
        PowerDiscovery \<Rightarrow> LoadDwell
      | V8Qualification pat goldens \<Rightarrow>
          if pat = Dx11Game then Dx11Dwell target (rg_dx11 goldens) else qualifier_request target p
      | ApplyQualificationOf pat goldens \<Rightarrow>
          if pat = Dx11Game then Dx11Dwell target (rg_dx11 goldens) else qualifier_request target p)"

lemma dwell_request_total: "dwell_request_of target p \<noteq> ExpectPanics"
  by (cases p) (auto simp: dwell_request_of_def qualifier_request_def qualifier_of_def
      split: qualification_pattern.split)

type_synonym ('x, 'g) workload = "u64 \<Rightarrow> 'x dwell_request \<Rightarrow> 'g \<Rightarrow> single_dwell \<times> 'g"

definition real_dwell ::
  "('x, 'g) workload \<Rightarrow> 'x real_f2 \<Rightarrow> 'g machine \<Rightarrow> f2_dwell_result \<times> 'g machine" where
  "real_dwell workload rf m =
     (case workload (rf_dwell_ms rf) (dwell_request_of (rf_target_mhz rf) (rf_purpose rf)) (mc_gpu m) of
        (d, g) \<Rightarrow>
          (dwell_result_of
             (enforce_voltage_authority (classify_f2_stress_dwell d (rf_target_mhz rf) (rf_purpose rf)) d
                (po_voltage_mv (rf_candidate rf))) d,
           m\<lparr>mc_gpu := g\<rparr>))"

definition touched_bins :: "'x real_f2 \<Rightarrow> usize list" where
  "touched_bins rf =
     (case rf_plan rf of Some plan \<Rightarrow> map ab_index (ap_entries plan) | None \<Rightarrow> [po_index (rf_candidate rf)])"

definition real_reset ::
  "'g vendor \<Rightarrow> 'x real_f2 \<Rightarrow> 'g machine \<Rightarrow> (f2_op_error, unit) result \<times> 'g machine" where
  "real_reset v rf m =
     (let g = reset_to_stock v (mc_gpu m)
      in (case confirm_stock v (touched_bins rf) g of None \<Rightarrow> Inr () | Some u \<Rightarrow> Inl (ResetNotConfirmed u),
          m\<lparr>mc_gpu := g\<rparr>))"

definition real_clear :: "'g machine \<Rightarrow> (f2_op_error, unit) result \<times> 'g machine" where
  "real_clear m = lift_disk ClearBootFlag (clear_boot_flag (mc_disk m)) m"

definition real_blacklist ::
  "codecs \<Rightarrow> 'x real_f2 \<Rightarrow> bool \<Rightarrow> 'g machine \<Rightarrow> (f2_op_error, unit) result \<times> 'g machine" where
  "real_blacklist cx rf counts_as_crash m =
     (let r = load_record (cx_record cx) (mc_disk m)
      in lift_disk SaveRecord
           (save_record (cx_record cx) (push_region (f2_intent (rf_target_mhz rf) (rf_candidate rf)) r) (mc_disk m)) m)"

definition real_ops ::
  "'g vendor \<Rightarrow> ('g \<Rightarrow> 'g) \<Rightarrow> nat \<Rightarrow> ('x, 'g) workload \<Rightarrow> codecs \<Rightarrow> string \<Rightarrow> 'x real_f2 \<Rightarrow>
   ('g machine, f2_op_error) f2_ops" where
  "real_ops v settle polls workload cx now rf =
     \<lparr>op_arm = real_arm cx now rf, op_apply = real_apply v settle polls rf, op_verify = real_verify v rf,
      op_dwell = real_dwell workload rf, op_reset = real_reset v rf, op_clear = real_clear,
      op_blacklist = real_blacklist cx rf\<rparr>"

section \<open>The descent over the real operations\<close>

text \<open>
  The cursor of \<open>RealF2MultiOps\<close> is the current candidate's executor; its dwell time and purpose are those
  of the whole descent. Every run selects before it uses the cursor, so the panic of an unselected
  cursor has no counterpart.
\<close>

record f2_descent_cfg =
  fd_curve :: vf_curve
  fd_candidates :: "anchored_plan list"
  fd_limits :: positive_offset_limits
  fd_target_mhz :: u32
  fd_baseline_offset_mhz :: i32
  fd_prev_offset_override :: "i32 option"

definition real_select ::
  "codecs \<Rightarrow> f2_descent_cfg \<Rightarrow> nat \<Rightarrow> 'x real_f2 \<times> 'g machine \<Rightarrow>
   (f2_op_error, unit) result \<times> 'x real_f2 \<times> 'g machine" where
  "real_select cx cfg i s =
     (case s of (rf, m) \<Rightarrow>
      if \<not> i < length (fd_candidates cfg) then (Inl (NoCandidateAt i), rf, m)
      else let plan = fd_candidates cfg ! i;
               r = load_record (cx_record cx) (mc_disk m)
           in if safe_mode r then (Inl SelectSafeMode, rf, m)
              else if is_boot_flag_armed (mc_disk m) then (Inl SelectFlagArmed, rf, m)
              else if candidate_blacklisted r (fd_target_mhz cfg) (ap_anchor plan)
              then (Inl (SelectBlacklisted i), rf, m)
              else (Inr (),
                    \<lparr>rf_curve = fd_curve cfg, rf_candidate = ap_anchor plan, rf_anchored = Some plan,
                     rf_mode = Anchored, rf_limits = fd_limits cfg, rf_target_mhz = fd_target_mhz cfg,
                     rf_prev_offset_mhz = unwrap_or (fd_prev_offset_override cfg)
                       (chained_prev_offset (fd_candidates cfg) i (fd_baseline_offset_mhz cfg)),
                     rf_dwell_ms = rf_dwell_ms rf, rf_purpose = rf_purpose rf\<rparr>, m))"

definition on_cursor :: "('x \<Rightarrow> 'm \<Rightarrow> 'a \<times> 'm) \<Rightarrow> 'x \<times> 'm \<Rightarrow> 'a \<times> 'x \<times> 'm" where
  "on_cursor f s = (case f (fst s) (snd s) of (a, m) \<Rightarrow> (a, fst s, m))"

definition real_multi_ops ::
  "'g vendor \<Rightarrow> ('g \<Rightarrow> 'g) \<Rightarrow> nat \<Rightarrow> ('x, 'g) workload \<Rightarrow> codecs \<Rightarrow> string \<Rightarrow> f2_descent_cfg \<Rightarrow>
   ('x real_f2 \<times> 'g machine, f2_op_error) f2_multi_ops" where
  "real_multi_ops v settle polls workload cx now cfg =
     \<lparr>op_arm = on_cursor (real_arm cx now), op_apply = on_cursor (real_apply v settle polls),
      op_verify = on_cursor (real_verify v), op_dwell = on_cursor (real_dwell workload),
      op_reset = on_cursor (real_reset v), op_clear = on_cursor (\<lambda>_. real_clear),
      op_blacklist = (\<lambda>crash. on_cursor (\<lambda>rf. real_blacklist cx rf crash)),
      mo_count = (\<lambda>_. length (fd_candidates cfg)), mo_select = real_select cx cfg\<rparr>"

definition configure_phase ::
  "u64 \<Rightarrow> 'x f2_stress_purpose \<Rightarrow> 'x real_f2 \<times> 'g machine \<Rightarrow> 'x real_f2 \<times> 'g machine" where
  "configure_phase ms purpose s = ((fst s)\<lparr>rf_dwell_ms := ms, rf_purpose := purpose\<rparr>, snd s)"

section \<open>The contract holds\<close>

abbreviation flag_up :: "'g machine \<Rightarrow> bool" where
  "flag_up m \<equiv> is_boot_flag_armed (mc_disk m)"

lemma lift_gpu_simps [simp]:
  "mc_disk (snd (lift_gpu err r m)) = mc_disk m" "mc_gpu (snd (lift_gpu err r m)) = snd r"
  "fst (lift_gpu err r m) = Inr () \<longleftrightarrow> \<not> is_err (fst r)"
  by (auto simp: lift_gpu_def is_err_def split: prod.splits sum.splits)

lemma lift_disk_simps [simp]:
  "mc_disk (snd (lift_disk err r m)) = snd r" "mc_gpu (snd (lift_disk err r m)) = mc_gpu m"
  "fst (lift_disk err r m) = Inr () \<longleftrightarrow> \<not> is_err (fst r)"
  by (auto simp: lift_disk_def is_err_def split: prod.splits sum.splits)

lemma armed_save_record: "is_boot_flag_armed (snd (save_record c r d)) = is_boot_flag_armed d"
  by (auto simp: store_defs fs_defs split: option.splits)

lemma not_is_err [simp]: "\<not> is_err r \<longleftrightarrow> (\<exists>a. r = Inr a)"
  by (cases r) simp_all

lemma real_arm_flag:
  "fst (real_arm cx now rf m) = Inr () \<Longrightarrow> flag_up (snd (real_arm cx now rf m))"
  "fst (real_arm cx now rf m) = Inl e \<Longrightarrow> flag_up (snd (real_arm cx now rf m)) = flag_up m"
  "mc_gpu (snd (real_arm cx now rf m)) = mc_gpu m"
  using store_flag.arm_ok [of "cx_flag cx" _ "mc_disk m"] store_flag.arm_err [of "cx_flag cx" _ "mc_disk m"]
  by (auto simp: real_arm_def lift_disk_def split: prod.splits sum.splits) (metis fst_conv snd_conv)+

lemma real_flag [simp]:
  "mc_disk (snd (real_apply v settle polls rf m)) = mc_disk m"
  "mc_disk (snd (real_verify v rf m)) = mc_disk m" "mc_disk (snd (real_dwell workload rf m)) = mc_disk m"
  "mc_disk (snd (real_reset v rf m)) = mc_disk m"
  "flag_up (snd (real_blacklist cx rf crash m)) = flag_up m"
  "mc_gpu (snd (real_blacklist cx rf crash m)) = mc_gpu m" "mc_gpu (snd (real_clear m)) = mc_gpu m"
  by (auto simp: real_apply_def real_verify_def real_dwell_def real_reset_def real_blacklist_def
      real_clear_def Let_def armed_save_record split: prod.splits sum.splits)

lemma real_reset_ok:
  "fst (real_reset v rf m) = Inr () \<longleftrightarrow> confirm_stock v (touched_bins rf) (mc_gpu (snd (real_reset v rf m))) = None"
  by (simp add: real_reset_def Let_def split: option.split)

lemma real_clear_flag:
  "fst (real_clear m) = Inr () \<Longrightarrow> \<not> flag_up (snd (real_clear m))"
  "fst (real_clear m) = Inl e \<Longrightarrow> flag_up (snd (real_clear m)) = flag_up m"
  using store_flag.clear_ok [of "mc_disk m"] store_flag.clear_err [of "mc_disk m"]
  by (auto simp: real_clear_def lift_disk_def split: prod.splits sum.splits)

interpretation real: f2_motor "real_ops v settle polls workload cx now rf" "\<lambda>m. flag_up m"
  "\<lambda>m. confirm_stock v (touched_bins rf) (mc_gpu m) = None"
  for v settle polls workload cx now rf
  by unfold_locales
    (simp_all add: real_ops_def real_arm_flag real_reset_ok real_clear_flag)

lemma on_cursor_simps [simp]:
  "fst (on_cursor f s) = fst (f (fst s) (snd s))" "fst (snd (on_cursor f s)) = fst s"
  "snd (snd (on_cursor f s)) = snd (f (fst s) (snd s))"
  by (simp_all add: on_cursor_def split: prod.splits)

lemma real_select_ok:
  "fst (real_select cx cfg i s) = Inr () \<longleftrightarrow>
     i < length (fd_candidates cfg) \<and> \<not> safe_mode (load_record (cx_record cx) (mc_disk (snd s))) \<and>
     \<not> flag_up (snd s) \<and>
     \<not> candidate_blacklisted (load_record (cx_record cx) (mc_disk (snd s))) (fd_target_mhz cfg)
         (ap_anchor (fd_candidates cfg ! i))"
  "snd (snd (real_select cx cfg i s)) = snd s"
  "fst (real_select cx cfg i s) = Inl e \<Longrightarrow> snd (real_select cx cfg i s) = s"
  by (auto simp: real_select_def Let_def split: prod.splits if_splits)

interpretation cursor: f2_descent "real_multi_ops v settle polls workload cx now cfg" "\<lambda>s. flag_up (snd s)"
  "\<lambda>s. confirm_stock v (touched_bins (fst s)) (mc_gpu (snd s)) = None"
  for v settle polls workload cx now cfg
  by unfold_locales
    (simp_all add: real_multi_ops_def real_arm_flag real_reset_ok real_clear_flag real_select_ok)

section \<open>Properties\<close>

text \<open>C18: what a confirmed step leaves behind. When it reports the flag cleared, the flag is down and the
  card is confirmed at stock, every touched bin within 1 MHz and no voltage lock active; when it armed and
  did not clear, the flag still stands for the recovery at the next start. A validated step is one whose
  outcome says so, and it is always cleared; a lost device never is.\<close>

theorem confirmed_step_recovers:
  assumes "run_confirmed_f2_step build (real_ops v settle polls workload cx now rf) m = (r, m')"
  shows "(sr_boot_flag_cleared r \<longrightarrow> \<not> is_boot_flag_armed (mc_disk m') \<and>
      (\<forall>i\<in>set (touched_bins rf). near_zero (ven_get_point v i (mc_gpu m'))) \<and>
      read_core_voltage_lock_mv v (mc_gpu m') = Inr None) \<and>
    (sr_armed r \<and> \<not> sr_boot_flag_cleared r \<longrightarrow> is_boot_flag_armed (mc_disk m')) \<and>
    (sr_validated r \<longleftrightarrow> sr_outcome r = OcValidated) \<and>
    (sr_outcome r = OcValidated \<longrightarrow> sr_boot_flag_cleared r) \<and>
    (sr_outcome r = OcDeviceLost \<longrightarrow> \<not> sr_boot_flag_cleared r)"
  using real.step_settled [OF assms] confirm_stock_None [of v "touched_bins rf" "mc_gpu m'"]
  by (auto simp: real.settled_def split: if_splits)

text \<open>C19: a candidate transaction that is finished with its flag up either cleans up completely or keeps
  the flag. Clean means: flag down, card confirmed at stock, no phase lost the device, a failing phase was
  put on the blacklist, and exactly the passed phases count as validated. Otherwise no phase counts.\<close>

theorem transaction_all_or_nothing:
  assumes "finish_f2_transaction_reports (real_ops v settle polls workload cx now rf) rs m = ((cl, rs'), m')"
    and "is_boot_flag_armed (mc_disk m)"
  shows "if tx_clean cl
    then \<not> is_boot_flag_armed (mc_disk m') \<and> \<not> tx_retain_boot_flag cl \<and>
      (\<forall>i\<in>set (touched_bins rf). near_zero (ven_get_point v i (mc_gpu m'))) \<and>
      map sr_validated rs' = map (\<lambda>r. sr_outcome r = OcValidated) rs \<and>
      OcDeviceLost \<notin> sr_outcome ` set rs \<and>
      (sr_outcome ` set rs \<inter> {OcSilentError, OcUnstable} \<noteq> {} \<longrightarrow> (\<exists>r\<in>set rs'. sr_blacklisted r))
    else is_boot_flag_armed (mc_disk m') \<and> tx_retain_boot_flag cl \<and> (\<forall>r\<in>set rs'. \<not> sr_validated r)"
proof (cases "tx_clean cl")
  case True
  note T = real.transaction_settled [OF assms]
  have "map sr_validated rs' = map (\<lambda>r. sr_outcome r = OcValidated) rs'" using T True by simp
  also have "\<dots> = map (\<lambda>oc. oc = OcValidated) (map sr_outcome rs')" by simp
  also have "map sr_outcome rs' = map sr_outcome rs" using T True by simp
  finally have "map sr_validated rs' = map (\<lambda>r. sr_outcome r = OcValidated) rs" by (simp add: comp_def)
  then show ?thesis
    using T True confirm_stock_None [of v "touched_bins rf" "mc_gpu m'"] by (simp add: real.settled_def)
next
  case False
  then show ?thesis using real.transaction_settled [OF assms] by (simp add: real.settled_def)
qed

text \<open>C30: a descent started with the flag down ends with it up exactly when its last step armed it and
  could not clear it; a descent that wrote nothing leaves the flag down.\<close>

theorem descent_leaves_flag_exactly:
  assumes "run_confirmed_f2_multi_step build (real_multi_ops v settle polls workload cx now cfg) cap (rf, m)
      = (rep, (rf', m'))"
    and "\<not> is_boot_flag_armed (mc_disk m)"
  shows "is_boot_flag_armed (mc_disk m') \<longleftrightarrow>
    (mr_steps rep \<noteq> [] \<and> sr_armed (last (mr_steps rep)) \<and> \<not> sr_boot_flag_cleared (last (mr_steps rep)))"
proof -
  let ?ops = "real_multi_ops v settle polls workload cx now cfg"
  let ?n = "min (mo_count ?ops (rf, m)) cap"
  let ?stop = "if ?n = 0 then NoMoreCandidates else CompletedAllPlanned"
  obtain steps lst reason s' where run: "multi_loop build ?ops [0..<?n] ?stop [] None (rf, m)
      = ((steps, lst, reason), s')"
    by (cases "multi_loop build ?ops [0..<?n] ?stop [] None (rf, m)") auto
  then have "mr_steps rep = steps" "s' = (rf', m')"
    using assms(1) by (auto simp: run_confirmed_f2_multi_step_def Let_def)
  then show ?thesis using cursor.descent_flag [OF run] assms(2) by simp
qed

text \<open>A dwell counts as stable exactly when it ran to its end without a crash, a silent error or
  instability, held the clock ceiling, satisfied the rules of its purpose and proved the voltage authority
  with at least three samples none of which lies above the anchor.\<close>

lemma stable_dwell_exact:
  "enforce_voltage_authority (classify_f2_stress_dwell d target p) d anchor = DoStable \<longleftrightarrow>
     \<not> sd_cancelled d \<and> \<not> sd_crashed d \<and> \<not> sd_silent_error d \<and> sd_stable d \<and>
     sd_p95_clock_mhz d \<le> u32_add target 15 \<and>
     (case p of
        PowerDiscovery \<Rightarrow> \<not> sd_thermal_throttled d \<and> sd_power_p99_w d \<noteq> None \<and> held_clock d target
      | V8Qualification _ _ \<Rightarrow> is_some_and (sd_coverage d) (\<lambda>c. cv_verdict c = QPass) \<and> \<not> sd_prehang_stall d
      | ApplyQualificationOf pat _ \<Rightarrow>
          \<not> (pat \<noteq> TransitionShock \<and> sd_thermal_throttled d \<and> \<not> held_clock d target) \<and>
          is_some_and (sd_coverage d) (\<lambda>c. cv_verdict c = QPass) \<and> \<not> sd_prehang_stall d) \<and>
     3 \<le> sd_volt_sample_count d \<and> is_some_and (sd_volt_max_mv d) (\<lambda>mv. mv \<le> u32_sat_add anchor 0)"
  by (cases p) (auto simp: enforce_voltage_authority_def classify_f2_stress_dwell_def continuous_apply_def
      f2_clock_ceiling_tol_mhz_def f2_voltage_authority_min_samples_def f2_voltage_ceiling_tol_mv_def)

section \<open>The executor on the concrete card\<close>

definition toy_dwell :: single_dwell where
  "toy_dwell =
     \<lparr>sd_cancelled = False, sd_crashed = False, sd_silent_error = False, sd_stable = True,
      sd_avg_clock_mhz = 1900, sd_p5_clock_mhz = 1900, sd_p95_clock_mhz = 1905, sd_power_w = Fin 200,
      sd_max_power_w = Fin 210, sd_power_p99_w = Some (Fin 205), sd_power_capped_frac = Fin 0,
      sd_max_temp_c = None, sd_thermal_throttled = False, sd_volt_min_mv = Some 845,
      sd_volt_avg_mv = Some 850, sd_volt_max_mv = Some 850, sd_volt_sample_count = 3,
      sd_render_frames = None, sd_render_fps = None, sd_duration_ms = 1000, sd_sample_count = 10,
      sd_coverage = None, sd_provenance = None, sd_prehang_stall = False\<rparr>"

definition toy_executor :: "unit real_f2" where
  "toy_executor =
     \<lparr>rf_curve = toy_curve,
      rf_candidate = \<lparr>po_index = 6, po_voltage_mv = 850, po_base_mhz = 1800, po_offset_mhz = 100,
        po_prev_offset_mhz = 0, po_step_delta_mhz = 100, po_effective_mhz = 1900\<rparr>,
      rf_anchored = None, rf_mode = Simple,
      rf_limits = \<lparr>abs_max_offset_mhz = 450, step_max_offset_mhz = 450, hw_floor_mv = 700,
        clock_ceiling_mhz = 1950\<rparr>,
      rf_target_mhz = 1900, rf_prev_offset_mhz = 0, rf_dwell_ms = 1000, rf_purpose = PowerDiscovery\<rparr>"

abbreviation toy_real_ops :: "(toy_card machine, f2_op_error) f2_ops" where
  "toy_real_ops \<equiv>
     real_ops (toy_vendor False) (\<lambda>g. g) 20 (\<lambda>_ _ g. (toy_dwell, g)) toy_codecs ''now'' toy_executor"

definition armed_machine :: "toy_card machine" where
  "armed_machine = (toy_machine [])\<lparr>mc_disk := toy_disk\<lparr>files := [boot_flag_file \<mapsto> ''f'']\<rparr>\<rparr>"

abbreviation "armed_at \<equiv> \<lambda>g. armed_machine\<lparr>mc_gpu := g\<rparr>"

lemma toy_real_arm: "real_arm toy_codecs now rf (toy_machine []) = (Inr (), armed_at stock_card)"
  by (simp add: real_arm_def lift_disk_def toy_machine_def armed_machine_def toy_disk_def toy_codecs_def
      store_defs fs_defs fun_upd_def)

lemma toy_real_apply:
  "real_apply (toy_vendor False) (\<lambda>g. g) 20 toy_executor (armed_at stock_card) =
     (Inr (), armed_at ((\<lambda>_. 0)(6 := 100000), 850000))"
proof -
  have "plan_bounded_positive_offset toy_curve 6 1900 0 (rf_limits toy_executor) = Inr (rf_candidate toy_executor)"
    by (simp add: toy_executor_def plan_bounded_positive_offset_def toy_curve_def is_sane_base_curve_def
        is_sane_base_point_def is_i32_def as_u32_def Let_def)
  then have "real_write (toy_vendor False) toy_executor (p, l) = (Inr (), p(6 := 100000), l)" for p l
    by (simp add: real_write_def rf_plan_def apply_bounded_positive_offset_def toy_vendor_def toy_executor_def
        i32_mul_def is_i32_def)
  moreover have "lock_core_clock_max_mhz (toy_vendor False) 1900 g = (Inr (), g)" for g
    by (simp add: lock_core_clock_max_mhz_def drv_of_def toy_vendor_def)
  moreover have "po_voltage_mv (rf_candidate toy_executor) = 850" "rf_target_mhz toy_executor = 1900"
    by (simp_all add: toy_executor_def)
  ultimately show ?thesis by (simp add: real_apply_def stock_card_def toy_lock lift_gpu_def)
qed

lemma toy_real_verify:
  "real_verify (toy_vendor False) toy_executor (armed_at ((\<lambda>_. 0)(6 := 100000), 850000)) =
     (RaiseVerified, armed_at ((\<lambda>_. 0)(6 := 100000), 850000))"
  by (simp add: real_verify_def rf_plan_def toy_executor_def verify_positive_offset_def toy_vendor_def
      is_i32_def f2_verify_tol_mhz_def Let_def)

lemma toy_real_dwell:
  "real_dwell (\<lambda>_ _ g. (toy_dwell, g)) toy_executor m = (dwell_result_of DoStable toy_dwell, m)"
  by (simp add: real_dwell_def toy_executor_def classify_f2_stress_dwell_def enforce_voltage_authority_def
      toy_dwell_def f2_clock_ceiling_tol_mhz_def continuous_apply_def held_clock_def f2_clock_drop_tol_mhz_def
      f2_voltage_authority_min_samples_def f2_voltage_ceiling_tol_mv_def u_arith)

lemma toy_real_reset:
  assumes "set (touched_bins rf) \<subseteq> {0, 1, 2, 3, 4, 5, 6, 7, 8, 9}"
  shows "real_reset (toy_vendor b) rf (armed_at (p, l)) = (Inr (), armed_at (clear_bins p, 0))"
proof -
  have "confirm_bins (toy_vendor b) is (clear_bins p, 0) = None"
    if "set is \<subseteq> {0, 1, 2, 3, 4, 5, 6, 7, 8, 9}" for "is"
    using that
  proof (induction "is")
    case (Cons i js)
    then have "clear_bins p i = 0" unfolding clear_bins_def by (simp add: fun_upd_apply) blast
    then have "ven_get_point (toy_vendor b) i (clear_bins p, 0) = Some 0"
      by (simp add: toy_vendor_def is_i32_def)
    then show ?case using Cons by (simp add: is_i32_def)
  qed simp
  then have "confirm_bins (toy_vendor b) (touched_bins rf) (clear_bins p, 0) = None" using assms by blast
  moreover have "read_core_voltage_lock_mv (toy_vendor b) (q, 0) = Inr None" for q
    by (simp add: read_core_voltage_lock_mv_def read_core_voltage_locks_def toy_vendor_def)
  ultimately show ?thesis by (simp add: real_reset_def toy_reset_to_stock confirm_stock_def Let_def)
qed

lemma toy_real_clear: "real_clear (armed_at g) = (Inr (), (toy_machine [])\<lparr>mc_gpu := g\<rparr>)"
  by (simp add: real_clear_def lift_disk_def armed_machine_def toy_machine_def toy_disk_def
      store_defs fs_defs)

lemma armed_at_flag [simp]: "is_boot_flag_armed (mc_disk armed_machine)"
  by (simp add: armed_machine_def toy_machine_def toy_disk_def store_defs fs_defs)

lemma toy_real_step:
  "\<exists>r m'. run_confirmed_f2_step build toy_real_ops (toy_machine []) = (r, m') \<and> sr_outcome r = OcValidated"
proof -
  have t: "touched_bins toy_executor = [6]" by (simp add: touched_bins_def rf_plan_def toy_executor_def)
  show ?thesis
    by (simp add: run_confirmed_f2_step_def real_ops_def toy_real_arm toy_real_apply toy_real_verify
        toy_real_dwell toy_real_reset t toy_real_clear finish_after_write_def is_ok_def is_err_def Let_def
        dwell_result_of_def populate_f2_dwell_report_def outcome_of_dwell_def)
qed

theorem confirmed_step_recovers_witness:
  "\<exists>r m'. run_confirmed_f2_step sample_provenance toy_real_ops (toy_machine []) = (r, m') \<and>
     sr_validated r \<and> sr_boot_flag_cleared r \<and> \<not> is_boot_flag_armed (mc_disk m')"
proof -
  obtain r m' where r: "run_confirmed_f2_step sample_provenance toy_real_ops (toy_machine []) = (r, m')"
    "sr_outcome r = OcValidated" using toy_real_step by blast
  then show ?thesis using confirmed_step_recovers [OF r(1)] by blast
qed

theorem transaction_all_or_nothing_witness:
  "\<exists>cl rs' m'. finish_f2_transaction_reports toy_real_ops [empty_f2_step_report sample_provenance] armed_machine
      = ((cl, rs'), m') \<and> tx_clean cl \<and> \<not> is_boot_flag_armed (mc_disk m') \<and> map sr_validated rs' = [True]"
proof -
  obtain cl rs' m' where r: "finish_f2_transaction_reports toy_real_ops [empty_f2_step_report sample_provenance]
      armed_machine = ((cl, rs'), m')" by (metis surj_pair)
  have t: "touched_bins toy_executor = [6]" by (simp add: touched_bins_def rf_plan_def toy_executor_def)
  have a: "armed_machine = armed_at stock_card" by (simp add: armed_machine_def toy_machine_def)
  have "tx_clean cl"
    using r unfolding finish_f2_transaction_reports_def
    by (subst (asm) a) (auto simp: real_ops_def empty_f2_step_report_def toy_real_reset t stock_card_def
        tx_record_def tx_conclude_def toy_real_clear is_ok_def is_err_def Let_def split: prod.splits)
  then show ?thesis
    using r transaction_all_or_nothing [OF r armed_at_flag] by (simp add: empty_f2_step_report_def)
qed

text \<open>A descent of one candidate that lies below the driver's floor: the writer refuses it.\<close>

definition refused_cfg :: f2_descent_cfg where
  "refused_cfg =
     \<lparr>fd_curve = toy_curve,
      fd_candidates = [\<lparr>ap_target_mhz = 1900, ap_anchor = rf_candidate toy_executor, ap_entries = [],
        ap_capped_above_bins = 0, ap_above_already_ok_bins = 0, ap_elastic_below_bins = 0,
        ap_max_positive_offset_mhz = 0, ap_max_negative_flatten_mhz = 0\<rparr>],
      fd_limits = (rf_limits toy_executor)\<lparr>hw_floor_mv := 900\<rparr>, fd_target_mhz = 1900,
      fd_baseline_offset_mhz = 0, fd_prev_offset_override = None\<rparr>"

definition refused_executor :: "unit real_f2" where
  "refused_executor =
     toy_executor\<lparr>rf_anchored := Some (hd (fd_candidates refused_cfg)), rf_mode := Anchored,
       rf_limits := fd_limits refused_cfg\<rparr>"

abbreviation refused_ops :: "(unit real_f2 \<times> toy_card machine, f2_op_error) f2_multi_ops" where
  "refused_ops \<equiv>
     real_multi_ops (toy_vendor False) (\<lambda>g. g) 20 (\<lambda>_ _ g. (toy_dwell, g)) toy_codecs ''now'' refused_cfg"

lemma refused_select:
  "real_select toy_codecs refused_cfg 0 (toy_executor, toy_machine []) = (Inr (), refused_executor, toy_machine [])"
  by (simp add: real_select_def refused_cfg_def toy_machine_def toy_disk_def load_record_def fs_read_def
      default_record_def is_boot_flag_armed_def fs_exists_def candidate_blacklisted_def is_blacklisted_def
      field_pair_blacklisted_def field_floor_refuses_def field_vf_floor_mv_def field_points_def
      List.map_filter_def envelope_at_def running_envelope_def refused_executor_def Let_def)
    (simp add: toy_executor_def chained_prev_offset_def)

lemma refused_apply:
  "\<exists>e l. real_apply (toy_vendor False) (\<lambda>g. g) 20 refused_executor (armed_at stock_card) =
     (Inl e, armed_at (\<lambda>_. 0, l))"
proof -
  have "plan_anchored toy_curve 6 1900 0 (rf_limits refused_executor) = Inl (PlanBelowFloor 850 900)"
    by (simp add: refused_executor_def refused_cfg_def toy_executor_def plan_anchored_def
        plan_bounded_positive_offset_def toy_curve_def is_sane_base_curve_def is_sane_base_point_def
        is_i32_def Let_def)
  then have "real_write (toy_vendor False) refused_executor g = (Inl (PlanBelowFloor 850 900), g)" for g
    by (simp add: real_write_def rf_plan_def apply_anchored_def refused_executor_def toy_executor_def)
  moreover have "po_voltage_mv (rf_candidate refused_executor) = 850"
    by (simp add: refused_executor_def toy_executor_def)
  ultimately show ?thesis by (simp add: real_apply_def stock_card_def toy_lock) blast
qed

theorem descent_leaves_flag_exactly_witness:
  "\<exists>rep rf' m'. run_confirmed_f2_multi_step sample_provenance refused_ops 4 (toy_executor, toy_machine []) =
      (rep, (rf', m')) \<and> mr_executed rep = 1 \<and> \<not> is_boot_flag_armed (mc_disk m')"
proof -
  obtain e l where ap: "real_apply (toy_vendor False) (\<lambda>g. g) 20 refused_executor (armed_at stock_card) =
     (Inl e, armed_at (\<lambda>_. 0, l))" using refused_apply by blast
  have t: "touched_bins refused_executor = []"
    by (simp add: touched_bins_def rf_plan_def refused_executor_def refused_cfg_def)
  have n: "[0..<min (mo_count refused_ops s) 4] = [0]" for s
    by (simp add: real_multi_ops_def refused_cfg_def)
  obtain rep m' where r: "run_confirmed_f2_multi_step sample_provenance refused_ops 4 (toy_executor, toy_machine []) =
      (rep, (refused_executor, m'))" "mr_executed rep = 1" "sr_boot_flag_cleared (last (mr_steps rep))"
    unfolding run_confirmed_f2_multi_step_def
    by (simp add: n Let_def) (simp add: real_multi_ops_def refused_select on_cursor_def run_confirmed_f2_step_def
        toy_real_arm ap toy_real_reset t toy_real_clear finish_after_write_def is_ok_def is_err_def stop_of_def Let_def)
  moreover have "\<not> is_boot_flag_armed (mc_disk (toy_machine []))"
    by (simp add: toy_machine_def toy_disk_def store_defs fs_defs)
  ultimately show ?thesis using descent_leaves_flag_exactly [OF r(1)] by blast
qed

end
