(* ===== verification/F2Plan.thy ===== *)
theory F2Plan
  imports F2Real
begin

text \<open>
  The pure planners of \<open>crates/service/src/gpu_undervolt.rs\<close>: the single-bin search, the anchored plan,
  the manual prior, the same-target descent, and the read-only preflight of the dry run. The two searches
  are one loop over the bins, from the highest voltage down, that chains the offset of each plan into the
  next. The theorems tie the plans to the writer: what was planned is what the writer plans again.
\<close>

section \<open>The search over the bins\<close>

definition descending_bins :: "vf_curve \<Rightarrow> vf_curve" where
  "descending_bins curve = sort_key (\<lambda>p. - int (pt_mv p)) curve"

datatype descent_stop = StepBudget nat | PlanStopped plan_error

fun descent_loop ::
  "(usize \<Rightarrow> i32 \<Rightarrow> (plan_error, 'p) result) \<Rightarrow> ('p \<Rightarrow> i32) \<Rightarrow> u32 \<Rightarrow> u32 option \<Rightarrow> nat \<Rightarrow>
   vf_curve \<Rightarrow> 'p list \<Rightarrow> i32 \<Rightarrow> u32 \<Rightarrow> 'p list \<times> descent_stop option \<times> u32" where
  "descent_loop plan offset target start_mv max_steps [] acc prev skipped = (acc, None, skipped)"
| "descent_loop plan offset target start_mv max_steps ((i, mv, base) # bins) acc prev skipped =
     (if is_some_and start_mv (\<lambda>s. mv > s)
      then descent_loop plan offset target start_mv max_steps bins acc prev skipped
      else if length acc \<ge> max_steps then (acc, Some (StepBudget max_steps), skipped)
      else if base \<ge> target
      then descent_loop plan offset target start_mv max_steps bins acc prev (u32_add skipped 1)
      else case plan i prev of
             Inr p \<Rightarrow> descent_loop plan offset target start_mv max_steps bins (acc @ [p]) (offset p) skipped
           | Inl reason \<Rightarrow> (acc, Some (PlanStopped reason), skipped))"

record undervolt_probe_plan =
  up_focus_target_mhz :: u32
  up_start_mv :: "u32 option"
  up_max_steps :: nat
  up_points :: "positive_offset_plan list"
  up_stop_reason :: "descent_stop option"
  up_skipped_above_target :: u32

definition plan_undervolt_probe ::
  "vf_curve \<Rightarrow> u32 \<Rightarrow> u32 option \<Rightarrow> positive_offset_limits \<Rightarrow> nat \<Rightarrow> undervolt_probe_plan" where
  "plan_undervolt_probe curve target start_mv lims max_steps =
     (case descent_loop (\<lambda>i prev. plan_bounded_positive_offset curve i target prev lims) po_offset_mhz
             target start_mv max_steps (descending_bins curve) [] 0 0 of
        (points, stop, skipped) \<Rightarrow>
          \<lparr>up_focus_target_mhz = target, up_start_mv = start_mv, up_max_steps = max_steps,
           up_points = points, up_stop_reason = stop, up_skipped_above_target = skipped\<rparr>)"

record anchored_descent_plan =
  adp_focus_target_mhz :: u32
  adp_start_mv :: "u32 option"
  adp_max_steps :: nat
  adp_candidates :: "anchored_plan list"
  adp_stop_reason :: "descent_stop option"
  adp_skipped_above_target :: u32

definition plan_anchored_undervolt_descent ::
  "vf_curve \<Rightarrow> u32 \<Rightarrow> u32 option \<Rightarrow> positive_offset_limits \<Rightarrow> nat \<Rightarrow> anchored_descent_plan" where
  "plan_anchored_undervolt_descent curve target start_mv lims max_steps =
     (case descent_loop (\<lambda>i prev. plan_anchored curve i target prev lims) (\<lambda>p. po_offset_mhz (ap_anchor p))
             target start_mv max_steps (descending_bins curve) [] 0 0 of
        (candidates, stop, skipped) \<Rightarrow>
          \<lparr>adp_focus_target_mhz = target, adp_start_mv = start_mv, adp_max_steps = max_steps,
           adp_candidates = candidates, adp_stop_reason = stop, adp_skipped_above_target = skipped\<rparr>)"

section \<open>One anchored plan, and the manual prior\<close>

datatype probe_note = NothingToAnchor | ProbeRefused plan_error

record anchored_probe_plan =
  pp_focus_target_mhz :: u32
  pp_start_mv :: "u32 option"
  pp_anchor_mv :: "u32 option"
  pp_plan :: "anchored_plan option"
  pp_note :: "probe_note option"

definition bin_at :: "vf_curve \<Rightarrow> usize \<Rightarrow> (usize \<times> u32 \<times> u32) option" where
  "bin_at curve i = find (\<lambda>p. pt_index p = i) curve"

definition plan_anchored_undervolt ::
  "vf_curve \<Rightarrow> u32 \<Rightarrow> u32 option \<Rightarrow> positive_offset_limits \<Rightarrow> anchored_probe_plan" where
  "plan_anchored_undervolt curve target start_mv lims =
     (case select_anchor_bin curve target start_mv of
        None \<Rightarrow>
          \<lparr>pp_focus_target_mhz = target, pp_start_mv = start_mv, pp_anchor_mv = None, pp_plan = None,
           pp_note = Some NothingToAnchor\<rparr>
      | Some anchor \<Rightarrow>
          (let anchor_mv = map_option pt_mv (bin_at curve anchor)
           in case plan_anchored curve anchor target 0 lims of
                Inr plan \<Rightarrow>
                  \<lparr>pp_focus_target_mhz = target, pp_start_mv = start_mv, pp_anchor_mv = anchor_mv,
                   pp_plan = Some plan, pp_note = None\<rparr>
              | Inl reason \<Rightarrow>
                  \<lparr>pp_focus_target_mhz = target, pp_start_mv = start_mv, pp_anchor_mv = anchor_mv,
                   pp_plan = None, pp_note = Some (ProbeRefused reason)\<rparr>))"

record manual_prior_plan =
  mp_focus_target_mhz :: u32
  mp_requested_start_mv :: u32
  mp_selected_idx :: "usize option"
  mp_selected_mv :: "u32 option"
  mp_base_mhz :: "u32 option"
  mp_required_offset_mhz :: "i32 option"
  mp_manual_cap_mhz :: i32
  mp_within_bounds :: bool
  mp_probe :: anchored_probe_plan
  mp_note :: "probe_note option"

definition plan_manual_prior_undervolt ::
  "vf_curve \<Rightarrow> u32 \<Rightarrow> u32 \<Rightarrow> positive_offset_limits \<Rightarrow> manual_prior_plan" where
  "plan_manual_prior_undervolt curve target requested lims =
     (let selected = select_anchor_bin curve target (Some requested);
          bin = Option.bind selected (bin_at curve);
          probe = plan_anchored_undervolt curve target (Some requested) lims
      in \<lparr>mp_focus_target_mhz = target, mp_requested_start_mv = requested, mp_selected_idx = selected,
          mp_selected_mv = map_option pt_mv bin, mp_base_mhz = map_option pt_mhz bin,
          mp_required_offset_mhz = map_option (\<lambda>p. i32_sub (as_i32 target) (as_i32 (pt_mhz p))) bin,
          mp_manual_cap_mhz = abs_max_offset_mhz lims, mp_within_bounds = (pp_plan probe \<noteq> None),
          mp_probe = probe, mp_note = pp_note probe\<rparr>)"

section \<open>The read-only preflight\<close>

datatype preflight_reason = PreSafeMode | PreFlagArmed | PreBlacklisted nat

record preflight_verdict =
  pf_safe :: bool
  pf_reasons :: "preflight_reason list"
  pf_safe_mode :: bool
  pf_consecutive_crashes :: u32
  pf_boot_flag_armed :: bool
  pf_blacklisted_points :: nat

definition undervolt_preflight ::
  "safe_loop_record \<Rightarrow> bool \<Rightarrow> tuning_point list \<Rightarrow> preflight_verdict" where
  "undervolt_preflight r armed points =
     (let blacklisted = length (filter (is_blacklisted r) points);
          reasons = (if safe_mode r then [PreSafeMode] else []) @ (if armed then [PreFlagArmed] else []) @
                    (if blacklisted > 0 then [PreBlacklisted blacklisted] else [])
      in \<lparr>pf_safe = (reasons = []), pf_reasons = reasons, pf_safe_mode = safe_mode r,
          pf_consecutive_crashes = consecutive_crashes r, pf_boot_flag_armed = armed,
          pf_blacklisted_points = blacklisted\<rparr>)"

section \<open>What the search plans\<close>

definition eligible :: "u32 \<Rightarrow> u32 option \<Rightarrow> vf_curve \<Rightarrow> vf_curve" where
  "eligible target start_mv bins =
     filter (\<lambda>p. is_none_or start_mv (\<lambda>s. pt_mv p \<le> s) \<and> pt_mhz p < target) bins"

definition chain_ref :: "('p \<Rightarrow> i32) \<Rightarrow> i32 \<Rightarrow> 'p list \<Rightarrow> nat \<Rightarrow> i32" where
  "chain_ref offset prev ps i = (case i of 0 \<Rightarrow> prev | Suc j \<Rightarrow> offset (ps ! j))"

definition chained ::
  "(usize \<Rightarrow> i32 \<Rightarrow> (plan_error, 'p) result) \<Rightarrow> ('p \<Rightarrow> i32) \<Rightarrow> vf_curve \<Rightarrow> i32 \<Rightarrow> 'p list \<Rightarrow> bool" where
  "chained plan offset bins prev ps \<longleftrightarrow>
     length ps \<le> length bins \<and>
     (\<forall>i<length ps. plan (pt_index (bins ! i)) (chain_ref offset prev ps i) = Inr (ps ! i))"

lemma chained_Nil [simp]: "chained plan offset bins prev []"
  by (simp add: chained_def)

lemma chain_ref_simps [simp]:
  "chain_ref offset prev ps 0 = prev"
  "chain_ref offset prev (p # ps) (Suc i) = chain_ref offset (offset p) ps i"
  by (auto simp: chain_ref_def split: nat.split)

lemma chained_Cons:
  "chained plan offset (b # bins) prev (p # ps) \<longleftrightarrow>
     plan (pt_index b) prev = Inr p \<and> chained plan offset bins (offset p) ps"
  by (auto simp: chained_def All_less_Suc2)

definition stops ::
  "(usize \<Rightarrow> i32 \<Rightarrow> (plan_error, 'p) result) \<Rightarrow> ('p \<Rightarrow> i32) \<Rightarrow> vf_curve \<Rightarrow> i32 \<Rightarrow> 'p list \<Rightarrow> nat \<Rightarrow>
   descent_stop option \<Rightarrow> bool" where
  "stops plan offset bins prev ps room stop =
     (case stop of
        None \<Rightarrow> length ps = length bins
      | Some (StepBudget _) \<Rightarrow> length ps = room
      | Some (PlanStopped e) \<Rightarrow>
          length ps < length bins \<and>
          plan (pt_index (bins ! length ps)) (chain_ref offset prev ps (length ps)) = Inl e)"

lemma descent_loop_chain:
  "descent_loop plan offset target start_mv max_steps bins acc prev skipped = (res, stop, skipped') \<Longrightarrow>
   length acc \<le> max_steps \<Longrightarrow>
   \<exists>new. res = acc @ new \<and> length res \<le> max_steps \<and>
     chained plan offset (eligible target start_mv bins) prev new \<and>
     stops plan offset (eligible target start_mv bins) prev new (max_steps - length acc) stop"
proof (induction plan offset target start_mv max_steps bins acc prev skipped rule: descent_loop.induct)
  case (1 plan offset target start_mv max_steps acc prev skipped)
  then show ?case by (simp add: eligible_def stops_def)
next
  case (2 plan offset target start_mv max_steps i mv base bins acc prev skipped)
  let ?el = "eligible target start_mv bins"
  consider (above) "is_some_and start_mv (\<lambda>s. mv > s)"
    | (budget) "\<not> is_some_and start_mv (\<lambda>s. mv > s)" "length acc \<ge> max_steps"
    | (holds) "\<not> is_some_and start_mv (\<lambda>s. mv > s)" "length acc < max_steps" "base \<ge> target"
    | (plan) "\<not> is_some_and start_mv (\<lambda>s. mv > s)" "length acc < max_steps" "base < target"
    by linarith
  then show ?case
  proof cases
    case above
    then have e: "eligible target start_mv ((i, mv, base) # bins) = ?el"
      by (cases start_mv) (auto simp: eligible_def)
    show ?thesis unfolding e using 2 above by simp
  next
    case budget
    then show ?thesis using 2 by (auto simp: stops_def)
  next
    case holds
    then have e: "eligible target start_mv ((i, mv, base) # bins) = ?el"
      by (simp add: eligible_def)
    show ?thesis unfolding e using 2 holds by simp
  next
    case plan
    then have e: "eligible target start_mv ((i, mv, base) # bins) = (i, mv, base) # ?el"
      by (cases start_mv) (simp_all add: eligible_def)
    show ?thesis
    proof (cases "plan i prev")
      case (Inl x)
      then show ?thesis unfolding e using 2 plan by (auto simp: stops_def chain_ref_def)
    next
      case (Inr p)
      then obtain new where new: "res = (acc @ [p]) @ new" "length res \<le> max_steps"
        "chained plan offset ?el (offset p) new"
        "stops plan offset ?el (offset p) new (max_steps - length (acc @ [p])) stop"
        using 2(3) [OF plan(1) _ _ Inr] 2(4) plan by (auto simp: not_le)
      have "chained plan offset ((i, mv, base) # ?el) prev (p # new)"
        using Inr new(3) by (simp add: chained_Cons)
      moreover have "stops plan offset ((i, mv, base) # ?el) prev (p # new) (max_steps - length acc) stop"
        using new(4) plan by (auto simp: stops_def chain_ref_def split: option.splits descent_stop.splits nat.splits)
      ultimately show ?thesis unfolding e using new(1,2) by (intro exI [of _ "p # new"]) simp
    qed
  qed
qed

lemma eligible_subset: "set (eligible target start_mv (descending_bins curve)) \<subseteq> set curve"
  by (auto simp: eligible_def descending_bins_def)

lemma descending_sorted: "sorted_wrt (\<lambda>p q. pt_mv q \<le> pt_mv p) (eligible target start_mv (descending_bins curve))"
proof -
  have "sorted (map (\<lambda>p. - int (pt_mv p)) (descending_bins curve))"
    unfolding descending_bins_def by (rule sorted_sort_key)
  then have "sorted_wrt (\<lambda>p q. pt_mv q \<le> pt_mv p) (descending_bins curve)"
    by (simp add: sorted_map)
  then show ?thesis unfolding eligible_def by (rule sorted_wrt_filter)
qed

lemma chained_prev_ref:
  "i \<le> length cs \<Longrightarrow> chain_ref (\<lambda>p. po_offset_mhz (ap_anchor p)) 0 cs i = chained_prev_offset cs i 0"
  by (cases i) (auto simp: chain_ref_def chained_prev_offset_def)

lemma descent_plan_chain:
  fixes curve target start_mv lims max_steps
  defines "dp \<equiv> plan_anchored_undervolt_descent curve target start_mv lims max_steps"
    and "el \<equiv> eligible target start_mv (descending_bins curve)"
  shows "length (adp_candidates dp) \<le> max_steps"
    "chained (\<lambda>i prev. plan_anchored curve i target prev lims) (\<lambda>p. po_offset_mhz (ap_anchor p)) el 0
       (adp_candidates dp)"
    "stops (\<lambda>i prev. plan_anchored curve i target prev lims) (\<lambda>p. po_offset_mhz (ap_anchor p)) el 0
       (adp_candidates dp) max_steps (adp_stop_reason dp)"
proof -
  let ?plan = "\<lambda>i prev. plan_anchored curve i target prev lims"
  let ?off = "\<lambda>p. po_offset_mhz (ap_anchor p)"
  obtain res stop sk where l: "descent_loop ?plan ?off target start_mv max_steps (descending_bins curve) [] 0 0 = (res, stop, sk)"
    by (metis surj_pair)
  then have "adp_candidates dp = res" "adp_stop_reason dp = stop"
    by (simp_all add: dp_def plan_anchored_undervolt_descent_def)
  then show "length (adp_candidates dp) \<le> max_steps" "chained ?plan ?off el 0 (adp_candidates dp)"
    "stops ?plan ?off el 0 (adp_candidates dp) max_steps (adp_stop_reason dp)"
    using descent_loop_chain [OF l] by (auto simp: el_def)
qed

lemma descent_candidate:
  fixes curve target start_mv lims max_steps
  defines "cs \<equiv> adp_candidates (plan_anchored_undervolt_descent curve target start_mv lims max_steps)"
    and "el \<equiv> eligible target start_mv (descending_bins curve)"
  assumes i: "i < length cs" and u: "is_u32 target"
  shows "i < length el \<and> po_index (ap_anchor (cs ! i)) = pt_index (el ! i) \<and>
    plan_anchored curve (pt_index (el ! i)) target (chained_prev_offset cs i 0) lims = Inr (cs ! i) \<and>
    is_i32 (chained_prev_offset cs i 0) \<and> 0 \<le> chained_prev_offset cs i 0"
  using i
proof (induction i)
  case 0
  note D = descent_plan_chain(2) [where curve = curve and target = target and start_mv = start_mv and lims = lims and max_steps = max_steps, folded cs_def el_def]
  have "plan_anchored curve (pt_index (el ! 0)) target 0 lims = Inr (cs ! 0)" "0 < length el"
    using D 0 by (auto simp: chained_def)
  then show ?case using plan_anchored_anchor [OF _ u] by (simp add: chained_prev_offset_def is_i32_def)
next
  case (Suc i)
  note D = descent_plan_chain(2) [where curve = curve and target = target and start_mv = start_mv and lims = lims and max_steps = max_steps, folded cs_def el_def]
  let ?prev = "chained_prev_offset cs (Suc i) 0"
  have pl: "plan_anchored curve (pt_index (el ! Suc i)) target ?prev lims = Inr (cs ! Suc i)"
    "Suc i < length el"
    using D Suc.prems chained_prev_ref [of "Suc i" cs] by (auto simp: chained_def)
  have prev: "?prev = po_offset_mhz (ap_anchor (cs ! i))"
    using Suc.prems by (simp add: chained_prev_offset_def)
  have IH: "plan_anchored curve (pt_index (el ! i)) target (chained_prev_offset cs i 0) lims = Inr (cs ! i)"
    "is_i32 (chained_prev_offset cs i 0)" "0 \<le> chained_prev_offset cs i 0"
    using Suc by simp_all
  have "0 < ?prev" "?prev \<le> int target" "target < 2147483648"
    using plan_anchored_anchor [OF IH(1) u IH(2,3)] prev by simp_all
  then have i32: "is_i32 ?prev" "0 \<le> ?prev" by (simp_all add: is_i32_def)
  then show ?case using pl plan_anchored_anchor [OF pl(1) u i32] by simp
qed

lemma plan_anchored_offset_cap:
  assumes "plan_anchored curve bin target prev lims = Inr plan" and "is_u32 target" "is_i32 prev" "0 \<le> prev"
  shows "po_offset_mhz (ap_anchor plan) \<le> abs_max_offset_mhz lims"
    "po_offset_mhz (ap_anchor plan) - prev \<le> step_max_offset_mhz lims"
  using plan_anchored_Inr [OF assms(1)] plan_bounded_iff [OF assms(2-4)] by fastforce+

lemma write_anchored_error:
  "write_anchored sp a es d = (Inl e, d') \<Longrightarrow>
   list_all (\<lambda>x. \<not> (ab_offset_mhz x > 0 \<and> ab_index x \<noteq> a)) es \<Longrightarrow> \<exists>j st. e = WriteStatus j st \<and> st \<noteq> 0"
  by (induction sp a es d arbitrary: e d' rule: write_anchored.induct) (auto split: prod.splits if_splits)

lemma anchored_entry_lifts:
  assumes "anchored_entry anchor target q = Inr x" and "ab_offset_mhz x > 0"
  shows "ab_index x = po_index anchor"
  using assms by (auto simp: anchored_cases split: prod.splits if_splits)

lemma apply_replans:
  assumes "plan_anchored curve bin target prev lims = Inr plan" and "is_u32 target" "is_i32 prev" "0 \<le> prev"
  shows "case fst (apply_anchored sp curve bin target prev lims d) of
      Inr plan' \<Rightarrow> plan' = plan | Inl e \<Rightarrow> \<exists>j st. e = WriteStatus j st \<and> st \<noteq> 0"
proof -
  note A = plan_anchored_anchor [OF assms]
  have "list_all (\<lambda>x. \<not> (ab_offset_mhz x > 0 \<and> ab_index x \<noteq> po_index (ap_anchor plan))) (ap_entries plan)"
    unfolding list_all_iff
    using list_all2_right [OF plan_anchored_Inr [OF assms(1), THEN conjunct2, THEN conjunct2]]
      anchored_entry_lifts by fastforce
  then show ?thesis
    using assms(1) A plan_anchored_offset_cap [OF assms]
      write_anchored_error [of sp "po_index (ap_anchor plan)" "ap_entries plan" d]
    by (auto simp: apply_anchored_def Let_def split: prod.splits sum.splits)
qed

text \<open>The anchor of a candidate is the bin it was planned for.\<close>

lemma descent_bin:
  fixes curve target start_mv lims max_steps
  defines "cs \<equiv> adp_candidates (plan_anchored_undervolt_descent curve target start_mv lims max_steps)"
    and "el \<equiv> eligible target start_mv (descending_bins curve)"
  assumes i: "i < length cs" and u: "is_u32 target" and d: "distinct (map pt_index curve)"
  shows "(po_index (ap_anchor (cs ! i)), po_voltage_mv (ap_anchor (cs ! i)), po_base_mhz (ap_anchor (cs ! i))) = el ! i"
proof -
  note C = descent_candidate [OF i [unfolded cs_def] u, folded cs_def el_def]
  have "el ! i \<in> set curve" using C eligible_subset [of target start_mv curve] nth_mem
    by (fastforce simp: el_def)
  moreover have "(pt_index (el ! i), po_voltage_mv (ap_anchor (cs ! i)), po_base_mhz (ap_anchor (cs ! i))) \<in> set curve"
    using C plan_anchored_anchor [OF _ u] by blast
  ultimately show ?thesis
    using C d by (metis eq_key_imp_eq_value prod.collapse)
qed

section \<open>Properties\<close>

text \<open>A planned descent is one the writer accepts. Given the planned candidate, its target and the
  chained reference offset, the writer plans exactly that candidate again; it never refuses it for a
  bound, and fails only on a status the driver returns.\<close>

lemma planned_descent_is_writable:
  assumes "i < length (adp_candidates (plan_anchored_undervolt_descent curve target start_mv lims max_steps))"
    and "cs = adp_candidates (plan_anchored_undervolt_descent curve target start_mv lims max_steps)"
    and "is_u32 target"
  shows "case fst (apply_anchored sp curve (po_index (ap_anchor (cs ! i))) target
        (chained_prev_offset cs i 0) lims d) of
      Inr plan \<Rightarrow> plan = cs ! i | Inl e \<Rightarrow> \<exists>j st. e = WriteStatus j st \<and> st \<noteq> 0"
proof -
  have "plan_anchored curve (po_index (ap_anchor (cs ! i))) target (chained_prev_offset cs i 0) lims = Inr (cs ! i)"
    "is_i32 (chained_prev_offset cs i 0)" "0 \<le> chained_prev_offset cs i 0"
    using descent_candidate [OF assms(1,3)] by (simp_all add: assms(2))
  then show ?thesis by (intro apply_replans assms(3))
qed

text \<open>The descent takes the bins below the target that the start voltage admits, one candidate each
  and from the highest voltage down, each at or above the floor and raised by at most the caps against
  its predecessor; it ends when the bins do, at the step budget, or at the first bin the planner refuses.\<close>

lemma descent_plan_exact:
  assumes "is_u32 target" and "distinct (map pt_index curve)"
    and "dp = plan_anchored_undervolt_descent curve target start_mv lims max_steps"
  shows "let cs = adp_candidates dp; el = eligible target start_mv (descending_bins curve)
    in length cs \<le> max_steps \<and>
      map (\<lambda>p. (po_index (ap_anchor p), po_voltage_mv (ap_anchor p), po_base_mhz (ap_anchor p))) cs =
        take (length cs) el \<and>
      sorted_wrt (\<lambda>p q. pt_mv q \<le> pt_mv p) el \<and>
      list_all (\<lambda>i. hw_floor_mv lims \<le> po_voltage_mv (ap_anchor (cs ! i)) \<and>
          po_offset_mhz (ap_anchor (cs ! i)) \<le> abs_max_offset_mhz lims \<and>
          po_offset_mhz (ap_anchor (cs ! i)) - chained_prev_offset cs i 0 \<le> step_max_offset_mhz lims)
        [0..<length cs] \<and>
      (case adp_stop_reason dp of
         None \<Rightarrow> length cs = length el
       | Some (StepBudget _) \<Rightarrow> length cs = max_steps
       | Some (PlanStopped e) \<Rightarrow> length cs < length el \<and>
           plan_anchored curve (pt_index (el ! length cs)) target (chained_prev_offset cs (length cs) 0) lims = Inl e)"
proof -
  define cs where "cs = adp_candidates dp"
  define el where "el = eligible target start_mv (descending_bins curve)"
  note D = descent_plan_chain [where curve = curve and target = target and start_mv = start_mv and lims = lims and max_steps = max_steps, folded assms(3) el_def cs_def]
  have C: "i < length el \<and> po_index (ap_anchor (cs ! i)) = pt_index (el ! i) \<and>
      plan_anchored curve (pt_index (el ! i)) target (chained_prev_offset cs i 0) lims = Inr (cs ! i) \<and>
      is_i32 (chained_prev_offset cs i 0) \<and> 0 \<le> chained_prev_offset cs i 0" if "i < length cs" for i
    using descent_candidate [OF _ assms(1), where i = i and curve = curve and start_mv = start_mv and lims = lims and max_steps = max_steps] that
    by (simp add: cs_def el_def assms(3))
  note bin = descent_bin [OF _ assms(1,2), where start_mv = start_mv and lims = lims and
      max_steps = max_steps, folded assms(3), folded cs_def el_def]
  have "map (\<lambda>p. (po_index (ap_anchor p), po_voltage_mv (ap_anchor p), po_base_mhz (ap_anchor p))) cs = take (length cs) el"
    using bin D(2) by (intro nth_equalityI) (simp_all add: chained_def)
  moreover have "list_all (\<lambda>i. hw_floor_mv lims \<le> po_voltage_mv (ap_anchor (cs ! i)) \<and>
          po_offset_mhz (ap_anchor (cs ! i)) \<le> abs_max_offset_mhz lims \<and>
          po_offset_mhz (ap_anchor (cs ! i)) - chained_prev_offset cs i 0 \<le> step_max_offset_mhz lims)
        [0..<length cs]"
    unfolding list_all_iff
    using C plan_anchored_anchor [OF _ assms(1)] plan_anchored_offset_cap [OF _ assms(1)] by fastforce
  ultimately show ?thesis
    using D descending_sorted [of target start_mv curve] chained_prev_ref [of "length cs" cs]
    unfolding Let_def cs_def [symmetric] el_def [symmetric] stops_def
    by (auto split: option.splits descent_stop.splits)
qed

text \<open>The manual prior anchors at the highest bin at or below the requested voltage that lies under
  the target. It reports that bin and the offset it needs even when the plan is refused, and it is within
  bounds exactly when the anchored planner accepts that bin.\<close>

lemma manual_prior_exact:
  assumes "distinct (map pt_index curve)"
    and "mp = plan_manual_prior_undervolt curve target requested lims"
  shows "case mp_selected_idx mp of
      None \<Rightarrow> eligible target (Some requested) curve = [] \<and> \<not> mp_within_bounds mp \<and>
        mp_note mp = Some NothingToAnchor
    | Some i \<Rightarrow>
        \<exists>mv base. (i, mv, base) \<in> set (eligible target (Some requested) curve) \<and>
          list_all (\<lambda>q. pt_mv q \<le> mv) (eligible target (Some requested) curve) \<and>
          mp_selected_mv mp = Some mv \<and> mp_base_mhz mp = Some base \<and>
          mp_required_offset_mhz mp = Some (i32_sub (as_i32 target) (as_i32 base)) \<and>
          (case plan_anchored curve i target 0 lims of
             Inr plan \<Rightarrow> mp_within_bounds mp \<and> pp_plan (mp_probe mp) = Some plan
           | Inl e \<Rightarrow> \<not> mp_within_bounds mp \<and> mp_note mp = Some (ProbeRefused e))"
proof -
  let ?el = "eligible target (Some requested) curve"
  have sel: "select_anchor_bin curve target (Some requested) = map_option pt_index (max_by_key pt_mv ?el)"
    by (simp add: select_anchor_bin_def eligible_def)
  show ?thesis
  proof (cases "max_by_key pt_mv ?el")
    case None
    then show ?thesis
      by (simp add: assms(2) plan_manual_prior_undervolt_def plan_anchored_undervolt_def sel)
  next
    case (Some q)
    obtain i mv base where q: "q = (i, mv, base)" by (cases q)
    have mem: "(i, mv, base) \<in> set ?el" "\<forall>x\<in>set ?el. pt_mv x \<le> mv"
      using max_by_key_SomeD [OF Some] q by auto
    then have "bin_at curve i = Some (i, mv, base)"
      using find_distinct [OF assms(1), of i mv base] by (simp add: bin_at_def eligible_def)
    then show ?thesis
      using mem Some q
      by (cases "plan_anchored curve i target 0 lims")
        (simp_all add: assms(2) plan_manual_prior_undervolt_def plan_anchored_undervolt_def sel list_all_iff Let_def)
  qed
qed

text \<open>What the confirmed gate admits, the dry run shows as safe.\<close>

lemma preflight_of_confirmed:
  "confirmed_f2_refusal r armed steps (Some cand) lims target = None \<Longrightarrow>
   pf_safe (undervolt_preflight r armed [f2_intent target cand])"
  by (auto simp: confirmed_f2_refusal_def undervolt_preflight_def candidate_blacklisted_def Let_def
      split: if_splits)

end
