(* ===== verification/F2Record.thy ===== *)
theory F2Record
  imports F2Plan F2Observation
begin

text \<open>
  The learning side of a confirmed run: \<open>crates/service/src/gpu_f2_sweep.rs\<close> turns the report of a step
  into an observation, records a whole sweep and bounds the descents of a ladder, and the confirmed target
  and ladder sweeps of \<open>crates/service/src/gpu_undervolt.rs\<close> put planner, motor and log together.
\<close>

section \<open>From a step to an observation\<close>

record obs_context =
  oc_run_id :: string
  oc_timestamp :: string
  oc_gpu_key :: "string option"
  oc_evidence_kind :: f2_evidence_kind
  oc_discovery_contract :: "u32 option"
  oc_qualification_contract :: "u32 option"
  oc_coverage :: "f2_coverage option"
  oc_mode :: f2_obs_mode
  oc_requested_start_mv :: "u32 option"
  oc_positive_offset_cap_mhz :: i32

definition map_verifier :: "positive_offset_verification option \<Rightarrow> f2_obs_verifier" where
  "map_verifier v =
     (case v of
        None \<Rightarrow> VerifyNotRun
      | Some x \<Rightarrow> (case x of RaiseVerified \<Rightarrow> ObsRaiseVerified | RaiseIncomplete \<Rightarrow> ObsRaiseIncomplete
                    | OverRaise \<Rightarrow> ObsOverRaise | RaiseUnverifiable \<Rightarrow> ObsUnverifiable))"

definition map_dwell :: "f2_dwell_outcome option \<Rightarrow> bool \<Rightarrow> f2_obs_dwell" where
  "map_dwell d inconclusive =
     (if inconclusive then DwPowerTelemetryInconclusive
      else case d of
        None \<Rightarrow> DwNotRun
      | Some x \<Rightarrow> (case x of DoStable \<Rightarrow> DwStable | DoSilentError \<Rightarrow> DwSilentError | DoUnstable \<Rightarrow> DwUnstable
                    | DoDeviceLost \<Rightarrow> DwDeviceLost | DoClockDrop \<Rightarrow> DwClockDrop
                    | DoInconclusive \<Rightarrow> DwQualificationInconclusive))"

definition map_outcome :: "'e f2_outcome \<Rightarrow> bool \<Rightarrow> f2_obs_outcome" where
  "map_outcome oc inconclusive =
     (if inconclusive then ObPowerTelemetryInconclusive
      else case oc of
        OcValidated \<Rightarrow> ObValidated | OcVerifyFailed \<Rightarrow> ObVerifierFailed | OcSilentError \<Rightarrow> ObSilentError
      | OcUnstable \<Rightarrow> ObUnstable | OcDeviceLost \<Rightarrow> ObDeviceLost
      | OcPowerBoundClockDrop \<Rightarrow> ObPowerBoundClockDrop | OcClockDrop \<Rightarrow> ObClockDrop
      | OcInconclusive \<Rightarrow> ObQualificationInconclusive | OcResetFailed \<Rightarrow> ObResetFailed
      | OcArmFailed _ \<Rightarrow> ObAbortedBySafetyGate | OcApplyFailed _ \<Rightarrow> ObAbortedBySafetyGate)"

text \<open>The confidence of one validation, a power of a double, is the argument \<open>conf\<close>.\<close>

definition observation_from_anchored_step ::
  "(usize \<Rightarrow> f64) \<Rightarrow> obs_context \<Rightarrow> u32 \<Rightarrow> anchored_plan \<Rightarrow> 'e f2_step_report \<Rightarrow> f2_observation" where
  "observation_from_anchored_step conf ctx target plan r =
     (let inconclusive = (oc_evidence_kind ctx = Discovery \<and> sr_outcome r = OcInconclusive);
          outcome = map_outcome (sr_outcome r) inconclusive
      in \<lparr>fo_run_id = oc_run_id ctx, fo_timestamp = oc_timestamp ctx, fo_gpu_key = oc_gpu_key ctx,
          fo_evidence_kind = oc_evidence_kind ctx, fo_discovery_contract = oc_discovery_contract ctx,
          fo_qualification_contract = oc_qualification_contract ctx,
          fo_coverage = (if sr_coverage r \<noteq> None then sr_coverage r else oc_coverage ctx),
          fo_provenance = sr_provenance r, fo_mode = oc_mode ctx, fo_target_mhz = target,
          fo_requested_start_mv = oc_requested_start_mv ctx, fo_anchor_mv = po_voltage_mv (ap_anchor plan),
          fo_base_mhz = po_base_mhz (ap_anchor plan), fo_offset_mhz = po_offset_mhz (ap_anchor plan),
          fo_positive_offset_cap_mhz = oc_positive_offset_cap_mhz ctx,
          fo_higher_bins_capped = ap_capped_above_bins plan,
          fo_max_flatten_mhz = ap_max_negative_flatten_mhz plan,
          fo_lower_bins_elastic = ap_elastic_below_bins plan,
          fo_verifier_result = map_verifier (sr_verify r),
          fo_dwell_result = map_dwell (sr_dwell r) inconclusive, fo_avg_clock_mhz = sr_avg_clock_mhz r,
          fo_sustained_clock_mhz = sr_p5_clock_mhz r, fo_sustained_upper_clock_mhz = sr_p95_clock_mhz r,
          fo_watts = sr_power_w r, fo_max_watts = sr_max_power_w r, fo_power_p99_w = sr_power_p99_w r,
          fo_power_p99_confirmed = sr_power_p99_confirmed r,
          fo_power_p99_attempts = sr_power_p99_attempts r,
          fo_measured_voltage_min_mv = sr_voltage_min_mv r,
          fo_measured_voltage_avg_mv = sr_voltage_avg_mv r,
          fo_measured_voltage_max_mv = sr_voltage_max_mv r,
          fo_measured_voltage_sample_count = sr_voltage_sample_count r,
          fo_render_frames = sr_render_frames r, fo_render_fps = sr_render_fps r,
          fo_power_capped_frac = sr_power_capped_frac r, fo_max_temp_c = sr_max_temp_c r,
          fo_thermal_throttled = sr_thermal_throttled r, fo_dwell_duration_ms = sr_dwell_duration_ms r,
          fo_sample_count = sr_sample_count r, fo_silent_error = (sr_dwell r = Some DoSilentError),
          fo_device_lost = (sr_outcome r = OcDeviceLost), fo_unstable = (sr_outcome r = OcUnstable),
          fo_clock_drop = (sr_outcome r = OcClockDrop), fo_tdr_or_crash = (sr_outcome r = OcDeviceLost),
          fo_reset_attempted = (sr_reset_ok r \<noteq> None), fo_reset_ok = (sr_reset_ok r = Some True),
          fo_boot_flag_cleared = sr_boot_flag_cleared r, fo_blacklisted = sr_blacklisted r,
          fo_outcome = outcome,
          fo_confidence = (if is_validated outcome then Some (conf 1) else None), fo_notes = None\<rparr>)"

section \<open>Recording a sweep\<close>

record sweep_summary =
  ss_target_mhz :: u32
  ss_executed :: nat
  ss_recorded :: nat
  ss_last_good_mv :: "u32 option"
  ss_first_bad_mv :: "u32 option"
  ss_bracket :: "voltage_bracket option"
  ss_stop_reason :: f2_stop_reason
  ss_frontier_updated :: bool
  ss_safe :: bool

text \<open>Steps beyond the candidates are passed over, as the zip does.\<close>

fun record_steps ::
  "(f2_observation \<Rightarrow> disk \<Rightarrow> (io_error, unit) result \<times> disk) \<Rightarrow> f2_observation list \<Rightarrow> nat \<Rightarrow> bool \<Rightarrow> disk \<Rightarrow>
   nat \<times> bool \<times> disk" where
  "record_steps add [] recorded failed d = (recorded, failed, d)"
| "record_steps add (ob # obs) recorded failed d =
     (let failed' = (failed \<or> is_safety_failure (fo_outcome ob))
      in case add ob d of
           (Inr _, d') \<Rightarrow> record_steps add obs (recorded + 1) failed' d'
         | (Inl _, d') \<Rightarrow> record_steps add obs recorded failed' d')"

definition step_observations ::
  "(usize \<Rightarrow> f64) \<Rightarrow> obs_context \<Rightarrow> u32 \<Rightarrow> anchored_plan list \<Rightarrow> 'e f2_step_report list \<Rightarrow> f2_observation list" where
  "step_observations conf ctx target candidates steps =
     map (\<lambda>(cand, r). observation_from_anchored_step conf ctx target cand r) (zip candidates steps)"

definition record_target_sweep ::
  "f2_observation codec \<Rightarrow> (usize \<Rightarrow> f64) \<Rightarrow> obs_context \<Rightarrow> u32 \<Rightarrow> anchored_descent_plan \<Rightarrow>
   'e f2_multi_report \<Rightarrow> disk \<Rightarrow> sweep_summary \<times> disk" where
  "record_target_sweep c conf ctx target descent report d =
     (case record_steps (append_observation c)
             (step_observations conf ctx target (adp_candidates descent) (mr_steps report)) 0 False d of
        (recorded, failed, d') \<Rightarrow>
          (let all = query_by_target c d' target;
               last_good = map_option fo_anchor_mv (last_good_for_target all target)
           in (\<lparr>ss_target_mhz = target, ss_executed = mr_executed report, ss_recorded = recorded,
                ss_last_good_mv = last_good,
                ss_first_bad_mv = map_option fo_anchor_mv (first_bad_for_target all target),
                ss_bracket = bracket_for_target all target, ss_stop_reason = mr_stop_reason report,
                ss_frontier_updated = (last_good \<noteq> None), ss_safe = (\<not> failed)\<rparr>, d')))"

section \<open>The bounds of a ladder\<close>

definition ladder_target_floor :: "u32 \<Rightarrow> u32 option \<Rightarrow> u32" where
  "ladder_target_floor base_floor prev_last_good =
     (case prev_last_good of Some p \<Rightarrow> max base_floor p | None \<Rightarrow> base_floor)"

definition ladder_target_descent_bounds ::
  "u32 \<Rightarrow> u32 option \<Rightarrow> u32 \<Rightarrow> u32 option \<Rightarrow> u32 option \<Rightarrow> u32 option \<times> u32" where
  "ladder_target_descent_bounds base_floor prior target prev_target global_start =
     (if is_some_and prev_target (\<lambda>prev. target < prev)
      then (if prior \<noteq> None then prior else global_start, base_floor)
      else (global_start, ladder_target_floor base_floor prior))"

definition ladder_should_continue :: "bool \<Rightarrow> bool" where
  "ladder_should_continue current_target_safe = current_target_safe"

record ladder_plan =
  lp_target_mhz :: u32
  lp_conservative_floor_mv :: u32
  lp_prior_last_good_mv :: "u32 option"
  lp_candidate_count :: nat
  lp_anchor_hi_mv :: "u32 option"
  lp_anchor_lo_mv :: "u32 option"
  lp_descent_stop :: "descent_stop option"

definition first_of :: "'a list \<Rightarrow> 'a option" where
  "first_of xs = (if xs = [] then None else Some (hd xs))"

definition last_of :: "'a list \<Rightarrow> 'a option" where
  "last_of xs = (if xs = [] then None else Some (last xs))"

definition ladder_target_plan ::
  "u32 \<Rightarrow> u32 \<Rightarrow> u32 option \<Rightarrow> anchored_descent_plan \<Rightarrow> ladder_plan" where
  "ladder_target_plan target floor_mv prior descent =
     \<lparr>lp_target_mhz = target, lp_conservative_floor_mv = floor_mv, lp_prior_last_good_mv = prior,
      lp_candidate_count = length (adp_candidates descent),
      lp_anchor_hi_mv = map_option (\<lambda>c. po_voltage_mv (ap_anchor c)) (first_of (adp_candidates descent)),
      lp_anchor_lo_mv = map_option (\<lambda>c. po_voltage_mv (ap_anchor c)) (last_of (adp_candidates descent)),
      lp_descent_stop = adp_stop_reason descent\<rparr>"

section \<open>The confirmed sweeps\<close>

text \<open>
  What a confirmed run takes from outside: the driver, the workload, the codecs, the name of the card, the
  confidence, the build, and the texts of the clock and of the run ids.
\<close>

record ('x, 'g) f2_env =
  en_vendor :: "'g vendor"
  en_settle :: "'g \<Rightarrow> 'g"
  en_polls :: nat
  en_workload :: "('x, 'g) workload"
  en_codecs :: codecs
  en_observations :: "f2_observation codec"
  en_now :: string
  en_run_id :: "string \<Rightarrow> string"
  en_gpu :: "string option"
  en_confidence :: "usize \<Rightarrow> f64"
  en_build :: f2_provenance

definition f2_standard_dwell_ms :: u64 where "f2_standard_dwell_ms = 15000"
definition f2_max_validation_passes :: nat where "f2_max_validation_passes = 20"
definition f2_sweep_budget :: nat where "f2_sweep_budget = u64_max"

text \<open>The cursor before the first selection: only its dwell time and purpose are ever read.\<close>

definition fresh_cursor :: "vf_curve \<Rightarrow> positive_offset_limits \<Rightarrow> u32 \<Rightarrow> 'x real_f2" where
  "fresh_cursor curve lims target =
     \<lparr>rf_curve = curve,
      rf_candidate = \<lparr>po_index = 0, po_voltage_mv = 0, po_base_mhz = 0, po_offset_mhz = 0,
        po_prev_offset_mhz = 0, po_step_delta_mhz = 0, po_effective_mhz = 0\<rparr>,
      rf_anchored = None, rf_mode = Anchored, rf_limits = lims, rf_target_mhz = target,
      rf_prev_offset_mhz = 0, rf_dwell_ms = f2_standard_dwell_ms, rf_purpose = PowerDiscovery\<rparr>"

definition descent_cfg ::
  "vf_curve \<Rightarrow> anchored_plan list \<Rightarrow> positive_offset_limits \<Rightarrow> u32 \<Rightarrow> i32 \<Rightarrow> f2_descent_cfg" where
  "descent_cfg curve candidates lims target baseline =
     \<lparr>fd_curve = curve, fd_candidates = candidates, fd_limits = lims, fd_target_mhz = target,
      fd_baseline_offset_mhz = baseline, fd_prev_offset_override = None\<rparr>"

definition env_ops ::
  "('x, 'g) f2_env \<Rightarrow> f2_descent_cfg \<Rightarrow> ('x real_f2 \<times> 'g machine, f2_op_error) f2_multi_ops" where
  "env_ops env cfg =
     real_multi_ops (en_vendor env) (en_settle env) (en_polls env) (en_workload env) (en_codecs env)
       (en_now env) cfg"

definition run_descent ::
  "('x, 'g) f2_env \<Rightarrow> f2_descent_cfg \<Rightarrow> 'g machine \<Rightarrow> f2_op_error f2_multi_report \<times> 'g machine" where
  "run_descent env cfg m =
     (case run_confirmed_f2_multi_step (en_build env) (env_ops env cfg) (length (fd_candidates cfg))
             (fresh_cursor (fd_curve cfg) (fd_limits cfg) (fd_target_mhz cfg), m) of
        (report, s) \<Rightarrow> (report, snd s))"

definition discovery_context ::
  "('x, 'g) f2_env \<Rightarrow> string \<Rightarrow> f2_obs_mode \<Rightarrow> u32 option \<Rightarrow> positive_offset_limits \<Rightarrow> obs_context" where
  "discovery_context env run mode start_mv lims =
     \<lparr>oc_run_id = run, oc_timestamp = en_now env, oc_gpu_key = en_gpu env, oc_evidence_kind = Discovery,
      oc_discovery_contract = Some f2_discovery_contract_version, oc_qualification_contract = None,
      oc_coverage = None, oc_mode = mode, oc_requested_start_mv = start_mv,
      oc_positive_offset_cap_mhz = abs_max_offset_mhz lims\<rparr>"

definition record_on ::
  "('x, 'g) f2_env \<Rightarrow> obs_context \<Rightarrow> u32 \<Rightarrow> anchored_descent_plan \<Rightarrow> f2_op_error f2_multi_report \<Rightarrow>
   'g machine \<Rightarrow> sweep_summary \<times> 'g machine" where
  "record_on env ctx target descent report m =
     (case record_target_sweep (en_observations env) (en_confidence env) ctx target descent report (mc_disk m) of
        (summary, d) \<Rightarrow> (summary, m\<lparr>mc_disk := d\<rparr>))"

text \<open>The further validations of the deepest point, each recorded as a sweep of one step.\<close>

fun record_extra ::
  "('x, 'g) f2_env \<Rightarrow> obs_context \<Rightarrow> u32 \<Rightarrow> anchored_descent_plan \<Rightarrow> f2_op_error f2_step_report list \<Rightarrow>
   'g machine \<Rightarrow> 'g machine" where
  "record_extra env ctx target single [] m = m"
| "record_extra env ctx target single (step # steps) m =
     record_extra env ctx target single steps
       (snd (record_on env ctx target single
          \<lparr>mr_planned = 1, mr_executed = 1, mr_steps = [step],
           mr_last_good_index = (if sr_outcome step = OcValidated then Some 0 else None),
           mr_stop_reason = CompletedAllPlanned\<rparr> m))"

definition revalidate_deepest ::
  "('x, 'g) f2_env \<Rightarrow> vf_curve \<Rightarrow> positive_offset_limits \<Rightarrow> u32 \<Rightarrow> u32 option \<Rightarrow> nat \<Rightarrow> i32 \<Rightarrow>
   anchored_descent_plan \<Rightarrow> nat \<Rightarrow> 'g machine \<Rightarrow> 'g machine" where
  "revalidate_deepest env curve lims target start_mv passes baseline descent i m =
     (let cs = adp_candidates descent; deepest = cs ! i;
          cfg = descent_cfg curve [deepest] lims target (chained_prev_offset cs i baseline);
          single = \<lparr>adp_focus_target_mhz = target, adp_start_mv = adp_start_mv descent, adp_max_steps = 1,
                    adp_candidates = [deepest], adp_stop_reason = None, adp_skipped_above_target = 0\<rparr>
      in case run_confirmed_f2_extra_validations (en_build env) (env_ops env cfg) 0 passes
                (fresh_cursor curve lims target, m) of
           (reports, s) \<Rightarrow>
             record_extra env
               (discovery_context env (en_run_id env ''f2-target-sweep-reval'') TargetSweep start_mv lims)
               target single reports (snd s))"

datatype sweep_refusal = PassesOverCap nat | SweepRefused refusal

definition confirmed_target_sweep ::
  "('x, 'g) f2_env \<Rightarrow> vf_curve \<Rightarrow> positive_offset_limits \<Rightarrow> u32 \<Rightarrow> u32 option \<Rightarrow> nat \<Rightarrow> 'g machine \<Rightarrow>
   (sweep_refusal, sweep_summary) result \<times> 'g machine" where
  "confirmed_target_sweep env curve lims target start_mv validation_passes m =
     (let descent = plan_anchored_undervolt_descent curve target start_mv lims f2_sweep_budget;
          cs = adp_candidates descent;
          baseline = (case validated_descent_baseline (query_by_target (en_observations env) (mc_disk m) target)
                             target (en_gpu env) of
                        Some ob \<Rightarrow> fo_offset_mhz ob | None \<Rightarrow> 0)
      in if validation_passes > f2_max_validation_passes then (Inl (PassesOverCap validation_passes), m)
         else case confirmed_f2_multi_refusal (load_record (cx_record (en_codecs env)) (mc_disk m))
                     (is_boot_flag_armed (mc_disk m)) (Some (length cs)) (length cs) (length cs) of
           Some e \<Rightarrow> (Inl (SweepRefused e), m)
         | None \<Rightarrow>
             (case run_descent env (descent_cfg curve cs lims target baseline) m of
                (report, m1) \<Rightarrow>
                  (case record_on env
                          (discovery_context env (en_run_id env ''f2-target-sweep'') TargetSweep start_mv lims)
                          target descent report m1 of
                     (summary, m2) \<Rightarrow>
                       (Inr summary,
                        if validation_passes - 1 > 0
                        then (case mr_last_good_index report of
                                Some i \<Rightarrow>
                                  if i < length cs
                                  then revalidate_deepest env curve lims target start_mv (validation_passes - 1)
                                         baseline descent i m2
                                  else m2
                              | None \<Rightarrow> m2)
                        else m2))))"

datatype ladder_stop = LadderDone | LadderRefused u32 refusal | LadderUnsafe u32

text \<open>One target after the other; \<open>prev\<close> is the previous target, \<open>prev_good\<close> what its sweep found.\<close>

fun confirmed_ladder ::
  "('x, 'g) f2_env \<Rightarrow> vf_curve \<Rightarrow> positive_offset_limits \<Rightarrow> u32 option \<Rightarrow> u32 option \<Rightarrow> u32 option \<Rightarrow>
   u32 list \<Rightarrow> 'g machine \<Rightarrow> (sweep_summary list \<times> ladder_stop) \<times> 'g machine" where
  "confirmed_ladder env curve lims start_mv prev prev_good [] m = (([], LadderDone), m)"
| "confirmed_ladder env curve lims start_mv prev prev_good (target # targets) m =
     (let prior = (if prev_good \<noteq> None then prev_good
                   else case prev of
                     None \<Rightarrow> None
                   | Some p \<Rightarrow> map_option fo_anchor_mv
                       (last_good_for_target (query_by_target (en_observations env) (mc_disk m) p) p));
          bounds = ladder_target_descent_bounds (hw_floor_mv lims) prior target prev start_mv;
          target_limits = lims\<lparr>hw_floor_mv := snd bounds\<rparr>;
          descent = plan_anchored_undervolt_descent curve target (fst bounds) target_limits f2_sweep_budget;
          cs = adp_candidates descent
      in case confirmed_f2_multi_refusal (load_record (cx_record (en_codecs env)) (mc_disk m))
                (is_boot_flag_armed (mc_disk m)) (Some (length cs)) (length cs) (length cs) of
           Some e \<Rightarrow> (([], LadderRefused target e), m)
         | None \<Rightarrow>
             (case run_descent env (descent_cfg curve cs target_limits target 0) m of
                (report, m1) \<Rightarrow>
                  (case record_on env
                          (discovery_context env (en_run_id env ''f2-ladder'') LadderSweep start_mv target_limits)
                          target descent report m1 of
                     (summary, m2) \<Rightarrow>
                       if \<not> ladder_should_continue (ss_safe summary)
                       then (([summary], LadderUnsafe target), m2)
                       else (case confirmed_ladder env curve lims start_mv (Some target)
                                    (ss_last_good_mv summary) targets m2 of
                               ((summaries, stop), m3) \<Rightarrow> ((summary # summaries, stop), m3)))))"

section \<open>Invariants of the motor\<close>

text \<open>What every operation of the motor keeps, a step and a descent keep.\<close>

locale f2_invariant =
  fixes ops :: "('s, 'e, 'm) f2_multi_ops_scheme" and inv :: "'s \<Rightarrow> bool"
  assumes arm_inv: "inv s \<Longrightarrow> inv (snd (op_arm ops s))"
    and apply_inv: "inv s \<Longrightarrow> inv (snd (op_apply ops s))"
    and verify_inv: "inv s \<Longrightarrow> inv (snd (op_verify ops s))"
    and dwell_inv: "inv s \<Longrightarrow> inv (snd (op_dwell ops s))"
    and reset_inv: "inv s \<Longrightarrow> inv (snd (op_reset ops s))"
    and clear_inv: "inv s \<Longrightarrow> inv (snd (op_clear ops s))"
    and blacklist_inv: "inv s \<Longrightarrow> inv (snd (op_blacklist ops b s))"
    and select_inv: "inv s \<Longrightarrow> inv (snd (mo_select ops i s))"
begin

lemma inv_dests:
  "op_arm ops s = (a, s') \<Longrightarrow> inv s \<Longrightarrow> inv s'" "op_apply ops s = (a, s') \<Longrightarrow> inv s \<Longrightarrow> inv s'"
  "op_verify ops s = (v, s') \<Longrightarrow> inv s \<Longrightarrow> inv s'" "op_dwell ops s = (d, s') \<Longrightarrow> inv s \<Longrightarrow> inv s'"
  "op_reset ops s = (a, s') \<Longrightarrow> inv s \<Longrightarrow> inv s'" "op_clear ops s = (a, s') \<Longrightarrow> inv s \<Longrightarrow> inv s'"
  "op_blacklist ops b s = (a, s') \<Longrightarrow> inv s \<Longrightarrow> inv s'" "mo_select ops i s = (a, s') \<Longrightarrow> inv s \<Longrightarrow> inv s'"
  using arm_inv [of s] apply_inv [of s] verify_inv [of s] dwell_inv [of s] reset_inv [of s] clear_inv [of s]
    blacklist_inv [of s b] select_inv [of s i] by simp_all

lemma finish_inv: "finish_after_write ops r listed s = (r', s') \<Longrightarrow> inv s \<Longrightarrow> inv s'"
  by (auto simp: finish_after_write_def Let_def dest: inv_dests split: prod.splits sum.splits if_splits)

lemma lost_inv: "finish_device_lost ops r s = (r', s') \<Longrightarrow> inv s \<Longrightarrow> inv s'"
  by (auto simp: finish_device_lost_def dest: inv_dests split: prod.splits)

lemma step_inv: "run_confirmed_f2_step build ops s = (r, s') \<Longrightarrow> inv s \<Longrightarrow> inv s'"
  by (auto simp: run_confirmed_f2_step_def Let_def dest!: finish_inv lost_inv dest: inv_dests
      split: prod.splits sum.splits if_splits f2_dwell_outcome.splits)

lemma loop_inv: "multi_loop build ops is stop steps lst s = (out, s') \<Longrightarrow> inv s \<Longrightarrow> inv s'"
proof (induction "is" arbitrary: steps lst s)
  case (Cons i "is")
  then show ?case
    by (auto dest: step_inv inv_dests split: prod.splits sum.splits option.splits)
qed simp

lemma extra_inv: "run_confirmed_f2_extra_validations build ops deepest n s = (rs, s') \<Longrightarrow> inv s \<Longrightarrow> inv s'"
proof (induction n arbitrary: s rs)
  case (Suc n)
  then show ?case
    by (auto dest: step_inv inv_dests split: prod.splits sum.splits if_splits)
qed simp

end

section \<open>The log under the motor\<close>

text \<open>The motor writes the boot flag and the record, never the log.\<close>

definition same_log :: "disk \<Rightarrow> disk \<Rightarrow> bool" where
  "same_log d d' \<longleftrightarrow> files d' observations_file = files d observations_file \<and>
     unreadable d' = unreadable d \<and> refused d' = refused d \<and> dir_refused d' = dir_refused d"

lemma same_log_ready: "same_log d d' \<Longrightarrow> observations_ready c d' = observations_ready c d"
  by (simp add: same_log_def observations_ready_def log_intact_def)

lemma log_file_names: "observations_file \<noteq> boot_flag_file" "observations_file \<noteq> record_file"
  by (simp_all add: observations_file_def boot_flag_file_def record_file_def)

lemma same_log_store:
  "same_log d (snd (arm_boot_flag fc f d))" "same_log d (snd (clear_boot_flag d))"
  "same_log d (snd (save_record rc r d))"
  by (auto simp: same_log_def log_file_names store_defs fs_defs split: option.splits)

lemma same_log_real:
  "same_log (mc_disk m) (mc_disk (snd (real_arm cx now rf m)))"
  "same_log (mc_disk m) (mc_disk (snd (real_clear m)))"
  "same_log (mc_disk m) (mc_disk (snd (real_blacklist cx rf crash m)))"
  using same_log_store by (simp_all add: real_arm_def real_clear_def real_blacklist_def Let_def)

lemma same_log_refl [simp]: "same_log d d"
  by (simp add: same_log_def)

lemma same_log_trans: "same_log d e \<Longrightarrow> same_log e f \<Longrightarrow> same_log d f"
  by (simp add: same_log_def)

lemma same_log_load: "same_log d d' \<Longrightarrow> load_observations c d' = load_observations c d"
  by (auto simp: same_log_def load_observations_def load_lines_def fs_read_def split: option.splits)

interpretation log_kept: f2_invariant "real_multi_ops v settle polls workload cx now cfg"
  "\<lambda>s. same_log d (mc_disk (snd s))"
  for v settle polls workload cx now cfg d
  by unfold_locales
    (auto simp: real_multi_ops_def real_select_ok intro: same_log_trans [OF _ same_log_real(1)]
      same_log_trans [OF _ same_log_real(2)] same_log_trans [OF _ same_log_real(3)])

section \<open>What the reports of a descent say\<close>

lemma finish_report:
  assumes "finish_after_write ops r listed s = (r', s')" and "\<not> sr_boot_flag_cleared r"
    and "sr_outcome r \<notin> {OcDeviceLost, OcResetFailed}"
  shows "(sr_boot_flag_cleared r' \<longrightarrow> sr_reset_ok r' = Some True) \<and>
    (sr_boot_flag_cleared r' \<longleftrightarrow> sr_outcome r' \<noteq> OcResetFailed) \<and> sr_outcome r' \<noteq> OcDeviceLost \<and>
    sr_armed r' = sr_armed r"
  using assms by (auto simp: finish_after_write_def Let_def split: prod.splits sum.splits if_splits)

lemma step_report:
  fixes ops :: "('s, 'e, 'm) f2_ops_scheme"
  assumes "run_confirmed_f2_step build ops s = (r, s')"
  shows "(sr_boot_flag_cleared r \<longrightarrow> sr_reset_ok r = Some True) \<and>
    (sr_armed r \<and> \<not> sr_boot_flag_cleared r \<longleftrightarrow> sr_outcome r \<in> {OcDeviceLost, OcResetFailed})"
proof -
  obtain a s1 where a: "op_arm ops s = (a, s1)" by (cases "op_arm ops s")
  show ?thesis
  proof (cases a)
    case (Inl e)
    with assms a show ?thesis
      by (auto simp: run_confirmed_f2_step_def empty_f2_step_report_def Let_def split: prod.splits)
  next
    case (Inr u)
    obtain ap s2 where ap: "op_apply ops s1 = (ap, s2)" by (cases "op_apply ops s1")
    obtain v s3 where v: "op_verify ops s2 = (v, s3)" by (cases "op_verify ops s2")
    obtain d s4 where d: "op_dwell ops s3 = (d, s4)" by (cases "op_dwell ops s3")
    have low: "\<not> sr_boot_flag_cleared (empty_f2_step_report build)" by (simp add: empty_f2_step_report_def)
    note fin = finish_report [of ops _ _ _ r s']
    consider e where "ap = Inl e" | "ap = Inr ()" "v \<noteq> RaiseVerified" | "ap = Inr ()" "v = RaiseVerified"
      by (cases ap) auto
    then show ?thesis
    proof cases
      case 1
      then show ?thesis using assms a ap Inr low fin
        by (fastforce simp: run_confirmed_f2_step_def Let_def)
    next
      case 2
      then show ?thesis using assms a ap v Inr low fin
        by (fastforce simp: run_confirmed_f2_step_def Let_def)
    next
      case 3
      have nl: "dr_outcome d \<noteq> DoDeviceLost \<Longrightarrow>
          outcome_of_dwell (dr_outcome d) \<notin> {OcDeviceLost, OcResetFailed :: 'e f2_outcome}"
        by (simp add: outcome_of_dwell_def split: f2_dwell_outcome.split)
      let ?r = "populate_f2_dwell_report (empty_f2_step_report build\<lparr>sr_armed := True, sr_applied := True,
                   sr_verify := Some RaiseVerified\<rparr>) d :: 'e f2_step_report"
      have pop: "\<not> sr_boot_flag_cleared ?r" "sr_armed ?r" "sr_outcome ?r = outcome_of_dwell (dr_outcome d)"
        by (simp_all add: populate_f2_dwell_report_def low)
      show ?thesis
      proof (cases "dr_outcome d = DoDeviceLost")
        case True
        then have "finish_device_lost ops ?r s4 = (r, s')"
          using assms a ap v d Inr 3 by (simp add: run_confirmed_f2_step_def Let_def)
        then show ?thesis using pop by (auto simp: finish_device_lost_def split: prod.splits)
      next
        case False
        then obtain listed where "finish_after_write ops ?r listed s4 = (r, s')"
          using assms a ap v d Inr 3 by (cases "dr_outcome d") (auto simp: run_confirmed_f2_step_def Let_def)
        then show ?thesis using finish_report [of ops ?r listed s4 r s'] pop nl [OF False] by auto
      qed
    qed
  qed
qed

lemma loop_steps:
  "multi_loop build ops is stop steps lst s = ((steps', lst', reason), s') \<Longrightarrow>
   r \<in> set steps' \<Longrightarrow> r \<notin> set steps \<Longrightarrow> \<exists>s s'. run_confirmed_f2_step build ops s = (r, s')"
proof (induction "is" arbitrary: steps lst s)
  case (Cons i "is")
  obtain sel s1 where sel: "mo_select ops i s = (sel, s1)" by (cases "mo_select ops i s")
  obtain q s2 where q: "run_confirmed_f2_step build ops s1 = (q, s2)"
    by (cases "run_confirmed_f2_step build ops s1")
  show ?case
    using Cons.prems Cons.IH [of "steps @ [q]" _ s2] sel q
    by (cases "r = q") (auto split: sum.splits option.splits)
qed auto

lemma run_descent_facts:
  assumes "run_descent env cfg m = (report, m')"
  shows "length (mr_steps report) \<le> length (fd_candidates cfg)" "mr_executed report = length (mr_steps report)"
    "validated_prefix (mr_steps report)" "same_log (mc_disk m) (mc_disk m')"
    "\<And>r. r \<in> set (mr_steps report) \<Longrightarrow> \<exists>s s'. run_confirmed_f2_step (en_build env) (env_ops env cfg) s = (r, s')"
    "\<not> flag_up m \<Longrightarrow> flag_up m' \<longleftrightarrow>
       mr_steps report \<noteq> [] \<and> sr_outcome (last (mr_steps report)) \<in> {OcDeviceLost, OcResetFailed}"
proof -
  let ?s = "(fresh_cursor (fd_curve cfg) (fd_limits cfg) (fd_target_mhz cfg), m)"
  let ?n = "min (mo_count (env_ops env cfg) ?s) (length (fd_candidates cfg))"
  let ?stop = "if ?n = 0 then NoMoreCandidates else CompletedAllPlanned"
  obtain steps lst reason s' where l: "multi_loop (en_build env) (env_ops env cfg) [0..<?n] ?stop [] None ?s =
      ((steps, lst, reason), s')"
    by (metis surj_pair)
  then have out: "mr_steps report = steps" "mr_executed report = length steps" "snd s' = m'"
    using assms(1) by (auto simp: run_descent_def run_confirmed_f2_multi_step_def Let_def split: prod.splits)
  from multi_loop_shape [OF l] have sh: "length steps \<le> ?n" "validated_prefix steps" by auto
  show "length (mr_steps report) \<le> length (fd_candidates cfg)" "mr_executed report = length (mr_steps report)"
    "validated_prefix (mr_steps report)" using sh out by simp_all
  show "same_log (mc_disk m) (mc_disk m')"
    using log_kept.loop_inv [OF l [unfolded env_ops_def], of "mc_disk m"] out by simp
  show step: "\<exists>s s'. run_confirmed_f2_step (en_build env) (env_ops env cfg) s = (r, s')"
    if "r \<in> set (mr_steps report)" for r using loop_steps [OF l] that out by auto
  show "flag_up m' \<longleftrightarrow>
       mr_steps report \<noteq> [] \<and> sr_outcome (last (mr_steps report)) \<in> {OcDeviceLost, OcResetFailed}" if "\<not> flag_up m"
  proof -
    have "flag_up m' \<longleftrightarrow> steps \<noteq> [] \<and> sr_armed (last steps) \<and> \<not> sr_boot_flag_cleared (last steps)"
      using cursor.descent_flag [OF l [unfolded env_ops_def]] that out by simp
    moreover have "steps \<noteq> [] \<Longrightarrow> sr_armed (last steps) \<and> \<not> sr_boot_flag_cleared (last steps) \<longleftrightarrow>
        sr_outcome (last steps) \<in> {OcDeviceLost, OcResetFailed}"
      using step [of "last steps"] step_report out(1) last_in_set by metis
    ultimately show ?thesis using out(1) by auto
  qed
qed

text \<open>Recording: what was recorded is in the log, in order, and the flag of failure is exact.\<close>

lemma record_steps_log:
  "record_steps (append_observation c) obs n failed d = (n', failed', d') \<Longrightarrow> observations_ready c d \<Longrightarrow>
   observations_ready c d' \<and> n \<le> n' \<and> n' \<le> n + length obs \<and>
   (failed' \<longleftrightarrow> failed \<or> (\<exists>ob\<in>set obs. is_safety_failure (fo_outcome ob))) \<and>
   (\<exists>new. load_observations c d' = load_observations c d @ new \<and> subseq new obs \<and> length new = n' - n) \<and>
   is_boot_flag_armed d' = is_boot_flag_armed d"
proof (induction obs arbitrary: n failed d)
  case (Cons ob obs)
  obtain r d1 where ad: "append_observation c ob d = (r, d1)" by (cases "append_observation c ob d")
  have ready: "observations_ready c d1" using obs_log.add_intact [OF Cons.prems(2), of ob] ad by simp
  have flag: "is_boot_flag_armed d1 = is_boot_flag_armed d"
    using ad log_file_names by (auto simp: append_observation_def append_line_def fs_append_def
        is_boot_flag_armed_def fs_defs split: option.splits if_splits)
  show ?case
  proof (cases r)
    case (Inl e)
    then have d1: "d1 = d" using obs_log.add_err [of c ob d e] ad by simp
    have rs: "record_steps (append_observation c) obs n (failed \<or> is_safety_failure (fo_outcome ob)) d =
        (n', failed', d')" using Cons.prems(1) ad Inl d1 by (simp add: Let_def)
    from Cons.IH [OF rs Cons.prems(2)] show ?thesis by (auto intro: list_emb_Cons)
  next
    case (Inr u)
    then have l: "load_observations c d1 = load_observations c d @ [ob]"
      using obs_log.add_ok [OF Cons.prems(2), of ob] ad by simp
    have rs: "record_steps (append_observation c) obs (n + 1) (failed \<or> is_safety_failure (fo_outcome ob)) d1 =
        (n', failed', d')" using Cons.prems(1) ad Inr by (simp add: Let_def)
    note IH = Cons.IH [OF rs ready]
    obtain new where new: "load_observations c d' = load_observations c d1 @ new" "subseq new obs"
      "length new = n' - (n + 1)" using IH by blast
    have "load_observations c d' = load_observations c d @ ob # new \<and> subseq (ob # new) (ob # obs) \<and>
        length (ob # new) = n' - n" using new l IH by auto
    then have "\<exists>new. load_observations c d' = load_observations c d @ new \<and> subseq new (ob # obs) \<and>
        length new = n' - n" by blast
    moreover have "n \<le> n'" "n' \<le> n + length (ob # obs)" using IH by simp_all
    moreover have "failed' \<longleftrightarrow> failed \<or> (\<exists>x\<in>set (ob # obs). is_safety_failure (fo_outcome x))" using IH by simp
    ultimately show ?thesis using IH flag by blast
  qed
qed simp

lemma subseq_length_eq: "subseq xs ys \<Longrightarrow> length xs = length ys \<Longrightarrow> xs = ys"
  by (metis subseq_same_length)

lemma append_observation_flag: "is_boot_flag_armed (snd (append_observation c ob d)) = is_boot_flag_armed d"
  using log_file_names by (auto simp: append_observation_def append_line_def fs_append_def
      is_boot_flag_armed_def fs_defs split: option.splits if_splits)

lemma record_steps_flags:
  "record_steps (append_observation c) obs n failed d = (n', failed', d') \<Longrightarrow>
   is_boot_flag_armed d' = is_boot_flag_armed d \<and>
   (failed' \<longleftrightarrow> failed \<or> (\<exists>ob\<in>set obs. is_safety_failure (fo_outcome ob)))"
proof (induction obs arbitrary: n failed d)
  case (Cons ob obs)
  obtain r d1 where ad: "append_observation c ob d = (r, d1)" by (cases "append_observation c ob d")
  then show ?case
    using Cons append_observation_flag [of c ob d] by (cases r) (fastforce simp: Let_def)+
qed simp

lemma observation_outcome:
  "fo_outcome (observation_from_anchored_step conf ctx target cand r) =
     map_outcome (sr_outcome r) (oc_evidence_kind ctx = Discovery \<and> sr_outcome r = OcInconclusive)"
  "fo_target_mhz (observation_from_anchored_step conf ctx target cand r) = target"
  "fo_anchor_mv (observation_from_anchored_step conf ctx target cand r) = po_voltage_mv (ap_anchor cand)"
  "fo_evidence_kind (observation_from_anchored_step conf ctx target cand r) = oc_evidence_kind ctx"
  "fo_reset_ok (observation_from_anchored_step conf ctx target cand r) \<longleftrightarrow> sr_reset_ok r = Some True"
  "fo_boot_flag_cleared (observation_from_anchored_step conf ctx target cand r) = sr_boot_flag_cleared r"
  by (simp_all add: observation_from_anchored_step_def Let_def)

lemma safety_failure_outcome:
  "is_safety_failure (fo_outcome (observation_from_anchored_step conf ctx target cand r)) \<longleftrightarrow>
     sr_outcome r \<in> {OcDeviceLost, OcResetFailed}"
  by (cases "sr_outcome r") (auto simp: observation_outcome is_safety_failure_def map_outcome_def)

lemma step_observations_failure:
  assumes "length steps \<le> length cands" and "validated_prefix steps"
  shows "(\<exists>ob\<in>set (step_observations conf ctx target cands steps). is_safety_failure (fo_outcome ob)) \<longleftrightarrow>
    steps \<noteq> [] \<and> sr_outcome (last steps) \<in> {OcDeviceLost, OcResetFailed}"
proof -
  have "map snd (zip cands steps) = steps" using assms(1) by (simp add: map_snd_zip_take)
  then have set_eq: "snd ` set (zip cands steps) = set steps" by (metis set_map)
  have "(\<exists>ob\<in>set (step_observations conf ctx target cands steps). is_safety_failure (fo_outcome ob)) \<longleftrightarrow>
      (\<exists>p\<in>set (zip cands steps). sr_outcome (snd p) \<in> {OcDeviceLost, OcResetFailed})"
    by (auto simp: step_observations_def safety_failure_outcome split_beta)
  also have "\<dots> \<longleftrightarrow> (\<exists>r\<in>set steps. sr_outcome r \<in> {OcDeviceLost, OcResetFailed})"
    unfolding set_eq [symmetric] by blast
  also have "\<dots> \<longleftrightarrow> steps \<noteq> [] \<and> sr_outcome (last steps) \<in> {OcDeviceLost, OcResetFailed}"
  proof (cases steps rule: rev_cases)
    case (snoc ys y)
    have "\<forall>r\<in>set ys. sr_outcome r = OcValidated" using assms(2) by (simp add: validated_prefix_def snoc)
    then show ?thesis by (auto simp: snoc)
  qed simp
  finally show ?thesis .
qed

lemma record_on_safe:
  assumes "run_descent env cfg m = (report, m1)" and "record_on env ctx target descent report m1 = (summary, m2)"
    and "adp_candidates descent = fd_candidates cfg" and "\<not> flag_up m"
  shows "ss_safe summary \<longleftrightarrow> \<not> flag_up m2"
proof -
  note F = run_descent_facts [OF assms(1)]
  obtain n failed d' where r: "record_steps (append_observation (en_observations env))
      (step_observations (en_confidence env) ctx target (adp_candidates descent) (mr_steps report)) 0 False
      (mc_disk m1) = (n, failed, d')"
    by (metis surj_pair)
  have "summary = fst (record_on env ctx target descent report m1)" "m2 = snd (record_on env ctx target descent report m1)"
    using assms(2) by simp_all
  then have "ss_safe summary \<longleftrightarrow> \<not> failed" "mc_disk m2 = d'"
    by (simp_all add: record_on_def record_target_sweep_def r Let_def)
  then show ?thesis
    using record_steps_flags [OF r] F(6) [OF assms(4)]
      step_observations_failure [OF _ F(3), of "adp_candidates descent" "en_confidence env" ctx target] F(1) assms(3)
    by auto
qed

section \<open>Properties\<close>

text \<open>C38: evidence is clean. An observation made from a confirmed step is validated only when the reset was
  proven, the flag is down and the card is at stock; and an observation of a safety failure is made only
  while the flag still stands.\<close>

theorem validated_evidence_is_clean:
  assumes "run_confirmed_f2_step build (real_ops v settle polls workload cx now rf) m = (r, m')"
    and "ob = observation_from_anchored_step conf ctx target plan r"
  shows "(is_validated (fo_outcome ob) \<longrightarrow> has_proven_cleanup ob \<and> \<not> is_boot_flag_armed (mc_disk m') \<and>
      (\<forall>i\<in>set (touched_bins rf). near_zero (ven_get_point v i (mc_gpu m'))) \<and>
      read_core_voltage_lock_mv v (mc_gpu m') = Inr None) \<and>
    (is_safety_failure (fo_outcome ob) \<longrightarrow> is_boot_flag_armed (mc_disk m'))"
proof -
  note S = real.step_settled [OF assms(1)] step_report [OF assms(1)]
  have val: "is_validated (fo_outcome ob) \<longleftrightarrow> sr_outcome r = OcValidated"
    by (cases "sr_outcome r") (auto simp: assms(2) observation_outcome is_validated_def map_outcome_def)
  have fail: "is_safety_failure (fo_outcome ob) \<longleftrightarrow> sr_outcome r \<in> {OcDeviceLost, OcResetFailed}"
    unfolding assms(2) by (rule safety_failure_outcome)
  have clean: "has_proven_cleanup ob \<longleftrightarrow> sr_reset_ok r = Some True \<and> sr_boot_flag_cleared r"
    by (simp add: assms(2) has_proven_cleanup_def observation_outcome)
  show ?thesis
    unfolding val fail clean
    using S confirm_stock_None [of v "touched_bins rf" "mc_gpu m'"] by (auto simp: real.settled_def split: if_splits)
qed

text \<open>A sweep that is fully recorded teaches every failure. The log grows by exactly one observation per
  executed step, and every candidate whose step failed is known bad for the target afterwards.\<close>

lemma recorded_failures_are_known:
  assumes "run_descent env cfg m = (report, m1)" and "record_on env ctx target descent report m1 = (summary, m2)"
    and "adp_candidates descent = fd_candidates cfg" and "oc_evidence_kind ctx = Discovery"
    and "observations_ready (en_observations env) (mc_disk m)" and "ss_recorded summary = ss_executed summary"
  shows "load_observations (en_observations env) (mc_disk m2) = load_observations (en_observations env) (mc_disk m) @
      step_observations (en_confidence env) ctx target (fd_candidates cfg) (mr_steps report) \<and>
    list_all (\<lambda>(cand, r). sr_outcome r \<in> {OcVerifyFailed, OcSilentError, OcUnstable, OcDeviceLost, OcClockDrop,
          OcResetFailed} \<longrightarrow>
        is_known_bad (load_observations (en_observations env) (mc_disk m2)) target (po_voltage_mv (ap_anchor cand)))
      (zip (fd_candidates cfg) (mr_steps report))"
proof -
  let ?c = "en_observations env"
  let ?obs = "step_observations (en_confidence env) ctx target (adp_candidates descent) (mr_steps report)"
  note F = run_descent_facts [OF assms(1)]
  obtain n failed d' where r: "record_steps (append_observation ?c) ?obs 0 False (mc_disk m1) = (n, failed, d')"
    by (metis surj_pair)
  have "summary = fst (record_on env ctx target descent report m1)" "m2 = snd (record_on env ctx target descent report m1)"
    using assms(2) by simp_all
  then have out: "ss_recorded summary = n" "ss_executed summary = mr_executed report" "mc_disk m2 = d'"
    by (simp_all add: record_on_def record_target_sweep_def r Let_def)
  have ready: "observations_ready ?c (mc_disk m1)" using same_log_ready [OF F(4)] assms(5) by simp
  obtain new where new: "load_observations ?c d' = load_observations ?c (mc_disk m1) @ new" "subseq new ?obs"
    "length new = n" using record_steps_log [OF r ready] by auto
  have "length ?obs = n" using out F(1,2) assms(3,6) by (simp add: step_observations_def)
  then have "new = ?obs" using subseq_length_eq [OF new(2)] new(3) by simp
  then have load: "load_observations ?c (mc_disk m2) = load_observations ?c (mc_disk m) @ ?obs"
    using new(1) same_log_load [OF F(4)] out(3) by simp
  have "is_known_bad (load_observations ?c (mc_disk m2)) target (po_voltage_mv (ap_anchor cand))"
    if "(cand, r) \<in> set (zip (fd_candidates cfg) (mr_steps report))"
      "sr_outcome r \<in> {OcVerifyFailed, OcSilentError, OcUnstable, OcDeviceLost, OcClockDrop, OcResetFailed}" for cand r
  proof -
    let ?ob = "observation_from_anchored_step (en_confidence env) ctx target cand r"
    have "?ob \<in> set ?obs" using that(1) assms(3) by (force simp: step_observations_def)
    moreover have "is_known_failure target ?ob"
      using that(2) assms(4) by (auto simp: is_known_failure_def observation_outcome map_outcome_def is_bad_def)
    ultimately show ?thesis unfolding load is_known_bad_def by (auto simp: observation_outcome)
  qed
  then show ?thesis using load assms(3) by (auto simp: list_all_iff)
qed

text \<open>The ladder and the boot flag. Started with the flag down, the ladder leaves it up exactly when it
  reports that a target ended unsafe; every target before the last it ran ended safe.\<close>

lemma ladder_stops_on_a_flag:
  assumes "confirmed_ladder env curve lims start_mv prev prev_good targets m = ((summaries, stop), m')"
    and "\<not> is_boot_flag_armed (mc_disk m)"
  shows "(is_boot_flag_armed (mc_disk m') \<longleftrightarrow> (\<exists>t. stop = LadderUnsafe t)) \<and>
    length summaries \<le> length targets \<and> list_all ss_safe (butlast summaries) \<and>
    (stop = LadderDone \<longrightarrow> length summaries = length targets \<and> list_all ss_safe summaries)"
  using assms
proof (induction targets arbitrary: prev prev_good m summaries)
  case (Cons target targets)
  define prior where "prior = (if prev_good \<noteq> None then prev_good
      else case prev of None \<Rightarrow> None
      | Some p \<Rightarrow> map_option fo_anchor_mv
          (last_good_for_target (query_by_target (en_observations env) (mc_disk m) p) p))"
  define bounds where "bounds = ladder_target_descent_bounds (hw_floor_mv lims) prior target prev start_mv"
  define tl where "tl = lims\<lparr>hw_floor_mv := snd bounds\<rparr>"
  define descent where "descent = plan_anchored_undervolt_descent curve target (fst bounds) tl f2_sweep_budget"
  define cfg where "cfg = descent_cfg curve (adp_candidates descent) tl target 0"
  define ctx where "ctx = discovery_context env (en_run_id env ''f2-ladder'') LadderSweep start_mv tl"
  define refusal where "refusal = confirmed_f2_multi_refusal (load_record (cx_record (en_codecs env)) (mc_disk m))
      (is_boot_flag_armed (mc_disk m)) (Some (length (adp_candidates descent))) (length (adp_candidates descent))
      (length (adp_candidates descent))"
  note unfold = Cons.prems(1) [simplified Let_def confirmed_ladder.simps, folded prior_def, folded bounds_def,
      folded tl_def, folded descent_def, folded cfg_def ctx_def refusal_def]
  show ?case
  proof (cases refusal)
    case (Some e)
    then show ?thesis using unfold Cons.prems(2) by auto
  next
    case None
    obtain report m1 where d: "run_descent env cfg m = (report, m1)" by (cases "run_descent env cfg m")
    obtain summary m2 where r: "record_on env ctx target descent report m1 = (summary, m2)"
      by (cases "record_on env ctx target descent report m1")
    have safe: "ss_safe summary \<longleftrightarrow> \<not> flag_up m2"
      using record_on_safe [OF d r _ Cons.prems(2)] by (simp add: cfg_def descent_cfg_def)
    show ?thesis
    proof (cases "ss_safe summary")
      case False
      then show ?thesis using unfold None d r safe by (auto simp: ladder_should_continue_def)
    next
      case True
      obtain ss st m3 where rest: "confirmed_ladder env curve lims start_mv (Some target) (ss_last_good_mv summary)
          targets m2 = ((ss, st), m3)" by (metis surj_pair)
      then have "summaries = summary # ss" "stop = st" "m' = m3"
        using unfold None d r True by (auto simp: ladder_should_continue_def)
      then show ?thesis using Cons.IH [of "Some target" "ss_last_good_mv summary" m2 ss] rest safe True by auto
    qed
  qed
qed auto

text \<open>The direction of a ladder bounds its descents. Going up, no candidate of a target lies below the
  prior voltage or the base floor; going down, none lies above the prior voltage, and the floor is the base
  floor alone.\<close>

lemma ladder_bounds_respected:
  assumes "ladder_target_descent_bounds base_floor prior target prev global = (start_mv, floor_mv)"
    and "cs = adp_candidates (plan_anchored_undervolt_descent curve target start_mv (lims\<lparr>hw_floor_mv := floor_mv\<rparr>) steps)"
    and "is_u32 target" and "distinct (map pt_index curve)"
  shows "list_all (\<lambda>p. base_floor \<le> po_voltage_mv (ap_anchor p) \<and>
    (if is_some_and prev (\<lambda>q. target < q) then is_none_or prior (\<lambda>mv. po_voltage_mv (ap_anchor p) \<le> mv)
     else is_none_or prior (\<lambda>mv. mv \<le> po_voltage_mv (ap_anchor p)) \<and>
       is_none_or global (\<lambda>mv. po_voltage_mv (ap_anchor p) \<le> mv))) cs"
proof -
  let ?el = "eligible target start_mv (descending_bins curve)"
  have cand: "floor_mv \<le> po_voltage_mv (ap_anchor (cs ! i)) \<and>
      is_none_or start_mv (\<lambda>mv. po_voltage_mv (ap_anchor (cs ! i)) \<le> mv)" if "i < length cs" for i
  proof -
    note i = that [unfolded assms(2)]
    note C = descent_candidate [OF i assms(3), folded assms(2)]
    have "?el ! i \<in> set ?el" using C by (simp add: nth_mem)
    then have "is_none_or start_mv (\<lambda>mv. pt_mv (?el ! i) \<le> mv)" by (simp add: eligible_def)
    moreover have "pt_mv (?el ! i) = po_voltage_mv (ap_anchor (cs ! i))"
      using descent_bin [OF i assms(3,4), folded assms(2)] by (metis fst_conv snd_conv)
    moreover have "floor_mv \<le> po_voltage_mv (ap_anchor (cs ! i))"
      using plan_anchored_anchor [of curve _ target _ "lims\<lparr>hw_floor_mv := floor_mv\<rparr>"] C assms(3) by fastforce
    ultimately show ?thesis by simp
  qed
  have "floor_mv \<le> po_voltage_mv (ap_anchor p) \<and> is_none_or start_mv (\<lambda>mv. po_voltage_mv (ap_anchor p) \<le> mv)"
    if "p \<in> set cs" for p using cand that by (metis in_set_conv_nth)
  then show ?thesis
    using assms(1) by (fastforce simp: list_all_iff ladder_target_descent_bounds_def ladder_target_floor_def is_none_or_def
        split: if_splits option.splits)
qed

section \<open>Witnesses\<close>

definition toy_context :: obs_context where
  "toy_context =
     \<lparr>oc_run_id = ''run'', oc_timestamp = ''t'', oc_gpu_key = Some ''gpu'', oc_evidence_kind = Discovery,
      oc_discovery_contract = Some 6, oc_qualification_contract = None, oc_coverage = None, oc_mode = TargetSweep,
      oc_requested_start_mv = None, oc_positive_offset_cap_mhz = 450\<rparr>"

text \<open>A descent of one candidate without entries: the write succeeds and the verifier sees nothing.\<close>

definition blind_candidate :: anchored_plan where
  "blind_candidate =
     \<lparr>ap_target_mhz = 1900, ap_anchor = rf_candidate toy_executor, ap_entries = [], ap_capped_above_bins = 0,
      ap_above_already_ok_bins = 0, ap_elastic_below_bins = 0, ap_max_positive_offset_mhz = 0,
      ap_max_negative_flatten_mhz = 0\<rparr>"

theorem validated_evidence_is_clean_witness:
  "\<exists>r m' ob. run_confirmed_f2_step sample_provenance toy_real_ops (toy_machine []) = (r, m') \<and>
     ob = observation_from_anchored_step (\<lambda>_. Fin 0) toy_context 1900 blind_candidate r \<and>
     is_validated (fo_outcome ob) \<and> has_proven_cleanup ob \<and> \<not> is_boot_flag_armed (mc_disk m')"
proof -
  obtain r m' where r: "run_confirmed_f2_step sample_provenance toy_real_ops (toy_machine []) = (r, m')"
    "sr_outcome r = OcValidated" using toy_real_step by blast
  have "is_validated (fo_outcome (observation_from_anchored_step (\<lambda>_. Fin 0) toy_context 1900 blind_candidate r))"
    by (simp add: observation_outcome r(2) map_outcome_def is_validated_def)
  then show ?thesis using validated_evidence_is_clean [OF r(1) refl] r(1) by blast
qed

definition toy_env :: "f2_observation codec \<Rightarrow> (unit, toy_card) f2_env" where
  "toy_env c =
     \<lparr>en_vendor = toy_vendor False, en_settle = (\<lambda>g. g), en_polls = 20, en_workload = (\<lambda>_ _ g. (toy_dwell, g)),
      en_codecs = toy_codecs, en_observations = c, en_now = ''now'', en_run_id = (\<lambda>s. s), en_gpu = Some ''gpu'',
      en_confidence = (\<lambda>_. Fin 0), en_build = sample_provenance\<rparr>"

definition blind_cfg :: f2_descent_cfg where
  "blind_cfg = descent_cfg toy_curve [blind_candidate] (hardware_limits toy_curve 1950) 1900 0"

definition blind_executor :: "unit real_f2" where
  "blind_executor =
     (fresh_cursor toy_curve (hardware_limits toy_curve 1950) 1900)
       \<lparr>rf_candidate := rf_candidate toy_executor, rf_anchored := Some blind_candidate\<rparr>"

lemma blind_select:
  "real_select toy_codecs blind_cfg 0 (fresh_cursor toy_curve (hardware_limits toy_curve 1950) 1900, toy_machine []) =
     (Inr (), blind_executor, toy_machine [])"
  by (simp add: real_select_def blind_cfg_def descent_cfg_def toy_machine_def toy_disk_def load_record_def fs_read_def
      default_record_def is_boot_flag_armed_def fs_exists_def candidate_blacklisted_def is_blacklisted_def
      field_pair_blacklisted_def field_floor_refuses_def field_vf_floor_mv_def field_points_def
      List.map_filter_def envelope_at_def running_envelope_def blind_executor_def Let_def)
    (simp add: blind_candidate_def fresh_cursor_def chained_prev_offset_def)

lemma blind_apply:
  "\<exists>p. real_apply (toy_vendor False) (\<lambda>g. g) 20 blind_executor (armed_at stock_card) = (Inr (), armed_at (p, 850000))"
proof -
  obtain plan where pl: "plan_anchored toy_curve 6 1900 0 (hardware_limits toy_curve 1950) = Inr plan"
    "ap_entries plan = map (\<lambda>(i, mv, mhz). \<lparr>ab_index = i, ab_voltage_mv = mv, ab_base_mhz = mhz,
       ab_offset_mhz = (if i = 6 then 100 else if i = 9 then - 50 else 0),
       ab_effective_mhz = (if i = 6 \<or> i = 9 then 1900 else mhz),
       ab_role = (if i = 6 then Anchor else if i > 6 then CappedAbove else ElasticBelow)\<rparr>) toy_curve"
    "po_index (ap_anchor plan) = 6" "po_offset_mhz (ap_anchor plan) = 100"
    by (rule toy_plan)
  then have "\<exists>q. apply_anchored (ven_set_point (toy_vendor False)) toy_curve 6 1900 0 (hardware_limits toy_curve 1950) (p, l)
      = (Inr plan, (q, l))" for p l
    unfolding apply_anchored_def
    by (simp add: Let_def toy_limits) (simp add: toy_curve_def toy_vendor_def i32_mul_def is_i32_def)
  then have "\<exists>q. real_write (toy_vendor False) blind_executor (p, l) = (Inr (), (q, l))" for p l
    by (simp add: real_write_def rf_plan_def blind_executor_def fresh_cursor_def toy_executor_def)
       (metis (no_types, lifting) case_prod_conv sum.case(2))
  then obtain q where q: "real_write (toy_vendor False) blind_executor (\<lambda>_. 0, 850000) = (Inr (), (q, 850000))" by blast
  have "po_voltage_mv (rf_candidate blind_executor) = 850" "rf_target_mhz blind_executor = 1900"
    by (simp_all add: blind_executor_def toy_executor_def fresh_cursor_def)
  moreover have "lock_core_clock_max_mhz (toy_vendor False) 1900 g = (Inr (), g)" for g
    by (simp add: lock_core_clock_max_mhz_def drv_of_def toy_vendor_def)
  ultimately show ?thesis using q by (simp add: real_apply_def stock_card_def toy_lock lift_gpu_def) blast
qed

lemma blind_descent:
  "\<exists>report g. run_descent (toy_env c) blind_cfg (toy_machine []) = (report, (toy_machine [])\<lparr>mc_gpu := g\<rparr>) \<and>
     mr_executed report = 1 \<and> (\<exists>r. mr_steps report = [r] \<and> sr_outcome r = OcVerifyFailed)"
proof -
  obtain p where ap: "real_apply (toy_vendor False) (\<lambda>g. g) 20 blind_executor (armed_at stock_card) =
      (Inr (), armed_at (p, 850000))" using blind_apply by blast
  have ver: "real_verify (toy_vendor False) blind_executor m = (RaiseUnverifiable, m)" for m
    by (simp add: real_verify_def rf_plan_def blind_executor_def blind_candidate_def fresh_cursor_def observe_plan_def
        verify_anchored_def gate_of_anchored_def verify_positive_offset_def observed_at_def opt_bind_def Let_def)
  have t: "touched_bins blind_executor = []"
    by (simp add: touched_bins_def rf_plan_def blind_executor_def blind_candidate_def fresh_cursor_def)
  have cfg: "fd_curve blind_cfg = toy_curve" "fd_limits blind_cfg = hardware_limits toy_curve 1950"
    "fd_target_mhz blind_cfg = 1900" "length (fd_candidates blind_cfg) = 1"
    by (simp_all add: blind_cfg_def descent_cfg_def)
  show ?thesis
    unfolding run_descent_def run_confirmed_f2_multi_step_def cfg
    apply (simp add: Let_def env_ops_def toy_env_def)
    apply (simp add: real_multi_ops_def cfg blind_select on_cursor_def
        run_confirmed_f2_step_def toy_real_arm ap ver toy_real_reset t toy_real_clear finish_after_write_def is_ok_def
        is_err_def stop_of_def Let_def)
    by blast
qed

definition one_codec :: "f2_observation \<Rightarrow> f2_observation codec" where
  "one_codec ob =
     \<lparr>enc = (\<lambda>x. if x = ob then Some ''{a}'' else None), dec = (\<lambda>s. if s = ''{a}'' then Some ob else None)\<rparr>"

lemma one_codec_ready: "observations_ready (one_codec ob) toy_disk"
  by (auto simp: observations_ready_def line_codec_def one_codec_def json_line_def line_feed_def
      carriage_return_def log_intact_def toy_disk_def)

end
