(* ===== verification/F2Discovery.thy ===== *)
theory F2Discovery
  imports F2Record
begin

text \<open>
  The decisions of the live discovery in \<open>crates/service/src/gpu_undervolt.rs\<close>: the classification of a
  measured power against the board limit, the confirmation of repeated measurements, the transition matrix
  of the descent, the adaptive stride and the resumption of an earlier run.
\<close>

section \<open>Power against the limit\<close>

datatype discovery_decision =
  ContinueVoltage | MarkSustainableAndContinue | NextClockUnsustainable | BoundaryFound
| NextClockAfterFailure | AbortForge

datatype power_cap_state = NearCap | OffCap | Ambiguous

definition f32_abs :: "f32 \<Rightarrow> f32" where
  "f32_abs x = (case x of Fin r \<Rightarrow> Fin \<bar>r\<bar> | NegInf \<Rightarrow> PosInf | _ \<Rightarrow> x)"

text \<open>\<open>reduce(f32::max)\<close>.\<close>

fun reduce_max :: "f32 list \<Rightarrow> f32 option" where
  "reduce_max [] = None"
| "reduce_max (x # xs) = Some (foldl f32_max x xs)"

definition power_cap_state_with_previous ::
  "f32 option \<Rightarrow> f32 option \<Rightarrow> f32 option \<Rightarrow> power_cap_state option \<Rightarrow> power_cap_state" where
  "power_cap_state_with_previous p99 limit capped_frac previous =
     (case opt_filter usable_power p99 of
        None \<Rightarrow> Ambiguous
      | Some p \<Rightarrow>
          (case opt_filter usable_power limit of
             Some l \<Rightarrow>
               if p \<ge> f32_mul l (f32_round (99 / 100)) then NearCap
               else if p \<le> f32_mul l (f32_round (98 / 100)) then OffCap
               else unwrap_or (opt_filter (\<lambda>st. st \<noteq> Ambiguous) previous) NearCap
           | None \<Rightarrow>
               if is_some_and capped_frac (\<lambda>f. f32_is_finite f \<and> f \<ge> f32_round (1 / 2)) then NearCap
               else OffCap))"

definition f2_power_cap_state :: "f32 option \<Rightarrow> f32 option \<Rightarrow> f32 option \<Rightarrow> power_cap_state" where
  "f2_power_cap_state p99 limit capped_frac = power_cap_state_with_previous p99 limit capped_frac None"

section \<open>Repeated measurements\<close>

definition power_p99_recheck_abs_w :: f32 where "power_p99_recheck_abs_w = Fin 8"
definition power_p99_recheck_rel :: f32 where "power_p99_recheck_rel = f32_round (5 / 100)"
definition power_p99_equivalent_p5_tol_mhz :: u32 where "power_p99_equivalent_p5_tol_mhz = 15"

definition power_p99_pair_consistent :: "f32 \<Rightarrow> f32 \<Rightarrow> bool" where
  "power_p99_pair_consistent a b \<longleftrightarrow>
     f32_abs (f32_sub a b) \<le> f32_max power_p99_recheck_abs_w (f32_mul (f32_max a b) power_p99_recheck_rel)"

definition power_measurement_content_usable :: "'e f2_step_report \<Rightarrow> bool" where
  "power_measurement_content_usable r \<longleftrightarrow>
     sr_outcome r \<in> {OcValidated, OcClockDrop} \<and> \<not> sr_thermal_throttled r \<and>
     is_some_and (sr_power_p99_w r) usable_power"

definition power_measurement_usable :: "'e f2_step_report \<Rightarrow> bool" where
  "power_measurement_usable r \<longleftrightarrow>
     power_measurement_content_usable r \<and> sr_reset_ok r = Some True \<and> sr_boot_flag_cleared r"

definition abs_diff :: "nat \<Rightarrow> nat \<Rightarrow> nat" where
  "abs_diff a b = (if a \<ge> b then a - b else b - a)"

definition power_p99_requires_recheck_with ::
  "(f32 \<times> u32) option \<Rightarrow> 'e f2_step_report \<Rightarrow> ('e f2_step_report \<Rightarrow> bool) \<Rightarrow> bool" where
  "power_p99_requires_recheck_with previous r usable =
     (if \<not> usable r then False
      else case previous of
        None \<Rightarrow> False
      | Some (prev_p99, prev_p5) \<Rightarrow>
          (case (sr_power_p99_w r, sr_p5_clock_mhz r) of
             (Some p99, Some p5) \<Rightarrow>
               usable_power prev_p99 \<and> usable_power p99 \<and>
               abs_diff prev_p5 p5 \<le> power_p99_equivalent_p5_tol_mhz \<and>
               \<not> power_p99_pair_consistent prev_p99 p99
           | _ \<Rightarrow> False))"

definition power_p99_requires_recheck :: "(f32 \<times> u32) option \<Rightarrow> 'e f2_step_report \<Rightarrow> bool" where
  "power_p99_requires_recheck previous r = power_p99_requires_recheck_with previous r power_measurement_usable"

definition power_p99_content_requires_recheck :: "(f32 \<times> u32) option \<Rightarrow> 'e f2_step_report \<Rightarrow> bool" where
  "power_p99_content_requires_recheck previous r =
     power_p99_requires_recheck_with previous r power_measurement_content_usable"

definition usable_powers :: "'e f2_step_report list \<Rightarrow> f32 list" where
  "usable_powers rs = List.map_filter sr_power_p99_w (filter power_measurement_usable rs)"

fun any_pair :: "('a \<Rightarrow> 'a \<Rightarrow> bool) \<Rightarrow> 'a list \<Rightarrow> bool" where
  "any_pair p [] = False"
| "any_pair p (x # xs) = (list_ex (p x) xs \<or> any_pair p xs)"

definition power_attempts_have_consistent_pair :: "'e f2_step_report list \<Rightarrow> bool" where
  "power_attempts_have_consistent_pair rs = any_pair power_p99_pair_consistent (usable_powers rs)"

definition power_cap_state_for_attempts ::
  "'e f2_step_report list \<Rightarrow> f32 option \<Rightarrow> power_cap_state option \<Rightarrow> power_cap_state" where
  "power_cap_state_for_attempts rs limit previous =
     power_cap_state_with_previous (reduce_max (usable_powers rs)) limit
       (reduce_max (List.map_filter sr_power_capped_frac (filter power_measurement_usable rs))) previous"

definition power_recheck_resolved ::
  "'e f2_step_report list \<Rightarrow> f32 option \<Rightarrow> power_cap_state option \<Rightarrow> bool" where
  "power_recheck_resolved rs limit previous \<longleftrightarrow>
     power_attempts_have_consistent_pair rs \<and> power_cap_state_for_attempts rs limit previous \<noteq> Ambiguous"

fun hard_failure :: "'e f2_outcome \<Rightarrow> bool" where
  "hard_failure OcDeviceLost = True"
| "hard_failure OcResetFailed = True"
| "hard_failure (OcArmFailed _) = True"
| "hard_failure (OcApplyFailed _) = True"
| "hard_failure OcVerifyFailed = True"
| "hard_failure OcSilentError = True"
| "hard_failure OcUnstable = True"
| "hard_failure _ = False"

definition confirm_power_attempts ::
  "'e f2_step_report list \<Rightarrow> bool \<Rightarrow> f32 option \<times> 'e f2_step_report list" where
  "confirm_power_attempts rs rechecked =
     (let usable = usable_powers rs;
          consensus = (if list_ex (\<lambda>r. hard_failure (sr_outcome r)) rs then False
                       else if rechecked then power_attempts_have_consistent_pair rs
                       else length usable = 1);
          count = length rs mod 4294967296
      in if \<not> consensus
         then (None, map (\<lambda>r. if power_measurement_usable r
                              then r\<lparr>sr_outcome := OcInconclusive, sr_power_p99_confirmed := False,
                                     sr_power_p99_attempts := count\<rparr>
                              else r) rs)
         else (Some (foldl f32_max NegInf usable),
               map (\<lambda>r. if power_measurement_usable r
                        then r\<lparr>sr_power_p99_confirmed := True, sr_power_p99_attempts := count\<rparr>
                        else r) rs))"

definition nat_min_of :: "nat list \<Rightarrow> nat option" where
  "nat_min_of xs = (if xs = [] then None else Some (Min (set xs)))"

definition nat_max_of :: "nat list \<Rightarrow> nat option" where
  "nat_max_of xs = (if xs = [] then None else Some (Max (set xs)))"

definition aggregate_power_attempts ::
  "'e f2_step_report list \<Rightarrow> f32 option \<Rightarrow> 'e f2_step_report" where
  "aggregate_power_attempts rs conservative =
     (hd rs)
       \<lparr>sr_outcome :=
          (case find (\<lambda>r. hard_failure (sr_outcome r)) rs of
             Some hard \<Rightarrow> sr_outcome hard
           | None \<Rightarrow>
               if conservative = None then OcInconclusive
               else if list_ex (\<lambda>r. sr_outcome r = OcClockDrop) rs then OcClockDrop
               else OcValidated),
        sr_power_p99_w := conservative, sr_power_p99_confirmed := (conservative \<noteq> None),
        sr_power_p99_attempts := length rs mod 4294967296,
        sr_p5_clock_mhz := nat_min_of (List.map_filter sr_p5_clock_mhz rs),
        sr_avg_clock_mhz := nat_min_of (List.map_filter sr_avg_clock_mhz rs),
        sr_power_w := nat_max_of (List.map_filter sr_power_w rs),
        sr_max_power_w := nat_max_of (List.map_filter sr_max_power_w rs),
        sr_power_capped_frac := reduce_max (List.map_filter sr_power_capped_frac rs),
        sr_max_temp_c := reduce_max (List.map_filter sr_max_temp_c rs),
        sr_thermal_throttled := list_ex sr_thermal_throttled rs\<rparr>"

definition finalize_power_cap_state ::
  "'e f2_step_report list \<Rightarrow> 'e f2_step_report \<Rightarrow> f32 option \<Rightarrow> power_cap_state option \<Rightarrow>
   power_cap_state \<times> 'e f2_step_report list \<times> 'e f2_step_report" where
  "finalize_power_cap_state rs aggregate limit previous =
     (let st = power_cap_state_with_previous (sr_power_p99_w aggregate) limit (sr_power_capped_frac aggregate) previous
      in if st = Ambiguous \<and> sr_power_p99_confirmed aggregate
         then (st, map (\<lambda>r. if sr_power_p99_confirmed r
                            then r\<lparr>sr_outcome := OcInconclusive, sr_power_p99_confirmed := False\<rparr> else r) rs,
               aggregate\<lparr>sr_outcome := OcInconclusive, sr_power_p99_confirmed := False\<rparr>)
         else (st, rs, aggregate))"

section \<open>The transition matrix\<close>

definition power_bound_clock_drop :: "'e f2_outcome \<Rightarrow> bool \<Rightarrow> 'e f2_outcome" where
  "power_bound_clock_drop oc near = (if oc = OcClockDrop \<and> near then OcPowerBoundClockDrop else oc)"

definition f2_discovery_decision :: "'e f2_outcome \<Rightarrow> bool \<Rightarrow> bool \<Rightarrow> discovery_decision" where
  "f2_discovery_decision oc had_sustainable near =
     (case oc of
        OcValidated \<Rightarrow> if had_sustainable then ContinueVoltage else MarkSustainableAndContinue
      | OcPowerBoundClockDrop \<Rightarrow> ContinueVoltage
      | OcClockDrop \<Rightarrow>
          if near then ContinueVoltage
          else if had_sustainable then BoundaryFound else NextClockUnsustainable
      | OcSilentError \<Rightarrow> if had_sustainable then BoundaryFound else NextClockAfterFailure
      | OcUnstable \<Rightarrow> if had_sustainable then BoundaryFound else NextClockAfterFailure
      | OcInconclusive \<Rightarrow> NextClockAfterFailure
      | OcDeviceLost \<Rightarrow> AbortForge | OcResetFailed \<Rightarrow> AbortForge | OcArmFailed _ \<Rightarrow> AbortForge
      | OcApplyFailed _ \<Rightarrow> AbortForge | OcVerifyFailed \<Rightarrow> AbortForge)"

definition f2_adaptive_max_stride_bins :: nat where "f2_adaptive_max_stride_bins = 4"
definition f2_adaptive_max_voltage_drop_mv :: u32 where "f2_adaptive_max_voltage_drop_mv = 25"

definition i32_sat_sub :: "i32 \<Rightarrow> i32 \<Rightarrow> i32" where
  "i32_sat_sub a b = max (- 2147483648) (min 2147483647 (a - b))"

definition adaptive_admits ::
  "anchored_plan list \<Rightarrow> nat \<Rightarrow> i32 \<Rightarrow> i32 \<Rightarrow> nat \<Rightarrow> bool" where
  "adaptive_admits cs i reference step_max stride \<longleftrightarrow>
     i + stride < length cs \<and>
     u32_sat_sub (po_voltage_mv (ap_anchor (cs ! i))) (po_voltage_mv (ap_anchor (cs ! (i + stride))))
       \<le> f2_adaptive_max_voltage_drop_mv \<and>
     i32_sat_sub (po_offset_mhz (ap_anchor (cs ! (i + stride)))) reference \<le> step_max"

definition adaptive_power_bound_next_index ::
  "anchored_plan list \<Rightarrow> nat \<Rightarrow> u32 \<Rightarrow> u32 option \<Rightarrow> i32 \<Rightarrow> i32 \<Rightarrow> nat" where
  "adaptive_power_bound_next_index cs i target p5 reference step_max =
     (let deficit = u32_sat_sub target (unwrap_or p5 target);
          requested = (if deficit \<ge> 90 then f2_adaptive_max_stride_bins else if deficit \<ge> 45 then 2 else 1)
      in if \<not> i < length cs then i
         else case find (adaptive_admits cs i reference step_max) (rev [1..<requested + 1]) of
           Some stride \<Rightarrow> i + stride
         | None \<Rightarrow> min (i + 1) (length cs))"

definition recovery_midpoint :: "nat \<Rightarrow> nat \<Rightarrow> nat option" where
  "recovery_midpoint shallower deeper =
     (let gap = deeper - shallower in if gap > 1 then Some (shallower + gap div 2) else None)"

definition reset_clean_discovery_failure :: "discovery_decision \<Rightarrow> 'e f2_step_report \<Rightarrow> bool" where
  "reset_clean_discovery_failure decision r \<longleftrightarrow>
     sr_reset_ok r = Some True \<and> sr_boot_flag_cleared r \<and>
     decision \<in> {NextClockUnsustainable, BoundaryFound, NextClockAfterFailure}"

definition outcome_retains_boot_flag :: "'e f2_outcome \<Rightarrow> bool" where
  "outcome_retains_boot_flag oc \<longleftrightarrow> oc = OcDeviceLost \<or> oc = OcResetFailed"

section \<open>Resuming\<close>

abbreviation anchor_mv :: "anchored_plan \<Rightarrow> u32" where
  "anchor_mv p \<equiv> po_voltage_mv (ap_anchor p)"

definition option_min :: "nat option \<Rightarrow> nat option \<Rightarrow> nat option" where
  "option_min a b = (case (a, b) of (None, y) \<Rightarrow> y | (x, None) \<Rightarrow> x | (Some x, Some y) \<Rightarrow> Some (min x y))"

definition resume_f2_candidates ::
  "anchored_plan list \<Rightarrow> u32 option \<Rightarrow> u32 option \<Rightarrow> u32 option \<Rightarrow> u32 option \<times> anchored_plan list" where
  "resume_f2_candidates cs prior_good prior_bad prior_power_bound =
     (case prior_bad of
        Some bad \<Rightarrow>
          if prior_good \<noteq> None then (None, []) else (Some bad, filter (\<lambda>c. anchor_mv c > bad) cs)
      | None \<Rightarrow>
          (let below = option_min prior_good prior_power_bound
           in (below, case below of Some mv \<Rightarrow> filter (\<lambda>c. anchor_mv c < mv) cs | None \<Rightarrow> cs)))"

definition prior_observation_is_resume_eligible :: "string \<Rightarrow> string \<Rightarrow> bool \<Rightarrow> bool" where
  "prior_observation_is_resume_eligible observed current resume_current_run \<longleftrightarrow>
     \<not> resume_current_run \<or> observed = current"

definition refresh_discovery_for_qualification :: "nat \<Rightarrow> nat \<Rightarrow> bool \<Rightarrow> bool" where
  "refresh_discovery_for_qualification qualification_passes final_gate_passes resume_current_run \<longleftrightarrow>
     \<not> resume_current_run \<and> (qualification_passes > 0 \<or> final_gate_passes > 0)"

definition observation_matches_current_candidate :: "anchored_plan list \<Rightarrow> u32 \<Rightarrow> u32 \<Rightarrow> i32 \<Rightarrow> bool" where
  "observation_matches_current_candidate cs mv base offset \<longleftrightarrow>
     list_ex (\<lambda>c. anchor_mv c = mv \<and> po_base_mhz (ap_anchor c) = base \<and> po_offset_mhz (ap_anchor c) = offset) cs"

definition conservative_next_clock_start :: "u32 list \<Rightarrow> u32 list \<Rightarrow> u32 option" where
  "conservative_next_clock_start power_bound_drops validated =
     (if power_bound_drops \<noteq> [] then nat_min_of power_bound_drops else nat_max_of validated)"

definition optimized_next_clock_start :: "u32 list \<Rightarrow> u32 option \<Rightarrow> u32 option \<Rightarrow> u32 option" where
  "optimized_next_clock_start planned last_good conservative =
     (case last_good of
        Some good \<Rightarrow>
          (case nat_min_of (filter (\<lambda>mv. mv > good) planned) of Some mv \<Rightarrow> Some mv | None \<Rightarrow> Some good)
      | None \<Rightarrow> conservative)"

section \<open>Lemmas\<close>

lemma usable_Fin: "usable_power p \<longleftrightarrow> (\<exists>r. p = Fin r \<and> 0 < r)"
  by (cases p) (auto simp: usable_power_def f32_is_finite_def f32_order)

lemma opt_filter_Some [simp]: "opt_filter p (Some x) = (if p x then Some x else None)"
  by (simp add: opt_filter_def opt_bind_def)

text \<open>The maximum of usable powers is attained and bounds them all.\<close>

lemma foldl_max_Fin: "list_all usable_power xs \<Longrightarrow> \<exists>r. foldl f32_max (Fin a) xs = Fin r \<and> a \<le> r \<and>
    (Fin r = Fin a \<or> Fin r \<in> set xs) \<and> (\<forall>x\<in>set xs. x \<le> Fin r)"
proof (induction xs arbitrary: a)
  case (Cons x xs)
  then obtain b where x: "x = Fin b" by (auto simp: usable_Fin)
  from Cons.IH [of "max a b"] Cons.prems obtain r where r: "foldl f32_max (Fin (max a b)) xs = Fin r" "max a b \<le> r"
    "Fin r = Fin (max a b) \<or> Fin r \<in> set xs" "\<forall>x\<in>set xs. x \<le> Fin r" by auto
  have "foldl f32_max (Fin a) (x # xs) = Fin r" using r(1) by (simp add: x f32_max_Fin)
  moreover have "Fin r = Fin a \<or> Fin r \<in> set (x # xs)"
    using r(3) by (cases "a \<le> b") (auto simp: x max_def)
  moreover have "\<forall>y\<in>set (x # xs). y \<le> Fin r" using r(2,4) by (auto simp: x f32_order)
  ultimately show ?case using r(2) by auto
qed simp

lemma foldl_max_usable:
  assumes "list_all usable_power xs" and "xs \<noteq> []"
  shows "foldl f32_max NegInf xs \<in> set xs \<and> (\<forall>x\<in>set xs. x \<le> foldl f32_max NegInf xs)"
proof -
  obtain x ys b where xs: "xs = x # ys" "x = Fin b" using assms by (cases xs) (auto simp: usable_Fin)
  have "foldl f32_max NegInf xs = foldl f32_max (Fin b) ys" by (simp add: xs f32_max_def f32_order)
  then show ?thesis using foldl_max_Fin [of ys b] assms(1) by (auto simp: xs f32_order)
qed

lemma usable_powers_all: "list_all usable_power (usable_powers rs)"
  by (auto simp: usable_powers_def list_all_iff List.map_filter_def power_measurement_usable_def
      power_measurement_content_usable_def)

lemma set_usable_powers:
  "set (usable_powers rs) = {p. \<exists>r\<in>set rs. power_measurement_usable r \<and> sr_power_p99_w r = Some p}"
  by (force simp: usable_powers_def List.map_filter_def power_measurement_usable_def
      power_measurement_content_usable_def is_some_and_def split: option.splits)

lemma usable_powers_discarded:
  "usable_powers (map (\<lambda>r. if power_measurement_usable r
     then r\<lparr>sr_outcome := OcInconclusive, sr_power_p99_confirmed := False, sr_power_p99_attempts := n\<rparr>
     else r) rs) = []"
  by (auto simp: usable_powers_def List.map_filter_def filter_empty_conv power_measurement_usable_def
      power_measurement_content_usable_def)

lemma any_pair_exists: "any_pair p xs \<Longrightarrow> xs \<noteq> []"
  by (cases xs) auto

section \<open>Properties\<close>

text \<open>The classification has memory. Over a series of usable measurements against a usable limit, the
  state is decided by the last one outside the band between 98 and 99 percent; when there was none a fresh
  descent counts as near the cap.\<close>

lemma power_cap_hysteresis:
  assumes "usable_power l" and "list_all usable_power xs" and "xs \<noteq> []"
  shows "foldl (\<lambda>st x. Some (power_cap_state_with_previous (Some x) (Some l) capped st)) None xs =
    Some (case find (\<lambda>x. x \<ge> f32_mul l (f32_round (99 / 100)) \<or> x \<le> f32_mul l (f32_round (98 / 100))) (rev xs) of
            Some x \<Rightarrow> if x \<ge> f32_mul l (f32_round (99 / 100)) then NearCap else OffCap
          | None \<Rightarrow> NearCap)"
  using assms(2,3)
proof (induction xs rule: rev_induct)
  case (snoc x xs)
  then have x: "usable_power x" by simp
  show ?case
  proof (cases "xs = []")
    case True
    then show ?thesis using x assms(1) by (simp add: power_cap_state_with_previous_def opt_filter_def opt_bind_def)
  next
    case False
    then show ?thesis
      using x assms(1) snoc by (simp add: power_cap_state_with_previous_def split: option.split)
  qed
qed simp

text \<open>A power is confirmed only by agreement. Repeated attempts at one bin yield a power exactly when no
  attempt failed hard and either one measurement was usable or, after a recheck, two usable ones agree; the
  power is then a measured one and the largest of them, and no verdict is touched. Otherwise every usable
  attempt, and no other, becomes inconclusive, so that nothing usable is left.\<close>

lemma confirmed_power_exact:
  "case confirm_power_attempts rs rechecked of (result, rs') \<Rightarrow>
    (result \<noteq> None \<longleftrightarrow> \<not> list_ex (\<lambda>r. hard_failure (sr_outcome r)) rs \<and>
      (if rechecked then power_attempts_have_consistent_pair rs else length (usable_powers rs) = 1)) \<and>
    (case result of
       Some p \<Rightarrow> p \<in> set (usable_powers rs) \<and> list_all (\<lambda>q. q \<le> p) (usable_powers rs) \<and>
         map sr_outcome rs' = map sr_outcome rs
     | None \<Rightarrow> usable_powers rs' = [] \<and>
         map sr_outcome rs' = map (\<lambda>r. if power_measurement_usable r then OcInconclusive else sr_outcome r) rs)"
proof -
  define ok where "ok \<longleftrightarrow> \<not> list_ex (\<lambda>r. hard_failure (sr_outcome r)) rs \<and>
    (if rechecked then power_attempts_have_consistent_pair rs else length (usable_powers rs) = 1)"
  show ?thesis
  proof (cases ok)
    case True
    then have ne: "usable_powers rs \<noteq> []"
      by (auto simp: ok_def power_attempts_have_consistent_pair_def dest: any_pair_exists split: if_splits)
    show ?thesis
      using True foldl_max_usable [OF usable_powers_all ne]
      by (auto simp: ok_def confirm_power_attempts_def Let_def list_all_iff)
  next
    case False
    then show ?thesis
      by (auto simp: ok_def confirm_power_attempts_def Let_def usable_powers_discarded)
  qed
qed

text \<open>A strided descent never skips blindly. Below the end of the plan the next index advances by one to
  four bins and stays in the plan; it advances by more than one only over at most 25 mV, only when the clock
  missed the target by at least 45 MHz, and only to a bin whose offset stays within the step of the
  reference. A midpoint probe lies strictly between the two indices it separates.\<close>

lemma adaptive_stride_bounds:
  assumes "i < length cs"
  shows "let n = adaptive_power_bound_next_index cs i target p5 reference step_max
    in i < n \<and> n \<le> length cs \<and> n \<le> i + f2_adaptive_max_stride_bins \<and>
      (if n = i + 1 then recovery_midpoint i n = None
       else adaptive_admits cs i reference step_max (n - i) \<and>
         u32_sat_sub target (unwrap_or p5 target) \<ge> (if n > i + 2 then 90 else 45) \<and>
         is_some_and (recovery_midpoint i n) (\<lambda>m. i < m \<and> m < n))"
proof -
  define requested where "requested =
    (let deficit = u32_sat_sub target (unwrap_or p5 target)
     in if deficit \<ge> 90 then f2_adaptive_max_stride_bins else if deficit \<ge> 45 then 2 else 1)"
  have le: "requested \<le> f2_adaptive_max_stride_bins"
    by (simp add: requested_def Let_def f2_adaptive_max_stride_bins_def)
  let ?s = "find (adaptive_admits cs i reference step_max) (rev [1..<requested + 1])"
  have n: "adaptive_power_bound_next_index cs i target p5 reference step_max =
    (case ?s of Some stride \<Rightarrow> i + stride | None \<Rightarrow> i + 1)"
    using assms by (simp add: adaptive_power_bound_next_index_def requested_def Let_def)
  have mid: "if k = 1 then recovery_midpoint i (i + k) = None
      else is_some_and (recovery_midpoint i (i + k)) (\<lambda>m. i < m \<and> m < i + k)" if "1 \<le> k" for k
    using that by (auto simp: recovery_midpoint_def is_some_and_def)
  show ?thesis
  proof (cases ?s)
    case None
    then show ?thesis using assms n by (simp add: recovery_midpoint_def f2_adaptive_max_stride_bins_def)
  next
    case (Some k)
    then have k: "adaptive_admits cs i reference step_max k" "1 \<le> k" "k \<le> requested"
      using find_SomeD [OF Some] by auto
    then have "i + k < length cs" by (simp add: adaptive_admits_def)
    moreover have "k = 1 \<or> u32_sat_sub target (unwrap_or p5 target) \<ge> (if i + k > i + 2 then 90 else 45)"
      using k(2,3) by (auto simp: requested_def Let_def split: if_splits)
    ultimately show ?thesis using n Some k le mid [OF k(2)] by (auto simp: Let_def)
  qed
qed

text \<open>The descent goes on only on a recovered card. After a confirmed step started with the flag down,
  the flag is up exactly when the outcome is one that retains it; and whenever the transition matrix says
  anything but abort, whatever was known before, the flag is down and the card confirmed at stock.\<close>

lemma go_on_only_when_settled:
  assumes "run_confirmed_f2_step build (real_ops v settle polls workload cx now rf) m = (r, m')"
    and "\<not> is_boot_flag_armed (mc_disk m)"
  shows "(is_boot_flag_armed (mc_disk m') \<longleftrightarrow> outcome_retains_boot_flag (sr_outcome r)) \<and>
    (f2_discovery_decision (sr_outcome r) had near \<noteq> AbortForge \<longrightarrow>
      \<not> is_boot_flag_armed (mc_disk m') \<and>
      (\<forall>i\<in>set (touched_bins rf). near_zero (ven_get_point v i (mc_gpu m'))) \<and>
      read_core_voltage_lock_mv v (mc_gpu m') = Inr None)"
proof (cases "sr_armed r")
  case True
  have flag: "is_boot_flag_armed (mc_disk m') \<longleftrightarrow> \<not> sr_boot_flag_cleared r"
    and stock: "sr_boot_flag_cleared r \<Longrightarrow> confirm_stock v (touched_bins rf) (mc_gpu m') = None"
    using real.step_settled [OF assms(1)] True by (auto simp: real.settled_def split: if_splits)
  have keep: "\<not> sr_boot_flag_cleared r \<longleftrightarrow> outcome_retains_boot_flag (sr_outcome r)"
    using step_report [OF assms(1)] True by (simp add: outcome_retains_boot_flag_def)
  have "sr_boot_flag_cleared r" if "f2_discovery_decision (sr_outcome r) had near \<noteq> AbortForge"
    using that keep by (auto simp: outcome_retains_boot_flag_def f2_discovery_decision_def)
  then show ?thesis
    using flag keep stock confirm_stock_None [of v "touched_bins rf" "mc_gpu m'"] by auto
next
  case False
  then obtain e where e: "sr_outcome r = OcArmFailed e" using real.step_settled [OF assms(1)] by auto
  obtain a m1 where a: "real_arm cx now rf m = (a, m1)" by (cases "real_arm cx now rf m")
  then obtain e' where e': "a = Inl e'"
    using False arm_flag_report [OF assms(1)] by (cases a) (auto simp: real_ops_def)
  then have "m' = snd (real_reset v rf m1)"
    using assms(1) a by (auto simp: run_confirmed_f2_step_def real_ops_def Let_def split: prod.splits)
  moreover have "flag_up m1 = flag_up m" using real_arm_flag(2) [of cx now rf m e'] a e' by simp
  ultimately have "\<not> flag_up m'" using assms(2) by simp
  then show ?thesis using e by (simp add: outcome_retains_boot_flag_def f2_discovery_decision_def)
qed

text \<open>A resumed descent never returns to a failed region. When the failure handed over is the one the log
  holds for the target, no candidate that is left is at or below a voltage at which the target is known to
  have failed, all keep their order, and a target with both ends known has nothing left to try.\<close>

lemma resume_avoids_known_bad:
  assumes "resume_f2_candidates cs good (map_option fo_anchor_mv (first_bad_for_target obs target)) bound = (from, cs')"
  shows "cs' = filter (\<lambda>c. c \<in> set cs') cs \<and>
    list_all (\<lambda>c. \<not> is_known_bad obs target (anchor_mv c)) cs' \<and>
    (first_bad_for_target obs target \<noteq> None \<and> good \<noteq> None \<longrightarrow> cs' = []) \<and>
    (first_bad_for_target obs target = None \<longrightarrow>
       cs' = filter (\<lambda>c. is_none_or good (\<lambda>g. anchor_mv c < g) \<and> is_none_or bound (\<lambda>b. anchor_mv c < b)) cs)"
proof (cases "first_bad_for_target obs target")
  case None
  then have "\<not> is_known_bad obs target mv" for mv
    by (auto simp: first_bad_for_target_def is_known_bad_def filter_empty_conv)
  then show ?thesis
    using assms None by (auto simp: resume_f2_candidates_def option_min_def Let_def list_all_iff is_none_or_def
        intro!: filter_cong split: option.splits)
next
  case (Some b)
  have "\<not> is_known_bad obs target mv" if "fo_anchor_mv b < mv" for mv
    using that Some
    by (fastforce simp: is_known_bad_def first_bad_for_target_def dest!: max_by_key_SomeD)
  then show ?thesis
    using assms Some by (auto simp: resume_f2_candidates_def list_all_iff intro!: filter_cong split: if_splits)
qed

section \<open>Witnesses\<close>

text \<open>A card limited to 1 W: 2 W is near, 0.9 W off, and 0.985 W between them keeps what came before.\<close>

lemma small_share:
  assumes "1 / 4 \<le> x" and "x \<le> 995 / 1000"
  shows "\<exists>y. f32_mul (Fin 1) (f32_round x) = Fin y \<and> \<bar>y - x\<bar> \<le> 1 / 1000"
proof -
  obtain y where y: "f32_round x = Fin y" "\<bar>y - x\<bar> \<le> x / 2 ^ 24" using f32_round_small [of x] assms by auto
  have b: "x / 2 ^ 24 \<le> 1 / 10000" using assms by simp
  then have "1 / 65536 \<le> y" "y \<le> 1" using y(2) assms by linarith+
  then obtain z where z: "f32_round y = Fin z" "\<bar>z - y\<bar> \<le> y / 2 ^ 24" using f32_round_small [of y] by auto
  have "y / 2 ^ 24 \<le> 1 / 10000" using \<open>y \<le> 1\<close> by simp
  then have "\<bar>z - x\<bar> \<le> 1 / 1000" using y(2) z(2) b by linarith
  then show ?thesis using y(1) z(1) by simp
qed

text \<open>Bins 8 mV apart under a target missed by 100 MHz: the stride is three, the fourth bin being too deep.\<close>

definition strided_candidates :: "anchored_plan list" where
  "strided_candidates = map (\<lambda>mv. blind_candidate\<lparr>ap_anchor := sample_candidate mv\<rparr>) [900, 892, 884, 876, 868]"

end
