(* ===== verification/Ledger.thy ===== *)
theory Ledger
  imports Condemnation Jsonl
begin

text \<open>
  The condemnation ledger on disk, \<open>CondemnationLedger\<close> of \<open>crates/core/src/condemnation.rs\<close>: an
  append-only file of events, read back to compute what is refused. The theorems say what the ledger
  remembers once an append succeeded, and what a line torn by a crash costs.
\<close>

section \<open>The ledger file\<close>

definition ledger_file :: string where "ledger_file = ''condemnation_ledger.jsonl''"

definition ledger_append ::
  "condemnation_event codec \<Rightarrow> condemnation_event \<Rightarrow> disk \<Rightarrow> (io_error, unit) result \<times> disk" where
  "ledger_append c e d = append_line ledger_file c e d"

definition ledger_load :: "condemnation_event codec \<Rightarrow> disk \<Rightarrow> condemnation_event list" where
  "ledger_load c d = load_lines ledger_file (\<lambda>l. dec c (trim_boms l)) d"

definition ledger_pairs :: "condemnation_event codec \<Rightarrow> disk \<Rightarrow> string \<Rightarrow> condemned_pairs" where
  "ledger_pairs c d gpu = condemned_pairs_of (ledger_load c d) gpu"

definition ledger_ready :: "condemnation_event codec \<Rightarrow> disk \<Rightarrow> bool" where
  "ledger_ready c d \<longleftrightarrow> line_codec c \<and> log_intact ledger_file d"

interpretation ledger_log: append_log "ledger_append c" "ledger_load c" "ledger_ready c" for c
  using line_log [of "\<lambda>l. dec c (trim_boms l)" c ledger_file]
  by (simp add: json_line_trim ledger_append_def [abs_def] ledger_load_def [abs_def] ledger_ready_def [abs_def])

section \<open>Properties\<close>

text \<open>C31: the ledger remembers. Once the append of a condemnation succeeded on an intact ledger, the
  candidates it condemns are refused from what is read back, after any further appends, refused ones
  among them, as long as none of them lifts the event.\<close>

theorem ledger_remembers:
  assumes "ledger_ready c d" and "fst (ledger_append c e d) = Inr ()"
    and "\<not> foreign_key e gpu" and "\<not> ev_rehabilitated e" and "\<forall>r\<in>set later. \<not> cancels r gpu e"
    and "events_small (ledger_load c d @ e # later)"
    and "ev_target_mhz e \<le> clock" and "clock < 2 ^ 31"
    and "if ev_severity e = Rigid then anchor \<le> ev_vf_bin_mv e else anchor < ev_vf_bin_mv e"
  shows "refuses (ledger_pairs c (ledger_log.add_all c later (snd (ledger_append c e d))) gpu) clock anchor"
proof -
  have load: "ledger_load c (snd (ledger_append c e d)) = ledger_load c d @ [e]"
    by (rule ledger_log.add_ok [OF assms(1,2)])
  from ledger_log.add_all_prefix [OF ledger_log.add_intact [OF assms(1), of e], of later]
  obtain ys where ys: "ledger_load c (ledger_log.add_all c later (snd (ledger_append c e d))) =
      (ledger_load c d @ [e]) @ ys" "subseq ys later" unfolding load by blast
  have sub: "set ys \<subseteq> set later" using ys(2) by (auto dest: list_emb_set)
  have "effective_for gpu (ledger_load c d @ [e]) e"
    using assms(3,4) unfolding effective_for_def by (intro exI [of _ "ledger_load c d"] exI [of _ "[]"]) simp
  then have "refuses (condemned_pairs_of ((ledger_load c d @ [e]) @ ys) gpu) clock anchor"
    by (rule condemned_kept [rotated])
      (use assms(5-9) sub in \<open>auto simp: events_small_def\<close>)
  then show ?thesis by (simp add: ledger_pairs_def ys(1))
qed

definition toy_event_codec :: "condemnation_event codec" where
  "toy_event_codec =
     \<lparr>enc = (\<lambda>e. if e = sample_event Rigid 1800 850 then Some ''{a}'' else None),
      dec = (\<lambda>s. if s = ''{a}'' then Some (sample_event Rigid 1800 850) else None)\<rparr>"

definition empty_disk :: disk where
  "empty_disk = \<lparr>files = (\<lambda>_. None), refused = (\<lambda>_. False), unreadable = (\<lambda>_. False), dir_refused = False\<rparr>"

lemma toy_event_ready: "ledger_ready toy_event_codec empty_disk"
  by (simp add: ledger_ready_def line_codec_def toy_event_codec_def json_line_def line_feed_def
      carriage_return_def log_intact_def empty_disk_def)

theorem ledger_remembers_witness:
  "refuses (ledger_pairs toy_event_codec
     (snd (ledger_append toy_event_codec (sample_event Rigid 1800 850) empty_disk)) ''g'') 1900 840"
proof -
  have e: "ledger_load toy_event_codec empty_disk = []"
    by (simp add: ledger_load_def load_lines_def fs_read_def empty_disk_def)
  have "fst (ledger_append toy_event_codec (sample_event Rigid 1800 850) empty_disk) = Inr ()"
    by (simp add: ledger_append_def append_line_def fs_append_def fs_defs toy_event_codec_def empty_disk_def)
  from ledger_remembers [OF toy_event_ready this, of "''g''" "[]" 1900 840] show ?thesis
    by (simp add: e ledger_log.add_all_def foreign_key_def events_small_def sample_event_def)
qed

text \<open>A line torn by a crash costs one more entry than the docs say: the next append succeeds, but
  its line is glued to the torn one, and unless the two happen to parse together nothing is added to
  what is read back.\<close>

lemma torn_line_swallows:
  assumes "files d ledger_file = Some (whole @ torn)" and "whole = [] \<or> last whole = line_feed"
    and "torn \<noteq> []" "line_feed \<notin> set torn"
    and "enc c e = Some line" and "json_line line"
    and "dec c (trim_boms torn) = None" and "dec c (trim_boms (torn @ line)) = None"
    and "\<not> dir_refused d" "\<not> refused d ledger_file" "\<not> unreadable d ledger_file"
  shows "fst (ledger_append c e d) = Inr () \<and>
    ledger_load c (snd (ledger_append c e d)) = ledger_load c d"
proof -
  let ?p = "\<lambda>l. dec c (trim_boms l)"
  have split: "text_lines (whole @ t) = text_lines whole @ text_lines t" for t
  proof (cases "whole = []")
    case False
    then obtain s where "whole = s @ [line_feed]" using assms(2) by (metis append_butlast_last_id)
    then show ?thesis using text_lines_append [of s t] by simp
  qed simp
  have nl: "line_feed \<notin> set line" "carriage_return \<notin> set line"
    using assms(6) by (simp_all add: json_line_def)
  have "text_lines ((torn @ line) @ [line_feed]) = [torn @ line]"
    using text_lines_line [of "torn @ line" "[]"] assms(4,6) nl
    by (auto simp: json_line_def)
  moreover have "text_lines torn = [torn]" using assms(3,4) by (simp add: text_lines_plain)
  ultimately have "parse_lines ?p (whole @ torn @ line @ [line_feed]) = parse_lines ?p (whole @ torn)"
    using assms(7,8) by (simp add: parse_lines_def split List.map_filter_def)
  then show ?thesis
    using assms by (simp add: ledger_append_def ledger_load_def load_lines_def fs_read_def append_line_def
        fs_append_def fs_write_def fs_create_dir_def)
qed

definition torn_disk :: disk where
  "torn_disk = empty_disk\<lparr>files := [ledger_file \<mapsto> (''{a}'' @ [line_feed]) @ ''{'']\<rparr>"

end
