(* ===== verification/F2Qualify.thy ===== *)
theory F2Qualify
  imports F2Discovery Ledger
begin

text \<open>
  The qualification of a candidate in \<open>crates/service/src/gpu_undervolt.rs\<close>: the patterns run on a write
  that is still active, the gate that arms, dwells and resets for every pattern, and the qualification of
  the exact pair that Apply will publish. The flag that stops a run is an argument: \<open>stop k\<close> is what the
  \<open>k\<close>-th load of it returns.
\<close>

section \<open>Margins and retries\<close>

definition margin_drop_tol_mhz :: u32 where "margin_drop_tol_mhz = 30"
definition inconclusive_retry_budget :: nat where "inconclusive_retry_budget = 2"

record margin_history =
  mh_pattern_a :: "u32 list"
  mh_pattern_b :: "u32 list"
  mh_high_fps :: "u32 list"
  mh_texture :: "u32 list"
  mh_transitions :: "u32 list"
  mh_memory :: "u32 list"

definition margin_values :: "margin_history \<Rightarrow> qualification_pattern \<Rightarrow> u32 list" where
  "margin_values h pat =
     (case pat of PatA \<Rightarrow> mh_pattern_a h | PatB \<Rightarrow> mh_pattern_b h | HighFps \<Rightarrow> mh_high_fps h
      | Texture \<Rightarrow> mh_texture h | Transitions \<Rightarrow> mh_transitions h | Memory \<Rightarrow> mh_memory h
      | Endurance \<Rightarrow> [] | TransitionShock \<Rightarrow> [] | Dx11Game \<Rightarrow> [])"

definition margin_push :: "qualification_pattern \<Rightarrow> u32 \<Rightarrow> margin_history \<Rightarrow> margin_history" where
  "margin_push pat p5 h =
     (case pat of PatA \<Rightarrow> h\<lparr>mh_pattern_a := mh_pattern_a h @ [p5]\<rparr>
      | PatB \<Rightarrow> h\<lparr>mh_pattern_b := mh_pattern_b h @ [p5]\<rparr>
      | HighFps \<Rightarrow> h\<lparr>mh_high_fps := mh_high_fps h @ [p5]\<rparr>
      | Texture \<Rightarrow> h\<lparr>mh_texture := mh_texture h @ [p5]\<rparr>
      | Transitions \<Rightarrow> h\<lparr>mh_transitions := mh_transitions h @ [p5]\<rparr>
      | Memory \<Rightarrow> h\<lparr>mh_memory := mh_memory h @ [p5]\<rparr>
      | Endurance \<Rightarrow> h | TransitionShock \<Rightarrow> h | Dx11Game \<Rightarrow> h)"

definition median_u32 :: "u32 list \<Rightarrow> u32 option" where
  "median_u32 xs =
     (if xs = [] then None
      else let s = sort xs; middle = length s div 2
           in if even (length s) then Some ((s ! (middle - 1) + s ! middle) div 2 mod 4294967296)
              else Some (s ! middle))"

definition qualification_margin_p5 :: "f2_coverage option \<Rightarrow> u32 option" where
  "qualification_margin_p5 coverage =
     (case coverage of
        None \<Rightarrow> None
      | Some cv \<Rightarrow>
          if cv_verdict cv \<noteq> QPass then None
          else median_u32 (List.map_filter pm_clock_p5
                 (filter (\<lambda>p. pm_coverage_status p = ''pass'' \<and>
                    pm_phase_name p \<in> {''heavy-spike'', ''texture-rop'', ''mixed-game'', ''power-closing''})
                   (cv_phase_metrics cv))))"

definition qualification_margin_is_clock_drop :: "u32 \<Rightarrow> u32 list \<Rightarrow> u32 \<Rightarrow> bool" where
  "qualification_margin_is_clock_drop p5 history target \<longleftrightarrow>
     u32_sat_add p5 f2_clock_drop_tol_mhz < target \<or>
     length history \<ge> 2 \<and> is_some_and (median_u32 history) (\<lambda>base. u32_sat_add p5 margin_drop_tol_mhz < base)"

definition qualification_attempt_dwell_ms :: "u64 \<Rightarrow> nat \<Rightarrow> u64" where
  "qualification_attempt_dwell_ms base retries = (if retries = 0 then base else min (base * 3) u64_max div 2)"

definition should_retry_inconclusive :: "nat \<Rightarrow> bool" where
  "should_retry_inconclusive retries \<longleftrightarrow> retries < inconclusive_retry_budget"

definition inconclusive_reason_retryable :: "string option \<Rightarrow> bool" where
  "inconclusive_reason_retryable reason \<longleftrightarrow>
     \<not> is_some_and reason (\<lambda>s. s \<in> {''boost_edge_power_bound'', ''phase_contrast_low''} \<or>
          take (length ''field_secondary_'') s = ''field_secondary_'')"

definition apply_pattern_complete :: "nat \<Rightarrow> nat \<Rightarrow> bool" where
  "apply_pattern_complete inconclusive consecutive_clean \<longleftrightarrow> inconclusive = 0 \<or> consecutive_clean \<ge> 2"

definition qualification_gate_patterns :: "nat \<Rightarrow> qualification_pattern list" where
  "qualification_gate_patterns passes = take passes required_qualification_patterns"

definition next_higher_candidate_index :: "nat \<Rightarrow> nat option" where
  "next_higher_candidate_index rejected = (if rejected = 0 then None else Some (rejected - 1))"

definition should_qualify_discovery_candidate :: "'e f2_outcome \<Rightarrow> bool \<Rightarrow> nat \<Rightarrow> bool" where
  "should_qualify_discovery_candidate oc near passes \<longleftrightarrow> oc = OcValidated \<and> \<not> near \<and> passes > 0"

definition power_above_ceiling :: "'e f2_step_report \<Rightarrow> f32 option \<Rightarrow> (f32 \<times> f32) option" where
  "power_above_ceiling r ceiling_w =
     (case opt_filter usable_power ceiling_w of
        None \<Rightarrow> None
      | Some c \<Rightarrow>
          (case max_by_key total_key
                  ((case opt_filter usable_power (sr_power_p99_w r) of Some p \<Rightarrow> [p] | None \<Rightarrow> []) @
                   (case sr_max_power_w r of Some w \<Rightarrow> [f32_of_nat w] | None \<Rightarrow> [])) of
             None \<Rightarrow> None
           | Some w \<Rightarrow> if w > c then Some (w, c) else None))"

section \<open>What a run left inconclusive\<close>

definition qualification_of_run :: "string \<Rightarrow> f2_observation \<Rightarrow> bool" where
  "qualification_of_run run ob \<longleftrightarrow> fo_run_id ob = run \<and> fo_evidence_kind ob = Qualification"

definition inconclusive_only_anchors :: "f2_observation list \<Rightarrow> string \<Rightarrow> u32 set" where
  "inconclusive_only_anchors obs run =
     (let mine = filter (qualification_of_run run) obs;
          passed = set (map fo_anchor_mv (filter is_current_qualification_pass mine));
          inconclusive = set (map fo_anchor_mv (filter (\<lambda>ob. \<not> is_current_qualification_pass ob \<and>
            fo_outcome ob = ObQualificationInconclusive) mine))
      in Set.filter (\<lambda>mv. mv \<notin> passed) inconclusive)"

fun exhausted_loop :: "f2_observation list \<Rightarrow> bool \<Rightarrow> bool" where
  "exhausted_loop [] inconclusive = inconclusive"
| "exhausted_loop (ob # obs) inconclusive =
     (if is_current_qualification_pass ob then False
      else exhausted_loop obs (inconclusive \<or> fo_outcome ob = ObQualificationInconclusive))"

definition pair_qualification_exhausted :: "f2_observation list \<Rightarrow> string \<Rightarrow> u32 \<Rightarrow> bool" where
  "pair_qualification_exhausted obs run mv =
     exhausted_loop (filter (\<lambda>ob. fo_run_id ob = run \<and> fo_anchor_mv ob = mv \<and>
       fo_evidence_kind ob = Qualification) obs) False"

definition annotate_qualification_report ::
  "qualification_strength \<Rightarrow> qualification_pattern option \<Rightarrow> u32 \<Rightarrow> u32 \<Rightarrow> 'e f2_step_report \<Rightarrow>
   'e f2_step_report" where
  "annotate_qualification_report strength pat pass_index retries r =
     (case sr_coverage r of
        None \<Rightarrow> r
      | Some cv \<Rightarrow> r\<lparr>sr_coverage := Some (cv\<lparr>cv_strength := strength, cv_pattern := pat,
          cv_pass_index := pass_index, cv_retry_count := retries\<rparr>)\<rparr>)"

definition coverage_reason :: "'e f2_step_report \<Rightarrow> string option" where
  "coverage_reason r = opt_bind (sr_coverage r) cv_reason"

section \<open>The active candidate\<close>

datatype gate_stage = ActiveStage | V8Stage | EnduranceStage

datatype gate_abort =
  GoldenMissing gate_stage
| PrecheckFailed gate_stage f2_op_error
| PersistFailed io_error
| OutcomeAborts gate_stage "f2_op_error f2_outcome"

text \<open>The flag of \<open>Aborted\<close> is \<open>retain_boot_flag\<close>.\<close>

datatype qualification_outcome =
  Qualified
| Rejected gate_stage "f2_op_error f2_outcome"
| PowerBound f32 f32
| QualInconclusive
| QualCancelled
| Aborted gate_abort bool

fun completes_clock :: "qualification_outcome \<Rightarrow> bool" where
  "completes_clock Qualified = True"
| "completes_clock (Rejected _ _) = True"
| "completes_clock QualInconclusive = True"
| "completes_clock _ = False"

definition aborting_outcome :: "'e f2_outcome \<Rightarrow> bool" where
  "aborting_outcome oc \<longleftrightarrow>
     (case oc of OcDeviceLost \<Rightarrow> True | OcResetFailed \<Rightarrow> True | OcArmFailed _ \<Rightarrow> True | OcApplyFailed _ \<Rightarrow> True
      | OcVerifyFailed \<Rightarrow> True | _ \<Rightarrow> False)"

record timed_report =
  tr_timestamp :: string
  tr_kind :: f2_evidence_kind
  tr_report :: "f2_op_error f2_step_report"

record ('x, 'g) active_run =
  ar_cursor :: "'x real_f2 \<times> 'g machine"
  ar_polls :: nat
  ar_reports :: "timed_report list"
  ar_history :: margin_history

definition apply_margin ::
  "u32 \<Rightarrow> qualification_pattern \<Rightarrow> margin_history \<Rightarrow> 'e f2_step_report \<Rightarrow>
   'e f2_step_report \<times> margin_history" where
  "apply_margin target pat h r =
     (if sr_outcome r = OcValidated
      then case qualification_margin_p5 (sr_coverage r) of
             Some p5 \<Rightarrow>
               if qualification_margin_is_clock_drop p5 (margin_values h pat) target
               then (r\<lparr>sr_outcome := OcClockDrop, sr_dwell := Some DoClockDrop, sr_validated := False\<rparr>, h)
               else (r, margin_push pat p5 h)
           | None \<Rightarrow> (r, h)
      else (r, h))"

definition active_attempt ::
  "('x, 'g) f2_env \<Rightarrow> f2_descent_cfg \<Rightarrow> f2_op_error f2_step_report \<Rightarrow> u32 \<Rightarrow> u64 \<Rightarrow> 'x render_goldens \<Rightarrow>
   qualification_pattern \<Rightarrow> nat \<Rightarrow> nat \<Rightarrow> ('x, 'g) active_run \<Rightarrow>
   f2_op_error f2_step_report \<times> ('x, 'g) active_run" where
  "active_attempt env cfg base target dwell_ms goldens pat pass_index retries a =
     (case tx_run_phase (env_ops env cfg)
             (configure_phase (qualification_attempt_dwell_ms dwell_ms retries) (V8Qualification pat goldens))
             base (ar_cursor a) of
        (r, cursor) \<Rightarrow>
          (case apply_margin target pat (ar_history a)
                  (annotate_qualification_report Fsgl4 (Some pat) pass_index retries r) of
             (r', history) \<Rightarrow>
               (r', a\<lparr>ar_cursor := cursor, ar_history := history, ar_reports := ar_reports a @
                  [\<lparr>tr_timestamp = en_now env, tr_kind = Qualification, tr_report = r'\<rparr>]\<rparr>)))"

function qualify_active_loop ::
  "('x, 'g) f2_env \<Rightarrow> f2_descent_cfg \<Rightarrow> f2_op_error f2_step_report \<Rightarrow> u32 \<Rightarrow> u64 \<Rightarrow> (nat \<Rightarrow> bool) \<Rightarrow>
   'x render_goldens \<Rightarrow> qualification_pattern list \<Rightarrow> nat \<Rightarrow> nat \<Rightarrow> ('x, 'g) active_run \<Rightarrow>
   qualification_outcome \<times> ('x, 'g) active_run" where
  "qualify_active_loop env cfg base target dwell_ms stop goldens [] pass_index retries a = (Qualified, a)"
| "qualify_active_loop env cfg base target dwell_ms stop goldens (pat # pats) pass_index retries a =
     (let a0 = a\<lparr>ar_polls := ar_polls a + 1\<rparr>
      in if stop (ar_polls a) then (QualCancelled, a0)
         else case active_attempt env cfg base target dwell_ms goldens pat pass_index retries a0 of
           (r, a1) \<Rightarrow>
             if sr_outcome r = OcValidated
             then qualify_active_loop env cfg base target dwell_ms stop goldens pats (pass_index + 1) 0 a1
             else if aborting_outcome (sr_outcome r)
             then (Aborted (OutcomeAborts ActiveStage (sr_outcome r)) (outcome_retains_boot_flag (sr_outcome r)), a1)
             else if sr_outcome r = OcInconclusive
             then (if inconclusive_reason_retryable (coverage_reason r) \<and> should_retry_inconclusive retries
                   then qualify_active_loop env cfg base target dwell_ms stop goldens (pat # pats) pass_index
                          (retries + 1) a1
                   else (QualInconclusive, a1))
             else (Rejected ActiveStage (sr_outcome r), a1))"
  by pat_completeness auto

termination
  by (relation "measures [\<lambda>(_, _, _, _, _, _, _, pats, _, _, _). length pats,
      \<lambda>(_, _, _, _, _, _, _, _, _, retries, _). inconclusive_retry_budget - retries]")
    (auto simp: should_retry_inconclusive_def)

definition qualify_active_anchored_candidate ::
  "('x, 'g) f2_env \<Rightarrow> f2_descent_cfg \<Rightarrow> f2_op_error f2_step_report \<Rightarrow> u32 \<Rightarrow> u64 \<Rightarrow> nat \<Rightarrow>
   'x render_goldens option \<Rightarrow> (nat \<Rightarrow> bool) \<Rightarrow> ('x, 'g) active_run \<Rightarrow>
   qualification_outcome \<times> ('x, 'g) active_run" where
  "qualify_active_anchored_candidate env cfg base target dwell_ms passes goldens stop a =
     (case goldens of
        None \<Rightarrow> (Aborted (GoldenMissing ActiveStage) False, a)
      | Some g \<Rightarrow> qualify_active_loop env cfg base target dwell_ms stop g (qualification_gate_patterns passes) 1 0 a)"

section \<open>Persisting the phases of a candidate\<close>

definition candidate_persist_order :: "timed_report list \<Rightarrow> bool \<Rightarrow> nat list" where
  "candidate_persist_order reports clean =
     (if \<not> clean then (if reports = [] then [] else [length reports - 1])
      else filter (\<lambda>i. tr_kind (reports ! i) = Qualification) [0..<length reports] @
           filter (\<lambda>i. tr_kind (reports ! i) = Discovery) [0..<length reports])"

definition timed_observation ::
  "('x, 'g) f2_env \<Rightarrow> obs_context \<Rightarrow> obs_context \<Rightarrow> u32 \<Rightarrow> anchored_plan \<Rightarrow> timed_report \<Rightarrow> f2_observation" where
  "timed_observation env discovery qualification target cand t =
     observation_from_anchored_step (en_confidence env)
       ((if tr_kind t = Qualification then qualification else discovery)\<lparr>oc_timestamp := tr_timestamp t\<rparr>)
       target cand (tr_report t)"

fun append_all ::
  "f2_observation codec \<Rightarrow> f2_observation list \<Rightarrow> disk \<Rightarrow> (io_error, unit) result \<times> disk" where
  "append_all c [] d = (Inr (), d)"
| "append_all c (ob # obs) d =
     (case append_observation c ob d of (Inl e, d') \<Rightarrow> (Inl e, d') | (Inr _, d') \<Rightarrow> append_all c obs d')"

definition persist_candidate_reports ::
  "('x, 'g) f2_env \<Rightarrow> obs_context \<Rightarrow> obs_context \<Rightarrow> u32 \<Rightarrow> anchored_plan \<Rightarrow> timed_report list \<Rightarrow> bool \<Rightarrow>
   disk \<Rightarrow> (io_error, nat) result \<times> disk" where
  "persist_candidate_reports env discovery qualification target cand reports clean d =
     (let order = candidate_persist_order reports clean
      in case append_all (en_observations env)
                (map (\<lambda>i. timed_observation env discovery qualification target cand (reports ! i)) order) d of
           (Inl e, d') \<Rightarrow> (Inl e, d')
         | (Inr _, d') \<Rightarrow> (Inr (length order), d'))"

section \<open>The gate\<close>

record ('x, 'g) gate_params =
  gp_env :: "('x, 'g) f2_env"
  gp_ctx :: obs_context
  gp_curve :: vf_curve
  gp_limits :: positive_offset_limits
  gp_target_mhz :: u32
  gp_candidate :: anchored_plan
  gp_dwell_ms :: u64
  gp_passes :: nat
  gp_endurance_ms :: u64
  gp_goldens :: "'x render_goldens option"
  gp_exact_apply :: bool
  gp_ceiling_w :: "f32 option"
  gp_stop :: "nat \<Rightarrow> bool"

record 'g gate_run =
  gr_machine :: "'g machine"
  gr_polls :: nat
  gr_executed :: nat

definition poll :: "'g gate_run \<Rightarrow> 'g gate_run" where
  "poll s = s\<lparr>gr_polls := gr_polls s + 1\<rparr>"

definition gate_purpose :: "('x, 'g) gate_params \<Rightarrow> qualification_pattern \<Rightarrow> 'x render_goldens \<Rightarrow> 'x f2_stress_purpose" where
  "gate_purpose p pat goldens =
     (if gp_exact_apply p then ApplyQualificationOf pat goldens else V8Qualification pat goldens)"

definition gate_cfg :: "('x, 'g) gate_params \<Rightarrow> f2_descent_cfg" where
  "gate_cfg p = descent_cfg (gp_curve p) [gp_candidate p] (gp_limits p) (gp_target_mhz p) 0"

definition gate_observation :: "('x, 'g) gate_params \<Rightarrow> 'e f2_step_report \<Rightarrow> f2_observation" where
  "gate_observation p r =
     observation_from_anchored_step (en_confidence (gp_env p)) ((gp_ctx p)\<lparr>oc_timestamp := en_now (gp_env p)\<rparr>)
       (gp_target_mhz p) (gp_candidate p) r"

text \<open>One dwell: the flag is loaded, the candidate selected, the step run and its observation appended.\<close>

definition gate_dwell ::
  "('x, 'g) gate_params \<Rightarrow> gate_stage \<Rightarrow> u64 \<Rightarrow> 'x f2_stress_purpose \<Rightarrow> qualification_pattern \<Rightarrow> nat \<Rightarrow> nat \<Rightarrow>
   'g gate_run \<Rightarrow> (qualification_outcome, f2_op_error f2_step_report) result \<times> 'g gate_run" where
  "gate_dwell p stage ms purpose pat pass_index retries s =
     (let env = gp_env p; cfg = gate_cfg p; s0 = poll s;
          cursor = configure_phase ms purpose (fresh_cursor (gp_curve p) (gp_limits p) (gp_target_mhz p),
                     gr_machine s)
      in if gp_stop p (gr_polls s) then (Inl QualCancelled, s0)
         else case mo_select (env_ops env cfg) 0 cursor of
           (Inl e, c1) \<Rightarrow> (Inl (Aborted (PrecheckFailed stage e) False), s0\<lparr>gr_machine := snd c1\<rparr>)
         | (Inr _, c1) \<Rightarrow>
             (case run_confirmed_f2_step (en_build env) (env_ops env cfg) c1 of
                (r, c2) \<Rightarrow>
                  (let r' = annotate_qualification_report Fsgl4 (Some pat) pass_index retries r; m = snd c2
                   in case append_observation (en_observations env) (gate_observation p r') (mc_disk m) of
                        (Inl e, d) \<Rightarrow>
                          (Inl (Aborted (PersistFailed e) False), s0\<lparr>gr_machine := m\<lparr>mc_disk := d\<rparr>\<rparr>)
                      | (Inr _, d) \<Rightarrow>
                          (Inr r', s0\<lparr>gr_machine := m\<lparr>mc_disk := d\<rparr>,
                             gr_executed := u64_sat_add (gr_executed s) 1\<rparr>))))"

datatype gate_verdict = GateStop qualification_outcome | GateAgain nat nat | GateNext

definition judge_gate_dwell ::
  "bool \<Rightarrow> f32 option \<Rightarrow> qualification_pattern \<Rightarrow> nat \<Rightarrow> nat \<Rightarrow> f2_op_error f2_step_report \<Rightarrow> gate_verdict" where
  "judge_gate_dwell exact ceiling_w pat retries clean r =
     (let oc = sr_outcome r;
          over = (if exact \<and> pat = Texture \<and> oc = OcValidated then power_above_ceiling r ceiling_w else None)
      in case over of
           Some (w, c) \<Rightarrow> GateStop (PowerBound w c)
         | None \<Rightarrow>
             if oc = OcValidated
             then (if exact \<and> retries > 0 \<and> \<not> apply_pattern_complete retries (clean + 1)
                   then GateAgain retries (clean + 1) else GateNext)
             else if aborting_outcome oc
             then GateStop (Aborted (OutcomeAborts V8Stage oc) (outcome_retains_boot_flag oc))
             else if oc = OcInconclusive
             then (if inconclusive_reason_retryable (coverage_reason r) \<and>
                      (if exact then should_retry_inconclusive retries else retries = 0)
                   then GateAgain (retries + 1) 0 else GateStop QualInconclusive)
             else GateStop (Rejected V8Stage oc))"

lemma judge_again:
  "judge_gate_dwell exact ceiling_w pat retries clean r = GateAgain retries' clean' \<Longrightarrow>
   (retries' = retries \<and> clean' = clean + 1 \<and> clean' < 2 \<and> 0 < retries \<and> sr_outcome r = OcValidated) \<or>
   (retries' = retries + 1 \<and> retries < 2 \<and> clean' = 0 \<and> sr_outcome r = OcInconclusive)"
  by (auto simp: judge_gate_dwell_def Let_def apply_pattern_complete_def should_retry_inconclusive_def
      inconclusive_retry_budget_def split: option.splits if_splits)

function gate_patterns ::
  "('x, 'g) gate_params \<Rightarrow> 'x render_goldens \<Rightarrow> qualification_pattern list \<Rightarrow> nat \<Rightarrow> nat \<Rightarrow> nat \<Rightarrow>
   'g gate_run \<Rightarrow> qualification_outcome option \<times> 'g gate_run" where
  "gate_patterns p goldens [] pass_index retries clean s = (None, s)"
| "gate_patterns p goldens (pat # pats) pass_index retries clean s =
     (case gate_dwell p V8Stage (gp_dwell_ms p) (gate_purpose p pat goldens) pat pass_index retries s of
        (Inl oc, s') \<Rightarrow> (Some oc, s')
      | (Inr r, s') \<Rightarrow>
          (case judge_gate_dwell (gp_exact_apply p) (gp_ceiling_w p) pat retries clean r of
             GateStop oc \<Rightarrow> (Some oc, s')
           | GateAgain retries' clean' \<Rightarrow> gate_patterns p goldens (pat # pats) pass_index retries' clean' s'
           | GateNext \<Rightarrow> gate_patterns p goldens pats (pass_index + 1) 0 0 s'))"
  by pat_completeness auto

termination
  by (relation "measures [\<lambda>(_, _, pats, _, _, _, _). length pats, \<lambda>(_, _, _, _, retries, _, _). 2 - retries,
      \<lambda>(_, _, _, _, _, clean, _). 2 - clean]")
    (auto dest: judge_again)

definition gate_endurance ::
  "('x, 'g) gate_params \<Rightarrow> 'x render_goldens \<Rightarrow> 'g gate_run \<Rightarrow> qualification_outcome \<times> 'g gate_run" where
  "gate_endurance p goldens s =
     (case gate_dwell p EnduranceStage (gp_endurance_ms p) (ApplyQualificationOf Endurance goldens) Endurance 1 0 s of
        (Inl oc, s1) \<Rightarrow> (oc, s1)
      | (Inr r, s1) \<Rightarrow>
          (let oc = sr_outcome r; s2 = poll s1
           in if gp_stop p (gr_polls s1) then (QualCancelled, s2)
              else if oc = OcValidated then (Qualified, s2)
              else if aborting_outcome oc
              then (Aborted (OutcomeAborts EnduranceStage oc) (outcome_retains_boot_flag oc), s2)
              else if oc = OcInconclusive then (QualInconclusive, s2)
              else (Rejected EnduranceStage oc, s2)))"

definition gate_anchored_candidate ::
  "('x, 'g) gate_params \<Rightarrow> 'g gate_run \<Rightarrow> qualification_outcome \<times> 'g gate_run" where
  "gate_anchored_candidate p s =
     (case gp_goldens p of
        None \<Rightarrow> (Aborted (GoldenMissing V8Stage) False, s)
      | Some goldens \<Rightarrow>
          (case gate_patterns p goldens (qualification_gate_patterns (gp_passes p)) 1 0 0 s of
             (Some oc, s') \<Rightarrow> (oc, s')
           | (None, s') \<Rightarrow> if gp_exact_apply p then gate_endurance p goldens s' else (Qualified, s')))"

section \<open>The exact pair of Apply\<close>

definition plan_power_calibration_candidate ::
  "vf_curve \<Rightarrow> u32 \<Rightarrow> u32 \<Rightarrow> i32 \<Rightarrow> positive_offset_limits \<Rightarrow> (plan_error option, anchored_plan) result" where
  "plan_power_calibration_candidate sane target apply_mv reference lims =
     (case select_exact_apply_anchor_bin sane target apply_mv of
        None \<Rightarrow> Inl None
      | Some i \<Rightarrow> (case plan_anchored sane i target reference lims of Inl e \<Rightarrow> Inl (Some e) | Inr c \<Rightarrow> Inr c))"

datatype apply_stop =
  ExactApplyQualified
| ExactApplyRejected gate_stage "f2_op_error f2_outcome"
| ExactApplyPowerCeilingExceeded f32 f32
| ExactApplyInconclusive
| ExactApplyCancelled
| ApplyPlanFailed "plan_error option"
| ApplySafetyGateRefused refusal
| ApplyAborted gate_abort

record apply_summary =
  as_qualified :: bool
  as_executed :: nat
  as_aborted :: bool
  as_cancelled :: bool
  as_retain_boot_flag :: bool
  as_stop_reason :: apply_stop

definition apply_summary_of :: "qualification_outcome \<Rightarrow> nat \<Rightarrow> apply_summary" where
  "apply_summary_of oc executed =
     (case oc of
        Qualified \<Rightarrow> \<lparr>as_qualified = True, as_executed = executed, as_aborted = False, as_cancelled = False,
          as_retain_boot_flag = False, as_stop_reason = ExactApplyQualified\<rparr>
      | Rejected stage why \<Rightarrow> \<lparr>as_qualified = False, as_executed = executed, as_aborted = False,
          as_cancelled = False, as_retain_boot_flag = False, as_stop_reason = ExactApplyRejected stage why\<rparr>
      | PowerBound w c \<Rightarrow> \<lparr>as_qualified = False, as_executed = executed, as_aborted = False,
          as_cancelled = False, as_retain_boot_flag = False, as_stop_reason = ExactApplyPowerCeilingExceeded w c\<rparr>
      | QualInconclusive \<Rightarrow> \<lparr>as_qualified = False, as_executed = executed, as_aborted = False,
          as_cancelled = False, as_retain_boot_flag = False, as_stop_reason = ExactApplyInconclusive\<rparr>
      | QualCancelled \<Rightarrow> \<lparr>as_qualified = False, as_executed = executed, as_aborted = False, as_cancelled = True,
          as_retain_boot_flag = False, as_stop_reason = ExactApplyCancelled\<rparr>
      | Aborted why retain \<Rightarrow> \<lparr>as_qualified = False, as_executed = executed, as_aborted = True,
          as_cancelled = False, as_retain_boot_flag = retain, as_stop_reason = ApplyAborted why\<rparr>)"

definition apply_refused :: "bool \<Rightarrow> apply_stop \<Rightarrow> apply_summary" where
  "apply_refused cancelled why =
     \<lparr>as_qualified = False, as_executed = 0, as_aborted = \<not> cancelled, as_cancelled = cancelled,
      as_retain_boot_flag = False, as_stop_reason = why\<rparr>"

record ('x, 'g) apply_request =
  aq_env :: "('x, 'g) f2_env"
  aq_ledger :: "condemnation_event codec"
  aq_run_id :: string
  aq_gpu_key :: string
  aq_ledger_run_scoped :: bool
  aq_sane :: vf_curve
  aq_limits :: positive_offset_limits
  aq_target_mhz :: u32
  aq_apply_mv :: u32
  aq_reference_offset_mhz :: i32
  aq_dwell_ms :: u64
  aq_endurance_ms :: u64
  aq_goldens :: "'x render_goldens option"
  aq_ceiling_w :: "f32 option"
  aq_stop :: "nat \<Rightarrow> bool"

definition request_condemned :: "('x, 'g) apply_request \<Rightarrow> disk \<Rightarrow> condemned_pairs" where
  "request_condemned q d =
     (if aq_ledger_run_scoped q
      then condemned_pairs_for_run (ledger_load (aq_ledger q) d) (aq_gpu_key q) (aq_run_id q)
      else ledger_pairs (aq_ledger q) d (aq_gpu_key q))"

definition apply_gate_params :: "('x, 'g) apply_request \<Rightarrow> anchored_plan \<Rightarrow> ('x, 'g) gate_params" where
  "apply_gate_params q cand =
     \<lparr>gp_env = aq_env q,
      gp_ctx = \<lparr>oc_run_id = aq_run_id q, oc_timestamp = en_now (aq_env q), oc_gpu_key = Some (aq_gpu_key q),
        oc_evidence_kind = ApplyQualification, oc_discovery_contract = None,
        oc_qualification_contract = Some f2_qualification_contract_version, oc_coverage = None,
        oc_mode = ApplyQualificationRun, oc_requested_start_mv = Some (aq_apply_mv q),
        oc_positive_offset_cap_mhz = abs_max_offset_mhz (aq_limits q)\<rparr>,
      gp_curve = aq_sane q, gp_limits = aq_limits q, gp_target_mhz = aq_target_mhz q, gp_candidate = cand,
      gp_dwell_ms = aq_dwell_ms q, gp_passes = length required_qualification_patterns,
      gp_endurance_ms = aq_endurance_ms q, gp_goldens = aq_goldens q, gp_exact_apply = True,
      gp_ceiling_w = aq_ceiling_w q, gp_stop = aq_stop q\<rparr>"

definition run_apply_qualification ::
  "('x, 'g) apply_request \<Rightarrow> 'g gate_run \<Rightarrow> apply_summary \<times> 'g gate_run" where
  "run_apply_qualification q s =
     (if aq_stop q (gr_polls s) then (apply_refused True ExactApplyCancelled, poll s)
      else case plan_power_calibration_candidate (aq_sane q) (aq_target_mhz q) (aq_apply_mv q)
                  (aq_reference_offset_mhz q) (aq_limits q) of
        Inl e \<Rightarrow> (apply_refused False (ApplyPlanFailed e), poll s)
      | Inr cand \<Rightarrow>
          (let d = mc_disk (gr_machine s);
               refusal = (case confirmed_f2_refusal (load_record (cx_record (en_codecs (aq_env q))) d)
                                 (is_boot_flag_armed d) (Some 1) (Some (ap_anchor cand)) (aq_limits q)
                                 (aq_target_mhz q) of
                            Some why \<Rightarrow> Some why
                          | None \<Rightarrow> ledger_refusal (request_condemned q d) (aq_target_mhz q)
                                      (po_voltage_mv (ap_anchor cand)))
           in case refusal of
                Some why \<Rightarrow> (apply_refused False (ApplySafetyGateRefused why), poll s)
              | None \<Rightarrow>
                  (case gate_anchored_candidate (apply_gate_params q cand) ((poll s)\<lparr>gr_executed := 0\<rparr>) of
                     (oc, s') \<Rightarrow> (apply_summary_of oc (gr_executed s'), s'))))"

section \<open>Lemmas on the active candidate and the persisted order\<close>

text \<open>The outcomes of a completed pattern on the active write: a few inconclusive dwells, then the pass.\<close>

definition passed_after_retries :: "nat \<Rightarrow> 'e f2_outcome list \<Rightarrow> bool" where
  "passed_after_retries budget os \<longleftrightarrow> (\<exists>k\<le>budget. os = replicate k OcInconclusive @ [OcValidated])"

lemma active_attempt_facts:
  assumes "active_attempt env cfg base target dwell_ms goldens pat k n a = (r, a')"
  shows "mc_disk (snd (ar_cursor a')) = mc_disk (snd (ar_cursor a))" and "ar_polls a' = ar_polls a"
    and "ar_reports a' = ar_reports a @ [\<lparr>tr_timestamp = en_now env, tr_kind = Qualification, tr_report = r\<rparr>]"
  using assms
  by (auto simp: active_attempt_def tx_run_phase_def env_ops_def real_multi_ops_def on_cursor_def configure_phase_def
      split: prod.splits) (metis real_flag(3) snd_conv)+

definition completed_patterns :: "nat \<Rightarrow> nat \<Rightarrow> 'e f2_step_report list \<Rightarrow> bool" where
  "completed_patterns retries n rs \<longleftrightarrow>
     (\<exists>rss. rs = concat rss \<and> length rss = n \<and>
        (case rss of [] \<Rightarrow> True
         | first # rest \<Rightarrow> passed_after_retries (inconclusive_retry_budget - retries) (map sr_outcome first) \<and>
             list_all (\<lambda>rs. passed_after_retries inconclusive_retry_budget (map sr_outcome rs)) rest))"

lemma completed_fresh:
  "completed_patterns 0 n rs \<longleftrightarrow> (\<exists>rss. rs = concat rss \<and> length rss = n \<and>
     list_all (\<lambda>rs. passed_after_retries inconclusive_retry_budget (map sr_outcome rs)) rss)"
  unfolding completed_patterns_def by (intro ex_cong) (auto split: list.split)

lemma completed_pass:
  assumes "completed_patterns 0 n rs" and "sr_outcome r = OcValidated"
  shows "completed_patterns retries (Suc n) (r # rs)"
proof -
  obtain rss where "rs = concat rss" "length rss = n"
    "list_all (\<lambda>rs. passed_after_retries inconclusive_retry_budget (map sr_outcome rs)) rss"
    using assms(1) unfolding completed_fresh by blast
  moreover have "passed_after_retries (inconclusive_retry_budget - retries) (map sr_outcome [r])"
    using assms(2) by (auto simp: passed_after_retries_def intro: exI [of _ 0])
  ultimately show ?thesis unfolding completed_patterns_def by (intro exI [of _ "[r] # rss"]) simp
qed

lemma completed_again:
  assumes "completed_patterns (retries + 1) (Suc n) rs" and "sr_outcome r = OcInconclusive"
    and "retries < inconclusive_retry_budget"
  shows "completed_patterns retries (Suc n) (r # rs)"
proof -
  obtain rss where rss: "rs = concat rss" "length rss = Suc n"
    "case rss of [] \<Rightarrow> True
     | first # rest \<Rightarrow> passed_after_retries (inconclusive_retry_budget - (retries + 1)) (map sr_outcome first) \<and>
         list_all (\<lambda>rs. passed_after_retries inconclusive_retry_budget (map sr_outcome rs)) rest"
    using assms(1) unfolding completed_patterns_def by blast
  then obtain first rest where c: "rss = first # rest" by (cases rss) auto
  then obtain j where "j \<le> inconclusive_retry_budget - (retries + 1)"
    "map sr_outcome first = replicate j OcInconclusive @ [OcValidated]"
    using rss(3) by (auto simp: passed_after_retries_def)
  then have "passed_after_retries (inconclusive_retry_budget - retries) (map sr_outcome (r # first))"
    using assms(2,3) by (auto simp: passed_after_retries_def intro!: exI [of _ "Suc j"])
  then show ?thesis
    unfolding completed_patterns_def using rss c by (intro exI [of _ "(r # first) # rest"]) simp
qed

lemma active_loop_facts:
  assumes "qualify_active_loop env cfg base target dwell_ms stop goldens pats k retries a = (oc, a')"
    and "retries \<le> inconclusive_retry_budget"
  shows "mc_disk (snd (ar_cursor a')) = mc_disk (snd (ar_cursor a)) \<and>
    (\<exists>rs. map tr_report (ar_reports a') = map tr_report (ar_reports a) @ rs \<and>
      length rs + (if pats = [] then 0 else retries) \<le> (inconclusive_retry_budget + 1) * length pats \<and>
      (oc = Qualified \<longrightarrow> completed_patterns retries (length pats) rs))"
  using assms
proof (induction env cfg base target dwell_ms stop goldens pats k retries a rule: qualify_active_loop.induct)
  case (1 env cfg base target dwell_ms stop goldens k retries a)
  then show ?case by (intro conjI exI [of _ "[]"]) (auto simp: completed_patterns_def)
next
  case (2 env cfg base target dwell_ms stop goldens pat pats k retries a)
  let ?a0 = "a\<lparr>ar_polls := ar_polls a + 1\<rparr>"
  let ?B = "inconclusive_retry_budget"
  obtain r a1 where r: "active_attempt env cfg base target dwell_ms goldens pat k retries ?a0 = (r, a1)"
    by (cases "active_attempt env cfg base target dwell_ms goldens pat k retries ?a0")
  note one = active_attempt_facts [OF r]
  have rep: "map tr_report (ar_reports a1) = map tr_report (ar_reports a) @ [r]" using one(3) by simp
  have dsk: "mc_disk (snd (ar_cursor a1)) = mc_disk (snd (ar_cursor a))" using one(1) by simp
  have room: "Suc retries \<le> (?B + 1) * length (pat # pats)" using "2.prems"(2) by simp
  consider (stopped) "a' = ?a0" "oc = QualCancelled" "stop (ar_polls a)"
    | (ended) "a' = a1" "oc \<noteq> Qualified" "\<not> stop (ar_polls a)"
    | (pass) "sr_outcome r = OcValidated" "\<not> stop (ar_polls a)"
        "qualify_active_loop env cfg base target dwell_ms stop goldens pats (k + 1) 0 a1 = (oc, a')"
    | (again) "sr_outcome r = OcInconclusive" "\<not> stop (ar_polls a)" "retries < ?B"
        "inconclusive_reason_retryable (coverage_reason r) \<and> should_retry_inconclusive retries"
        "qualify_active_loop env cfg base target dwell_ms stop goldens (pat # pats) k (retries + 1) a1 = (oc, a')"
    using "2.prems"(1) r by (auto simp: Let_def should_retry_inconclusive_def split: if_splits)
  then show ?case
  proof cases
    case stopped
    then show ?thesis using room by (intro conjI exI [of _ "[]"]) auto
  next
    case ended
    then show ?thesis using room rep dsk by (intro conjI exI [of _ "[r]"]) auto
  next
    case pass
    from "2.IH"(1) [OF refl pass(2) r [symmetric] pass(1,3)]
    obtain rs where rs: "mc_disk (snd (ar_cursor a')) = mc_disk (snd (ar_cursor a1))"
      "map tr_report (ar_reports a') = map tr_report (ar_reports a1) @ rs"
      "length rs + (if pats = [] then 0 else 0) \<le> (?B + 1) * length pats"
      "oc = Qualified \<longrightarrow> completed_patterns 0 (length pats) rs" by blast
    then show ?thesis
      using rep dsk "2.prems"(2) completed_pass [OF _ pass(1)] by (intro conjI exI [of _ "r # rs"]) auto
  next
    case again
    have le: "retries + 1 \<le> ?B" using again(3) by simp
    have no: "sr_outcome r \<noteq> OcValidated" "\<not> aborting_outcome (sr_outcome r)"
      using again(1) by (simp_all add: aborting_outcome_def)
    from "2.IH"(2) [OF refl again(2) r [symmetric] no again(1,4,5) le]
    obtain rs where rs: "mc_disk (snd (ar_cursor a')) = mc_disk (snd (ar_cursor a1))"
      "map tr_report (ar_reports a') = map tr_report (ar_reports a1) @ rs"
      "length rs + (if pat # pats = [] then 0 else retries + 1) \<le> (?B + 1) * length (pat # pats)"
      "oc = Qualified \<longrightarrow> completed_patterns (retries + 1) (length (pat # pats)) rs" by blast
    then show ?thesis
      using rep dsk completed_again [OF _ again(1,3)] by (intro conjI exI [of _ "r # rs"]) auto
  qed
qed

lemma append_all_ok:
  "append_all c obs d = (Inr (), d') \<Longrightarrow> observations_ready c d \<Longrightarrow>
     load_observations c d' = load_observations c d @ obs"
proof (induction obs arbitrary: d)
  case (Cons ob obs)
  obtain r d1 where a: "append_observation c ob d = (r, d1)" by (cases "append_observation c ob d")
  then show ?case
    using Cons obs_log.add_ok [OF Cons.prems(2), of ob] obs_log.add_intact [OF Cons.prems(2), of ob]
    by (cases r) auto
qed simp

lemma map_filter_index: "map (\<lambda>i. f (xs ! i)) (filter (\<lambda>i. P (xs ! i)) [0..<length xs]) = map f (filter P xs)"
proof -
  have "filter P xs = map (\<lambda>i. xs ! i) (filter (\<lambda>i. P (xs ! i)) [0..<length xs])"
    using filter_map [of P "\<lambda>i. xs ! i" "[0..<length xs]"] by (simp add: map_nth comp_def)
  then show ?thesis by simp
qed

text \<open>The two ways of asking for an inconclusive pair agree.\<close>

lemma exhausted_loop_iff:
  "exhausted_loop obs b \<longleftrightarrow> \<not> list_ex is_current_qualification_pass obs \<and>
     (b \<or> list_ex (\<lambda>ob. fo_outcome ob = ObQualificationInconclusive) obs)"
  by (induction obs arbitrary: b) auto

lemma exhausted_iff_inconclusive:
  "pair_qualification_exhausted obs run mv \<longleftrightarrow> mv \<in> inconclusive_only_anchors obs run"
proof -
  have pass: "fo_outcome ob = ObQualificationInconclusive \<Longrightarrow> \<not> is_current_qualification_pass ob" for ob
    by (auto simp: is_current_qualification_pass_def is_validated_def)
  show ?thesis
    by (auto simp: pair_qualification_exhausted_def exhausted_loop_iff inconclusive_only_anchors_def Let_def
        qualification_of_run_def list_ex_iff image_iff dest: pass)
qed

section \<open>One dwell of the gate\<close>

abbreviation gate_log :: "('x, 'g) gate_params \<Rightarrow> 'g gate_run \<Rightarrow> f2_observation list" where
  "gate_log p s \<equiv> load_observations (en_observations (gp_env p)) (mc_disk (gr_machine s))"

abbreviation gate_ready :: "('x, 'g) gate_params \<Rightarrow> 'g gate_run \<Rightarrow> bool" where
  "gate_ready p s \<equiv> observations_ready (en_observations (gp_env p)) (mc_disk (gr_machine s))"

abbreviation gate_flag :: "'g gate_run \<Rightarrow> bool" where
  "gate_flag s \<equiv> flag_up (gr_machine s)"

lemma annotate_simps [simp]:
  "sr_outcome (annotate_qualification_report st pat i n r) = sr_outcome r"
  "sr_power_p99_w (annotate_qualification_report st pat i n r) = sr_power_p99_w r"
  "sr_max_power_w (annotate_qualification_report st pat i n r) = sr_max_power_w r"
  by (simp_all add: annotate_qualification_report_def split: option.split)

lemma poll_simps [simp]:
  "gr_machine (poll s) = gr_machine s" "gr_executed (poll s) = gr_executed s" "gr_polls (poll s) = gr_polls s + 1"
  by (simp_all add: poll_def)

lemma env_select:
  assumes "mo_select (env_ops env cfg) i c = (res, c')"
  shows "snd c' = snd c" and "res = Inr () \<Longrightarrow> \<not> flag_up (snd c')"
  using assms real_select_ok [of "en_codecs env" cfg i c]
  by (simp_all add: env_ops_def real_multi_ops_def)

lemma env_step_flag:
  assumes "run_confirmed_f2_step build (env_ops env cfg) c = (r, c')" and "\<not> flag_up (snd c)"
  shows "flag_up (snd c') \<longleftrightarrow> outcome_retains_boot_flag (sr_outcome r)"
  using cursor.step_flag [OF assms(1) [unfolded env_ops_def] assms(2)] step_report [OF assms(1)]
  by (simp add: outcome_retains_boot_flag_def)

lemma env_step_log:
  assumes "run_confirmed_f2_step build (env_ops env cfg) c = (r, c')"
  shows "same_log (mc_disk (snd c)) (mc_disk (snd c'))"
  using log_kept.step_inv [OF assms [unfolded env_ops_def], of "mc_disk (snd c)"] by simp

text \<open>What a dwell leaves: an appended observation and the flag its outcome says, or nothing in the log.\<close>

lemma gate_dwell_Inr:
  assumes "gate_dwell p stage ms purpose pat k n s = (Inr r, s')"
  shows "gate_ready p s \<Longrightarrow> gate_ready p s' \<and> gate_log p s' = gate_log p s @ [gate_observation p r]"
    and "gate_flag s' \<longleftrightarrow> outcome_retains_boot_flag (sr_outcome r)"
    and "gr_executed s' = u64_sat_add (gr_executed s) 1" and "gr_polls s' = gr_polls s + 1"
    and "\<not> gp_stop p (gr_polls s)"
proof -
  let ?env = "gp_env p" and ?cfg = "gate_cfg p"
  let ?c = "configure_phase ms purpose (fresh_cursor (gp_curve p) (gp_limits p) (gp_target_mhz p), gr_machine s)"
  have c0: "snd ?c = gr_machine s" by (simp add: configure_phase_def)
  obtain sel c1 where sel: "mo_select (env_ops ?env ?cfg) 0 ?c = (sel, c1)"
    by (cases "mo_select (env_ops ?env ?cfg) 0 ?c")
  obtain r0 c2 where r0: "run_confirmed_f2_step (en_build ?env) (env_ops ?env ?cfg) c1 = (r0, c2)"
    by (cases "run_confirmed_f2_step (en_build ?env) (env_ops ?env ?cfg) c1")
  define r1 where "r1 = annotate_qualification_report Fsgl4 (Some pat) k n r0"
  obtain ap d where ap: "append_observation (en_observations ?env) (gate_observation p r1) (mc_disk (snd c2)) = (ap, d)"
    by (cases "append_observation (en_observations ?env) (gate_observation p r1) (mc_disk (snd c2))")
  have run: "sel = Inr () \<and> ap = Inr () \<and> r = r1 \<and>
      s' = (poll s)\<lparr>gr_machine := (snd c2)\<lparr>mc_disk := d\<rparr>, gr_executed := u64_sat_add (gr_executed s) 1\<rparr> \<and>
      \<not> gp_stop p (gr_polls s)"
    using assms sel r0 ap by (auto simp: gate_dwell_def Let_def r1_def split: if_splits sum.splits)
  have low: "\<not> flag_up (snd c1)" and same: "snd c1 = gr_machine s"
    using env_select [OF sel] run c0 by simp_all
  have flag: "flag_up (snd c2) \<longleftrightarrow> outcome_retains_boot_flag (sr_outcome r0)" by (rule env_step_flag [OF r0 low])
  have log: "same_log (mc_disk (gr_machine s)) (mc_disk (snd c2))" using env_step_log [OF r0] same by simp
  show "gate_flag s' \<longleftrightarrow> outcome_retains_boot_flag (sr_outcome r)"
    using run flag append_observation_flag [of "en_observations ?env" "gate_observation p r1" "mc_disk (snd c2)"] ap
    by (simp add: r1_def)
  show "gr_executed s' = u64_sat_add (gr_executed s) 1" "gr_polls s' = gr_polls s + 1" "\<not> gp_stop p (gr_polls s)"
    using run by simp_all
  show "gate_ready p s' \<and> gate_log p s' = gate_log p s @ [gate_observation p r]" if "gate_ready p s"
  proof -
    have ready: "observations_ready (en_observations ?env) (mc_disk (snd c2))" using that same_log_ready [OF log] by simp
    then show ?thesis
      using run ap same_log_load [OF log] obs_log.add_ok [OF ready, of "gate_observation p r1"]
        obs_log.add_intact [OF ready, of "gate_observation p r1"] by simp
  qed
qed

lemma gate_dwell_Inl:
  assumes "gate_dwell p stage ms purpose pat k n s = (Inl oc, s')"
  shows "gate_log p s' = gate_log p s" and "gate_ready p s' = gate_ready p s" and "gr_executed s' = gr_executed s"
    and "oc = QualCancelled \<or> (\<exists>e. oc = Aborted (PrecheckFailed stage e) False) \<or> (\<exists>e. oc = Aborted (PersistFailed e) False)"
    and "gr_polls s' = gr_polls s + 1"
    and "gate_flag s' \<Longrightarrow> gate_flag s \<or> (\<exists>e. oc = Aborted (PersistFailed e) False)"
proof -
  let ?env = "gp_env p" and ?cfg = "gate_cfg p"
  let ?c = "configure_phase ms purpose (fresh_cursor (gp_curve p) (gp_limits p) (gp_target_mhz p), gr_machine s)"
  have c0: "snd ?c = gr_machine s" by (simp add: configure_phase_def)
  obtain sel c1 where sel: "mo_select (env_ops ?env ?cfg) 0 ?c = (sel, c1)"
    by (cases "mo_select (env_ops ?env ?cfg) 0 ?c")
  have same: "snd c1 = gr_machine s" using env_select [OF sel] c0 by simp
  obtain r0 c2 where r0: "run_confirmed_f2_step (en_build ?env) (env_ops ?env ?cfg) c1 = (r0, c2)"
    by (cases "run_confirmed_f2_step (en_build ?env) (env_ops ?env ?cfg) c1")
  define r1 where "r1 = annotate_qualification_report Fsgl4 (Some pat) k n r0"
  obtain ap d where ap: "append_observation (en_observations ?env) (gate_observation p r1) (mc_disk (snd c2)) = (ap, d)"
    by (cases "append_observation (en_observations ?env) (gate_observation p r1) (mc_disk (snd c2))")
  consider "gp_stop p (gr_polls s)" "oc = QualCancelled" "s' = poll s"
    | e where "sel = Inl e" "oc = Aborted (PrecheckFailed stage e) False" "s' = (poll s)\<lparr>gr_machine := snd c1\<rparr>"
    | e where "ap = Inl e" "oc = Aborted (PersistFailed e) False" "s' = (poll s)\<lparr>gr_machine := (snd c2)\<lparr>mc_disk := d\<rparr>\<rparr>"
    using assms sel r0 ap by (auto simp: gate_dwell_def Let_def r1_def split: if_splits sum.splits)
  note ways = this
  have log: "same_log (mc_disk (gr_machine s)) (mc_disk (snd c2))" using env_step_log [OF r0] same by simp
  have kept: "ap = Inl e \<Longrightarrow> d = mc_disk (snd c2)" for e
    using obs_log.add_err [of "en_observations ?env" "gate_observation p r1" "mc_disk (snd c2)" e] ap by simp
  show "gate_log p s' = gate_log p s" "gate_ready p s' = gate_ready p s"
    by (rule ways; use same kept same_log_load [OF log] same_log_ready [OF log] in simp)+
  show "gr_executed s' = gr_executed s" "gr_polls s' = gr_polls s + 1" by (rule ways; simp)+
  show "oc = QualCancelled \<or> (\<exists>e. oc = Aborted (PrecheckFailed stage e) False) \<or> (\<exists>e. oc = Aborted (PersistFailed e) False)"
    by (rule ways) auto
  show "gate_flag s \<or> (\<exists>e. oc = Aborted (PersistFailed e) False)" if "gate_flag s'"
    by (rule ways) (use that same in auto)
qed

section \<open>The patterns of the gate\<close>

text \<open>
  The outcomes of one completed pattern: a single clean pass, or, after an inconclusive dwell, two clean
  passes in a row. \<open>paid\<close> says the same of what is left of a pattern with its counters.
\<close>

definition debt_paid :: "'e f2_outcome list \<Rightarrow> bool" where
  "debt_paid os \<longleftrightarrow> os = [OcValidated] \<or>
     (OcInconclusive \<in> set os \<and> (\<exists>xs. os = xs @ [OcValidated, OcValidated]))"

definition paid :: "nat \<Rightarrow> nat \<Rightarrow> 'e f2_outcome list \<Rightarrow> bool" where
  "paid retries clean os \<longleftrightarrow>
     (if retries = 0 then debt_paid os
      else (clean = 1 \<and> os = [OcValidated]) \<or> (\<exists>xs. os = xs @ [OcValidated, OcValidated]))"

text \<open>The dwells a pattern may still take.\<close>

definition dwells_left :: "nat \<Rightarrow> nat \<Rightarrow> nat" where
  "dwells_left retries clean = (if retries = 0 then 5 else 2 * (2 - retries) + (2 - clean))"

lemma paid_validated: "paid retries clean os \<Longrightarrow> os \<noteq> []"
  by (auto simp: paid_def debt_paid_def split: if_splits)

lemma judge_next:
  assumes "judge_gate_dwell True w pat retries clean r = GateNext"
  shows "sr_outcome r = OcValidated \<and> (retries = 0 \<or> 1 \<le> clean)"
  using assms by (auto simp: judge_gate_dwell_def Let_def apply_pattern_complete_def split: option.splits if_splits)

lemma paid_step:
  assumes "judge_gate_dwell True w pat retries clean r = GateAgain retries' clean'" and "paid retries' clean' os"
    and "retries = 0 \<Longrightarrow> clean = 0"
  shows "paid retries clean (sr_outcome r # os)"
  using judge_again [OF assms(1)]
proof
  assume a: "retries' = retries \<and> clean' = clean + 1 \<and> clean' < 2 \<and> 0 < retries \<and> sr_outcome r = OcValidated"
  then show ?thesis using assms(2) by (auto simp: paid_def)
next
  assume a: "retries' = retries + 1 \<and> retries < 2 \<and> clean' = 0 \<and> sr_outcome r = OcInconclusive"
  then obtain xs where "os = xs @ [OcValidated, OcValidated]" using assms(2) by (auto simp: paid_def)
  then show ?thesis using a by (auto simp: paid_def debt_paid_def)
qed

lemma u64_sat_add_Suc: "u64_sat_add n 1 \<le> n + 1"
  by (simp add: u64_sat_add_def)

text \<open>
  The report of a dwell of the gate: the executor was put to the workload of the pattern for the time of
  the stage, and a coverage in the report is labelled with the pattern.
\<close>

definition dwelt_for ::
  "('x, 'g) gate_params \<Rightarrow> 'x render_goldens \<Rightarrow> gate_stage \<Rightarrow> u64 \<Rightarrow> qualification_pattern \<Rightarrow>
   f2_op_error f2_step_report \<Rightarrow> bool" where
  "dwelt_for p goldens stage ms pat r \<longleftrightarrow>
     (\<exists>k n s s'. gate_dwell p stage ms (ApplyQualificationOf pat goldens) pat k n s = (Inr r, s')) \<and>
     (case sr_coverage r of None \<Rightarrow> True | Some cv \<Rightarrow> cv_pattern cv = Some pat)"

lemma gate_dwell_for:
  assumes "gate_dwell p stage ms (ApplyQualificationOf pat goldens) pat k n s = (Inr r, s')"
  shows "dwelt_for p goldens stage ms pat r"
proof -
  obtain r0 where "r = annotate_qualification_report Fsgl4 (Some pat) k n r0"
    using assms by (auto simp: gate_dwell_def Let_def split: if_splits sum.splits prod.splits)
  then have "case sr_coverage r of None \<Rightarrow> True | Some cv \<Rightarrow> cv_pattern cv = Some pat"
    by (auto simp: annotate_qualification_report_def split: option.splits)
  with assms show ?thesis unfolding dwelt_for_def by blast
qed

text \<open>A completed run of the patterns, and the bounds of any run.\<close>

lemma gate_patterns_done:
  assumes "gate_patterns p goldens pats k retries clean s = (None, s')" and "gp_exact_apply p" and "gate_ready p s"
    and "retries = 0 \<longrightarrow> clean = 0" and "clean < 2"
  shows "\<exists>rss :: f2_op_error f2_step_report list list. gate_ready p s' \<and> gate_log p s' = gate_log p s @ map (gate_observation p) (concat rss) \<and>
    list_all2 (\<lambda>pat rs. \<forall>r\<in>set rs. dwelt_for p goldens V8Stage (gp_dwell_ms p) pat r) pats rss \<and> (case rss of [] \<Rightarrow> True
      | rs # rest \<Rightarrow> paid retries clean (map sr_outcome rs) \<and> list_all (\<lambda>rs. debt_paid (map sr_outcome rs)) rest)"
  using assms
proof (induction p goldens pats k retries clean s rule: gate_patterns.induct)
  case (1 p goldens k retries clean s)
  then show ?case by (intro exI [of _ "[]"]) simp
next
  case (2 p goldens pat pats k retries clean s)
  let ?d = "gate_dwell p V8Stage (gp_dwell_ms p) (gate_purpose p pat goldens) pat k retries s"
  let ?j = "judge_gate_dwell True (gp_ceiling_w p) pat retries clean"
  obtain r s1 where d: "?d = (Inr r, s1)"
    using "2.prems"(1) by (cases ?d; cases "fst ?d") auto
  have one: "gate_ready p s1" "gate_log p s1 = gate_log p s @ [gate_observation p r]"
    using gate_dwell_Inr(1) [OF d] "2.prems"(3) by simp_all
  have mine: "dwelt_for p goldens V8Stage (gp_dwell_ms p) pat r"
    using gate_dwell_for [of p V8Stage "gp_dwell_ms p" pat goldens k retries s r s1] d "2.prems"(2)
    by (simp add: gate_purpose_def)
  show ?case
  proof (cases "?j r")
    case (GateStop oc)
    then show ?thesis using "2.prems"(1,2) d by simp
  next
    case (GateAgain retries' clean')
    have rec: "gate_patterns p goldens (pat # pats) k retries' clean' s1 = (None, s')"
      using "2.prems"(1,2) d GateAgain by simp
    have zero: "retries' = 0 \<longrightarrow> clean' = 0" "clean' < 2" using judge_again [OF GateAgain] by auto
    have j: "judge_gate_dwell (gp_exact_apply p) (gp_ceiling_w p) pat retries clean r = GateAgain retries' clean'"
      using GateAgain "2.prems"(2) by simp
    from "2.IH"(1) [OF d [symmetric] refl j rec "2.prems"(2) one(1) zero]
    obtain rss :: "f2_op_error f2_step_report list list" where rss: "gate_ready p s'" "gate_log p s' = gate_log p s1 @ map (gate_observation p) (concat rss)"
      "list_all2 (\<lambda>pat rs. \<forall>r\<in>set rs. dwelt_for p goldens V8Stage (gp_dwell_ms p) pat r) (pat # pats) rss" "case rss of [] \<Rightarrow> True
      | rs # rest \<Rightarrow> paid retries' clean' (map sr_outcome rs) \<and> list_all (\<lambda>rs. debt_paid (map sr_outcome rs)) rest"
      by blast
    then obtain rs rest where c: "rss = rs # rest" by (cases rss) auto
    have "paid retries clean (map sr_outcome (r # rs))"
      using paid_step [OF GateAgain, of "map sr_outcome rs"] rss(4) c "2.prems"(4) by simp
    then show ?thesis
      using rss c one mine by (intro exI [of _ "(r # rs) # rest"]) simp
  next
    case GateNext
    have rec: "gate_patterns p goldens pats (k + 1) 0 0 s1 = (None, s')"
      using "2.prems"(1,2) d GateNext by simp
    have j: "judge_gate_dwell (gp_exact_apply p) (gp_ceiling_w p) pat retries clean r = GateNext"
      using GateNext "2.prems"(2) by simp
    from "2.IH"(2) [OF d [symmetric] refl j rec "2.prems"(2) one(1)]
    obtain rss :: "f2_op_error f2_step_report list list" where rss: "gate_ready p s'" "gate_log p s' = gate_log p s1 @ map (gate_observation p) (concat rss)"
      "list_all2 (\<lambda>pat rs. \<forall>r\<in>set rs. dwelt_for p goldens V8Stage (gp_dwell_ms p) pat r) pats rss" "case rss of [] \<Rightarrow> True
      | rs # rest \<Rightarrow> paid 0 0 (map sr_outcome rs) \<and> list_all (\<lambda>rs. debt_paid (map sr_outcome rs)) rest"
      by auto
    have "list_all (\<lambda>rs. debt_paid (map sr_outcome rs)) rss"
      using rss(4) by (cases rss) (auto simp: paid_def)
    moreover have "paid retries clean [sr_outcome r]"
      using judge_next [OF GateNext] "2.prems"(4,5) by (auto simp: paid_def debt_paid_def)
    ultimately show ?thesis using rss one mine by (intro exI [of _ "[r] # rss"]) simp
  qed
qed

text \<open>What a gate says of the flag: up exactly when it aborts with it, unless an observation could not be kept.\<close>

definition flag_told :: "qualification_outcome \<Rightarrow> bool \<Rightarrow> bool" where
  "flag_told oc up \<longleftrightarrow> (\<exists>e. oc = Aborted (PersistFailed e) False) \<or> (up \<longleftrightarrow> (\<exists>why. oc = Aborted why True))"

lemma judge_stop:
  "judge_gate_dwell exact w pat retries clean r = GateStop oc \<Longrightarrow>
   flag_told oc (outcome_retains_boot_flag (sr_outcome r)) \<and> oc \<noteq> Qualified"
  by (auto simp: judge_gate_dwell_def Let_def flag_told_def outcome_retains_boot_flag_def aborting_outcome_def
      split: option.splits if_splits)

lemma judge_go:
  "judge_gate_dwell exact w pat retries clean r = GateAgain retries' clean' \<or>
   judge_gate_dwell exact w pat retries clean r = GateNext \<Longrightarrow> \<not> outcome_retains_boot_flag (sr_outcome r)"
  by (auto simp: judge_gate_dwell_def Let_def outcome_retains_boot_flag_def split: option.splits if_splits)

lemma dwell_told:
  assumes "gate_dwell p stage ms purpose pat k n s = (Inl oc, s')"
  shows "oc \<noteq> Qualified" and "\<not> gate_flag s \<Longrightarrow> flag_told oc (gate_flag s')"
  using gate_dwell_Inl(4) [OF assms(1)] gate_dwell_Inl(6) [OF assms(1)] by (auto simp: flag_told_def)

lemma gate_patterns_told:
  assumes "gate_patterns p goldens pats k retries clean s = (res, s')"
  shows "res \<noteq> Some Qualified \<and>
    (\<not> gate_flag s \<longrightarrow> (case res of None \<Rightarrow> \<not> gate_flag s' | Some oc \<Rightarrow> flag_told oc (gate_flag s')))"
  using assms
proof (induction p goldens pats k retries clean s rule: gate_patterns.induct)
  case (2 p goldens pat pats k retries clean s)
  let ?d = "gate_dwell p V8Stage (gp_dwell_ms p) (gate_purpose p pat goldens) pat k retries s"
  let ?j = "judge_gate_dwell (gp_exact_apply p) (gp_ceiling_w p) pat retries clean"
  obtain x s1 where d: "?d = (x, s1)" by (cases ?d)
  show ?case
  proof (cases x)
    case (Inl oc)
    then have dl: "?d = (Inl oc, s1)" and "res = Some oc" "s' = s1" using "2.prems"(1) d by auto
    then show ?thesis using dwell_told [OF dl] by simp
  next
    case (Inr r)
    then have d: "?d = (Inr r, s1)" using d by simp
    note flag = gate_dwell_Inr(2) [OF d]
    show ?thesis
    proof (cases "?j r")
      case (GateStop oc)
      then have "res = Some oc" "s' = s1" using "2.prems"(1) d by auto
      then show ?thesis using judge_stop [OF GateStop] flag by simp
    next
      case (GateAgain retries' clean')
      have rec: "gate_patterns p goldens (pat # pats) k retries' clean' s1 = (res, s')"
        using "2.prems"(1) d GateAgain by simp
      have "\<not> gate_flag s1" using judge_go GateAgain flag by blast
      then show ?thesis using "2.IH"(1) [OF d [symmetric] refl GateAgain rec] by simp
    next
      case GateNext
      have rec: "gate_patterns p goldens pats (k + 1) 0 0 s1 = (res, s')"
        using "2.prems"(1) d GateNext by simp
      have "\<not> gate_flag s1" using judge_go GateNext flag by blast
      then show ?thesis using "2.IH"(2) [OF d [symmetric] refl GateNext rec] by simp
    qed
  qed
qed simp

lemma gate_patterns_bound:
  assumes "gate_patterns p goldens pats k retries clean s = (res, s')" and "retries \<le> 2" and "clean < 2"
  shows "gr_polls s' \<le> gr_polls s + (if pats = [] then 0 else dwells_left retries clean + 5 * (length pats - 1)) \<and>
    gr_executed s' + gr_polls s \<le> gr_executed s + gr_polls s'"
  using assms
proof (induction p goldens pats k retries clean s rule: gate_patterns.induct)
  case (2 p goldens pat pats k retries clean s)
  let ?d = "gate_dwell p V8Stage (gp_dwell_ms p) (gate_purpose p pat goldens) pat k retries s"
  let ?j = "judge_gate_dwell (gp_exact_apply p) (gp_ceiling_w p) pat retries clean"
  have pos: "1 \<le> dwells_left retries clean" using "2.prems"(2,3) by (auto simp: dwells_left_def)
  obtain x s1 where d: "?d = (x, s1)" by (cases ?d)
  show ?case
  proof (cases x)
    case (Inl oc)
    then have dl: "?d = (Inl oc, s1)" and "s' = s1" using "2.prems"(1) d by auto
    then show ?thesis using gate_dwell_Inl(3,5) [OF dl] pos by auto
  next
    case (Inr r)
    then have d: "?d = (Inr r, s1)" using d by simp
    note one = gate_dwell_Inr(3,4) [OF d]
    have ex: "gr_executed s1 \<le> gr_executed s + 1" using one(1) u64_sat_add_Suc by metis
    show ?thesis
    proof (cases "?j r")
      case (GateStop oc)
      then have "s' = s1" using "2.prems"(1) d by auto
      then show ?thesis using one(2) ex pos by auto
    next
      case (GateAgain retries' clean')
      have rec: "gate_patterns p goldens (pat # pats) k retries' clean' s1 = (res, s')"
        using "2.prems"(1) d GateAgain by simp
      have le: "retries' \<le> 2" "clean' < 2" using judge_again [OF GateAgain] "2.prems"(2) by auto
      have less: "dwells_left retries' clean' + 1 \<le> dwells_left retries clean"
        using judge_again [OF GateAgain] "2.prems"(2,3) by (auto simp: dwells_left_def)
      show ?thesis using "2.IH"(1) [OF d [symmetric] refl GateAgain rec le] less one(2) ex by auto
    next
      case GateNext
      have rec: "gate_patterns p goldens pats (k + 1) 0 0 s1 = (res, s')"
        using "2.prems"(1) d GateNext by simp
      have "dwells_left 0 0 = 5" by (simp add: dwells_left_def)
      moreover have "5 + 5 * (length pats - 1) = 5 * length pats" if "pats \<noteq> []"
        using that by (cases pats) simp_all
      ultimately show ?thesis
        using "2.IH"(2) [OF d [symmetric] refl GateNext rec] one(2) ex pos by (cases "pats = []") auto
    qed
  qed
qed simp

lemma retain_iff: "as_retain_boot_flag (apply_summary_of oc n) \<longleftrightarrow> (\<exists>why. oc = Aborted why True)"
  by (cases oc) (auto simp: apply_summary_of_def)

lemma flag_told_retain:
  "flag_told oc up \<longleftrightarrow> (\<exists>e. oc = Aborted (PersistFailed e) False) \<or>
     (up \<longleftrightarrow> as_retain_boot_flag (apply_summary_of oc n))"
  by (simp add: flag_told_def retain_iff)

section \<open>The whole gate\<close>

lemma gate_cases:
  assumes "gate_anchored_candidate p s = (oc, s')"
  obtains (missing) "gp_goldens p = None" "oc = Aborted (GoldenMissing V8Stage) False" "s' = s"
  | (stopped) goldens where "gp_goldens p = Some goldens"
      "gate_patterns p goldens (qualification_gate_patterns (gp_passes p)) 1 0 0 s = (Some oc, s')"
  | (plain) goldens where "gp_goldens p = Some goldens" "\<not> gp_exact_apply p" "oc = Qualified"
      "gate_patterns p goldens (qualification_gate_patterns (gp_passes p)) 1 0 0 s = (None, s')"
  | (endurance) goldens s1 where "gp_goldens p = Some goldens" "gp_exact_apply p"
      "gate_patterns p goldens (qualification_gate_patterns (gp_passes p)) 1 0 0 s = (None, s1)"
      "gate_endurance p goldens s1 = (oc, s')"
  using assms by (auto simp: gate_anchored_candidate_def split: option.splits prod.splits if_splits)

lemma endurance_cases:
  assumes "gate_endurance p goldens s = (oc, s')"
  obtains (none) "gate_dwell p EnduranceStage (gp_endurance_ms p) (ApplyQualificationOf Endurance goldens) Endurance 1 0 s
      = (Inl oc, s')"
  | (dwelt) r s1 where "gate_dwell p EnduranceStage (gp_endurance_ms p) (ApplyQualificationOf Endurance goldens) Endurance 1 0 s
      = (Inr r, s1)" "s' = poll s1"
      "gp_stop p (gr_polls s1) \<and> oc = QualCancelled \<or>
       \<not> gp_stop p (gr_polls s1) \<and> flag_told oc (outcome_retains_boot_flag (sr_outcome r)) \<and>
         (oc = Qualified \<longleftrightarrow> sr_outcome r = OcValidated)"
proof -
  let ?d = "gate_dwell p EnduranceStage (gp_endurance_ms p) (ApplyQualificationOf Endurance goldens) Endurance 1 0 s"
  obtain x s1 where d: "?d = (x, s1)" by (cases ?d)
  show thesis
  proof (cases x)
    case (Inl o')
    then show thesis using assms d by (intro none) (simp add: gate_endurance_def)
  next
    case (Inr r)
    show thesis
    proof (rule dwelt)
      show "?d = (Inr r, s1)" using d Inr by simp
      show "s' = poll s1"
        using assms d Inr by (auto simp: gate_endurance_def Let_def split: if_splits)
      show "gp_stop p (gr_polls s1) \<and> oc = QualCancelled \<or>
       \<not> gp_stop p (gr_polls s1) \<and> flag_told oc (outcome_retains_boot_flag (sr_outcome r)) \<and>
         (oc = Qualified \<longleftrightarrow> sr_outcome r = OcValidated)"
        using assms d Inr
        by (auto simp: gate_endurance_def Let_def flag_told_def outcome_retains_boot_flag_def aborting_outcome_def
            split: if_splits)
    qed
  qed
qed

text \<open>A gate of an exact pair that qualifies has paid every debt.\<close>

lemma gate_qualified:
  assumes "gate_anchored_candidate p s = (Qualified, s')" and "gp_exact_apply p"
    and "observations_ready (en_observations (gp_env p)) (mc_disk (gr_machine s))"
  shows "(\<exists>goldens rss endurance. gp_goldens p = Some goldens \<and>
    load_observations (en_observations (gp_env p)) (mc_disk (gr_machine s')) =
      load_observations (en_observations (gp_env p)) (mc_disk (gr_machine s)) @
        map (gate_observation p) (concat rss @ [endurance]) \<and>
    list_all2 (\<lambda>pat rs. debt_paid (map sr_outcome rs) \<and>
        (\<forall>r\<in>set rs. dwelt_for p goldens V8Stage (gp_dwell_ms p) pat r))
      (qualification_gate_patterns (gp_passes p)) rss \<and>
    sr_outcome endurance = OcValidated \<and>
    dwelt_for p goldens EnduranceStage (gp_endurance_ms p) Endurance endurance) \<and>
    \<not> is_boot_flag_armed (mc_disk (gr_machine s'))"
  using assms(1)
proof (cases rule: gate_cases)
  case (stopped goldens)
  then show ?thesis using gate_patterns_told by blast
next
  case (endurance goldens s1)
  let ?pats = "qualification_gate_patterns (gp_passes p)"
  obtain rss :: "f2_op_error f2_step_report list list" where rss: "gate_ready p s1"
    "gate_log p s1 = gate_log p s @ map (gate_observation p) (concat rss)"
    "list_all2 (\<lambda>pat rs. \<forall>r\<in>set rs. dwelt_for p goldens V8Stage (gp_dwell_ms p) pat r) ?pats rss"
    "case rss of [] \<Rightarrow> True
      | rs # rest \<Rightarrow> paid 0 0 (map sr_outcome rs) \<and> list_all (\<lambda>rs. debt_paid (map sr_outcome rs)) rest"
    using gate_patterns_done [OF endurance(3) assms(2,3)] by auto
  have "list_all (\<lambda>rs. debt_paid (map sr_outcome rs)) rss" using rss(4) by (cases rss) (auto simp: paid_def)
  then have all: "list_all2 (\<lambda>pat rs. debt_paid (map sr_outcome rs) \<and>
      (\<forall>r\<in>set rs. dwelt_for p goldens V8Stage (gp_dwell_ms p) pat r)) ?pats rss"
    using rss(3) by (auto simp: list_all2_conv_all_nth list_all_length)
  show ?thesis
    using endurance(4)
  proof (cases rule: endurance_cases)
    case none
    then show ?thesis using gate_dwell_Inl(4) [OF none] by auto
  next
    case (dwelt r s2)
    then have ok: "sr_outcome r = OcValidated" by auto
    note d = gate_dwell_Inr(1,2) [OF dwelt(1)]
    have "gate_log p s' = gate_log p s @ map (gate_observation p) (concat rss @ [r])"
      using d(1) [OF rss(1)] dwelt(2) rss(2) by simp
    moreover have "\<not> gate_flag s'" using d(2) dwelt(2) ok by (simp add: outcome_retains_boot_flag_def)
    ultimately show ?thesis using all ok gate_dwell_for [OF dwelt(1)] endurance(1) by blast
  qed
qed (use assms(2) in auto)

section \<open>Properties\<close>

text \<open>C20: a pair qualifies for Apply only admitted and with its debt paid. When the qualification of an exact
  pair says qualified, the planner produced its candidate; neither Safe Mode nor an armed boot flag stood
  against it, the crash streak was below the threshold, the blacklist did not cover it and no condemnation
  refused it; and the log has grown by one observation per dwell and nothing else: for each required
  pattern, in order, dwells under the workload of that pattern which are either a single clean pass or,
  once one was inconclusive, end in two clean passes in a row; then the pass of the dwell under the
  Endurance workload. The boot flag is down.\<close>

theorem apply_qualified_debt_paid:
  assumes "run_apply_qualification q s = (summary, s')" and "as_qualified summary"
    and "observations_ready (en_observations (aq_env q)) (mc_disk (gr_machine s))"
    and "r = load_record (cx_record (en_codecs (aq_env q))) (mc_disk (gr_machine s))"
  shows "\<exists>cand goldens rss endurance.
    plan_power_calibration_candidate (aq_sane q) (aq_target_mhz q) (aq_apply_mv q) (aq_reference_offset_mhz q)
      (aq_limits q) = Inr cand \<and>
    \<not> safe_mode r \<and> \<not> is_boot_flag_armed (mc_disk (gr_machine s)) \<and>
    consecutive_crashes r < safe_mode_crash_threshold \<and>
    \<not> candidate_blacklisted r (aq_target_mhz q) (ap_anchor cand) \<and>
    \<not> refuses (request_condemned q (mc_disk (gr_machine s))) (aq_target_mhz q) (po_voltage_mv (ap_anchor cand)) \<and>
    load_observations (en_observations (aq_env q)) (mc_disk (gr_machine s')) =
      load_observations (en_observations (aq_env q)) (mc_disk (gr_machine s)) @
        map (gate_observation (apply_gate_params q cand)) (concat rss @ [endurance]) \<and>
    aq_goldens q = Some goldens \<and>
    list_all2 (\<lambda>pat rs. debt_paid (map sr_outcome rs) \<and>
        (\<forall>r\<in>set rs. dwelt_for (apply_gate_params q cand) goldens V8Stage (aq_dwell_ms q) pat r))
      required_qualification_patterns rss \<and>
    sr_outcome endurance = OcValidated \<and>
    dwelt_for (apply_gate_params q cand) goldens EnduranceStage (aq_endurance_ms q) Endurance endurance \<and>
    \<not> is_boot_flag_armed (mc_disk (gr_machine s'))"
proof -
  have no: "\<not> as_qualified (apply_refused b why)" for b why by (simp add: apply_refused_def)
  obtain cand oc s1 where plan: "plan_power_calibration_candidate (aq_sane q) (aq_target_mhz q) (aq_apply_mv q)
      (aq_reference_offset_mhz q) (aq_limits q) = Inr cand"
    and free: "ledger_refusal (request_condemned q (mc_disk (gr_machine s))) (aq_target_mhz q)
      (po_voltage_mv (ap_anchor cand)) = None"
    and pre: "confirmed_f2_refusal r (is_boot_flag_armed (mc_disk (gr_machine s))) (Some 1) (Some (ap_anchor cand))
      (aq_limits q) (aq_target_mhz q) = None"
    and gate: "gate_anchored_candidate (apply_gate_params q cand) ((poll s)\<lparr>gr_executed := 0\<rparr>) = (oc, s')"
    and sum: "summary = apply_summary_of oc (gr_executed s')"
    using assms(1,2,4) no
    by (auto simp: run_apply_qualification_def Let_def split: if_splits sum.splits option.splits prod.splits)
  have oc: "oc = Qualified" using assms(2) sum by (cases oc) (simp_all add: apply_summary_of_def)
  have p: "gp_exact_apply (apply_gate_params q cand)" "gp_env (apply_gate_params q cand) = aq_env q"
    "qualification_gate_patterns (gp_passes (apply_gate_params q cand)) = required_qualification_patterns"
    "gp_goldens (apply_gate_params q cand) = aq_goldens q" "gp_dwell_ms (apply_gate_params q cand) = aq_dwell_ms q"
    "gp_endurance_ms (apply_gate_params q cand) = aq_endurance_ms q"
    by (simp_all add: apply_gate_params_def qualification_gate_patterns_def)
  have start: "mc_disk (gr_machine ((poll s)\<lparr>gr_executed := 0\<rparr>)) = mc_disk (gr_machine s)" by simp
  have ready: "gate_ready (apply_gate_params q cand) ((poll s)\<lparr>gr_executed := 0\<rparr>)" using assms(3) by (simp add: p)
  have admitted: "\<not> safe_mode r \<and> \<not> is_boot_flag_armed (mc_disk (gr_machine s)) \<and>
      consecutive_crashes r < safe_mode_crash_threshold \<and>
      \<not> candidate_blacklisted r (aq_target_mhz q) (ap_anchor cand)"
    using pre unfolding preflight_exact by (simp add: safe_mode_crash_threshold_def)
  have "\<not> refuses (request_condemned q (mc_disk (gr_machine s))) (aq_target_mhz q) (po_voltage_mv (ap_anchor cand))"
    using free by (auto simp: ledger_refusal_def split: if_splits)
  with gate_qualified [OF gate [unfolded oc] p(1) ready] plan admitted show ?thesis
    unfolding p start by blast
qed

text \<open>C29: a gate comes to an end, whatever the workloads do: it loads the stop flag and dwells at most five
  times for each required pattern, and for the Endurance soak once more.\<close>

theorem gate_terminates_in_bounds:
  "case gate_anchored_candidate p s of (oc, s') \<Rightarrow>
     gr_executed s' \<le> gr_executed s + (5 * length (qualification_gate_patterns (gp_passes p)) + 1) \<and>
     gr_polls s' \<le> gr_polls s + (5 * length (qualification_gate_patterns (gp_passes p)) + 2)"
proof -
  let ?n = "length (qualification_gate_patterns (gp_passes p))"
  obtain oc s' where g: "gate_anchored_candidate p s = (oc, s')" by (cases "gate_anchored_candidate p s")
  have left: "dwells_left 0 0 = 5" by (simp add: dwells_left_def)
  have pats: "gr_polls s1 \<le> gr_polls s + 5 * ?n \<and> gr_executed s1 + gr_polls s \<le> gr_executed s + gr_polls s1"
    if "gate_patterns p goldens (qualification_gate_patterns (gp_passes p)) 1 0 0 s = (res, s1)" for goldens res s1
    using gate_patterns_bound [OF that] left by (cases "qualification_gate_patterns (gp_passes p)") auto
  have "gr_executed s' \<le> gr_executed s + (5 * ?n + 1) \<and> gr_polls s' \<le> gr_polls s + (5 * ?n + 2)"
    using g
  proof (cases rule: gate_cases)
    case (endurance goldens s1)
    show ?thesis
      using endurance(4)
    proof (cases rule: endurance_cases)
      case none
      then show ?thesis using gate_dwell_Inl(3,5) [OF none] pats [OF endurance(3)] by auto
    next
      case (dwelt r s2)
      then show ?thesis
        using gate_dwell_Inr(3,4) [OF dwelt(1)] pats [OF endurance(3)] u64_sat_add_Suc [of "gr_executed s1"] by auto
    qed
  qed (use pats in fastforce)+
  then show ?thesis by (simp add: g)
qed

text \<open>What the summary of an Apply qualification says of the boot flag. Started with the flag down, a gate
  that was not stopped after its Endurance dwell leaves the flag up exactly when the summary retains it, as
  long as the observation could be kept. A run that is stopped just after the Endurance dwell lost the card
  is reported as a plain cancellation that retains nothing, though the flag stands.\<close>

lemma summary_tells_flag:
  assumes "gate_anchored_candidate p s = (oc, s')" and "\<not> is_boot_flag_armed (mc_disk (gr_machine s))"
    and "observations_ready (en_observations (gp_env p)) (mc_disk (gr_machine s))"
  shows "(is_boot_flag_armed (mc_disk (gr_machine s')) \<longleftrightarrow> as_retain_boot_flag (apply_summary_of oc n)) \<or>
    (\<exists>e. oc = Aborted (PersistFailed e) False) \<or>
    oc = QualCancelled \<and> as_cancelled (apply_summary_of oc n) \<and> is_boot_flag_armed (mc_disk (gr_machine s')) \<and>
      gp_exact_apply p \<and> gp_stop p (gr_polls s' - 1) \<and>
      fo_outcome (last (load_observations (en_observations (gp_env p)) (mc_disk (gr_machine s')))) \<in>
        {ObDeviceLost, ObResetFailed}"
  using assms(1)
proof (cases rule: gate_cases)
  case missing
  then show ?thesis using assms(2) by (simp add: apply_summary_of_def)
next
  case (stopped goldens)
  then show ?thesis using gate_patterns_told [OF stopped(2)] assms(2) by (auto simp: flag_told_retain [of _ _ n])
next
  case (plain goldens)
  then show ?thesis using gate_patterns_told [OF plain(4)] assms(2) by (simp add: apply_summary_of_def)
next
  case (endurance goldens s1)
  have low: "\<not> gate_flag s1" using gate_patterns_told [OF endurance(3)] assms(2) by simp
  obtain rss :: "f2_op_error f2_step_report list list" where ready: "gate_ready p s1"
    using gate_patterns_done [OF endurance(3,2) assms(3)] by auto
  show ?thesis
    using endurance(4)
  proof (cases rule: endurance_cases)
    case none
    then show ?thesis using dwell_told(2) [OF none low] by (auto simp: flag_told_retain [of _ _ n])
  next
    case (dwelt r s2)
    note d = gate_dwell_Inr(1,2,5) [OF dwelt(1)]
    have "fo_outcome (gate_observation p r) \<in> {ObDeviceLost, ObResetFailed} \<longleftrightarrow> outcome_retains_boot_flag (sr_outcome r)"
      by (cases "sr_outcome r") (simp_all add: gate_observation_def observation_outcome map_outcome_def
          outcome_retains_boot_flag_def)
    then show ?thesis
      using dwelt(2,3) d(1) [OF ready] d(2) endurance(2)
      by (cases "outcome_retains_boot_flag (sr_outcome r)")
        (auto simp: flag_told_retain [of _ _ n] apply_summary_of_def)
  qed
qed

text \<open>The qualification of an active candidate touches nothing but the card. Whatever the workloads do, the
  disk is left as it was, the boot flag with it, at most three dwells are taken for each pattern, every one is
  reported, and the outcome is qualified only when each pattern in turn passed after at most two inconclusive
  dwells of its own.\<close>

lemma active_qualification_shape:
  "case qualify_active_anchored_candidate env cfg base target dwell_ms passes goldens stop a of (oc, a') \<Rightarrow>
     mc_disk (snd (ar_cursor a')) = mc_disk (snd (ar_cursor a)) \<and>
     (\<exists>rs. map tr_report (ar_reports a') = map tr_report (ar_reports a) @ rs \<and>
       length rs \<le> 3 * length (qualification_gate_patterns passes) \<and>
       (if oc = Qualified
        then \<exists>rss. rs = concat rss \<and> length rss = length (qualification_gate_patterns passes) \<and>
          list_all (\<lambda>rs. passed_after_retries 2 (map sr_outcome rs)) rss
        else True))"
proof (cases goldens)
  case (Some g)
  obtain oc a' where run: "qualify_active_loop env cfg base target dwell_ms stop g (qualification_gate_patterns passes) 1 0 a
      = (oc, a')"
    by (metis surj_pair)
  show ?thesis
    using active_loop_facts [OF run] unfolding qualify_active_anchored_candidate_def Some option.case run prod.case
    by (auto simp: completed_fresh inconclusive_retry_budget_def)
qed (simp add: qualify_active_anchored_candidate_def)

text \<open>The phases of a candidate are persisted in an order that never shows a discovery without its
  qualifications. After a clean cleanup the log has grown by the qualification phases in order and then the
  discovery ones; after one that was not clean, by the last phase alone.\<close>

lemma persisted_in_order:
  assumes "persist_candidate_reports env discovery qualification target cand reports clean d = (Inr n, d')"
    and "observations_ready (en_observations env) d"
  shows "load_observations (en_observations env) d' = load_observations (en_observations env) d @
      map (timed_observation env discovery qualification target cand)
        (if clean then filter (\<lambda>t. tr_kind t = Qualification) reports @ filter (\<lambda>t. tr_kind t = Discovery) reports
         else if reports = [] then [] else [last reports])"
proof -
  let ?order = "candidate_persist_order reports clean"
  let ?obs = "map (\<lambda>i. timed_observation env discovery qualification target cand (reports ! i)) ?order"
  have "append_all (en_observations env) ?obs d = (Inr (), d')"
    using assms(1) by (auto simp: persist_candidate_reports_def Let_def split: prod.splits sum.splits)
  then have "load_observations (en_observations env) d' = load_observations (en_observations env) d @ ?obs"
    using append_all_ok assms(2) by blast
  moreover have "?obs = map (timed_observation env discovery qualification target cand)
      (if clean then filter (\<lambda>t. tr_kind t = Qualification) reports @ filter (\<lambda>t. tr_kind t = Discovery) reports
       else if reports = [] then [] else [last reports])"
    using map_filter_index [of "timed_observation env discovery qualification target cand" reports
        "\<lambda>t. tr_kind t = Qualification"]
      map_filter_index [of "timed_observation env discovery qualification target cand" reports
        "\<lambda>t. tr_kind t = Discovery"]
    by (simp add: candidate_persist_order_def last_conv_nth)
  ultimately show ?thesis by simp
qed

section \<open>Witnesses\<close>

definition bench_goldens :: "unit render_goldens" where 
  "bench_goldens =
     \<lparr>rg_power = 0, rg_boost = 0, rg_texrop = 0, rg_cadence = 0, rg_geometry = 0, rg_stream = 0,
      rg_stream_frame_reference_ms = 0, rg_boost_frame_reference_us = 0, rg_dx11 = ()\<rparr>"


text \<open>
  The card of the earlier witnesses behind a disk with any other files, the plan of 1900 MHz at 850 mV and a
  workload that reports a covered, stable dwell.
\<close>

definition bench_machine :: "(string \<rightharpoonup> string) \<Rightarrow> toy_card machine" where
  "bench_machine fl = \<lparr>mc_disk = toy_disk\<lparr>files := fl\<rparr>, mc_gpu = stock_card, mc_timers = []\<rparr>"

definition bench_dwell :: single_dwell where
  "bench_dwell = toy_dwell\<lparr>sd_coverage := Some (sample_coverage Texture)\<rparr>"

definition bench_env :: "f2_observation codec \<Rightarrow> (unit, toy_card) f2_env" where
  "bench_env c = (toy_env c)\<lparr>en_workload := \<lambda>_ _ g. (bench_dwell, g)\<rparr>"

definition bench_plan :: anchored_plan where
  "bench_plan = (case plan_anchored toy_curve 6 1900 0 (hardware_limits toy_curve 1950) of Inr p \<Rightarrow> p | Inl _ \<Rightarrow> blind_candidate)"

definition bench_cfg :: f2_descent_cfg where
  "bench_cfg = descent_cfg toy_curve [bench_plan] (hardware_limits toy_curve 1950) 1900 0"

abbreviation quiet_files :: "(string \<rightharpoonup> string) \<Rightarrow> bool" where
  "quiet_files fl \<equiv> fl boot_flag_file = None \<and> fl record_file = None"

lemma bench_plan_facts:
  "plan_anchored toy_curve 6 1900 0 (hardware_limits toy_curve 1950) = Inr bench_plan"
  "ap_entries bench_plan = map (\<lambda>(i, mv, mhz). \<lparr>ab_index = i, ab_voltage_mv = mv, ab_base_mhz = mhz,
     ab_offset_mhz = (if i = 6 then 100 else if i = 9 then - 50 else 0),
     ab_effective_mhz = (if i = 6 \<or> i = 9 then 1900 else mhz),
     ab_role = (if i = 6 then Anchor else if i > 6 then CappedAbove else ElasticBelow)\<rparr>) toy_curve"
  "ap_anchor bench_plan = \<lparr>po_index = 6, po_voltage_mv = 850, po_base_mhz = 1800, po_offset_mhz = 100,
     po_prev_offset_mhz = 0, po_step_delta_mhz = 100, po_effective_mhz = 1900\<rparr>"
  "ap_target_mhz bench_plan = 1900"
proof -
  obtain plan where pl: "plan_anchored toy_curve 6 1900 0 (hardware_limits toy_curve 1950) = Inr plan"
    "ap_entries plan = map (\<lambda>(i, mv, mhz). \<lparr>ab_index = i, ab_voltage_mv = mv, ab_base_mhz = mhz,
       ab_offset_mhz = (if i = 6 then 100 else if i = 9 then - 50 else 0),
       ab_effective_mhz = (if i = 6 \<or> i = 9 then 1900 else mhz),
       ab_role = (if i = 6 then Anchor else if i > 6 then CappedAbove else ElasticBelow)\<rparr>) toy_curve"
    "ap_target_mhz plan = 1900"
    by (rule toy_plan)
  have "plan_bounded_positive_offset toy_curve 6 1900 0 (hardware_limits toy_curve 1950) =
    Inr \<lparr>po_index = 6, po_voltage_mv = 850, po_base_mhz = 1800, po_offset_mhz = 100,
     po_prev_offset_mhz = 0, po_step_delta_mhz = 100, po_effective_mhz = 1900\<rparr>"
    unfolding toy_limits
    by (simp add: plan_bounded_positive_offset_def toy_curve_def is_sane_base_curve_def is_sane_base_point_def
        is_i32_def as_u32_def Let_def)
  then have "ap_anchor plan = \<lparr>po_index = 6, po_voltage_mv = 850, po_base_mhz = 1800, po_offset_mhz = 100,
     po_prev_offset_mhz = 0, po_step_delta_mhz = 100, po_effective_mhz = 1900\<rparr>"
    using plan_anchored_Inr [OF pl(1)] by simp
  then show "plan_anchored toy_curve 6 1900 0 (hardware_limits toy_curve 1950) = Inr bench_plan"
    "ap_entries bench_plan = map (\<lambda>(i, mv, mhz). \<lparr>ab_index = i, ab_voltage_mv = mv, ab_base_mhz = mhz,
       ab_offset_mhz = (if i = 6 then 100 else if i = 9 then - 50 else 0),
       ab_effective_mhz = (if i = 6 \<or> i = 9 then 1900 else mhz),
       ab_role = (if i = 6 then Anchor else if i > 6 then CappedAbove else ElasticBelow)\<rparr>) toy_curve"
    "ap_anchor bench_plan = \<lparr>po_index = 6, po_voltage_mv = 850, po_base_mhz = 1800, po_offset_mhz = 100,
     po_prev_offset_mhz = 0, po_step_delta_mhz = 100, po_effective_mhz = 1900\<rparr>"
    "ap_target_mhz bench_plan = 1900"
    using pl by (simp_all add: bench_plan_def)
qed

definition bench_executor :: "u64 \<Rightarrow> unit f2_stress_purpose \<Rightarrow> unit real_f2" where
  "bench_executor ms purpose =
     (fresh_cursor toy_curve (hardware_limits toy_curve 1950) 1900)
       \<lparr>rf_candidate := ap_anchor bench_plan, rf_anchored := Some bench_plan, rf_dwell_ms := ms, rf_purpose := purpose\<rparr>"

lemma bench_select:
  assumes "quiet_files fl"
  shows "real_select toy_codecs bench_cfg 0 (configure_phase ms purpose
      (fresh_cursor toy_curve (hardware_limits toy_curve 1950) 1900, bench_machine fl)) =
    (Inr (), bench_executor ms purpose, bench_machine fl)"
  using assms
  by (simp add: real_select_def bench_cfg_def descent_cfg_def bench_machine_def toy_disk_def load_record_def fs_read_def
      default_record_def is_boot_flag_armed_def fs_exists_def candidate_blacklisted_def is_blacklisted_def
      field_pair_blacklisted_def field_floor_refuses_def field_vf_floor_mv_def field_points_def
      List.map_filter_def envelope_at_def running_envelope_def bench_executor_def configure_phase_def Let_def)
    (simp add: fresh_cursor_def chained_prev_offset_def)

abbreviation bench_armed :: "(string \<rightharpoonup> string) \<Rightarrow> toy_card \<Rightarrow> toy_card machine" where
  "bench_armed fl g \<equiv> \<lparr>mc_disk = toy_disk\<lparr>files := fl(boot_flag_file \<mapsto> ''f'')\<rparr>, mc_gpu = g, mc_timers = []\<rparr>"

lemma bench_arm: "real_arm toy_codecs now rf (bench_machine fl) = (Inr (), bench_armed fl stock_card)"
  by (simp add: real_arm_def lift_disk_def bench_machine_def toy_disk_def toy_codecs_def store_defs fs_defs)

definition raised :: "usize \<Rightarrow> i32" where
  "raised = (\<lambda>_. 0)(0 := 0, 1 := 0, 2 := 0, 3 := 0, 4 := 0, 5 := 0, 6 := 100000, 7 := 0, 8 := 0, 9 := (- 50000 :: int))"

lemma bench_write:
  "real_write (toy_vendor False) (bench_executor ms purpose) (\<lambda>_. 0, l) = (Inr (), raised, l)"
proof -
  have "apply_anchored (ven_set_point (toy_vendor False)) toy_curve 6 1900 0 (hardware_limits toy_curve 1950) (\<lambda>_. 0, l)
      = (Inr bench_plan, (raised, l))"
    unfolding apply_anchored_def bench_plan_facts(1)
    by (simp add: bench_plan_facts Let_def toy_limits) (simp add: toy_curve_def toy_vendor_def i32_mul_def is_i32_def
        raised_def fun_eq_iff)
  then show ?thesis
    by (simp add: real_write_def rf_plan_def bench_executor_def fresh_cursor_def bench_plan_facts)
qed

lemma bench_apply:
  "real_apply (toy_vendor False) (\<lambda>g. g) 20 (bench_executor ms purpose) (bench_armed fl stock_card) =
     (Inr (), bench_armed fl (raised, 850000))"
proof -
  have "po_voltage_mv (rf_candidate (bench_executor ms purpose)) = 850" "rf_target_mhz (bench_executor ms purpose) = 1900"
    by (simp_all add: bench_executor_def bench_plan_facts fresh_cursor_def)
  moreover have "lock_core_clock_max_mhz (toy_vendor False) 1900 g = (Inr (), g)" for g
    by (simp add: lock_core_clock_max_mhz_def drv_of_def toy_vendor_def)
  ultimately show ?thesis by (simp add: real_apply_def stock_card_def toy_lock bench_write lift_gpu_def)
qed

lemma bench_verify:
  "real_verify (toy_vendor False) (bench_executor ms purpose) (bench_armed fl (raised, l)) =
     (RaiseVerified, bench_armed fl (raised, l))"
proof -
  have o: "observe_plan (ven_get_point (toy_vendor False)) bench_plan (raised, l) =
      [(0, Some 0), (1, Some 0), (2, Some 0), (3, Some 0), (4, Some 0), (5, Some 0),
       (6, Some 100), (7, Some 0), (8, Some 0), (9, Some (- 50))]"
    by (simp add: observe_plan_def bench_plan_facts toy_curve_def toy_vendor_def raised_def is_i32_def
        signed_divide_int_def)
  have "verify_anchored bench_plan (observe_plan (ven_get_point (toy_vendor False)) bench_plan (raised, l)) 15 =
      AnchoredRaiseVerified"
    unfolding o
    by (simp add: verify_anchored_def bench_plan_facts observed_at_def opt_bind_def verify_positive_offset_def
        is_i32_def Let_def toy_curve_def)
  then show ?thesis
    by (simp add: real_verify_def rf_plan_def bench_executor_def fresh_cursor_def f2_verify_tol_mhz_def
        gate_of_anchored_def)
qed

lemma bench_real_dwell:
  "real_dwell (\<lambda>_ _ g. (bench_dwell, g)) (bench_executor ms purpose) m = (dwell_result_of DoStable bench_dwell, m)"
  by (cases purpose) (simp_all add: real_dwell_def bench_executor_def classify_f2_stress_dwell_def
      enforce_voltage_authority_def bench_dwell_def toy_dwell_def f2_clock_ceiling_tol_mhz_def continuous_apply_def
      held_clock_def f2_clock_drop_tol_mhz_def f2_voltage_authority_min_samples_def f2_voltage_ceiling_tol_mv_def
      bench_plan_facts fresh_cursor_def sample_coverage_def u_arith)

lemma bench_reset:
  "real_reset (toy_vendor False) (bench_executor ms purpose) (bench_armed fl (raised, l)) =
     (Inr (), bench_armed fl stock_card)"
proof -
  have t: "touched_bins (bench_executor ms purpose) = [0, 1, 2, 3, 4, 5, 6, 7, 8, 9]"
    by (simp add: touched_bins_def rf_plan_def bench_executor_def fresh_cursor_def bench_plan_facts toy_curve_def)
  have "clear_bins raised = (\<lambda>_. 0)" by (simp add: clear_bins_def raised_def fun_eq_iff)
  then have s: "reset_to_stock (toy_vendor False) (raised, l) = stock_card"
    by (simp add: toy_reset_to_stock stock_card_def)
  have "confirm_stock (toy_vendor False) (touched_bins (bench_executor ms purpose)) stock_card = None"
    unfolding t
    by (simp add: confirm_stock_def toy_vendor_def stock_card_def is_i32_def read_core_voltage_lock_mv_def
        read_core_voltage_locks_def)
  then show ?thesis by (simp add: real_reset_def s Let_def)
qed

lemma bench_clear:
  assumes "quiet_files fl"
  shows "real_clear (bench_armed fl stock_card) = (Inr (), bench_machine fl)"
  using assms
  by (simp add: real_clear_def lift_disk_def bench_machine_def toy_disk_def store_defs fs_defs fun_upd_idem)

definition bench_report :: "f2_op_error f2_step_report" where
  "bench_report =
     (populate_f2_dwell_report
        ((empty_f2_step_report sample_provenance)\<lparr>sr_armed := True, sr_applied := True, sr_verify := Some RaiseVerified\<rparr>)
        (dwell_result_of DoStable bench_dwell))
      \<lparr>sr_reset_ok := Some True, sr_boot_flag_cleared := True, sr_validated := True\<rparr>"

lemma dr_outcome_of [simp]: "dr_outcome (dwell_result_of oc d) = oc"
  by (simp add: dwell_result_of_def)

lemma bench_step:
  assumes "quiet_files fl"
  shows "run_confirmed_f2_step sample_provenance (env_ops (bench_env c) bench_cfg)
      (bench_executor ms purpose, bench_machine fl) = (bench_report, bench_executor ms purpose, bench_machine fl)"
  by (simp add: run_confirmed_f2_step_def env_ops_def bench_env_def toy_env_def real_multi_ops_def on_cursor_def
      bench_arm bench_apply bench_verify bench_real_dwell bench_reset bench_clear [OF assms]
      finish_after_write_def is_ok_def is_err_def outcome_of_dwell_def Let_def bench_report_def)

definition bench_request :: "f2_observation codec \<Rightarrow> (nat \<Rightarrow> bool) \<Rightarrow> (unit, toy_card) apply_request" where
  "bench_request c stop =
     \<lparr>aq_env = bench_env c, aq_ledger = \<lparr>enc = (\<lambda>_. None), dec = (\<lambda>_. None)\<rparr>, aq_run_id = ''run'',
      aq_gpu_key = ''gpu'', aq_ledger_run_scoped = False, aq_sane = toy_curve,
      aq_limits = hardware_limits toy_curve 1950, aq_target_mhz = 1900, aq_apply_mv = 850,
      aq_reference_offset_mhz = 0, aq_dwell_ms = 1000, aq_endurance_ms = 2000,
      aq_goldens = Some bench_goldens, aq_ceiling_w = None, aq_stop = stop\<rparr>"

lemma bench_request_fields:
  "aq_env (bench_request c stop) = bench_env c" "aq_sane (bench_request c stop) = toy_curve"
  "aq_target_mhz (bench_request c stop) = 1900" "aq_apply_mv (bench_request c stop) = 850"
  "aq_reference_offset_mhz (bench_request c stop) = 0" "aq_limits (bench_request c stop) = hardware_limits toy_curve 1950"
  "aq_stop (bench_request c stop) = stop" "en_codecs (bench_env c) = toy_codecs"
  by (simp_all add: bench_request_def bench_env_def toy_env_def)

definition bench_run :: "(string \<rightharpoonup> string) \<Rightarrow> nat \<Rightarrow> nat \<Rightarrow> toy_card gate_run" where
  "bench_run fl polls executed = \<lparr>gr_machine = bench_machine fl, gr_polls = polls, gr_executed = executed\<rparr>"

lemma bench_gate_dwell:
  assumes "quiet_files fl" and "is_qualification purpose" and "\<not> stop n"
    and "append_observation c (gate_observation (apply_gate_params (bench_request c stop) bench_plan)
        (annotate_qualification_report Fsgl4 (Some pat) k i bench_report)) (toy_disk\<lparr>files := fl\<rparr>) =
      (Inr (), toy_disk\<lparr>files := fl'\<rparr>)"
  shows "gate_dwell (apply_gate_params (bench_request c stop) bench_plan) stage ms purpose pat k i (bench_run fl n ex) =
    (Inr (annotate_qualification_report Fsgl4 (Some pat) k i bench_report), bench_run fl' (n + 1) (u64_sat_add ex 1))"
proof -
  let ?p = "apply_gate_params (bench_request c stop) bench_plan"
  have p: "gp_env ?p = bench_env c" "gate_cfg ?p = bench_cfg" "gp_curve ?p = toy_curve"
    "gp_limits ?p = hardware_limits toy_curve 1950" "gp_target_mhz ?p = 1900" "gp_stop ?p = stop"
    by (simp_all add: apply_gate_params_def bench_request_def gate_cfg_def bench_cfg_def)
  have sel: "mo_select (env_ops (bench_env c) bench_cfg) 0 (configure_phase ms purpose
      (fresh_cursor toy_curve (hardware_limits toy_curve 1950) 1900, bench_machine fl)) =
      (Inr (), bench_executor ms purpose, bench_machine fl)"
    using bench_select [OF assms(1), of ms purpose]
    by (simp add: env_ops_def real_multi_ops_def bench_env_def toy_env_def)
  have e: "en_build (bench_env c) = sample_provenance" "en_observations (bench_env c) = c"
    by (simp_all add: bench_env_def toy_env_def)
  show ?thesis
    using assms(3,4)
    by (simp add: gate_dwell_def p bench_run_def sel bench_step [OF assms(1)] e Let_def)
      (simp add: bench_machine_def poll_def)
qed

lemma append_ok:
  assumes "enc c ob = Some l" and "\<not> refused d observations_file" and "\<not> dir_refused d"
  shows "append_observation c ob d = (Inr (), d\<lparr>files := (files d)(observations_file \<mapsto>
    unwrap_or (files d observations_file) [] @ l @ [line_feed])\<rparr>)"
  using assms
  by (simp add: append_observation_def append_line_def fs_append_def fs_defs split: option.split)

definition two_codec :: "f2_observation \<Rightarrow> f2_observation \<Rightarrow> f2_observation codec" where
  "two_codec a b =
     \<lparr>enc = (\<lambda>x. if x = a then Some ''{a}'' else if x = b then Some ''{b}'' else None),
      dec = (\<lambda>s. if s = ''{a}'' then Some a else if s = ''{b}'' then Some b else None)\<rparr>"

lemma two_codec_ready: "observations_ready (two_codec a b) (mc_disk (bench_machine (\<lambda>_. None)))"
  by (auto simp: observations_ready_def line_codec_def two_codec_def json_line_def line_feed_def
      carriage_return_def log_intact_def toy_disk_def bench_machine_def)

lemma bench_plan_found:
  "plan_power_calibration_candidate toy_curve 1900 850 0 (hardware_limits toy_curve 1950) = Inr bench_plan"
  by (simp add: plan_power_calibration_candidate_def toy_anchor bench_plan_facts(1))

lemma bench_admitted:
  assumes "quiet_files fl" and "fl ledger_file = None"
  shows "confirmed_f2_refusal (load_record (cx_record toy_codecs) (toy_disk\<lparr>files := fl\<rparr>))
      (is_boot_flag_armed (toy_disk\<lparr>files := fl\<rparr>)) (Some 1) (Some (ap_anchor bench_plan))
      (hardware_limits toy_curve 1950) 1900 = None"
    and "\<not> refuses (request_condemned (bench_request c stop) (toy_disk\<lparr>files := fl\<rparr>)) 1900 850"
proof -
  have r: "load_record (cx_record toy_codecs) (toy_disk\<lparr>files := fl\<rparr>) = default_record"
    using assms by (simp add: toy_disk_def load_record_def fs_read_def)
  have b: "\<not> candidate_blacklisted default_record 1900 c" for c
    by (simp add: candidate_blacklisted_def is_blacklisted_def default_record_def field_pair_blacklisted_def
        field_floor_refuses_def field_vf_floor_mv_def field_points_def List.map_filter_def envelope_at_def
        running_envelope_def)
  have a: "\<not> is_boot_flag_armed (toy_disk\<lparr>files := fl\<rparr>)"
    using assms by (simp add: toy_disk_def is_boot_flag_armed_def fs_exists_def)
  show "confirmed_f2_refusal (load_record (cx_record toy_codecs) (toy_disk\<lparr>files := fl\<rparr>))
      (is_boot_flag_armed (toy_disk\<lparr>files := fl\<rparr>)) (Some 1) (Some (ap_anchor bench_plan))
      (hardware_limits toy_curve 1950) 1900 = None"
    unfolding r
    by (simp add: confirmed_f2_refusal_def a b bench_plan_facts toy_limits default_record_def [THEN arg_cong, of safe_mode]
        default_record_def [THEN arg_cong, of consecutive_crashes] safe_mode_crash_threshold_def)
  show "\<not> refuses (request_condemned (bench_request c stop) (toy_disk\<lparr>files := fl\<rparr>)) 1900 850"
    using assms(2)
    by (simp add: request_condemned_def bench_request_def ledger_pairs_def ledger_load_def load_lines_def fs_read_def
        toy_disk_def condemned_pairs_of_def refuses_def no_pairs_def vf_floor_envelope_def envelope_at_def
        running_envelope_def)
qed

theorem apply_qualified_debt_paid_witness:
  "\<exists>c summary s'. run_apply_qualification (bench_request c (\<lambda>_. False)) (bench_run (\<lambda>_. None) 0 0) = (summary, s') \<and>
     as_qualified summary \<and> fo_outcome (last (load_observations c (mc_disk (gr_machine s')))) = ObValidated \<and>
     \<not> is_boot_flag_armed (mc_disk (gr_machine s'))"
proof -
  let ?q = "\<lambda>c. bench_request c (\<lambda>_. False)"
  let ?ob = "\<lambda>c pat. gate_observation (apply_gate_params (?q c) bench_plan)
    (annotate_qualification_report Fsgl4 (Some pat) 1 0 bench_report)"
  have same: "?ob c pat = ?ob c' pat" for c c' pat
    by (simp add: gate_observation_def apply_gate_params_def bench_request_def bench_env_def toy_env_def)
  obtain c0 :: "f2_observation codec" where True by simp
  define c where "c = two_codec (?ob c0 Texture) (?ob c0 Endurance)"
  let ?p = "apply_gate_params (?q c) bench_plan"
  have enc: "\<exists>l. enc c (?ob c Texture) = Some l" "\<exists>l. enc c (?ob c Endurance) = Some l"
    unfolding same [of c _ c0] by (simp_all add: c_def two_codec_def)
  obtain l1 l2 where l: "enc c (?ob c Texture) = Some l1" "enc c (?ob c Endurance) = Some l2" using enc by blast
  let ?f1 = "(\<lambda>_. None)(observations_file \<mapsto> [] @ l1 @ [line_feed])"
  let ?f2 = "?f1(observations_file \<mapsto> (l1 @ [line_feed]) @ l2 @ [line_feed])"
  have quiet: "quiet_files (\<lambda>_. None)" "quiet_files ?f1" using log_file_names by auto
  have a1: "append_observation c (?ob c Texture) (toy_disk\<lparr>files := \<lambda>_. None\<rparr>) = (Inr (), toy_disk\<lparr>files := ?f1\<rparr>)"
    using append_ok [OF l(1)] by (simp add: toy_disk_def)
  have a2: "append_observation c (?ob c Endurance) (toy_disk\<lparr>files := ?f1\<rparr>) = (Inr (), toy_disk\<lparr>files := ?f2\<rparr>)"
    using append_ok [OF l(2)] by (simp add: toy_disk_def)
  have d1: "gate_dwell ?p V8Stage 1000 (ApplyQualificationOf Texture bench_goldens) Texture 1 0 (bench_run (\<lambda>_. None) 1 0) =
      (Inr (annotate_qualification_report Fsgl4 (Some Texture) 1 0 bench_report), bench_run ?f1 2 1)"
    using bench_gate_dwell [where purpose = "ApplyQualificationOf Texture bench_goldens" and n = 1 and ex = 0, OF quiet(1) _ _ a1]
    by (simp add: u64_sat_add_def numeral_2_eq_2)
  have d2: "gate_dwell ?p EnduranceStage 2000 (ApplyQualificationOf Endurance bench_goldens) Endurance 1 0 (bench_run ?f1 2 1) =
      (Inr (annotate_qualification_report Fsgl4 (Some Endurance) 1 0 bench_report), bench_run ?f2 3 2)"
    using bench_gate_dwell [where purpose = "ApplyQualificationOf Endurance bench_goldens" and n = 2 and ex = 1, OF quiet(2) _ _ a2]
    by (simp add: u64_sat_add_def numeral_3_eq_3 numeral_2_eq_2)
  have ok: "sr_outcome bench_report = OcValidated"
    by (simp add: bench_report_def populate_f2_dwell_report_def outcome_of_dwell_def)
  have p: "gp_goldens ?p = Some bench_goldens" "gp_exact_apply ?p" "gp_dwell_ms ?p = 1000" "gp_endurance_ms ?p = 2000"
    "gp_ceiling_w ?p = None" "gp_stop ?p = (\<lambda>_. False)" "gp_passes ?p = 1"
    by (simp_all add: apply_gate_params_def bench_request_def required_qualification_patterns_def)
  have gate: "gate_anchored_candidate ?p (bench_run (\<lambda>_. None) 1 0) = (Qualified, bench_run ?f2 4 2)"
    using d1 d2
    by (simp add: gate_anchored_candidate_def p qualification_gate_patterns_def required_qualification_patterns_def
        gate_purpose_def judge_gate_dwell_def power_above_ceiling_def opt_filter_def opt_bind_def ok gate_endurance_def Let_def)
      (simp add: bench_run_def poll_def)
  have run: "run_apply_qualification (?q c) (bench_run (\<lambda>_. None) 0 0) = (apply_summary_of Qualified 2, bench_run ?f2 4 2)"
    using gate bench_plan_found bench_admitted(1) [of "\<lambda>_. None"] bench_admitted(2) [of "\<lambda>_. None" c "\<lambda>_. False"]
    by (simp add: run_apply_qualification_def bench_request_fields bench_run_def bench_machine_def ledger_refusal_def
        bench_plan_facts poll_def Let_def)
  have quali: "as_qualified (apply_summary_of Qualified 2)" by (simp add: apply_summary_of_def)
  have "observations_ready (en_observations (aq_env (?q c))) (mc_disk (gr_machine (bench_run (\<lambda>_. None) 0 0)))"
    using two_codec_ready by (simp add: c_def bench_request_def bench_env_def toy_env_def bench_run_def)
  from apply_qualified_debt_paid [OF run quali this refl] obtain cand rss endurance
    where log: "load_observations c (mc_disk (gr_machine (bench_run ?f2 4 2))) =
        load_observations c (mc_disk (gr_machine (bench_run (\<lambda>_. None) 0 0))) @
          map (gate_observation (apply_gate_params (?q c) cand)) (concat rss @ [endurance])"
      "sr_outcome (endurance :: f2_op_error f2_step_report) = OcValidated"
      "\<not> is_boot_flag_armed (mc_disk (gr_machine (bench_run ?f2 4 2)))"
      "\<not> is_boot_flag_armed (mc_disk (gr_machine (bench_run (\<lambda>_. None) 0 0)))"
    by (auto simp: bench_request_fields bench_env_def toy_env_def)
  then have "fo_outcome (last (load_observations c (mc_disk (gr_machine (bench_run ?f2 4 2))))) = ObValidated"
    by (simp add: gate_observation_def observation_outcome map_outcome_def)
  with run quali log(3) show ?thesis by blast
qed

text \<open>A card that is lost during the Endurance soak of a run that is stopped meanwhile.\<close>

definition lost_dwell :: single_dwell where "lost_dwell = toy_dwell\<lparr>sd_crashed := True\<rparr>"

definition lost_params :: "f2_observation codec \<Rightarrow> (unit, toy_card) gate_params" where
  "lost_params c =
     (apply_gate_params (bench_request c (\<lambda>k. k \<ge> 1)) bench_plan)
       \<lparr>gp_env := (bench_env c)\<lparr>en_workload := \<lambda>_ _ g. (lost_dwell, g)\<rparr>, gp_passes := 0\<rparr>"

lemma lost_step:
  assumes "quiet_files fl"
  shows "\<exists>r c2. run_confirmed_f2_step sample_provenance (env_ops (gp_env (lost_params c)) bench_cfg)
      (bench_executor ms purpose, bench_machine fl) = (r, c2) \<and> sr_outcome r = OcDeviceLost"
proof -
  have d: "real_dwell (\<lambda>_ _ g. (lost_dwell, g)) (bench_executor ms purpose) m = (dwell_result_of DoDeviceLost lost_dwell, m)"
    for m :: "toy_card machine"
    by (simp add: real_dwell_def bench_executor_def classify_f2_stress_dwell_def enforce_voltage_authority_def
        lost_dwell_def toy_dwell_def)
  obtain b m2 where b: "real_blacklist toy_codecs (bench_executor ms purpose) True (bench_armed fl stock_card) = (b, m2)"
    by (cases "real_blacklist toy_codecs (bench_executor ms purpose) True (bench_armed fl stock_card)")
  show ?thesis
    by (simp add: run_confirmed_f2_step_def env_ops_def lost_params_def bench_env_def toy_env_def real_multi_ops_def
        on_cursor_def bench_arm bench_apply bench_verify d bench_reset b finish_device_lost_def Let_def)
qed

text \<open>A clean candidate of two phases: the qualification is logged first.\<close>

end
