(* ===== verification/F2Descent.thy ===== *)
theory F2Descent
  imports F2Qualify
begin

text \<open>
  The walk over the candidates of one clock in \<open>run_confirmed_f2_clock_discovery\<close> of
  \<open>crates/service/src/gpu_undervolt.rs\<close>: after every tested bin the loop goes one bin deeper, jumps over bins
  that the power limit holds, climbs back to the middle of a bracket after a failure, or ends. What was
  measured is an argument here; \<open>F2Clock\<close> measures it. The invariant and the measure show that the walk ends
  whatever the measurements say.
\<close>

section \<open>The state of the walk\<close>

datatype discovery_stop =
  KnownBoundaryResumed
| PhysicalFloorReached
| WarmStartNoPhysicalCandidates
| NoPhysicalCandidates
| FreshDiscoveryNoPhysicalCandidates
| DiscoveryRefused
| AdaptiveKnownFailureBoundary
| DiscoveryCancelled
| BlacklistedBoundary
| SafetyPrecheckFailed f2_op_error
| TransactionStartFailed "f2_op_error f2_outcome"
| P99RetryPrecheckFailed f2_op_error
| P99RetryStartFailed "f2_op_error f2_outcome"
| TransactionCleanupMissing
| TransactionCleanupFailed
| CleanupFailed "f2_op_error tx_stop"
| ReportsNotPersisted io_error
| StopQualified
| QualifiedBoundary u32 gate_stage "f2_op_error f2_outcome"
| QualificationRejected gate_stage "f2_op_error f2_outcome"
| UnexpectedDiscoveryPowerCeiling f32 f32
| QualifiedBoundaryInconclusiveDeeper
| QualificationInconclusiveSkippedClock
| CancelledDuringQualification
| QualificationAborted gate_abort
| AdaptiveRecoveryNoSustainablePoint
| OffCapClockDropBeforeSustain
| BoundaryAt "f2_op_error f2_outcome"
| FailedBeforeSustain "f2_op_error f2_outcome"
| AbortedBy "f2_op_error f2_outcome"
| BoundaryAccepted
| V8RejectedNoHigherBin gate_stage "f2_op_error f2_outcome"
| UnexpectedBoundaryPowerCeiling f32 f32
| V8Inconclusive
| CancelledDuringV8

text \<open>What the code asks of the text of a stop reason.\<close>

fun says_inconclusive :: "discovery_stop \<Rightarrow> bool" where
  "says_inconclusive QualifiedBoundaryInconclusiveDeeper = True"
| "says_inconclusive QualificationInconclusiveSkippedClock = True"
| "says_inconclusive V8Inconclusive = True"
| "says_inconclusive (FailedBeforeSustain oc) = (oc = OcInconclusive)"
| "says_inconclusive (BoundaryAt oc) = (oc = OcInconclusive)"
| "says_inconclusive (QualifiedBoundary _ _ oc) = (oc = OcInconclusive)"
| "says_inconclusive (QualificationRejected _ oc) = (oc = OcInconclusive)"
| "says_inconclusive (V8RejectedNoHigherBin _ oc) = (oc = OcInconclusive)"
| "says_inconclusive _ = False"

record descent_plan =
  dp_candidates :: "anchored_plan list"
  dp_target_mhz :: u32
  dp_step_max_mhz :: i32
  dp_passes :: nat

record descent_state =
  ds_index :: nat
  ds_last_qualified :: "nat option"
  ds_reference_mhz :: i32
  ds_jumped_from :: "nat option"
  ds_bracket :: "(nat \<times> nat) option"
  ds_known_failed :: "nat option"
  ds_local :: bool
  ds_sustainable :: bool
  ds_completed :: bool
  ds_aborted :: bool
  ds_retain :: bool
  ds_stop :: discovery_stop

datatype turn_end = NextTurn | LastTurn | ExpectPanics

section \<open>One turn\<close>

abbreviation offset_at :: "descent_plan \<Rightarrow> nat \<Rightarrow> i32" where
  "offset_at plan i \<equiv> po_offset_mhz (ap_anchor (dp_candidates plan ! i))"

definition complete_with :: "discovery_stop \<Rightarrow> descent_state \<Rightarrow> turn_end \<times> descent_state" where
  "complete_with why s = (LastTurn, s\<lparr>ds_completed := True, ds_stop := why\<rparr>)"

definition abort_with :: "discovery_stop \<Rightarrow> descent_state \<Rightarrow> turn_end \<times> descent_state" where
  "abort_with why s = (LastTurn, s\<lparr>ds_aborted := True, ds_stop := why\<rparr>)"

definition move_to :: "nat \<Rightarrow> descent_state \<Rightarrow> turn_end \<times> descent_state" where
  "move_to i s = (NextTurn, s\<lparr>ds_index := i\<rparr>)"

text \<open>After a failure at \<open>i\<close> with a safe bin more than one above, the middle of the two is tested.\<close>

definition recover_above ::
  "descent_plan \<Rightarrow> bool \<Rightarrow> nat option \<Rightarrow> nat \<Rightarrow> descent_state \<Rightarrow> nat option \<times> descent_state" where
  "recover_above plan restore arrival i s =
     (case opt_filter (\<lambda>safe. i > safe + 1)
             (case ds_bracket s of Some (safe, _) \<Rightarrow> Some safe | None \<Rightarrow> arrival) of
        None \<Rightarrow> (None, s)
      | Some safe \<Rightarrow>
          (recovery_midpoint safe i,
           s\<lparr>ds_bracket := Some (safe, i), ds_jumped_from := None,
             ds_reference_mhz := (if restore then offset_at plan safe else ds_reference_mhz s)\<rparr>))"

definition leave_bracket :: "descent_state \<Rightarrow> descent_state" where
  "leave_bracket s =
     (case ds_bracket s of
        Some (_, failed) \<Rightarrow> s\<lparr>ds_bracket := None, ds_known_failed := Some failed\<rparr>
      | None \<Rightarrow> s)"

definition go_deeper ::
  "descent_plan \<Rightarrow> nat \<Rightarrow> f2_op_error f2_step_report \<Rightarrow> bool \<Rightarrow> descent_state \<Rightarrow> turn_end \<times> descent_state" where
  "go_deeper plan i r near s =
     (let deeper =
            (if ds_local s \<or> \<not> near then i + 1
             else adaptive_power_bound_next_index (dp_candidates plan) i (dp_target_mhz plan) (sr_p5_clock_mhz r)
                    (ds_reference_mhz s) (dp_step_max_mhz plan))
      in move_to deeper
           (s\<lparr>ds_jumped_from := (if deeper > i + 1 then Some i else None),
              ds_completed := (ds_completed s \<or> deeper = length (dp_candidates plan))\<rparr>))"

definition narrow_or_go_deeper ::
  "descent_plan \<Rightarrow> nat \<Rightarrow> f2_op_error f2_step_report \<Rightarrow> bool \<Rightarrow> descent_state \<Rightarrow> turn_end \<times> descent_state" where
  "narrow_or_go_deeper plan i r near s0 =
     (let s = (if sr_outcome r = OcValidated \<and> \<not> near \<and> dp_passes plan = 0
               then leave_bracket (s0\<lparr>ds_local := True\<rparr>) else s0)
      in case ds_bracket s of
           Some (_, failed) \<Rightarrow>
             if ds_local s then go_deeper plan i r near s
             else (let s' = s\<lparr>ds_bracket := Some (i, failed)\<rparr>
                   in case recovery_midpoint i failed of
                        Some mid \<Rightarrow> move_to mid s'
                      | None \<Rightarrow> complete_with AdaptiveRecoveryNoSustainablePoint s')
         | None \<Rightarrow> go_deeper plan i r near s)"

definition after_qualification ::
  "descent_plan \<Rightarrow> nat option \<Rightarrow> nat \<Rightarrow> f2_op_error f2_step_report \<Rightarrow> bool \<Rightarrow> qualification_outcome \<Rightarrow>
   descent_state \<Rightarrow> turn_end \<times> descent_state" where
  "after_qualification plan arrival i r near oc s =
     (case oc of
        Qualified \<Rightarrow>
          narrow_or_go_deeper plan i r near
            ((leave_bracket (s\<lparr>ds_last_qualified := Some i, ds_local := True\<rparr>))
               \<lparr>ds_completed := completes_clock oc, ds_stop := StopQualified\<rparr>)
      | Rejected stage why \<Rightarrow>
          (case recover_above plan True arrival i s of
             (Some mid, s') \<Rightarrow> move_to mid s'
           | (None, s') \<Rightarrow>
               (LastTurn, s'\<lparr>ds_completed := completes_clock oc,
                  ds_stop := (if ds_last_qualified s' \<noteq> None
                              then QualifiedBoundary (anchor_mv (dp_candidates plan ! i)) stage why
                              else QualificationRejected stage why)\<rparr>))
      | PowerBound w c \<Rightarrow> abort_with (UnexpectedDiscoveryPowerCeiling w c) s
      | QualInconclusive \<Rightarrow>
          (case recover_above plan True arrival i s of
             (Some mid, s') \<Rightarrow> move_to mid s'
           | (None, s') \<Rightarrow>
               (LastTurn, s'\<lparr>ds_completed := completes_clock oc,
                  ds_stop := (if ds_last_qualified s' \<noteq> None then QualifiedBoundaryInconclusiveDeeper
                              else QualificationInconclusiveSkippedClock)\<rparr>))
      | QualCancelled \<Rightarrow> (LastTurn, s\<lparr>ds_completed := False, ds_stop := CancelledDuringQualification\<rparr>)
      | Aborted why retain \<Rightarrow>
          abort_with (QualificationAborted why) (s\<lparr>ds_retain := ds_retain s \<or> retain\<rparr>))"

text \<open>\<open>qual\<close> is the qualification that ran before the transaction was cleaned up; the code expects one for a
  bin that is eligible, and panics without.\<close>

definition decide_turn ::
  "descent_plan \<Rightarrow> discovery_decision \<Rightarrow> nat option \<Rightarrow> nat \<Rightarrow> f2_op_error f2_step_report \<Rightarrow> bool \<Rightarrow>
   qualification_outcome option \<Rightarrow> descent_state \<Rightarrow> turn_end \<times> descent_state" where
  "decide_turn plan d arrival i r near qual s =
     (case d of
        NextClockUnsustainable \<Rightarrow> complete_with OffCapClockDropBeforeSustain s
      | BoundaryFound \<Rightarrow> complete_with (BoundaryAt (sr_outcome r)) s
      | NextClockAfterFailure \<Rightarrow> complete_with (FailedBeforeSustain (sr_outcome r)) s
      | AbortForge \<Rightarrow>
          abort_with (AbortedBy (sr_outcome r)) (s\<lparr>ds_retain := outcome_retains_boot_flag (sr_outcome r)\<rparr>)
      | _ \<Rightarrow>
          if should_qualify_discovery_candidate (sr_outcome r) near (dp_passes plan)
          then case qual of
            None \<Rightarrow> (ExpectPanics, s)
          | Some oc \<Rightarrow> after_qualification plan arrival i r near oc s
          else narrow_or_go_deeper plan i r near s)"

definition descent_turn ::
  "descent_plan \<Rightarrow> f2_op_error f2_step_report \<Rightarrow> bool \<Rightarrow> qualification_outcome option \<Rightarrow> descent_state \<Rightarrow>
   turn_end \<times> descent_state" where
  "descent_turn plan r near qual s0 =
     (let i = ds_index s0;
          d = f2_discovery_decision (sr_outcome r) (ds_sustainable s0) near;
          s1 = (if d = MarkSustainableAndContinue then s0\<lparr>ds_sustainable := True\<rparr> else s0);
          s2 = (if sr_reset_ok r = Some True \<and> sr_boot_flag_cleared r \<and>
                   sr_outcome r \<in> {OcValidated, OcPowerBoundClockDrop}
                then s1\<lparr>ds_reference_mhz := offset_at plan i\<rparr> else s1);
          arrival = ds_jumped_from s2
      in if reset_clean_discovery_failure d r
         then (case recover_above plan False arrival i s2 of
                 (Some mid, s3) \<Rightarrow> move_to mid s3
               | (None, s3) \<Rightarrow> decide_turn plan d arrival i r near qual s3)
         else decide_turn plan d arrival i r near qual (s2\<lparr>ds_jumped_from := None\<rparr>))"

section \<open>The walk ends\<close>

text \<open>Before the first bin is qualified the walk only goes down, by at most four bins at a time; a failure
  after a jump opens a bracket that only shrinks; from the first qualified bin on it goes down bin by bin.\<close>

definition descent_inv :: "nat \<Rightarrow> descent_state \<Rightarrow> bool" where
  "descent_inv n s \<longleftrightarrow>
     (case ds_bracket s of
        Some (a, b) \<Rightarrow> a < ds_index s \<and> ds_index s < b \<and> b < n \<and> ds_jumped_from s = None \<and> \<not> ds_local s
      | None \<Rightarrow> ds_index s \<le> n \<and>
          (case ds_jumped_from s of
             Some j \<Rightarrow> j < ds_index s \<and> ds_index s \<le> j + f2_adaptive_max_stride_bins \<and> \<not> ds_local s
           | None \<Rightarrow> True))"

definition turns_left :: "nat \<Rightarrow> descent_state \<Rightarrow> nat" where
  "turns_left n s =
     (if ds_local s then n - ds_index s
      else case ds_bracket s of
        Some (a, b) \<Rightarrow> (b - a) + n
      | None \<Rightarrow> (n - ds_index s) + n + f2_adaptive_max_stride_bins)"

text \<open>What holds while the bin at \<open>i\<close> is judged; \<open>arrival\<close> is the bin that was jumped from.\<close>

definition judging :: "nat \<Rightarrow> nat option \<Rightarrow> nat \<Rightarrow> descent_state \<Rightarrow> bool" where
  "judging n arrival i s \<longleftrightarrow> i = ds_index s \<and> i < n \<and>
     (case ds_bracket s of
        Some (a, b) \<Rightarrow> a < i \<and> i < b \<and> b < n \<and> arrival = None \<and> \<not> ds_local s
      | None \<Rightarrow>
          (case arrival of
             Some j \<Rightarrow> j < i \<and> i \<le> j + f2_adaptive_max_stride_bins \<and> \<not> ds_local s
           | None \<Rightarrow> True))"

definition progress :: "nat \<Rightarrow> descent_state \<Rightarrow> descent_state \<Rightarrow> bool" where
  "progress n s s' \<longleftrightarrow> descent_inv n s' \<and> turns_left n s' < turns_left n s"

lemma recovery_midpoint_between: "recovery_midpoint a b = Some m \<Longrightarrow> a < m \<and> m < b"
  by (auto simp: recovery_midpoint_def Let_def split: if_splits)

lemma midpoint_exists: "a + 1 < b \<Longrightarrow> recovery_midpoint a b \<noteq> None"
  by (simp add: recovery_midpoint_def Let_def)

lemma recover_cases:
  assumes "recover_above plan restore arrival i s = (res, s')"
  obtains "res = None" and "s' = s"
  | safe mid reference where "res = Some mid" and "safe < mid" and "mid < i"
      and "case ds_bracket s of Some (a, _) \<Rightarrow> safe = a | None \<Rightarrow> arrival = Some safe"
      and "s' = s\<lparr>ds_bracket := Some (safe, i), ds_jumped_from := None, ds_reference_mhz := reference\<rparr>"
proof -
  let ?from = "case ds_bracket s of Some (safe, _) \<Rightarrow> Some safe | None \<Rightarrow> arrival"
  show ?thesis
  proof (cases "opt_filter (\<lambda>safe. i > safe + 1) ?from")
    case None
    then show ?thesis using assms that(1) by (simp add: recover_above_def)
  next
    case (Some safe)
    then have origin: "?from = Some safe" "safe + 1 < i" by (auto simp: opt_filter_def opt_bind_def split: option.splits if_splits)
    obtain mid where mid: "recovery_midpoint safe i = Some mid" using midpoint_exists [OF origin(2)] by auto
    show ?thesis
      by (rule that(2) [of mid safe])
        (use assms Some mid origin recovery_midpoint_between [OF mid] in
          \<open>auto simp: recover_above_def split: option.splits\<close>)
  qed
qed

lemma recover_progress:
  assumes "recover_above plan restore arrival i s = (Some mid, s')" and "judging n arrival i s"
  shows "progress n s (s'\<lparr>ds_index := mid\<rparr>)"
  using assms(1)
proof (cases rule: recover_cases)
  case (2 safe m reference)
  then show ?thesis
    using assms(2) by (auto simp: progress_def descent_inv_def turns_left_def judging_def split: option.splits)
qed simp

lemma stride_small:
  assumes "i < length cs"
  shows "i < adaptive_power_bound_next_index cs i target p5 reference step_max"
    and "adaptive_power_bound_next_index cs i target p5 reference step_max \<le> length cs"
    and "adaptive_power_bound_next_index cs i target p5 reference step_max \<le> i + f2_adaptive_max_stride_bins"
  using adaptive_stride_bounds [OF assms, of target p5 reference step_max] by (simp_all add: Let_def)

lemma deeper_progress:
  assumes "go_deeper plan i r near s = (e, s')" and "ds_bracket s = None" and "ds_index s = i"
    and "i < n" and "n = length (dp_candidates plan)"
  shows "progress n s s'"
proof -
  define deeper where "deeper = (if ds_local s \<or> \<not> near then i + 1
    else adaptive_power_bound_next_index (dp_candidates plan) i (dp_target_mhz plan) (sr_p5_clock_mhz r)
           (ds_reference_mhz s) (dp_step_max_mhz plan))"
  have d: "i < deeper" "deeper \<le> n" "deeper \<le> i + f2_adaptive_max_stride_bins"
    "deeper > i + 1 \<Longrightarrow> \<not> ds_local s"
    using stride_small [of i "dp_candidates plan"] assms(4,5)
    by (auto simp: deeper_def f2_adaptive_max_stride_bins_def)
  have "s' = s\<lparr>ds_jumped_from := (if deeper > i + 1 then Some i else None),
      ds_completed := (ds_completed s \<or> deeper = length (dp_candidates plan)), ds_index := deeper\<rparr>"
    using assms(1) by (simp add: go_deeper_def move_to_def Let_def deeper_def [symmetric])
  then show ?thesis
    using assms(2-4) d by (auto simp: progress_def descent_inv_def turns_left_def)
qed

lemma leave_bracket_simps [simp]:
  "ds_bracket (leave_bracket s) = None" "ds_index (leave_bracket s) = ds_index s" "ds_local (leave_bracket s) = ds_local s"
  by (auto simp: leave_bracket_def split: option.split)

lemma local_shorter:
  assumes "judging n arrival i s" and "ds_local s'" and "ds_index s' = i"
  shows "turns_left n s' \<le> turns_left n s"
  using assms by (auto simp: judging_def turns_left_def split: option.splits)

lemma narrow_progress:
  assumes "narrow_or_go_deeper plan i r near s = (NextTurn, s')" and "judging n arrival i s"
    and "n = length (dp_candidates plan)" and "ds_jumped_from s = None"
  shows "progress n s s'"
proof -
  define s1 where "s1 = (if sr_outcome r = OcValidated \<and> \<not> near \<and> dp_passes plan = 0
    then leave_bracket (s\<lparr>ds_local := True\<rparr>) else s)"
  have idx: "ds_index s1 = i" and n: "i < n" using assms(2) by (auto simp: s1_def judging_def)
  have le: "turns_left n s1 \<le> turns_left n s"
    using local_shorter [OF assms(2), of s1] idx by (auto simp: s1_def)
  show ?thesis
  proof (cases "ds_bracket s1")
    case None
    then have "progress n s1 s'"
      using assms(1,3) idx n by (intro deeper_progress) (auto simp: narrow_or_go_deeper_def Let_def s1_def [symmetric])
    then show ?thesis using le by (simp add: progress_def)
  next
    case (Some ab)
    then obtain a b where ab: "ds_bracket s1 = Some (a, b)" by (cases ab) auto
    then have s1: "s1 = s" by (auto simp: s1_def split: if_splits)
    then have j: "a < i" "i < b" "b < n" "\<not> ds_local s" using assms(2) ab by (auto simp: judging_def)
    then obtain mid where mid: "recovery_midpoint i b = Some mid" "s' = s\<lparr>ds_bracket := Some (i, b), ds_index := mid\<rparr>"
      using assms(1) ab s1
      by (auto simp: narrow_or_go_deeper_def Let_def s1_def [symmetric] move_to_def complete_with_def split: option.splits)
    show ?thesis
      using recovery_midpoint_between [OF mid(1)] mid(2) j ab s1 assms(2,4)
      by (auto simp: progress_def descent_inv_def turns_left_def judging_def)
  qed
qed

lemma after_qualification_progress:
  assumes "after_qualification plan arrival i r near oc s = (NextTurn, s')" and "judging n arrival i s"
    and "n = length (dp_candidates plan)" and "ds_jumped_from s = None"
  shows "progress n s s'"
proof -
  have climbed: ?thesis
    if "(case recover_above plan True arrival i s of (Some mid, s1) \<Rightarrow> move_to mid s1
         | (None, s1) \<Rightarrow> (LastTurn, f s1)) = (NextTurn, s')" for f
    using that recover_progress [OF _ assms(2)]
    by (auto simp: move_to_def split: prod.splits option.splits)
  show ?thesis
  proof (cases oc)
    case Qualified
    define s1 where "s1 = (leave_bracket (s\<lparr>ds_last_qualified := Some i, ds_local := True\<rparr>))
      \<lparr>ds_completed := True, ds_stop := StopQualified\<rparr>"
    have j: "judging n None i s1" "ds_jumped_from s1 = None" "ds_local s1" "ds_index s1 = i"
      using assms(2,4) by (auto simp: s1_def judging_def leave_bracket_def split: option.splits)
    have "progress n s1 s'"
      using assms(1,3) j Qualified by (intro narrow_progress) (simp_all add: after_qualification_def s1_def)
    then show ?thesis using local_shorter [OF assms(2) j(3,4)] by (simp add: progress_def)
  next
    case (Rejected stage why)
    then show ?thesis using assms(1) climbed by (simp add: after_qualification_def)
  next
    case QualInconclusive
    then show ?thesis using assms(1) climbed by (simp add: after_qualification_def)
  qed (use assms(1) in \<open>simp_all add: after_qualification_def abort_with_def\<close>)
qed

lemma decide_progress:
  assumes "decide_turn plan d arrival i r near qual s = (NextTurn, s')" and "judging n arrival i s"
    and "n = length (dp_candidates plan)" and "ds_jumped_from s = None"
  shows "progress n s s'"
  using assms after_qualification_progress [OF _ assms(2-4)] narrow_progress [OF _ assms(2-4)]
  by (auto simp: decide_turn_def complete_with_def abort_with_def split: discovery_decision.splits option.splits if_splits)

lemma decide_ends:
  assumes "decide_turn plan d arrival i r near qual s = (e, s')"
    and "d \<in> {NextClockUnsustainable, BoundaryFound, NextClockAfterFailure, AbortForge}"
  shows "e = LastTurn"
  using assms by (auto simp: decide_turn_def complete_with_def abort_with_def)

text \<open>Every turn that goes on shortens what is left, whatever was measured.\<close>

lemma turn_progress:
  assumes "descent_turn plan r near qual s = (NextTurn, s')" and "descent_inv n s" and "ds_index s < n"
    and "n = length (dp_candidates plan)"
  shows "progress n s s'"
proof -
  let ?i = "ds_index s"
  let ?d = "f2_discovery_decision (sr_outcome r) (ds_sustainable s) near"
  define s1 where "s1 = (if ?d = MarkSustainableAndContinue then s\<lparr>ds_sustainable := True\<rparr> else s)"
  define s2 where "s2 = (if sr_reset_ok r = Some True \<and> sr_boot_flag_cleared r \<and>
      sr_outcome r \<in> {OcValidated, OcPowerBoundClockDrop} then s1\<lparr>ds_reference_mhz := offset_at plan ?i\<rparr> else s1)"
  have same: "ds_index s2 = ?i" "ds_bracket s2 = ds_bracket s" "ds_jumped_from s2 = ds_jumped_from s"
    "ds_local s2 = ds_local s" by (simp_all add: s1_def s2_def)
  let ?arrival = "ds_jumped_from s2"
  have j: "judging n ?arrival ?i s2"
    using assms(2,3) by (auto simp: judging_def descent_inv_def same split: option.splits prod.splits)
  have left: "turns_left n s2 = turns_left n s" by (simp only: turns_left_def same)
  have jn: "judging n ?arrival ?i (s2\<lparr>ds_jumped_from := None\<rparr>)"
    using j by (auto simp: judging_def split: option.splits)
  have leftn: "turns_left n (s2\<lparr>ds_jumped_from := None\<rparr>) = turns_left n s"
    using left by (auto simp: turns_left_def split: option.splits)
  show ?thesis
  proof (cases "reset_clean_discovery_failure ?d r")
    case False
    then have "decide_turn plan ?d ?arrival ?i r near qual (s2\<lparr>ds_jumped_from := None\<rparr>) = (NextTurn, s')"
      using assms(1) False unfolding descent_turn_def Let_def s1_def [symmetric] s2_def [symmetric] by simp
    then show ?thesis using decide_progress [OF _ jn assms(4)] leftn by (simp add: progress_def)
  next
    case True
    obtain res s3 where rec: "recover_above plan False ?arrival ?i s2 = (res, s3)"
      by (cases "recover_above plan False ?arrival ?i s2")
    have turn: "(case res of Some mid \<Rightarrow> move_to mid s3
        | None \<Rightarrow> decide_turn plan ?d ?arrival ?i r near qual s3) = (NextTurn, s')"
      using assms(1) True rec unfolding descent_turn_def Let_def s1_def [symmetric] s2_def [symmetric] by simp
    show ?thesis
    proof (cases res)
      case (Some mid)
      then show ?thesis
        using turn recover_progress [OF rec [unfolded Some] j] left by (simp add: move_to_def progress_def)
    next
      case None
      then have "decide_turn plan ?d ?arrival ?i r near qual s3 = (NextTurn, s')" using turn by simp
      moreover have "?d \<in> {NextClockUnsustainable, BoundaryFound, NextClockAfterFailure, AbortForge}"
        using True by (auto simp: reset_clean_discovery_failure_def)
      ultimately show ?thesis using decide_ends by blast
    qed
  qed
qed

text \<open>What a turn may do to the parts of the state that the summary reports.\<close>

lemma turn_needs_qualification:
  assumes "descent_turn plan r near qual s = (ExpectPanics, s')"
  shows "qual = None \<and> should_qualify_discovery_candidate (sr_outcome r) near (dp_passes plan)"
proof -
  have decide: "qual = None \<and> should_qualify_discovery_candidate (sr_outcome r) near (dp_passes plan)"
    if "decide_turn plan d arrival i r near qual s1 = (ExpectPanics, s')" for d arrival i s1
    using that
    by (auto simp: decide_turn_def complete_with_def abort_with_def after_qualification_def narrow_or_go_deeper_def
        go_deeper_def move_to_def Let_def
        split: discovery_decision.splits option.splits if_splits qualification_outcome.splits prod.splits)
  show ?thesis
    using assms decide by (auto simp: descent_turn_def Let_def move_to_def split: if_splits prod.splits option.splits)
qed

end
