(* ===== verification/F2Calibrate.thy ===== *)
theory F2Calibrate
  imports F2Qualify
begin

text \<open>
  \<open>run_confirmed_f2_power_calibration\<close> of \<open>crates/service/src/gpu_undervolt.rs\<close>: the measurement of the
  power at one exact Apply pair. The confirmed step of \<open>F2Motor\<close> is run at most three times over the real
  operations of \<open>F2Real\<close>; every attempt is appended to the evidence log, and only an agreement of the
  attempts counts. The progress callback and the log lines are left out.
\<close>

definition power_p99_max_attempts :: nat where "power_p99_max_attempts = 3"

datatype calibration_stop =
  CalibrationCancelled
| CalibrationPlanFailed "plan_error option"
| CalibrationRefused refusal
| CalibrationPersistFailed io_error
| CalibrationConfirmed f32
| CalibrationOutcome "f2_op_error f2_outcome"

record calibration_summary =
  cs_confirmed :: bool
  cs_executed :: nat
  cs_aborted :: bool
  cs_retain_boot_flag :: bool
  cs_stop_reason :: calibration_stop

record ('x, 'g) calibration_request =
  cl_env :: "('x, 'g) f2_env"
  cl_ledger :: "condemnation_event codec"
  cl_run_id :: string
  cl_gpu_key :: string
  cl_ledger_run_scoped :: bool
  cl_sane :: vf_curve
  cl_limits :: positive_offset_limits
  cl_target_mhz :: u32
  cl_apply_mv :: u32
  cl_reference_offset_mhz :: i32
  cl_power_limit_w :: "f32 option"
  cl_dwell_ms :: u64
  cl_stop :: "nat \<Rightarrow> bool"

definition calibration_refused :: "bool \<Rightarrow> calibration_stop \<Rightarrow> calibration_summary" where
  "calibration_refused aborted why =
     \<lparr>cs_confirmed = False, cs_executed = 0, cs_aborted = aborted, cs_retain_boot_flag = False, cs_stop_reason = why\<rparr>"

definition scoped_condemned ::
  "condemnation_event codec \<Rightarrow> bool \<Rightarrow> string \<Rightarrow> string \<Rightarrow> disk \<Rightarrow> condemned_pairs" where
  "scoped_condemned c run_scoped gpu_key run_id d =
     (if run_scoped then condemned_pairs_for_run (ledger_load c d) gpu_key run_id else ledger_pairs c d gpu_key)"

definition previous_confirmed_power :: "f2_observation list \<Rightarrow> u32 \<Rightarrow> (f32 \<times> u32) option" where
  "previous_confirmed_power obs apply_mv =
     map_option snd
       (min_by_key fst
         (List.map_filter
           (\<lambda>ob. case (fo_power_p99_w ob, fo_sustained_clock_mhz ob) of
                    (Some p99, Some p5) \<Rightarrow> Some (abs_diff (fo_anchor_mv ob) apply_mv, p99, p5)
                  | _ \<Rightarrow> None)
           (filter (\<lambda>ob. is_current_discovery_evidence ob \<and> fo_reset_ok ob \<and> fo_boot_flag_cleared ob \<and>
                         \<not> fo_thermal_throttled ob \<and> fo_outcome ob \<in> {ObValidated, ObPowerBoundClockDrop}) obs)))"

definition calibration_cursor :: "('x, 'g) calibration_request \<Rightarrow> anchored_plan \<Rightarrow> 'x real_f2" where
  "calibration_cursor q cand =
     \<lparr>rf_curve = cl_sane q, rf_candidate = ap_anchor cand, rf_anchored = Some cand, rf_mode = Anchored,
      rf_limits = cl_limits q, rf_target_mhz = cl_target_mhz q, rf_prev_offset_mhz = cl_reference_offset_mhz q,
      rf_dwell_ms = cl_dwell_ms q, rf_purpose = PowerDiscovery\<rparr>"

definition calibration_step ::
  "('x, 'g) calibration_request \<Rightarrow> anchored_plan \<Rightarrow> 'x real_f2 \<times> 'g machine \<Rightarrow>
   f2_op_error f2_step_report \<times> 'x real_f2 \<times> 'g machine" where
  "calibration_step q cand =
     run_confirmed_f2_step (en_build (cl_env q))
       (env_ops (cl_env q)
         (descent_cfg (cl_sane q) [cand] (cl_limits q) (cl_target_mhz q) (cl_reference_offset_mhz q)))"

text \<open>Up to three attempts in all, cut short by a hard failure, by agreement, or by the stop flag. The flag is
  only asked while attempts are left.\<close>

function recheck_power ::
  "('x, 'g) calibration_request \<Rightarrow> anchored_plan \<Rightarrow> f2_op_error f2_step_report list \<Rightarrow> nat \<Rightarrow>
   'x real_f2 \<times> 'g machine \<Rightarrow> f2_op_error f2_step_report list \<times> nat \<times> 'x real_f2 \<times> 'g machine" where
  "recheck_power q cand attempts polls c =
     (if \<not> length attempts < power_p99_max_attempts then (attempts, polls, c)
      else if cl_stop q polls then (attempts, polls + 1, c)
      else case calibration_step q cand c of
             (r, c') \<Rightarrow>
               if hard_failure (sr_outcome r) \<or> power_recheck_resolved (attempts @ [r]) (cl_power_limit_w q) None
               then (attempts @ [r], polls + 1, c')
               else recheck_power q cand (attempts @ [r]) (polls + 1) c')"
  by pat_completeness auto

termination
  by (relation "Wellfounded.measure (\<lambda>(_, _, attempts, _, _). power_p99_max_attempts - length attempts)")
    (auto simp: power_p99_max_attempts_def)

declare recheck_power.simps [simp del]

definition calibration_attempts ::
  "('x, 'g) calibration_request \<Rightarrow> anchored_plan \<Rightarrow> 'g gate_run \<Rightarrow>
   bool \<times> f2_op_error f2_step_report list \<times> nat \<times> 'g machine" where
  "calibration_attempts q cand s =
     (let previous = previous_confirmed_power
            (query_by_target_for_gpu (en_observations (cl_env q)) (mc_disk (gr_machine s)) (cl_target_mhz q)
              (cl_gpu_key q)) (cl_apply_mv q)
      in case calibration_step q cand (calibration_cursor q cand, gr_machine s) of
           (r, c) \<Rightarrow>
             (let cap = f2_power_cap_state (sr_power_p99_w r) (cl_power_limit_w q) (sr_power_capped_frac r);
                  rechecked = (power_p99_requires_recheck previous r \<or>
                               power_measurement_usable r \<and> cap = Ambiguous)
              in if rechecked
                 then (case recheck_power q cand [r] (gr_polls s) c of
                         (attempts, polls, c') \<Rightarrow> (True, attempts, polls, snd c'))
                 else (False, [r], gr_polls s, snd c)))"

text \<open>The attempts with their final outcomes, the agreed power and the outcome of the whole.\<close>

definition judge_calibration ::
  "f32 option \<Rightarrow> bool \<Rightarrow> f2_op_error f2_step_report list \<Rightarrow>
   f32 option \<times> f2_op_error f2_outcome \<times> f2_op_error f2_step_report list" where
  "judge_calibration limit rechecked attempts =
     (case confirm_power_attempts attempts rechecked of
        (conservative, attempts1) \<Rightarrow>
          (case finalize_power_cap_state attempts1 (aggregate_power_attempts attempts1 conservative) limit None of
             (cap, attempts2, aggregate) \<Rightarrow>
               (let near = (cap = NearCap)
                in (conservative, power_bound_clock_drop (sr_outcome aggregate) near,
                    map (\<lambda>r. if sr_power_p99_confirmed r
                             then r\<lparr>sr_outcome := power_bound_clock_drop (sr_outcome r) near\<rparr> else r) attempts2))))"

definition calibration_context :: "('x, 'g) calibration_request \<Rightarrow> obs_context" where
  "calibration_context q =
     \<lparr>oc_run_id = cl_run_id q, oc_timestamp = en_now (cl_env q), oc_gpu_key = Some (cl_gpu_key q),
      oc_evidence_kind = Discovery, oc_discovery_contract = Some f2_discovery_contract_version,
      oc_qualification_contract = None, oc_coverage = None, oc_mode = LadderSweep,
      oc_requested_start_mv = Some (cl_apply_mv q),
      oc_positive_offset_cap_mhz = abs_max_offset_mhz (cl_limits q)\<rparr>"

definition calibration_observation ::
  "('x, 'g) calibration_request \<Rightarrow> anchored_plan \<Rightarrow> f2_op_error f2_step_report \<Rightarrow> f2_observation" where
  "calibration_observation q cand r =
     observation_from_anchored_step (en_confidence (cl_env q)) (calibration_context q) (cl_target_mhz q) cand r"

fun append_counted ::
  "f2_observation codec \<Rightarrow> f2_observation list \<Rightarrow> nat \<Rightarrow> disk \<Rightarrow> (io_error \<times> nat, nat) result \<times> disk" where
  "append_counted c [] n d = (Inr n, d)"
| "append_counted c (ob # obs) n d =
     (case append_observation c ob d of
        (Inl e, d') \<Rightarrow> (Inl (e, n), d')
      | (Inr _, d') \<Rightarrow> append_counted c obs (n + 1) d')"

definition calibration_admitted ::
  "('x, 'g) calibration_request \<Rightarrow> 'g machine \<Rightarrow> (calibration_stop, anchored_plan) result" where
  "calibration_admitted q m =
     (case plan_power_calibration_candidate (cl_sane q) (cl_target_mhz q) (cl_apply_mv q)
             (cl_reference_offset_mhz q) (cl_limits q) of
        Inl e \<Rightarrow> Inl (CalibrationPlanFailed e)
      | Inr cand \<Rightarrow>
          (let d = mc_disk m
           in case confirmed_f2_refusal (load_record (cx_record (en_codecs (cl_env q))) d) (is_boot_flag_armed d)
                     (Some 1) (Some (ap_anchor cand)) (cl_limits q) (cl_target_mhz q) of
                Some why \<Rightarrow> Inl (CalibrationRefused why)
              | None \<Rightarrow>
                  (case ledger_refusal
                          (scoped_condemned (cl_ledger q) (cl_ledger_run_scoped q) (cl_gpu_key q) (cl_run_id q) d)
                          (cl_target_mhz q) (po_voltage_mv (ap_anchor cand)) of
                     Some why \<Rightarrow> Inl (CalibrationRefused why)
                   | None \<Rightarrow> Inr cand)))"

definition run_power_calibration ::
  "('x, 'g) calibration_request \<Rightarrow> 'g gate_run \<Rightarrow> calibration_summary \<times> 'g gate_run" where
  "run_power_calibration q s0 =
     (if cl_stop q (gr_polls s0) then (calibration_refused False CalibrationCancelled, poll s0)
      else let s = poll s0
      in case calibration_admitted q (gr_machine s) of
        Inl why \<Rightarrow> (calibration_refused True why, s)
      | Inr cand \<Rightarrow>
          (case calibration_attempts q cand s of
             (rechecked, attempts, polls, m) \<Rightarrow>
               (case judge_calibration (cl_power_limit_w q) rechecked attempts of
                  (conservative, oc, judged) \<Rightarrow>
                    (case append_counted (en_observations (cl_env q)) (map (calibration_observation q cand) judged) 0
                            (mc_disk m) of
                       (Inl (e, n), d) \<Rightarrow>
                         (\<lparr>cs_confirmed = False, cs_executed = n, cs_aborted = True,
                           cs_retain_boot_flag = outcome_retains_boot_flag oc,
                           cs_stop_reason = CalibrationPersistFailed e\<rparr>,
                          s\<lparr>gr_machine := m\<lparr>mc_disk := d\<rparr>, gr_polls := polls\<rparr>)
                     | (Inr n, d) \<Rightarrow>
                         (let confirmed = (conservative \<noteq> None \<and> oc \<in> {OcValidated, OcPowerBoundClockDrop})
                          in (\<lparr>cs_confirmed = confirmed, cs_executed = n, cs_aborted = aborting_outcome oc,
                               cs_retain_boot_flag = outcome_retains_boot_flag oc,
                               cs_stop_reason =
                                 (if confirmed then CalibrationConfirmed (unwrap_or conservative (Fin 0))
                                  else if cl_stop q polls then CalibrationCancelled else CalibrationOutcome oc)\<rparr>,
                              s\<lparr>gr_machine := m\<lparr>mc_disk := d\<rparr>,
                                gr_polls := (if confirmed then polls else polls + 1)\<rparr>))))))"

section \<open>The attempts\<close>

abbreviation run_flag :: "'g gate_run \<Rightarrow> bool" where "run_flag s \<equiv> flag_up (gr_machine s)"

text \<open>What holds of the attempts so far: at most three, only the last may be a hard failure, and the flag
  stands exactly when that one retains it.\<close>

definition attempts_ok :: "disk \<Rightarrow> f2_op_error f2_step_report list \<Rightarrow> 'g machine \<Rightarrow> bool" where
  "attempts_ok d attempts m \<longleftrightarrow>
     attempts \<noteq> [] \<and> length attempts \<le> power_p99_max_attempts \<and>
     list_all (\<lambda>r. \<not> hard_failure (sr_outcome r)) (butlast attempts) \<and> same_log d (mc_disk m) \<and>
     (flag_up m \<longleftrightarrow> outcome_retains_boot_flag (sr_outcome (last attempts)))"

lemma retains_hard: "outcome_retains_boot_flag oc \<Longrightarrow> hard_failure oc"
  by (auto simp: outcome_retains_boot_flag_def)

lemma calibration_step_ok:
  assumes "calibration_step q cand c = (r, c')" and "\<not> flag_up (snd c)"
  shows "flag_up (snd c') \<longleftrightarrow> outcome_retains_boot_flag (sr_outcome r)"
    and "same_log (mc_disk (snd c)) (mc_disk (snd c'))"
  using env_step_flag [OF assms(1) [unfolded calibration_step_def] assms(2)]
    env_step_log [OF assms(1) [unfolded calibration_step_def]] by simp_all

lemma recheck_ok:
  "recheck_power q cand attempts polls c = (attempts', polls', c') \<Longrightarrow>
     attempts_ok d attempts (snd c) \<Longrightarrow> \<not> hard_failure (sr_outcome (last attempts)) \<Longrightarrow>
     attempts_ok d attempts' (snd c')"
proof (induction q cand attempts polls c rule: recheck_power.induct)
  case (1 q cand attempts polls c)
  show ?case
  proof (cases "length attempts < power_p99_max_attempts \<and> \<not> cl_stop q polls")
    case False
    then show ?thesis using 1(2,3) by (subst (asm) recheck_power.simps) (auto split: if_splits)
  next
    case True
    obtain r c1 where step: "calibration_step q cand c = (r, c1)" by (cases "calibration_step q cand c")
    have low: "\<not> flag_up (snd c)" using 1(3,4) retains_hard by (auto simp: attempts_ok_def)
    have "same_log d (mc_disk (snd c1))"
      using 1(3) calibration_step_ok(2) [OF step low] by (auto simp: attempts_ok_def same_log_def)
    moreover have "list_all (\<lambda>r. \<not> hard_failure (sr_outcome r)) attempts"
      using 1(3,4) by (cases attempts rule: rev_cases) (simp_all add: attempts_ok_def)
    ultimately have ok: "attempts_ok d (attempts @ [r]) (snd c1)"
      using 1(3) True calibration_step_ok(1) [OF step low]
      by (simp add: attempts_ok_def)
    show ?thesis
    proof (cases "hard_failure (sr_outcome r) \<or> power_recheck_resolved (attempts @ [r]) (cl_power_limit_w q) None")
      case stop: True
      then show ?thesis using 1(2) True step ok by (subst (asm) recheck_power.simps) simp
    next
      case again: False
      then have "recheck_power q cand (attempts @ [r]) (polls + 1) c1 = (attempts', polls', c')"
        using 1(2) True step by (subst (asm) recheck_power.simps) simp
      then show ?thesis using 1(1) [OF _ _ step [symmetric]] True again ok by simp
    qed
  qed
qed

lemma calibration_attempts_ok:
  assumes "calibration_attempts q cand s = (rechecked, attempts, polls, m)" and "\<not> run_flag s"
  shows "attempts_ok (mc_disk (gr_machine s)) attempts m"
proof -
  let ?c0 = "(calibration_cursor q cand, gr_machine s)"
  obtain r c where step: "calibration_step q cand ?c0 = (r, c)" by (cases "calibration_step q cand ?c0")
  have first: "attempts_ok (mc_disk (gr_machine s)) [r] (snd c)"
    using calibration_step_ok [OF step] assms(2) by (simp add: attempts_ok_def power_p99_max_attempts_def)
  have usable: "\<not> hard_failure (sr_outcome r)" if "power_measurement_usable r"
    using that by (auto simp: power_measurement_usable_def power_measurement_content_usable_def)
  have rechecks: "\<not> hard_failure (sr_outcome r)" if "rechecked"
  proof -
    have "power_measurement_usable r"
      using that assms(1) step
      by (auto simp: calibration_attempts_def Let_def power_p99_requires_recheck_def
          power_p99_requires_recheck_with_def split: if_splits prod.splits)
    then show ?thesis by (rule usable)
  qed
  show ?thesis
  proof (cases rechecked)
    case True
    obtain c' where c': "recheck_power q cand [r] (gr_polls s) c = (attempts, polls, c')" "m = snd c'"
      using True assms(1) step by (auto simp: calibration_attempts_def Let_def split: if_splits prod.splits)
    then show ?thesis using recheck_ok [OF c'(1) first] rechecks [OF True] by simp
  next
    case False
    then show ?thesis
      using assms(1) step first by (auto simp: calibration_attempts_def Let_def split: if_splits prod.splits)
  qed
qed

lemma confirm_outcomes:
  fixes attempts :: "'a f2_step_report list"
  assumes "confirm_power_attempts attempts rechecked = (conservative, attempts')"
  shows "length attempts' = length attempts"
    and "map (\<lambda>r. hard_failure (sr_outcome r)) attempts' = map (\<lambda>r. hard_failure (sr_outcome r)) attempts"
    and "hard_failure (sr_outcome (attempts' ! i)) \<Longrightarrow> i < length attempts \<Longrightarrow>
      sr_outcome (attempts' ! i) = sr_outcome (attempts ! i)"
    and "list_ex (\<lambda>r. hard_failure (sr_outcome r)) attempts \<Longrightarrow> conservative = None"
proof -
  have usable: "\<not> hard_failure (sr_outcome r)" if "power_measurement_usable r" for r :: "'a f2_step_report"
    using that by (auto simp: power_measurement_usable_def power_measurement_content_usable_def)
  define f where "f = (\<lambda>r :: 'a f2_step_report.
      if power_measurement_usable r
      then (if conservative = None then r\<lparr>sr_outcome := OcInconclusive, sr_power_p99_confirmed := False,
              sr_power_p99_attempts := length attempts mod 4294967296\<rparr>
            else r\<lparr>sr_power_p99_confirmed := True, sr_power_p99_attempts := length attempts mod 4294967296\<rparr>)
      else r)"
  let ?f1 = "\<lambda>r. if power_measurement_usable r then r\<lparr>sr_outcome := OcInconclusive, sr_power_p99_confirmed := False,
      sr_power_p99_attempts := length attempts mod 4294967296\<rparr> else r"
  let ?f2 = "\<lambda>r. if power_measurement_usable r then r\<lparr>sr_power_p99_confirmed := True,
      sr_power_p99_attempts := length attempts mod 4294967296\<rparr> else r"
  have "\<exists>C w. confirm_power_attempts attempts rechecked =
      (if \<not> C then (None, map ?f1 attempts) else (Some w, map ?f2 attempts))"
    unfolding confirm_power_attempts_def Let_def by (intro exI) (rule refl)
  then obtain C w where "confirm_power_attempts attempts rechecked =
      (if \<not> C then (None, map ?f1 attempts) else (Some w, map ?f2 attempts))" by blast
  then have "None = conservative \<and> map ?f1 attempts = attempts' \<or> Some w = conservative \<and> map ?f2 attempts = attempts'"
    unfolding assms by (cases C) simp_all
  then have map: "attempts' = map f attempts" by (auto simp: f_def)
  have hard: "hard_failure (sr_outcome (f r)) = hard_failure (sr_outcome r)" for r
    using usable [of r] by (simp add: f_def)
  have same: "sr_outcome (f r) = sr_outcome r" if "hard_failure (sr_outcome (f r))" for r
    using usable [of r] that by (simp add: f_def split: if_splits)
  show "length attempts' = length attempts" by (simp add: map)
  show "map (\<lambda>r. hard_failure (sr_outcome r)) attempts' = map (\<lambda>r. hard_failure (sr_outcome r)) attempts"
    by (simp add: map hard)
  show "sr_outcome (attempts' ! i) = sr_outcome (attempts ! i)"
    if "hard_failure (sr_outcome (attempts' ! i))" and "i < length attempts"
    using same that by (simp only: map nth_map)
  show "conservative = None" if "list_ex (\<lambda>r. hard_failure (sr_outcome r)) attempts"
    using assms that by (simp add: confirm_power_attempts_def Let_def)
qed

text \<open>The outcome of the whole is the hard failure when there is one, and otherwise retains nothing.\<close>

lemma judged:
  assumes "judge_calibration limit rechecked attempts = (conservative, oc, rs)" and "attempts_ok d attempts m"
  shows "outcome_retains_boot_flag oc \<longleftrightarrow> flag_up m" and "length rs = length attempts"
proof -
  obtain cons attempts1 where c0: "confirm_power_attempts attempts rechecked = (cons, attempts1)"
    by (cases "confirm_power_attempts attempts rechecked")
  obtain cap attempts2 agg where fin0: "finalize_power_cap_state attempts1 (aggregate_power_attempts attempts1 cons) limit None =
      (cap, attempts2, agg)" by (cases "finalize_power_cap_state attempts1 (aggregate_power_attempts attempts1 cons) limit None")
  have same: "cons = conservative" using assms(1) c0 fin0 by (simp add: judge_calibration_def Let_def)
  note c = c0 [unfolded same] and fin = fin0 [unfolded same]
  have oc: "\<exists>near. oc = power_bound_clock_drop (sr_outcome agg) near" and rs: "length rs = length attempts2"
    using assms(1) c fin by (auto simp: judge_calibration_def Let_def)
  note cf = confirm_outcomes [OF c]
  show "length rs = length attempts"
    using rs fin cf(1) by (auto simp: finalize_power_cap_state_def Let_def split: if_splits)
  have hf: "hard_failure (sr_outcome (attempts1 ! i)) = hard_failure (sr_outcome (attempts ! i))"
    if "i < length attempts" for i
    using arg_cong [OF cf(2), of "\<lambda>xs. xs ! i"] that cf(1) by simp
  let ?agg = "aggregate_power_attempts attempts1 conservative"
  show "outcome_retains_boot_flag oc \<longleftrightarrow> flag_up m"
  proof (cases "hard_failure (sr_outcome (last attempts))")
    case True
    have ne: "attempts \<noteq> []" using assms(2) by (simp add: attempts_ok_def)
    then have none: "conservative = None" using cf(4) True by (meson last_in_set list_ex_iff)
    let ?n = "length attempts - 1"
    have last: "hard_failure (sr_outcome (attempts1 ! ?n))" using hf [of ?n] True ne by (simp add: last_conv_nth)
    have before: "\<not> hard_failure (sr_outcome (attempts1 ! i))" if "i < ?n" for i
      using assms(2) that hf [of i] by (simp add: attempts_ok_def list_all_length nth_butlast)
    have "find (\<lambda>r. hard_failure (sr_outcome r)) attempts1 = Some (attempts1 ! ?n)"
      using last before cf(1) ne by (auto simp: find_Some_iff intro!: exI [of _ ?n])
    then have "sr_outcome ?agg = sr_outcome (last attempts)" "\<not> sr_power_p99_confirmed ?agg"
      using cf(3) [OF last] ne none by (simp_all add: aggregate_power_attempts_def last_conv_nth)
    then have "\<exists>near. oc = power_bound_clock_drop (sr_outcome (last attempts)) near"
      using oc fin by (auto simp: finalize_power_cap_state_def Let_def)
    then show ?thesis
      using assms(2) by (auto simp: attempts_ok_def power_bound_clock_drop_def outcome_retains_boot_flag_def split: if_splits)
  next
    case False
    then have no: "\<not> hard_failure (sr_outcome r)" if "r \<in> set attempts" for r
      using assms(2) that by (cases attempts rule: rev_cases) (auto simp: attempts_ok_def list_all_iff)
    have "find (\<lambda>r. hard_failure (sr_outcome r)) attempts1 = None"
      unfolding find_None_iff using cf(1) hf no by (auto simp: in_set_conv_nth)
    then have "sr_outcome ?agg \<in> {OcInconclusive, OcClockDrop, OcValidated}"
      by (simp add: aggregate_power_attempts_def)
    then have "\<not> outcome_retains_boot_flag oc"
      using oc fin by (auto simp: finalize_power_cap_state_def Let_def power_bound_clock_drop_def
          outcome_retains_boot_flag_def split: if_splits)
    then show ?thesis using assms(2) False retains_hard by (auto simp: attempts_ok_def)
  qed
qed

lemma append_counted_ok:
  "append_counted c obs n d = (res, d') \<Longrightarrow> is_boot_flag_armed d' = is_boot_flag_armed d \<and>
     (case res of Inr k \<Rightarrow> k = n + length obs \<and> (observations_ready c d \<longrightarrow> load_observations c d' = load_observations c d @ obs)
                | Inl (e, k) \<Rightarrow> k < n + length obs)"
proof (induction obs arbitrary: n d)
  case (Cons ob obs)
  obtain r d1 where a: "append_observation c ob d = (r, d1)" by (cases "append_observation c ob d")
  note flag = append_observation_flag [of c ob d, unfolded a]
  show ?case
  proof (cases r)
    case (Inl e)
    then show ?thesis using Cons.prems a flag by auto
  next
    case (Inr u)
    then have "append_counted c obs (n + 1) d1 = (res, d')" using Cons.prems a by simp
    note IH = Cons.IH [OF this]
    have "observations_ready c d \<longrightarrow> observations_ready c d1 \<and> load_observations c d1 = load_observations c d @ [ob]"
      using obs_log.add_ok [of c d ob] obs_log.add_intact [of c d ob] a Inr by auto
    then show ?thesis using IH flag by (auto split: sum.splits)
  qed
qed auto

section \<open>Properties\<close>

text \<open>C28: what a calibration leaves. Started with the flag down it measures at most three times; the flag
  stands afterwards exactly when the summary says that it is retained, even when an observation could not
  be kept; a confirmed power comes with a clear flag and was measured at least once; and when every observation was kept the log has grown by one observation of this pair for each
  counted attempt and by nothing else.\<close>

theorem calibration_tells_flag:
  assumes "run_power_calibration q s = (summary, s')" and "\<not> is_boot_flag_armed (mc_disk (gr_machine s))"
  shows "cs_executed summary \<le> 3 \<and>
    (is_boot_flag_armed (mc_disk (gr_machine s')) \<longleftrightarrow> cs_retain_boot_flag summary) \<and>
    (cs_confirmed summary \<longrightarrow> \<not> is_boot_flag_armed (mc_disk (gr_machine s')) \<and> 0 < cs_executed summary) \<and>
    (observations_ready (en_observations (cl_env q)) (mc_disk (gr_machine s)) \<longrightarrow>
     (\<exists>e. cs_stop_reason summary = CalibrationPersistFailed e) \<or>
     (\<exists>cand rs. length rs = cs_executed summary \<and>
        load_observations (en_observations (cl_env q)) (mc_disk (gr_machine s')) =
        load_observations (en_observations (cl_env q)) (mc_disk (gr_machine s)) @ map (calibration_observation q cand) rs))"
proof (cases "\<not> cl_stop q (gr_polls s) \<and> (\<exists>cand. calibration_admitted q (gr_machine s) = Inr cand)")
  case False
  then show ?thesis
    using assms by (auto simp: run_power_calibration_def calibration_refused_def Let_def split: if_splits sum.splits)
next
  case True
  then obtain cand where cand: "calibration_admitted q (gr_machine s) = Inr cand" by blast
  obtain rechecked attempts polls m where a: "calibration_attempts q cand (poll s) = (rechecked, attempts, polls, m)"
    by (cases "calibration_attempts q cand (poll s)")
  obtain conservative oc rs where j: "judge_calibration (cl_power_limit_w q) rechecked attempts = (conservative, oc, rs)"
    by (cases "judge_calibration (cl_power_limit_w q) rechecked attempts")
  let ?c = "en_observations (cl_env q)" and ?obs = "map (calibration_observation q cand) rs"
  obtain res d where ap: "append_counted ?c ?obs 0 (mc_disk m) = (res, d)" by (cases "append_counted ?c ?obs 0 (mc_disk m)")
  have ok: "attempts_ok (mc_disk (gr_machine s)) attempts m" using calibration_attempts_ok [OF a] assms(2) by simp
  note jd = judged [OF j ok] and apd = append_counted_ok [OF ap]
  have len: "length rs \<le> 3" using ok jd(2) by (simp add: attempts_ok_def power_p99_max_attempts_def)
  have log: "same_log (mc_disk (gr_machine s)) (mc_disk m)" using ok by (simp add: attempts_ok_def)
  have flag: "is_boot_flag_armed d \<longleftrightarrow> outcome_retains_boot_flag oc" using jd(1) apd by simp
  show ?thesis
  proof (cases res)
    case (Inl ek)
    then show ?thesis
      using assms(1) True cand a j ap apd len flag by (cases ek) (auto simp: run_power_calibration_def Let_def)
  next
    case (Inr n)
    have sum: "cs_executed summary = n \<and> cs_retain_boot_flag summary = outcome_retains_boot_flag oc \<and>
        mc_disk (gr_machine s') = d \<and> (cs_confirmed summary \<longrightarrow> oc \<in> {OcValidated, OcPowerBoundClockDrop})"
      using assms(1) True cand a j ap Inr by (auto simp: run_power_calibration_def Let_def)
    moreover have "cs_confirmed summary \<longrightarrow> \<not> outcome_retains_boot_flag oc"
      using sum by (auto simp: outcome_retains_boot_flag_def)
    moreover have "0 < length rs" using ok jd(2) by (simp add: attempts_ok_def)
    moreover have "n = length rs \<and> (observations_ready ?c (mc_disk (gr_machine s)) \<longrightarrow>
        load_observations ?c d = load_observations ?c (mc_disk (gr_machine s)) @ ?obs)"
      using apd Inr same_log_ready [OF log] same_log_load [OF log] by simp
    ultimately show ?thesis using len flag by auto
  qed
qed

text \<open>A calibration on the bench card: one measurement, which is kept and confirms the power.\<close>

definition bench_calibration :: "f2_observation codec \<Rightarrow> (unit, toy_card) calibration_request" where
  "bench_calibration c =
     \<lparr>cl_env = bench_env c, cl_ledger = \<lparr>enc = (\<lambda>_. None), dec = (\<lambda>_. None)\<rparr>, cl_run_id = ''run'', cl_gpu_key = ''gpu'',
      cl_ledger_run_scoped = False, cl_sane = toy_curve, cl_limits = hardware_limits toy_curve 1950, cl_target_mhz = 1900,
      cl_apply_mv = 850, cl_reference_offset_mhz = 0, cl_power_limit_w = None, cl_dwell_ms = 10000,
      cl_stop = (\<lambda>_. False)\<rparr>"

abbreviation bench_confirmed :: "f2_op_error f2_step_report" where
  "bench_confirmed \<equiv> bench_report\<lparr>sr_power_p99_confirmed := True, sr_power_p99_attempts := 1\<rparr>"

lemma bench_calibration_env:
  "cl_env (bench_calibration c) = bench_env c" "cl_stop (bench_calibration c) = (\<lambda>_. False)"
  "cl_power_limit_w (bench_calibration c) = None" "en_observations (bench_env c) = c"
  "cl_target_mhz (bench_calibration c) = 1900" "cl_gpu_key (bench_calibration c) = ''gpu''"
  by (simp_all add: bench_calibration_def bench_env_def toy_env_def)

lemma bench_calibration_admitted:
  "calibration_admitted (bench_calibration c) (bench_machine (\<lambda>_. None)) = Inr bench_plan"
  using bench_plan_found bench_admitted(1) [of "\<lambda>_. None"] bench_admitted(2) [of "\<lambda>_. None" c "\<lambda>_. False"]
  by (simp add: calibration_admitted_def bench_calibration_def bench_env_def toy_env_def bench_machine_def
      request_condemned_def bench_request_def scoped_condemned_def ledger_refusal_def bench_plan_facts)

lemma bench_measurement:
  "calibration_attempts (bench_calibration c) bench_plan \<lparr>gr_machine = bench_machine (\<lambda>_. None), gr_polls = Suc 0, gr_executed = 0\<rparr> =
     (False, [bench_report], Suc 0, bench_machine (\<lambda>_. None))"
proof -
  have cursor: "calibration_cursor (bench_calibration c) bench_plan = bench_executor 10000 PowerDiscovery"
    by (simp add: calibration_cursor_def bench_calibration_def bench_executor_def fresh_cursor_def)
  have step: "calibration_step (bench_calibration c) bench_plan (bench_executor 10000 PowerDiscovery, bench_machine (\<lambda>_. None)) =
      (bench_report, bench_executor 10000 PowerDiscovery, bench_machine (\<lambda>_. None))"
    using bench_step [of "\<lambda>_. None" c 10000 PowerDiscovery]
    by (simp add: calibration_step_def bench_calibration_def bench_env_def toy_env_def bench_cfg_def)
  have empty: "query_by_target_for_gpu c (mc_disk (bench_machine (\<lambda>_. None))) 1900 ''gpu'' = []"
    by (simp add: query_by_target_for_gpu_def query_by_target_def load_observations_def load_lines_def fs_read_def
        bench_machine_def toy_disk_def)
  have "f2_power_cap_state (sr_power_p99_w bench_report) None (sr_power_capped_frac bench_report) \<noteq> Ambiguous"
    by (simp add: f2_power_cap_state_def power_cap_state_with_previous_def bench_report_def populate_f2_dwell_report_def
        dwell_result_of_def bench_dwell_def toy_dwell_def opt_filter_def opt_bind_def usable_power_def f32_is_finite_def
        f32_order)
  then show ?thesis
    by (simp add: calibration_attempts_def cursor step bench_calibration_env power_p99_requires_recheck_def
        power_p99_requires_recheck_with_def previous_confirmed_power_def
        empty List.map_filter_def Let_def)
qed

lemma bench_judged:
  "judge_calibration None False [bench_report] = (Some (Fin 205), OcValidated, [bench_confirmed])"
proof -
  have use: "power_measurement_usable bench_report" and rep: "sr_outcome bench_report = OcValidated"
    "sr_power_p99_w bench_report = Some (Fin 205)" "sr_thermal_throttled bench_report = False"
    by (simp_all add: power_measurement_usable_def power_measurement_content_usable_def bench_report_def
        populate_f2_dwell_report_def dwell_result_of_def bench_dwell_def toy_dwell_def outcome_of_dwell_def
        usable_power_def f32_is_finite_def f32_order is_some_and_def)
  have "foldl f32_max NegInf [Fin 205] = Fin 205" by (simp add: f32_max_def f32_order)
  then have "confirm_power_attempts [bench_report] False = (Some (Fin 205), [bench_confirmed])"
    using use rep by (simp add: confirm_power_attempts_def usable_powers_def List.map_filter_def Let_def)
  moreover have "power_cap_state_with_previous (Some (Fin 205)) None f None \<noteq> Ambiguous" for f
    by (simp add: power_cap_state_with_previous_def opt_filter_def opt_bind_def usable_power_def f32_is_finite_def f32_order)
  ultimately show ?thesis
    using rep by (simp add: judge_calibration_def finalize_power_cap_state_def aggregate_power_attempts_def
        power_bound_clock_drop_def Let_def)
qed

theorem calibration_tells_flag_witness:
  "\<exists>c summary s'. run_power_calibration (bench_calibration c) (bench_run (\<lambda>_. None) 0 0) = (summary, s') \<and>
     cs_confirmed summary \<and> cs_executed summary = 1 \<and> \<not> is_boot_flag_armed (mc_disk (gr_machine s')) \<and>
     length (load_observations c (mc_disk (gr_machine s'))) = 1"
proof -
  let ?ob = "\<lambda>c. calibration_observation (bench_calibration c) bench_plan bench_confirmed"
  have same: "?ob c = ?ob c'" for c c'
    by (simp add: calibration_observation_def calibration_context_def bench_calibration_def bench_env_def toy_env_def)
  obtain c0 :: "f2_observation codec" where True by simp
  define c where "c = two_codec (?ob c0) (?ob c0)"
  obtain l where l: "enc c (?ob c) = Some l" unfolding same [of c c0] by (simp add: c_def two_codec_def)
  have ap: "append_counted c [?ob c] 0 (mc_disk (bench_machine (\<lambda>_. None))) =
      (Inr (Suc 0), toy_disk\<lparr>files := (\<lambda>_. None)(observations_file \<mapsto> [] @ l @ [line_feed])\<rparr>)"
    using append_ok [OF l, of "toy_disk\<lparr>files := \<lambda>_. None\<rparr>"] by (simp add: toy_disk_def bench_machine_def)
  have start: "poll (bench_run (\<lambda>_. None) 0 0) = \<lparr>gr_machine = bench_machine (\<lambda>_. None), gr_polls = Suc 0, gr_executed = 0\<rparr>"
    by (simp add: poll_def bench_run_def)
  obtain summary s' where run: "run_power_calibration (bench_calibration c) (bench_run (\<lambda>_. None) 0 0) = (summary, s')"
    and sum: "cs_confirmed summary" "cs_executed summary = 1" "cs_stop_reason summary = CalibrationConfirmed (Fin 205)"
    using ap by (simp add: run_power_calibration_def start bench_calibration_env bench_calibration_admitted bench_measurement
        bench_judged Let_def)
  have low: "\<not> is_boot_flag_armed (mc_disk (gr_machine (bench_run (\<lambda>_. None) 0 0)))"
    by (simp add: bench_run_def bench_machine_def is_boot_flag_armed_def fs_exists_def toy_disk_def)
  have ready: "observations_ready (en_observations (cl_env (bench_calibration c))) (mc_disk (gr_machine (bench_run (\<lambda>_. None) 0 0)))"
    using two_codec_ready by (simp add: c_def bench_calibration_def bench_env_def toy_env_def bench_run_def)
  have none: "load_observations c (mc_disk (gr_machine (bench_run (\<lambda>_. None) 0 0))) = []"
    by (simp add: load_observations_def load_lines_def fs_read_def bench_run_def bench_machine_def toy_disk_def)
  show ?thesis
    using calibration_tells_flag [OF run low] ready run sum none
    by (auto simp: bench_calibration_env intro!: exI [of _ c])
qed

end
