(* ===== verification/F2Clock.thy ===== *)
theory F2Clock
  imports F2Descent F2Calibrate
begin

text \<open>
  \<open>run_confirmed_f2_clock_discovery\<close> of \<open>crates/service/src/gpu_undervolt.rs\<close>: what is tried at one target
  clock. The plan is resumed from the compatible evidence, every bin is one transaction (written once, measured,
  measured again on separate writes when the power is doubtful, qualified while the write still stands, cleaned
  up), its reports are appended to the log, and \<open>F2Descent\<close> says which bin is next. Progress events and log
  lines are left out.
\<close>

section \<open>The request and the plan\<close>

record ('x, 'g) discovery_request =
  dq_env :: "('x, 'g) f2_env"
  dq_ledger :: "condemnation_event codec"
  dq_run_id :: string
  dq_gpu_key :: string
  dq_ledger_run_scoped :: bool
  dq_resume :: bool
  dq_sane :: vf_curve
  dq_limits :: positive_offset_limits
  dq_target_mhz :: u32
  dq_start_mv :: "u32 option"
  dq_power_limit_w :: "f32 option"
  dq_discovery_ms :: u64
  dq_qualification_ms :: u64
  dq_passes :: nat
  dq_final_gate_ms :: u64
  dq_final_gate_passes :: nat
  dq_goldens :: "'x render_goldens option"
  dq_stop :: "nat \<Rightarrow> bool"

record discovery_summary =
  dy_sustainable :: bool
  dy_last_good_mv :: "u32 option"
  dy_first_bad_mv :: "u32 option"
  dy_next_clock_start_mv :: "u32 option"
  dy_conservative_start_mv :: "u32 option"
  dy_warm_start_rejected :: bool
  dy_executed :: nat
  dy_completed :: bool
  dy_aborted :: bool
  dy_retain_boot_flag :: bool
  dy_stop_reason :: discovery_stop

record discovery_setup =
  su_unpruned :: "anchored_plan list"
  su_candidates :: "anchored_plan list"
  su_reference_mhz :: i32
  su_prior_good_mv :: "u32 option"
  su_prior_bad_mv :: "u32 option"
  su_resume_good_mv :: "u32 option"
  su_resume_bound_mv :: "u32 option"
  su_refresh :: bool

definition matches_plan :: "anchored_plan list \<Rightarrow> f2_observation \<Rightarrow> bool" where
  "matches_plan cs ob \<longleftrightarrow>
     observation_matches_current_candidate cs (fo_anchor_mv ob) (fo_base_mhz ob) (fo_offset_mhz ob)"

definition discovery_prior :: "('x, 'g) discovery_request \<Rightarrow> disk \<Rightarrow> f2_observation list" where
  "discovery_prior q d = query_by_target_for_gpu (en_observations (dq_env q)) d (dq_target_mhz q) (dq_gpu_key q)"

definition unpruned_plan :: "('x, 'g) discovery_request \<Rightarrow> anchored_plan list" where
  "unpruned_plan q =
     adp_candidates (plan_anchored_undervolt_descent (dq_sane q) (dq_target_mhz q) None (dq_limits q) u64_max)"

definition compatible_prior :: "('x, 'g) discovery_request \<Rightarrow> disk \<Rightarrow> f2_observation list" where
  "compatible_prior q d =
     filter (\<lambda>ob. prior_observation_is_resume_eligible (fo_run_id ob) (dq_run_id q) (dq_resume q) \<and>
                  matches_plan (unpruned_plan q) ob)
       (discovery_prior q d)"

definition power_bound_anchors :: "f2_observation list \<Rightarrow> u32 list" where
  "power_bound_anchors obs =
     map fo_anchor_mv (filter (\<lambda>ob. is_current_discovery_evidence ob \<and> fo_outcome ob = ObPowerBoundClockDrop) obs)"

text \<open>A start from which nothing can be planned is planned from the top and cut, when a good point is known.\<close>

definition planned_candidates :: "('x, 'g) discovery_request \<Rightarrow> bool \<Rightarrow> anchored_plan list" where
  "planned_candidates q good_known =
     (let planned = adp_candidates (plan_anchored_undervolt_descent (dq_sane q) (dq_target_mhz q) (dq_start_mv q)
            (dq_limits q) u64_max)
      in case dq_start_mv q of
           Some mv \<Rightarrow>
             if planned = [] \<and> good_known then filter (\<lambda>c. anchor_mv c \<le> mv) (unpruned_plan q) else planned
         | None \<Rightarrow> planned)"

definition plan_discovery :: "('x, 'g) discovery_request \<Rightarrow> disk \<Rightarrow> discovery_setup" where
  "plan_discovery q d =
     (let prior = compatible_prior q d;
          good = last_discovery_good_for_target prior (dq_target_mhz q);
          good_mv = map_option fo_anchor_mv good;
          bad_mv = map_option fo_anchor_mv (first_bad_for_target prior (dq_target_mhz q));
          refresh = refresh_discovery_for_qualification (dq_passes q) (dq_final_gate_passes q) (dq_resume q);
          resume_good = (if refresh then None else good_mv);
          resume_bound = (if refresh then None else nat_min_of (power_bound_anchors prior))
      in \<lparr>su_unpruned = unpruned_plan q,
          su_candidates =
            snd (resume_f2_candidates (planned_candidates q (good \<noteq> None)) resume_good bad_mv resume_bound),
          su_reference_mhz =
            (if dq_start_mv q \<noteq> None then unwrap_or (map_option fo_offset_mhz good) 0 else 0),
          su_prior_good_mv = good_mv, su_prior_bad_mv = bad_mv, su_resume_good_mv = resume_good,
          su_resume_bound_mv = resume_bound, su_refresh = refresh\<rparr>)"

definition first_state :: "('x, 'g) discovery_request \<Rightarrow> discovery_setup \<Rightarrow> descent_state" where
  "first_state q su =
     (let none = (su_candidates su = []);
          known = (su_resume_good_mv su \<noteq> None \<or> su_prior_bad_mv su \<noteq> None \<or> su_resume_bound_mv su \<noteq> None);
          s0 = \<lparr>ds_index = 0, ds_last_qualified = None, ds_reference_mhz = su_reference_mhz su, ds_jumped_from = None,
                ds_bracket = None, ds_known_failed = None, ds_local = False,
                ds_sustainable = (su_resume_good_mv su \<noteq> None),
                ds_completed = (\<not> su_refresh su \<and> (su_prior_bad_mv su \<noteq> None \<or> none \<and> known)),
                ds_aborted = False, ds_retain = False,
                ds_stop = (if su_prior_bad_mv su \<noteq> None then KnownBoundaryResumed else PhysicalFloorReached)\<rparr>;
          s1 = (if none \<and> \<not> known
                then (if dq_start_mv q \<noteq> None
                      then s0\<lparr>ds_completed := True, ds_stop := WarmStartNoPhysicalCandidates\<rparr>
                      else s0\<lparr>ds_aborted := True, ds_stop := NoPhysicalCandidates\<rparr>)
                else s0)
      in if su_refresh su \<and> none \<and> su_prior_good_mv su \<noteq> None
         then s1\<lparr>ds_completed := False, ds_stop := FreshDiscoveryNoPhysicalCandidates\<rparr> else s1)"

definition discovery_plan :: "('x, 'g) discovery_request \<Rightarrow> anchored_plan list \<Rightarrow> descent_plan" where
  "discovery_plan q cs =
     \<lparr>dp_candidates = cs, dp_target_mhz = dq_target_mhz q, dp_step_max_mhz = step_max_offset_mhz (dq_limits q),
      dp_passes = dq_passes q\<rparr>"

definition clock_context :: "('x, 'g) discovery_request \<Rightarrow> obs_context" where
  "clock_context q =
     \<lparr>oc_run_id = dq_run_id q, oc_timestamp = en_now (dq_env q), oc_gpu_key = Some (dq_gpu_key q),
      oc_evidence_kind = Discovery, oc_discovery_contract = Some f2_discovery_contract_version,
      oc_qualification_contract = None, oc_coverage = None, oc_mode = LadderSweep,
      oc_requested_start_mv = dq_start_mv q, oc_positive_offset_cap_mhz = abs_max_offset_mhz (dq_limits q)\<rparr>"

definition clock_qualification_context :: "('x, 'g) discovery_request \<Rightarrow> obs_context" where
  "clock_qualification_context q =
     (clock_context q)\<lparr>oc_evidence_kind := Qualification, oc_discovery_contract := None,
       oc_qualification_contract := Some f2_qualification_contract_version, oc_coverage := None\<rparr>"

section \<open>One bin\<close>

record ('x, 'g) bin_run =
  br_cursor :: "'x real_f2 \<times> 'g machine"
  br_reports :: "timed_report list"
  br_active :: "f2_op_error f2_step_report option"
  br_start :: nat
  br_cleanup :: "f2_op_error tx_cleanup option"
  br_abort :: "discovery_stop option"

definition bin_cfg :: "('x, 'g) discovery_request \<Rightarrow> anchored_plan list \<Rightarrow> i32 \<Rightarrow> f2_descent_cfg" where
  "bin_cfg q cs reference =
     (descent_cfg (dq_sane q) cs (dq_limits q) (dq_target_mhz q) 0)\<lparr>fd_prev_offset_override := Some reference\<rparr>"

definition discovery_report :: "('x, 'g) discovery_request \<Rightarrow> f2_op_error f2_step_report \<Rightarrow> timed_report" where
  "discovery_report q r = \<lparr>tr_timestamp = en_now (dq_env q), tr_kind = Discovery, tr_report = r\<rparr>"

definition open_bin ::
  "('x, 'g) discovery_request \<Rightarrow> f2_descent_cfg \<Rightarrow> (f2_op_error f2_outcome \<Rightarrow> discovery_stop) \<Rightarrow>
   ('x, 'g) bin_run \<Rightarrow> ('x, 'g) bin_run" where
  "open_bin q cfg failed b =
     (case begin_f2_candidate_transaction (en_build (dq_env q)) (env_ops (dq_env q) cfg) (br_cursor b) of
        (Inl (r, cleanup), c) \<Rightarrow>
          b\<lparr>br_cursor := c, br_reports := br_reports b @ [discovery_report q r], br_active := None,
            br_cleanup := Some cleanup, br_abort := Some (failed (sr_outcome r))\<rparr>
      | (Inr base, c) \<Rightarrow> b\<lparr>br_cursor := c, br_active := Some base\<rparr>)"

definition measure_bin ::
  "('x, 'g) discovery_request \<Rightarrow> f2_descent_cfg \<Rightarrow> ('x, 'g) bin_run \<Rightarrow> ('x, 'g) bin_run" where
  "measure_bin q cfg b =
     (case br_active b of
        None \<Rightarrow> b
      | Some base \<Rightarrow>
          (case tx_run_phase (env_ops (dq_env q) cfg) (configure_phase (dq_discovery_ms q) PowerDiscovery) base
                  (br_cursor b) of
             (r, c) \<Rightarrow> b\<lparr>br_cursor := c, br_reports := br_reports b @ [discovery_report q r]\<rparr>))"

definition put_reports ::
  "timed_report list \<Rightarrow> f2_op_error f2_step_report list \<Rightarrow> timed_report list" where
  "put_reports ts rs = map2 (\<lambda>t r. t\<lparr>tr_report := r\<rparr>) ts rs"

definition close_bin ::
  "('x, 'g) discovery_request \<Rightarrow> f2_descent_cfg \<Rightarrow> ('x, 'g) bin_run \<Rightarrow> ('x, 'g) bin_run" where
  "close_bin q cfg b =
     (case br_active b of
        None \<Rightarrow> b
      | Some _ \<Rightarrow>
          (let open_reports = drop (br_start b) (br_reports b)
           in case finish_f2_transaction_reports (env_ops (dq_env q) cfg) (map tr_report open_reports)
                     (br_cursor b) of
                ((cleanup, rs), c) \<Rightarrow>
                  b\<lparr>br_cursor := c, br_active := None, br_cleanup := Some cleanup,
                    br_reports := take (br_start b) (br_reports b) @ put_reports open_reports rs\<rparr>))"

text \<open>The cleanup before a repeated measurement: what went wrong ends the bin.\<close>

definition close_before_retry ::
  "('x, 'g) discovery_request \<Rightarrow> f2_descent_cfg \<Rightarrow> ('x, 'g) bin_run \<Rightarrow> ('x, 'g) bin_run" where
  "close_before_retry q cfg b =
     (if br_active b = None then b
      else let b' = close_bin q cfg b
           in case br_cleanup b' of
                Some cl \<Rightarrow>
                  if tx_clean cl then b' else b'\<lparr>br_abort := map_option CleanupFailed (tx_stop_reason cl)\<rparr>
              | None \<Rightarrow> b')"

definition discovery_attempts :: "('x, 'g) bin_run \<Rightarrow> f2_op_error f2_step_report list" where
  "discovery_attempts b = map tr_report (filter (\<lambda>t. tr_kind t = Discovery) (br_reports b))"

text \<open>The last attempt is judged as if it were cleaned up.\<close>

definition provisional :: "f2_op_error f2_step_report list \<Rightarrow> f2_op_error f2_step_report list" where
  "provisional rs =
     (if rs = [] then []
      else butlast rs @ [last rs\<lparr>sr_reset_ok := Some True, sr_boot_flag_cleared := True\<rparr>])"

lemma open_attempts:
  "br_active (open_bin q cfg failed b) \<noteq> None \<Longrightarrow> br_reports (open_bin q cfg failed b) = br_reports b"
  by (auto simp: open_bin_def split: prod.splits sum.splits)

lemma measure_attempts:
  "br_active b \<noteq> None \<Longrightarrow> length (discovery_attempts (measure_bin q cfg b)) = Suc (length (discovery_attempts b))"
  by (auto simp: measure_bin_def discovery_attempts_def discovery_report_def split: prod.splits option.splits)

lemma measure_active [simp]: "br_active (measure_bin q cfg b) = br_active b"
  by (simp add: measure_bin_def split: prod.split option.split)

lemma filter_put: "length rs = length ts \<Longrightarrow>
    length (filter (\<lambda>t. P (tr_kind t)) (put_reports ts rs)) = length (filter (\<lambda>t. P (tr_kind t)) ts)"
  by (induction ts arbitrary: rs) (auto simp: put_reports_def length_Suc_conv Suc_length_conv)

lemma finish_length:
  assumes "finish_f2_transaction_reports ops rs s = ((cl, rs'), s')"
  shows "length rs' = length rs"
  using assms
  by (auto simp: finish_f2_transaction_reports_def tx_record_def tx_conclude_def Let_def
      split: prod.splits option.splits sum.splits if_splits)

lemma close_attempts: "length (discovery_attempts (close_bin q cfg b)) = length (discovery_attempts b)"
proof (cases "br_active b")
  case (Some base)
  let ?ts = "drop (br_start b) (br_reports b)" and ?ops = "env_ops (dq_env q) cfg"
  obtain cl rs c where f: "finish_f2_transaction_reports ?ops (map tr_report ?ts) (br_cursor b) = ((cl, rs), c)"
    by (cases "finish_f2_transaction_reports ?ops (map tr_report ?ts) (br_cursor b)") auto
  have "length rs = length ?ts" using finish_length [OF f] by simp
  then have "length (filter (\<lambda>t. tr_kind t = Discovery) (put_reports ?ts rs)) = length (filter (\<lambda>t. tr_kind t = Discovery) ?ts)"
    using filter_put [of rs ?ts "\<lambda>k. k = Discovery"] by simp
  then have "length (discovery_attempts (close_bin q cfg b)) =
      length (filter (\<lambda>t. tr_kind t = Discovery) (take (br_start b) (br_reports b) @ ?ts))"
    using Some f by (simp add: close_bin_def discovery_attempts_def Let_def del: append_take_drop_id)
  then show ?thesis by (simp add: discovery_attempts_def)
qed (simp add: close_bin_def)

lemma retry_attempts: "length (discovery_attempts (close_before_retry q cfg b)) = length (discovery_attempts b)"
  using close_attempts [of q cfg b]
  by (auto simp: close_before_retry_def Let_def discovery_attempts_def split: option.split)

text \<open>Measured again on fresh writes of the same bin, three times in all, until a hard failure or agreement; the
  last write stays active for the qualification.\<close>

function recheck_bin ::
  "('x, 'g) discovery_request \<Rightarrow> f2_descent_cfg \<Rightarrow> nat \<Rightarrow> power_cap_state option \<Rightarrow> ('x, 'g) bin_run \<Rightarrow>
   ('x, 'g) bin_run" where
  "recheck_bin q cfg i previous b =
     (if \<not> (length (discovery_attempts b) < power_p99_max_attempts \<and> br_abort b = None) then b
      else case mo_select (env_ops (dq_env q) cfg) i (br_cursor b) of
        (Inl e, c) \<Rightarrow> b\<lparr>br_cursor := c, br_abort := Some (P99RetryPrecheckFailed e)\<rparr>
      | (Inr _, c) \<Rightarrow>
          (let b1 = open_bin q cfg P99RetryStartFailed (b\<lparr>br_cursor := c, br_start := length (br_reports b)\<rparr>)
           in if br_active b1 = None then b1
              else let b2 = measure_bin q cfg b1; r = tr_report (last (br_reports b2))
                   in if hard_failure (sr_outcome r) \<or>
                         power_recheck_resolved (provisional (discovery_attempts b2)) (dq_power_limit_w q) previous
                      then b2
                      else recheck_bin q cfg i previous (close_before_retry q cfg b2)))"
  by pat_completeness auto

termination
proof (relation "Wellfounded.measure (\<lambda>(_, _, _, _, b). power_p99_max_attempts - length (discovery_attempts b))", goal_cases)
  case (2 q cfg i previous b x c u b1 b2 r)
  have "length (discovery_attempts b2) = Suc (length (discovery_attempts b1))"
    using 2(4-6) measure_attempts [of b1 q cfg] by simp
  moreover have "discovery_attempts b1 = discovery_attempts b"
    using 2(4,5) open_attempts [of q cfg P99RetryStartFailed "b\<lparr>br_cursor := c, br_start := length (br_reports b)\<rparr>"]
    by (simp add: discovery_attempts_def)
  ultimately show ?case using 2(1) by (simp add: retry_attempts diff_less_mono2)
qed simp

declare recheck_bin.simps [simp del]

definition begin_bin ::
  "('x, 'g) discovery_request \<Rightarrow> f2_descent_cfg \<Rightarrow> nat \<Rightarrow> (f32 \<times> u32) option \<Rightarrow> power_cap_state option \<Rightarrow>
   'x real_f2 \<times> 'g machine \<Rightarrow> bool \<times> ('x, 'g) bin_run" where
  "begin_bin q cfg i last_power previous c =
     (let b = measure_bin q cfg (open_bin q cfg TransactionStartFailed
                \<lparr>br_cursor = c, br_reports = [], br_active = None, br_start = 0, br_cleanup = None, br_abort = None\<rparr>);
          first = tr_report (hd (br_reports b));
          cap = power_cap_state_with_previous (sr_power_p99_w first) (dq_power_limit_w q) (sr_power_capped_frac first)
                  previous;
          rechecked = (power_p99_content_requires_recheck last_power first \<or>
                       power_measurement_content_usable first \<and> cap = Ambiguous)
      in (rechecked, if rechecked then recheck_bin q cfg i previous (close_before_retry q cfg b) else b))"

text \<open>The agreed verdict on the attempts, written back to their reports.\<close>

fun write_back :: "timed_report list \<Rightarrow> f2_op_error f2_step_report list \<Rightarrow> timed_report list" where
  "write_back (t # ts) (a # as) =
     (if tr_kind t = Discovery
      then t\<lparr>tr_report := (tr_report t)\<lparr>sr_outcome := sr_outcome a, sr_power_p99_confirmed := sr_power_p99_confirmed a,
               sr_power_p99_attempts := sr_power_p99_attempts a\<rparr>\<rparr> # write_back ts as
      else t # write_back ts (a # as))"
| "write_back ts _ = ts"

definition judge_attempts ::
  "f32 option \<Rightarrow> power_cap_state option \<Rightarrow> bool \<Rightarrow> f2_op_error f2_step_report list \<Rightarrow>
   f32 option \<times> power_cap_state \<times> f2_op_error f2_step_report \<times> f2_op_error f2_step_report list" where
  "judge_attempts limit previous rechecked attempts =
     (case confirm_power_attempts attempts rechecked of
        (conservative, attempts1) \<Rightarrow>
          (case finalize_power_cap_state attempts1 (aggregate_power_attempts attempts1 conservative) limit previous of
             (cap, attempts2, aggregate) \<Rightarrow>
               (let near = (cap = NearCap)
                in (conservative, cap, aggregate\<lparr>sr_outcome := power_bound_clock_drop (sr_outcome aggregate) near\<rparr>,
                    map (\<lambda>r. if sr_power_p99_confirmed r
                             then r\<lparr>sr_outcome := power_bound_clock_drop (sr_outcome r) near\<rparr> else r) attempts2))))"

definition judge_bin ::
  "('x, 'g) discovery_request \<Rightarrow> power_cap_state option \<Rightarrow> bool \<Rightarrow> ('x, 'g) bin_run \<Rightarrow>
   f32 option \<times> power_cap_state \<times> f2_op_error f2_step_report \<times> ('x, 'g) bin_run" where
  "judge_bin q previous rechecked b =
     (let attempts = (if br_active b \<noteq> None then provisional (discovery_attempts b) else discovery_attempts b)
      in case judge_attempts (dq_power_limit_w q) previous rechecked attempts of
           (conservative, cap, report, judged) \<Rightarrow>
             (conservative, cap, report, b\<lparr>br_reports := write_back (br_reports b) judged\<rparr>))"

text \<open>A pair that this run already left inconclusive is not loaded again.\<close>

definition qualify_bin ::
  "('x, 'g) discovery_request \<Rightarrow> f2_descent_cfg \<Rightarrow> f2_observation list \<Rightarrow> u32 \<Rightarrow> f2_op_error f2_step_report \<Rightarrow>
   bool \<Rightarrow> ('x, 'g) bin_run \<Rightarrow> nat \<Rightarrow> margin_history \<Rightarrow>
   qualification_outcome option \<times> ('x, 'g) bin_run \<times> nat \<times> margin_history" where
  "qualify_bin q cfg prior mv report near b polls history =
     (if br_abort b = None \<and> should_qualify_discovery_candidate (sr_outcome report) near (dq_passes q)
      then if pair_qualification_exhausted prior (dq_run_id q) mv then (Some QualInconclusive, b, polls, history)
        else case br_active b of
          None \<Rightarrow> (None, b, polls, history)
        | Some base \<Rightarrow>
            if dq_stop q polls then (Some QualCancelled, b, polls + 1, history)
            else case qualify_active_anchored_candidate (dq_env q) cfg base (dq_target_mhz q) (dq_qualification_ms q)
                        (dq_passes q) (dq_goldens q) (dq_stop q)
                        \<lparr>ar_cursor = br_cursor b, ar_polls = polls + 1, ar_reports = br_reports b,
                         ar_history = history\<rparr> of
                   (oc, a) \<Rightarrow>
                     (Some oc, b\<lparr>br_cursor := ar_cursor a, br_reports := ar_reports a\<rparr>, ar_polls a, ar_history a)
      else (None, b, polls, history))"

text \<open>After the last cleanup. A bin that was not cleaned up ends the discovery before its qualification is read,
  so only the report and the reason are settled here.\<close>

definition settle_bin ::
  "f2_op_error f2_step_report \<Rightarrow> ('x, 'g) bin_run \<Rightarrow>
   bool \<times> bool \<times> f2_op_error f2_step_report \<times> discovery_stop option" where
  "settle_bin report b =
     (let clean = is_some_and (br_cleanup b) tx_clean; retain = is_none_or (br_cleanup b) tx_retain_boot_flag
      in if clean
         then (True, retain,
               report\<lparr>sr_reset_ok := Some True, sr_boot_flag_cleared := True,
                      sr_validated := (sr_outcome report = OcValidated)\<rparr>,
               br_abort b)
         else (False, retain,
               report\<lparr>sr_outcome := (if list_ex (\<lambda>t. sr_outcome (tr_report t) = OcDeviceLost) (br_reports b)
                                     then OcDeviceLost else OcResetFailed),
                      sr_validated := False, sr_boot_flag_cleared := False,
                      sr_reset_ok := (if br_reports b = [] then None else sr_reset_ok (tr_report (last (br_reports b))))\<rparr>,
               Some (case br_cleanup b of
                       None \<Rightarrow> TransactionCleanupMissing
                     | Some cl \<Rightarrow>
                         (case tx_stop_reason cl of Some why \<Rightarrow> CleanupFailed why | None \<Rightarrow> TransactionCleanupFailed))))"


section \<open>The walk\<close>

definition empty_margins :: margin_history where
  "empty_margins =
     \<lparr>mh_pattern_a = [], mh_pattern_b = [], mh_high_fps = [], mh_texture = [], mh_transitions = [], mh_memory = []\<rparr>"

record ('x, 'g) clock_run =
  ck_state :: descent_state
  ck_cursor :: "'x real_f2 \<times> 'g machine"
  ck_polls :: nat
  ck_executed :: nat
  ck_history :: margin_history
  ck_power :: "(f32 \<times> u32) option"
  ck_cap :: "power_cap_state option"

abbreviation ck_machine :: "('x, 'g) clock_run \<Rightarrow> 'g machine" where
  "ck_machine s \<equiv> snd (ck_cursor s)"

definition set_state :: "turn_end \<times> descent_state \<Rightarrow> ('x, 'g) clock_run \<Rightarrow> turn_end \<times> ('x, 'g) clock_run" where
  "set_state d s = (fst d, s\<lparr>ck_state := snd d\<rparr>)"

text \<open>What the measurement of a bin leaves for the next ones.\<close>

definition learn_power ::
  "f32 option \<Rightarrow> power_cap_state \<Rightarrow> f2_op_error f2_step_report \<Rightarrow> ('x, 'g) clock_run \<Rightarrow> ('x, 'g) clock_run" where
  "learn_power conservative cap report s =
     (if sr_power_p99_confirmed report
      then s\<lparr>ck_power := (case (conservative, sr_p5_clock_mhz report) of
                             (Some p99, Some p5) \<Rightarrow> Some (p99, p5) | _ \<Rightarrow> ck_power s),
             ck_cap := (if cap \<noteq> Ambiguous then Some cap else ck_cap s)\<rparr>
      else s)"

definition test_bin ::
  "('x, 'g) discovery_request \<Rightarrow> anchored_plan list \<Rightarrow> f2_observation list \<Rightarrow> ('x, 'g) clock_run \<Rightarrow>
   turn_end \<times> ('x, 'g) clock_run" where
  "test_bin q cs prior s =
     (let i = ds_index (ck_state s); cfg = bin_cfg q cs (ds_reference_mhz (ck_state s))
      in case begin_bin q cfg i (ck_power s) (ck_cap s) (ck_cursor s) of (rechecked, b0) \<Rightarrow>
         case judge_bin q (ck_cap s) rechecked b0 of (conservative, cap, report0, b1) \<Rightarrow>
         case qualify_bin q cfg prior (anchor_mv (cs ! i)) report0 (cap = NearCap) b1 (ck_polls s) (ck_history s) of
           (qual, b2, polls, history) \<Rightarrow>
         let b = close_bin q cfg b2
         in case settle_bin report0 b of (clean, retain, report, failed) \<Rightarrow>
         let m = snd (br_cursor b); st = ck_state s
         in case persist_candidate_reports (dq_env q) (clock_context q) (clock_qualification_context q)
                   (dq_target_mhz q) (cs ! i) (br_reports b) clean (mc_disk m) of
              (Inl e, d) \<Rightarrow>
                set_state (abort_with (ReportsNotPersisted e) st)
                  (s\<lparr>ck_cursor := (fst (br_cursor b), m\<lparr>mc_disk := d\<rparr>), ck_polls := polls, ck_history := history\<rparr>)
            | (Inr n, d) \<Rightarrow>
                (let s1 = s\<lparr>ck_cursor := (fst (br_cursor b), m\<lparr>mc_disk := d\<rparr>), ck_polls := polls,
                            ck_history := history, ck_executed := u64_sat_add (ck_executed s) n\<rparr>
                 in case failed of
                      Some why \<Rightarrow> set_state (abort_with why (st\<lparr>ds_retain := ds_retain st \<or> retain\<rparr>)) s1
                    | None \<Rightarrow>
                        set_state (descent_turn (discovery_plan q cs) report (cap = NearCap) qual st)
                          (learn_power conservative cap report s1)))"

definition discovery_turn ::
  "('x, 'g) discovery_request \<Rightarrow> anchored_plan list \<Rightarrow> condemned_pairs \<Rightarrow> f2_observation list \<Rightarrow>
   ('x, 'g) clock_run \<Rightarrow> turn_end \<times> ('x, 'g) clock_run" where
  "discovery_turn q cs condemned prior s =
     (let st = ck_state s; i = ds_index st; s1 = s\<lparr>ck_polls := ck_polls s + 1\<rparr>
      in if ds_known_failed st = Some i then set_state (complete_with AdaptiveKnownFailureBoundary st) s
         else if dq_stop q (ck_polls s) then set_state (LastTurn, st\<lparr>ds_stop := DiscoveryCancelled\<rparr>) s1
         else if candidate_blacklisted
                   (load_record (cx_record (en_codecs (dq_env q))) (mc_disk (ck_machine s)))
                   (dq_target_mhz q) (ap_anchor (cs ! i)) \<or>
                 refuses condemned (dq_target_mhz q) (anchor_mv (cs ! i))
         then set_state (complete_with BlacklistedBoundary st) s1
         else case mo_select (env_ops (dq_env q) (bin_cfg q cs (ds_reference_mhz st))) i (ck_cursor s) of
                (Inl e, c) \<Rightarrow> set_state (abort_with (SafetyPrecheckFailed e) st) (s1\<lparr>ck_cursor := c\<rparr>)
              | (Inr _, c) \<Rightarrow> test_bin q cs prior (s1\<lparr>ck_cursor := c\<rparr>))"

partial_function (option) walk_candidates ::
  "('x, 'g) discovery_request \<Rightarrow> anchored_plan list \<Rightarrow> condemned_pairs \<Rightarrow> f2_observation list \<Rightarrow>
   ('x, 'g) clock_run \<Rightarrow> (turn_end \<times> ('x, 'g) clock_run) option" where
  "walk_candidates q cs condemned prior s =
     (if ds_index (ck_state s) < length cs
      then case discovery_turn q cs condemned prior s of
        (NextTurn, s') \<Rightarrow> walk_candidates q cs condemned prior s'
      | (e, s') \<Rightarrow> Some (e, s')
      else Some (LastTurn, s))"

section \<open>The boundary gate and the summary\<close>

definition boundary_gate_params :: "('x, 'g) discovery_request \<Rightarrow> anchored_plan \<Rightarrow> ('x, 'g) gate_params" where
  "boundary_gate_params q cand =
     \<lparr>gp_env = dq_env q, gp_ctx = clock_qualification_context q, gp_curve = dq_sane q, gp_limits = dq_limits q,
      gp_target_mhz = dq_target_mhz q, gp_candidate = cand, gp_dwell_ms = dq_final_gate_ms q,
      gp_passes = dq_final_gate_passes q, gp_endurance_ms = 0, gp_goldens = dq_goldens q, gp_exact_apply = False,
      gp_ceiling_w = None, gp_stop = dq_stop q\<rparr>"

text \<open>From the deepest qualified bin upwards; a rejected one hands over to the bin above.\<close>

fun boundary_gate ::
  "('x, 'g) discovery_request \<Rightarrow> anchored_plan list \<Rightarrow> nat \<Rightarrow> descent_state \<Rightarrow> 'g gate_run \<Rightarrow>
   descent_state \<times> 'g gate_run" where
  "boundary_gate q cs i st g =
     (case gate_anchored_candidate (boundary_gate_params q (cs ! i)) g of
        (Qualified, g') \<Rightarrow> (st\<lparr>ds_completed := True, ds_stop := BoundaryAccepted\<rparr>, g')
      | (Rejected stage why, g') \<Rightarrow>
          (case i of
             0 \<Rightarrow> (st\<lparr>ds_completed := False, ds_stop := V8RejectedNoHigherBin stage why\<rparr>, g')
           | Suc j \<Rightarrow> boundary_gate q cs j st g')
      | (PowerBound w c, g') \<Rightarrow> (st\<lparr>ds_completed := False, ds_stop := UnexpectedBoundaryPowerCeiling w c\<rparr>, g')
      | (QualInconclusive, g') \<Rightarrow> (st\<lparr>ds_completed := False, ds_stop := V8Inconclusive\<rparr>, g')
      | (QualCancelled, g') \<Rightarrow> (st\<lparr>ds_completed := False, ds_stop := CancelledDuringV8\<rparr>, g')
      | (Aborted why retain, g') \<Rightarrow>
          (st\<lparr>ds_aborted := True, ds_retain := ds_retain st \<or> retain, ds_stop := QualificationAborted why\<rparr>, g'))"

declare boundary_gate.simps [simp del]

definition accept_boundary ::
  "('x, 'g) discovery_request \<Rightarrow> anchored_plan list \<Rightarrow> ('x, 'g) clock_run \<Rightarrow> ('x, 'g) clock_run" where
  "accept_boundary q cs s =
     (if \<not> (dq_final_gate_passes q > 0 \<and> \<not> ds_aborted (ck_state s)) then s
      else let s1 = s\<lparr>ck_polls := ck_polls s + 1\<rparr>
      in if dq_stop q (ck_polls s) then s1
         else case ds_last_qualified (ck_state s) of
           None \<Rightarrow> s1
         | Some i \<Rightarrow>
             (case boundary_gate q cs i ((ck_state s)\<lparr>ds_completed := False\<rparr>)
                     \<lparr>gr_machine = ck_machine s, gr_polls = ck_polls s1, gr_executed = ck_executed s\<rparr> of
                (st, g) \<Rightarrow>
                  s1\<lparr>ck_state := st, ck_cursor := (fst (ck_cursor s), gr_machine g), ck_polls := gr_polls g,
                     ck_executed := gr_executed g\<rparr>))"

text \<open>Whether some bin of this run passed every pattern that the descent asks for.\<close>

definition patterns_passed_at :: "f2_observation list \<Rightarrow> string \<Rightarrow> nat \<Rightarrow> u32 \<Rightarrow> bool" where
  "patterns_passed_at obs run passes mv \<longleftrightarrow>
     list_all
       (\<lambda>k. list_ex (\<lambda>ob. fo_run_id ob = run \<and> is_current_qualification_pass ob \<and> fo_anchor_mv ob = mv \<and>
                           opt_bind (coverage_pattern ob) required_pattern_index = Some k) obs)
       [0..<passes]"

definition has_full_qualification :: "f2_observation list \<Rightarrow> string \<Rightarrow> nat \<Rightarrow> bool" where
  "has_full_qualification obs run passes \<longleftrightarrow>
     (let n = min passes (length required_qualification_patterns)
      in n > 0 \<and> list_ex (patterns_passed_at obs run n) (map fo_anchor_mv obs))"

definition summarize_discovery ::
  "('x, 'g) discovery_request \<Rightarrow> discovery_setup \<Rightarrow> ('x, 'g) clock_run \<Rightarrow> discovery_summary" where
  "summarize_discovery q su s =
     (let st = ck_state s; target = dq_target_mhz q; run = dq_run_id q;
          scoped = filter (matches_plan (su_unpruned su)) (discovery_prior q (mc_disk (ck_machine s)));
          seedable = filter (\<lambda>ob. fo_anchor_mv ob \<notin> inconclusive_only_anchors scoped run) scoped;
          last_good = map_option fo_anchor_mv (last_discovery_good_for_target seedable target);
          run_good = last_discovery_good_for_target (filter (\<lambda>ob. fo_run_id ob = run) seedable) target;
          validated = map fo_anchor_mv
            (filter (\<lambda>ob. is_current_discovery_evidence ob \<and> fo_outcome ob = ObValidated) scoped);
          conservative = conservative_next_clock_start (power_bound_anchors scoped) validated;
          full = has_full_qualification scoped run (dq_passes q)
      in \<lparr>dy_sustainable = (last_good \<noteq> None \<and> (dq_passes q = 0 \<or> full)),
          dy_last_good_mv = last_good,
          dy_first_bad_mv = map_option fo_anchor_mv (first_bad_for_target scoped target),
          dy_next_clock_start_mv = optimized_next_clock_start (map anchor_mv (su_unpruned su)) last_good conservative,
          dy_conservative_start_mv = conservative,
          dy_warm_start_rejected =
            (dq_start_mv q \<noteq> None \<and> (su_refresh su \<or> su_prior_good_mv su = None) \<and>
             (if dq_passes q > 0 then \<not> full else run_good = None) \<and>
             (ck_executed s > 0 \<or> ds_stop st = WarmStartNoPhysicalCandidates) \<and> \<not> ds_aborted st \<and>
             \<not> says_inconclusive (ds_stop st)),
          dy_executed = ck_executed s, dy_completed = ds_completed st, dy_aborted = ds_aborted st,
          dy_retain_boot_flag = ds_retain st, dy_stop_reason = ds_stop st\<rparr>)"

definition discovery_refused :: discovery_summary where
  "discovery_refused =
     \<lparr>dy_sustainable = False, dy_last_good_mv = None, dy_first_bad_mv = None, dy_next_clock_start_mv = None,
      dy_conservative_start_mv = None, dy_warm_start_rejected = False, dy_executed = 0, dy_completed = False,
      dy_aborted = True, dy_retain_boot_flag = False, dy_stop_reason = DiscoveryRefused\<rparr>"

text \<open>\<open>None\<close> is a walk that does not return; the left side is the panic of the expected qualification.\<close>

definition run_clock_discovery ::
  "('x, 'g) discovery_request \<Rightarrow> 'g machine \<Rightarrow> nat \<Rightarrow>
   (('x, 'g) clock_run, discovery_summary \<times> 'g machine \<times> nat) result option" where
  "run_clock_discovery q m polls =
     (let d = mc_disk m; env = dq_env q; su = plan_discovery q d; cs = su_candidates su; n = length cs;
          condemned = scoped_condemned (dq_ledger q) (dq_ledger_run_scoped q) (dq_gpu_key q) (dq_run_id q) d
      in if n > 0 \<and> confirmed_f2_multi_refusal (load_record (cx_record (en_codecs env)) d) (is_boot_flag_armed d)
                       (Some n) n n \<noteq> None
         then Some (Inr (discovery_refused, m, polls))
         else case walk_candidates q cs condemned (discovery_prior q d)
                     \<lparr>ck_state = first_state q su,
                      ck_cursor = configure_phase (dq_discovery_ms q) PowerDiscovery
                        (fresh_cursor (dq_sane q) (dq_limits q) (dq_target_mhz q), m),
                      ck_polls = polls, ck_executed = 0, ck_history = empty_margins, ck_power = None, ck_cap = None\<rparr> of
           None \<Rightarrow> None
         | Some (ExpectPanics, s) \<Rightarrow> Some (Inl s)
         | Some (_, s) \<Rightarrow>
             (let s' = accept_boundary q cs s
              in Some (Inr (summarize_discovery q su s', ck_machine s', ck_polls s'))))"


section \<open>The expected qualification is always there\<close>

text \<open>What the consensus over the attempts reads of a report.\<close>

definition power_view ::
  "'e f2_step_report \<Rightarrow> 'e f2_outcome \<times> bool \<times> f32 option \<times> f32 option \<times> bool option \<times> bool" where
  "power_view r =
     (sr_outcome r, sr_thermal_throttled r, sr_power_p99_w r, sr_power_capped_frac r, sr_reset_ok r,
      sr_boot_flag_cleared r)"

definition cleaned_view ::
  "'e f2_step_report \<Rightarrow> 'e f2_outcome \<times> bool \<times> f32 option \<times> f32 option \<times> bool option \<times> bool" where
  "cleaned_view r =
     (sr_outcome r, sr_thermal_throttled r, sr_power_p99_w r, sr_power_capped_frac r, Some True, True)"

lemma view_usable: "power_view a = power_view b \<Longrightarrow> power_measurement_usable a = power_measurement_usable b"
  by (simp add: power_view_def power_measurement_usable_def power_measurement_content_usable_def)

lemma view_lists:
  assumes "map power_view rs = map power_view rs'"
  shows "usable_powers rs = usable_powers rs' \<and>
    List.map_filter sr_power_capped_frac (filter power_measurement_usable rs) =
    List.map_filter sr_power_capped_frac (filter power_measurement_usable rs')"
  using assms
proof (induction rs arbitrary: rs')
  case (Cons r rs)
  then obtain r' rs1 where rs': "rs' = r' # rs1" "power_view r = power_view r'" "map power_view rs = map power_view rs1"
    by auto
  then have "sr_power_p99_w r = sr_power_p99_w r'" "sr_power_capped_frac r = sr_power_capped_frac r'"
    by (simp_all add: power_view_def)
  then show ?case
    using Cons.IH [OF rs'(3)] view_usable [OF rs'(2)] rs'(1)
    by (simp add: usable_powers_def List.map_filter_def)
qed simp

lemma view_resolved:
  "map power_view rs = map power_view rs' \<Longrightarrow>
     power_recheck_resolved rs limit previous = power_recheck_resolved rs' limit previous"
  using view_lists [of rs rs']
  by (simp add: power_recheck_resolved_def power_attempts_have_consistent_pair_def power_cap_state_for_attempts_def)

lemma map_power_view_simps [simp]:
  "power_view (r\<lparr>sr_blacklisted := x\<rparr>) = power_view r" "power_view (r\<lparr>sr_validated := v\<rparr>) = power_view r"
  by (simp_all add: power_view_def)

text \<open>A transaction that was cleaned up has left every report reset and cleared, and no failure unexplained.\<close>

lemma record_views:
  assumes "tx_record ops lost index rs s = ((listed, rs'), s')" and "\<forall>i. index = Some i \<longrightarrow> i < length rs"
  shows "map power_view rs' = map power_view rs"
proof (cases index)
  case (Some i)
  then have "i < length rs" using assms(2) by simp
  then have "map power_view (rs[i := (rs ! i)\<lparr>sr_blacklisted := x\<rparr>]) = map power_view rs" for x
    by (simp add: map_update) (metis length_map list_update_id nth_map)
  then show ?thesis using assms(1) Some by (auto simp: tx_record_def split: prod.splits)
qed (use assms in \<open>simp add: tx_record_def\<close>)

lemma conclude_views:
  assumes "tx_conclude ops lost reset listed rs s = ((cl, rs'), s')"
  shows "\<not> tx_clean cl \<Longrightarrow> tx_stop_reason cl \<noteq> None"
    and "tx_clean cl \<Longrightarrow> is_ok reset \<and>
      rs' = map (\<lambda>r. r\<lparr>sr_boot_flag_cleared := True, sr_validated := (sr_outcome r = OcValidated)\<rparr>) rs"
  using assms
  by (auto simp: tx_conclude_def tx_failed_def is_ok_def split: if_splits option.splits sum.splits prod.splits)

lemma finish_views:
  assumes "finish_f2_transaction_reports ops rs s = ((cl, rs'), s')"
  shows "\<not> tx_clean cl \<Longrightarrow> tx_stop_reason cl \<noteq> None"
    and "tx_clean cl \<Longrightarrow> map power_view rs' = map cleaned_view rs"
proof -
  let ?lost = "position (\<lambda>r. sr_outcome r = OcDeviceLost) rs"
  define index where "index = (case ?lost of Some i \<Rightarrow> Some i
    | None \<Rightarrow> position (\<lambda>r. sr_outcome r \<in> {OcSilentError, OcUnstable}) rs)"
  obtain reset s1 where r: "op_reset ops s = (reset, s1)" by (cases "op_reset ops s")
  define rs1 where "rs1 = map (\<lambda>r. r\<lparr>sr_reset_ok := Some (is_ok reset), sr_boot_flag_cleared := False,
      sr_validated := False\<rparr>) rs"
  obtain listed rs2 s2 where t: "tx_record ops (?lost \<noteq> None) index rs1 s1 = ((listed, rs2), s2)"
    by (cases "tx_record ops (?lost \<noteq> None) index rs1 s1") auto
  have run: "tx_conclude ops (?lost \<noteq> None) reset listed rs2 s2 = ((cl, rs'), s')"
    using assms r t unfolding finish_f2_transaction_reports_def Let_def rs1_def index_def by (simp only: prod.case)
  show "\<not> tx_clean cl \<Longrightarrow> tx_stop_reason cl \<noteq> None" by (rule conclude_views(1) [OF run])
  assume clean: "tx_clean cl"
  have "\<forall>i. index = Some i \<longrightarrow> i < length rs1"
    using position_Some [of _ rs] by (auto simp: index_def rs1_def split: option.splits)
  from record_views [OF t this] have v: "map power_view rs2 = map power_view rs1" .
  have "map power_view rs' = map (\<lambda>r. case power_view r of (a, b, c, d, e, f) \<Rightarrow> (a, b, c, d, e, True)) rs2"
    using conclude_views(2) [OF run clean] by (simp add: power_view_def)
  also have "\<dots> = map ((\<lambda>(a, b, c, d, e, f). (a, b, c, d, e, True)) \<circ> power_view) rs2" by (simp add: comp_def)
  also have "\<dots> = map (\<lambda>(a, b, c, d, e, f). (a, b, c, d, e, True)) (map power_view rs1)"
    using v by (simp only: map_map [symmetric])
  also have "\<dots> = map cleaned_view rs"
    using conclude_views(2) [OF run clean] by (simp add: rs1_def power_view_def cleaned_view_def comp_def)
  finally show "map power_view rs' = map cleaned_view rs" .
qed


lemma close_inactive [simp]:
  "br_active (close_bin q cfg b) = None" "br_abort (close_bin q cfg b) = br_abort b"
  "br_active (close_before_retry q cfg b) = None"
  by (auto simp: close_bin_def close_before_retry_def Let_def split: option.splits prod.splits)

lemma close_before_retry_abort:
  assumes "br_active b = Some base" and "br_abort (close_before_retry q cfg b) = None"
  shows "br_abort b = None \<and> close_before_retry q cfg b = close_bin q cfg b \<and>
    is_some_and (br_cleanup (close_bin q cfg b)) tx_clean"
proof -
  obtain cl rs c where f: "finish_f2_transaction_reports (env_ops (dq_env q) cfg)
      (map tr_report (drop (br_start b) (br_reports b))) (br_cursor b) = ((cl, rs), c)"
    by (cases "finish_f2_transaction_reports (env_ops (dq_env q) cfg)
      (map tr_report (drop (br_start b) (br_reports b))) (br_cursor b)") auto
  have "br_cleanup (close_bin q cfg b) = Some cl" using assms(1) f by (simp add: close_bin_def Let_def)
  then show ?thesis
    using assms finish_views(1) [OF f] close_inactive(2) [of q cfg b]
    by (auto simp: close_before_retry_def Let_def split: if_splits)
qed

lemma retry_views:
  assumes "br_active b = Some base" and "br_reports b = ts @ [t]" and "br_start b = length ts"
    and "tr_kind t = Discovery" and "br_abort (close_before_retry q cfg b) = None"
  shows "map power_view (discovery_attempts (close_before_retry q cfg b)) =
    map power_view (provisional (discovery_attempts b))"
proof -
  obtain cl rs c where f: "finish_f2_transaction_reports (env_ops (dq_env q) cfg)
      (map tr_report (drop (br_start b) (br_reports b))) (br_cursor b) = ((cl, rs), c)"
    by (cases "finish_f2_transaction_reports (env_ops (dq_env q) cfg)
      (map tr_report (drop (br_start b) (br_reports b))) (br_cursor b)") auto
  note same = close_before_retry_abort [OF assms(1,5)]
  have b': "br_cleanup (close_bin q cfg b) = Some cl" "br_reports (close_bin q cfg b) = ts @ put_reports [t] rs"
    using assms(1-3) f by (simp_all add: close_bin_def Let_def)
  have v: "map power_view rs = [cleaned_view (tr_report t)]"
    using finish_views(2) [OF f] same b'(1) assms(2,3) by simp
  then obtain r where rs: "rs = [r]" "power_view r = cleaned_view (tr_report t)" by auto
  have last: "discovery_attempts b = map tr_report (filter (\<lambda>t. tr_kind t = Discovery) ts) @ [tr_report t]"
    using assms(2,4) by (simp add: discovery_attempts_def)
  have "discovery_attempts (close_bin q cfg b) = map tr_report (filter (\<lambda>t. tr_kind t = Discovery) ts) @ [r]"
    using b'(2) rs(1) assms(4) by (simp add: discovery_attempts_def put_reports_def)
  then show ?thesis
    using same last rs(2) by (simp add: provisional_def cleaned_view_def power_view_def)
qed

lemma open_start [simp]: "br_start (open_bin q cfg failed b) = br_start b"
  by (auto simp: open_bin_def split: prod.splits sum.splits)

lemma open_abort: "br_active (open_bin q cfg failed b) = None \<Longrightarrow> br_abort (open_bin q cfg failed b) \<noteq> None"
  by (auto simp: open_bin_def split: prod.splits sum.splits)

lemma open_active: "br_active (open_bin q cfg failed b) \<noteq> None \<Longrightarrow>
    br_reports (open_bin q cfg failed b) = br_reports b \<and> br_abort (open_bin q cfg failed b) = br_abort b"
  by (auto simp: open_bin_def split: prod.splits sum.splits)

lemma measure_active_reports:
  assumes "br_active b = Some base"
  obtains r where "br_reports (measure_bin q cfg b) = br_reports b @ [discovery_report q r]"
    and "br_abort (measure_bin q cfg b) = br_abort b" and "br_start (measure_bin q cfg b) = br_start b"
    and "br_cleanup (measure_bin q cfg b) = br_cleanup b"
proof -
  obtain r c where "tx_run_phase (env_ops (dq_env q) cfg) (configure_phase (dq_discovery_ms q) PowerDiscovery) base
      (br_cursor b) = (r, c)"
    by (cases "tx_run_phase (env_ops (dq_env q) cfg) (configure_phase (dq_discovery_ms q) PowerDiscovery) base
      (br_cursor b)")
  then show ?thesis by (intro that [of r]) (simp_all add: measure_bin_def assms)
qed

text \<open>A repetition that ends with nothing active and nothing wrong has run out of attempts without agreement.\<close>

lemma recheck_unresolved:
  assumes "br_active (recheck_bin q cfg i previous b) = None" and "br_abort (recheck_bin q cfg i previous b) = None"
    and "length (discovery_attempts b) < power_p99_max_attempts \<or>
      \<not> power_recheck_resolved (discovery_attempts b) (dq_power_limit_w q) previous"
  shows "\<not> power_recheck_resolved (discovery_attempts (recheck_bin q cfg i previous b)) (dq_power_limit_w q) previous"
  using assms
proof (induction q cfg i previous b rule: recheck_bin.induct)
  case (1 q cfg i previous b)
  show ?case
  proof (cases "length (discovery_attempts b) < power_p99_max_attempts \<and> br_abort b = None")
    case False
    then have "recheck_bin q cfg i previous b = b" by (simp add: recheck_bin.simps [of q cfg i previous b])
    then show ?thesis using "1.prems" False by auto
  next
    case True
    obtain sel c where sel: "mo_select (env_ops (dq_env q) cfg) i (br_cursor b) = (sel, c)"
      by (cases "mo_select (env_ops (dq_env q) cfg) i (br_cursor b)")
    show ?thesis
    proof (cases sel)
      case (Inl e)
      then show ?thesis using "1.prems"(2) True sel by (simp add: recheck_bin.simps [of q cfg i previous b])
    next
      case (Inr u)
      define b1 where "b1 = open_bin q cfg P99RetryStartFailed (b\<lparr>br_cursor := c, br_start := length (br_reports b)\<rparr>)"
      define b2 where "b2 = measure_bin q cfg b1"
      let ?stop = "hard_failure (sr_outcome (tr_report (last (br_reports b2)))) \<or>
        power_recheck_resolved (provisional (discovery_attempts b2)) (dq_power_limit_w q) previous"
      have eq: "recheck_bin q cfg i previous b = (if br_active b1 = None then b1 else if ?stop then b2
          else recheck_bin q cfg i previous (close_before_retry q cfg b2))"
        using True sel Inr by (simp add: recheck_bin.simps [of q cfg i previous b] b1_def b2_def Let_def)
      show ?thesis
      proof (cases "br_active b1")
        case None
        then show ?thesis using "1.prems"(2) eq open_abort [of q cfg] by (simp add: b1_def)
      next
        case (Some base)
        then have act2: "br_active b2 = Some base" by (simp add: b2_def)
        then have go: "\<not> ?stop" using "1.prems"(1) eq Some by (auto split: if_splits)
        then have eq': "recheck_bin q cfg i previous b = recheck_bin q cfg i previous (close_before_retry q cfg b2)"
          using eq Some by simp
        obtain r where r: "br_reports b2 = br_reports b1 @ [discovery_report q r]" "br_start b2 = br_start b1"
          using measure_active_reports [OF Some, of q cfg] by (metis b2_def)
        have start: "br_start b2 = length (br_reports b1)"
          using r(2) open_active [of q cfg P99RetryStartFailed] Some by (simp add: b1_def)
        have "\<not> power_recheck_resolved (discovery_attempts (close_before_retry q cfg b2)) (dq_power_limit_w q) previous"
          if "br_abort (close_before_retry q cfg b2) = None"
          using retry_views [OF act2 r(1) start _ that] go view_resolved by (auto simp: discovery_report_def)
        moreover have "br_abort (close_before_retry q cfg b2) = None"
        proof (rule ccontr)
          assume "br_abort (close_before_retry q cfg b2) \<noteq> None"
          then have "recheck_bin q cfg i previous (close_before_retry q cfg b2) = close_before_retry q cfg b2"
            by (simp add: recheck_bin.simps [of q cfg i previous "close_before_retry q cfg b2"])
          then show False using "1.prems"(2) eq' \<open>br_abort (close_before_retry q cfg b2) \<noteq> None\<close> by simp
        qed
        ultimately show ?thesis
          using "1.IH" [OF _ sel [symmetric] Inr b1_def _ b2_def refl go] "1.prems"(1,2) True Some eq' by simp
      qed
    qed
  qed
qed


text \<open>Agreement is never ambiguous against the limit, so an unresolved repetition has no consistent pair.\<close>

lemma reduce_max_usable:
  assumes "list_all usable_power xs" and "xs \<noteq> []"
  shows "\<exists>p. reduce_max xs = Some p \<and> usable_power p"
proof -
  obtain x ys a where xs: "xs = x # ys" "x = Fin a" "0 < a" using assms by (cases xs) (auto simp: usable_Fin)
  then show ?thesis
    using foldl_max_Fin [of ys a] assms(1) by (auto simp: usable_Fin)
qed

lemma usable_not_ambiguous:
  "usable_power p \<Longrightarrow> power_cap_state_with_previous (Some p) limit capped previous \<noteq> Ambiguous"
  by (auto simp: power_cap_state_with_previous_def opt_filter_def opt_bind_def unwrap_or_def split: option.splits if_splits)

lemma unresolved_inconsistent:
  assumes "\<not> power_recheck_resolved rs limit previous"
  shows "\<not> power_attempts_have_consistent_pair rs"
proof
  assume pair: "power_attempts_have_consistent_pair rs"
  then have "usable_powers rs \<noteq> []"
    by (auto simp: power_attempts_have_consistent_pair_def dest: any_pair_exists)
  then show False
    using assms pair reduce_max_usable [OF usable_powers_all, of rs] usable_not_ambiguous
    by (auto simp: power_recheck_resolved_def power_cap_state_for_attempts_def)
qed

lemma judged_without_pair:
  assumes "judge_attempts limit previous True rs = (conservative, cap, report, judged)"
    and "\<not> power_attempts_have_consistent_pair rs"
  shows "sr_outcome report \<noteq> OcValidated"
proof -
  obtain attempts1 where c: "confirm_power_attempts rs True = (None, attempts1)"
    using assms(2) by (auto simp: confirm_power_attempts_def Let_def)
  obtain cap2 attempts2 agg where fin: "finalize_power_cap_state attempts1 (aggregate_power_attempts attempts1 None) limit previous =
      (cap2, attempts2, agg)" by (cases "finalize_power_cap_state attempts1 (aggregate_power_attempts attempts1 None) limit previous")
  have "sr_outcome agg \<noteq> OcValidated"
    using fin find_SomeD [of "\<lambda>r. hard_failure (sr_outcome r)" attempts1]
    by (auto simp: finalize_power_cap_state_def aggregate_power_attempts_def Let_def split: if_splits option.splits)
  then show ?thesis
    using assms(1) c fin by (auto simp: judge_attempts_def Let_def power_bound_clock_drop_def split: if_splits)
qed

lemma judge_bin_keeps:
  assumes "judge_bin q previous rechecked b = (conservative, cap, report, b')"
  shows "br_active b' = br_active b" and "br_abort b' = br_abort b" and "br_cursor b' = br_cursor b"
    and "br_start b' = br_start b" and "br_cleanup b' = br_cleanup b"
  using assms by (auto simp: judge_bin_def Let_def split: prod.splits)

lemma begin_bin_inactive:
  assumes "begin_bin q cfg i last_power previous c = (rechecked, b)" and "br_active b = None" and "br_abort b = None"
  shows "rechecked \<and> \<not> power_attempts_have_consistent_pair (discovery_attempts b)"
proof -
  define b0 where "b0 = open_bin q cfg TransactionStartFailed
    \<lparr>br_cursor = c, br_reports = [], br_active = None, br_start = 0, br_cleanup = None, br_abort = None\<rparr>"
  define b1 where "b1 = measure_bin q cfg b0"
  have b: "b = (if rechecked then recheck_bin q cfg i previous (close_before_retry q cfg b1) else b1)"
    using assms(1) unfolding begin_bin_def Let_def b0_def [symmetric] b1_def [symmetric] by (auto simp only: prod.inject)
  show ?thesis
  proof (cases "br_active b0")
    case None
    then have "br_abort b1 \<noteq> None" "br_active b1 = None" using open_abort [of q cfg] by (simp_all add: b0_def b1_def measure_bin_def)
    then have "br_abort b \<noteq> None"
      by (cases rechecked) (simp_all add: b close_before_retry_def recheck_bin.simps [of q cfg i previous b1])
    then show ?thesis using assms(3) by simp
  next
    case (Some base)
    then have r: rechecked using assms(2) b by (auto simp: b1_def split: if_splits)
    have "length (discovery_attempts b1) = 1"
      using Some measure_attempts [of b0 q cfg] open_active [of q cfg TransactionStartFailed]
      by (simp add: b1_def b0_def discovery_attempts_def)
    then have "length (discovery_attempts (close_before_retry q cfg b1)) < power_p99_max_attempts"
      by (simp add: retry_attempts power_p99_max_attempts_def)
    then show ?thesis
      using recheck_unresolved [of q cfg i previous "close_before_retry q cfg b1"] assms(2,3) b r unresolved_inconsistent
      by auto
  qed
qed

lemma qualify_present:
  assumes "begin_bin q cfg i last_power previous c = (rechecked, b0)"
    and "judge_bin q previous rechecked b0 = (conservative, cap, report, b1)"
    and "qualify_bin q cfg prior mv report near b1 polls history = (None, b2, polls', history')"
    and "br_abort b1 = None"
  shows "\<not> should_qualify_discovery_candidate (sr_outcome report) near (dq_passes q)"
proof
  assume should: "should_qualify_discovery_candidate (sr_outcome report) near (dq_passes q)"
  then have none: "br_active b0 = None" "br_abort b0 = None"
    using assms(3,4) judge_bin_keeps [OF assms(2)]
    by (auto simp: qualify_bin_def split: if_splits option.splits prod.splits)
  note no = begin_bin_inactive [OF assms(1) none]
  have "\<exists>judged. judge_attempts (dq_power_limit_w q) previous True (discovery_attempts b0) = (conservative, cap, report, judged)"
    using assms(2) none no
    by (cases "judge_attempts (dq_power_limit_w q) previous True (discovery_attempts b0)") (simp add: judge_bin_def)
  then have "sr_outcome report \<noteq> OcValidated" using judged_without_pair no by blast
  then show False using should by (simp add: should_qualify_discovery_candidate_def)
qed

lemma qualify_keeps:
  assumes "qualify_bin q cfg prior mv report near b polls history = (qual, b', polls', history')"
  shows "br_abort b' = br_abort b" and "br_active b' = br_active b" and "br_cleanup b' = br_cleanup b"
    and "br_start b' = br_start b"
  using assms by (auto simp: qualify_bin_def split: if_splits option.splits prod.splits)

text \<open>The parts of a tested bin.\<close>

lemma test_bin_cases:
  assumes "test_bin q cs prior s = (e, s')"
  obtains cfg rechecked b0 conservative cap report0 b1 qual b2 polls history clean retain report failed res d
  where "cfg = bin_cfg q cs (ds_reference_mhz (ck_state s))"
    and "begin_bin q cfg (ds_index (ck_state s)) (ck_power s) (ck_cap s) (ck_cursor s) = (rechecked, b0)"
    and "judge_bin q (ck_cap s) rechecked b0 = (conservative, cap, report0, b1)"
    and "qualify_bin q cfg prior (anchor_mv (cs ! ds_index (ck_state s))) report0 (cap = NearCap) b1 (ck_polls s)
      (ck_history s) = (qual, b2, polls, history)"
    and "settle_bin report0 (close_bin q cfg b2) = (clean, retain, report, failed)"
    and "persist_candidate_reports (dq_env q) (clock_context q) (clock_qualification_context q) (dq_target_mhz q)
      (cs ! ds_index (ck_state s)) (br_reports (close_bin q cfg b2)) clean
      (mc_disk (snd (br_cursor (close_bin q cfg b2)))) = (res, d)"
    and "ck_machine s' = (snd (br_cursor (close_bin q cfg b2)))\<lparr>mc_disk := d\<rparr>"
    and "case res of
        Inl err \<Rightarrow> (e, ck_state s') = abort_with (ReportsNotPersisted err) (ck_state s) \<and> ck_executed s' = ck_executed s
      | Inr n \<Rightarrow> ck_executed s' = u64_sat_add (ck_executed s) n \<and>
          (e, ck_state s') = (case failed of
             Some why \<Rightarrow> abort_with why ((ck_state s)\<lparr>ds_retain := ds_retain (ck_state s) \<or> retain\<rparr>)
           | None \<Rightarrow> descent_turn (discovery_plan q cs) report (cap = NearCap) qual (ck_state s))"
proof -
  define cfg where "cfg = bin_cfg q cs (ds_reference_mhz (ck_state s))"
  let ?i = "ds_index (ck_state s)"
  obtain rechecked b0 where b: "begin_bin q cfg ?i (ck_power s) (ck_cap s) (ck_cursor s) = (rechecked, b0)"
    by (cases "begin_bin q cfg ?i (ck_power s) (ck_cap s) (ck_cursor s)")
  obtain conservative cap report0 b1 where j: "judge_bin q (ck_cap s) rechecked b0 = (conservative, cap, report0, b1)"
    by (cases "judge_bin q (ck_cap s) rechecked b0")
  obtain qual b2 polls history where u: "qualify_bin q cfg prior (anchor_mv (cs ! ?i)) report0 (cap = NearCap) b1 (ck_polls s)
      (ck_history s) = (qual, b2, polls, history)"
    by (cases "qualify_bin q cfg prior (anchor_mv (cs ! ?i)) report0 (cap = NearCap) b1 (ck_polls s) (ck_history s)")
  obtain clean retain report failed where w: "settle_bin report0 (close_bin q cfg b2) = (clean, retain, report, failed)"
    by (cases "settle_bin report0 (close_bin q cfg b2)")
  obtain res d where p: "persist_candidate_reports (dq_env q) (clock_context q) (clock_qualification_context q)
      (dq_target_mhz q) (cs ! ?i) (br_reports (close_bin q cfg b2)) clean
      (mc_disk (snd (br_cursor (close_bin q cfg b2)))) = (res, d)"
    by (cases "persist_candidate_reports (dq_env q) (clock_context q) (clock_qualification_context q)
      (dq_target_mhz q) (cs ! ?i) (br_reports (close_bin q cfg b2)) clean
      (mc_disk (snd (br_cursor (close_bin q cfg b2))))")
  let ?m = "(snd (br_cursor (close_bin q cfg b2)))\<lparr>mc_disk := d\<rparr>" and ?st = "ck_state s"
  define s1 where "s1 = s\<lparr>ck_cursor := (fst (br_cursor (close_bin q cfg b2)), ?m), ck_polls := polls, ck_history := history\<rparr>"
  have run: "test_bin q cs prior s = (case res of
      Inl err \<Rightarrow> set_state (abort_with (ReportsNotPersisted err) ?st) s1
    | Inr n \<Rightarrow>
        (case failed of
           Some why \<Rightarrow> set_state (abort_with why (?st\<lparr>ds_retain := ds_retain ?st \<or> retain\<rparr>))
             (s1\<lparr>ck_executed := u64_sat_add (ck_executed s) n\<rparr>)
         | None \<Rightarrow> set_state (descent_turn (discovery_plan q cs) report (cap = NearCap) qual ?st)
             (learn_power conservative cap report (s1\<lparr>ck_executed := u64_sat_add (ck_executed s) n\<rparr>))))"
    unfolding test_bin_def Let_def cfg_def [symmetric] b j u w p prod.case s1_def by simp
  have machine: "ck_machine s1 = ?m" "ck_executed s1 = ck_executed s" by (simp_all add: s1_def)
  have learn: "ck_machine (learn_power conservative cap report x) = ck_machine x"
    "ck_executed (learn_power conservative cap report x) = ck_executed x" for x :: "('a, 'b) clock_run"
    by (simp_all add: learn_power_def)
  have "ck_machine s' = ?m"
    using assms run machine learn by (auto simp: set_state_def split: sum.splits option.splits)
  moreover have "case res of
        Inl err \<Rightarrow> (e, ck_state s') = abort_with (ReportsNotPersisted err) ?st \<and> ck_executed s' = ck_executed s
      | Inr n \<Rightarrow> ck_executed s' = u64_sat_add (ck_executed s) n \<and>
          (e, ck_state s') = (case failed of
             Some why \<Rightarrow> abort_with why (?st\<lparr>ds_retain := ds_retain ?st \<or> retain\<rparr>)
           | None \<Rightarrow> descent_turn (discovery_plan q cs) report (cap = NearCap) qual ?st)"
    using assms run machine learn by (auto simp: set_state_def split: sum.splits option.splits)
  ultimately show ?thesis by (rule that [OF cfg_def b j u w p])
qed


lemma settle_none:
  assumes "settle_bin report b = (clean, retain, report', None)"
  shows "clean \<and> br_abort b = None \<and> sr_outcome report' = sr_outcome report"
  using assms by (auto simp: settle_bin_def Let_def split: if_splits)

lemma test_bin_turn:
  assumes "test_bin q cs prior s = (e, s')"
  shows "e \<noteq> ExpectPanics"
    and "e = NextTurn \<Longrightarrow> \<exists>r near qual. descent_turn (discovery_plan q cs) r near qual (ck_state s) = (NextTurn, ck_state s')"
proof -
  have "e \<noteq> ExpectPanics \<and>
    (e = NextTurn \<longrightarrow> (\<exists>r near qual. descent_turn (discovery_plan q cs) r near qual (ck_state s) = (NextTurn, ck_state s')))"
    using assms
  proof (cases rule: test_bin_cases)
    case (1 cfg rechecked b0 conservative cap report0 b1 qual b2 polls history clean retain report failed res d)
    show ?thesis
    proof (cases "\<exists>n. res = Inr n \<and> failed = None")
      case False
      then show ?thesis using 1(8) by (auto simp: abort_with_def split: sum.splits option.splits)
    next
      case True
      then have turn: "(e, ck_state s') = descent_turn (discovery_plan q cs) report (cap = NearCap) qual (ck_state s)"
        and settled: "br_abort b1 = None" "sr_outcome report = sr_outcome report0"
        using 1(8) settle_none [of report0 "close_bin q cfg b2" clean retain report] 1(5) qualify_keeps(1) [OF 1(4)] by auto
      have "e \<noteq> ExpectPanics"
      proof
        assume "e = ExpectPanics"
        then have "qual = None" "should_qualify_discovery_candidate (sr_outcome report0) (cap = NearCap) (dq_passes q)"
          using turn_needs_qualification [of "discovery_plan q cs" report "cap = NearCap" qual "ck_state s" "ck_state s'"]
            turn settled by (auto simp: discovery_plan_def)
        then show False using qualify_present [OF 1(2,3)] 1(4) settled(1) by blast
      qed
      then show ?thesis using turn by metis
    qed
  qed
  then show "e \<noteq> ExpectPanics"
    and "e = NextTurn \<Longrightarrow> \<exists>r near qual. descent_turn (discovery_plan q cs) r near qual (ck_state s) = (NextTurn, ck_state s')"
    by blast+
qed

lemma discovery_turn_cases:
  assumes "discovery_turn q cs condemned prior s = (e, s')"
  obtains "e = LastTurn" and "ck_machine s' = ck_machine s" and "ck_executed s' = ck_executed s"
      and "ds_retain (ck_state s') = ds_retain (ck_state s)"
      and "ds_last_qualified (ck_state s') = ds_last_qualified (ck_state s)"
  | c where "mo_select (env_ops (dq_env q) (bin_cfg q cs (ds_reference_mhz (ck_state s)))) (ds_index (ck_state s))
        (ck_cursor s) = (Inr (), c)"
      and "\<not> refuses condemned (dq_target_mhz q) (anchor_mv (cs ! ds_index (ck_state s)))"
      and "\<not> candidate_blacklisted (load_record (cx_record (en_codecs (dq_env q))) (mc_disk (ck_machine s)))
        (dq_target_mhz q) (ap_anchor (cs ! ds_index (ck_state s)))"
      and "test_bin q cs prior (s\<lparr>ck_polls := ck_polls s + 1, ck_cursor := c\<rparr>) = (e, s')"
proof -
  let ?ops = "env_ops (dq_env q) (bin_cfg q cs (ds_reference_mhz (ck_state s)))"
  obtain sel c where sel: "mo_select ?ops (ds_index (ck_state s)) (ck_cursor s) = (sel, c)"
    by (cases "mo_select ?ops (ds_index (ck_state s)) (ck_cursor s)")
  note quit = that(1) and test = that(2)
  have same: "snd c = ck_machine s" using env_select(1) [OF sel] .
  have ends: thesis if "(LastTurn, st) = d" "ds_retain st = ds_retain (ck_state s)"
      "ds_last_qualified st = ds_last_qualified (ck_state s)" "set_state d r = (e, s')"
      "ck_machine r = ck_machine s" "ck_executed r = ck_executed s" for d st r
    using that by (intro quit) (auto simp: set_state_def)
  have turn: "(if ds_known_failed (ck_state s) = Some (ds_index (ck_state s))
      then set_state (complete_with AdaptiveKnownFailureBoundary (ck_state s)) s
      else if dq_stop q (ck_polls s)
      then set_state (LastTurn, (ck_state s)\<lparr>ds_stop := DiscoveryCancelled\<rparr>) (s\<lparr>ck_polls := ck_polls s + 1\<rparr>)
      else if candidate_blacklisted (load_record (cx_record (en_codecs (dq_env q))) (mc_disk (ck_machine s)))
          (dq_target_mhz q) (ap_anchor (cs ! ds_index (ck_state s))) \<or>
        refuses condemned (dq_target_mhz q) (anchor_mv (cs ! ds_index (ck_state s)))
      then set_state (complete_with BlacklistedBoundary (ck_state s)) (s\<lparr>ck_polls := ck_polls s + 1\<rparr>)
      else case sel of
        Inl err \<Rightarrow> set_state (abort_with (SafetyPrecheckFailed err) (ck_state s))
          (s\<lparr>ck_polls := ck_polls s + 1, ck_cursor := c\<rparr>)
      | Inr _ \<Rightarrow> test_bin q cs prior (s\<lparr>ck_polls := ck_polls s + 1, ck_cursor := c\<rparr>)) = (e, s')"
    using assms unfolding discovery_turn_def Let_def sel by (cases sel) (simp_all only: prod.case sum.case)
  consider "ds_known_failed (ck_state s) = Some (ds_index (ck_state s))"
    | "ds_known_failed (ck_state s) \<noteq> Some (ds_index (ck_state s))" "dq_stop q (ck_polls s)"
    | "ds_known_failed (ck_state s) \<noteq> Some (ds_index (ck_state s))" "\<not> dq_stop q (ck_polls s)"
      "candidate_blacklisted (load_record (cx_record (en_codecs (dq_env q))) (mc_disk (ck_machine s)))
          (dq_target_mhz q) (ap_anchor (cs ! ds_index (ck_state s))) \<or>
        refuses condemned (dq_target_mhz q) (anchor_mv (cs ! ds_index (ck_state s)))"
    | "ds_known_failed (ck_state s) \<noteq> Some (ds_index (ck_state s))" "\<not> dq_stop q (ck_polls s)"
      "\<not> candidate_blacklisted (load_record (cx_record (en_codecs (dq_env q))) (mc_disk (ck_machine s)))
          (dq_target_mhz q) (ap_anchor (cs ! ds_index (ck_state s)))"
      "\<not> refuses condemned (dq_target_mhz q) (anchor_mv (cs ! ds_index (ck_state s)))"
    by blast
  then show ?thesis
  proof cases
    case 1
    show ?thesis by (rule ends [OF refl, of "(ck_state s)\<lparr>ds_completed := True, ds_stop := AdaptiveKnownFailureBoundary\<rparr>"
          "s"]) (use turn 1 in \<open>simp_all add: complete_with_def\<close>)
  next
    case 2
    show ?thesis by (rule ends [OF refl, of "(ck_state s)\<lparr>ds_stop := DiscoveryCancelled\<rparr>"
          "s\<lparr>ck_polls := ck_polls s + 1\<rparr>"]) (use turn 2 in simp_all)
  next
    case 3
    show ?thesis
      by (rule ends [OF refl, of "(ck_state s)\<lparr>ds_completed := True, ds_stop := BlacklistedBoundary\<rparr>"
          "s\<lparr>ck_polls := ck_polls s + 1\<rparr>"]) (use turn 3 in \<open>simp_all only: if_False if_True simp_thms complete_with_def, simp_all\<close>)
  next
    case 4
    then show ?thesis
    proof (cases sel)
      case (Inl err)
      show ?thesis
        by (rule ends [OF refl, of "(ck_state s)\<lparr>ds_aborted := True, ds_stop := SafetyPrecheckFailed err\<rparr>"
          "s\<lparr>ck_polls := ck_polls s + 1, ck_cursor := c\<rparr>"]) (use turn 4 Inl same in \<open>simp_all add: abort_with_def\<close>)
    next
      case (Inr u)
      then show ?thesis using turn 4 sel by (intro test) simp_all
    qed
  qed
qed

lemma discovery_turn_progress:
  assumes "discovery_turn q cs condemned prior s = (e, s')"
  shows "e \<noteq> ExpectPanics"
    and "e = NextTurn \<Longrightarrow> descent_inv (length cs) (ck_state s) \<Longrightarrow> ds_index (ck_state s) < length cs \<Longrightarrow>
      progress (length cs) (ck_state s) (ck_state s')"
proof -
  have "e \<noteq> ExpectPanics \<and> (e = NextTurn \<longrightarrow>
      (\<exists>r near qual. descent_turn (discovery_plan q cs) r near qual (ck_state s) = (NextTurn, ck_state s')))"
    using assms
  proof (cases rule: discovery_turn_cases)
    case (2 c)
    then show ?thesis using test_bin_turn [OF 2(4)] by simp
  qed simp
  then show "e \<noteq> ExpectPanics" by simp
  assume "e = NextTurn" and inv: "descent_inv (length cs) (ck_state s)" and idx: "ds_index (ck_state s) < length cs"
  then obtain r near qual where "descent_turn (discovery_plan q cs) r near qual (ck_state s) = (NextTurn, ck_state s')"
    using \<open>e \<noteq> ExpectPanics \<and> _\<close> by blast
  from turn_progress [OF this inv idx] show "progress (length cs) (ck_state s) (ck_state s')"
    by (simp add: discovery_plan_def)
qed

text \<open>The walk returns, keeps what every turn keeps, and pays for every turn out of what is left.\<close>

lemma walk_rule:
  assumes "descent_inv (length cs) (ck_state s)" and "J s"
    and "\<And>s e s'. J s \<Longrightarrow> ds_index (ck_state s) < length cs \<Longrightarrow> discovery_turn q cs condemned prior s = (e, s') \<Longrightarrow>
      (if e = NextTurn then J s' else K s')"
    and "\<And>s. J s \<Longrightarrow> \<not> ds_index (ck_state s) < length cs \<Longrightarrow> K s"
  shows "\<exists>e s'. walk_candidates q cs condemned prior s = Some (e, s') \<and> e \<noteq> ExpectPanics \<and> K s'"
  using assms(1,2)
proof (induction "turns_left (length cs) (ck_state s)" arbitrary: s rule: less_induct)
  case less
  show ?case
  proof (cases "ds_index (ck_state s) < length cs")
    case False
    then show ?thesis using assms(4) less.prems by (auto simp: walk_candidates.simps)
  next
    case True
    obtain e s' where t: "discovery_turn q cs condemned prior s = (e, s')"
      by (cases "discovery_turn q cs condemned prior s")
    note no_panic = discovery_turn_progress(1) [OF t]
    show ?thesis
    proof (cases "e = NextTurn")
      case go: True
      then have p: "progress (length cs) (ck_state s) (ck_state s')"
        using discovery_turn_progress(2) [OF t] less.prems(1) True by simp
      then show ?thesis
        using less.hyps [of s'] assms(3) [OF less.prems(2) True t] go t True
        by (auto simp: progress_def walk_candidates.simps [of q cs condemned prior s])
    next
      case False
      then show ?thesis
        using assms(3) [OF less.prems(2) True t] t True no_panic
        by (cases e) (auto simp: walk_candidates.simps [of q cs condemned prior s])
    qed
  qed
qed

lemma first_state_inv: "descent_inv n (first_state q su)"
  by (simp add: first_state_def descent_inv_def Let_def)

end
