(* ===== verification/F2ClockSafe.thy ===== *)
theory F2ClockSafe
  imports F2Clock
begin

text \<open>
  What the discovery of one clock guarantees: it returns and never panics, it tells whoever called it when the
  boot flag stands, and it appends observations of planned candidates alone that no condemned pair refuses.
\<close>

section \<open>A transaction of the motor\<close>

context f2_invariant
begin

lemma tx_finish_inv: "finish_f2_transaction_reports ops rs s = (out, s') \<Longrightarrow> inv s \<Longrightarrow> inv s'"
  by (auto simp: finish_f2_transaction_reports_def tx_record_def tx_conclude_def Let_def dest: inv_dests
      split: prod.splits option.splits sum.splits if_splits)

lemma tx_begin_inv: "begin_f2_candidate_transaction build ops s = (out, s') \<Longrightarrow> inv s \<Longrightarrow> inv s'"
  by (auto simp: begin_f2_candidate_transaction_def Let_def dest!: tx_finish_inv dest: inv_dests
      split: prod.splits sum.splits if_splits)

lemma tx_phase_inv: "tx_run_phase ops f base s = (r, s') \<Longrightarrow> inv (f s) \<Longrightarrow> inv s'"
  by (auto simp: tx_run_phase_def dest: inv_dests split: prod.splits)

end

text \<open>The flag stands while a transaction is open, and after one that could not be opened exactly when its
  cleanup says so.\<close>

context f2_descent
begin

lemma tx_begin_flag:
  assumes "begin_f2_candidate_transaction build ops s = (out, s')" and "\<not> armed s"
  shows "case out of Inr _ \<Rightarrow> armed s'
    | Inl (r, cl) \<Rightarrow> (armed s' \<longleftrightarrow> tx_retain_boot_flag cl) \<and> (tx_clean cl \<longrightarrow> \<not> tx_retain_boot_flag cl)"
proof -
  have finished: ?thesis
    if "(case finish_f2_transaction_reports ops [r] t of ((cl, rs), t') \<Rightarrow> (Inl (hd rs, cl), t')) = (out, s')" and "armed t" for r t
    using that transaction_settled [of "[r]" t]
    by (cases "finish_f2_transaction_reports ops [r] t") (auto simp: settled_def split: if_splits)
  obtain a s1 where a: "op_arm ops s = (a, s1)" by (cases "op_arm ops s")
  show ?thesis
  proof (cases a)
    case (Inl e)
    then show ?thesis
      using assms a arm_err [of s e] reset_keeps [of s1]
      by (auto simp: begin_f2_candidate_transaction_def Let_def split: prod.splits)
  next
    case (Inr u)
    then have up: "armed s1" using arm_ok [of s] a by simp
    obtain p s2 where p: "op_apply ops s1 = (p, s2)" by (cases "op_apply ops s1")
    obtain v s3 where v: "op_verify ops s2 = (v, s3)" by (cases "op_verify ops s2")
    have "armed s2" "armed s3" using apply_armed [OF up] verify_armed [of s2] p v by simp_all
    then show ?thesis
      using assms(1) a Inr p v finished
      by (cases p) (auto simp: begin_f2_candidate_transaction_def Let_def split: if_splits)
  qed
qed

lemma tx_phase_flag: "tx_run_phase ops f base s = (r, s') \<Longrightarrow> armed (f s) \<Longrightarrow> armed s'"
  using dwell_armed [of "f s"] by (auto simp: tx_run_phase_def split: prod.splits)

lemma tx_finish_flag:
  assumes "finish_f2_transaction_reports ops rs s = ((cl, rs'), s')" and "armed s"
  shows "(armed s' \<longleftrightarrow> tx_retain_boot_flag cl) \<and> (tx_clean cl \<longrightarrow> \<not> tx_retain_boot_flag cl)"
  using transaction_settled [OF assms] by (auto simp: settled_def split: if_splits)

end

section \<open>One bin\<close>

text \<open>The flag stands while a write is active; afterwards the cleanup tells it. The log is left alone.\<close>

definition bin_told :: "disk \<Rightarrow> ('x, 'g) bin_run \<Rightarrow> bool" where
  "bin_told d b \<longleftrightarrow> same_log d (mc_disk (snd (br_cursor b))) \<and>
     (if br_active b \<noteq> None then flag_up (snd (br_cursor b))
      else is_some_and (br_cleanup b)
        (\<lambda>cl. (flag_up (snd (br_cursor b)) \<longleftrightarrow> tx_retain_boot_flag cl) \<and> (tx_clean cl \<longrightarrow> \<not> tx_retain_boot_flag cl)))"

lemma configured [simp]: "snd (configure_phase ms purpose c) = snd c"
  by (simp add: configure_phase_def split: prod.split)

lemma open_told:
  assumes "\<not> flag_up (snd (br_cursor b))" and "same_log d (mc_disk (snd (br_cursor b)))"
  shows "bin_told d (open_bin q cfg failed b)"
proof -
  let ?ops = "env_ops (dq_env q) cfg"
  obtain out c where o: "begin_f2_candidate_transaction (en_build (dq_env q)) ?ops (br_cursor b) = (out, c)"
    by (cases "begin_f2_candidate_transaction (en_build (dq_env q)) ?ops (br_cursor b)")
  have "same_log d (mc_disk (snd c))" using log_kept.tx_begin_inv [OF o [unfolded env_ops_def]] assms(2) .
  then show ?thesis
    using cursor.tx_begin_flag [OF o [unfolded env_ops_def] assms(1)] o
    by (auto simp: open_bin_def bin_told_def is_some_and_def split: sum.splits)
qed

lemma measure_told: "bin_told d b \<Longrightarrow> bin_told d (measure_bin q cfg b)"
proof (cases "br_active b")
  case (Some base)
  let ?ops = "env_ops (dq_env q) cfg" and ?f = "configure_phase (dq_discovery_ms q) PowerDiscovery"
  assume told: "bin_told d b"
  obtain r c where r: "tx_run_phase ?ops ?f base (br_cursor b) = (r, c)" by (cases "tx_run_phase ?ops ?f base (br_cursor b)")
  have "same_log d (mc_disk (snd c))" "flag_up (snd c)"
    using log_kept.tx_phase_inv [OF r [unfolded env_ops_def], of d] cursor.tx_phase_flag [OF r [unfolded env_ops_def]] told Some
    by (simp_all add: bin_told_def)
  then show ?thesis using Some r by (simp add: measure_bin_def bin_told_def)
qed (simp add: measure_bin_def)

lemma close_told: "bin_told d b \<Longrightarrow> bin_told d (close_bin q cfg b)"
proof (cases "br_active b")
  case (Some base)
  let ?ops = "env_ops (dq_env q) cfg" and ?rs = "map tr_report (drop (br_start b) (br_reports b))"
  assume told: "bin_told d b"
  obtain cl rs c where f: "finish_f2_transaction_reports ?ops ?rs (br_cursor b) = ((cl, rs), c)"
    by (cases "finish_f2_transaction_reports ?ops ?rs (br_cursor b)") auto
  have "same_log d (mc_disk (snd c))"
    using log_kept.tx_finish_inv [OF f [unfolded env_ops_def], of d] told by (simp add: bin_told_def)
  then show ?thesis
    using cursor.tx_finish_flag [OF f [unfolded env_ops_def]] told Some f
    by (simp add: close_bin_def bin_told_def is_some_and_def Let_def)
qed (simp add: close_bin_def)

lemma retry_told: "bin_told d b \<Longrightarrow> bin_told d (close_before_retry q cfg b)"
  using close_told [of d b q cfg]
  by (auto simp: close_before_retry_def bin_told_def is_some_and_def Let_def split: option.splits if_splits)

lemma recheck_told:
  assumes "bin_told d b" and "br_active b = None"
  shows "bin_told d (recheck_bin q cfg i previous b)"
  using assms
proof (induction q cfg i previous b rule: recheck_bin.induct)
  case (1 q cfg i previous b)
  show ?case
  proof (cases "length (discovery_attempts b) < power_p99_max_attempts \<and> br_abort b = None")
    case False
    then show ?thesis using "1.prems" by (simp add: recheck_bin.simps [of q cfg i previous b])
  next
    case True
    obtain sel c where sel: "mo_select (env_ops (dq_env q) cfg) i (br_cursor b) = (sel, c)"
      by (cases "mo_select (env_ops (dq_env q) cfg) i (br_cursor b)")
    note same = env_select(1) [OF sel]
    show ?thesis
    proof (cases sel)
      case (Inl e)
      then show ?thesis
        using "1.prems" True sel same by (simp add: recheck_bin.simps [of q cfg i previous b] bin_told_def)
    next
      case (Inr u)
      define b1 where "b1 = open_bin q cfg P99RetryStartFailed (b\<lparr>br_cursor := c, br_start := length (br_reports b)\<rparr>)"
      define b2 where "b2 = measure_bin q cfg b1"
      let ?stop = "hard_failure (sr_outcome (tr_report (last (br_reports b2)))) \<or>
        power_recheck_resolved (provisional (discovery_attempts b2)) (dq_power_limit_w q) previous"
      have eq: "recheck_bin q cfg i previous b = (if br_active b1 = None then b1 else if ?stop then b2
          else recheck_bin q cfg i previous (close_before_retry q cfg b2))"
        using True sel Inr by (simp add: recheck_bin.simps [of q cfg i previous b] b1_def b2_def Let_def)
      have told: "bin_told d b1"
        unfolding b1_def using env_select(2) [OF sel] Inr same "1.prems" by (intro open_told) (simp_all add: bin_told_def)
      have told2: "bin_told d b2" unfolding b2_def by (rule measure_told [OF told])
      show ?thesis
      proof (cases "br_active b1 = None \<or> ?stop")
        case False
        then show ?thesis
          using "1.IH" [OF _ sel [symmetric] Inr b1_def _ b2_def refl] True eq retry_told [OF told2] told by simp
      qed (use eq told told2 in auto)
    qed
  qed
qed

lemma begin_told:
  assumes "begin_bin q cfg i last_power previous c = (rechecked, b)"
    and "\<not> flag_up (snd c)" and "same_log d (mc_disk (snd c))"
  shows "bin_told d b"
proof -
  define b1 where "b1 = measure_bin q cfg (open_bin q cfg TransactionStartFailed
    \<lparr>br_cursor = c, br_reports = [], br_active = None, br_start = 0, br_cleanup = None, br_abort = None\<rparr>)"
  have b: "b = (if rechecked then recheck_bin q cfg i previous (close_before_retry q cfg b1) else b1)"
    using assms(1) unfolding begin_bin_def Let_def b1_def [symmetric] by (auto simp only: prod.inject)
  have "bin_told d b1" unfolding b1_def using assms(2,3) by (intro measure_told open_told) simp_all
  from recheck_told [OF retry_told [OF this]] this show ?thesis using b by simp
qed

lemma judge_told:
  assumes "judge_bin q previous rechecked b = (conservative, cap, report, b')" and "bin_told d b"
  shows "bin_told d b'"
  using assms(2) by (simp add: bin_told_def judge_bin_keeps [OF assms(1)])

lemma qualify_told:
  assumes "qualify_bin q cfg prior mv report near b polls history = (qual, b', polls', history')" and "bin_told d b"
  shows "bin_told d b'"
proof (cases "b' = b")
  case False
  then obtain base oc a a0 where a: "qualify_active_anchored_candidate (dq_env q) cfg base (dq_target_mhz q)
      (dq_qualification_ms q) (dq_passes q) (dq_goldens q) (dq_stop q) a0 = (oc, a)" "ar_cursor a0 = br_cursor b"
      "b' = b\<lparr>br_cursor := ar_cursor a, br_reports := ar_reports a\<rparr>"
    using assms(1) by (auto simp: qualify_bin_def split: if_splits option.splits prod.splits)
  have "mc_disk (snd (ar_cursor a)) = mc_disk (snd (br_cursor b))"
    using active_qualification_shape [where env = "dq_env q" and cfg = cfg and base = base and target = "dq_target_mhz q"
        and dwell_ms = "dq_qualification_ms q" and passes = "dq_passes q" and goldens = "dq_goldens q"
        and stop = "dq_stop q" and a = a0] a by simp
  then show ?thesis using assms(2) a(3) by (simp add: bin_told_def)
qed (use assms in simp)

lemma settle_told:
  assumes "settle_bin report b = (clean, retain, report', failed)" and "bin_told d b" and "br_active b = None"
  shows "same_log d (mc_disk (snd (br_cursor b))) \<and>
    (if flag_up (snd (br_cursor b)) then retain \<and> failed \<noteq> None else True)"
  using assms
  by (auto simp: settle_bin_def bin_told_def is_some_and_def is_none_or_def Let_def split: option.splits if_splits)

section \<open>The persisted reports\<close>

text \<open>What is appended is a part of what was to be appended, from its start; the flag is left alone.\<close>

lemma append_all_part:
  assumes "append_all c obs d = (res, d')"
  shows "is_boot_flag_armed d' = is_boot_flag_armed d \<and> (observations_ready c d \<longrightarrow> observations_ready c d' \<and>
    (\<exists>n. load_observations c d' = load_observations c d @ take n obs))"
  using assms
proof (induction obs arbitrary: d)
  case (Cons ob obs)
  obtain r d1 where a: "append_observation c ob d = (r, d1)" by (cases "append_observation c ob d")
  note flag = append_observation_flag [of c ob d, unfolded a]
  show ?case
  proof (cases r)
    case (Inl e)
    then show ?thesis
      using Cons.prems a flag obs_log.add_err [of c ob d e] by (auto intro: exI [of _ 0])
  next
    case (Inr u)
    have "append_all c obs d1 = (res, d')" using Cons.prems a Inr by simp
    from Cons.IH [OF this] show ?thesis
      using flag obs_log.add_ok [of c d ob] obs_log.add_intact [of c d ob] a Inr
      by (auto intro: exI [of _ "Suc _"])
  qed
qed (auto intro: exI [of _ 0])

lemma persist_part:
  assumes "persist_candidate_reports env discovery qualification target cand reports clean d = (res, d')"
  shows "is_boot_flag_armed d' = is_boot_flag_armed d" and "observations_ready (en_observations env) d \<Longrightarrow>
    observations_ready (en_observations env) d' \<and>
    (\<exists>new. load_observations (en_observations env) d' = load_observations (en_observations env) d @ new \<and>
      (\<forall>ob\<in>set new. fo_target_mhz ob = target \<and> fo_anchor_mv ob = anchor_mv cand))"
proof -
  let ?obs = "map (\<lambda>i. timed_observation env discovery qualification target cand (reports ! i))
      (candidate_persist_order reports clean)"
  obtain r where a: "append_all (en_observations env) ?obs d = (r, d')"
    using assms by (auto simp: persist_candidate_reports_def Let_def split: prod.splits sum.splits)
  note part = append_all_part [OF a]
  show "is_boot_flag_armed d' = is_boot_flag_armed d" using part by simp
  assume ready: "observations_ready (en_observations env) d"
  then obtain n where n: "load_observations (en_observations env) d' = load_observations (en_observations env) d @ take n ?obs"
    "observations_ready (en_observations env) d'"
    using part by blast
  have "fo_target_mhz ob = target \<and> fo_anchor_mv ob = anchor_mv cand" if "ob \<in> set (take n ?obs)" for ob
    using set_take_subset [of n ?obs] that by (auto simp: timed_observation_def observation_outcome)
  then show "observations_ready (en_observations env) d' \<and>
    (\<exists>new. load_observations (en_observations env) d' = load_observations (en_observations env) d @ new \<and>
      (\<forall>ob\<in>set new. fo_target_mhz ob = target \<and> fo_anchor_mv ob = anchor_mv cand))"
    using n by blast
qed

section \<open>The walk\<close>

text \<open>An observation of a planned candidate that no condemned pair refuses.\<close>

definition allowed_observation :: "u32 \<Rightarrow> anchored_plan list \<Rightarrow> condemned_pairs \<Rightarrow> f2_observation \<Rightarrow> bool" where
  "allowed_observation target cs condemned ob \<longleftrightarrow>
     fo_target_mhz ob = target \<and> \<not> refuses condemned target (fo_anchor_mv ob) \<and>
     (\<exists>cand\<in>set cs. fo_anchor_mv ob = anchor_mv cand)"

definition log_grown ::
  "f2_observation codec \<Rightarrow> (f2_observation \<Rightarrow> bool) \<Rightarrow> disk \<Rightarrow> disk \<Rightarrow> bool" where
  "log_grown c P d d' \<longleftrightarrow> (observations_ready c d \<longrightarrow> observations_ready c d' \<and>
     (\<exists>new. load_observations c d' = load_observations c d @ new \<and> (\<forall>ob\<in>set new. P ob)))"

lemma log_grown_refl [simp]: "log_grown c P d d"
  by (simp add: log_grown_def)

lemma log_grown_trans: "log_grown c P d d1 \<Longrightarrow> log_grown c P d1 d2 \<Longrightarrow> log_grown c P d d2"
  by (fastforce simp: log_grown_def)

lemma log_grown_same: "same_log d d' \<Longrightarrow> log_grown c P d d'"
  using same_log_ready [of d d' c] same_log_load [of d d' c] by (simp add: log_grown_def)

lemma persist_grown:
  assumes "persist_candidate_reports env discovery qualification target cand reports clean d = (res, d')"
    and "\<And>ob. fo_target_mhz ob = target \<Longrightarrow> fo_anchor_mv ob = anchor_mv cand \<Longrightarrow> P ob"
  shows "log_grown (en_observations env) P d d'"
  using persist_part(2) [OF assms(1)] assms(2) unfolding log_grown_def by blast

text \<open>The flag is told: it stands only when the state says so, or when the reports could not be kept.\<close>

definition state_tells :: "bool \<Rightarrow> descent_state \<Rightarrow> bool" where
  "state_tells up st \<longleftrightarrow> (up \<longrightarrow> ds_aborted st \<and> (ds_retain st \<or> (\<exists>e. ds_stop st = ReportsNotPersisted e)))"

lemma test_bin_told:
  assumes "test_bin q cs prior s = (e, s')" and "\<not> flag_up (ck_machine s)" and "ds_index (ck_state s) < length cs"
    and "\<not> refuses condemned (dq_target_mhz q) (anchor_mv (cs ! ds_index (ck_state s)))"
  shows "state_tells (flag_up (ck_machine s')) (ck_state s')" and "e = NextTurn \<Longrightarrow> \<not> flag_up (ck_machine s')"
    and "log_grown (en_observations (dq_env q)) (allowed_observation (dq_target_mhz q) cs condemned)
      (mc_disk (ck_machine s)) (mc_disk (ck_machine s'))"
proof -
  let ?told = "state_tells (flag_up (ck_machine s')) (ck_state s') \<and> (e = NextTurn \<longrightarrow> \<not> flag_up (ck_machine s')) \<and>
    log_grown (en_observations (dq_env q)) (allowed_observation (dq_target_mhz q) cs condemned)
      (mc_disk (ck_machine s)) (mc_disk (ck_machine s'))"
  have ?told
    using assms(1)
  proof (cases rule: test_bin_cases)
    case (1 cfg rechecked b0 conservative cap report0 b1 qual b2 polls history clean retain report failed res d)
    let ?b = "close_bin q cfg b2" and ?d = "mc_disk (ck_machine s)"
    have "bin_told ?d b0" by (rule begin_told [OF 1(2) assms(2)]) simp
    then have "bin_told ?d ?b" by (intro close_told qualify_told [OF 1(4)] judge_told [OF 1(3)])
    from settle_told [OF 1(5) this]
    have told: "same_log ?d (mc_disk (snd (br_cursor ?b)))" "flag_up (snd (br_cursor ?b)) \<Longrightarrow> retain \<and> failed \<noteq> None"
      by (auto split: if_splits)
    have flag: "flag_up (ck_machine s') = flag_up (snd (br_cursor ?b))"
      using persist_part(1) [OF 1(6)] 1(7) by simp
    have "log_grown (en_observations (dq_env q)) (allowed_observation (dq_target_mhz q) cs condemned)
        (mc_disk (snd (br_cursor ?b))) d"
      using assms(3,4) nth_mem by (intro persist_grown [OF 1(6)]) (auto simp: allowed_observation_def)
    from log_grown_trans [OF log_grown_same [OF told(1)] this]
    have log: "log_grown (en_observations (dq_env q)) (allowed_observation (dq_target_mhz q) cs condemned)
        ?d (mc_disk (ck_machine s'))" by (simp add: 1(7))
    show ?thesis
    proof (cases "\<exists>n. res = Inr n \<and> failed = None")
      case True
      then show ?thesis using flag told(2) log by (auto simp: state_tells_def)
    next
      case False
      then have "e = LastTurn \<and> state_tells (flag_up (ck_machine s')) (ck_state s')"
        using 1(8) flag told(2) by (auto simp: abort_with_def state_tells_def split: sum.splits option.splits)
      then show ?thesis using log by simp
    qed
  qed
  then show "state_tells (flag_up (ck_machine s')) (ck_state s')" and "e = NextTurn \<Longrightarrow> \<not> flag_up (ck_machine s')"
    and "log_grown (en_observations (dq_env q)) (allowed_observation (dq_target_mhz q) cs condemned)
      (mc_disk (ck_machine s)) (mc_disk (ck_machine s'))"
    by blast+
qed

lemma discovery_turn_told:
  assumes "discovery_turn q cs condemned prior s = (e, s')" and "\<not> flag_up (ck_machine s)"
    and "ds_index (ck_state s) < length cs"
  shows "state_tells (flag_up (ck_machine s')) (ck_state s')" and "e = NextTurn \<Longrightarrow> \<not> flag_up (ck_machine s')"
    and "log_grown (en_observations (dq_env q)) (allowed_observation (dq_target_mhz q) cs condemned)
      (mc_disk (ck_machine s)) (mc_disk (ck_machine s'))"
proof -
  have "state_tells (flag_up (ck_machine s')) (ck_state s') \<and> (e = NextTurn \<longrightarrow> \<not> flag_up (ck_machine s')) \<and>
    log_grown (en_observations (dq_env q)) (allowed_observation (dq_target_mhz q) cs condemned)
      (mc_disk (ck_machine s)) (mc_disk (ck_machine s'))"
    using assms(1)
  proof (cases rule: discovery_turn_cases)
    case 1
    then show ?thesis using assms(2) by (simp add: state_tells_def)
  next
    case (2 c)
    have "snd c = ck_machine s" using env_select(1) [OF 2(1)] by simp
    then show ?thesis using test_bin_told [OF 2(4) _ _ _] 2(2) assms(2,3) by simp
  qed
  then show "state_tells (flag_up (ck_machine s')) (ck_state s')" and "e = NextTurn \<Longrightarrow> \<not> flag_up (ck_machine s')"
    and "log_grown (en_observations (dq_env q)) (allowed_observation (dq_target_mhz q) cs condemned)
      (mc_disk (ck_machine s)) (mc_disk (ck_machine s'))"
    by blast+
qed

lemma walk_told:
  assumes "descent_inv (length cs) (ck_state s)" and "\<not> flag_up (ck_machine s)"
  shows "\<exists>e s'. walk_candidates q cs condemned prior s = Some (e, s') \<and> e \<noteq> ExpectPanics \<and>
    state_tells (flag_up (ck_machine s')) (ck_state s') \<and>
    log_grown (en_observations (dq_env q)) (allowed_observation (dq_target_mhz q) cs condemned)
      (mc_disk (ck_machine s)) (mc_disk (ck_machine s'))"
proof (rule walk_rule [OF assms(1), where J = "\<lambda>s'. \<not> flag_up (ck_machine s') \<and>
      log_grown (en_observations (dq_env q)) (allowed_observation (dq_target_mhz q) cs condemned)
        (mc_disk (ck_machine s)) (mc_disk (ck_machine s'))"], goal_cases)
  case (2 t e t')
  then show ?case
    using discovery_turn_told [OF 2(3) _ 2(2)] log_grown_trans by (cases "e = NextTurn") auto
next
  case (3 t)
  then show ?case by (simp add: state_tells_def)
qed (use assms in simp)

section \<open>The boundary gate\<close>

lemma plain_gate_told:
  assumes "gate_anchored_candidate p g = (oc, g')" and "\<not> gp_exact_apply p" and "\<not> gate_flag g"
  shows "flag_told oc (gate_flag g')"
  using assms(1)
proof (cases rule: gate_cases)
  case missing
  then show ?thesis using assms(3) by (simp add: flag_told_def)
next
  case (stopped goldens)
  then show ?thesis using gate_patterns_told [OF stopped(2)] assms(3) by simp
next
  case (plain goldens)
  then show ?thesis using gate_patterns_told [OF plain(4)] assms(3) by (simp add: flag_told_def)
next
  case (endurance goldens s1)
  then show ?thesis using assms(2) by simp
qed

text \<open>After the gate the flag may also stand because an observation of the gate could not be kept.\<close>

definition gate_tells :: "bool \<Rightarrow> descent_state \<Rightarrow> bool" where
  "gate_tells up st \<longleftrightarrow> (up \<longrightarrow> ds_aborted st \<and>
     (ds_retain st \<or> (\<exists>e. ds_stop st = ReportsNotPersisted e) \<or> (\<exists>e. ds_stop st = QualificationAborted (PersistFailed e))))"

lemma boundary_gate_told:
  "boundary_gate q cs i st g = (st', g') \<Longrightarrow> \<not> gate_flag g \<Longrightarrow> gate_tells (gate_flag g') st'"
proof (induction q cs i st g rule: boundary_gate.induct)
  case (1 q cs i st g)
  obtain oc g1 where gate: "gate_anchored_candidate (boundary_gate_params q (cs ! i)) g = (oc, g1)"
    by (cases "gate_anchored_candidate (boundary_gate_params q (cs ! i)) g")
  have told: "flag_told oc (gate_flag g1)"
    by (rule plain_gate_told [OF gate _ "1.prems"(2)]) (simp add: boundary_gate_params_def)
  show ?case
  proof (cases oc)
    case (Rejected stage why)
    then have low: "\<not> gate_flag g1" using told by (simp add: flag_told_def)
    show ?thesis
    proof (cases i)
      case 0
      then show ?thesis
        using "1.prems"(1) gate Rejected low by (auto simp: boundary_gate.simps [of q cs 0] gate_tells_def)
    next
      case (Suc j)
      then have "boundary_gate q cs j st g1 = (st', g')"
        using "1.prems"(1) gate Rejected by (simp add: boundary_gate.simps [of q cs "Suc j"])
      then show ?thesis using "1.IH" [OF gate [symmetric] Rejected] Suc low by simp
    qed
  qed (use "1.prems"(1) gate told in \<open>auto simp: boundary_gate.simps [of q cs i] gate_tells_def flag_told_def\<close>)
qed

lemma accept_told:
  assumes "state_tells (flag_up (ck_machine s)) (ck_state s)"
  shows "gate_tells (flag_up (ck_machine (accept_boundary q cs s))) (ck_state (accept_boundary q cs s))"
proof -
  have same: ?thesis if "ck_machine (accept_boundary q cs s) = ck_machine s" "ck_state (accept_boundary q cs s) = ck_state s"
    using assms that by (auto simp: state_tells_def gate_tells_def)
  show ?thesis
  proof (cases "dq_final_gate_passes q > 0 \<and> \<not> ds_aborted (ck_state s) \<and> \<not> dq_stop q (ck_polls s)")
    case False
    then show ?thesis by (intro same) (auto simp: accept_boundary_def Let_def)
  next
    case True
    show ?thesis
    proof (cases "ds_last_qualified (ck_state s)")
      case None
      then show ?thesis using True by (intro same) (simp_all add: accept_boundary_def Let_def)
    next
      case (Some i)
      have low: "\<not> flag_up (ck_machine s)" using assms True by (auto simp: state_tells_def)
      obtain st g where b: "boundary_gate q cs i ((ck_state s)\<lparr>ds_completed := False\<rparr>)
          \<lparr>gr_machine = ck_machine s, gr_polls = ck_polls s + 1, gr_executed = ck_executed s\<rparr> = (st, g)"
        by (metis surj_pair)
      then show ?thesis
        using boundary_gate_told [OF b] low True Some by (simp add: accept_boundary_def Let_def)
    qed
  qed
qed

section \<open>Properties\<close>

lemma discovery_run:
  fixes q :: "('x, 'g) discovery_request"
  obtains (refused) "run_clock_discovery q m polls = Some (Inr (discovery_refused, m, polls))"
  | (walked) e s where "e \<noteq> ExpectPanics"
      and "walk_candidates q (su_candidates (plan_discovery q (mc_disk m)))
        (scoped_condemned (dq_ledger q) (dq_ledger_run_scoped q) (dq_gpu_key q) (dq_run_id q) (mc_disk m))
        (discovery_prior q (mc_disk m))
        \<lparr>ck_state = first_state q (plan_discovery q (mc_disk m)),
          ck_cursor = configure_phase (dq_discovery_ms q) PowerDiscovery
            (fresh_cursor (dq_sane q) (dq_limits q) (dq_target_mhz q), m),
          ck_polls = polls, ck_executed = 0, ck_history = empty_margins, ck_power = None, ck_cap = None\<rparr> = Some (e, s)"
      and "run_clock_discovery q m polls = Some (Inr
        (summarize_discovery q (plan_discovery q (mc_disk m))
           (accept_boundary q (su_candidates (plan_discovery q (mc_disk m))) s),
         ck_machine (accept_boundary q (su_candidates (plan_discovery q (mc_disk m))) s),
         ck_polls (accept_boundary q (su_candidates (plan_discovery q (mc_disk m))) s)))"
      and "\<not> flag_up m \<Longrightarrow> state_tells (flag_up (ck_machine s)) (ck_state s) \<and>
        log_grown (en_observations (dq_env q)) (allowed_observation (dq_target_mhz q)
          (su_candidates (plan_discovery q (mc_disk m)))
          (scoped_condemned (dq_ledger q) (dq_ledger_run_scoped q) (dq_gpu_key q) (dq_run_id q) (mc_disk m)))
          (mc_disk m) (mc_disk (ck_machine s))"
proof -
  note refuse = that(1) and walk = that(2)
  define cs where "cs = su_candidates (plan_discovery q (mc_disk m))"
  define condemned where "condemned =
    scoped_condemned (dq_ledger q) (dq_ledger_run_scoped q) (dq_gpu_key q) (dq_run_id q) (mc_disk m)"
  define s0 :: "('x, 'g) clock_run" where "s0 = \<lparr>ck_state = first_state q (plan_discovery q (mc_disk m)),
      ck_cursor = configure_phase (dq_discovery_ms q) PowerDiscovery
        (fresh_cursor (dq_sane q) (dq_limits q) (dq_target_mhz q), m),
      ck_polls = polls, ck_executed = 0, ck_history = empty_margins, ck_power = None, ck_cap = None\<rparr>"
  have inv: "descent_inv (length cs) (ck_state s0)" by (simp add: s0_def first_state_inv)
  have m: "ck_machine s0 = m" by (simp add: s0_def)
  obtain e s where w: "walk_candidates q cs condemned (discovery_prior q (mc_disk m)) s0 = Some (e, s)" "e \<noteq> ExpectPanics"
    using walk_rule [OF inv, of "\<lambda>_. True" q condemned "discovery_prior q (mc_disk m)" "\<lambda>_. True"] by auto
  have told: "state_tells (flag_up (ck_machine s)) (ck_state s) \<and>
      log_grown (en_observations (dq_env q)) (allowed_observation (dq_target_mhz q) cs condemned) (mc_disk m) (mc_disk (ck_machine s))"
    if "\<not> flag_up m"
    using walk_told [OF inv, of q condemned "discovery_prior q (mc_disk m)"] that w(1) m by auto
  show ?thesis
  proof (cases "length cs > 0 \<and> confirmed_f2_multi_refusal (load_record (cx_record (en_codecs (dq_env q))) (mc_disk m))
      (is_boot_flag_armed (mc_disk m)) (Some (length cs)) (length cs) (length cs) \<noteq> None")
    case True
    then show ?thesis by (intro refuse) (simp add: run_clock_discovery_def Let_def cs_def)
  next
    case False
    have "run_clock_discovery q m polls = Some (Inr (summarize_discovery q (plan_discovery q (mc_disk m)) (accept_boundary q cs s),
        ck_machine (accept_boundary q cs s), ck_polls (accept_boundary q cs s)))"
      using w unfolding run_clock_discovery_def Let_def
      by (cases e) (simp_all only: cs_def condemned_def s0_def if_not_P [OF False [unfolded cs_def]] option.case prod.case turn_end.case
          simp_thms if_False turn_end.distinct)
    then show ?thesis using walk [OF w(2) w(1) [unfolded cs_def condemned_def s0_def]] told
      by (simp add: cs_def condemned_def)
  qed
qed

text \<open>C21: the discovery of a clock always returns, and never through the panic of an expected qualification.
  Whatever the card, the workloads, the logs and the cancellation do, the adaptive walk, with its jumps over
  power-bound bins and its bisections after a failure, comes to an end.\<close>

theorem discovery_ends:
  "\<exists>summary m' polls'. run_clock_discovery q m polls = Some (Inr (summary, m', polls'))"
  by (cases rule: discovery_run [of q m polls]) auto

text \<open>C22: what a discovery leaves of the boot flag. Started with the flag down, it ends with the flag up only
  when it says that it aborted, and then it also says that the flag is to be retained, unless what stopped it
  is an observation that could not be kept.\<close>

theorem discovery_tells_flag:
  assumes "run_clock_discovery q m polls = Some (Inr (summary, m', polls'))"
    and "\<not> is_boot_flag_armed (mc_disk m)" and "is_boot_flag_armed (mc_disk m')"
  shows "dy_aborted summary \<and> (dy_retain_boot_flag summary \<or>
    (\<exists>e. dy_stop_reason summary \<in> {ReportsNotPersisted e, QualificationAborted (PersistFailed e)}))"
proof (cases rule: discovery_run [of q m polls])
  case (walked e s)
  let ?s = "accept_boundary q (su_candidates (plan_discovery q (mc_disk m))) s"
  have "gate_tells (flag_up (ck_machine ?s)) (ck_state ?s)" using accept_told walked(4) assms(2) by blast
  then show ?thesis using walked(3) assms(1,3) by (auto simp: gate_tells_def summarize_discovery_def Let_def)
qed (use assms in simp)

text \<open>C23: what a discovery tests. With the flag down and the final gate off, as every caller has it, the log
  grows only by observations of this clock at anchors of the resumed plan that no condemned pair in force at
  its start refuses, also when it is cut short by an observation that could not be kept.\<close>

theorem discovery_tests_only_allowed:
  assumes "run_clock_discovery q m polls = Some (Inr (summary, m', polls'))"
    and "\<not> is_boot_flag_armed (mc_disk m)" and "dq_final_gate_passes q = 0"
    and "observations_ready (en_observations (dq_env q)) (mc_disk m)"
  shows "\<exists>new. load_observations (en_observations (dq_env q)) (mc_disk m') =
      load_observations (en_observations (dq_env q)) (mc_disk m) @ new \<and>
    (\<forall>ob\<in>set new. fo_target_mhz ob = dq_target_mhz q \<and>
       fo_anchor_mv ob \<in> anchor_mv ` set (su_candidates (plan_discovery q (mc_disk m))) \<and>
       \<not> refuses (scoped_condemned (dq_ledger q) (dq_ledger_run_scoped q) (dq_gpu_key q) (dq_run_id q) (mc_disk m))
           (dq_target_mhz q) (fo_anchor_mv ob))"
proof (cases rule: discovery_run [of q m polls])
  case (walked e s)
  let ?s = "accept_boundary q (su_candidates (plan_discovery q (mc_disk m))) s"
  have "ck_machine ?s = ck_machine s" using assms(3) by (simp add: accept_boundary_def)
  then show ?thesis
    using walked(3,4) assms(1,2,4) by (fastforce simp: log_grown_def allowed_observation_def)
qed (use assms in simp)

section \<open>Witnesses\<close>

text \<open>A card that answers no call, beside a log that takes no observation.\<close>

definition dead_vendor :: "unit vendor" where
  "dead_vendor =
     \<lparr>ven_locks = (\<lambda>_. None), ven_set_locks = (\<lambda>_ g. (False, g)), ven_set_core = (\<lambda>_ g. (False, g)),
      ven_set_mem = (\<lambda>_ g. (False, g)), ven_status = (\<lambda>_ _. None), ven_base = (\<lambda>_ _. None),
      ven_get_point = (\<lambda>_ _. None), ven_set_point = (\<lambda>_ _ g. (1, g)), ven_probe = (\<lambda>_. 0),
      ven_lock_clock = (\<lambda>_ _ g. (False, g)), ven_reset_clock = (\<lambda>g. (False, g))\<rparr>"

definition mute_codec :: "'a codec" where
  "mute_codec = \<lparr>enc = (\<lambda>_. None), dec = (\<lambda>_. None)\<rparr>"

definition dead_env :: "(unit, unit) f2_env" where
  "dead_env =
     \<lparr>en_vendor = dead_vendor, en_settle = (\<lambda>g. g), en_polls = 20, en_workload = (\<lambda>_ _ g. (toy_dwell, g)),
      en_codecs = toy_codecs, en_observations = mute_codec, en_now = ''now'', en_run_id = (\<lambda>s. s),
      en_gpu = Some ''gpu'', en_confidence = (\<lambda>_. Fin 0), en_build = sample_provenance\<rparr>"

definition dead_machine :: "unit machine" where
  "dead_machine = \<lparr>mc_disk = toy_disk, mc_gpu = (), mc_timers = []\<rparr>"

definition dead_request :: "(unit, unit) discovery_request" where
  "dead_request =
     \<lparr>dq_env = dead_env, dq_ledger = mute_codec, dq_run_id = ''run'', dq_gpu_key = ''gpu'',
      dq_ledger_run_scoped = False, dq_resume = False, dq_sane = sample_curve,
      dq_limits = limits_conservative 800 2100, dq_target_mhz = 1915, dq_start_mv = None, dq_power_limit_w = None,
      dq_discovery_ms = 1000, dq_qualification_ms = 1000, dq_passes = 0, dq_final_gate_ms = 0,
      dq_final_gate_passes = 0, dq_goldens = None, dq_stop = (\<lambda>_. False)\<rparr>"

lemma dead_fields [simp]:
  "dq_env dead_request = dead_env" "dq_stop dead_request = (\<lambda>_. False)" "dq_target_mhz dead_request = 1915"
  "dq_final_gate_passes dead_request = 0" "en_observations dead_env = mute_codec" "en_codecs dead_env = toy_codecs"
  by (simp_all add: dead_request_def dead_env_def)

lemma mute_append: "\<exists>err. append_observation mute_codec ob d = (Inl err, d)"
  by (simp add: append_observation_def append_line_def mute_codec_def fs_create_dir_def split: option.split sum.split)

lemma dead_plan:
  obtains c where "su_candidates (plan_discovery dead_request toy_disk) = [c]"
    and "discovery_prior dead_request toy_disk = []"
    and "first_state dead_request (plan_discovery dead_request toy_disk) = \<lparr>ds_index = 0, ds_last_qualified = None, ds_reference_mhz = 0, ds_jumped_from = None,
                ds_bracket = None, ds_known_failed = None, ds_local = False, ds_sustainable = False,
                ds_completed = False, ds_aborted = False, ds_retain = False, ds_stop = PhysicalFloorReached\<rparr>"
proof -
  have "length (adp_candidates (plan_anchored_undervolt_descent sample_curve 1915 None (limits_conservative 800 2100) u64_max)) = 1"
    by (simp add: plan_anchored_undervolt_descent_def descending_bins_def sample_curve_def limits_conservative_def
        plan_anchored_def plan_bounded_positive_offset_def is_sane_base_curve_def is_sane_base_point_def is_i32_def
        anchored_entry_def as_u32_def Let_def)
  then obtain c where c: "adp_candidates (plan_anchored_undervolt_descent sample_curve 1915 None (limits_conservative 800 2100) u64_max) = [c]"
    by (cases "adp_candidates (plan_anchored_undervolt_descent sample_curve 1915 None (limits_conservative 800 2100) u64_max)") auto
  have prior: "discovery_prior dead_request toy_disk = []"
    by (simp add: discovery_prior_def query_by_target_for_gpu_def load_observations_def load_lines_def fs_read_def toy_disk_def)
  then have su: "su_candidates (plan_discovery dead_request toy_disk) = [c]"
    "su_resume_good_mv (plan_discovery dead_request toy_disk) = None" "su_prior_good_mv (plan_discovery dead_request toy_disk) = None"
    "su_prior_bad_mv (plan_discovery dead_request toy_disk) = None" "su_resume_bound_mv (plan_discovery dead_request toy_disk) = None"
    "su_reference_mhz (plan_discovery dead_request toy_disk) = 0"
    using c
    by (simp_all add: plan_discovery_def compatible_prior_def planned_candidates_def resume_f2_candidates_def
        last_discovery_good_for_target_def first_bad_for_target_def power_bound_anchors_def option_min_def dead_request_def nat_min_of_def
        refresh_discovery_for_qualification_def Let_def)
  then show ?thesis by (intro that [OF su(1) prior]) (simp add: first_state_def Let_def)
qed

lemma dead_ops:
  "real_apply dead_vendor settle polls rf m = (Inl (VoltageLockFailed (LockWriteFailed LockTableUnreadable)), m)"
  "\<exists>u. real_reset dead_vendor rf m = (Inl (ResetNotConfirmed u), m)" for m :: "unit machine"
proof -
  have one: "m\<lparr>mc_gpu := g\<rparr> = m" for m :: "unit machine" and g by simp
  show "real_apply dead_vendor settle polls rf m = (Inl (VoltageLockFailed (LockWriteFailed LockTableUnreadable)), m)"
    by (simp add: real_apply_def lock_core_voltage_verified_def lock_core_voltage_mv_def dead_vendor_def one)
  have "confirm_stock dead_vendor is () \<noteq> None" for "is"
    by (cases "is") (simp_all add: confirm_stock_def read_core_voltage_lock_mv_def read_core_voltage_locks_def dead_vendor_def)
  then show "\<exists>u. real_reset dead_vendor rf m = (Inl (ResetNotConfirmed u), m)"
    by (auto simp: real_reset_def Let_def one split: option.splits)
qed

abbreviation dead_disk :: disk where
  "dead_disk \<equiv> toy_disk\<lparr>files := (\<lambda>_. None)(boot_flag_file \<mapsto> ''f'')\<rparr>"

lemma dead_open:
  fixes b :: "(unit, unit) bin_run"
  assumes "br_active b = None" and "br_reports b = []" and "snd (br_cursor b) = dead_machine"
    and "b' = open_bin dead_request cfg failed b"
  shows "br_active b' = None" and "br_abort b' \<noteq> None" and "\<exists>t. br_reports b' = [t] \<and> tr_kind t = Discovery"
    and "snd (br_cursor b') = dead_machine\<lparr>mc_disk := dead_disk\<rparr>" and "is_some_and (br_cleanup b') (\<lambda>cl. \<not> tx_clean cl)"
proof -
  obtain rf where c: "br_cursor b = (rf, dead_machine)" using assms(3) by (cases "br_cursor b") auto
  obtain u where r: "real_reset dead_vendor rf (dead_machine\<lparr>mc_disk := dead_disk\<rparr>) =
      (Inl (ResetNotConfirmed u), dead_machine\<lparr>mc_disk := dead_disk\<rparr>)"
    using dead_ops(2) by blast
  have a: "real_arm toy_codecs now rf dead_machine = (Inr (), dead_machine\<lparr>mc_disk := dead_disk\<rparr>)" for now
    by (simp add: real_arm_def lift_disk_def dead_machine_def toy_disk_def toy_codecs_def store_defs fs_defs)
  have "\<exists>r1 cl. begin_f2_candidate_transaction (en_build dead_env) (env_ops dead_env cfg) (br_cursor b) =
      (Inl (r1, cl), (rf, dead_machine\<lparr>mc_disk := dead_disk\<rparr>)) \<and> \<not> tx_clean cl"
    by (simp add: begin_f2_candidate_transaction_def c env_ops_def dead_env_def real_multi_ops_def on_cursor_def a
        dead_ops(1) r finish_f2_transaction_reports_def tx_record_def tx_conclude_def tx_failed_def Let_def)
  then obtain r1 cl where "begin_f2_candidate_transaction (en_build (dq_env dead_request)) (env_ops (dq_env dead_request) cfg)
      (br_cursor b) = (Inl (r1, cl), (rf, dead_machine\<lparr>mc_disk := dead_disk\<rparr>))" "\<not> tx_clean cl"
    by (auto simp: dead_request_def)
  then show "br_active b' = None" and "br_abort b' \<noteq> None" and "\<exists>t. br_reports b' = [t] \<and> tr_kind t = Discovery"
    and "snd (br_cursor b') = dead_machine\<lparr>mc_disk := dead_disk\<rparr>" and "is_some_and (br_cleanup b') (\<lambda>cl. \<not> tx_clean cl)"
    using assms(2) by (simp_all add: assms(4) open_bin_def discovery_report_def is_some_and_def)
qed

lemma write_back_length [simp]: "length (write_back ts as) = length ts"
  by (induction ts as rule: write_back.induct) auto

text \<open>The report cannot be kept, and with it goes the word that the flag must stay.\<close>

lemma dead_bin:
  assumes "test_bin dead_request cs prior s = (e, s')" and "ck_machine s = dead_machine"
  shows "e = LastTurn" and "ck_machine s' = dead_machine\<lparr>mc_disk := dead_disk\<rparr>"
    and "\<exists>err. ck_state s' = (ck_state s)\<lparr>ds_aborted := True, ds_stop := ReportsNotPersisted err\<rparr>"
proof -
  let ?claim = "e = LastTurn \<and> ck_machine s' = dead_machine\<lparr>mc_disk := dead_disk\<rparr> \<and>
    (\<exists>err. ck_state s' = (ck_state s)\<lparr>ds_aborted := True, ds_stop := ReportsNotPersisted err\<rparr>)"
  have ?claim
    using assms(1)
  proof (cases rule: test_bin_cases)
    case (1 cfg rechecked b0 conservative cap report0 b1 qual b2 polls history clean retain report failed res d)
    define b where "b = open_bin dead_request cfg TransactionStartFailed
      \<lparr>br_cursor = ck_cursor s, br_reports = [], br_active = None, br_start = 0, br_cleanup = None, br_abort = None\<rparr>"
    note o = dead_open [OF _ _ _ b_def, simplified assms(2) bin_run.simps simp_thms, OF TrueI TrueI TrueI]
    have "b0 = b"
      using 1(2) o(1,2) unfolding begin_bin_def Let_def b_def [symmetric]
      by (auto simp: measure_bin_def close_before_retry_def recheck_bin.simps [of dead_request cfg _ _ b])
    then have b1: "br_active b1 = None" "br_abort b1 \<noteq> None" "br_cursor b1 = br_cursor b" "br_cleanup b1 = br_cleanup b"
      "length (br_reports b1) = 1"
      using judge_bin_keeps [OF 1(3)] o 1(3) by (auto simp: judge_bin_def split: prod.splits)
    then have b2: "b2 = b1" using 1(4) by (auto simp: qualify_bin_def)
    have same: "close_bin dead_request cfg b2 = b1" using b1(1) b2 by (simp add: close_bin_def)
    obtain t where t: "br_reports b1 = [t]" using b1(5) by (auto simp: length_Suc_conv)
    have "\<not> clean" using 1(5) o(5) b1(4) same by (auto simp: settle_bin_def is_some_and_def Let_def split: if_splits option.splits)
    then obtain err where p: "res = Inl err" "d = dead_disk"
      using 1(6) o(4) b1(3) same t
        mute_append [of "timed_observation dead_env (clock_context dead_request) (clock_qualification_context dead_request)
          1915 (cs ! ds_index (ck_state s)) t" dead_disk]
      by (auto simp: persist_candidate_reports_def candidate_persist_order_def Let_def)
    show ?thesis
      using 1(7,8) same p b1(3) o(4) by (auto simp: abort_with_def)
  qed
  then show "e = LastTurn" and "ck_machine s' = dead_machine\<lparr>mc_disk := dead_disk\<rparr>"
    and "\<exists>err. ck_state s' = (ck_state s)\<lparr>ds_aborted := True, ds_stop := ReportsNotPersisted err\<rparr>"
    by blast+
qed

text \<open>A discovery of a card that answers no call: the bin is armed, its write and its reset fail, and the
  report cannot be kept. The flag stands, the discovery has aborted, and nothing in its summary says that the
  flag is to be retained, although the cleanup of the bin did.\<close>

lemma persist_failure_drops_retain:
  "\<exists>summary m' polls'. run_clock_discovery dead_request dead_machine 0 = Some (Inr (summary, m', polls')) \<and>
     \<not> is_boot_flag_armed (mc_disk dead_machine) \<and> is_boot_flag_armed (mc_disk m') \<and>
     \<not> dy_retain_boot_flag summary \<and> (\<exists>err. dy_stop_reason summary = ReportsNotPersisted err)"
proof -
  obtain c where plan: "su_candidates (plan_discovery dead_request toy_disk) = [c]" "discovery_prior dead_request toy_disk = []"
    "first_state dead_request (plan_discovery dead_request toy_disk) = \<lparr>ds_index = 0, ds_last_qualified = None, ds_reference_mhz = 0, ds_jumped_from = None,
                ds_bracket = None, ds_known_failed = None, ds_local = False, ds_sustainable = False,
                ds_completed = False, ds_aborted = False, ds_retain = False, ds_stop = PhysicalFloorReached\<rparr>"
    by (rule dead_plan)
  have low: "\<not> is_boot_flag_armed (mc_disk dead_machine)" "mc_disk dead_machine = toy_disk"
    by (simp_all add: dead_machine_def toy_disk_def is_boot_flag_armed_def fs_exists_def)
  have r: "load_record (cx_record (en_codecs (dq_env dead_request))) toy_disk = default_record"
    by (simp add: toy_disk_def load_record_def fs_read_def)
  have blank: "\<not> candidate_blacklisted default_record k x" for k x
    by (simp add: candidate_blacklisted_def is_blacklisted_def default_record_def field_pair_blacklisted_def
        field_floor_refuses_def field_vf_floor_mv_def field_points_def List.map_filter_def envelope_at_def
        running_envelope_def)
  define condemned where "condemned = scoped_condemned (dq_ledger dead_request) (dq_ledger_run_scoped dead_request)
    (dq_gpu_key dead_request) (dq_run_id dead_request) toy_disk"
  have free: "\<not> refuses condemned k mv" for k mv
    by (simp add: condemned_def dead_request_def scoped_condemned_def ledger_pairs_def ledger_load_def load_lines_def
        fs_read_def toy_disk_def condemned_pairs_of_def refuses_def no_pairs_def vf_floor_envelope_def envelope_at_def
        running_envelope_def)
  have admitted: "confirmed_f2_multi_refusal default_record False (Some 1) 1 1 = None"
    by (simp add: confirmed_f2_multi_refusal_def default_record_def [THEN arg_cong, of safe_mode]
        default_record_def [THEN arg_cong, of consecutive_crashes] safe_mode_crash_threshold_def)
  have safe: "\<not> safe_mode default_record"
    using admitted by (auto simp: confirmed_f2_multi_refusal_def split: if_splits)
  have sel: "\<exists>rf. mo_select (env_ops (dq_env dead_request) (bin_cfg dead_request [c] k)) 0 (rf0, dead_machine) = (Inr (), rf, dead_machine)"
    for k rf0
    using low r blank safe
    by (simp add: env_ops_def real_multi_ops_def real_select_def bin_cfg_def descent_cfg_def dead_request_def
        Let_def)
  define s0 :: "(unit, unit) clock_run" where "s0 = \<lparr>ck_state = first_state dead_request (plan_discovery dead_request toy_disk),
      ck_cursor = configure_phase (dq_discovery_ms dead_request) PowerDiscovery
        (fresh_cursor (dq_sane dead_request) (dq_limits dead_request) (dq_target_mhz dead_request), dead_machine),
      ck_polls = 0, ck_executed = 0, ck_history = empty_margins, ck_power = None, ck_cap = None\<rparr>"
  obtain rf where rf: "mo_select (env_ops (dq_env dead_request) (bin_cfg dead_request [c] 0)) 0 (ck_cursor s0) = (Inr (), rf, dead_machine)"
    using sel [of 0 "fst (ck_cursor s0)"] by (auto simp: s0_def configure_phase_def)
  obtain e s1 where t: "test_bin dead_request [c] [] (s0\<lparr>ck_polls := 1, ck_cursor := (rf, dead_machine)\<rparr>) = (e, s1)"
    by (cases "test_bin dead_request [c] [] (s0\<lparr>ck_polls := 1, ck_cursor := (rf, dead_machine)\<rparr>)")
  note bin = dead_bin [OF t, simplified]
  have start: "ds_index (ck_state s0) = 0" by (simp add: s0_def plan(3))
  have "discovery_turn dead_request [c] condemned [] s0 = (e, s1)"
    using t rf blank free r low
    by (simp add: discovery_turn_def Let_def s0_def plan(3))
  then have walk: "walk_candidates dead_request [c] condemned [] s0 = Some (LastTurn, s1)"
    using bin(1) start by (simp add: walk_candidates.simps [of _ _ _ _ s0])
  have acc: "accept_boundary dead_request [c] s1 = s1" by (simp add: accept_boundary_def)
  show ?thesis
    using walk admitted bin low r plan
    by (auto simp: run_clock_discovery_def Let_def condemned_def s0_def acc summarize_discovery_def is_boot_flag_armed_def
        fs_exists_def)
qed

theorem discovery_tells_flag_witness:
  "\<exists>summary m' polls'. run_clock_discovery dead_request dead_machine 0 = Some (Inr (summary, m', polls')) \<and>
     is_boot_flag_armed (mc_disk m') \<and> dy_aborted summary"
  using persist_failure_drops_retain discovery_tells_flag [of dead_request dead_machine 0] by blast

theorem discovery_tests_only_allowed_witness:
  "\<exists>summary m' polls'. run_clock_discovery dead_request dead_machine 0 = Some (Inr (summary, m', polls')) \<and>
     (\<forall>ob\<in>set (load_observations mute_codec (mc_disk m')). fo_target_mhz ob = 1915)"
proof -
  obtain summary m' polls' where run: "run_clock_discovery dead_request dead_machine 0 = Some (Inr (summary, m', polls'))"
    and low: "\<not> is_boot_flag_armed (mc_disk dead_machine)"
    using persist_failure_drops_retain by blast
  have q: "dq_final_gate_passes dead_request = 0" "en_observations (dq_env dead_request) = mute_codec" "dq_target_mhz dead_request = 1915"
    by (simp_all add: dead_request_def dead_env_def)
  have "observations_ready mute_codec (mc_disk dead_machine)" "load_observations mute_codec (mc_disk dead_machine) = []"
    by (auto simp: observations_ready_def line_codec_def mute_codec_def log_intact_def dead_machine_def toy_disk_def
        load_observations_def load_lines_def fs_read_def)
  then show ?thesis using discovery_tests_only_allowed [OF run low q(1)] run by (auto simp: q)
qed

end
