(* ===== verification/ForgeState.thy ===== *)
theory ForgeState
  imports F2Guards Ledger
begin

text \<open>
  The life of a forge run in \<open>crates/service/src/gpu_power_sweep.rs\<close>: its modes, the checkpoint on disk
  and what is restored from it, the resume of a paused run, the handle that starts and stops the worker,
  and the incidents that a crash, a driver reset or the operator's report leave in the safety record. The
  texts shown to the operator are the constructors of \<open>forge_text\<close>. The worker itself is a step of the
  relation at the end: it publishes any progress and ends normally or by a panic.
\<close>

section \<open>Modes and policies\<close>

datatype sweep_mode = StandardMode | LongMode

datatype forge_learning = PersistentLearning | CleanRun

definition mode_id :: "sweep_mode \<Rightarrow> string" where
  "mode_id m = (case m of StandardMode \<Rightarrow> ''standard'' | LongMode \<Rightarrow> ''long'')"

definition mode_from_id :: "string \<Rightarrow> sweep_mode option" where
  "mode_from_id i =
     (if i = ''fast'' then Some StandardMode
      else if i = ''standard'' then Some StandardMode
      else if i = ''long'' then Some LongMode
      else None)"

definition learning_id :: "forge_learning \<Rightarrow> string" where
  "learning_id l = (case l of PersistentLearning \<Rightarrow> ''persistent'' | CleanRun \<Rightarrow> ''clean_run'')"

definition learning_from_id :: "string \<Rightarrow> forge_learning option" where
  "learning_from_id i =
     (if i = ''persistent'' then Some PersistentLearning
      else if i = ''clean_run'' then Some CleanRun
      else None)"

record forge_policy =
  pol_discovery_dwell_ms :: u64
  pol_qualification_dwell_ms :: u64
  pol_qualification_passes :: usize
  pol_final_gate_dwell_ms :: u64
  pol_final_gate_passes :: usize
  pol_apply_texture_dwell_ms :: u64
  pol_apply_endurance_dwell_ms :: u64

definition f2_descent_detector_passes :: usize where "f2_descent_detector_passes = 1"

definition f2_policy :: "sweep_mode \<Rightarrow> forge_policy" where
  "f2_policy m =
     (case m of
        StandardMode \<Rightarrow>
          \<lparr>pol_discovery_dwell_ms = 10000, pol_qualification_dwell_ms = 30000,
           pol_qualification_passes = f2_descent_detector_passes, pol_final_gate_dwell_ms = 0,
           pol_final_gate_passes = 0, pol_apply_texture_dwell_ms = 120000,
           pol_apply_endurance_dwell_ms = 300000\<rparr>
      | LongMode \<Rightarrow>
          \<lparr>pol_discovery_dwell_ms = 10000, pol_qualification_dwell_ms = 60000,
           pol_qualification_passes = f2_descent_detector_passes, pol_final_gate_dwell_ms = 0,
           pol_final_gate_passes = 0, pol_apply_texture_dwell_ms = 300000,
           pol_apply_endurance_dwell_ms = 1200000\<rparr>)"

definition required_qualification_passes :: "forge_policy \<Rightarrow> usize" where
  "required_qualification_passes p = max (pol_final_gate_passes p) (pol_qualification_passes p)"

section \<open>Progress and checkpoint\<close>

record resume_compat =
  rc_program_version :: string
  rc_build_revision :: string
  rc_gpu_key :: string
  rc_adapter_name :: string
  rc_driver_name :: string
  rc_driver_info :: string

datatype forge_text =
  NoPausedCheckpoint
| LegacyCheckpoint
| BuildDiffers
| HardwareDiffers
| DriverDiffers
| IdentityUnknown
| NoMode
| NoLearning
| NoRunId
| PendingIncidentBlocks
| ForgeAlreadyRunning
| ValidatingResume
| WaitingForCheckpoint
| StoppingForge
| InternalFailure
| OldQualification
| InterruptedRun u32
| FieldCondemned
| IncidentPending
| PowerRestored nat
| PairCondemned u32 u32
| PairReported u32 u32
| RestartNote string
| NoApplyAnchor u32
| NoCalibratedPower u32 u32
| NoGatePower u32 u32
| ForgeRunning
| UnknownProfile string
| ProfileUnavailable string
| RecordNotSaved io_error
| ForgeNote string

record forge_progress = sweep_progress +
  fg_running :: bool
  fg_phase :: string
  fg_log :: "forge_text list"
  fg_power_limit_w :: f32
  fg_target_w :: f32
  fg_recommended :: "power_sweep_point option"
  fg_stock_clock_mhz :: u32
  fg_stock_power_p99_w :: "f32 option"
  fg_observed_boost_clock_mhz :: "u32 option"
  fg_clock_table_bin_count :: "u32 option"
  fg_clock_table_ceiling_mhz :: "u32 option"
  fg_preheat_converged :: "bool option"
  fg_preheat_temperature_c :: "f32 option"
  fg_note :: "forge_text option"
  fg_is_undervolt :: bool
  fg_power_bound_collapse :: bool
  fg_mode :: "string option"
  fg_learning :: "string option"
  fg_run_id :: "string option"
  fg_run_sequence :: "string list"
  fg_current_clock_mhz :: "u32 option"
  fg_current_voltage_mv :: "u32 option"
  fg_completed_steps :: u32
  fg_total_steps_estimate :: u32
  fg_elapsed_ms :: u64
  fg_estimated_remaining_ms :: "u64 option"
  fg_estimated_total_upper_ms :: "u64 option"
  fg_cmax_clock_mhz :: "u32 option"
  fg_frontier_floor_clock_mhz :: "u32 option"
  fg_frontier_clock_count :: "u32 option"
  fg_learned_points :: u32
  fg_last_outcome :: "string option"
  fg_learning_saved :: bool
  fg_frontier_complete :: bool
  fg_profiles_qualified :: bool
  fg_resume_compatibility :: "resume_compat option"
  fg_resume_available :: bool
  fg_resume_block_reason :: "forge_text option"
  fg_current_task :: "string option"
  fg_current_task_elapsed_ms :: u64
  fg_current_task_estimated_total_ms :: "u64 option"
  fg_next_task :: "string option"
  fg_next_task_estimated_duration_ms :: "u64 option"

definition idle_progress :: forge_progress where
  "idle_progress =
     \<lparr>sp_points = [], sp_godforge = None, sp_brokkrs = None, sp_deep_calm = None,
      fg_running = False, fg_phase = ''idle'', fg_log = [], fg_power_limit_w = Fin 0,
      fg_target_w = Fin 0, fg_recommended = None, fg_stock_clock_mhz = 0, fg_stock_power_p99_w = None,
      fg_observed_boost_clock_mhz = None, fg_clock_table_bin_count = None,
      fg_clock_table_ceiling_mhz = None, fg_preheat_converged = None, fg_preheat_temperature_c = None,
      fg_note = None, fg_is_undervolt = False, fg_power_bound_collapse = False, fg_mode = None,
      fg_learning = None, fg_run_id = None, fg_run_sequence = [], fg_current_clock_mhz = None,
      fg_current_voltage_mv = None, fg_completed_steps = 0, fg_total_steps_estimate = 0,
      fg_elapsed_ms = 0, fg_estimated_remaining_ms = None, fg_estimated_total_upper_ms = None,
      fg_cmax_clock_mhz = None, fg_frontier_floor_clock_mhz = None, fg_frontier_clock_count = None,
      fg_learned_points = 0, fg_last_outcome = None, fg_learning_saved = False,
      fg_frontier_complete = False, fg_profiles_qualified = False, fg_resume_compatibility = None,
      fg_resume_available = False, fg_resume_block_reason = None, fg_current_task = None,
      fg_current_task_elapsed_ms = 0, fg_current_task_estimated_total_ms = None, fg_next_task = None,
      fg_next_task_estimated_duration_ms = None\<rparr>"

text \<open>\<open>cumulative_elapsed_ms\<close>, and the tracker of the current task: its clock is the elapsed time given.\<close>

definition cumulative_elapsed_ms :: "u64 \<Rightarrow> u64 \<Rightarrow> u64" where
  "cumulative_elapsed_ms before session = u64_sat_add before session"

definition task_begin ::
  "string \<Rightarrow> u64 option \<Rightarrow> string option \<Rightarrow> u64 option \<Rightarrow> forge_progress \<Rightarrow> forge_progress" where
  "task_begin current total_ms next next_ms p =
     p\<lparr>fg_current_task := Some current, fg_current_task_elapsed_ms := 0,
       fg_current_task_estimated_total_ms := total_ms, fg_next_task := next,
       fg_next_task_estimated_duration_ms := next_ms\<rparr>"

definition task_tick :: "nat \<Rightarrow> forge_progress \<Rightarrow> forge_progress" where
  "task_tick elapsed p = p\<lparr>fg_current_task_elapsed_ms := min elapsed u64_max\<rparr>"

definition clear_tasks :: "forge_progress \<Rightarrow> forge_progress" where
  "clear_tasks p =
     p\<lparr>fg_current_task := None, fg_current_task_estimated_total_ms := None, fg_next_task := None,
       fg_next_task_estimated_duration_ms := None\<rparr>"

definition task_finish :: "nat \<Rightarrow> forge_progress \<Rightarrow> forge_progress" where
  "task_finish elapsed p = clear_tasks (task_tick elapsed p)"

definition forge_live_log_tail :: usize where "forge_live_log_tail = 240"
definition forge_state_log_tail :: usize where "forge_state_log_tail = 40"

definition log_tail :: "usize \<Rightarrow> forge_progress \<Rightarrow> forge_progress" where
  "log_tail cap p = p\<lparr>fg_log := drop (length (fg_log p) - cap) (fg_log p)\<rparr>"

text \<open>\<open>set\<close>: what the worker publishes.\<close>

definition published :: "forge_progress \<Rightarrow> forge_progress" where
  "published p = log_tail forge_live_log_tail (if fg_running p then p else clear_tasks p)"

section \<open>Resume\<close>

definition compat_mismatch :: "resume_compat \<Rightarrow> resume_compat \<Rightarrow> forge_text option" where
  "compat_mismatch saved cur =
     (if rc_program_version saved \<noteq> rc_program_version cur \<or>
         rc_build_revision saved \<noteq> rc_build_revision cur then Some BuildDiffers
      else if rc_gpu_key saved \<noteq> rc_gpu_key cur \<or> rc_adapter_name saved \<noteq> rc_adapter_name cur
      then Some HardwareDiffers
      else if rc_driver_name saved \<noteq> rc_driver_name cur \<or> rc_driver_info saved \<noteq> rc_driver_info cur
      then Some DriverDiffers
      else None)"

definition validate_resume_checkpoint ::
  "forge_progress \<Rightarrow> resume_compat \<Rightarrow> (forge_text, sweep_mode \<times> forge_learning) result" where
  "validate_resume_checkpoint p cur =
     (if fg_running p \<or> fg_phase p \<noteq> ''paused'' then Inl NoPausedCheckpoint
      else case fg_resume_compatibility p of
        None \<Rightarrow> Inl LegacyCheckpoint
      | Some saved \<Rightarrow>
          (case compat_mismatch saved cur of
             Some reason \<Rightarrow> Inl reason
           | None \<Rightarrow>
               (case opt_bind (fg_mode p) mode_from_id of
                  None \<Rightarrow> Inl NoMode
                | Some mode \<Rightarrow>
                    (case opt_bind (fg_learning p) learning_from_id of
                       None \<Rightarrow> Inl NoLearning
                     | Some learning \<Rightarrow>
                         if fg_run_id p = None then Inl NoRunId else Inr (mode, learning)))))"

definition refresh_resume_availability ::
  "(forge_text, resume_compat) result \<Rightarrow> forge_progress \<Rightarrow> forge_progress" where
  "refresh_resume_availability cur p =
     (let blocked = (\<lambda>reason. p\<lparr>fg_resume_available := False, fg_resume_block_reason := Some reason\<rparr>)
      in if fg_phase p \<noteq> ''paused'' then blocked NoPausedCheckpoint
         else case fg_resume_compatibility p of
           None \<Rightarrow> blocked LegacyCheckpoint
         | Some saved \<Rightarrow>
             (case cur of
                Inl reason \<Rightarrow> blocked reason
              | Inr c \<Rightarrow>
                  (case compat_mismatch saved c of
                     Some reason \<Rightarrow> blocked reason
                   | None \<Rightarrow> p\<lparr>fg_resume_available := True, fg_resume_block_reason := None\<rparr>)))"

section \<open>Qualified profiles\<close>

definition profiles_of :: "forge_progress \<Rightarrow> power_sweep_point option list" where
  "profiles_of p = [sp_godforge p, sp_brokkrs p, sp_deep_calm p]"

definition point_apply_qualified :: "power_sweep_point \<Rightarrow> bool" where
  "point_apply_qualified q \<longleftrightarrow>
     ps_apply_qualified q \<and> ps_apply_qualification_version q = Some f2_qualification_contract_version"

definition points_apply_qualified :: "power_sweep_point option list \<Rightarrow> bool" where
  "points_apply_qualified ps \<longleftrightarrow>
     list_all (\<lambda>p. case p of None \<Rightarrow> False | Some q \<Rightarrow> point_apply_qualified q) ps"

definition profiles_meet_qualification ::
  "forge_policy \<Rightarrow> power_sweep_point option list \<Rightarrow> f64 \<Rightarrow> bool" where
  "profiles_meet_qualification pol ps threshold \<longleftrightarrow>
     (let required = as_u32 (int (required_qualification_passes pol))
      in required > 0 \<and>
         list_all (\<lambda>p. case p of None \<Rightarrow> False
            | Some q \<Rightarrow> f32_ge (unwrap_or (ps_confidence q) (Fin 0)) threshold \<and>
                unwrap_or (ps_validation_count q) 0 \<ge> required) ps \<and>
         points_apply_qualified ps)"

definition point_target :: "power_sweep_point \<Rightarrow> u32" where
  "point_target q = unwrap_or (ps_target_clock_mhz q) (ps_clock_mhz q)"

definition point_anchor :: "power_sweep_point \<Rightarrow> u32" where
  "point_anchor q =
     (case ps_vf_table_voltage_mv q of
        Some mv \<Rightarrow> mv
      | None \<Rightarrow> unwrap_or (ps_boundary_voltage_mv q) (ps_voltage_mv q))"

definition point_field_failure :: "safe_loop_record \<Rightarrow> condemned_pairs \<Rightarrow> power_sweep_point \<Rightarrow> bool" where
  "point_field_failure r cp q \<longleftrightarrow>
     field_pair_blacklisted r (point_target q) (point_anchor q) \<or>
     refuses cp (point_target q) (point_anchor q)"

definition set_has_field_failure ::
  "safe_loop_record \<Rightarrow> condemned_pairs \<Rightarrow> power_sweep_point option list \<Rightarrow> bool" where
  "set_has_field_failure r cp ps \<longleftrightarrow>
     list_ex (\<lambda>p. case p of None \<Rightarrow> False | Some q \<Rightarrow> point_field_failure r cp q) ps"

definition publish_point_power ::
  "f2_observation list \<Rightarrow> string option \<Rightarrow> string \<Rightarrow> power_sweep_point \<Rightarrow>
   (forge_text, bool \<times> power_sweep_point) result" where
  "publish_point_power obs run gpu q =
     (case ps_vf_table_voltage_mv q of
        None \<Rightarrow> Inl (NoApplyAnchor (point_target q))
      | Some mv \<Rightarrow>
          (case opt_filter usable_power (ps_power_p99_w q) of
             None \<Rightarrow> Inl (NoCalibratedPower (point_target q) mv)
           | Some discovery \<Rightarrow>
               (case complete_apply_gate_p99_at_anchor obs run (point_target q) mv gpu of
                  None \<Rightarrow> Inl (NoGatePower (point_target q) mv)
                | Some qualification \<Rightarrow>
                    (let p99 = f32_max discovery qualification
                     in Inr (p99 > discovery,
                          q\<lparr>ps_power_p99_w := Some p99,
                            ps_perf_per_watt :=
                              f64_div (f64_of_nat (unwrap_or (ps_p5_clock_mhz q) (ps_clock_mhz q))) p99\<rparr>)))))"

text \<open>The set is updated in place; a point that fails leaves the earlier ones updated.\<close>

fun publish_set_power ::
  "f2_observation list \<Rightarrow> string option \<Rightarrow> string \<Rightarrow> power_sweep_point option list \<Rightarrow>
   (forge_text, nat) result \<times> power_sweep_point option list" where
  "publish_set_power obs run gpu [] = (Inr 0, [])"
| "publish_set_power obs run gpu (None # ps) =
     (case publish_set_power obs run gpu ps of (r, ps') \<Rightarrow> (r, None # ps'))"
| "publish_set_power obs run gpu (Some q # ps) =
     (case publish_point_power obs run gpu q of
        Inl e \<Rightarrow> (Inl e, Some q # ps)
      | Inr (changed, q') \<Rightarrow>
          (case publish_set_power obs run gpu ps of
             (r, ps') \<Rightarrow> (map_sum id (\<lambda>n. (if changed then 1 else 0) + n) r, Some q' # ps')))"

section \<open>The checkpoint on disk\<close>

record forge_state_file =
  fs_schema :: u32
  fs_gpu_key :: string
  fs_progress :: forge_progress

record forge_codecs = codecs +
  cx_state :: "forge_state_file codec"
  cx_event :: "condemnation_event codec"
  cx_obs :: "f2_observation codec"

datatype forge_state_load =
  LoadedState forge_progress
| GpuMismatch string
| SchemaMismatch u32
| CorruptState

definition forge_state_schema :: u32 where "forge_state_schema = 1"
definition forge_state_file_name :: string where "forge_state_file_name = ''forge_state.json''"

definition encode_forge_state :: "forge_codecs \<Rightarrow> string \<Rightarrow> forge_progress \<Rightarrow> string option" where
  "encode_forge_state cx gpu p =
     enc (cx_state cx) \<lparr>fs_schema = forge_state_schema, fs_gpu_key = gpu,
                        fs_progress = log_tail forge_state_log_tail p\<rparr>"

text \<open>The three corrections of a restored checkpoint, in the order of the code.\<close>

definition drop_old_qualification :: "forge_progress \<Rightarrow> forge_progress" where
  "drop_old_qualification p =
     (if fg_is_undervolt p \<and> fg_profiles_qualified p \<and> \<not> points_apply_qualified (profiles_of p)
      then p\<lparr>fg_profiles_qualified := False,
             fg_phase := (if fg_phase p = ''finished'' then ''provisional'' else fg_phase p),
             fg_note := Some OldQualification\<rparr>
      else p)"

definition label_interrupted :: "forge_progress \<Rightarrow> forge_progress" where
  "label_interrupted p =
     (if fg_running p
      then p\<lparr>fg_phase := ''interrupted'', fg_estimated_remaining_ms := None,
             fg_estimated_total_upper_ms := None, fg_note := Some (InterruptedRun (fg_learned_points p))\<rparr>
      else p)"

definition close_checkpoint :: "forge_progress \<Rightarrow> forge_progress" where
  "close_checkpoint p =
     p\<lparr>fg_running := False, fg_resume_available := False,
       fg_resume_block_reason :=
         (if fg_phase p = ''paused'' then Some ValidatingResume else fg_resume_block_reason p)\<rparr>"

definition decode_forge_state :: "forge_codecs \<Rightarrow> string \<Rightarrow> string \<Rightarrow> forge_state_load" where
  "decode_forge_state cx json gpu =
     (case dec (cx_state cx) (trim_boms json) of
        None \<Rightarrow> CorruptState
      | Some file \<Rightarrow>
          if fs_schema file \<noteq> forge_state_schema then SchemaMismatch (fs_schema file)
          else if fs_gpu_key file \<noteq> gpu then GpuMismatch (fs_gpu_key file)
          else LoadedState
                 (close_checkpoint (label_interrupted (drop_old_qualification (fs_progress file)))))"

definition save_forge_state :: "forge_codecs \<Rightarrow> string \<Rightarrow> forge_progress \<Rightarrow> disk \<Rightarrow> disk" where
  "save_forge_state cx gpu p d =
     (case encode_forge_state cx gpu p of
        None \<Rightarrow> d
      | Some json \<Rightarrow> snd (fs_write forge_state_file_name json d))"

text \<open>What durable evidence says against a restored checkpoint.\<close>

definition reject_condemned ::
  "safe_loop_record \<Rightarrow> condemned_pairs \<Rightarrow> forge_progress \<Rightarrow> forge_progress" where
  "reject_condemned r cp p =
     (if fg_is_undervolt p \<and> fg_profiles_qualified p \<and> set_has_field_failure r cp (profiles_of p)
      then p\<lparr>fg_profiles_qualified := False, fg_phase := ''field_rejected'',
             fg_note := Some FieldCondemned\<rparr>
      else p)"

definition reject_pending :: "safe_loop_record \<Rightarrow> forge_progress \<Rightarrow> forge_progress" where
  "reject_pending r p =
     (if pending_forge_incident r \<noteq> None
      then p\<lparr>fg_profiles_qualified := False, fg_phase := ''needs_attention'',
             fg_note := Some IncidentPending\<rparr>
      else p)"

definition restore_power ::
  "forge_codecs \<Rightarrow> string \<Rightarrow> forge_progress \<Rightarrow> disk \<Rightarrow> forge_progress \<times> disk" where
  "restore_power cx gpu p d =
     (if fg_is_undervolt p \<and> fg_profiles_qualified p
      then (case publish_set_power (load_observations (cx_obs cx) d) None gpu (profiles_of p) of
              (Inr updated, [godforge, brokkrs, calm]) \<Rightarrow>
                if updated > 0
                then (let p' = p\<lparr>sp_godforge := godforge, sp_brokkrs := brokkrs, sp_deep_calm := calm,
                                 fg_recommended := brokkrs,
                                 fg_log := fg_log p @ [PowerRestored updated]\<rparr>
                      in (p', save_forge_state cx gpu p' d))
                else (p, d)
            | _ \<Rightarrow> (p, d))
      else (p, d))"

definition load_forge_state ::
  "forge_codecs \<Rightarrow> string \<Rightarrow> disk \<Rightarrow> forge_progress option \<times> disk" where
  "load_forge_state cx gpu d =
     (case fs_read forge_state_file_name d of
        Inl _ \<Rightarrow> (None, d)
      | Inr json \<Rightarrow>
          (case decode_forge_state cx json gpu of
             LoadedState p \<Rightarrow>
               (let r = load_record (cx_record cx) d;
                    cp = ledger_pairs (cx_event cx) d gpu
                in case restore_power cx gpu (reject_pending r (reject_condemned r cp p)) d of
                     (p', d') \<Rightarrow> (Some p', d'))
           | _ \<Rightarrow> (None, d)))"

definition clear_persisted_forge_state :: "disk \<Rightarrow> (io_error, unit) result \<times> disk" where
  "clear_persisted_forge_state d = remove_if_present forge_state_file_name d"

definition restore_handle_progress ::
  "forge_codecs \<Rightarrow> string \<Rightarrow> (forge_text, resume_compat) result \<Rightarrow> disk \<Rightarrow> forge_progress \<times> disk" where
  "restore_handle_progress cx gpu cur d =
     (case load_forge_state cx gpu d of
        (None, d') \<Rightarrow> (idle_progress, d')
      | (Some p, d') \<Rightarrow> (refresh_resume_availability cur p, d'))"

section \<open>The handle\<close>

text \<open>
  The atomics of the handle, and the process-wide ones: \<open>FORGE_ACTIVE\<close> and the registration of the
  stop flags. The handle outlives the worker, so the registered weak references are its own flags.
\<close>

record forge_world =
  fw_progress :: forge_progress
  fw_stop :: bool
  fw_manual_stop :: bool
  fw_running :: bool
  fw_active :: bool
  fw_registered :: bool

definition handle_stop :: "forge_world \<Rightarrow> forge_world" where
  "handle_stop w =
     (let w1 = w\<lparr>fw_manual_stop := True, fw_stop := True\<rparr>; p = fw_progress w
      in if fg_running p \<and> fg_phase p \<noteq> ''stopping''
         then w1\<lparr>fw_progress := p\<lparr>fg_phase := ''stopping'', fg_resume_available := False,
                                  fg_resume_block_reason := Some WaitingForCheckpoint,
                                  fg_note := Some StoppingForge\<rparr>\<rparr>
         else w1)"

definition handle_abort :: "forge_world \<Rightarrow> forge_world" where
  "handle_abort w = w\<lparr>fw_manual_stop := False, fw_stop := True\<rparr>"

definition forgotten_progress :: "forge_text \<Rightarrow> forge_progress" where
  "forgotten_progress note =
     idle_progress\<lparr>fg_note := Some note, fg_log := fg_log idle_progress @ [note]\<rparr>"

definition recover_after_reset :: "forge_text \<Rightarrow> forge_world \<Rightarrow> forge_world" where
  "recover_after_reset note w =
     (let w1 = w\<lparr>fw_manual_stop := False, fw_stop := True, fw_running := False\<rparr>; p = fw_progress w
      in if fg_phase p = ''needs_attention'' \<or> fg_phase p = ''interrupted''
         then w1\<lparr>fw_progress := p\<lparr>fg_running := False, fg_phase := ''interrupted'',
                                  fg_profiles_qualified := False, fg_note := Some note,
                                  fg_log := fg_log p @ [note]\<rparr>\<rparr>
         else w1\<lparr>fw_progress := forgotten_progress note\<rparr>)"

definition forget_after_full_reset :: "forge_text \<Rightarrow> forge_world \<Rightarrow> forge_world" where
  "forget_after_full_reset note w =
     w\<lparr>fw_manual_stop := False, fw_stop := True, fw_running := False,
       fw_progress := forgotten_progress note\<rparr>"

text \<open>
  \<open>start_with_intent\<close> up to the spawn, store by store: the swap of the running bit, and then the four
  stores of the caller that won it. The answer says whether a worker was started.
\<close>

definition start_swap :: "forge_world \<Rightarrow> bool \<times> forge_world" where
  "start_swap w = (fw_running w, w\<lparr>fw_running := True\<rparr>)"

definition start_store :: "nat \<Rightarrow> forge_world \<Rightarrow> forge_world" where
  "start_store k w =
     (if k = 0 then w\<lparr>fw_manual_stop := False\<rparr>
      else if k = 1 then w\<lparr>fw_stop := False\<rparr>
      else if k = 2 then w\<lparr>fw_active := True\<rparr>
      else w\<lparr>fw_registered := True\<rparr>)"

definition start_with_intent ::
  "forge_codecs \<Rightarrow> disk \<Rightarrow> forge_world \<Rightarrow> bool \<times> forge_world" where
  "start_with_intent cx d w =
     (if pending_forge_incident (load_record (cx_record cx) d) \<noteq> None then (False, w)
      else case start_swap w of
             (True, w') \<Rightarrow> (False, w')
           | (False, w') \<Rightarrow> (True, fold start_store [0, 1, 2, 3] w'))"

lemma start_with_intent_eq:
  "start_with_intent cx d w =
     (if pending_forge_incident (load_record (cx_record cx) d) \<noteq> None then (False, w)
      else if fw_running w then (False, w\<lparr>fw_running := True\<rparr>)
      else (True, w\<lparr>fw_running := True, fw_manual_stop := False, fw_stop := False,
                    fw_active := True, fw_registered := True\<rparr>))"
  by (simp add: start_with_intent_def start_swap_def start_store_def)

definition resume_forge ::
  "forge_codecs \<Rightarrow> (forge_text, resume_compat) result \<Rightarrow> disk \<Rightarrow> forge_world \<Rightarrow>
   (forge_text, sweep_mode \<times> forge_learning) result \<times> forge_world" where
  "resume_forge cx cur d w =
     (if pending_forge_incident (load_record (cx_record cx) d) \<noteq> None
      then (Inl PendingIncidentBlocks, w)
      else case cur of
        Inl e \<Rightarrow> (Inl e, w)
      | Inr c \<Rightarrow>
          (case validate_resume_checkpoint (fw_progress w) c of
             Inl e \<Rightarrow> (Inl e, w)
           | Inr ml \<Rightarrow>
               (case start_with_intent cx d w of
                  (False, w') \<Rightarrow> (Inl ForgeAlreadyRunning, w')
                | (True, w') \<Rightarrow> (Inr ml, w'))))"

text \<open>The three stores with which a worker thread ends.\<close>

definition leave_store :: "nat \<Rightarrow> forge_world \<Rightarrow> forge_world" where
  "leave_store k w =
     (if k = 0 then w\<lparr>fw_running := False\<rparr>
      else if k = 1 then w\<lparr>fw_active := False\<rparr>
      else w\<lparr>fw_registered := False\<rparr>)"

definition request_active_forge_stop :: "forge_world \<Rightarrow> forge_world" where
  "request_active_forge_stop w =
     (if fw_registered w then w\<lparr>fw_manual_stop := False, fw_stop := True\<rparr> else w)"

section \<open>Incidents\<close>

definition record_incident ::
  "forge_codecs \<Rightarrow> forge_incident \<Rightarrow> safe_loop_record \<Rightarrow> disk \<Rightarrow> bool \<times> disk" where
  "record_incident cx inc r d =
     (case record_forge_incident inc r of
        (recorded, r') \<Rightarrow> (recorded, if recorded then snd (save_record (cx_record cx) r' d) else d))"

definition runtime_message :: string where
  "runtime_message = ''Forge worker failed before writing a terminal checkpoint; explicit acknowledgement required''"

definition record_runtime_forge_incident ::
  "forge_codecs \<Rightarrow> string \<Rightarrow> i64 option \<Rightarrow> string \<Rightarrow> forge_progress \<Rightarrow> disk \<Rightarrow> disk" where
  "record_runtime_forge_incident cx now nanos gpu p d =
     snd (record_incident cx
       (forge_incident_new now nanos RuntimeFailure (fg_run_id p) (Some gpu) (fg_current_clock_mhz p)
          (fg_current_voltage_mv p) runtime_message)
       (load_record (cx_record cx) d) d)"

definition panicked_progress :: "forge_progress \<Rightarrow> forge_progress" where
  "panicked_progress p =
     p\<lparr>fg_running := False, fg_phase := ''interrupted'', fg_estimated_remaining_ms := None,
       fg_estimated_total_upper_ms := None, fg_profiles_qualified := False,
       fg_resume_available := False, fg_resume_block_reason := Some InternalFailure,
       fg_log := fg_log p @ [InternalFailure], fg_note := Some InternalFailure\<rparr>"

text \<open>What the thread does after a caught panic, before its three last stores.\<close>

definition worker_panicked ::
  "forge_codecs \<Rightarrow> string \<Rightarrow> i64 option \<Rightarrow> string \<Rightarrow> forge_world \<Rightarrow> disk \<Rightarrow> forge_world \<times> disk" where
  "worker_panicked cx now nanos gpu w d =
     (let p = panicked_progress (fw_progress w)
      in (w\<lparr>fw_progress := p\<rparr>,
          record_runtime_forge_incident cx now nanos gpu p (save_forge_state cx gpu p d)))"

definition read_forge_file :: "forge_codecs \<Rightarrow> disk \<Rightarrow> forge_state_file option" where
  "read_forge_file cx d =
     (case fs_read forge_state_file_name d of
        Inl _ \<Rightarrow> None
      | Inr json \<Rightarrow> dec (cx_state cx) (trim_boms json))"

definition flag_axis :: "boot_flag option \<Rightarrow> string \<Rightarrow> u32 option" where
  "flag_axis flag ax =
     opt_bind flag (\<lambda>f. opt_bind (map_of (axes (bf_intent f)) ax) u32_try_from)"

definition reconcile_message :: "bool \<Rightarrow> bool \<Rightarrow> u32 option \<Rightarrow> u32 option \<Rightarrow> string" where
  "reconcile_message exact clean target anchor =
     (if exact
      then (case (target, anchor) of
              (Some t, Some a) \<Rightarrow>
                ''Forge restart reconciled while '' @ show_int (int t) @ '' MHz at '' @ show_int (int a) @
                '' mV VF bin was armed; startup recovery owns blacklist attribution''
            | _ \<Rightarrow> ''Forge restart reconciled with an armed candidate, but its coordinates were incomplete'')
      else if clean
      then ''Forge was interrupted by a graceful service/OS shutdown; operator acknowledgement is required before continuation''
      else ''Forge ended without a terminal checkpoint or armed candidate; do not infer a failed point'')"

text \<open>The incident of a restart, built from the checkpoint and the flag that the crash left behind.\<close>

definition armed_candidate :: "forge_codecs \<Rightarrow> disk \<Rightarrow> bool" where
  "armed_candidate cx d \<longleftrightarrow>
     is_some_and (read_boot_flag (cx_flag cx) d) (\<lambda>f. bf_phase f = supervised_f2_forge_phase) \<and>
     \<not> is_clean_shutdown_present d"

definition restart_incident ::
  "forge_codecs \<Rightarrow> string \<Rightarrow> i64 option \<Rightarrow> disk \<Rightarrow> forge_state_file \<Rightarrow> forge_incident" where
  "restart_incident cx now nanos d file =
     (let flag = read_boot_flag (cx_flag cx) d;
          exact = armed_candidate cx d;
          target = (if exact then flag_axis flag ''gpu_freq_mhz'' else None);
          anchor = (if exact then flag_axis flag ''gpu_vf_bin_mv'' else None)
      in forge_incident_new now nanos (if exact then CandidateCrash else UnaccountedRestart)
           (fg_run_id (fs_progress file)) (Some (fs_gpu_key file)) target anchor
           (reconcile_message exact (is_clean_shutdown_present d) target anchor))"

definition reconcile_interrupted_forge ::
  "forge_codecs \<Rightarrow> string \<Rightarrow> i64 option \<Rightarrow> disk \<Rightarrow> bool \<times> disk" where
  "reconcile_interrupted_forge cx now nanos d =
     (case read_forge_file cx d of
        None \<Rightarrow> (False, d)
      | Some file \<Rightarrow>
          (let p = fs_progress file; inc = restart_incident cx now nanos d file
           in if fs_schema file \<noteq> forge_state_schema \<or> \<not> fg_running p then (False, d)
              else case record_incident cx inc (load_record (cx_record cx) d) d of
                     (recorded, d') \<Rightarrow>
                       (recorded,
                        save_forge_state cx (fs_gpu_key file)
                          (p\<lparr>fg_running := False, fg_phase := ''needs_attention'',
                             fg_profiles_qualified := False, fg_estimated_remaining_ms := None,
                             fg_estimated_total_upper_ms := None,
                             fg_note := Some (RestartNote (inc_message inc))\<rparr>)
                          d')))"

text \<open>\<open>append_condemnation\<close> of \<open>gpu_undervolt.rs\<close>: an append whose failure is passed over.\<close>

definition append_condemnation ::
  "condemnation_event codec \<Rightarrow> string \<Rightarrow> condemnation_severity \<Rightarrow> string \<Rightarrow> string option \<Rightarrow>
   u32 \<Rightarrow> u32 \<Rightarrow> string option \<Rightarrow> string \<Rightarrow> disk \<Rightarrow> disk" where
  "append_condemnation c now sev kind gpu target mv run note d =
     snd (ledger_append c
       \<lparr>ev_timestamp = now, ev_gpu_key = gpu, ev_severity = sev, ev_kind = kind,
        ev_target_mhz = target, ev_vf_bin_mv = mv, ev_run_id = run,
        ev_contract = Some f2_qualification_contract_version, ev_note = Some note,
        ev_rehabilitated = False\<rparr> d)"

definition record_active_forge_tdr ::
  "forge_codecs \<Rightarrow> string \<Rightarrow> i64 option \<Rightarrow> string \<Rightarrow> string \<Rightarrow> forge_world \<Rightarrow> disk \<Rightarrow>
   bool \<times> forge_world \<times> disk" where
  "record_active_forge_tdr cx now nanos gpu event w d =
     (if \<not> fw_active w then (False, w, d)
      else
        (let w' = request_active_forge_stop w;
             file = read_forge_file cx d;
             flag = opt_filter (\<lambda>f. bf_phase f = supervised_f2_forge_phase) (read_boot_flag (cx_flag cx) d);
             target = flag_axis flag ''gpu_freq_mhz'';
             anchor = flag_axis flag ''gpu_vf_bin_mv'';
             run = opt_bind file (\<lambda>f. fg_run_id (fs_progress f));
             key = (case file of Some f \<Rightarrow> Some (fs_gpu_key f) | None \<Rightarrow> Some gpu);
             r = load_record (cx_record cx) d;
             r1 = (case flag of None \<Rightarrow> r | Some f \<Rightarrow> push_region (bf_intent f) r);
             d1 = (case (target, anchor) of
                     (Some t, Some a) \<Rightarrow>
                       append_condemnation (cx_event cx) now Rigid ''candidate-crash'' key t a run
                         (''Windows TDR at '' @ event @ '' while the Forge candidate was armed'') d
                   | _ \<Rightarrow> d);
             message =
               (if flag \<noteq> None
                then ''Windows reported a TDR at '' @ event @
                     '' while the persisted Forge candidate was armed; the exact intent was blacklisted''
                else ''Windows reported a TDR at '' @ event @
                     '' during Forge, outside an attributable candidate window; no point was inferred'')
         in case record_incident cx
                   (forge_incident_new now nanos (if flag \<noteq> None then CandidateCrash else RuntimeFailure)
                      run key target anchor message) r1 d1 of
              (recorded, d2) \<Rightarrow> (recorded, w', d2)))"

definition field_message :: "u32 \<Rightarrow> u32 \<Rightarrow> string" where
  "field_message target anchor =
     ''Operator confirmed repeated real-use instability for '' @ show_int (int target) @ '' MHz at '' @
     show_int (int anchor) @ '' mV VF bin''"

definition profile_point :: "string \<Rightarrow> forge_progress \<Rightarrow> (forge_text, power_sweep_point) result" where
  "profile_point key p =
     (let found = (\<lambda>q. case q of None \<Rightarrow> Inl (ProfileUnavailable key) | Some q \<Rightarrow> Inr q)
      in if key = ''godforge'' then found (sp_godforge p)
         else if key = ''brokkrs'' then found (sp_brokkrs p)
         else if key = ''deep_calm'' then found (sp_deep_calm p)
         else Inl (UnknownProfile key))"

definition report_profile_unstable ::
  "forge_codecs \<Rightarrow> string \<Rightarrow> i64 option \<Rightarrow> string \<Rightarrow> string \<Rightarrow> forge_world \<Rightarrow> disk \<Rightarrow>
   (forge_text, forge_progress) result \<times> forge_world \<times> disk" where
  "report_profile_unstable cx now nanos gpu key w d =
     (let p = fw_progress w
      in if fg_running p then (Inl ForgeRunning, w, d)
         else case profile_point key p of
           Inl e \<Rightarrow> (Inl e, w, d)
         | Inr q \<Rightarrow>
             (case record_operator_field_failure now nanos (field_message (point_target q) (point_anchor q))
                     (ps_target_clock_mhz q, ps_clock_mhz q)
                     (ps_vf_table_voltage_mv q, ps_boundary_voltage_mv q, ps_voltage_mv q)
                     (ps_offset_mhz q) (fg_run_id p) gpu (load_record (cx_record cx) d) of
                ((target, anchor), r) \<Rightarrow>
                  (let d1 = append_condemnation (cx_event cx) now Rigid ''operator-field-failure''
                              (Some gpu) target anchor (fg_run_id p)
                              ''Operator confirmed repeated real-use instability'' d
                   in case save_record (cx_record cx) r d1 of
                        (Inl e, d2) \<Rightarrow> (Inl (RecordNotSaved e), w, d2)
                      | (Inr _, d2) \<Rightarrow>
                          (let p' = p\<lparr>fg_profiles_qualified := False, fg_phase := ''field_rejected'',
                                      fg_note := Some (PairCondemned target anchor),
                                      fg_log := fg_log p @ [PairReported target anchor]\<rparr>
                           in (Inr p', w\<lparr>fw_progress := p'\<rparr>, save_forge_state cx gpu p' d2)))))"

section \<open>Clean runs\<close>

definition fs_rename :: "string \<Rightarrow> string \<Rightarrow> disk \<Rightarrow> (io_error, unit) result \<times> disk" where
  "fs_rename n m d =
     (case files d n of
        None \<Rightarrow> (Inl NotFound, d)
      | Some c \<Rightarrow>
          if refused d n \<or> refused d m then (Inl OtherIo, d)
          else (Inr (), d\<lparr>files := (files d)(n := None, m \<mapsto> c)\<rparr>))"

definition fs_copy :: "string \<Rightarrow> string \<Rightarrow> disk \<Rightarrow> (io_error, unit) result \<times> disk" where
  "fs_copy n m d = (case fs_read n d of Inl e \<Rightarrow> (Inl e, d) | Inr c \<Rightarrow> fs_write m c d)"

datatype clean_note =
  CleanRunStarts string
| ArchiveDirFailed
| FileArchived string
| FileNotArchived string io_error
| RegionsRemoved nat
| StripNotSaved io_error
| NothingToStrip

definition archive_dir :: "string \<Rightarrow> string" where
  "archive_dir run = ''forge-archive/'' @ run"

definition archive_path :: "string \<Rightarrow> string \<Rightarrow> string" where
  "archive_path run name = archive_dir run @ ''/'' @ name"

definition archive_file :: "string \<Rightarrow> string \<Rightarrow> clean_note list \<times> disk \<Rightarrow> clean_note list \<times> disk" where
  "archive_file run name nd =
     (case nd of (notes, d) \<Rightarrow>
        if \<not> fs_exists name d then (notes, d)
        else case fs_rename name (archive_path run (''pre-'' @ name)) d of
               (Inr _, d') \<Rightarrow> (notes @ [FileArchived name], d')
             | (Inl e, d') \<Rightarrow> (notes @ [FileNotArchived name e], d'))"

definition strip_on_disk :: "forge_codecs \<Rightarrow> disk \<Rightarrow> clean_note \<times> disk" where
  "strip_on_disk cx d =
     (case strip_gpu_vf_blacklist (load_record (cx_record cx) d) of
        (removed, r) \<Rightarrow>
          if removed > 0
          then (case save_record (cx_record cx) r d of
                  (Inr _, d') \<Rightarrow> (RegionsRemoved removed, d')
                | (Inl e, d') \<Rightarrow> (StripNotSaved e, d'))
          else (NothingToStrip, d))"

text \<open>The manifest is rendered by the argument \<open>render\<close> from the run and the notes.\<close>

definition archive_pre_clean_run ::
  "forge_codecs \<Rightarrow> (string \<Rightarrow> clean_note list \<Rightarrow> string) \<Rightarrow> string \<Rightarrow> disk \<Rightarrow> clean_note list \<times> disk" where
  "archive_pre_clean_run cx render run d =
     (if dir_refused d \<or> refused d (archive_dir run) then ([CleanRunStarts run, ArchiveDirFailed], d)
      else case fold (archive_file run) [observations_file, forge_state_file_name] ([CleanRunStarts run], d) of
        (notes, d1) \<Rightarrow>
          (let d2 = snd (fs_copy record_file (archive_path run ''pre-safe_loop.json'') d1)
           in case strip_on_disk cx d2 of
                (note, d3) \<Rightarrow>
                  (notes @ [note],
                   snd (fs_write (archive_path run ''clean-run-manifest.txt'') (render run (notes @ [note])) d3))))"

definition archive_clean_run_results :: "string \<Rightarrow> disk \<Rightarrow> clean_note option \<times> disk" where
  "archive_clean_run_results run d =
     (if \<not> fs_exists observations_file d then (None, d)
      else case fs_copy observations_file (archive_path run ''run-f2_observations.jsonl'') d of
             (Inr _, d') \<Rightarrow> (Some (FileArchived observations_file), d')
           | (Inl e, d') \<Rightarrow> (Some (FileNotArchived observations_file e), d'))"

section \<open>Runs of the handle\<close>

text \<open>
  What can happen to a handle: requests of the operator, a step of a thread, a driver reset that the
  sentinel reports, and any change of the disk by others. A start is admitted by the lease of the IPC
  server, which looks at the published progress, and by the absence of an incident; only then it swaps
  the running bit, and every store of the start and of the end of a worker is a step of its own, so
  that any other step may come between. \<open>Starting k\<close> has done \<open>k\<close> of the stores after the swap,
  \<open>Leaving k\<close> has done \<open>k\<close> of the three last ones. The ghost \<open>sy_overtaken\<close> remembers that a start won
  the swap while an earlier worker still had its second or third store to do.
\<close>

datatype forge_thread = Asked | Starting nat | Working | Leaving nat | Gone

datatype forge_event =
  EvAsk | EvSwap nat | EvStore nat | EvStop | EvAbort | EvPublish nat forge_progress | EvFinish nat
| EvPanic nat | EvReset forge_text | EvForget forge_text | EvTdr string | EvDisk disk

record forge_sys =
  sy_world :: forge_world
  sy_threads :: "forge_thread list"
  sy_overtaken :: bool
  sy_disk :: disk

definition idle_world :: forge_world where
  "idle_world = \<lparr>fw_progress = idle_progress, fw_stop = False, fw_manual_stop = False,
                 fw_running = False, fw_active = False, fw_registered = False\<rparr>"

fun late :: "forge_thread \<Rightarrow> bool" where
  "late (Leaving k) = (k > 0)"
| "late _ = False"

inductive forge_step :: "forge_codecs \<Rightarrow> forge_sys \<Rightarrow> forge_event \<Rightarrow> forge_sys \<Rightarrow> bool" for cx where
  fs_ask: "\<not> fg_running (fw_progress (sy_world s)) \<Longrightarrow>
     pending_forge_incident (load_record (cx_record cx) (sy_disk s)) = None \<Longrightarrow>
     forge_step cx s EvAsk (s\<lparr>sy_threads := sy_threads s @ [Asked]\<rparr>)"
| fs_swap: "i < length (sy_threads s) \<Longrightarrow> sy_threads s ! i = Asked \<Longrightarrow>
     start_swap (sy_world s) = (held, w) \<Longrightarrow>
     forge_step cx s (EvSwap i)
       (s\<lparr>sy_overtaken := sy_overtaken s \<or> \<not> held \<and> list_ex late (sy_threads s), sy_world := w,
          sy_threads := (sy_threads s)[i := if held then Gone else Starting 0]\<rparr>)"
| fs_start: "i < length (sy_threads s) \<Longrightarrow> sy_threads s ! i = Starting k \<Longrightarrow>
     forge_step cx s (EvStore i)
       (s\<lparr>sy_world := start_store k (sy_world s),
          sy_threads := (sy_threads s)[i := if k < 3 then Starting (Suc k) else Working]\<rparr>)"
| fs_leave: "i < length (sy_threads s) \<Longrightarrow> sy_threads s ! i = Leaving k \<Longrightarrow>
     forge_step cx s (EvStore i)
       (s\<lparr>sy_world := leave_store k (sy_world s),
          sy_threads := (sy_threads s)[i := if k < 2 then Leaving (Suc k) else Gone]\<rparr>)"
| fs_stop: "forge_step cx s EvStop (s\<lparr>sy_world := handle_stop (sy_world s)\<rparr>)"
| fs_abort: "forge_step cx s EvAbort (s\<lparr>sy_world := handle_abort (sy_world s)\<rparr>)"
| fs_publish: "i < length (sy_threads s) \<Longrightarrow> sy_threads s ! i = Working \<Longrightarrow>
     forge_step cx s (EvPublish i p) (s\<lparr>sy_world := (sy_world s)\<lparr>fw_progress := published p\<rparr>\<rparr>)"
| fs_finish: "i < length (sy_threads s) \<Longrightarrow> sy_threads s ! i = Working \<Longrightarrow>
     forge_step cx s (EvFinish i) (s\<lparr>sy_threads := (sy_threads s)[i := Leaving 0]\<rparr>)"
| fs_panic: "i < length (sy_threads s) \<Longrightarrow> sy_threads s ! i = Working \<Longrightarrow>
     worker_panicked cx now nanos gpu (sy_world s) (sy_disk s) = (w, d) \<Longrightarrow>
     forge_step cx s (EvPanic i)
       (s\<lparr>sy_world := w, sy_threads := (sy_threads s)[i := Leaving 0], sy_disk := d\<rparr>)"
| fs_reset: "forge_step cx s (EvReset note) (s\<lparr>sy_world := recover_after_reset note (handle_abort (sy_world s))\<rparr>)"
| fs_forget: "forge_step cx s (EvForget note) (s\<lparr>sy_world := forget_after_full_reset note (handle_abort (sy_world s))\<rparr>)"
| fs_tdr: "record_active_forge_tdr cx now nanos gpu event (sy_world s) (sy_disk s) = (b, w, d) \<Longrightarrow>
     forge_step cx s (EvTdr event) (s\<lparr>sy_world := w, sy_disk := d\<rparr>)"
| fs_disk: "forge_step cx s (EvDisk d) (s\<lparr>sy_disk := d\<rparr>)"

inductive forge_path :: "forge_codecs \<Rightarrow> forge_sys \<Rightarrow> forge_event list \<Rightarrow> forge_sys \<Rightarrow> bool" for cx where
  fp_nil: "forge_path cx s [] s"
| fp_snoc: "forge_path cx s es s1 \<Longrightarrow> forge_step cx s1 e s2 \<Longrightarrow> forge_path cx s (es @ [e]) s2"

inductive_cases forge_stepE: "forge_step cx s e s'"

definition is_reset :: "forge_event \<Rightarrow> bool" where
  "is_reset e = (case e of EvReset _ \<Rightarrow> True | EvForget _ \<Rightarrow> True | _ \<Rightarrow> False)"

definition idle_sys :: "disk \<Rightarrow> forge_sys" where
  "idle_sys d = \<lparr>sy_world = idle_world, sy_threads = [], sy_overtaken = False, sy_disk = d\<rparr>"

text \<open>A thread holds the card between its swap and the store that lowers the running bit again; it is
  alive until its last store; it has raised the interlock or the registration and not lowered it yet.\<close>

fun holds_card :: "forge_thread \<Rightarrow> bool" where
  "holds_card (Starting k) = True"
| "holds_card Working = True"
| "holds_card (Leaving k) = (k = 0)"
| "holds_card _ = False"

fun alive :: "forge_thread \<Rightarrow> bool" where
  "alive (Starting k) = True"
| "alive Working = True"
| "alive (Leaving k) = True"
| "alive _ = False"

fun raised_interlock :: "forge_thread \<Rightarrow> bool" where
  "raised_interlock (Starting k) = (k \<ge> 3)"
| "raised_interlock Working = True"
| "raised_interlock (Leaving k) = (k \<le> 1)"
| "raised_interlock _ = False"

fun raised_registration :: "forge_thread \<Rightarrow> bool" where
  "raised_registration Working = True"
| "raised_registration (Leaving k) = True"
| "raised_registration _ = False"

definition at_most_one :: "('a \<Rightarrow> bool) \<Rightarrow> 'a list \<Rightarrow> bool" where
  "at_most_one P xs \<longleftrightarrow>
     (\<forall>i < length xs. \<forall>j < length xs. P (xs ! i) \<longrightarrow> P (xs ! j) \<longrightarrow> i = j)"

definition some_one :: "('a \<Rightarrow> bool) \<Rightarrow> 'a list \<Rightarrow> bool" where
  "some_one P xs \<longleftrightarrow> (\<exists>i < length xs. P (xs ! i))"

fun covered :: "forge_world \<Rightarrow> forge_thread \<Rightarrow> bool" where
  "covered w (Starting k) = (k \<ge> 3 \<longrightarrow> fw_active w)"
| "covered w Working = (fw_active w \<and> fw_registered w)"
| "covered w _ = True"

definition owned :: "forge_sys \<Rightarrow> bool" where
  "owned s \<longleftrightarrow>
     at_most_one holds_card (sy_threads s) \<and>
     (fw_running (sy_world s) \<longleftrightarrow> some_one holds_card (sy_threads s))"

definition backed :: "forge_world \<Rightarrow> forge_thread list \<Rightarrow> bool" where
  "backed w ts \<longleftrightarrow>
     (fw_active w \<longrightarrow> some_one raised_interlock ts) \<and>
     (fw_registered w \<longrightarrow> some_one raised_registration ts)"

definition orderly :: "forge_sys \<Rightarrow> bool" where
  "orderly s \<longleftrightarrow> sy_overtaken s \<or>
     at_most_one alive (sy_threads s) \<and>
     (\<forall>i < length (sy_threads s). covered (sy_world s) (sy_threads s ! i))"

text \<open>One element of a list is replaced, or one is added.\<close>

lemma one_keep: "at_most_one P xs \<Longrightarrow> i < length xs \<Longrightarrow> (P x \<Longrightarrow> P (xs ! i)) \<Longrightarrow> at_most_one P (xs[i := x])"
  unfolding at_most_one_def by (auto simp: nth_list_update)

lemma one_new:
  assumes "\<not> some_one P xs"
  shows "at_most_one P (xs[i := x])"
proof -
  have "a = i" if "a < length xs" "P (xs[i := x] ! a)" for a
    using that assms by (cases "a = i") (auto simp: some_one_def)
  then show ?thesis unfolding at_most_one_def by simp metis
qed

lemma one_append: "at_most_one P xs \<Longrightarrow> \<not> P x \<Longrightarrow> at_most_one P (xs @ [x])"
  unfolding at_most_one_def by (auto simp: nth_append less_Suc_eq)

lemma some_one_set: "some_one P xs \<longleftrightarrow> (\<exists>x \<in> set xs. P x)"
  by (auto simp: some_one_def in_set_conv_nth Bex_def)

lemma some_append: "some_one P (xs @ [x]) \<longleftrightarrow> some_one P xs \<or> P x"
  by (auto simp: some_one_set)

lemma some_same:
  assumes "i < length xs" and "P x = P (xs ! i)"
  shows "some_one P (xs[i := x]) = some_one P xs"
proof -
  have "P (xs[i := x] ! j) = P (xs ! j)" if "j < length xs" for j
    using that assms by (cases "j = i") auto
  then show ?thesis by (auto simp: some_one_def)
qed

lemma some_put: "i < length xs \<Longrightarrow> P x \<Longrightarrow> some_one P (xs[i := x])"
  unfolding some_one_def by auto

lemma some_drop: "at_most_one P xs \<Longrightarrow> i < length xs \<Longrightarrow> P (xs ! i) \<Longrightarrow> \<not> P x \<Longrightarrow> \<not> some_one P (xs[i := x])"
  unfolding some_one_def at_most_one_def by (auto simp: nth_list_update)

lemma some_kept:
  assumes "some_one P xs" and "i < length xs" and "P (xs ! i) \<Longrightarrow> P x"
  shows "some_one P (xs[i := x])"
proof -
  obtain j where j: "j < length xs" "P (xs ! j)" using assms(1) by (auto simp: some_one_def)
  then have "P (xs[i := x] ! j)" using assms(2,3) by (cases "j = i") auto
  with j show ?thesis by (auto simp: some_one_def)
qed

lemma late_alive: "list_ex late ts \<or> some_one holds_card ts \<longleftrightarrow> some_one alive ts"
proof -
  have "late t \<or> holds_card t \<longleftrightarrow> alive t" for t by (cases t) auto
  then show ?thesis by (auto simp: list_ex_iff some_one_set)
qed

text \<open>What the stores leave alone.\<close>

lemma stores [simp]:
  "fw_running (start_store k w) = fw_running w"
  "fw_active (start_store k w) = (k = 2 \<or> fw_active w)"
  "fw_registered (start_store k w) = (k > 2 \<or> fw_registered w)"
  "fw_running (leave_store k w) = (k \<noteq> 0 \<and> fw_running w)"
  "fw_active (leave_store k w) = (k \<noteq> 1 \<and> fw_active w)"
  "fw_registered (leave_store k w) = (k \<le> 1 \<and> fw_registered w)"
  by (auto simp: start_store_def leave_store_def)

lemma requests [simp]:
  "fw_running (handle_stop w) = fw_running w" "fw_active (handle_stop w) = fw_active w"
  "fw_registered (handle_stop w) = fw_registered w" "fw_running (handle_abort w) = fw_running w"
  "fw_active (handle_abort w) = fw_active w" "fw_registered (handle_abort w) = fw_registered w"
  "fw_running (request_active_forge_stop w) = fw_running w"
  "fw_active (request_active_forge_stop w) = fw_active w"
  "fw_registered (request_active_forge_stop w) = fw_registered w"
  by (auto simp: handle_stop_def handle_abort_def request_active_forge_stop_def Let_def)

lemma resets [simp]:
  "fw_active (recover_after_reset note w) = fw_active w"
  "fw_registered (recover_after_reset note w) = fw_registered w"
  "fw_active (forget_after_full_reset note w) = fw_active w"
  "fw_registered (forget_after_full_reset note w) = fw_registered w"
  by (auto simp: recover_after_reset_def forget_after_full_reset_def Let_def)

definition same_bits :: "forge_world \<Rightarrow> forge_world \<Rightarrow> bool" where
  "same_bits w w' \<longleftrightarrow> fw_running w' = fw_running w \<and> fw_active w' = fw_active w \<and>
     fw_registered w' = fw_registered w"

lemma covered_bits: "same_bits w w' \<Longrightarrow> covered w' t = covered w t"
  by (cases t) (auto simp: same_bits_def)

lemma tdr_bits: "record_active_forge_tdr cx now nanos gpu event w d = (b, w', d') \<Longrightarrow> same_bits w w'"
  by (auto simp: record_active_forge_tdr_def same_bits_def Let_def split: if_splits prod.splits)

lemma panic_bits: "worker_panicked cx now nanos gpu w d = (w', d') \<Longrightarrow> same_bits w w'"
  by (auto simp: worker_panicked_def same_bits_def Let_def)

lemma owned_idle: "owned (idle_sys d)" and backed_idle: "backed (sy_world (idle_sys d)) (sy_threads (idle_sys d))"
  and orderly_idle: "orderly (idle_sys d)"
  by (simp_all add: owned_def backed_def orderly_def at_most_one_def some_one_def idle_sys_def idle_world_def)

lemma owned_step:
  assumes step: "forge_step cx s e s'" and "\<not> is_reset e" and own: "owned s"
  shows "owned s'"
  using step
proof (cases rule: forge_step.cases)
  case (fs_swap i held w)
  show ?thesis
  proof (cases held)
    case True
    with fs_swap own show ?thesis by (auto simp: owned_def start_swap_def some_same intro: one_keep)
  next
    case False
    with fs_swap own show ?thesis by (auto simp: owned_def start_swap_def some_put intro: one_new)
  qed
next
  case (fs_leave i k)
  have one: "at_most_one holds_card (sy_threads s)" using own by (simp add: owned_def)
  show ?thesis
  proof (cases "k = 0")
    case True
    with fs_leave own some_drop [OF one fs_leave(3)] show ?thesis
      by (auto simp: owned_def intro: one_keep)
  next
    case False
    with fs_leave own show ?thesis by (auto simp: owned_def some_same intro: one_keep)
  qed
next
  case (fs_panic i now nanos gpu w d)
  with own panic_bits [OF fs_panic(5)] show ?thesis
    by (auto simp: owned_def same_bits_def some_same intro: one_keep)
next
  case (fs_tdr now nanos gpu event b w d)
  with own tdr_bits [OF fs_tdr(3)] show ?thesis by (auto simp: owned_def same_bits_def)
qed (use own assms(2) in \<open>auto simp: owned_def is_reset_def one_append some_append some_same intro: one_keep\<close>)

lemma backed_step: "forge_step cx s e s' \<Longrightarrow> backed (sy_world s) (sy_threads s) \<Longrightarrow> backed (sy_world s') (sy_threads s')"
  by (erule forge_stepE)
    (auto simp: backed_def start_swap_def some_append same_bits_def intro: some_put some_kept
      dest!: tdr_bits panic_bits split: if_splits)

lemma covered_put:
  assumes "\<forall>j < length ts. covered w (ts ! j)" and "i < length ts" and "at_most_one alive ts" and "alive (ts ! i)"
    and "covered w' t" and "j < length ts"
  shows "covered w' (ts[i := t] ! j)"
proof (cases "j = i")
  case False
  with assms have "\<not> alive (ts ! j)" by (auto simp: at_most_one_def)
  then show ?thesis using False by (cases "ts ! j") auto
qed (use assms in auto)

lemma orderly_quiet:
  assumes "orderly s" and "sy_threads s' = sy_threads s" and "sy_overtaken s' = sy_overtaken s"
    and "same_bits (sy_world s) (sy_world s')"
  shows "orderly s'"
  using assms by (simp add: orderly_def covered_bits)

lemma orderly_step:
  assumes step: "forge_step cx s e s'" and "\<not> is_reset e" and own: "owned s" and ord: "orderly s"
  shows "orderly s'"
  using step
proof (cases rule: forge_step.cases)
  case fs_ask
  then show ?thesis using ord by (auto simp: orderly_def nth_append less_Suc_eq intro: one_append)
next
  case (fs_swap i held w)
  have idle: "\<not> some_one alive (sy_threads s)" if "\<not> held" "\<not> list_ex late (sy_threads s)"
    using that fs_swap own late_alive [of "sy_threads s"] by (auto simp: start_swap_def owned_def)
  have none: "\<not> alive (sy_threads s ! j)" if "\<not> some_one alive (sy_threads s)" "j < length (sy_threads s)" for j
    using that by (auto simp: some_one_def)
  show ?thesis
  proof (cases held)
    case True
    have "covered (w\<lparr>fw_running := b\<rparr>) t = covered w t" for w b t by (cases t) auto
    then show ?thesis using ord fs_swap True
      by (auto simp: orderly_def start_swap_def nth_list_update intro: one_keep)
  next
    case False
    have "covered w (sy_threads s ! j)" if "\<not> alive (sy_threads s ! j)" for j
      using that by (cases "sy_threads s ! j") auto
    then show ?thesis using False fs_swap idle none
      by (auto simp: orderly_def nth_list_update intro: one_new)
  qed
next
  case (fs_start i k)
  have "k \<ge> 3 \<longrightarrow> fw_active (sy_world s)" if "\<not> sy_overtaken s"
  proof -
    have "\<forall>j < length (sy_threads s). covered (sy_world s) (sy_threads s ! j)"
      using ord that by (simp add: orderly_def)
    then have "covered (sy_world s) (sy_threads s ! i)" using fs_start(3) by blast
    then show ?thesis using fs_start by simp
  qed
  then show ?thesis using ord fs_start by (auto simp: orderly_def intro!: one_keep elim!: covered_put)
next
  case (fs_leave i k)
  then show ?thesis using ord by (auto simp: orderly_def intro!: one_keep elim!: covered_put)
next
  case (fs_finish i)
  then show ?thesis using ord by (auto simp: orderly_def intro!: one_keep elim!: covered_put)
next
  case (fs_panic i now nanos gpu w d)
  then show ?thesis using ord by (auto simp: orderly_def intro!: one_keep elim!: covered_put)
next
  case (fs_tdr now nanos gpu event b w d)
  then show ?thesis by (intro orderly_quiet [OF ord]) (simp_all add: tdr_bits)
next
  case fs_reset
  then show ?thesis using assms(2) by (simp add: is_reset_def)
next
  case fs_forget
  then show ?thesis using assms(2) by (simp add: is_reset_def)
qed (simp_all add: orderly_quiet [OF ord] same_bits_def)

section \<open>Lemmas\<close>

lemma mode_round_trip: "mode_from_id (mode_id m) = Some m"
  by (cases m) (simp_all add: mode_id_def mode_from_id_def)

lemma learning_round_trip: "learning_from_id (learning_id l) = Some l"
  by (cases l) (simp_all add: learning_id_def learning_from_id_def)

lemma compat_mismatch_None: "compat_mismatch saved cur = None \<longleftrightarrow> saved = cur"
  by (auto simp: compat_mismatch_def intro: resume_compat.equality)

text \<open>The pair of a point, and what publishing its power keeps.\<close>

definition same_pair :: "power_sweep_point \<Rightarrow> power_sweep_point \<Rightarrow> bool" where
  "same_pair q q' \<longleftrightarrow>
     point_target q' = point_target q \<and> point_anchor q' = point_anchor q \<and>
     point_apply_qualified q' = point_apply_qualified q"

lemma publish_point_pair: "publish_point_power obs run gpu q = Inr (c, q') \<Longrightarrow> same_pair q q'"
  by (auto simp: publish_point_power_def same_pair_def point_target_def point_anchor_def
      point_apply_qualified_def Let_def split: option.splits)

lemma publish_set_pairs: "publish_set_power obs run gpu ps = (r, ps') \<Longrightarrow> list_all2 (rel_option same_pair) ps ps'"
proof (induction obs run gpu ps arbitrary: r ps' rule: publish_set_power.induct)
  case (2 obs run gpu ps)
  then show ?case by (auto split: prod.splits)
next
  case (3 obs run gpu q ps)
  have self: "same_pair q q" for q by (simp add: same_pair_def)
  have "list_all2 (rel_option same_pair) ps ps"
    by (simp add: list_all2_same option.rel_refl self)
  with 3 self show ?case
    by (auto dest: publish_point_pair split: sum.splits prod.splits)
qed simp

lemma same_pair_qualified:
  "list_all2 (rel_option same_pair) ps ps' \<Longrightarrow> points_apply_qualified ps' = points_apply_qualified ps"
proof (induction rule: list_all2_induct)
  case (Cons q qs q' qs')
  then show ?case by (cases q; cases q') (simp_all add: points_apply_qualified_def same_pair_def)
qed simp

lemma same_pair_field:
  "list_all2 (rel_option same_pair) ps ps' \<Longrightarrow> set_has_field_failure r cp ps' = set_has_field_failure r cp ps"
proof (induction rule: list_all2_induct)
  case (Cons q qs q' qs')
  then show ?case
    by (cases q; cases q') (simp_all add: set_has_field_failure_def point_field_failure_def same_pair_def)
qed simp

lemma restore_power_keeps:
  assumes "restore_power cx gpu p d = (p', d')"
  shows "points_apply_qualified (profiles_of p') = points_apply_qualified (profiles_of p)"
    and "set_has_field_failure r cp (profiles_of p') = set_has_field_failure r cp (profiles_of p)"
    and "fg_is_undervolt p' = fg_is_undervolt p" "fg_profiles_qualified p' = fg_profiles_qualified p"
    and "fg_running p' = fg_running p" "fg_resume_available p' = fg_resume_available p"
proof -
  have "p' = p \<or> (\<exists>u g b c. publish_set_power (load_observations (cx_obs cx) d) None gpu (profiles_of p) =
      (Inr u, [g, b, c]) \<and> p' = p\<lparr>sp_godforge := g, sp_brokkrs := b, sp_deep_calm := c,
          fg_recommended := b, fg_log := fg_log p @ [PowerRestored u]\<rparr>)"
    using assms by (auto simp: restore_power_def Let_def split: if_splits prod.splits sum.splits list.splits)
  then show "points_apply_qualified (profiles_of p') = points_apply_qualified (profiles_of p)"
    and "set_has_field_failure r cp (profiles_of p') = set_has_field_failure r cp (profiles_of p)"
    and "fg_is_undervolt p' = fg_is_undervolt p" "fg_profiles_qualified p' = fg_profiles_qualified p"
    and "fg_running p' = fg_running p" "fg_resume_available p' = fg_resume_available p"
    using publish_set_pairs [of "load_observations (cx_obs cx) d" None gpu "profiles_of p"]
      same_pair_qualified [of "profiles_of p"] same_pair_field [of "profiles_of p"]
    by (auto simp: profiles_of_def)
qed

lemma decoded_closed:
  assumes "decode_forge_state cx json gpu = LoadedState p"
  shows "\<not> fg_running p" "\<not> fg_resume_available p"
    and "fg_is_undervolt p \<Longrightarrow> fg_profiles_qualified p \<Longrightarrow> points_apply_qualified (profiles_of p)"
  using assms
  by (auto simp: decode_forge_state_def close_checkpoint_def label_interrupted_def
      drop_old_qualification_def profiles_of_def split: option.splits if_splits)

lemma rejected_keeps:
  "fg_running (reject_pending r (reject_condemned r cp p)) = fg_running p"
  "fg_resume_available (reject_pending r (reject_condemned r cp p)) = fg_resume_available p"
  "fg_is_undervolt (reject_pending r (reject_condemned r cp p)) = fg_is_undervolt p"
  "profiles_of (reject_pending r (reject_condemned r cp p)) = profiles_of p"
  "fg_profiles_qualified (reject_pending r (reject_condemned r cp p)) \<longleftrightarrow>
     fg_profiles_qualified p \<and> pending_forge_incident r = None \<and>
     \<not> (fg_is_undervolt p \<and> set_has_field_failure r cp (profiles_of p))"
  by (auto simp: reject_pending_def reject_condemned_def profiles_of_def)

section \<open>Properties\<close>

text \<open>C3: while no reset intervenes, and whatever steps come between the single stores of a start and of the
  end of a worker, at most one thread holds the card, from the swap that admits it to the store that lowers
  the running bit, and that bit is up exactly while one does; the interlock of the sentinel and the
  registration of the stop flags are up only while a thread that raised them has not lowered them. A
  worker has both up unless some start won the swap before the previous worker had done its last stores.\<close>

theorem one_worker_owns_the_card:
  assumes "forge_path cx (idle_sys d) es s" and "list_all (\<lambda>e. \<not> is_reset e) es"
  shows "at_most_one holds_card (sy_threads s) \<and>
    (fw_running (sy_world s) \<longleftrightarrow> some_one holds_card (sy_threads s)) \<and>
    (fw_active (sy_world s) \<longrightarrow> some_one raised_interlock (sy_threads s)) \<and>
    (fw_registered (sy_world s) \<longrightarrow> some_one raised_registration (sy_threads s)) \<and>
    (\<not> sy_overtaken s \<longrightarrow> Working \<in> set (sy_threads s) \<longrightarrow>
       fw_active (sy_world s) \<and> fw_registered (sy_world s))"
proof -
  have "owned s \<and> backed (sy_world s) (sy_threads s) \<and> orderly s"
    using assms by (induction "idle_sys d" es s rule: forge_path.induct)
      (auto intro: owned_idle owned_step backed_idle backed_step orderly_idle orderly_step)
  then show ?thesis by (auto simp: owned_def backed_def orderly_def in_set_conv_nth)
qed

lemma path_one: "forge_step cx s e s' \<Longrightarrow> forge_path cx s [e] s'"
  using fp_snoc [OF fp_nil, of cx s e s'] by simp

lemma path_append: "forge_path cx s1 fs s2 \<Longrightarrow> forge_path cx s es s1 \<Longrightarrow> forge_path cx s (es @ fs) s2"
  by (induction s1 fs s2 rule: forge_path.induct) (auto simp flip: append_assoc intro: fp_snoc)

lemma path_step: "forge_path cx s es s1 \<Longrightarrow> forge_step cx s1 e s2 \<Longrightarrow> fs = es @ [e] \<Longrightarrow> forge_path cx s fs s2"
  by (simp add: fp_snoc)

text \<open>A start that nothing interrupts, and an end that nothing interrupts.\<close>

lemma whole_start:
  assumes "\<not> fg_running (fw_progress (sy_world s))" and "\<not> fw_running (sy_world s)"
    and "pending_forge_incident (load_record (cx_record cx) (sy_disk s)) = None"
    and "i = length (sy_threads s)"
  shows "forge_path cx s [EvAsk, EvSwap i, EvStore i, EvStore i, EvStore i, EvStore i]
    (s\<lparr>sy_overtaken := sy_overtaken s \<or> list_ex late (sy_threads s),
       sy_world := snd (start_with_intent cx (sy_disk s) (sy_world s)),
       sy_threads := sy_threads s @ [Working]\<rparr>)"
proof -
  let ?w = "(sy_world s)\<lparr>fw_running := True\<rparr>"
  let ?at = "\<lambda>w t. s\<lparr>sy_overtaken := sy_overtaken s \<or> list_ex late (sy_threads s), sy_world := w,
                    sy_threads := sy_threads s @ [t]\<rparr>"
  have ask: "forge_path cx s [EvAsk] (s\<lparr>sy_threads := sy_threads s @ [Asked]\<rparr>)"
    using assms by (intro path_one fs_ask) auto
  have "forge_step cx (s\<lparr>sy_threads := sy_threads s @ [Asked]\<rparr>) (EvSwap i) (?at ?w (Starting 0))"
    using fs_swap [of i "s\<lparr>sy_threads := sy_threads s @ [Asked]\<rparr>" False ?w cx] assms
    by (simp add: start_swap_def)
  note swap = path_step [OF ask this refl]
  have store: "forge_step cx (?at w (Starting k)) (EvStore i) (?at (start_store k w) (Starting (Suc k)))"
    if "k < 3" for w k
    using fs_start [of i "?at w (Starting k)" k cx] assms that by simp
  have last: "forge_step cx (?at w (Starting 3)) (EvStore i) (?at (start_store 3 w) Working)" for w
    using fs_start [of i "?at w (Starting 3)" 3 cx] assms by simp
  note two = fp_snoc [OF fp_snoc [OF swap store [of 0]] store [of "Suc 0"]]
  note four = fp_snoc [OF fp_snoc [OF two store [of "Suc (Suc 0)"]] last [unfolded numeral_3_eq_3]]
  show ?thesis
    using four assms by (simp add: start_with_intent_def start_swap_def numeral_2_eq_2 numeral_3_eq_3)
qed

lemma whole_end:
  assumes "i < length (sy_threads s)" and "sy_threads s ! i = Working"
  shows "forge_path cx s [EvFinish i, EvStore i, EvStore i, EvStore i]
    (s\<lparr>sy_world := fold leave_store [0, 1, 2] (sy_world s), sy_threads := (sy_threads s)[i := Gone]\<rparr>)"
proof -
  let ?at = "\<lambda>w t. s\<lparr>sy_world := w, sy_threads := (sy_threads s)[i := t]\<rparr>"
  have fin: "forge_path cx s [EvFinish i] (?at (sy_world s) (Leaving 0))"
    using path_one [OF fs_finish [OF assms]] by simp
  have store: "forge_step cx (?at w (Leaving k)) (EvStore i) (?at (leave_store k w) (Leaving (Suc k)))"
    if "k < 2" for w k
    using fs_leave [of i "?at w (Leaving k)" k cx] assms that by simp
  have last: "forge_step cx (?at w (Leaving 2)) (EvStore i) (?at (leave_store 2 w) Gone)" for w
    using fs_leave [of i "?at w (Leaving 2)" 2 cx] assms by simp
  note path = fp_snoc [OF fp_snoc [OF fp_snoc [OF fin store [of 0]] store [of "Suc 0"]]
    last [unfolded numeral_2_eq_2]]
  show ?thesis using path by (simp add: numeral_2_eq_2)
qed

lemma no_incident: "pending_forge_incident (load_record c empty_disk) = None"
  by (simp add: load_record_def fs_read_def empty_disk_def default_record_def)

definition held_world :: forge_world where
  "held_world = idle_world\<lparr>fw_running := True, fw_active := True, fw_registered := True\<rparr>"

lemma start_idle:
  "forge_path cx (idle_sys empty_disk)
     [EvAsk, EvSwap 0, EvStore 0, EvStore 0, EvStore 0, EvStore 0]
     \<lparr>sy_world = held_world, sy_threads = [Working], sy_overtaken = False, sy_disk = empty_disk\<rparr>"
  using whole_start [of "idle_sys empty_disk" cx 0]
  by (simp add: idle_sys_def idle_world_def idle_progress_def no_incident start_with_intent_eq held_world_def)

text \<open>Codecs for the witnesses: they know one record and one checkpoint.\<close>

definition toy_forge_codecs :: "safe_loop_record \<Rightarrow> forge_progress \<Rightarrow> forge_codecs" where
  "toy_forge_codecs r p =
     \<lparr>cx_flag = \<lparr>enc = (\<lambda>_. Some ''f''),
                 dec = (\<lambda>s. if s = ''f'' then Some (sample_flag supervised_f2_forge_phase) else None)\<rparr>,
      cx_record = \<lparr>enc = (\<lambda>x. if x = r then Some ''r'' else None), dec = (\<lambda>s. if s = ''r'' then Some r else None)\<rparr>,
      cx_applied = \<lparr>enc = (\<lambda>_. None), dec = (\<lambda>_. None)\<rparr>,
      cx_state = \<lparr>enc = (\<lambda>_. Some ''s''),
                  dec = (\<lambda>s. if s = ''s''
                     then Some \<lparr>fs_schema = forge_state_schema, fs_gpu_key = ''g'', fs_progress = p\<rparr> else None)\<rparr>,
      cx_event = toy_event_codec, cx_obs = \<lparr>enc = (\<lambda>_. None), dec = (\<lambda>_. None)\<rparr>\<rparr>"

theorem one_worker_owns_the_card_witness:
  "\<exists>es s. forge_path (toy_forge_codecs default_record idle_progress) (idle_sys empty_disk) es s \<and>
     sy_threads s = [Working] \<and> \<not> sy_overtaken s \<and> at_most_one holds_card (sy_threads s) \<and>
     fw_active (sy_world s) \<and> fw_registered (sy_world s)"
proof -
  note path = start_idle [of "toy_forge_codecs default_record idle_progress"]
  have "list_all (\<lambda>e. \<not> is_reset e) [EvAsk, EvSwap 0, EvStore 0, EvStore 0, EvStore 0, EvStore 0]"
    by (simp add: is_reset_def)
  from one_worker_owns_the_card [OF path this] path show ?thesis by (intro exI conjI) auto
qed

text \<open>What the last clause of C3 leaves out does happen, without any reset: the operator starts the forge
  between the first and the second of the last stores of the previous worker, and those clear the
  interlock and the registration of the new one, which works uncovered.\<close>

lemma overtaken_worker_uncovered:
  "\<exists>es s. forge_path cx (idle_sys empty_disk) es s \<and> list_all (\<lambda>e. \<not> is_reset e) es \<and>
     sy_threads s = [Gone, Working] \<and> fw_running (sy_world s) \<and> \<not> fw_active (sy_world s) \<and>
     \<not> fw_registered (sy_world s)"
proof -
  let ?at = "\<lambda>w ts b. \<lparr>sy_world = w, sy_threads = ts, sy_overtaken = b, sy_disk = empty_disk\<rparr>"
  let ?w1 = "held_world\<lparr>fw_running := False\<rparr>"
  let ?w2 = "held_world\<lparr>fw_active := False\<rparr>"
  have fin: "forge_step cx (?at held_world [Working] False) (EvFinish 0) (?at held_world [Leaving 0] False)"
    using fs_finish [of 0 "?at held_world [Working] False" cx] by simp
  have low: "forge_step cx (?at held_world [Leaving 0] False) (EvStore 0) (?at ?w1 [Leaving 1] False)"
    using fs_leave [of 0 "?at held_world [Leaving 0] False" 0 cx] by (simp add: leave_store_def)
  have again: "forge_path cx (?at ?w1 [Leaving 1] False)
      [EvAsk, EvSwap 1, EvStore 1, EvStore 1, EvStore 1, EvStore 1] (?at held_world [Leaving 1, Working] True)"
    using whole_start [of "?at ?w1 [Leaving 1] False" cx 1]
    by (simp add: held_world_def idle_world_def idle_progress_def no_incident start_with_intent_eq)
  have two: "forge_step cx (?at held_world [Leaving 1, Working] True) (EvStore 0)
      (?at ?w2 [Leaving 2, Working] True)"
    using fs_leave [of 0 "?at held_world [Leaving 1, Working] True" 1 cx]
    by (simp add: leave_store_def numeral_2_eq_2)
  have three: "forge_step cx (?at ?w2 [Leaving 2, Working] True) (EvStore 0)
      (?at (?w2\<lparr>fw_registered := False\<rparr>) [Gone, Working] True)"
    using fs_leave [of 0 "?at ?w2 [Leaving 2, Working] True" 2 cx] by (simp add: leave_store_def)
  note path = fp_snoc [OF fp_snoc [OF path_append [OF again fp_snoc [OF fp_snoc [OF start_idle fin] low]] two] three]
  show ?thesis by (rule exI, rule exI, rule conjI [OF path]) (simp add: is_reset_def held_world_def)
qed

text \<open>C39: a reset hands the card to a second worker while the first is alive: the reset lowers the running
  bit without waiting, the next start is admitted and lowers the stop flag that both workers share; when
  one of them ends, the interlock of the sentinel is down although the other still owns the card.\<close>

theorem reset_lends_the_card_twice:
  "\<exists>s s'. forge_path cx (idle_sys empty_disk)
       ([EvAsk, EvSwap 0, EvStore 0, EvStore 0, EvStore 0, EvStore 0] @
        [EvPublish 0 (idle_progress\<lparr>fg_running := True\<rparr>), EvReset note] @
        [EvAsk, EvSwap 1, EvStore 1, EvStore 1, EvStore 1, EvStore 1]) s \<and>
     sy_threads s = [Working, Working] \<and> \<not> fw_stop (sy_world s) \<and>
     forge_path cx s [EvFinish 0, EvStore 0, EvStore 0, EvStore 0] s' \<and>
     sy_threads s' = [Gone, Working] \<and> \<not> fw_active (sy_world s') \<and> \<not> fw_running (sy_world s')"
proof -
  define p where "p = idle_progress\<lparr>fg_running := True\<rparr>"
  define s1 where "s1 = \<lparr>sy_world = held_world, sy_threads = [Working], sy_overtaken = False,
    sy_disk = empty_disk\<rparr>"
  define s2 where "s2 = s1\<lparr>sy_world := held_world\<lparr>fw_progress := published p\<rparr>\<rparr>"
  define s3 where "s3 = s2\<lparr>sy_world := recover_after_reset note (handle_abort (sy_world s2))\<rparr>"
  define s4 where "s4 = s3\<lparr>sy_world := snd (start_with_intent cx empty_disk (sy_world s3)),
    sy_threads := [Working, Working]\<rparr>"
  have "forge_step cx s1 (EvPublish 0 p) s2"
    using fs_publish [of 0 s1 cx p] by (simp add: s2_def s1_def)
  moreover have "forge_step cx s2 (EvReset note) s3" using fs_reset [of cx s2 "note"] by (simp add: s3_def)
  ultimately have mid: "forge_path cx s1 ([EvPublish 0 p] @ [EvReset note]) s3"
    by (intro fp_snoc [OF path_one])
  have idle: "\<not> fg_running (fw_progress (sy_world s3))" "\<not> fw_running (sy_world s3)"
    by (simp_all add: s3_def s2_def recover_after_reset_def handle_abort_def published_def p_def
        idle_progress_def forgotten_progress_def log_tail_def Let_def)
  have parts: "sy_disk s3 = empty_disk" "sy_threads s3 = [Working]" "\<not> sy_overtaken s3"
    by (simp_all add: s3_def s2_def s1_def)
  have "forge_path cx s3 [EvAsk, EvSwap 1, EvStore 1, EvStore 1, EvStore 1, EvStore 1] s4"
    using whole_start [OF idle, of cx 1] parts by (simp add: no_incident s4_def s3_def s2_def s1_def)
  note second = path_append [OF this path_append [OF mid start_idle [of cx, folded s1_def]]]
  have two: "sy_threads s4 = [Working, Working]" "\<not> fw_stop (sy_world s4)"
    using idle by (simp_all add: s4_def start_with_intent_eq no_incident)
  have stop: "forge_path cx s4 [EvFinish 0, EvStore 0, EvStore 0, EvStore 0]
      (s4\<lparr>sy_world := fold leave_store [0, 1, 2] (sy_world s4), sy_threads := [Gone, Working]\<rparr>)"
    using whole_end [of 0 s4 cx] two by simp
  show ?thesis
    using second two stop
    by (intro exI [of _ s4] exI [of _ "s4\<lparr>sy_world := fold leave_store [0, 1, 2] (sy_world s4),
        sy_threads := [Gone, Working]\<rparr>"]) (simp add: p_def)
qed

text \<open>A checkpoint restored from disk is never running and never offered for resume before it was
  checked, and if it counts as qualified then no incident is pending, and each of its three profiles
  carries the current Apply qualification and is refused neither by the blacklist nor by the ledger.\<close>

lemma restored_profiles_guarded:
  assumes "load_forge_state cx gpu d = (Some p, d')"
  shows "\<not> fg_running p \<and> \<not> fg_resume_available p \<and>
    (if fg_is_undervolt p \<and> fg_profiles_qualified p
     then pending_forge_incident (load_record (cx_record cx) d) = None \<and>
       list_all (\<lambda>slot. case slot of None \<Rightarrow> False
         | Some q \<Rightarrow> point_apply_qualified q \<and>
             \<not> field_pair_blacklisted (load_record (cx_record cx) d) (point_target q) (point_anchor q) \<and>
             \<not> refuses (ledger_pairs (cx_event cx) d gpu) (point_target q) (point_anchor q))
         (profiles_of p)
     else True)"
proof -
  let ?r = "load_record (cx_record cx) d" and ?cp = "ledger_pairs (cx_event cx) d gpu"
  obtain json p0 where j: "decode_forge_state cx json gpu = LoadedState p0"
    and re: "restore_power cx gpu (reject_pending ?r (reject_condemned ?r ?cp p0)) d = (p, d')"
    using assms by (auto simp: load_forge_state_def Let_def split: sum.splits forge_state_load.splits prod.splits)
  note keep = restore_power_keeps [OF re] and closed = decoded_closed [OF j]
  have split: "list_all (\<lambda>slot. case slot of None \<Rightarrow> False
      | Some q \<Rightarrow> point_apply_qualified q \<and> \<not> field_pair_blacklisted ?r (point_target q) (point_anchor q) \<and>
          \<not> refuses ?cp (point_target q) (point_anchor q)) ps \<longleftrightarrow>
    points_apply_qualified ps \<and> \<not> set_has_field_failure ?r ?cp ps" for ps
    by (induction ps) (auto simp: points_apply_qualified_def set_has_field_failure_def
        point_field_failure_def split: option.splits)
  show ?thesis unfolding split using keep closed by (simp add: rejected_keeps)
qed

end
