(* ===== verification/ForgeProfiles.thy ===== *)
theory ForgeProfiles
  imports ForgeState F2Qualify
begin

text \<open>
  The choice of the three profiles in \<open>crates/service/src/gpu_power_sweep.rs\<close>: which points of a frontier
  carry information, which stay off the power cap, which become Godforge, Brokkr's Best and Deep Calm; the
  regime that a point's measured clock really exercises; the margin above the learned boundary; and the
  plan that moves a failed pair to a higher voltage at the same clock. Log lines are left out; a refusal is
  a constructor.
\<close>

section \<open>Double arithmetic and comparisons\<close>

fun f64_mul :: "f64 \<Rightarrow> f64 \<Rightarrow> f64" where
  "f64_mul (Fin x) (Fin y) = f64_round (x * y)"
| "f64_mul x y = f32_mul x y"

fun f64_add :: "f64 \<Rightarrow> f64 \<Rightarrow> f64" where
  "f64_add (Fin x) (Fin y) = f64_round (x + y)"
| "f64_add x y = f32_add x y"

definition f64_sub :: "f64 \<Rightarrow> f64 \<Rightarrow> f64" where
  "f64_sub x y = f64_add x (f32_neg y)"

text \<open>\<open>partial_cmp(..).unwrap_or(Equal)\<close>, and \<open>Iterator::max_by\<close>, which keeps the later element unless the
  earlier one is greater.\<close>

datatype cmp_order = CmpLess | CmpEqual | CmpGreater

definition f32_cmp :: "f32 \<Rightarrow> f32 \<Rightarrow> cmp_order" where
  "f32_cmp x y = (if x < y then CmpLess else if y < x then CmpGreater else CmpEqual)"

definition nat_cmp :: "nat \<Rightarrow> nat \<Rightarrow> cmp_order" where
  "nat_cmp x y = (if x < y then CmpLess else if y < x then CmpGreater else CmpEqual)"

definition cmp_then :: "cmp_order \<Rightarrow> cmp_order \<Rightarrow> cmp_order" where
  "cmp_then a b = (if a = CmpEqual then b else a)"

fun max_by :: "('a \<Rightarrow> 'a \<Rightarrow> cmp_order) \<Rightarrow> 'a list \<Rightarrow> 'a option" where
  "max_by c [] = None"
| "max_by c (x # xs) = Some (fold (\<lambda>y best. if c best y = CmpGreater then best else y) xs x)"

definition str_contains :: "string \<Rightarrow> string \<Rightarrow> bool" where
  "str_contains needle s \<longleftrightarrow> str_find needle s \<noteq> None"

section \<open>Points of the frontier\<close>

type_synonym scored_point = "power_sweep_point \<times> f64"
type_synonym apply_pair = "u32 \<times> u32"

definition f2_apply_key :: "power_sweep_point \<Rightarrow> apply_pair option" where
  "f2_apply_key p = map_option (\<lambda>mv. (unwrap_or (ps_target_clock_mhz p) (ps_clock_mhz p), mv)) (ps_vf_table_voltage_mv p)"

fun first_of_key :: "apply_pair set \<Rightarrow> power_sweep_point list \<Rightarrow> power_sweep_point list" where
  "first_of_key seen [] = []"
| "first_of_key seen (p # ps) =
     (case f2_apply_key p of
        None \<Rightarrow> first_of_key seen ps
      | Some k \<Rightarrow> if k \<in> seen then first_of_key seen ps else p # first_of_key (insert k seen) ps)"

definition f2_unique_profile_points :: "power_sweep_point option list \<Rightarrow> power_sweep_point list" where
  "f2_unique_profile_points profiles = first_of_key {} (concat (map (case_option [] (\<lambda>p. [p])) profiles))"

definition sustained_clock :: "power_sweep_point \<Rightarrow> u32" where
  "sustained_clock p = unwrap_or (ps_p5_clock_mhz p) (ps_clock_mhz p)"

definition profile_power :: "power_sweep_point \<Rightarrow> f32" where
  "profile_power p =
     (if ps_boundary_voltage_mv p \<noteq> None then unwrap_or (ps_power_p99_w p) (Fin 0) else ps_power_w p)"

definition efficiency :: "power_sweep_point \<Rightarrow> f64" where
  "efficiency p =
     (if profile_power p > Fin 0 then f64_div (f64_of_nat (sustained_clock p)) (profile_power p) else Fin 0)"

definition valid_cap_frac :: "f32 \<Rightarrow> f32 option" where
  "valid_cap_frac f = (if f32_is_finite f \<and> Fin 0 \<le> f \<and> f \<le> Fin 1 then Some f else None)"

definition power_bound_frac :: f32 where "power_bound_frac = f32_round (95 / 100)"

definition is_power_bound_frac :: "f32 \<Rightarrow> bool" where
  "is_power_bound_frac f \<longleftrightarrow> is_some_and (valid_cap_frac f) (\<lambda>v. v \<ge> power_bound_frac)"

definition is_power_bound_point :: "power_sweep_point \<Rightarrow> bool" where
  "is_power_bound_point p \<longleftrightarrow> is_power_bound_frac (ps_power_capped_frac p)"

definition power_headroom_frac :: f32 where "power_headroom_frac = f32_round (6 / 100)"

definition off_cap_ceiling_w :: "f32 \<Rightarrow> f32" where
  "off_cap_ceiling_w cap = f32_mul cap (f32_sub (Fin 1) power_headroom_frac)"

definition is_off_cap_safe :: "power_sweep_point \<Rightarrow> f32 \<Rightarrow> bool" where
  "is_off_cap_safe p cap \<longleftrightarrow>
     cap \<le> Fin 0 \<or>
     (let estimated = f32_max (ps_max_power_w p) (unwrap_or (ps_power_p99_w p) (Fin 0))
      in f32_is_finite estimated \<and> estimated > Fin 0 \<and> estimated \<le> off_cap_ceiling_w cap)"

definition min_useful_frontier_points :: usize where "min_useful_frontier_points = 2"

definition useful_frontier_points :: "scored_point list \<Rightarrow> scored_point list" where
  "useful_frontier_points frontier = filter (\<lambda>(p, _). \<not> is_power_bound_point p) frontier"

definition frontier_power_bound_collapse :: "scored_point list \<Rightarrow> bool" where
  "frontier_power_bound_collapse frontier \<longleftrightarrow>
     frontier \<noteq> [] \<and> list_ex (\<lambda>(p, _). is_power_bound_point p) frontier \<and>
     length (useful_frontier_points frontier) < min_useful_frontier_points"

section \<open>Synthesis\<close>

record synthesis_policy =
  sy_brokkrs_min_clock_frac :: f64
  sy_deep_calm_min_clock_frac :: f64
  sy_confidence_threshold :: f64

definition policy_balanced :: synthesis_policy where
  "policy_balanced = \<lparr>sy_brokkrs_min_clock_frac = f64_round (95 / 100),
     sy_deep_calm_min_clock_frac = f64_round (90 / 100), sy_confidence_threshold = f64_round (85 / 100)\<rparr>"

definition policy_conservative :: synthesis_policy where
  "policy_conservative = \<lparr>sy_brokkrs_min_clock_frac = f64_round (99 / 100),
     sy_deep_calm_min_clock_frac = f64_round (92 / 100), sy_confidence_threshold = f64_round (95 / 100)\<rparr>"

definition policy_aggressive :: synthesis_policy where
  "policy_aggressive = \<lparr>sy_brokkrs_min_clock_frac = f64_round (97 / 100),
     sy_deep_calm_min_clock_frac = f64_round (85 / 100), sy_confidence_threshold = f64_round (70 / 100)\<rparr>"

record forge_profiles =
  fr_godforge :: "power_sweep_point option"
  fr_brokkrs :: "power_sweep_point option"
  fr_deep_calm :: "power_sweep_point option"
  fr_power_bound_excluded :: usize
  fr_power_bound_collapse :: bool

text \<open>What each of the three gates leaves: information, confidence, headroom.\<close>

definition working_points :: "scored_point list \<Rightarrow> scored_point list" where
  "working_points frontier =
     (if length frontier - length (useful_frontier_points frontier) = 0 \<or> frontier_power_bound_collapse frontier
      then frontier else useful_frontier_points frontier)"

definition trusted_points :: "synthesis_policy \<Rightarrow> scored_point list \<Rightarrow> scored_point list" where
  "trusted_points policy working =
     (let trusted = filter (\<lambda>(_, c). c \<ge> sy_confidence_threshold policy) working
      in if trusted = [] then working else trusted)"

definition off_cap_points :: "f32 \<Rightarrow> scored_point list \<Rightarrow> scored_point list" where
  "off_cap_points cap pool = (if cap > Fin 0 then filter (\<lambda>(p, _). is_off_cap_safe p cap) pool else pool)"

definition candidate_pool :: "synthesis_policy \<Rightarrow> f32 \<Rightarrow> scored_point list \<Rightarrow> scored_point list" where
  "candidate_pool policy cap frontier = off_cap_points cap (trusted_points policy (working_points frontier))"

definition godforge_order :: "scored_point \<Rightarrow> scored_point \<Rightarrow> cmp_order" where
  "godforge_order a b =
     cmp_then (nat_cmp (sustained_clock (fst a)) (sustained_clock (fst b)))
       (f32_cmp (profile_power (fst b)) (profile_power (fst a)))"

definition clock_above :: "f64 \<Rightarrow> power_sweep_point \<Rightarrow> bool" where
  "clock_above floor_mhz p \<longleftrightarrow> f64_of_nat (sustained_clock p) \<ge> floor_mhz"

definition brokkrs_eligible :: "synthesis_policy \<Rightarrow> power_sweep_point \<Rightarrow> power_sweep_point \<Rightarrow> bool" where
  "brokkrs_eligible policy g p \<longleftrightarrow>
     (let gc = f64_of_nat (sustained_clock g)
      in clock_above (f64_mul gc (sy_brokkrs_min_clock_frac policy)) p \<and>
         f64_of_nat (sustained_clock p) < gc \<and> profile_power p < profile_power g)"

definition benefit_ratio :: "power_sweep_point \<Rightarrow> power_sweep_point \<Rightarrow> f64" where
  "benefit_ratio g p =
     (let gc = f64_of_nat (sustained_clock g); gp = profile_power g;
          clk_lost = f64_div (f64_sub gc (f64_of_nat (sustained_clock p))) gc;
          pwr_saved = f64_div (f64_sub gp (profile_power p)) gp
      in if clk_lost > Fin 0 then f64_div pwr_saved clk_lost else Fin 0)"

definition select_deep_calm :: "synthesis_policy \<Rightarrow> power_sweep_point \<Rightarrow> scored_point list \<Rightarrow> power_sweep_point option" where
  "select_deep_calm policy g pool =
     map_option fst
       (max_by (\<lambda>a b. f32_cmp (efficiency (fst a)) (efficiency (fst b)))
         (filter (\<lambda>(p, _). clock_above (f64_mul (f64_of_nat (sustained_clock g)) (sy_deep_calm_min_clock_frac policy)) p)
           pool))"

definition select_brokkrs :: "synthesis_policy \<Rightarrow> power_sweep_point \<Rightarrow> scored_point list \<Rightarrow> power_sweep_point option" where
  "select_brokkrs policy g pool =
     map_option fst
       (max_by (\<lambda>a b. f32_cmp (benefit_ratio g (fst a)) (benefit_ratio g (fst b)))
         (filter (\<lambda>(p, _). brokkrs_eligible policy g p) pool))"

definition synthesize_forge_profiles_capped :: "scored_point list \<Rightarrow> synthesis_policy \<Rightarrow> f32 \<Rightarrow> forge_profiles" where
  "synthesize_forge_profiles_capped frontier policy cap =
     (let pool = candidate_pool policy cap frontier;
          counts = \<lparr>fr_godforge = None, fr_brokkrs = None, fr_deep_calm = None,
            fr_power_bound_excluded = length frontier - length (useful_frontier_points frontier),
            fr_power_bound_collapse = frontier_power_bound_collapse frontier\<rparr>
      in case max_by godforge_order pool of
           None \<Rightarrow> counts
         | Some (g, _) \<Rightarrow>
             counts\<lparr>fr_godforge := Some g,
                    fr_brokkrs := Some (unwrap_or (select_brokkrs policy g pool) g),
                    fr_deep_calm := Some (unwrap_or (select_deep_calm policy g pool) g)\<rparr>)"

definition synthesize_forge_profiles :: "scored_point list \<Rightarrow> synthesis_policy \<Rightarrow> forge_profiles" where
  "synthesize_forge_profiles frontier policy = synthesize_forge_profiles_capped frontier policy (Fin 0)"

definition classify_f2_frontier :: "f2_frontier_entry list \<Rightarrow> forge_profiles" where
  "classify_f2_frontier entries = synthesize_forge_profiles (frontier_to_points entries) policy_balanced"

section \<open>Roles, ceilings, fast drop\<close>

datatype profile_role = GodforgeRole | BrokkrsRole | DeepCalmRole

definition role_key :: "power_sweep_point option \<Rightarrow> apply_pair option" where
  "role_key p = Option.bind p f2_apply_key"

definition f2_profile_role :: "forge_profiles \<Rightarrow> apply_pair \<Rightarrow> profile_role" where
  "f2_profile_role profiles k =
     (if role_key (fr_godforge profiles) = Some k then GodforgeRole
      else if role_key (fr_brokkrs profiles) = Some k then BrokkrsRole
      else DeepCalmRole)"

definition bins_of :: "vf_curve \<Rightarrow> u32 list" where
  "bins_of curve = map (\<lambda>(_, mv, _). mv) curve"

definition max_of :: "nat list \<Rightarrow> nat option" where
  "max_of xs = (if xs = [] then None else Some (Max (set xs)))"

definition min_of :: "nat list \<Rightarrow> nat option" where
  "min_of xs = (if xs = [] then None else Some (Min (set xs)))"

lemma max_of_SomeD: "max_of xs = Some m \<Longrightarrow> m \<in> set xs \<and> (\<forall>x\<in>set xs. x \<le> m)"
  unfolding max_of_def by (metis List.finite_set Max_ge Max_in option.distinct(1) option.inject set_empty)

lemma min_of_SomeD: "min_of xs = Some m \<Longrightarrow> m \<in> set xs \<and> (\<forall>x\<in>set xs. m \<le> x)"
  unfolding min_of_def by (metis List.finite_set Min_le Min_in option.distinct(1) option.inject set_empty)

definition f2_previous_real_bin :: "vf_curve \<Rightarrow> u32 \<Rightarrow> u32 option" where
  "f2_previous_real_bin curve below_mv = max_of (filter (\<lambda>mv. mv < below_mv) (bins_of curve))"

definition f2_next_bin_above :: "vf_curve \<Rightarrow> u32 \<Rightarrow> u32 option" where
  "f2_next_bin_above curve mv = min_of (filter (\<lambda>b. b > mv) (bins_of curve))"

definition upper_keys :: "profile_role \<Rightarrow> forge_profiles \<Rightarrow> apply_pair list" where
  "upper_keys role profiles =
     (case role of
        GodforgeRole \<Rightarrow> []
      | BrokkrsRole \<Rightarrow> case_option [] (\<lambda>k. [k]) (role_key (fr_godforge profiles))
      | DeepCalmRole \<Rightarrow>
          case_option [] (\<lambda>k. [k]) (role_key (fr_godforge profiles)) @
          case_option [] (\<lambda>k. [k]) (role_key (fr_brokkrs profiles)))"

definition f2_profile_repair_max_mv :: "profile_role \<Rightarrow> forge_profiles \<Rightarrow> apply_pair \<Rightarrow> vf_curve \<Rightarrow> u32" where
  "f2_profile_repair_max_mv role profiles current curve =
     (case min_of (map snd (filter (\<lambda>k. k \<noteq> current) (upper_keys role profiles))) of
        Some upper_mv \<Rightarrow> unwrap_or (f2_previous_real_bin curve upper_mv) 0
      | None \<Rightarrow> unwrap_or (max_of (bins_of curve)) 0)"

definition f2_godforge_fast_drop_candidate ::
  "scored_point list \<Rightarrow> apply_pair set \<Rightarrow> apply_pair \<Rightarrow> scored_point option" where
  "f2_godforge_fast_drop_candidate classified excluded exhausted =
     (case max_of (filter (\<lambda>t. t < fst exhausted) (map fst (List.map_filter (\<lambda>(p, _). f2_apply_key p) classified))) of
        None \<Rightarrow> None
      | Some next_target \<Rightarrow>
          (case max_by (\<lambda>a b. f32_cmp (snd a) (snd b))
                  (filter (\<lambda>(p, _). unwrap_or (ps_target_clock_mhz p) (ps_clock_mhz p) = next_target) classified) of
             None \<Rightarrow> None
           | Some (template, confidence) \<Rightarrow>
               if (next_target, snd exhausted) \<in> excluded then None
               else Some (template\<lparr>ps_vf_table_voltage_mv := Some (snd exhausted),
                            ps_apply_margin_mv := map_option (u32_sat_sub (snd exhausted)) (ps_boundary_voltage_mv template),
                            ps_apply_qualified := False, ps_apply_qualification_version := None\<rparr>, confidence)))"

definition f2_apply_godforge_override ::
  "scored_point list \<Rightarrow> apply_pair option \<Rightarrow> f32 \<Rightarrow> forge_profiles \<Rightarrow> forge_profiles" where
  "f2_apply_godforge_override pool preferred cap profiles =
     (case preferred of
        None \<Rightarrow> profiles
      | Some k \<Rightarrow>
          (case find (\<lambda>p. f2_apply_key p = Some k \<and> is_off_cap_safe p cap) (map fst pool) of
             None \<Rightarrow> profiles
           | Some p \<Rightarrow> profiles\<lparr>fr_godforge := Some p\<rparr>))"

fun replace_first :: "('a \<Rightarrow> bool) \<Rightarrow> ('a \<Rightarrow> 'a) \<Rightarrow> 'a list \<Rightarrow> 'a list option" where
  "replace_first P f [] = None"
| "replace_first P f (x # xs) = (if P x then Some (f x # xs) else map_option (Cons x) (replace_first P f xs))"

definition f2_upsert_classified_candidate :: "scored_point \<Rightarrow> scored_point list \<Rightarrow> scored_point list" where
  "f2_upsert_classified_candidate candidate classified =
     (case f2_apply_key (fst candidate) of
        None \<Rightarrow> classified @ [candidate]
      | Some k \<Rightarrow>
          unwrap_or (replace_first (\<lambda>(p, _). f2_apply_key p = Some k)
              (\<lambda>(_, c). (fst candidate, f32_max (snd candidate) c)) classified)
            (classified @ [candidate]))"

definition f2_approved_dominator :: "power_sweep_point \<Rightarrow> scored_point list \<Rightarrow> apply_pair option" where
  "f2_approved_dominator candidate classified =
     (case f2_apply_key candidate of
        None \<Rightarrow> None
      | Some k \<Rightarrow>
          if profile_power candidate \<le> Fin 0 then None
          else Option.bind
            (find (\<lambda>p. point_apply_qualified p \<and> is_some_and (f2_apply_key p) (\<lambda>k'. k' \<noteq> k) \<and>
                sustained_clock p \<ge> sustained_clock candidate \<and>
                profile_power p > Fin 0 \<and> profile_power p \<le> profile_power candidate) (map fst classified))
            f2_apply_key)"

section \<open>Vertical repair\<close>

definition repair_step_bins :: "string \<Rightarrow> nat" where
  "repair_step_bins reason =
     (if list_ex (\<lambda>h. str_contains h (map ascii_lower reason)) [''tdr'', ''device'', ''crash'', ''wedge''] then 2 else 1)"

definition f2_repair_bin_above :: "vf_curve \<Rightarrow> u32 \<Rightarrow> nat \<Rightarrow> u32 option" where
  "f2_repair_bin_above curve failed_mv step =
     (let bins = remdups_adj (sort (filter (\<lambda>mv. mv > failed_mv) (bins_of curve)))
      in if step - 1 < length bins then Some (bins ! (step - 1)) else None)"

definition f2_gate_failure_supports_vertical_repair :: "string \<Rightarrow> bool" where
  "f2_gate_failure_supports_vertical_repair reason \<longleftrightarrow>
     list_ex (\<lambda>n. str_contains n (map ascii_lower reason)) [''silenterror'', ''unstable'', ''clockdrop'']"

definition f2_gate_failure_is_quarantinable :: "string \<Rightarrow> bool" where
  "f2_gate_failure_is_quarantinable reason \<longleftrightarrow> str_contains ''silenterror'' (map ascii_lower reason)"

definition measured_power_at_pair :: "f2_observation list \<Rightarrow> string \<Rightarrow> u32 \<Rightarrow> u32 \<Rightarrow> f32 option" where
  "measured_power_at_pair obs gpu_key target anchor =
     fold (\<lambda>w acc. Some (case acc of None \<Rightarrow> w | Some a \<Rightarrow> f32_max a w))
       (filter (\<lambda>w. f32_is_finite w \<and> w > Fin 0)
         (concat (map (\<lambda>ob. case_option [] (\<lambda>w. if fo_power_p99_confirmed ob then [w] else []) (fo_power_p99_w ob) @
                            case_option [] (\<lambda>w. [f32_of_nat w]) (fo_max_watts ob))
           (filter (\<lambda>ob. fo_gpu_key ob = Some gpu_key \<and> fo_target_mhz ob = target \<and> fo_anchor_mv ob = anchor) obs))))
       None"

datatype repair_limit =
  NoRealBinAbove u32
| AllBinsCondemned u32
| ProfileCeilingReached u32 u32
| PublicationPowerExceeded f32 f32

lemma next_bin_above: "f2_next_bin_above curve mv = Some b \<Longrightarrow> b \<in> set (bins_of curve) \<and> mv < b \<and>
    (\<forall>x\<in>set (bins_of curve). mv < x \<longrightarrow> b \<le> x)"
  unfolding f2_next_bin_above_def by (drule min_of_SomeD) auto

function climb_condemned :: "(u32 \<Rightarrow> bool) \<Rightarrow> vf_curve \<Rightarrow> u32 \<Rightarrow> u32 option" where
  "climb_condemned bad curve mv =
     (if bad mv
      then (case f2_next_bin_above curve mv of None \<Rightarrow> None | Some mv' \<Rightarrow> climb_condemned bad curve mv')
      else Some mv)"
  by pat_completeness auto

termination
proof (relation "Wellfounded.measure (\<lambda>(bad, curve, mv). card {b \<in> set (bins_of curve). mv < b})", goal_cases)
  case (2 bad curve mv mv')
  have "{b \<in> set (bins_of curve). mv' < b} \<subset> {b \<in> set (bins_of curve). mv < b}"
    using next_bin_above [OF 2(2)] by auto
  then show ?case by (simp add: psubset_card_mono)
qed simp

declare climb_condemned.simps [simp del]

definition f2_plan_vertical_repair ::
  "vf_curve \<Rightarrow> safe_loop_record \<Rightarrow> condemned_pairs \<Rightarrow> f2_observation list \<Rightarrow> string \<Rightarrow> u32 \<Rightarrow> u32 \<Rightarrow> string \<Rightarrow>
   f32 \<Rightarrow> u32 \<Rightarrow> (repair_limit, u32 \<times> f32 option) result" where
  "f2_plan_vertical_repair curve r condemned obs gpu_key target failed_mv reason cap profile_max_mv =
     (case f2_repair_bin_above curve failed_mv (repair_step_bins reason) of
        None \<Rightarrow> Inl (NoRealBinAbove failed_mv)
      | Some start \<Rightarrow>
          (case climb_condemned (\<lambda>mv. field_pair_blacklisted r target mv \<or> refuses condemned target mv) curve start of
             None \<Rightarrow> Inl (AllBinsCondemned failed_mv)
           | Some next_mv \<Rightarrow>
               if next_mv > profile_max_mv then Inl (ProfileCeilingReached profile_max_mv next_mv)
               else
                 (let at_next = measured_power_at_pair obs gpu_key target next_mv;
                      at_failed = measured_power_at_pair obs gpu_key target failed_mv;
                      lower_bound = fold (\<lambda>w acc. f32_max acc w)
                        (case_option [] (\<lambda>w. [w]) at_next @ case_option [] (\<lambda>w. [w]) at_failed) (Fin 0)
                  in if cap > Fin 0 \<and> lower_bound > off_cap_ceiling_w cap
                     then Inl (PublicationPowerExceeded lower_bound (off_cap_ceiling_w cap))
                     else Inr (next_mv, at_next))))"

section \<open>The regime a point exercises\<close>

record regime_support =
  rg_observed_p95_mhz :: u32
  rg_support_target_mhz :: u32
  rg_required_apply_mv :: u32

datatype regime_refusal =
  NoConfiguredTarget
| NoMeasuredP95
| NoTargetSupportsRegime
| RegimeWithoutAnchor
| BoundaryNotQualified
| SupportNotQualified u32 u32
| NoExactAnchor
| BelowRegime u32 u32 u32 u32 u32

definition f2_boundary_point_is_qualified :: "power_sweep_point \<Rightarrow> u32 \<Rightarrow> f64 \<Rightarrow> bool" where
  "f2_boundary_point_is_qualified p confirmations threshold \<longleftrightarrow>
     unwrap_or (ps_validation_count p) 0 \<ge> confirmations \<and> unwrap_or (ps_confidence p) (Fin 0) \<ge> threshold"

definition support_target :: "u32 \<Rightarrow> u32 \<Rightarrow> scored_point list \<Rightarrow> u32 option" where
  "support_target target p95 frontier =
     (if p95 > target
      then min_of (filter (\<lambda>t. t \<ge> p95) (List.map_filter (\<lambda>(q, _). ps_target_clock_mhz q) frontier))
      else Some target)"

definition regime_anchors :: "u32 \<Rightarrow> u32 \<Rightarrow> scored_point list \<Rightarrow> u32 list" where
  "regime_anchors target support frontier =
     List.map_filter
       (\<lambda>(q, _).
          case (ps_target_clock_mhz q,
                case ps_base_apply_mv q of Some mv \<Rightarrow> Some mv | None \<Rightarrow> ps_vf_table_voltage_mv q) of
            (Some t, Some mv) \<Rightarrow> if target \<le> t \<and> t \<le> support then Some mv else None
          | _ \<Rightarrow> None)
       frontier"

definition f2_regime_support :: "power_sweep_point \<Rightarrow> scored_point list \<Rightarrow> (regime_refusal, regime_support) result" where
  "f2_regime_support p frontier =
     (case ps_target_clock_mhz p of
        None \<Rightarrow> Inl NoConfiguredTarget
      | Some target \<Rightarrow>
          (case ps_p95_clock_mhz p of
             None \<Rightarrow> Inl NoMeasuredP95
           | Some p95 \<Rightarrow>
               if p95 = 0 then Inl NoMeasuredP95
               else (case support_target target p95 frontier of
                       None \<Rightarrow> Inl NoTargetSupportsRegime
                     | Some support \<Rightarrow>
                         (case max_of (regime_anchors target support frontier) of
                            None \<Rightarrow> Inl RegimeWithoutAnchor
                          | Some mv \<Rightarrow> Inr \<lparr>rg_observed_p95_mhz = p95, rg_support_target_mhz = support,
                                           rg_required_apply_mv = mv\<rparr>))))"

definition f2_regime_candidate_refusal ::
  "power_sweep_point \<Rightarrow> scored_point list \<Rightarrow> bool \<Rightarrow> u32 \<Rightarrow> f64 \<Rightarrow> regime_refusal option" where
  "f2_regime_candidate_refusal p frontier need confirmations threshold =
     (if need \<and> \<not> f2_boundary_point_is_qualified p confirmations threshold then Some BoundaryNotQualified
      else case f2_regime_support p frontier of
             Inl e \<Rightarrow> Some e
           | Inr rg \<Rightarrow>
               (if need \<and>
                   \<not> is_some_and (find (\<lambda>q. ps_target_clock_mhz q = Some (rg_support_target_mhz rg)) (map fst frontier))
                       (\<lambda>q. f2_boundary_point_is_qualified q confirmations threshold)
                then Some (SupportNotQualified (rg_observed_p95_mhz rg) (rg_support_target_mhz rg))
                else case ps_vf_table_voltage_mv p of
                       None \<Rightarrow> Some NoExactAnchor
                     | Some mv \<Rightarrow>
                         if mv < rg_required_apply_mv rg
                         then Some (BelowRegime (unwrap_or (ps_target_clock_mhz p) (ps_clock_mhz p))
                                     (rg_observed_p95_mhz rg) mv (rg_required_apply_mv rg) (rg_support_target_mhz rg))
                         else None))"

definition f2_regime_dependent_apply_keys :: "apply_pair \<Rightarrow> scored_point list \<Rightarrow> apply_pair list" where
  "f2_regime_dependent_apply_keys failed frontier =
     List.map_filter
       (\<lambda>(p, _).
          case (f2_apply_key p, f2_regime_support p frontier) of
            (Some k, Inr rg) \<Rightarrow>
              if k \<noteq> failed \<and> rg_support_target_mhz rg = fst failed \<and> snd k \<le> snd failed then Some k else None
          | _ \<Rightarrow> None)
       frontier"

section \<open>The margin above the boundary and the measured power\<close>

definition apply_margin_mv :: u32 where "apply_margin_mv = 12"

definition valid_anchors :: "vf_curve \<Rightarrow> u32 \<Rightarrow> u32 \<Rightarrow> u32 list" where
  "valid_anchors curve target boundary =
     remdups_adj (sort (map (\<lambda>(_, mv, _). mv)
       (filter (\<lambda>(_, mv, mhz). mv \<ge> boundary \<and> mhz < target \<and> is_sane_core_point mv mhz) curve)))"

definition f2_apply_anchor_with_margin :: "vf_curve \<Rightarrow> u32 \<Rightarrow> u32 \<Rightarrow> u32" where
  "f2_apply_anchor_with_margin curve target boundary =
     (let valid = valid_anchors curve target boundary
      in case find (\<lambda>mv. mv \<ge> u32_sat_add boundary apply_margin_mv) valid of
           Some mv \<Rightarrow> mv
         | None \<Rightarrow> if valid = [] then boundary else last valid)"

definition margin_point :: "vf_curve \<Rightarrow> power_sweep_point \<Rightarrow> power_sweep_point" where
  "margin_point curve p =
     (case ps_target_clock_mhz p of
        None \<Rightarrow> p
      | Some target \<Rightarrow>
          (let boundary = (case ps_boundary_voltage_mv p of
                             Some mv \<Rightarrow> mv | None \<Rightarrow> unwrap_or (ps_vf_table_voltage_mv p) (ps_voltage_mv p));
               mv = f2_apply_anchor_with_margin curve target boundary
           in p\<lparr>ps_boundary_voltage_mv := Some boundary, ps_vf_table_voltage_mv := Some mv,
                ps_base_apply_mv := Some mv, ps_apply_margin_mv := Some (u32_sat_sub mv boundary)\<rparr>))"

definition apply_f2_margin_policy :: "vf_curve \<Rightarrow> scored_point list \<Rightarrow> scored_point list" where
  "apply_f2_margin_policy curve points = map (\<lambda>(p, c). (margin_point curve p, c)) points"

record power_backfill =
  bf_target_mhz :: u32
  bf_apply_mv :: u32
  bf_reference_offset_mhz :: i32

definition missing_f2_apply_power_backfills ::
  "scored_point list \<Rightarrow> f2_observation list \<Rightarrow> string \<Rightarrow> power_backfill list" where
  "missing_f2_apply_power_backfills points obs gpu_key =
     List.map_filter
       (\<lambda>(p, _).
          let target = unwrap_or (ps_target_clock_mhz p) (ps_clock_mhz p)
          in case ps_vf_table_voltage_mv p of
               None \<Rightarrow> None
             | Some mv \<Rightarrow>
                 if current_discovery_observation_at_anchor obs target mv gpu_key = None
                 then Some \<lparr>bf_target_mhz = target, bf_apply_mv = mv, bf_reference_offset_mhz = ps_offset_mhz p\<rparr>
                 else None)
       points"

datatype calibration_error = NoApplyBin u32 | NoMeasurement u32 u32 | NoP99 u32 u32

definition calibrated_point :: "f2_observation \<Rightarrow> f32 \<Rightarrow> power_sweep_point \<Rightarrow> power_sweep_point" where
  "calibrated_point ob p99 p =
     (let clock = unwrap_or (fo_avg_clock_mhz ob) (ps_clock_mhz p);
          p5 = (case fo_sustained_clock_mhz ob of Some c \<Rightarrow> Some c | None \<Rightarrow> ps_p5_clock_mhz p)
      in p\<lparr>ps_clock_mhz := clock, ps_p5_clock_mhz := p5,
           ps_p95_clock_mhz :=
             (case fo_sustained_upper_clock_mhz ob of Some c \<Rightarrow> Some c | None \<Rightarrow> ps_p95_clock_mhz p),
           ps_power_w := f32_of_nat (unwrap_or (fo_watts ob) 0),
           ps_max_power_w := f32_of_nat (unwrap_or (fo_max_watts ob) 0), ps_power_p99_w := Some p99,
           ps_perf_per_watt := f64_div (f64_of_nat (unwrap_or p5 clock)) p99,
           ps_dwell_duration_ms := fo_dwell_duration_ms ob, ps_dwell_sample_count := fo_sample_count ob,
           ps_max_temp_c := fo_max_temp_c ob, ps_thermal_throttled := fo_thermal_throttled ob\<rparr>)"

definition calibrate_point ::
  "f2_observation list \<Rightarrow> string \<Rightarrow> power_sweep_point \<Rightarrow> (calibration_error, power_sweep_point) result" where
  "calibrate_point obs gpu_key p =
     (let target = unwrap_or (ps_target_clock_mhz p) (ps_clock_mhz p)
      in case ps_vf_table_voltage_mv p of
           None \<Rightarrow> Inl (NoApplyBin target)
         | Some mv \<Rightarrow>
             (case current_discovery_observation_at_anchor obs target mv gpu_key of
                None \<Rightarrow> Inl (NoMeasurement target mv)
              | Some ob \<Rightarrow>
                  (case fo_power_p99_w ob of
                     None \<Rightarrow> Inl (NoP99 target mv)
                   | Some p99 \<Rightarrow> Inr (calibrated_point ob p99 p))))"

text \<open>The points before the one that fails keep their new power.\<close>

fun calibrate_f2_profile_power ::
  "f2_observation list \<Rightarrow> string \<Rightarrow> scored_point list \<Rightarrow> calibration_error option \<times> scored_point list" where
  "calibrate_f2_profile_power obs gpu_key [] = (None, [])"
| "calibrate_f2_profile_power obs gpu_key ((p, c) # ps) =
     (case calibrate_point obs gpu_key p of
        Inl e \<Rightarrow> (Some e, (p, c) # ps)
      | Inr p' \<Rightarrow> (case calibrate_f2_profile_power obs gpu_key ps of (e, ps') \<Rightarrow> (e, (p', c) # ps')))"

lemma apply_anchor_with_margin:
  assumes "f2_apply_anchor_with_margin curve target boundary = mv"
  shows "boundary \<le> mv"
    and "mv < u32_sat_add boundary apply_margin_mv \<Longrightarrow>
      (\<forall>a\<in>set (valid_anchors curve target boundary). a \<le> mv)"
proof -
  let ?valid = "valid_anchors curve target boundary"
  have valid: "\<forall>a\<in>set ?valid. boundary \<le> a" "sorted ?valid" by (auto simp: valid_anchors_def)
  have "boundary \<le> mv \<and> (mv < u32_sat_add boundary apply_margin_mv \<longrightarrow> (\<forall>a\<in>set ?valid. a \<le> mv))"
  proof (cases "find (\<lambda>mv. mv \<ge> u32_sat_add boundary apply_margin_mv) ?valid")
    case None
    have "a \<le> last ?valid" if "a \<in> set ?valid" for a
      using valid(2) that by (cases ?valid rule: rev_cases) (auto simp: sorted_append)
    then show ?thesis
      using assms None valid(1) last_in_set [of ?valid]
      by (auto simp: f2_apply_anchor_with_margin_def Let_def split: if_splits)
  next
    case (Some a)
    then have "a \<in> set ?valid" "u32_sat_add boundary apply_margin_mv \<le> a"
      by (auto simp: find_Some_iff)
    moreover have "mv = a" using assms Some by (simp add: f2_apply_anchor_with_margin_def Let_def)
    ultimately show ?thesis using valid(1) by auto
  qed
  then show "boundary \<le> mv"
    and "mv < u32_sat_add boundary apply_margin_mv \<Longrightarrow> (\<forall>a\<in>set ?valid. a \<le> mv)" by auto
qed

section \<open>Facts about the pieces\<close>

lemma max_by_None [simp]: "max_by c xs = None \<longleftrightarrow> xs = []"
  by (cases xs) simp_all

lemma fold_best_mem: "fold (\<lambda>y best. if P best y then best else y) xs x \<in> insert x (set xs)"
  by (induction xs arbitrary: x) auto

lemma max_by_mem: "max_by c xs = Some y \<Longrightarrow> y \<in> set xs"
  by (cases xs) (use fold_best_mem in fastforce)+

text \<open>A comparison that agrees with a preorder on the elements picks one that is above them all.\<close>

lemma max_by_preorder:
  assumes "max_by c xs = Some y" and "x \<in> set xs"
    and trans: "\<And>a b d. a \<in> set xs \<Longrightarrow> b \<in> set xs \<Longrightarrow> d \<in> set xs \<Longrightarrow> le a b \<Longrightarrow> le b d \<Longrightarrow> le a d"
    and greater: "\<And>a b. a \<in> set xs \<Longrightarrow> b \<in> set xs \<Longrightarrow> c a b = CmpGreater \<Longrightarrow> le b a"
    and other: "\<And>a b. a \<in> set xs \<Longrightarrow> b \<in> set xs \<Longrightarrow> c a b \<noteq> CmpGreater \<Longrightarrow> le a b"
  shows "le x y"
proof -
  let ?best = "\<lambda>zs a. fold (\<lambda>y best. if c best y = CmpGreater then best else y) zs a"
  have refl: "le a a" if "a \<in> set xs" for a using greater other that by blast
  have step: "le a (?best zs a) \<and> (\<forall>z\<in>set zs. le z (?best zs a))" if "set zs \<subseteq> set xs" "a \<in> set xs" for zs a
    using that
  proof (induction zs arbitrary: a)
    case Nil
    then show ?case by (simp add: refl)
  next
    case (Cons z zs)
    define b where "b = (if c a z = CmpGreater then a else z)"
    have b: "b \<in> set xs" "le a b" "le z b"
      using Cons.prems greater [of a z] other [of a z] refl by (auto simp: b_def)
    have IH: "le b (?best zs b) \<and> (\<forall>z\<in>set zs. le z (?best zs b))" using Cons.IH Cons.prems b(1) by simp
    have "?best zs b \<in> set xs" using fold_best_mem [of "\<lambda>a b. c a b = CmpGreater" zs b] b(1) Cons.prems by auto
    with b IH Cons.prems trans [of _ b "?best zs b"] show ?case by (auto simp: b_def [symmetric])
  qed
  show ?thesis using assms(1,2) step [of "tl xs" "hd xs"] by (cases xs) auto
qed

text \<open>So does one that respects a key.\<close>

lemma max_by_respects:
  fixes key :: "'a \<Rightarrow> 'k::linorder"
  assumes "max_by c xs = Some y" and "\<And>a b. key b < key a \<Longrightarrow> c a b = CmpGreater"
    and "\<And>a b. key a < key b \<Longrightarrow> c a b = CmpLess" and "x \<in> set xs"
  shows "key x \<le> key y"
proof (rule max_by_preorder [OF assms(1,4), where le = "\<lambda>a b. key a \<le> key b"])
  show "key b \<le> key a" if "c a b = CmpGreater" for a b
    using that assms(3) [of a b] by (cases "key a < key b") auto
  show "key a \<le> key b" if "c a b \<noteq> CmpGreater" for a b
    using that assms(2) [of b a] by (cases "key b < key a") auto
qed auto

lemma working_points_sub: "set (working_points frontier) \<subseteq> set frontier"
  by (auto simp: working_points_def useful_frontier_points_def)

lemma working_points_informative:
  "\<not> frontier_power_bound_collapse frontier \<Longrightarrow> (p, c) \<in> set (working_points frontier) \<Longrightarrow> \<not> is_power_bound_point p"
proof -
  assume nc: "\<not> frontier_power_bound_collapse frontier" and m: "(p, c) \<in> set (working_points frontier)"
  have "filter (\<lambda>(p, _). \<not> is_power_bound_point p) frontier = frontier"
    if "length frontier - length (useful_frontier_points frontier) = 0"
  proof (rule filter_id_conv [THEN iffD2])
    have "length (filter (\<lambda>(p, _). \<not> is_power_bound_point p) frontier) = length frontier"
      using that length_filter_le [of "\<lambda>(p, _). \<not> is_power_bound_point p" frontier] by (simp add: useful_frontier_points_def)
    then show "\<forall>x\<in>set frontier. case x of (p, _) \<Rightarrow> \<not> is_power_bound_point p"
      by (metis (no_types, lifting) length_filter_less less_irrefl)
  qed
  then have "working_points frontier = useful_frontier_points frontier"
    using nc by (auto simp: working_points_def useful_frontier_points_def)
  then show ?thesis using m by (auto simp: useful_frontier_points_def)
qed

lemma candidate_pool_sub: "set (candidate_pool policy cap frontier) \<subseteq> set (working_points frontier)"
  by (auto simp: candidate_pool_def off_cap_points_def trusted_points_def Let_def split: if_splits)

lemma candidate_pool_safe: "(p, c) \<in> set (candidate_pool policy cap frontier) \<Longrightarrow> cap > Fin 0 \<Longrightarrow> is_off_cap_safe p cap"
  by (simp add: candidate_pool_def off_cap_points_def)

lemma synthesis_cases:
  "candidate_pool policy cap frontier = [] \<and>
     fr_godforge (synthesize_forge_profiles_capped frontier policy cap) = None \<and>
     fr_brokkrs (synthesize_forge_profiles_capped frontier policy cap) = None \<and>
     fr_deep_calm (synthesize_forge_profiles_capped frontier policy cap) = None \<or>
   (\<exists>g c. max_by godforge_order (candidate_pool policy cap frontier) = Some (g, c) \<and>
     fr_godforge (synthesize_forge_profiles_capped frontier policy cap) = Some g \<and>
     fr_brokkrs (synthesize_forge_profiles_capped frontier policy cap) =
       Some (unwrap_or (select_brokkrs policy g (candidate_pool policy cap frontier)) g) \<and>
     fr_deep_calm (synthesize_forge_profiles_capped frontier policy cap) =
       Some (unwrap_or (select_deep_calm policy g (candidate_pool policy cap frontier)) g))"
proof (cases "max_by godforge_order (candidate_pool policy cap frontier)")
  case None
  then show ?thesis by (simp add: synthesize_forge_profiles_capped_def Let_def)
next
  case (Some gc)
  then show ?thesis by (cases gc) (simp add: synthesize_forge_profiles_capped_def Let_def)
qed

lemma select_brokkrs_mem:
  "select_brokkrs policy g pool = Some p \<Longrightarrow> p \<in> fst ` set pool \<and> brokkrs_eligible policy g p"
  unfolding select_brokkrs_def by (force dest!: max_by_mem)

lemma select_deep_calm_mem:
  "select_deep_calm policy g pool = Some p \<Longrightarrow>
     p \<in> fst ` set pool \<and> clock_above (f64_mul (f64_of_nat (sustained_clock g)) (sy_deep_calm_min_clock_frac policy)) p"
  unfolding select_deep_calm_def by (force dest!: max_by_mem)

definition profile_set :: "forge_profiles \<Rightarrow> power_sweep_point set" where
  "profile_set profiles =
     set (concat (map (case_option [] (\<lambda>p. [p])) [fr_godforge profiles, fr_brokkrs profiles, fr_deep_calm profiles]))"

lemma published_in_pool:
  "p \<in> profile_set (synthesize_forge_profiles_capped frontier policy cap) \<Longrightarrow>
     p \<in> fst ` set (candidate_pool policy cap frontier)"
proof -
  let ?pool = "candidate_pool policy cap frontier"
  assume p: "p \<in> profile_set (synthesize_forge_profiles_capped frontier policy cap)"
  then obtain g c where g: "max_by godforge_order ?pool = Some (g, c)"
    "p = g \<or> p = unwrap_or (select_brokkrs policy g ?pool) g \<or> p = unwrap_or (select_deep_calm policy g ?pool) g"
    using synthesis_cases [of policy cap frontier] by (auto simp: profile_set_def)
  have "g \<in> fst ` set ?pool" using max_by_mem [OF g(1)] by force
  then show ?thesis
    using g(2) select_brokkrs_mem [of policy g ?pool] select_deep_calm_mem [of policy g ?pool]
    by (auto simp: unwrap_or_def split: option.splits)
qed

lemma godforge_order_respects:
  "sustained_clock (fst b) < sustained_clock (fst a) \<Longrightarrow> godforge_order a b = CmpGreater"
  "sustained_clock (fst a) < sustained_clock (fst b) \<Longrightarrow> godforge_order a b = CmpLess"
  by (simp_all add: godforge_order_def cmp_then_def nat_cmp_def)

text \<open>Powers that are numbers are totally ordered.\<close>

lemma f32_total: "x \<noteq> NotANumber \<Longrightarrow> y \<noteq> NotANumber \<Longrightarrow> \<not> x < y \<longleftrightarrow> y \<le> x" for x y :: f32
  by (cases x; cases y) (auto simp: f32_order)

lemma f32_trans: "x \<le> y \<Longrightarrow> y \<le> z \<Longrightarrow> x \<le> z" for x y z :: f32
  by (cases x; cases y; cases z) (auto simp: f32_order)

lemma godforge_least_power:
  assumes g: "max_by godforge_order pool = Some (g, c)" and x: "x \<in> set pool"
    and num: "\<forall>y\<in>set pool. profile_power (fst y) \<noteq> NotANumber"
    and same: "sustained_clock (fst x) = sustained_clock g"
  shows "profile_power g \<le> profile_power (fst x)"
proof -
  let ?le = "\<lambda>a b. sustained_clock (fst a) < sustained_clock (fst b) \<or>
    sustained_clock (fst a) = sustained_clock (fst b) \<and> profile_power (fst b) \<le> profile_power (fst a)"
  have "?le x (g, c)"
  proof (rule max_by_preorder [OF g x])
    fix a b assume ab: "a \<in> set pool" "b \<in> set pool"
    note total = f32_total [of "profile_power (fst a)" "profile_power (fst b)"]
      f32_total [of "profile_power (fst b)" "profile_power (fst a)"]
    have num': "profile_power (fst a) \<noteq> NotANumber" "profile_power (fst b) \<noteq> NotANumber" using num ab by auto
    have less: "u < v \<Longrightarrow> u \<le> v" "u < v \<Longrightarrow> \<not> v < u" for u v :: f32
      by (cases u; cases v; auto simp: f32_order)+
    { assume "godforge_order a b = CmpGreater"
      then show "?le b a"
        using less by (auto simp: godforge_order_def cmp_then_def nat_cmp_def f32_cmp_def split: if_splits) }
    { assume "godforge_order a b \<noteq> CmpGreater"
      then show "?le a b"
        using total num' less by (auto simp: godforge_order_def cmp_then_def nat_cmp_def f32_cmp_def split: if_splits) }
  qed (auto intro: f32_trans)
  with same show ?thesis by simp
qed

lemma repair_bin_above:
  assumes "f2_repair_bin_above curve failed_mv step = Some mv"
  shows "mv \<in> set (bins_of curve)" and "failed_mv < mv"
proof -
  let ?bins = "remdups_adj (sort (filter (\<lambda>mv. mv > failed_mv) (bins_of curve)))"
  have "step - 1 < length ?bins \<and> mv = ?bins ! (step - 1)"
    using assms by (simp add: f2_repair_bin_above_def Let_def split: if_splits)
  then have "mv \<in> set ?bins" by (metis nth_mem)
  then show "mv \<in> set (bins_of curve)" and "failed_mv < mv" by auto
qed

lemma climb_condemned_Some:
  "climb_condemned bad curve mv = Some mv' \<Longrightarrow>
     \<not> bad mv' \<and> mv \<le> mv' \<and> (mv \<in> set (bins_of curve) \<longrightarrow> mv' \<in> set (bins_of curve)) \<and>
     (\<forall>b\<in>set (bins_of curve). mv \<le> b \<and> b < mv' \<longrightarrow> bad b)"
proof (induction bad curve mv rule: climb_condemned.induct)
  case (1 bad curve mv)
  show ?case
  proof (cases "bad mv")
    case True
    then obtain b where b: "f2_next_bin_above curve mv = Some b" "climb_condemned bad curve b = Some mv'"
      using 1(2) by (subst (asm) climb_condemned.simps) (auto split: option.splits)
    have IH: "\<not> bad mv'" "b \<le> mv'" "b \<in> set (bins_of curve) \<longrightarrow> mv' \<in> set (bins_of curve)"
      "\<forall>x\<in>set (bins_of curve). b \<le> x \<and> x < mv' \<longrightarrow> bad x"
      using 1(1) [OF True b] by auto
    note nb = next_bin_above [OF b(1)]
    have "bad x" if "x \<in> set (bins_of curve)" "mv \<le> x" "x < mv'" for x
      using nb IH(4) that True by (cases "x = mv") (auto simp: le_less)
    then show ?thesis using IH nb by auto
  next
    case False
    then have "mv = mv'" using 1(2) by (subst (asm) climb_condemned.simps) simp
    then show ?thesis using False by auto
  qed
qed

lemma fold_measured:
  "fold (\<lambda>w acc. Some (case acc of None \<Rightarrow> w | Some a \<Rightarrow> f32_max a w)) ws acc = Some m \<Longrightarrow>
     (\<forall>w\<in>set ws. \<exists>r>0. w = Fin r) \<Longrightarrow> (acc = None \<or> (\<exists>r>0. acc = Some (Fin r))) \<Longrightarrow> \<exists>r>0. m = Fin r"
proof (induction ws arbitrary: acc)
  case (Cons w ws)
  let ?acc = "Some (case acc of None \<Rightarrow> w | Some a \<Rightarrow> f32_max a w)"
  have "?acc = None \<or> (\<exists>r>0. ?acc = Some (Fin r))"
    using Cons.prems(2,3) by (auto simp: f32_max_def f32_order)
  then show ?case using Cons.IH [of ?acc] Cons.prems(1,2) by simp
qed simp

lemma finite_positive: "f32_is_finite w \<Longrightarrow> w > Fin 0 \<Longrightarrow> \<exists>r>0. w = Fin r"
  by (cases w) (simp_all add: f32_is_finite_def f32_order)

lemma measured_power_finite: "measured_power_at_pair obs gpu_key target mv = Some w \<Longrightarrow> \<exists>r>0. w = Fin r"
  unfolding measured_power_at_pair_def by (erule fold_measured) (auto dest: finite_positive)

lemma lower_bound_covers:
  assumes "x \<in> {measured_power_at_pair obs k t a, measured_power_at_pair obs k t b}" and "x = Some w"
    and "\<not> fold (\<lambda>w acc. f32_max acc w) (case_option [] (\<lambda>w. [w]) (measured_power_at_pair obs k t a) @
           case_option [] (\<lambda>w. [w]) (measured_power_at_pair obs k t b)) (Fin 0) > c"
  shows "\<not> w > c"
proof -
  have max: "f32_max (Fin x) (Fin y) = Fin (max x y)" for x y by (simp add: f32_max_def f32_order max_def)
  have mono: "c < Fin x \<Longrightarrow> x \<le> y \<Longrightarrow> c < Fin y" for x y by (cases c) (simp_all add: f32_order)
  show ?thesis
    using assms measured_power_finite [of obs k t a] measured_power_finite [of obs k t b] mono
    by (cases "measured_power_at_pair obs k t a"; cases "measured_power_at_pair obs k t b")
      (auto simp: max max.coboundedI1 max.coboundedI2)
qed

section \<open>Properties\<close>

text \<open>C25: what a synthesis may publish. Every published profile is a point of the frontier; under a known
  power cap its measured draw is positive, finite and below the off-cap ceiling; unless the frontier is
  flagged as collapsed it is not a point held by the cap; and it meets the confidence threshold whenever
  any working point does. The working points are the points that the cap does not hold, or all of the
  frontier when there are none: a trusted point that the cap holds does not keep an untrusted working
  point from being published.\<close>

theorem published_profiles_are_safe:
  assumes "p \<in> profile_set (synthesize_forge_profiles_capped frontier policy cap)"
  shows "\<exists>c. (p, c) \<in> set frontier \<and>
    (cap > Fin 0 \<longrightarrow> (let w = f32_max (ps_max_power_w p) (unwrap_or (ps_power_p99_w p) (Fin 0))
                       in f32_is_finite w \<and> w > Fin 0 \<and> w \<le> off_cap_ceiling_w cap)) \<and>
    (\<not> fr_power_bound_collapse (synthesize_forge_profiles_capped frontier policy cap) \<longrightarrow> \<not> is_power_bound_point p) \<and>
    (c \<ge> sy_confidence_threshold policy \<or>
     (\<forall>(q, d) \<in> set (working_points frontier). \<not> d \<ge> sy_confidence_threshold policy))"
proof -
  obtain c where c: "(p, c) \<in> set (candidate_pool policy cap frontier)"
    using published_in_pool [OF assms] by force
  have collapse: "fr_power_bound_collapse (synthesize_forge_profiles_capped frontier policy cap) =
      frontier_power_bound_collapse frontier"
    by (simp add: synthesize_forge_profiles_capped_def Let_def split: option.split prod.split)
  have "(p, c) \<in> set (trusted_points policy (working_points frontier))"
    using c by (auto simp: candidate_pool_def off_cap_points_def split: if_splits)
  then have trust: "c \<ge> sy_confidence_threshold policy \<or>
      (\<forall>(q, d) \<in> set (working_points frontier). \<not> d \<ge> sy_confidence_threshold policy)"
    by (auto simp: trusted_points_def Let_def filter_empty_conv split: if_splits)
  have "\<not> cap \<le> Fin 0" if "cap > Fin 0"
    using that by (cases cap) (auto simp: f32_order)
  then show ?thesis
    using c collapse trust candidate_pool_sub [of policy cap frontier] working_points_sub [of frontier]
      working_points_informative [of frontier p c] candidate_pool_safe [OF c]
    by (intro exI [of _ c]) (auto simp: is_off_cap_safe_def)
qed

definition sample_candidate :: power_sweep_point where
  "sample_candidate = default_power_point\<lparr>ps_clock_mhz := 1900, ps_target_clock_mhz := Some 1900,
     ps_vf_table_voltage_mv := Some 850, ps_max_power_w := Fin (1 / 2)\<rparr>"

lemma off_cap_unit: "\<exists>c. off_cap_ceiling_w (Fin 1) = Fin c \<and> 1 / 2 \<le> c"
proof -
  obtain f where f: "f32_round (6 / 100) = Fin f" "\<bar>f - 6 / 100\<bar> \<le> 6 / 100 / 2 ^ 24"
    using f32_round_small [of "6 / 100"] by auto
  have "1 / 65536 \<le> 1 - f \<and> 1 - f \<le> 1" using f(2) unfolding abs_le_iff by simp
  then obtain g where g: "f32_round (1 - f) = Fin g" "\<bar>g - (1 - f)\<bar> \<le> (1 - f) / 2 ^ 24" "1 - f \<le> 1"
    using f32_round_small [of "1 - f"] by auto
  have lo: "3 / 4 \<le> g \<and> g \<le> 1" using f(2) g(2) unfolding abs_le_iff by simp
  obtain h where h: "f32_round g = Fin h" "\<bar>h - g\<bar> \<le> g / 2 ^ 24"
    using f32_round_small [of g] lo by auto
  have "1 / 2 \<le> h" using h(2) lo unfolding abs_le_iff by simp
  then show ?thesis
    using f g h by (simp add: off_cap_ceiling_w_def power_headroom_frac_def f32_sub_def)
qed

lemma sample_published: "sample_candidate \<in> profile_set (synthesize_forge_profiles_capped [(sample_candidate, Fin 1)] policy_balanced (Fin 1))"
  and sample_informative: "\<not> fr_power_bound_collapse (synthesize_forge_profiles_capped [(sample_candidate, Fin 1)] policy_balanced (Fin 1))"
proof -
  let ?frontier = "[(sample_candidate, Fin 1)]"
  have safe: "is_off_cap_safe sample_candidate (Fin 1)"
    using off_cap_unit by (auto simp: is_off_cap_safe_def sample_candidate_def default_power_point_def f32_max_def
        f32_is_finite_def f32_order)
  obtain f where "f32_round (95 / 100) = Fin f" "\<bar>f - 95 / 100\<bar> \<le> 95 / 100 / 2 ^ 24"
    using f32_round_small [of "95 / 100"] by auto
  then have "\<not> is_power_bound_point sample_candidate"
    by (auto simp: is_power_bound_point_def is_power_bound_frac_def valid_cap_frac_def power_bound_frac_def
        sample_candidate_def default_power_point_def is_some_and_def f32_is_finite_def f32_order abs_le_iff)
  then have useful: "useful_frontier_points ?frontier = ?frontier" "\<not> frontier_power_bound_collapse ?frontier"
    by (simp_all add: useful_frontier_points_def frontier_power_bound_collapse_def)
  then have pool: "candidate_pool policy_balanced (Fin 1) ?frontier = ?frontier"
    using safe by (simp add: candidate_pool_def working_points_def trusted_points_def off_cap_points_def)
  show "sample_candidate \<in> profile_set (synthesize_forge_profiles_capped ?frontier policy_balanced (Fin 1))"
    by (simp add: profile_set_def synthesize_forge_profiles_capped_def pool Let_def)
  show "\<not> fr_power_bound_collapse (synthesize_forge_profiles_capped ?frontier policy_balanced (Fin 1))"
    by (simp add: synthesize_forge_profiles_capped_def pool useful(2) Let_def)
qed

theorem published_profiles_are_safe_witness:
  "\<not> is_power_bound_point sample_candidate \<and>
   sample_candidate \<in> profile_set (synthesize_forge_profiles_capped [(sample_candidate, Fin 1)] policy_balanced (Fin 1)) \<and>
   f32_max (Fin (1 / 2)) (Fin 0) \<le> off_cap_ceiling_w (Fin 1)"
  using published_profiles_are_safe [OF sample_published] sample_informative sample_published
  by (auto simp: Let_def sample_candidate_def default_power_point_def f32_order)

text \<open>C26: what the three profiles are to each other. Godforge sustains the highest clock of the candidates, at
  the least power that any of them holds it with when every candidate's power is a number; Brokkr's Best is Godforge itself or a trade that lowers both clock and power above its floor; Deep Calm
  keeps its own floor or is Godforge. Either all three exist or none does, and none exactly when no
  candidate passes the gates, which run in this order: a trusted point at the cap hides one off the cap
  that is less trusted.\<close>

theorem profiles_keep_their_floors:
  "case synthesize_forge_profiles_capped frontier policy cap of R \<Rightarrow>
     (case (fr_godforge R, fr_brokkrs R, fr_deep_calm R) of
        (Some g, Some b, Some d) \<Rightarrow>
          sustained_clock g = Max (sustained_clock ` fst ` set (candidate_pool policy cap frontier)) \<and>
          ((\<forall>x\<in>set (candidate_pool policy cap frontier). profile_power (fst x) \<noteq> NotANumber) \<longrightarrow>
           (\<forall>x\<in>set (candidate_pool policy cap frontier).
              sustained_clock (fst x) = sustained_clock g \<longrightarrow> profile_power g \<le> profile_power (fst x))) \<and>
          b \<in> {q. q = g} \<union> {q. brokkrs_eligible policy g q \<and> sustained_clock q < sustained_clock g} \<and>
          d \<in> {q. q = g} \<union>
            {q. clock_above (f64_mul (f64_of_nat (sustained_clock g)) (sy_deep_calm_min_clock_frac policy)) q}
      | (None, None, None) \<Rightarrow> candidate_pool policy cap frontier = []
      | _ \<Rightarrow> False)"
proof -
  let ?pool = "candidate_pool policy cap frontier"
  show ?thesis
  proof (cases "max_by godforge_order ?pool")
    case None
    then show ?thesis using synthesis_cases [of policy cap frontier] by auto
  next
    case (Some gc)
    then obtain g c where g: "max_by godforge_order ?pool = Some (g, c)" by (cases gc) simp
    have fastest: "sustained_clock (fst x) \<le> sustained_clock g" if "x \<in> set ?pool" for x
      using max_by_respects [OF g, of "\<lambda>x. sustained_clock (fst x)" x] godforge_order_respects that by simp
    have "sustained_clock g = Max (sustained_clock ` fst ` set ?pool)"
      using fastest max_by_mem [OF g] by (intro Max_eqI [symmetric]) force+
    moreover have "sustained_clock q < sustained_clock g" if "select_brokkrs policy g ?pool = Some q" for q
    proof -
      have "f64_of_nat (sustained_clock q) < f64_of_nat (sustained_clock g)" "sustained_clock q \<le> sustained_clock g"
        using select_brokkrs_mem [OF that] fastest by (auto simp: brokkrs_eligible_def Let_def)
      moreover have "\<not> x < x" for x :: f32 by (cases x) (simp_all add: f32_order)
      ultimately show ?thesis by (metis le_neq_implies_less)
    qed
    ultimately show ?thesis
      using synthesis_cases [of policy cap frontier] g select_brokkrs_mem [of policy g ?pool]
        select_deep_calm_mem [of policy g ?pool] godforge_least_power [OF g]
      by (auto simp: unwrap_or_def split: option.splits)
  qed
qed

text \<open>Two candidates of one clock, of which the thirstier is met last.\<close>

definition frugal_candidate :: power_sweep_point where
  "frugal_candidate = sample_candidate\<lparr>ps_power_w := Fin (1 / 4)\<rparr>"

definition thirsty_candidate :: power_sweep_point where
  "thirsty_candidate = sample_candidate\<lparr>ps_power_w := Fin (1 / 2)\<rparr>"

lemma two_candidates:
  "candidate_pool policy_balanced (Fin 0) [(frugal_candidate, Fin 1), (thirsty_candidate, Fin 1)] =
     [(frugal_candidate, Fin 1), (thirsty_candidate, Fin 1)]"
proof -
  let ?frontier = "[(frugal_candidate, Fin 1), (thirsty_candidate, Fin 1)]"
  obtain f where "f32_round (95 / 100) = Fin f" "\<bar>f - 95 / 100\<bar> \<le> 95 / 100 / 2 ^ 24"
    using f32_round_small [of "95 / 100"] by auto
  then have "\<not> is_power_bound_point (sample_candidate\<lparr>ps_power_w := w\<rparr>)" for w
    by (auto simp: is_power_bound_point_def is_power_bound_frac_def valid_cap_frac_def power_bound_frac_def
        sample_candidate_def default_power_point_def is_some_and_def f32_is_finite_def f32_order abs_le_iff)
  then have "useful_frontier_points ?frontier = ?frontier"
    by (simp add: useful_frontier_points_def frugal_candidate_def thirsty_candidate_def)
  then have work: "working_points ?frontier = ?frontier"
    by (simp add: working_points_def)
  show ?thesis
  proof (cases "Fin 1 \<ge> sy_confidence_threshold policy_balanced")
    case True
    then show ?thesis by (simp add: candidate_pool_def work trusted_points_def off_cap_points_def f32_order)
  next
    case False
    then show ?thesis by (simp add: candidate_pool_def work trusted_points_def off_cap_points_def f32_order)
  qed
qed

theorem profiles_keep_their_floors_witness:
  "case synthesize_forge_profiles_capped [(frugal_candidate, Fin 1), (thirsty_candidate, Fin 1)] policy_balanced (Fin 0) of
     R \<Rightarrow> \<exists>g. fr_godforge R = Some g \<and> sustained_clock g = 1900 \<and> profile_power g \<le> Fin (1 / 4)"
proof -
  let ?pool = "[(frugal_candidate, Fin 1), (thirsty_candidate, Fin 1)]"
  have clocks: "sustained_clock frugal_candidate = 1900" "sustained_clock thirsty_candidate = 1900"
    by (simp_all add: frugal_candidate_def thirsty_candidate_def sample_candidate_def default_power_point_def
        sustained_clock_def unwrap_or_def)
  have powers: "profile_power frugal_candidate = Fin (1 / 4)" "profile_power thirsty_candidate = Fin (1 / 2)"
    by (simp_all add: frugal_candidate_def thirsty_candidate_def sample_candidate_def default_power_point_def
        profile_power_def)
  show ?thesis
    using profiles_keep_their_floors [where frontier = ?pool and policy = policy_balanced and cap = "Fin 0"] clocks powers
    by (auto simp: two_candidates split: option.splits)
qed

text \<open>C27: the plan of a vertical repair. The bin it proposes is a real bin of the curve above the failed one,
  stands under the profile's voltage ceiling, is neither blacklisted nor condemned for the clock, and every
  real bin that it passes over on the way is; and no power measured at it or at the failed bin lies above
  the publication ceiling.\<close>

theorem vertical_repair_sound:
  assumes "f2_plan_vertical_repair curve r condemned obs gpu target failed_mv reason cap profile_max = Inr (mv, w)"
    and "f2_repair_bin_above curve failed_mv (repair_step_bins reason) = Some start"
  shows "mv \<in> set (bins_of curve) \<and> failed_mv < mv \<and> mv \<le> profile_max \<and>
    \<not> field_pair_blacklisted r target mv \<and> \<not> refuses condemned target mv \<and>
    (\<forall>b\<in>set (bins_of curve). start \<le> b \<and> b < mv \<longrightarrow>
       field_pair_blacklisted r target b \<or> refuses condemned target b) \<and>
    w = measured_power_at_pair obs gpu target mv \<and>
    (cap > Fin 0 \<longrightarrow> (\<forall>u. Some u \<in> {w, measured_power_at_pair obs gpu target failed_mv} \<longrightarrow>
                              \<not> u > off_cap_ceiling_w cap))"
proof -
  let ?bad = "\<lambda>mv. field_pair_blacklisted r target mv \<or> refuses condemned target mv"
  let ?lower = "fold (\<lambda>w acc. f32_max acc w)
      (case_option [] (\<lambda>w. [w]) (measured_power_at_pair obs gpu target mv) @
       case_option [] (\<lambda>w. [w]) (measured_power_at_pair obs gpu target failed_mv)) (Fin 0)"
  have facts: "climb_condemned ?bad curve start = Some mv" "\<not> mv > profile_max"
    "w = measured_power_at_pair obs gpu target mv" "\<not> (cap > Fin 0 \<and> ?lower > off_cap_ceiling_w cap)"
    using assms by (auto simp: f2_plan_vertical_repair_def Let_def split: option.splits if_splits)
  have quiet: "\<not> u > off_cap_ceiling_w cap"
    if "cap > Fin 0" "Some u \<in> {w, measured_power_at_pair obs gpu target failed_mv}" for u
    using lower_bound_covers [OF that(2) [unfolded facts(3)] refl] facts(4) that(1) by blast
  show ?thesis
    using climb_condemned_Some [OF facts(1)] repair_bin_above [OF assms(2)] facts(2,3) quiet by auto
qed

definition repair_curve :: vf_curve where
  "repair_curve = [(0, 850, 1890), (1, 860, 1895), (2, 870, 1905), (3, 880, 1910)]"

theorem vertical_repair_sound_witness:
  "f2_plan_vertical_repair repair_curve default_record (no_pairs\<lparr>rigid := [(1900, 870)]\<rparr>) [] ''gpu'' 1900 850
     ''ClockDrop'' (Fin 0) 900 = Inr (880, None) \<and>
   refuses (no_pairs\<lparr>rigid := [(1900, 870)]\<rparr>) 1900 870"
proof -
  let ?condemned = "no_pairs\<lparr>rigid := [(1900, 870)]\<rparr>"
  have clean: "\<not> field_pair_blacklisted default_record t a" for t a
    by (simp add: field_pair_blacklisted_def is_blacklisted_def field_floor_refuses_def field_vf_floor_mv_def
        default_record_def is_some_and_def vf_floor_envelope_def envelope_at_def running_envelope_def field_points_def)
  have floor: "refuses ?condemned 1900 860" "refuses ?condemned 1900 870" "\<not> refuses ?condemned 1900 880"
    by code_simp+
  have one: "repair_step_bins ''ClockDrop'' = 1" by code_simp
  have start: "f2_repair_bin_above repair_curve 850 (repair_step_bins ''ClockDrop'') = Some 860"
    by (simp add: f2_repair_bin_above_def one repair_curve_def bins_of_def)
  have next_bin: "f2_next_bin_above repair_curve 860 = Some 870" "f2_next_bin_above repair_curve 870 = Some 880"
    by (simp_all add: f2_next_bin_above_def repair_curve_def bins_of_def min_of_def)
  have "climb_condemned (\<lambda>mv. field_pair_blacklisted default_record 1900 mv \<or> refuses ?condemned 1900 mv)
      repair_curve 860 = Some 880"
    by (simp add: climb_condemned.simps [of _ _ 860] climb_condemned.simps [of _ _ 870]
        climb_condemned.simps [of _ _ 880] clean floor next_bin)
  then have plan: "f2_plan_vertical_repair repair_curve default_record ?condemned [] ''gpu'' 1900 850 ''ClockDrop'' (Fin 0) 900 =
      Inr (880, None)"
    by (simp add: f2_plan_vertical_repair_def start measured_power_at_pair_def Let_def f32_order)
  have "870 \<in> set (bins_of repair_curve)" by (simp add: repair_curve_def bins_of_def)
  then show ?thesis using vertical_repair_sound [OF plan start] plan clean by auto
qed

end
