(* ===== verification/ForgeSelect.thy ===== *)
theory ForgeSelect
  imports ForgeProfiles F2Calibrate
begin

text \<open>
  The selection loop of \<open>measure_multiclock_undervolt_forge\<close> in \<open>crates/service/src/gpu_power_sweep.rs\<close>:
  the profiles are synthesized, each selected pair passes the gate of Apply or is repaired, replaced or
  excluded, and the synthesis is repeated until the three profiles stand or nothing can be done. What the
  loop asks of the machine (the gate, the power calibration, the log, the record and the ledger) is the
  record \<open>forge_engines\<close>; the locale \<open>forge_contract\<close> states what the loop relies on, and \<open>ForgeHost\<close> shows
  that the engines of \<open>F2Qualify\<close> and \<open>F2Calibrate\<close> over the real disk and card keep it. Progress,
  estimates and log lines are left out.
\<close>

section \<open>What the loop asks of the machine\<close>

record 'm forge_engines =
  fe_gate :: "apply_pair \<Rightarrow> i32 \<Rightarrow> f32 option \<Rightarrow> 'm \<Rightarrow> apply_summary \<times> 'm"
  fe_calibrate :: "apply_pair \<Rightarrow> i32 \<Rightarrow> f32 option \<Rightarrow> 'm \<Rightarrow> calibration_summary \<times> 'm"
  fe_observations :: "'m \<Rightarrow> f2_observation list"
  fe_record :: "'m \<Rightarrow> safe_loop_record"
  fe_condemned :: "'m \<Rightarrow> condemned_pairs"
  fe_quarantine :: "apply_pair \<Rightarrow> string \<Rightarrow> 'm \<Rightarrow> 'm"

text \<open>\<open>sf_text\<close> is the text of a stop reason.\<close>

record selection_frame =
  sf_curve :: vf_curve
  sf_gpu_key :: string
  sf_run_id :: string
  sf_cap :: f32
  sf_policy :: forge_policy
  sf_text :: "apply_stop \<Rightarrow> string"

record 'm selection =
  sl_machine :: 'm
  sl_classified :: "scored_point list"
  sl_excluded :: "apply_pair set"
  sl_override :: "apply_pair option"
  sl_aborted :: bool
  sl_retain :: bool

definition exact_apply_required :: "selection_frame \<Rightarrow> bool" where
  "exact_apply_required fr \<longleftrightarrow> required_qualification_passes (sf_policy fr) > 0"

definition required_confirmations :: "selection_frame \<Rightarrow> u32" where
  "required_confirmations fr = as_u32 (int (required_qualification_passes (sf_policy fr)))"

definition confidence_threshold :: f64 where
  "confidence_threshold = sy_confidence_threshold policy_balanced"

definition known_cap :: "selection_frame \<Rightarrow> f32 option" where
  "known_cap fr = (if sf_cap fr > Fin 0 then Some (sf_cap fr) else None)"

definition publishable_power :: "selection_frame \<Rightarrow> f32 \<Rightarrow> bool" where
  "publishable_power fr w \<longleftrightarrow> sf_cap fr \<le> Fin 0 \<or> w \<le> off_cap_ceiling_w (sf_cap fr)"

definition regime_exclusions :: "selection_frame \<Rightarrow> scored_point list \<Rightarrow> apply_pair list" where
  "regime_exclusions fr classified =
     List.map_filter
       (\<lambda>(p, _).
          if f2_regime_candidate_refusal p classified (exact_apply_required fr) (required_confirmations fr)
               confidence_threshold \<noteq> None
          then f2_apply_key p else None)
       classified"

definition exclude :: "apply_pair list \<Rightarrow> 'm selection \<Rightarrow> 'm selection" where
  "exclude ks s = s\<lparr>sl_excluded := set ks \<union> sl_excluded s\<rparr>"

section \<open>The gate of one selected pair\<close>

text \<open>Only a pair that passed is asked to pass again.\<close>

fun further_passes :: "('m \<Rightarrow> apply_summary \<times> 'm) \<Rightarrow> nat \<Rightarrow> apply_summary \<Rightarrow> 'm \<Rightarrow> apply_summary \<times> 'm" where
  "further_passes gate 0 r m = (r, m)"
| "further_passes gate (Suc n) r m =
     (if as_qualified r
      then (case gate m of (r', m') \<Rightarrow> further_passes gate n (r'\<lparr>as_executed := as_executed r' + as_executed r\<rparr>) m')
      else (r, m))"

definition gate_pair ::
  "selection_frame \<Rightarrow> 'm forge_engines \<Rightarrow> apply_pair \<Rightarrow> i32 \<Rightarrow> 'm \<Rightarrow> apply_summary \<times> 'm" where
  "gate_pair fr en k offset m =
     (let passes = required_apply_passes (fe_condemned en m) (fst k) (snd k) f2_qualification_contract_version;
          gate = fe_gate en k offset (map_option off_cap_ceiling_w (known_cap fr))
      in case gate m of (r, m') \<Rightarrow> further_passes gate (passes - 1) r m')"

definition pair_approved :: "scored_point list \<Rightarrow> apply_pair \<Rightarrow> bool" where
  "pair_approved classified k \<longleftrightarrow> list_ex (\<lambda>(p, _). f2_apply_key p = Some k \<and> point_apply_qualified p) classified"

definition already_qualified :: "selection_frame \<Rightarrow> 'm forge_engines \<Rightarrow> 'm selection \<Rightarrow> apply_pair \<Rightarrow> bool" where
  "already_qualified fr en s k \<longleftrightarrow>
     pair_approved (sl_classified s) k \<and>
     point_has_current_endurance_qualification (fe_observations en (sl_machine s)) (sf_run_id fr) (fst k) (snd k)
       (sf_gpu_key fr)"

datatype verdict = Kept | Approved | Changed | Terminal

definition raise_worst :: "f32 option \<Rightarrow> power_sweep_point \<Rightarrow> power_sweep_point" where
  "raise_worst worst p =
     (case worst of None \<Rightarrow> p | Some w \<Rightarrow> if w > ps_max_power_w p then p\<lparr>ps_max_power_w := w\<rparr> else p)"

definition raise_p99 :: "f32 option \<Rightarrow> power_sweep_point \<Rightarrow> power_sweep_point" where
  "raise_p99 gate_p99 p =
     (case gate_p99 of
        None \<Rightarrow> p
      | Some w \<Rightarrow>
          if w > unwrap_or (ps_power_p99_w p) (Fin 0)
          then p\<lparr>ps_power_p99_w := Some w,
                 ps_perf_per_watt := f64_div (f64_of_nat (unwrap_or (ps_p5_clock_mhz p) (ps_clock_mhz p))) w\<rparr>
          else p)"

definition approve_point :: "u32 \<Rightarrow> f32 option \<Rightarrow> f32 option \<Rightarrow> power_sweep_point \<Rightarrow> power_sweep_point" where
  "approve_point p95 worst gate_p99 p =
     (raise_p99 gate_p99
        (raise_worst worst (p\<lparr>ps_p95_clock_mhz := Some (max (unwrap_or (ps_p95_clock_mhz p) 0) p95)\<rparr>)))
       \<lparr>ps_apply_qualified := True, ps_apply_qualification_version := Some f2_qualification_contract_version\<rparr>"

definition approve_pair ::
  "u32 \<Rightarrow> f32 option \<Rightarrow> f32 option \<Rightarrow> apply_pair \<Rightarrow> scored_point list \<Rightarrow> scored_point list" where
  "approve_pair p95 worst gate_p99 k classified =
     map (\<lambda>(p, c). (if f2_apply_key p = Some k then approve_point p95 worst gate_p99 p else p, c)) classified"

definition take_qualified ::
  "selection_frame \<Rightarrow> 'm forge_engines \<Rightarrow> apply_pair \<Rightarrow> 'm selection \<Rightarrow> verdict \<times> 'm selection" where
  "take_qualified fr en k s =
     (let obs = fe_observations en (sl_machine s); run = sf_run_id fr; gpu = sf_gpu_key fr
      in case current_apply_qualification_p95_clock_at_anchor obs run (fst k) (snd k) gpu of
           None \<Rightarrow> (Changed, exclude [k] s)
         | Some p95 \<Rightarrow>
             (let classified = approve_pair p95
                    (worst_current_apply_qualification_power_at_anchor obs run (fst k) (snd k) gpu)
                    (complete_apply_gate_p99_at_anchor obs (Some run) (fst k) (snd k) gpu) k (sl_classified s);
                  s' = s\<lparr>sl_classified := classified\<rparr>
              in case find (\<lambda>(p, _). f2_apply_key p = Some k) classified of
                   None \<Rightarrow> (Approved, s')
                 | Some (p, _) \<Rightarrow>
                     if f2_regime_candidate_refusal p classified True (required_confirmations fr) confidence_threshold = None
                     then (Approved, s')
                     else (Changed, exclude (k # f2_regime_dependent_apply_keys k classified) s')))"

section \<open>After a failure\<close>

definition carried_point :: "f32 \<Rightarrow> power_sweep_point \<Rightarrow> power_sweep_point" where
  "carried_point p99 p =
     p\<lparr>ps_power_p99_w := Some p99, ps_max_power_w := f32_max (ps_max_power_w p) p99,
       ps_perf_per_watt := f64_div (f64_of_nat (unwrap_or (ps_p5_clock_mhz p) (ps_clock_mhz p))) p99,
       ps_apply_qualified := False, ps_apply_qualification_version := None\<rparr>"

definition godforge_fast_drop ::
  "selection_frame \<Rightarrow> 'm forge_engines \<Rightarrow> apply_pair \<Rightarrow> 'm selection \<Rightarrow> verdict \<times> 'm selection" where
  "godforge_fast_drop fr en k s =
     (case f2_godforge_fast_drop_candidate (sl_classified s) (sl_excluded s) k of
        None \<Rightarrow> (Changed, s)
      | Some (carried, confidence) \<Rightarrow>
          (let pair = (unwrap_or (ps_target_clock_mhz carried) (ps_clock_mhz carried), snd k)
           in case fe_calibrate en pair (ps_offset_mhz carried) (known_cap fr) (sl_machine s) of
                (cal, m) \<Rightarrow>
                  (let s1 = s\<lparr>sl_machine := m, sl_retain := sl_retain s \<or> cs_retain_boot_flag cal\<rparr>
                   in if cs_aborted cal \<and> cs_retain_boot_flag cal then (Terminal, s1\<lparr>sl_aborted := True\<rparr>)
                      else if \<not> cs_confirmed cal then (Changed, s1)
                      else case measured_power_at_pair (fe_observations en m) (sf_gpu_key fr) (fst pair) (snd pair) of
                             None \<Rightarrow> (Changed, s1)
                           | Some p99 \<Rightarrow>
                               if publishable_power fr p99
                               then (Changed,
                                     s1\<lparr>sl_classified :=
                                          f2_upsert_classified_candidate (carried_point p99 carried, confidence)
                                            (sl_classified s1),
                                        sl_override := Some pair\<rparr>)
                               else (Changed, s1))))"

definition repaired_point :: "u32 \<Rightarrow> f32 \<Rightarrow> power_sweep_point \<Rightarrow> power_sweep_point" where
  "repaired_point mv p99 p =
     p\<lparr>ps_vf_table_voltage_mv := Some mv,
       ps_apply_margin_mv := map_option (u32_sat_sub mv) (ps_boundary_voltage_mv p),
       ps_power_p99_w := Some p99, ps_max_power_w := f32_max (ps_max_power_w p) p99,
       ps_apply_qualified := False, ps_apply_qualification_version := None\<rparr>"

definition place_repaired ::
  "selection_frame \<Rightarrow> profile_role \<Rightarrow> apply_pair \<Rightarrow> power_sweep_point \<Rightarrow> u32 \<Rightarrow> f32 option \<Rightarrow> 'm selection \<Rightarrow>
   'm selection" where
  "place_repaired fr role k p mv watts s =
     (case watts of
        None \<Rightarrow> s
      | Some p99 \<Rightarrow>
          if publishable_power fr p99
          then (let confidence =
                      (case find (\<lambda>(q, _). f2_apply_key q = Some k) (sl_classified s) of
                         None \<Rightarrow> Fin 0 | Some (_, c) \<Rightarrow> c);
                    s' = s\<lparr>sl_classified :=
                           f2_upsert_classified_candidate (repaired_point mv p99 p, confidence) (sl_classified s)\<rparr>
                in if role = GodforgeRole then s'\<lparr>sl_override := Some (fst k, mv)\<rparr> else s')
          else s)"

definition climb_pair ::
  "selection_frame \<Rightarrow> 'm forge_engines \<Rightarrow> profile_role \<Rightarrow> apply_pair \<Rightarrow> power_sweep_point \<Rightarrow> u32 \<Rightarrow> f32 option \<Rightarrow>
   'm selection \<Rightarrow> verdict \<times> 'm selection" where
  "climb_pair fr en role k p mv measured s =
     (case measured of
        Some w \<Rightarrow> (Changed, place_repaired fr role k p mv (Some w) s)
      | None \<Rightarrow>
          (case fe_calibrate en (fst k, mv) (ps_offset_mhz p) (known_cap fr) (sl_machine s) of
             (cal, m) \<Rightarrow>
               (let s1 = s\<lparr>sl_machine := m, sl_retain := sl_retain s \<or> cs_retain_boot_flag cal\<rparr>
                in if cs_aborted cal then (Terminal, s1\<lparr>sl_aborted := True\<rparr>)
                   else (Changed,
                         place_repaired fr role k p mv
                           (if cs_confirmed cal
                            then measured_power_at_pair (fe_observations en m) (sf_gpu_key fr) (fst k) mv else None)
                           s1))))"

definition condemn_failed ::
  "selection_frame \<Rightarrow> 'm forge_engines \<Rightarrow> apply_pair \<Rightarrow> bool \<Rightarrow> string \<Rightarrow> 'm selection \<Rightarrow> 'm selection" where
  "condemn_failed fr en k benign text s =
     (if \<not> benign \<and> f2_gate_failure_is_quarantinable text
      then exclude (k # f2_regime_dependent_apply_keys k (sl_classified s))
             (s\<lparr>sl_machine := fe_quarantine en k text (sl_machine s)\<rparr>)
      else exclude [k] s)"

definition take_failure ::
  "selection_frame \<Rightarrow> 'm forge_engines \<Rightarrow> forge_profiles \<Rightarrow> apply_pair \<Rightarrow> power_sweep_point \<Rightarrow> apply_summary \<Rightarrow>
   'm selection \<Rightarrow> verdict \<times> 'm selection" where
  "take_failure fr en profiles k p summary s =
     (let text = sf_text fr (as_stop_reason summary);
          blacklist_refused = (as_aborted summary \<and> str_contains ''blacklisted'' text);
          power_exceeded = prefix ''ExactApplyPowerCeilingExceeded'' text;
          role = f2_profile_role profiles k
      in if \<not> blacklist_refused \<and> (as_aborted summary \<or> as_cancelled summary)
         then (Terminal, s\<lparr>sl_aborted := sl_aborted s \<or> as_aborted summary\<rparr>)
         else if \<not> (power_exceeded \<or> blacklist_refused \<or> f2_gate_failure_supports_vertical_repair text)
         then (Terminal, s)
         else (let s1 = condemn_failed fr en k (power_exceeded \<or> blacklist_refused) text s; m = sl_machine s1
               in case f2_plan_vertical_repair (sf_curve fr) (fe_record en m) (fe_condemned en m)
                         (fe_observations en m) (sf_gpu_key fr) (fst k) (snd k) text (sf_cap fr)
                         (f2_profile_repair_max_mv role profiles k (sf_curve fr)) of
                    Inl _ \<Rightarrow> if role = GodforgeRole then godforge_fast_drop fr en k s1 else (Changed, s1)
                  | Inr (mv, measured) \<Rightarrow> climb_pair fr en role k p mv measured s1))"

section \<open>The loop\<close>

definition judge_selected ::
  "selection_frame \<Rightarrow> 'm forge_engines \<Rightarrow> forge_profiles \<Rightarrow> power_sweep_point \<Rightarrow> 'm selection \<Rightarrow>
   verdict \<times> 'm selection" where
  "judge_selected fr en profiles p s =
     (case f2_apply_key p of
        None \<Rightarrow> (Terminal, s)
      | Some k \<Rightarrow>
          if already_qualified fr en s k then (Kept, s)
          else if f2_approved_dominator p (sl_classified s) \<noteq> None then (Changed, exclude [k] s)
          else case gate_pair fr en k (ps_offset_mhz p) (sl_machine s) of
            (summary, m) \<Rightarrow>
              (let s1 = s\<lparr>sl_machine := m, sl_retain := sl_retain s \<or> as_retain_boot_flag summary\<rparr>
               in if as_qualified summary then take_qualified fr en k s1
                  else take_failure fr en profiles k p summary s1))"

text \<open>The selected points in turn; \<open>None\<close> is the terminal end, the flag says whether anything changed.\<close>

fun judge_all ::
  "selection_frame \<Rightarrow> 'm forge_engines \<Rightarrow> forge_profiles \<Rightarrow> power_sweep_point list \<Rightarrow> bool \<Rightarrow> 'm selection \<Rightarrow>
   bool option \<times> 'm selection" where
  "judge_all fr en profiles [] changed s = (Some changed, s)"
| "judge_all fr en profiles (p # ps) changed s =
     (case judge_selected fr en profiles p s of
        (Kept, s') \<Rightarrow> judge_all fr en profiles ps changed s'
      | (Approved, s') \<Rightarrow> judge_all fr en profiles ps True s'
      | (Changed, s') \<Rightarrow> (Some True, s')
      | (Terminal, s') \<Rightarrow> (None, s'))"

datatype round_end = Again | Publish forge_profiles | Halt

definition eligible_points :: "'m selection \<Rightarrow> scored_point list" where
  "eligible_points s =
     filter (\<lambda>(p, _). is_some_and (f2_apply_key p) (\<lambda>k. k \<notin> sl_excluded s)) (sl_classified s)"

definition synthesized :: "selection_frame \<Rightarrow> 'm selection \<Rightarrow> forge_profiles" where
  "synthesized fr s =
     f2_apply_godforge_override (eligible_points s) (sl_override s) (sf_cap fr)
       (synthesize_forge_profiles_capped (eligible_points s) policy_balanced (sf_cap fr))"

definition profile_list :: "forge_profiles \<Rightarrow> power_sweep_point option list" where
  "profile_list profiles = [fr_godforge profiles, fr_brokkrs profiles, fr_deep_calm profiles]"

definition select_round ::
  "selection_frame \<Rightarrow> 'm forge_engines \<Rightarrow> 'm selection \<Rightarrow> round_end \<times> 'm selection" where
  "select_round fr en s =
     (if eligible_points s = [] then (Halt, s)
      else
        (let profiles = synthesized fr s; selected = f2_unique_profile_points (profile_list profiles)
         in if \<not> exact_apply_required fr then (Publish profiles, s)
            else if length selected < 3 \<and> None \<in> set (profile_list profiles) then (Halt, s)
            else case judge_all fr en profiles selected False s of
              (None, s') \<Rightarrow> (Halt, s')
            | (Some changed, s') \<Rightarrow> if changed then (Again, s') else (Publish profiles, s')))"

partial_function (option) select_loop ::
  "selection_frame \<Rightarrow> 'm forge_engines \<Rightarrow> 'm selection \<Rightarrow> (forge_profiles option \<times> 'm selection) option" where
  "select_loop fr en s =
     (case select_round fr en s of
        (Again, s') \<Rightarrow> select_loop fr en s'
      | (Publish profiles, s') \<Rightarrow> Some (Some profiles, s')
      | (Halt, s') \<Rightarrow> Some (None, s'))"

definition start_selection ::
  "selection_frame \<Rightarrow> scored_point list \<Rightarrow> 'm \<Rightarrow> bool \<Rightarrow> bool \<Rightarrow> 'm selection" where
  "start_selection fr classified m aborted retain =
     \<lparr>sl_machine = m, sl_classified = classified, sl_excluded = set (regime_exclusions fr classified),
      sl_override = None, sl_aborted = aborted, sl_retain = retain\<rparr>"

text \<open>What is published of the profiles found; the earlier profiles stay where nothing new is.\<close>

definition publish_profiles ::
  "selection_frame \<Rightarrow> f2_observation list \<Rightarrow> forge_profiles \<Rightarrow> forge_progress \<Rightarrow> forge_progress" where
  "publish_profiles fr obs profiles prog =
     (case publish_set_power obs (Some (sf_run_id fr)) (sf_gpu_key fr) (profile_list profiles) of
        (Inl e, _) \<Rightarrow> prog\<lparr>fg_log := fg_log prog @ [e]\<rparr>
      | (Inr updated, ps) \<Rightarrow>
          prog\<lparr>fg_power_bound_collapse := fr_power_bound_collapse profiles, sp_godforge := ps ! 0,
            sp_brokkrs := ps ! 1, sp_deep_calm := ps ! 2, fg_recommended := ps ! 1\<rparr>)"

definition conclude_selection ::
  "selection_frame \<Rightarrow> 'm forge_engines \<Rightarrow> forge_profiles option \<Rightarrow> 'm selection \<Rightarrow> forge_progress \<Rightarrow> forge_progress" where
  "conclude_selection fr en found s prog =
     (let prog1 = (case found of
                     None \<Rightarrow> prog
                   | Some profiles \<Rightarrow> publish_profiles fr (fe_observations en (sl_machine s)) profiles prog)
      in prog1\<lparr>fg_profiles_qualified := profiles_meet_qualification (sf_policy fr) (profiles_of prog1) confidence_threshold,
               sp_points := map fst (sl_classified s)\<rparr>)"

definition run_selection ::
  "selection_frame \<Rightarrow> 'm forge_engines \<Rightarrow> scored_point list \<Rightarrow> 'm \<Rightarrow> bool \<Rightarrow> bool \<Rightarrow> forge_progress \<Rightarrow>
   (forge_progress \<times> 'm selection) option" where
  "run_selection fr en classified m aborted retain prog =
     (case select_loop fr en (start_selection fr classified m aborted retain) of
        None \<Rightarrow> None
      | Some (found, s) \<Rightarrow> Some (conclude_selection fr en found s prog, s))"

section \<open>Keys of the classified points\<close>

definition keys_of :: "scored_point list \<Rightarrow> apply_pair option list" where
  "keys_of classified = map (\<lambda>(p, _). f2_apply_key p) classified"

lemma keys_ofI: "(p, c) \<in> set classified \<Longrightarrow> f2_apply_key p = Some k \<Longrightarrow> Some k \<in> set (keys_of classified)"
  unfolding keys_of_def by force

lemma key_of_pair: "f2_apply_key p = Some k \<Longrightarrow> k = (unwrap_or (ps_target_clock_mhz p) (ps_clock_mhz p), snd k)"
  by (auto simp: f2_apply_key_def)

lemma replace_first_keys:
  assumes "\<forall>x\<in>set xs. P x \<longrightarrow> key (f x) = key x" and "replace_first P f xs = Some ys"
  shows "map key ys = map key xs"
  using assms by (induction xs arbitrary: ys) (auto split: if_splits)

lemma replace_first_None: "replace_first P f xs = None \<longleftrightarrow> (\<forall>x\<in>set xs. \<not> P x)"
  by (induction xs) auto

lemma upsert_keys:
  assumes "f2_apply_key (fst candidate) = Some k"
  shows "keys_of (f2_upsert_classified_candidate candidate classified) =
    (if Some k \<in> set (keys_of classified) then keys_of classified else keys_of classified @ [Some k])"
proof (cases "replace_first (\<lambda>(p, _). f2_apply_key p = Some k)
    (\<lambda>(_, c). (fst candidate, f32_max (snd candidate) c)) classified")
  case None
  then have "Some k \<notin> set (keys_of classified)" unfolding replace_first_None by (auto simp: keys_of_def)
  then show ?thesis using None assms by (cases candidate) (simp add: f2_upsert_classified_candidate_def keys_of_def)
next
  case (Some ys)
  have "Some k \<in> set (keys_of classified)"
  proof (rule ccontr)
    assume "Some k \<notin> set (keys_of classified)"
    then have "\<forall>x\<in>set classified. \<not> (case x of (p, _) \<Rightarrow> f2_apply_key p = Some k)"
      by (force simp: keys_of_def)
    then show False using Some by (metis (no_types, lifting) option.distinct(1) replace_first_None)
  qed
  moreover have "keys_of ys = keys_of classified"
    unfolding keys_of_def by (rule replace_first_keys [OF _ Some]) (auto simp: assms)
  ultimately show ?thesis using Some assms by (simp add: f2_upsert_classified_candidate_def)
qed

lemma upsert_distinct:
  "f2_apply_key (fst candidate) = Some k \<Longrightarrow> distinct (keys_of classified) \<Longrightarrow>
     distinct (keys_of (f2_upsert_classified_candidate candidate classified))"
  by (simp add: upsert_keys)

lemma approve_point_key [simp]: "f2_apply_key (approve_point p95 worst gate_p99 p) = f2_apply_key p"
  by (simp add: approve_point_def raise_p99_def raise_worst_def f2_apply_key_def split: option.split)

lemma approve_point_approved [simp]: "point_apply_qualified (approve_point p95 worst gate_p99 p)"
  by (simp add: approve_point_def point_apply_qualified_def)

lemma approve_pair_keys [simp]: "keys_of (approve_pair p95 worst gate_p99 k classified) = keys_of classified"
  by (simp add: keys_of_def approve_pair_def case_prod_unfold)

lemma approve_pair_approved:
  "pair_approved (approve_pair p95 worst gate_p99 k classified) j \<longleftrightarrow>
     pair_approved classified j \<or> j = k \<and> Some k \<in> set (keys_of classified)"
  by (force simp: pair_approved_def approve_pair_def keys_of_def list_ex_iff)

lemma repaired_point_key:
  "f2_apply_key p = Some k \<Longrightarrow> f2_apply_key (repaired_point mv p99 p) = Some (fst k, mv)"
  by (auto simp: repaired_point_def f2_apply_key_def)

lemma fast_drop_candidate:
  assumes "f2_godforge_fast_drop_candidate classified excluded k = Some (carried, confidence)"
  shows "f2_apply_key carried = Some (unwrap_or (ps_target_clock_mhz carried) (ps_clock_mhz carried), snd k)"
    and "\<exists>j. Some j \<in> set (keys_of classified) \<and>
      fst j = unwrap_or (ps_target_clock_mhz carried) (ps_clock_mhz carried)"
proof -
  let ?targets = "filter (\<lambda>t. t < fst k) (map fst (List.map_filter (\<lambda>(p, _). f2_apply_key p) classified))"
  obtain t p c where t: "max_of ?targets = Some t"
    and p: "max_by (\<lambda>a b. f32_cmp (snd a) (snd b))
        (filter (\<lambda>(p, _). unwrap_or (ps_target_clock_mhz p) (ps_clock_mhz p) = t) classified) = Some (p, c)"
    and c: "carried = p\<lparr>ps_vf_table_voltage_mv := Some (snd k),
        ps_apply_margin_mv := map_option (u32_sat_sub (snd k)) (ps_boundary_voltage_mv p),
        ps_apply_qualified := False, ps_apply_qualification_version := None\<rparr>"
    using assms by (auto simp: f2_godforge_fast_drop_candidate_def split: option.splits prod.splits if_splits)
  have target: "unwrap_or (ps_target_clock_mhz p) (ps_clock_mhz p) = t" using max_by_mem [OF p] by auto
  have "t \<in> set ?targets" using max_of_SomeD [OF t] by blast
  then obtain q d j where j: "(q, d) \<in> set classified" "f2_apply_key q = Some j" "t = fst j"
    by (auto simp: map_filter_def)
  show "f2_apply_key carried = Some (unwrap_or (ps_target_clock_mhz carried) (ps_clock_mhz carried), snd k)"
    by (simp add: c f2_apply_key_def)
  show "\<exists>j. Some j \<in> set (keys_of classified) \<and>
      fst j = unwrap_or (ps_target_clock_mhz carried) (ps_clock_mhz carried)"
    using keys_ofI [OF j(1,2)] j(3) target by (intro exI [of _ j]) (simp add: c)
qed

lemma plan_proposes_bin:
  assumes "f2_plan_vertical_repair curve r condemned obs gpu target failed text cap max_mv = Inr (mv, w)"
  shows "mv \<in> set (bins_of curve)"
proof -
  obtain start where "f2_repair_bin_above curve failed (repair_step_bins text) = Some start"
    "climb_condemned (\<lambda>mv. field_pair_blacklisted r target mv \<or> refuses condemned target mv) curve start = Some mv"
    using assms by (auto simp: f2_plan_vertical_repair_def Let_def split: option.splits if_splits)
  then show ?thesis using climb_condemned_Some repair_bin_above(1) by blast
qed

section \<open>Selected points\<close>

lemma first_of_key_sub:
  "p \<in> set (first_of_key seen ps) \<Longrightarrow> p \<in> set ps \<and> (\<exists>k. f2_apply_key p = Some k \<and> k \<notin> seen)"
  by (induction seen ps rule: first_of_key.induct) (auto split: option.splits if_splits)

lemma first_of_key_covers:
  "p \<in> set ps \<Longrightarrow> f2_apply_key p = Some k \<Longrightarrow> k \<notin> seen \<Longrightarrow>
     \<exists>q\<in>set (first_of_key seen ps). f2_apply_key q = Some k"
  by (induction seen ps rule: first_of_key.induct) (auto split: option.splits if_splits)

lemma profile_set_list: "p \<in> profile_set profiles \<longleftrightarrow> Some p \<in> set (profile_list profiles)"
  by (auto simp: profile_set_def profile_list_def split: option.splits)

lemma selected_concat:
  "set (concat (map (case_option [] (\<lambda>p. [p])) (profile_list profiles))) = profile_set profiles"
  by (simp add: profile_set_def profile_list_def)

lemma unique_sub:
  "p \<in> set (f2_unique_profile_points (profile_list profiles)) \<Longrightarrow>
     p \<in> profile_set profiles \<and> (\<exists>k. f2_apply_key p = Some k)"
  unfolding f2_unique_profile_points_def using first_of_key_sub selected_concat by blast

lemma unique_covers:
  "p \<in> profile_set profiles \<Longrightarrow> f2_apply_key p = Some k \<Longrightarrow>
     \<exists>q\<in>set (f2_unique_profile_points (profile_list profiles)). f2_apply_key q = Some k"
  unfolding f2_unique_profile_points_def selected_concat [symmetric] by (rule first_of_key_covers) simp_all

lemma synthesized_eligible:
  assumes "p \<in> profile_set (synthesized fr s)"
  shows "p \<in> fst ` set (eligible_points s)" and "sf_cap fr > Fin 0 \<Longrightarrow> is_off_cap_safe p (sf_cap fr)"
proof -
  let ?S = "synthesize_forge_profiles_capped (eligible_points s) policy_balanced (sf_cap fr)"
  have plain: "q \<in> fst ` set (eligible_points s) \<and> (sf_cap fr > Fin 0 \<longrightarrow> is_off_cap_safe q (sf_cap fr))"
    if q: "q \<in> profile_set ?S" for q
  proof -
    obtain c where c: "(q, c) \<in> set (candidate_pool policy_balanced (sf_cap fr) (eligible_points s))"
      using published_in_pool [OF q] by force
    have "(q, c) \<in> set (eligible_points s)" using c candidate_pool_sub working_points_sub by blast
    then have "q \<in> fst ` set (eligible_points s)" by (rule rev_image_eqI) simp
    then show ?thesis using candidate_pool_safe [OF c] by blast
  qed
  have "p \<in> profile_set ?S \<or>
      (\<exists>k. find (\<lambda>p. f2_apply_key p = Some k \<and> is_off_cap_safe p (sf_cap fr)) (map fst (eligible_points s)) = Some p)"
    using assms by (auto simp: synthesized_def f2_apply_godforge_override_def profile_set_def split: option.splits)
  moreover have "p \<in> fst ` set (eligible_points s) \<and> is_off_cap_safe p (sf_cap fr)"
    if "find (\<lambda>p. f2_apply_key p = Some k \<and> is_off_cap_safe p (sf_cap fr)) (map fst (eligible_points s)) = Some p" for k
    using that by (auto simp: find_Some_iff)
  ultimately show "p \<in> fst ` set (eligible_points s)" "sf_cap fr > Fin 0 \<Longrightarrow> is_off_cap_safe p (sf_cap fr)"
    using plain by blast+
qed

lemma eligible_key:
  assumes "p \<in> fst ` set (eligible_points s)"
  shows "\<exists>k. f2_apply_key p = Some k \<and> k \<notin> sl_excluded s \<and> Some k \<in> set (keys_of (sl_classified s))"
proof -
  obtain c k where "(p, c) \<in> set (sl_classified s)" "f2_apply_key p = Some k" "k \<notin> sl_excluded s"
    using assms by (auto simp: eligible_points_def is_some_and_def split: option.splits)
  then show ?thesis using keys_ofI by blast
qed

lemma failure_cases:
  assumes "take_failure fr en profiles k p summary s = (v, s')"
  obtains (stop) "v = Terminal" "sl_machine s' = sl_machine s" "sl_classified s' = sl_classified s" "sl_excluded s' = sl_excluded s"
  | (plain) benign where "v = Changed" "s' = condemn_failed fr en k benign (sf_text fr (as_stop_reason summary)) s"
  | (drop) benign where "godforge_fast_drop fr en k (condemn_failed fr en k benign (sf_text fr (as_stop_reason summary)) s) = (v, s')"
  | (climb) benign role mv measured where "mv \<in> set (bins_of (sf_curve fr))"
      "climb_pair fr en role k p mv measured (condemn_failed fr en k benign (sf_text fr (as_stop_reason summary)) s) = (v, s')"
proof -
  let ?text = "sf_text fr (as_stop_reason summary)"
  let ?listed = "as_aborted summary \<and> str_contains ''blacklisted'' ?text"
  let ?power = "prefix ''ExactApplyPowerCeilingExceeded'' ?text"
  let ?role = "f2_profile_role profiles k"
  let ?s1 = "condemn_failed fr en k (?power \<or> ?listed) ?text s"
  let ?plan = "f2_plan_vertical_repair (sf_curve fr) (fe_record en (sl_machine ?s1)) (fe_condemned en (sl_machine ?s1))
      (fe_observations en (sl_machine ?s1)) (sf_gpu_key fr) (fst k) (snd k) ?text (sf_cap fr)
      (f2_profile_repair_max_mv ?role profiles k (sf_curve fr))"
  show thesis
  proof (cases "\<not> ?listed \<and> (as_aborted summary \<or> as_cancelled summary) \<or>
      \<not> (?power \<or> ?listed \<or> f2_gate_failure_supports_vertical_repair ?text)")
    case True
    then show thesis using assms stop by (auto simp: take_failure_def Let_def split: if_splits)
  next
    case False
    then have run: "take_failure fr en profiles k p summary s =
        (case ?plan of Inl _ \<Rightarrow> if ?role = GodforgeRole then godforge_fast_drop fr en k ?s1 else (Changed, ?s1)
         | Inr (mv, measured) \<Rightarrow> climb_pair fr en ?role k p mv measured ?s1)"
      unfolding take_failure_def Let_def by (simp only: if_False de_Morgan_disj simp_thms)
    show thesis
    proof (cases ?plan)
      case (Inl e)
      then show thesis using run assms plain drop by (cases "?role = GodforgeRole") auto
    next
      case (Inr mw)
      then obtain mv w where mw: "?plan = Inr (mv, w)" by (cases mw) simp
      then show thesis using run assms climb [OF plan_proposes_bin [OF mw]] by simp
    qed
  qed
qed

lemma exclude_simps [simp]:
  "sl_excluded (exclude ks s) = set ks \<union> sl_excluded s" "sl_machine (exclude ks s) = sl_machine s"
  "sl_classified (exclude ks s) = sl_classified s"
  by (simp_all add: exclude_def)

section \<open>The contract\<close>

text \<open>What a qualified gate must leave in the log: the Endurance evidence of the pair, or no reading of it at all.\<close>

definition gate_settled :: "selection_frame \<Rightarrow> 'm forge_engines \<Rightarrow> apply_pair \<Rightarrow> 'm \<Rightarrow> bool" where
  "gate_settled fr en k m \<longleftrightarrow>
     point_has_current_endurance_qualification (fe_observations en m) (sf_run_id fr) (fst k) (snd k) (sf_gpu_key fr) \<or>
     current_apply_qualification_p95_clock_at_anchor (fe_observations en m) (sf_run_id fr) (fst k) (snd k) (sf_gpu_key fr)
       = None"

locale forge_contract =
  fixes fr :: selection_frame and en :: "'m forge_engines" and inv :: "'m \<Rightarrow> bool"
  assumes gate_keeps: "inv m \<Longrightarrow> fe_gate en k offset limit m = (r, m') \<Longrightarrow>
      inv m' \<and> set (fe_observations en m) \<subseteq> set (fe_observations en m')"
    and gate_evidence: "inv m \<Longrightarrow> fe_gate en k offset limit m = (r, m') \<Longrightarrow> as_qualified r \<Longrightarrow> gate_settled fr en k m'"
    and calibrate_keeps: "inv m \<Longrightarrow> fe_calibrate en k offset limit m = (cal, m') \<Longrightarrow>
      inv m' \<and> set (fe_observations en m) \<subseteq> set (fe_observations en m')"
    and quarantine_keeps: "inv m \<Longrightarrow>
      inv (fe_quarantine en k text m) \<and> set (fe_observations en m) \<subseteq> set (fe_observations en (fe_quarantine en k text m))"
begin

text \<open>The pairs the loop can ever name: a finite box of clocks and voltages.\<close>

definition boxed :: "u32 set \<Rightarrow> u32 set \<Rightarrow> 'm selection \<Rightarrow> bool" where
  "boxed T V s \<longleftrightarrow> inv (sl_machine s) \<and> set (bins_of (sf_curve fr)) \<subseteq> V \<and>
     (\<forall>k. Some k \<in> set (keys_of (sl_classified s)) \<longrightarrow> k \<in> T \<times> V)"

definition grows :: "'m selection \<Rightarrow> 'm selection \<Rightarrow> bool" where
  "grows s s' \<longleftrightarrow> sl_excluded s \<subseteq> sl_excluded s' \<and>
     set (fe_observations en (sl_machine s)) \<subseteq> set (fe_observations en (sl_machine s'))"

lemma endurance_mono:
  "point_has_current_endurance_qualification obs run t v gpu \<Longrightarrow> set obs \<subseteq> set obs' \<Longrightarrow>
     point_has_current_endurance_qualification obs' run t v gpu"
  by (auto simp: point_has_current_endurance_qualification_def)

lemma further_keeps:
  assumes "further_passes (fe_gate en k offset limit) n r m = (r', m')" and "inv m"
    and "as_qualified r \<Longrightarrow> gate_settled fr en k m"
  shows "inv m' \<and> set (fe_observations en m) \<subseteq> set (fe_observations en m') \<and>
    (as_qualified r' \<longrightarrow> gate_settled fr en k m')"
  using assms
proof (induction n arbitrary: r m)
  case (Suc n)
  show ?case
  proof (cases "as_qualified r")
    case True
    obtain r1 m1 where g: "fe_gate en k offset limit m = (r1, m1)" by (cases "fe_gate en k offset limit m")
    have "further_passes (fe_gate en k offset limit) n (r1\<lparr>as_executed := as_executed r1 + as_executed r\<rparr>) m1 = (r', m')"
      using Suc.prems(1) True g by simp
    from Suc.IH [OF this] gate_keeps [OF Suc.prems(2) g] gate_evidence [OF Suc.prems(2) g]
    show ?thesis by auto
  next
    case False
    then show ?thesis using Suc.prems by simp
  qed
qed auto

lemma gate_pair_keeps:
  assumes "gate_pair fr en k offset m = (r, m')" and "inv m"
  shows "inv m'" and "set (fe_observations en m) \<subseteq> set (fe_observations en m')"
    and "as_qualified r \<Longrightarrow> gate_settled fr en k m'"
proof -
  let ?gate = "fe_gate en k offset (map_option off_cap_ceiling_w (known_cap fr))"
  obtain r1 m1 where g: "?gate m = (r1, m1)" by (cases "?gate m")
  then obtain n where f: "further_passes ?gate n r1 m1 = (r, m')"
    using assms(1) by (auto simp: gate_pair_def Let_def)
  have "inv m' \<and> set (fe_observations en m1) \<subseteq> set (fe_observations en m') \<and>
      (as_qualified r \<longrightarrow> gate_settled fr en k m')"
    using further_keeps [OF f] gate_keeps [OF assms(2) g] gate_evidence [OF assms(2) g] by blast
  then show "inv m'" "set (fe_observations en m) \<subseteq> set (fe_observations en m')"
    "as_qualified r \<Longrightarrow> gate_settled fr en k m'"
    using gate_keeps [OF assms(2) g] by blast+
qed

text \<open>What the parts of a round do to the box, to what is excluded and to what is qualified.\<close>

lemma boxed_exclude [simp]: "boxed T V (exclude ks s) = boxed T V s"
  by (simp add: boxed_def exclude_def)

lemma grows_trans: "grows s s1 \<Longrightarrow> grows s1 s' \<Longrightarrow> grows s s'"
  by (auto simp: grows_def)

lemma boxed_upsert:
  assumes "boxed T V s" and "f2_apply_key (fst candidate) = Some k" and "k \<in> T \<times> V"
    and "sl_classified s' = f2_upsert_classified_candidate candidate (sl_classified s)" and "sl_machine s' = sl_machine s"
  shows "boxed T V s'"
  using assms by (auto simp: boxed_def upsert_keys split: if_splits)

lemma fast_drop_keeps:
  assumes "godforge_fast_drop fr en k s = (v, s')" and "boxed T V s" and "k \<in> T \<times> V"
  shows "boxed T V s' \<and> grows s s' \<and> v \<in> {Changed, Terminal}"
proof (cases "f2_godforge_fast_drop_candidate (sl_classified s) (sl_excluded s) k")
  case None
  then show ?thesis using assms by (auto simp: godforge_fast_drop_def grows_def)
next
  case (Some cc)
  obtain carried confidence where cc: "cc = (carried, confidence)" by (cases cc)
  let ?pair = "(unwrap_or (ps_target_clock_mhz carried) (ps_clock_mhz carried), snd k)"
  obtain cal m where cal: "fe_calibrate en ?pair (ps_offset_mhz carried) (known_cap fr) (sl_machine s) = (cal, m)"
    by (cases "fe_calibrate en ?pair (ps_offset_mhz carried) (known_cap fr) (sl_machine s)")
  note keeps = calibrate_keeps [OF _ cal]
  define s1 where "s1 = s\<lparr>sl_machine := m, sl_retain := sl_retain s \<or> cs_retain_boot_flag cal\<rparr>"
  have s1: "boxed T V s1" "grows s s1" using assms(2) keeps by (auto simp: s1_def boxed_def grows_def)
  have key: "f2_apply_key (carried_point p99 carried) = Some ?pair" for p99
    using fast_drop_candidate(1) [OF Some [unfolded cc]] by (simp add: carried_point_def f2_apply_key_def)
  have in_box: "?pair \<in> T \<times> V"
    using fast_drop_candidate(2) [OF Some [unfolded cc]] assms(2,3) by (auto simp: boxed_def)
  consider "s' = s1" "v = Changed" | "s' = s1\<lparr>sl_aborted := True\<rparr>" "v = Terminal"
    | p99 where "s' = s1\<lparr>sl_classified := f2_upsert_classified_candidate (carried_point p99 carried, confidence) (sl_classified s1),
        sl_override := Some ?pair\<rparr>" "v = Changed"
    using assms(1) Some cc cal by (auto simp: godforge_fast_drop_def s1_def Let_def split: if_splits option.splits)
  then show ?thesis
  proof cases
    case 3
    have "boxed T V s'" by (rule boxed_upsert [OF s1(1) _ in_box]) (use 3 key in simp_all)
    then show ?thesis using 3 s1(2) by (simp add: grows_def)
  qed (use s1 in \<open>auto simp: boxed_def grows_def\<close>)
qed

lemma place_keeps:
  assumes "boxed T V s" and "f2_apply_key p = Some k" and "k \<in> T \<times> V" and "mv \<in> V"
  shows "boxed T V (place_repaired fr role k p mv watts s) \<and> grows s (place_repaired fr role k p mv watts s)"
proof (cases "\<exists>p99. watts = Some p99 \<and> publishable_power fr p99")
  case True
  then obtain p99 where p99: "watts = Some p99" "publishable_power fr p99" by blast
  obtain confidence where c: "sl_classified (place_repaired fr role k p mv watts s) =
      f2_upsert_classified_candidate (repaired_point mv p99 p, confidence) (sl_classified s)"
    "sl_machine (place_repaired fr role k p mv watts s) = sl_machine s"
    "sl_excluded (place_repaired fr role k p mv watts s) = sl_excluded s"
    using p99 by (simp add: place_repaired_def Let_def)
  have "boxed T V (place_repaired fr role k p mv watts s)"
    by (rule boxed_upsert [where k = "(fst k, mv)", OF assms(1) _ _ c(1,2)])
      (use repaired_point_key [OF assms(2)] assms(3,4) in auto)
  then show ?thesis using c by (simp add: grows_def)
next
  case False
  then show ?thesis using assms(1) by (auto simp: place_repaired_def grows_def split: option.split)
qed

lemma climb_keeps:
  assumes "climb_pair fr en role k p mv measured s = (v, s')" and "boxed T V s" and "f2_apply_key p = Some k"
    and "k \<in> T \<times> V" and "mv \<in> V"
  shows "boxed T V s' \<and> grows s s' \<and> v \<in> {Changed, Terminal}"
proof (cases measured)
  case (Some w)
  then show ?thesis using assms(1) place_keeps [OF assms(2-5)] by (auto simp: climb_pair_def)
next
  case None
  obtain cal m where cal: "fe_calibrate en (fst k, mv) (ps_offset_mhz p) (known_cap fr) (sl_machine s) = (cal, m)"
    by (cases "fe_calibrate en (fst k, mv) (ps_offset_mhz p) (known_cap fr) (sl_machine s)")
  define s1 where "s1 = s\<lparr>sl_machine := m, sl_retain := sl_retain s \<or> cs_retain_boot_flag cal\<rparr>"
  have s1: "boxed T V s1" "grows s s1"
    using assms(2) calibrate_keeps [OF _ cal] by (auto simp: s1_def boxed_def grows_def)
  consider "s' = s1\<lparr>sl_aborted := True\<rparr>" "v = Terminal" | watts where "s' = place_repaired fr role k p mv watts s1" "v = Changed"
    using assms(1) None cal by (auto simp: climb_pair_def s1_def Let_def split: if_splits)
  then show ?thesis
  proof cases
    case 1
    then show ?thesis using s1 by (simp add: boxed_def grows_def)
  next
    case 2
    then show ?thesis using place_keeps [OF s1(1) assms(3-5)] grows_trans [OF s1(2)] by blast
  qed
qed

lemma failure_keeps:
  assumes "take_failure fr en profiles k p summary s = (v, s')" and "boxed T V s" and "f2_apply_key p = Some k"
    and "k \<in> T \<times> V"
  shows "boxed T V s' \<and> grows s s' \<and> (v = Terminal \<or> v = Changed \<and> k \<in> sl_excluded s')"
proof -
  let ?text = "sf_text fr (as_stop_reason summary)"
  define s1 where "s1 benign = condemn_failed fr en k benign ?text s" for benign
  have s1: "boxed T V (s1 benign)" "grows s (s1 benign)" "k \<in> sl_excluded (s1 benign)" for benign
    using assms(2) quarantine_keeps
    by (auto simp: s1_def condemn_failed_def boxed_def grows_def)
  have after: "boxed T V s' \<and> grows s s' \<and> (v = Terminal \<or> v = Changed \<and> k \<in> sl_excluded s')"
    if "boxed T V s' \<and> grows (s1 benign) s' \<and> v \<in> {Changed, Terminal}" for benign
    using that s1 [of benign] by (auto simp: grows_def)
  show ?thesis
    using assms(1)
  proof (cases rule: failure_cases)
    case stop
    then show ?thesis using assms(2) by (simp add: boxed_def grows_def)
  next
    case (plain benign)
    then show ?thesis using s1 [of benign] by (simp add: s1_def)
  next
    case (drop benign)
    then show ?thesis using fast_drop_keeps [OF _ s1(1) assms(4)] after [of benign] by (simp add: s1_def)
  next
    case (climb benign role mv measured)
    then have "mv \<in> V" using assms(2) by (auto simp: boxed_def)
    then show ?thesis using climb_keeps [OF climb(2) _ assms(3,4)] s1(1) [of benign] after [of benign] by (simp add: s1_def)
  qed
qed

lemma qualified_keeps:
  assumes "take_qualified fr en k s = (v, s')" and "boxed T V s" and "Some k \<in> set (keys_of (sl_classified s))"
  shows "boxed T V s'" and "grows s s'"
    and "v = Changed \<and> k \<in> sl_excluded s' \<or>
      v = Approved \<and> current_apply_qualification_p95_clock_at_anchor (fe_observations en (sl_machine s)) (sf_run_id fr)
        (fst k) (snd k) (sf_gpu_key fr) \<noteq> None \<and> sl_excluded s' = sl_excluded s \<and> sl_machine s' = sl_machine s \<and>
        (\<forall>j. pair_approved (sl_classified s') j \<longleftrightarrow> pair_approved (sl_classified s) j \<or> j = k)"
proof -
  let ?obs = "fe_observations en (sl_machine s)"
  have "boxed T V s' \<and> grows s s' \<and> (v = Changed \<and> k \<in> sl_excluded s' \<or>
      v = Approved \<and> current_apply_qualification_p95_clock_at_anchor (fe_observations en (sl_machine s)) (sf_run_id fr)
        (fst k) (snd k) (sf_gpu_key fr) \<noteq> None \<and> sl_excluded s' = sl_excluded s \<and> sl_machine s' = sl_machine s \<and>
        (\<forall>j. pair_approved (sl_classified s') j \<longleftrightarrow> pair_approved (sl_classified s) j \<or> j = k))"
  proof (cases "current_apply_qualification_p95_clock_at_anchor ?obs (sf_run_id fr) (fst k) (snd k) (sf_gpu_key fr)")
    case None
    then show ?thesis using assms by (auto simp: take_qualified_def grows_def)
  next
    case (Some p95)
    define classified where "classified = approve_pair p95
      (worst_current_apply_qualification_power_at_anchor ?obs (sf_run_id fr) (fst k) (snd k) (sf_gpu_key fr))
      (complete_apply_gate_p99_at_anchor ?obs (Some (sf_run_id fr)) (fst k) (snd k) (sf_gpu_key fr)) k (sl_classified s)"
    have keys: "keys_of classified = keys_of (sl_classified s)"
      and app: "pair_approved classified j \<longleftrightarrow> pair_approved (sl_classified s) j \<or> j = k" for j
      using assms(3) by (simp_all add: classified_def approve_pair_approved)
    define s1 where "s1 = s\<lparr>sl_classified := classified\<rparr>"
    have "boxed T V s1" "grows s s1" using assms(2) keys by (simp_all add: s1_def boxed_def grows_def)
    moreover have "(v, s') = (Approved, s1) \<or> (\<exists>ks. (v, s') = (Changed, exclude (k # ks) s1))"
      using assms(1) Some
      by (simp add: take_qualified_def Let_def classified_def [symmetric] s1_def [symmetric] split: option.splits prod.splits if_splits)
        blast+
    ultimately show ?thesis using app Some by (auto simp: s1_def grows_def)
  qed
  then show "boxed T V s'" "grows s s'" "v = Changed \<and> k \<in> sl_excluded s' \<or>
      v = Approved \<and> current_apply_qualification_p95_clock_at_anchor (fe_observations en (sl_machine s)) (sf_run_id fr)
        (fst k) (snd k) (sf_gpu_key fr) \<noteq> None \<and> sl_excluded s' = sl_excluded s \<and> sl_machine s' = sl_machine s \<and>
        (\<forall>j. pair_approved (sl_classified s') j \<longleftrightarrow> pair_approved (sl_classified s) j \<or> j = k)" by blast+
qed

text \<open>What is left: the pairs not excluded, then the pairs not yet qualified.\<close>

definition left :: "u32 set \<Rightarrow> u32 set \<Rightarrow> 'm selection \<Rightarrow> nat \<times> nat" where
  "left T V s = (card (T \<times> V - sl_excluded s), card {k \<in> T \<times> V. \<not> already_qualified fr en s k})"

definition less_left :: "u32 set \<Rightarrow> u32 set \<Rightarrow> 'm selection \<Rightarrow> 'm selection \<Rightarrow> bool" where
  "less_left T V s' s \<longleftrightarrow> (left T V s', left T V s) \<in> less_than <*lex*> less_than"

lemma less_left_excluded:
  assumes "finite T" and "finite V" and "grows s s'" and "k \<in> T \<times> V" and "k \<notin> sl_excluded s" and "k \<in> sl_excluded s'"
  shows "less_left T V s' s"
proof -
  have "T \<times> V - sl_excluded s' \<subset> T \<times> V - sl_excluded s" using assms(3-6) by (auto simp: grows_def)
  then have "card (T \<times> V - sl_excluded s') < card (T \<times> V - sl_excluded s)"
    using assms(1,2) by (intro psubset_card_mono) auto
  then show ?thesis by (simp add: less_left_def left_def)
qed

lemma less_left_approved:
  assumes "finite T" and "finite V" and "grows s s'" and "k \<in> T \<times> V" and "sl_excluded s' = sl_excluded s"
    and "\<not> already_qualified fr en s k" and "already_qualified fr en s' k"
    and "\<And>j. pair_approved (sl_classified s) j \<Longrightarrow> pair_approved (sl_classified s') j"
  shows "less_left T V s' s"
proof -
  have "already_qualified fr en s' j" if "already_qualified fr en s j" for j
    using that assms(3,8) endurance_mono by (auto simp: already_qualified_def grows_def)
  then have "{k \<in> T \<times> V. \<not> already_qualified fr en s' k} \<subset> {k \<in> T \<times> V. \<not> already_qualified fr en s k}"
    using assms(4,6,7) by blast
  then have "card {k \<in> T \<times> V. \<not> already_qualified fr en s' k} < card {k \<in> T \<times> V. \<not> already_qualified fr en s k}"
    using assms(1,2) by (intro psubset_card_mono) auto
  then show ?thesis using assms(5) by (simp add: less_left_def left_def)
qed

lemma judge_keeps:
  assumes "judge_selected fr en profiles p s = (v, s')" and "boxed T V s" and "finite T" and "finite V"
    and "f2_apply_key p = Some k" and "k \<notin> sl_excluded s" and "Some k \<in> set (keys_of (sl_classified s))"
  shows "boxed T V s'" and "v = Kept \<longleftrightarrow> already_qualified fr en s k" and "v = Kept \<Longrightarrow> s' = s"
    and "v \<in> {Approved, Changed} \<Longrightarrow> less_left T V s' s"
    and "v = Approved \<Longrightarrow> sl_excluded s' = sl_excluded s \<and> keys_of (sl_classified s') = keys_of (sl_classified s)"
proof -
  have box: "k \<in> T \<times> V" using assms(2,7) unfolding boxed_def by blast
  have "boxed T V s' \<and> (v = Kept \<longleftrightarrow> already_qualified fr en s k) \<and> (v = Kept \<longrightarrow> s' = s) \<and>
      (v \<in> {Approved, Changed} \<longrightarrow> less_left T V s' s) \<and> (v = Approved \<longrightarrow> sl_excluded s' = sl_excluded s \<and>
        keys_of (sl_classified s') = keys_of (sl_classified s))"
  proof (cases "already_qualified fr en s k \<or> f2_approved_dominator p (sl_classified s) \<noteq> None")
    case True
    have "less_left T V (exclude [k] s) s"
      by (rule less_left_excluded [OF assms(3,4) _ box assms(6)]) (auto simp: grows_def)
    then show ?thesis using assms(1,2,5) True by (auto simp: judge_selected_def split: if_splits)
  next
    case False
    obtain summary m where g: "gate_pair fr en k (ps_offset_mhz p) (sl_machine s) = (summary, m)"
      by (cases "gate_pair fr en k (ps_offset_mhz p) (sl_machine s)")
    define s1 where "s1 = s\<lparr>sl_machine := m, sl_retain := sl_retain s \<or> as_retain_boot_flag summary\<rparr>"
    note gk = gate_pair_keeps [OF g]
    have s1: "boxed T V s1" "grows s s1" "sl_excluded s1 = sl_excluded s" "sl_classified s1 = sl_classified s"
      using assms(2) gk by (auto simp: s1_def boxed_def grows_def)
    have run: "(if as_qualified summary then take_qualified fr en k s1
        else take_failure fr en profiles k p summary s1) = (v, s')"
      using assms(1,5) False g unfolding s1_def by (simp add: judge_selected_def Let_def split del: if_split)
    show ?thesis
    proof (cases "as_qualified summary")
      case True
      then have q: "take_qualified fr en k s1 = (v, s')" using run by simp
      note qk = qualified_keeps [OF q s1(1)] 
      have key: "Some k \<in> set (keys_of (sl_classified s1))" using assms(7) s1(4) by simp
      have grow: "grows s s'" using grows_trans [OF s1(2) qk(2) [OF key]] .
      show ?thesis
        using qk(3) [OF key]
      proof (elim disjE conjE)
        assume "v = Changed" "k \<in> sl_excluded s'"
        then show ?thesis using qk(1) [OF key] less_left_excluded [OF assms(3,4) grow box assms(6)] False by auto
      next
        assume p95: "current_apply_qualification_p95_clock_at_anchor (fe_observations en (sl_machine s1)) (sf_run_id fr)
            (fst k) (snd k) (sf_gpu_key fr) \<noteq> None"
          and a: "v = Approved" "sl_excluded s' = sl_excluded s1" "sl_machine s' = sl_machine s1"
          "\<forall>j. pair_approved (sl_classified s') j \<longleftrightarrow> pair_approved (sl_classified s1) j \<or> j = k"
        have "already_qualified fr en s' k"
          using p95 a(3) a(4) [rule_format, of k] gk(3) [OF _ True] assms(2)
          by (auto simp: already_qualified_def gate_settled_def boxed_def s1_def)
        then have "less_left T V s' s"
          using less_left_approved [OF assms(3,4) grow box] a s1(3,4) False by simp
        moreover have "keys_of (sl_classified s') = keys_of (sl_classified s1)"
          using q a(1) by (auto simp: take_qualified_def Let_def split: option.splits prod.splits if_splits)
        ultimately show ?thesis using qk(1) [OF key] a s1(3,4) False by auto
      qed
    next
      case unqualified: False
      then have "take_failure fr en profiles k p summary s1 = (v, s')" using run by simp
      from failure_keeps [OF this s1(1) assms(5) box]
      have f: "boxed T V s'" "grows s1 s'" "v = Terminal \<or> v = Changed \<and> k \<in> sl_excluded s'" by auto
      then show ?thesis
        using less_left_excluded [OF assms(3,4) grows_trans [OF s1(2) f(2)] box assms(6)] False by auto
    qed
  qed
  then show "boxed T V s'" "v = Kept \<longleftrightarrow> already_qualified fr en s k" "v = Kept \<Longrightarrow> s' = s"
    "v \<in> {Approved, Changed} \<Longrightarrow> less_left T V s' s"
    "v = Approved \<Longrightarrow> sl_excluded s' = sl_excluded s \<and> keys_of (sl_classified s') = keys_of (sl_classified s)"
    by blast+
qed

lemma less_left_trans: "less_left T V s2 s1 \<Longrightarrow> less_left T V s1 s \<Longrightarrow> less_left T V s2 s"
  unfolding less_left_def by (rule transD [OF trans_lex_prod [OF trans_less_than trans_less_than]])

lemma judge_all_keeps:
  assumes "judge_all fr en profiles ps changed s = (res, s')" and "boxed T V s" and "finite T" and "finite V"
    and "\<forall>p\<in>set ps. \<exists>k. f2_apply_key p = Some k \<and> k \<notin> sl_excluded s \<and> Some k \<in> set (keys_of (sl_classified s))"
  shows "boxed T V s' \<and>
    (case res of None \<Rightarrow> True
     | Some c \<Rightarrow> c \<and> less_left T V s' s \<or> c = changed \<and> s' = s \<and>
         (\<forall>p\<in>set ps. \<forall>k. f2_apply_key p = Some k \<longrightarrow> already_qualified fr en s k))"
  using assms(1,2,5)
proof (induction ps arbitrary: changed s)
  case (Cons p ps)
  obtain k where k: "f2_apply_key p = Some k" "k \<notin> sl_excluded s" "Some k \<in> set (keys_of (sl_classified s))"
    using Cons.prems(3) by auto
  obtain v s1 where j: "judge_selected fr en profiles p s = (v, s1)" by (cases "judge_selected fr en profiles p s")
  note jk = judge_keeps [OF j Cons.prems(2) assms(3,4) k]
  show ?case
  proof (cases v)
    case Kept
    then have "judge_all fr en profiles ps changed s = (res, s')" using Cons.prems(1) j jk(3) by simp
    from Cons.IH [OF this Cons.prems(2)] Cons.prems(3) show ?thesis
      using jk(2) Kept k(1) by (auto split: option.splits)
  next
    case Approved
    then have run: "judge_all fr en profiles ps True s1 = (res, s')" using Cons.prems(1) j by simp
    have "\<forall>q\<in>set ps. \<exists>k. f2_apply_key q = Some k \<and> k \<notin> sl_excluded s1 \<and> Some k \<in> set (keys_of (sl_classified s1))"
      using jk(5) Approved Cons.prems(3) by simp
    from Cons.IH [OF run jk(1) this] show ?thesis
      using jk(4) Approved less_left_trans by (auto split: option.splits)
  next
    case Changed
    then show ?thesis using Cons.prems(1) j jk(1,4) by auto
  next
    case Terminal
    then show ?thesis using Cons.prems(1) j jk(1) by auto
  qed
qed auto

lemma round_keeps:
  assumes "select_round fr en s = (res, s')" and "boxed T V s" and "finite T" and "finite V"
  shows "boxed T V s'" and "res = Again \<Longrightarrow> less_left T V s' s"
proof -
  let ?profiles = "synthesized fr s"
  let ?selected = "f2_unique_profile_points (profile_list ?profiles)"
  have ok: "\<forall>p\<in>set ?selected. \<exists>k. f2_apply_key p = Some k \<and> k \<notin> sl_excluded s \<and> Some k \<in> set (keys_of (sl_classified s))"
    using unique_sub synthesized_eligible(1) eligible_key by blast
  obtain r s1 where j: "judge_all fr en ?profiles ?selected False s = (r, s1)"
    by (cases "judge_all fr en ?profiles ?selected False s")
  note jk = judge_all_keeps [OF j assms(2-4) ok]
  have "(s' = s \<and> res \<noteq> Again) \<or> s' = s1 \<and> (res = Again \<longrightarrow> r = Some True)"
    using assms(1) j by (auto simp: select_round_def Let_def split: if_splits option.splits)
  then show "boxed T V s'" "res = Again \<Longrightarrow> less_left T V s' s"
    using jk assms(2) by auto
qed

lemma loop_returns:
  assumes "boxed T V s" and "finite T" and "finite V"
  shows "\<exists>r. select_loop fr en s = Some r"
proof -
  have "wfP (less_left T V)"
    unfolding less_left_def wfp_def by (rule wf_inv_image [OF wf_lex_prod [OF wf_less_than wf_less_than], unfolded inv_image_def])
  then show ?thesis
    using assms(1)
  proof (induction s rule: wfp_induct_rule)
    case (less s)
    obtain res s' where r: "select_round fr en s = (res, s')" by (cases "select_round fr en s")
    note rk = round_keeps [OF r less(2) assms(2,3)]
    show ?case
    proof (cases res)
      case Again
      then show ?thesis using less(1) [OF rk(2) rk(1)] r by (subst select_loop.simps) simp
    qed (use r in \<open>simp add: select_loop.simps [of fr en s]\<close>)+
  qed
qed

end

section \<open>What a loop that ends with profiles has seen\<close>

lemma judge_kept:
  assumes "judge_selected fr en profiles p s = (Kept, s')"
  shows "s' = s \<and> (\<exists>k. f2_apply_key p = Some k \<and> already_qualified fr en s k)"
proof -
  have no: "fst (take_qualified fr en k s1) \<noteq> Kept" for k s1
    by (simp add: take_qualified_def Let_def split: option.split prod.split)
  have no_drop: "fst (godforge_fast_drop fr en k s1) \<noteq> Kept" for k s1
    by (simp add: godforge_fast_drop_def Let_def split: option.split prod.split)
  have no_climb: "fst (climb_pair fr en role k p mv w s1) \<noteq> Kept" for role k mv w s1
    by (simp add: climb_pair_def Let_def split: option.split prod.split)
  have no_fail: "fst (take_failure fr en profiles k p summary s1) \<noteq> Kept" for k summary s1
  proof (cases "take_failure fr en profiles k p summary s1")
    case (Pair v s2)
    then show ?thesis
    proof (cases rule: failure_cases)
      case (drop benign)
      then show ?thesis using no_drop Pair by (metis fst_conv)
    next
      case (climb benign role mv measured)
      then show ?thesis using no_climb Pair by (metis fst_conv)
    qed (use Pair in auto)
  qed
  show ?thesis
    using assms no no_fail
    by (auto simp: judge_selected_def Let_def split: option.splits if_splits prod.splits) (metis fst_conv)+
qed

lemma judge_all_quiet:
  "judge_all fr en profiles ps changed s = (Some False, s') \<Longrightarrow>
     \<not> changed \<and> s' = s \<and> (\<forall>p\<in>set ps. \<exists>k. f2_apply_key p = Some k \<and> already_qualified fr en s k)"
proof (induction ps arbitrary: changed s)
  case (Cons p ps)
  obtain v s1 where j: "judge_selected fr en profiles p s = (v, s1)" by (cases "judge_selected fr en profiles p s")
  then have "v = Kept \<or> v = Approved" using Cons.prems by (cases v) auto
  then show ?case
  proof
    assume "v = Kept"
    then show ?case using Cons.prems Cons.IH [of changed s] j judge_kept [of fr en profiles p s s1] by auto
  next
    assume "v = Approved"
    then show ?case using Cons.prems Cons.IH [of True s1] j by auto
  qed
qed auto

lemma approve_pair_distinct [simp]: "distinct (keys_of (approve_pair p95 worst gate_p99 k classified)) = distinct (keys_of classified)"
  by simp

text \<open>The loop keeps one point per pair.\<close>

lemma place_distinct:
  assumes "distinct (keys_of (sl_classified s))" and "f2_apply_key p = Some k"
  shows "distinct (keys_of (sl_classified (place_repaired fr role k p mv watts s)))"
  using assms upsert_distinct repaired_point_key [OF assms(2)]
  by (auto simp: place_repaired_def Let_def split: option.split)

lemma fast_drop_distinct:
  assumes "godforge_fast_drop fr en k s = (v, s')" and "distinct (keys_of (sl_classified s))"
  shows "distinct (keys_of (sl_classified s'))"
proof -
  have key: "\<exists>j. f2_apply_key (carried_point p99 carried) = Some j"
    if "f2_godforge_fast_drop_candidate (sl_classified s) (sl_excluded s) k = Some (carried, c)" for p99 carried c
    using fast_drop_candidate(1) [OF that] by (simp add: carried_point_def f2_apply_key_def)
  show ?thesis
    using assms key upsert_distinct
    by (fastforce simp: godforge_fast_drop_def Let_def split: option.splits prod.splits if_splits)
qed

lemma judge_distinct:
  assumes "judge_selected fr en profiles p s = (v, s')" and "distinct (keys_of (sl_classified s))"
  shows "distinct (keys_of (sl_classified s'))"
proof -
  have q: "distinct (keys_of (sl_classified s2))"
    if "take_qualified fr en k s1 = (v, s2)" "distinct (keys_of (sl_classified s1))" for k s1 s2
    using that by (auto simp: take_qualified_def Let_def split: option.splits prod.splits if_splits)
  have f: "distinct (keys_of (sl_classified s2))"
    if run: "take_failure fr en profiles k p summary s1 = (v, s2)" and d: "distinct (keys_of (sl_classified s1))"
      and key: "f2_apply_key p = Some k" for k summary s1 s2
  proof -
    have c: "distinct (keys_of (sl_classified (condemn_failed fr en k benign why s1)))" for benign why
      using d by (simp add: condemn_failed_def)
    show ?thesis
      using run
    proof (cases rule: failure_cases)
      case (climb benign role mv measured)
      then show ?thesis
        using c by (auto simp: climb_pair_def Let_def intro!: place_distinct [OF _ key]
            split: option.splits prod.splits if_splits)
    next
      case (drop benign)
      then show ?thesis using fast_drop_distinct c by blast
    qed (use c d in auto)
  qed
  show ?thesis
    using assms q f by (fastforce simp: judge_selected_def Let_def split: option.splits prod.splits if_splits)
qed

lemma judge_all_distinct:
  "judge_all fr en profiles ps changed s = (res, s') \<Longrightarrow> distinct (keys_of (sl_classified s)) \<Longrightarrow>
     distinct (keys_of (sl_classified s'))"
proof (induction ps arbitrary: changed s)
  case (Cons p ps)
  obtain v s1 where j: "judge_selected fr en profiles p s = (v, s1)" by (cases "judge_selected fr en profiles p s")
  show ?case
    using Cons.prems(1) Cons.IH judge_distinct [OF j Cons.prems(2)] j by (cases v) auto
qed auto

lemma round_distinct:
  "select_round fr en s = (res, s') \<Longrightarrow> distinct (keys_of (sl_classified s)) \<Longrightarrow> distinct (keys_of (sl_classified s'))"
  by (auto simp: select_round_def Let_def split: if_splits prod.splits option.splits intro: judge_all_distinct)

text \<open>A round that publishes has found every selected pair qualified.\<close>

lemma round_publishes:
  assumes "select_round fr en s = (Publish profiles, s')" and "exact_apply_required fr"
    and "distinct (keys_of (sl_classified s))" and "p \<in> profile_set profiles"
  shows "\<exists>k. f2_apply_key p = Some k \<and> k \<notin> sl_excluded s' \<and> point_apply_qualified p \<and> already_qualified fr en s' k \<and>
    (sf_cap fr > Fin 0 \<longrightarrow> is_off_cap_safe p (sf_cap fr)) \<and> p \<in> fst ` set (sl_classified s')"
proof -
  let ?selected = "f2_unique_profile_points (profile_list (synthesized fr s))"
  have pub: "profiles = synthesized fr s" "judge_all fr en profiles ?selected False s = (Some False, s')"
    using assms(1,2) by (auto simp: select_round_def Let_def split: if_splits prod.splits option.splits)
  note quiet = judge_all_quiet [OF pub(2)]
  have el: "p \<in> fst ` set (eligible_points s)" "sf_cap fr > Fin 0 \<Longrightarrow> is_off_cap_safe p (sf_cap fr)"
    using synthesized_eligible assms(4) pub(1) by blast+
  obtain k where k: "f2_apply_key p = Some k" "k \<notin> sl_excluded s" using eligible_key [OF el(1)] by blast
  have mem: "p \<in> fst ` set (sl_classified s)" using el(1) by (auto simp: eligible_points_def)
  obtain q where "q \<in> set ?selected" "f2_apply_key q = Some k"
    using unique_covers [of p "synthesized fr s"] assms(4) pub(1) k(1) by blast
  then have aq: "already_qualified fr en s k" using quiet by force
  then obtain x where x: "x \<in> set (sl_classified s)" "f2_apply_key (fst x) = Some k" "point_apply_qualified (fst x)"
    by (auto simp: already_qualified_def pair_approved_def list_ex_iff)
  obtain y where y: "y \<in> set (sl_classified s)" "fst y = p" using mem by blast
  have "x = y"
    using assms(3) x(1,2) y k(1) by (auto simp: keys_of_def distinct_map inj_on_def case_prod_unfold)
  then show ?thesis using k aq quiet el(2) mem x(3) y(2) by auto
qed

lemma loop_publishes:
  assumes "select_loop fr en s = Some (found, s')" and "exact_apply_required fr"
    and "distinct (keys_of (sl_classified s))"
  shows "distinct (keys_of (sl_classified s')) \<and>
    (\<forall>profiles p. found = Some profiles \<longrightarrow> p \<in> profile_set profiles \<longrightarrow>
      (\<exists>k. f2_apply_key p = Some k \<and> k \<notin> sl_excluded s' \<and> point_apply_qualified p \<and> already_qualified fr en s' k \<and>
        (sf_cap fr > Fin 0 \<longrightarrow> is_off_cap_safe p (sf_cap fr)) \<and> p \<in> fst ` set (sl_classified s')))"
    (is "?goal fr en s found s'")
proof -
  have "exact_apply_required fr \<longrightarrow> distinct (keys_of (sl_classified s)) \<longrightarrow> ?goal fr en s (fst (found, s')) (snd (found, s'))"
  proof (rule select_loop.raw_induct [OF _ assms(1)])
    fix loop :: "selection_frame \<Rightarrow> 'a forge_engines \<Rightarrow> 'a selection \<Rightarrow> (forge_profiles option \<times> 'a selection) option"
      and fr en s r
    assume IH: "\<And>fr en s r. loop fr en s = Some r \<Longrightarrow> exact_apply_required fr \<longrightarrow>
        distinct (keys_of (sl_classified s)) \<longrightarrow> ?goal fr en s (fst r) (snd r)"
      and run: "(case select_round fr en s of (Again, s') \<Rightarrow> loop fr en s'
        | (Publish profiles, s') \<Rightarrow> Some (Some profiles, s') | (Halt, s') \<Rightarrow> Some (None, s')) = Some r"
    obtain e s1 where e: "select_round fr en s = (e, s1)" by (cases "select_round fr en s")
    show "exact_apply_required fr \<longrightarrow> distinct (keys_of (sl_classified s)) \<longrightarrow> ?goal fr en s (fst r) (snd r)"
    proof (intro impI)
      assume h: "exact_apply_required fr" "distinct (keys_of (sl_classified s))"
      note d = round_distinct [OF e h(2)]
      show "?goal fr en s (fst r) (snd r)"
      proof (cases e)
        case Again
        then have "loop fr en s1 = Some r" using run e by simp
        then show ?thesis using IH [of fr en s1 r] h(1) d by blast
      next
        case (Publish profiles)
        then have r: "r = (Some profiles, s1)" using run e by simp
        show ?thesis using round_publishes [OF e [unfolded Publish] h] d by (simp add: r)
      next
        case Halt
        then have "r = (None, s1)" using run e by simp
        then show ?thesis using d by simp
      qed
    qed
  qed
  then show ?thesis using assms(2,3) by simp
qed

end
