(* ===== verification/ForgeHost.thy ===== *)
theory ForgeHost
  imports ForgeSelect
begin

text \<open>
  The selection loop of \<open>ForgeSelect\<close> over the real machine: its engines are the gate of Apply
  (\<open>F2Qualify\<close>), the power calibration (\<open>F2Calibrate\<close>), the evidence log, the safety record and the
  condemnation ledger on one disk and one card, as \<open>measure_multiclock_undervolt_forge\<close> calls them. They keep
  the contract of the loop: the log stays readable and grows, and a gate that qualifies a pair leaves the
  Endurance evidence that the loop looks for.
\<close>

section \<open>The engines over the real disk and card\<close>

record ('x, 'g) forge_host =
  ho_env :: "('x, 'g) f2_env"
  ho_ledger :: "condemnation_event codec"
  ho_run_id :: string
  ho_gpu_key :: string
  ho_run_scoped :: bool
  ho_sane :: vf_curve
  ho_limits :: positive_offset_limits
  ho_goldens :: "'x render_goldens option"
  ho_policy :: forge_policy
  ho_stop :: "nat \<Rightarrow> bool"

definition kind_apply_gate_silent :: string where "kind_apply_gate_silent = ''apply-gate-silent-error''"

definition apply_request_of ::
  "('x, 'g) forge_host \<Rightarrow> apply_pair \<Rightarrow> i32 \<Rightarrow> f32 option \<Rightarrow> ('x, 'g) apply_request" where
  "apply_request_of h k offset limit =
     \<lparr>aq_env = ho_env h, aq_ledger = ho_ledger h, aq_run_id = ho_run_id h, aq_gpu_key = ho_gpu_key h,
      aq_ledger_run_scoped = ho_run_scoped h, aq_sane = ho_sane h, aq_limits = ho_limits h, aq_target_mhz = fst k,
      aq_apply_mv = snd k, aq_reference_offset_mhz = offset, aq_dwell_ms = pol_apply_texture_dwell_ms (ho_policy h),
      aq_endurance_ms = pol_apply_endurance_dwell_ms (ho_policy h), aq_goldens = ho_goldens h, aq_ceiling_w = limit,
      aq_stop = ho_stop h\<rparr>"

definition calibration_request_of ::
  "('x, 'g) forge_host \<Rightarrow> apply_pair \<Rightarrow> i32 \<Rightarrow> f32 option \<Rightarrow> ('x, 'g) calibration_request" where
  "calibration_request_of h k offset limit =
     \<lparr>cl_env = ho_env h, cl_ledger = ho_ledger h, cl_run_id = ho_run_id h, cl_gpu_key = ho_gpu_key h,
      cl_ledger_run_scoped = ho_run_scoped h, cl_sane = ho_sane h, cl_limits = ho_limits h, cl_target_mhz = fst k,
      cl_apply_mv = snd k, cl_reference_offset_mhz = offset, cl_power_limit_w = limit,
      cl_dwell_ms = pol_discovery_dwell_ms (ho_policy h), cl_stop = ho_stop h\<rparr>"

definition real_engines :: "('x, 'g) forge_host \<Rightarrow> 'g gate_run forge_engines" where
  "real_engines h =
     \<lparr>fe_gate = (\<lambda>k offset limit. run_apply_qualification (apply_request_of h k offset limit)),
      fe_calibrate = (\<lambda>k offset limit. run_power_calibration (calibration_request_of h k offset limit)),
      fe_observations = (\<lambda>s. load_observations (en_observations (ho_env h)) (mc_disk (gr_machine s))),
      fe_record = (\<lambda>s. load_record (cx_record (en_codecs (ho_env h))) (mc_disk (gr_machine s))),
      fe_condemned = (\<lambda>s. scoped_condemned (ho_ledger h) (ho_run_scoped h) (ho_gpu_key h) (ho_run_id h)
        (mc_disk (gr_machine s))),
      fe_quarantine = (\<lambda>k text s. s\<lparr>gr_machine := (gr_machine s)\<lparr>mc_disk :=
        append_condemnation (ho_ledger h) (en_now (ho_env h)) Quarantine kind_apply_gate_silent (Some (ho_gpu_key h))
          (fst k) (snd k) (Some (ho_run_id h)) text (mc_disk (gr_machine s))\<rparr>\<rparr>)\<rparr>"

definition host_frame ::
  "('x, 'g) forge_host \<Rightarrow> f32 \<Rightarrow> (apply_stop \<Rightarrow> string) \<Rightarrow> selection_frame" where
  "host_frame h cap say =
     \<lparr>sf_curve = ho_sane h, sf_gpu_key = ho_gpu_key h, sf_run_id = ho_run_id h, sf_cap = cap, sf_policy = ho_policy h,
      sf_text = say\<rparr>"

section \<open>What a validated dwell proves of its origin\<close>

text \<open>A validated step went through a stable dwell, a confirmed reset and a cleared flag.\<close>

lemma finish_validated:
  assumes "finish_after_write ops r listed s = (r', s')" and "sr_outcome r' = OcValidated"
  shows "sr_reset_ok r' = Some True" and "sr_boot_flag_cleared r'" and "sr_outcome r = OcValidated"
    and "sr_coverage r' = sr_coverage r" and "sr_provenance r' = sr_provenance r"
  using assms
  by (auto simp: finish_after_write_def Let_def is_ok_def split: prod.splits if_splits sum.splits)

lemma step_validated:
  assumes "run_confirmed_f2_step build ops s = (r, s')" and "sr_outcome r = OcValidated"
  shows "\<exists>d s1 s2. op_dwell ops s1 = (d, s2) \<and> dr_outcome d = DoStable \<and> sr_coverage r = dr_coverage d \<and>
    sr_provenance r = (if dr_provenance d \<noteq> None then dr_provenance d else Some build) \<and>
    sr_reset_ok r = Some True \<and> sr_boot_flag_cleared r \<and>
    s1 = snd (op_verify ops (snd (op_apply ops (snd (op_arm ops s)))))"
proof -
  obtain a s1 where arm: "op_arm ops s = (a, s1)" by (cases "op_arm ops s")
  obtain b s2 where app: "op_apply ops s1 = (b, s2)" by (cases "op_apply ops s1")
  obtain v s3 where ver: "op_verify ops s2 = (v, s3)" by (cases "op_verify ops s2")
  obtain d s4 where dw: "op_dwell ops s3 = (d, s4)" by (cases "op_dwell ops s3")
  let ?r0 = "(empty_f2_step_report build)\<lparr>sr_armed := True, sr_applied := True, sr_verify := Some v\<rparr>"
  have no: "sr_outcome (fst (finish_after_write ops r1 listed s5)) \<noteq> OcValidated" if "sr_outcome r1 \<noteq> OcValidated" for r1 listed s5
    using finish_validated(3) [of ops r1 listed s5] that by (metis prod.collapse)
  have run: "run_confirmed_f2_step build ops s =
      (case a of Inl e \<Rightarrow> (case op_reset ops s1 of (reset, s2) \<Rightarrow>
           ((empty_f2_step_report build)\<lparr>sr_reset_ok := Some (is_ok reset), sr_outcome := OcArmFailed e\<rparr>, s2))
       | Inr _ \<Rightarrow> (case b of Inl e \<Rightarrow> finish_after_write ops ((empty_f2_step_report build)\<lparr>sr_armed := True, sr_outcome := OcApplyFailed e\<rparr>) False s2
         | Inr _ \<Rightarrow> if v \<noteq> RaiseVerified then finish_after_write ops (?r0\<lparr>sr_outcome := OcVerifyFailed\<rparr>) False s3
             else (case dr_outcome d of
                DoDeviceLost \<Rightarrow> finish_device_lost ops (populate_f2_dwell_report ?r0 d) s4
              | DoSilentError \<Rightarrow> finish_after_write ops (populate_f2_dwell_report ?r0 d) True s4
              | DoUnstable \<Rightarrow> finish_after_write ops (populate_f2_dwell_report ?r0 d) True s4
              | _ \<Rightarrow> finish_after_write ops (populate_f2_dwell_report ?r0 d) False s4)))"
    by (simp add: run_confirmed_f2_step_def arm app ver dw Let_def split: sum.split f2_dwell_outcome.split)
  have lost: "sr_outcome (fst (finish_device_lost ops r1 s5)) = OcDeviceLost" for r1 s5
    by (simp add: finish_device_lost_def split: prod.split)
  have pop: "sr_outcome (populate_f2_dwell_report ?r0 d) = outcome_of_dwell (dr_outcome d)"
    "sr_coverage (populate_f2_dwell_report ?r0 d) = dr_coverage d"
    "sr_provenance (populate_f2_dwell_report ?r0 d) = (if dr_provenance d \<noteq> None then dr_provenance d else Some build)"
    by (simp_all add: populate_f2_dwell_report_def empty_f2_step_report_def)
  have fin: "fst (run_confirmed_f2_step build ops s) = r" using assms(1) by simp
  have stable: "is_ok a \<and> is_ok b \<and> v = RaiseVerified \<and> dr_outcome d = DoStable"
  proof (rule ccontr)
    assume "\<not> (is_ok a \<and> is_ok b \<and> v = RaiseVerified \<and> dr_outcome d = DoStable)"
    then have "sr_outcome (fst (run_confirmed_f2_step build ops s)) \<noteq> OcValidated"
      unfolding run
      by (cases a; cases b; cases "dr_outcome d")
        (auto simp: is_ok_def no lost pop outcome_of_dwell_def split: prod.split)
    then show False using fin assms(2) by simp
  qed
  then obtain x y where "a = Inr x" "b = Inr y" by (auto simp: is_ok_def)
  then have "finish_after_write ops (populate_f2_dwell_report ?r0 d) False s4 = (r, s')"
    using assms(1) stable unfolding run by simp
  note fv = finish_validated [OF this assms(2)]
  show ?thesis
    using fv stable pop dw by (intro exI [of _ d] exI [of _ s3] exI [of _ s4]) (simp add: arm app ver)
qed

text \<open>
  An observation counts as evidence when its provenance is reproducible: the build names its revision, and
  the dwell names its workload, its adapter and its driver. Both are settled before the run, so a host either
  proves the origin of every dwell whose coverage passed, or (a build of unknown revision, a driver that
  names nothing) of none. A dwell that could not start passes no coverage and needs no origin.
\<close>

definition proven :: "('x, 'g) f2_env \<Rightarrow> single_dwell \<Rightarrow> bool" where
  "proven env sd \<longleftrightarrow> is_reproducible (unwrap_or (sd_provenance sd) (en_build env))"

definition proves_origin :: "('x, 'g) f2_env \<Rightarrow> bool" where
  "proves_origin env \<longleftrightarrow> (\<forall>ms req g. let sd = fst (en_workload env ms req g)
     in is_some_and (sd_coverage sd) (\<lambda>c. cv_verdict c = QPass) \<longrightarrow> proven env sd)"

definition proves_nothing :: "('x, 'g) f2_env \<Rightarrow> bool" where
  "proves_nothing env \<longleftrightarrow> (\<forall>ms req g. let sd = fst (en_workload env ms req g)
     in is_some_and (sd_coverage sd) (\<lambda>c. cv_verdict c = QPass) \<longrightarrow> \<not> proven env sd)"

lemma gate_dwell_from:
  assumes "gate_dwell p stage ms purpose pat k n s = (Inr r, s')" and "sr_outcome r = OcValidated"
  obtains r0 sd anchor target where
    "r = annotate_qualification_report Fsgl4 (Some pat) k n r0" "sr_coverage r0 = sd_coverage sd"
    "\<exists>ms req g. sd = fst (en_workload (gp_env p) ms req g)"
    "sr_provenance r0 = Some (unwrap_or (sd_provenance sd) (en_build (gp_env p)))"
    "sr_reset_ok r0 = Some True" "sr_boot_flag_cleared r0"
    "enforce_voltage_authority (classify_f2_stress_dwell sd target purpose) sd anchor = DoStable"
proof -
  let ?env = "gp_env p" and ?cfg = "gate_cfg p"
  let ?ops = "env_ops ?env ?cfg"
  let ?c = "configure_phase ms purpose (fresh_cursor (gp_curve p) (gp_limits p) (gp_target_mhz p), gr_machine s)"
  obtain sel c1 where sel: "mo_select ?ops 0 ?c = (sel, c1)" by (cases "mo_select ?ops 0 ?c")
  obtain r0 c2 where r0: "run_confirmed_f2_step (en_build ?env) ?ops c1 = (r0, c2)"
    by (cases "run_confirmed_f2_step (en_build ?env) ?ops c1")
  have run: "sel = Inr () \<and> r = annotate_qualification_report Fsgl4 (Some pat) k n r0"
    using assms(1) sel r0 by (auto simp: gate_dwell_def Let_def split: if_splits sum.splits prod.splits)
  have purpose: "rf_purpose (fst c1) = purpose"
    using sel run
    by (auto simp: env_ops_def real_multi_ops_def real_select_def configure_phase_def Let_def split: if_splits)
  have valid: "sr_outcome r0 = OcValidated" using assms(2) run by simp
  obtain d s1 s2 where d: "op_dwell ?ops s1 = (d, s2)" "dr_outcome d = DoStable" "sr_coverage r0 = dr_coverage d"
    "sr_provenance r0 = (if dr_provenance d \<noteq> None then dr_provenance d else Some (en_build ?env))"
    "sr_reset_ok r0 = Some True" "sr_boot_flag_cleared r0"
    "s1 = snd (op_verify ?ops (snd (op_apply ?ops (snd (op_arm ?ops c1)))))"
    using step_validated [OF r0 valid] by blast
  have "rf_purpose (fst s1) = purpose" using d(7) purpose by (simp add: env_ops_def real_multi_ops_def)
  then obtain sd target anchor where sd: "dr_coverage d = sd_coverage sd" "dr_provenance d = sd_provenance sd"
    "dr_outcome d = enforce_voltage_authority (classify_f2_stress_dwell sd target purpose) sd anchor"
    "\<exists>ms req g. sd = fst (en_workload ?env ms req g)"
    using d(1)
    by (auto simp: env_ops_def real_multi_ops_def on_cursor_def real_dwell_def dwell_result_of_def split: prod.splits)
      (metis fst_conv)
  show thesis
    by (rule that [of r0 sd target anchor]) (use run sd d in \<open>auto simp: unwrap_or_def split: option.splits\<close>)
qed

text \<open>A host that proves nothing adds no evidence to the log, whatever its gate answers.\<close>

definition no_new_evidence :: "('x, 'g) f2_env \<Rightarrow> f2_observation \<Rightarrow> bool" where
  "no_new_evidence env ob \<longleftrightarrow> (proves_nothing env \<longrightarrow> \<not> is_current_apply_qualification_evidence ob)"

lemma gate_adds_no_evidence:
  assumes "gate_dwell p stage ms purpose pat k n s = (Inr r, s')" and "oc_coverage (gp_ctx p) = None"
  shows "no_new_evidence (gp_env p) (gate_observation p r)"
  unfolding no_new_evidence_def
proof (intro impI notI)
  assume none: "proves_nothing (gp_env p)" and ev: "is_current_apply_qualification_evidence (gate_observation p r)"
  have valid: "sr_outcome r = OcValidated"
    using ev
    by (cases "sr_outcome r")
      (auto simp: is_current_apply_qualification_evidence_def gate_observation_def observation_from_anchored_step_def
        Let_def map_outcome_def is_validated_def split: if_splits)
  obtain r0 sd anchor target where r0: "r = annotate_qualification_report Fsgl4 (Some pat) k n r0"
    "sr_coverage r0 = sd_coverage sd" "\<exists>ms req g. sd = fst (en_workload (gp_env p) ms req g)"
    "sr_provenance r0 = Some (unwrap_or (sd_provenance sd) (en_build (gp_env p)))"
    by (rule gate_dwell_from [OF assms(1) valid])
  obtain c where c: "sr_coverage r = Some c" "cv_verdict c = QPass"
    using ev assms(2)
    by (auto simp: is_current_apply_qualification_evidence_def gate_observation_def observation_from_anchored_step_def
        Let_def is_some_and_def split: option.splits if_splits)
  then have "is_some_and (sd_coverage sd) (\<lambda>c. cv_verdict c = QPass)"
    using r0(1,2) by (auto simp: annotate_qualification_report_def is_some_and_def split: option.splits)
  then have "\<not> is_reproducible (unwrap_or (sd_provenance sd) (en_build (gp_env p)))"
    using none r0(3) by (auto simp: proves_nothing_def proven_def Let_def)
  moreover have "sr_provenance r = sr_provenance r0"
    using r0(1) by (simp add: annotate_qualification_report_def split: option.split)
  ultimately show False
    using ev r0(4)
    by (simp add: is_current_apply_qualification_evidence_def gate_observation_def observation_from_anchored_step_def
        Let_def has_reproducible_provenance_def is_some_and_def)
qed

section \<open>The log under the engines\<close>

text \<open>The log under a gate, whatever its end: it stays readable, it only grows, and a host that proves nothing
  adds no evidence.\<close>

definition log_grows :: "('x, 'g) f2_env \<Rightarrow> 'g gate_run \<Rightarrow> 'g gate_run \<Rightarrow> bool" where
  "log_grows env s s' \<longleftrightarrow>
     (let c = en_observations env
      in observations_ready c (mc_disk (gr_machine s)) \<longrightarrow>
         observations_ready c (mc_disk (gr_machine s')) \<and>
         (\<exists>obs. load_observations c (mc_disk (gr_machine s')) = load_observations c (mc_disk (gr_machine s)) @ obs \<and>
            (\<forall>ob\<in>set obs. no_new_evidence env ob)))"

lemma log_grows_refl [simp]: "log_grows env s s"
  by (simp add: log_grows_def Let_def)

lemma log_grows_trans: "log_grows env s s1 \<Longrightarrow> log_grows env s1 s' \<Longrightarrow> log_grows env s s'"
  unfolding log_grows_def Let_def by (metis (no_types, lifting) UnE append_assoc set_append)

lemma log_grows_poll [simp]: "log_grows env s (poll s') = log_grows env s s'" "log_grows env (poll s) s' = log_grows env s s'"
  "log_grows env (s\<lparr>gr_executed := n\<rparr>) s' = log_grows env s s'"
  by (simp_all add: log_grows_def Let_def)

lemma gate_dwell_grows:
  assumes "gate_dwell p stage ms purpose pat k n s = (x, s')" and "oc_coverage (gp_ctx p) = None"
  shows "log_grows (gp_env p) s s'"
proof (cases x)
  case (Inl oc)
  then show ?thesis using gate_dwell_Inl(1,2) [OF assms(1) [unfolded Inl]] by (simp add: log_grows_def Let_def)
next
  case (Inr r)
  note run = assms(1) [unfolded Inr]
  show ?thesis
    unfolding log_grows_def Let_def
    using gate_dwell_Inr(1) [OF run] gate_adds_no_evidence [OF run assms(2)] by simp
qed

lemma gate_patterns_grows:
  "gate_patterns p goldens pats k retries clean s = (res, s') \<Longrightarrow> oc_coverage (gp_ctx p) = None \<Longrightarrow>
     log_grows (gp_env p) s s'"
proof (induction p goldens pats k retries clean s rule: gate_patterns.induct)
  case (2 p goldens pat pats k retries clean s)
  let ?d = "gate_dwell p V8Stage (gp_dwell_ms p) (gate_purpose p pat goldens) pat k retries s"
  obtain x s1 where d: "?d = (x, s1)" by (cases ?d)
  note g = gate_dwell_grows [OF d 2(4)]
  show ?case
  proof (cases x)
    case (Inl oc)
    then show ?thesis using 2(3) d g by simp
  next
    case (Inr r)
    note d = d [unfolded Inr]
    show ?thesis
      using 2(3,4) d g 2(1) [OF d [symmetric] refl] 2(2) [OF d [symmetric] refl] log_grows_trans
      by (cases "judge_gate_dwell (gp_exact_apply p) (gp_ceiling_w p) pat retries clean r") auto
  qed
qed simp

lemma gate_grows:
  assumes "gate_anchored_candidate p s = (oc, s')" and none: "oc_coverage (gp_ctx p) = None"
  shows "log_grows (gp_env p) s s'"
  using assms(1)
proof (cases rule: gate_cases)
  case (endurance goldens s1)
  have "log_grows (gp_env p) s1 s'"
    using endurance(4) by (cases rule: endurance_cases) (auto dest: gate_dwell_grows [OF _ none])
  then show ?thesis using gate_patterns_grows [OF endurance(3) none] log_grows_trans by blast
qed (auto dest: gate_patterns_grows [OF _ none])

lemma qualification_grows:
  assumes "run_apply_qualification q s = (summary, s')"
  shows "log_grows (aq_env q) s s'"
proof -
  have env: "gp_env (apply_gate_params q cand) = aq_env q" "oc_coverage (gp_ctx (apply_gate_params q cand)) = None" for cand
    by (simp_all add: apply_gate_params_def)
  show ?thesis
    using assms
    by (auto simp: run_apply_qualification_def Let_def env dest!: gate_grows split: if_splits sum.splits option.splits prod.splits)
qed

lemma append_counted_grows:
  "append_counted c obs n d = (res, d') \<Longrightarrow> observations_ready c d \<Longrightarrow>
     observations_ready c d' \<and> (\<exists>added. load_observations c d' = load_observations c d @ added \<and> set added \<subseteq> set obs)"
proof (induction obs arbitrary: n d)
  case (Cons ob obs)
  obtain r d1 where a: "append_observation c ob d = (r, d1)" by (cases "append_observation c ob d")
  show ?case
  proof (cases r)
    case (Inl e)
    then show ?thesis using Cons.prems a obs_log.add_err [of c ob d e] by simp
  next
    case (Inr u)
    then have "append_counted c obs (n + 1) d1 = (res, d')" using Cons.prems(1) a by simp
    moreover have "observations_ready c d1" "load_observations c d1 = load_observations c d @ [ob]"
      using obs_log.add_ok [OF Cons.prems(2), of ob] obs_log.add_intact [OF Cons.prems(2), of ob] a Inr by auto
    ultimately show ?thesis using Cons.IH [of "n + 1" d1] by fastforce
  qed
qed simp

lemma step_log: "calibration_step q cand c = (r, c') \<Longrightarrow> same_log (mc_disk (snd c)) (mc_disk (snd c'))"
  unfolding calibration_step_def by (rule env_step_log)

lemma gate_log_trans: "same_log d d1 \<Longrightarrow> same_log d1 d' \<Longrightarrow> same_log d d'"
  by (simp add: same_log_def)

lemma recheck_log:
  "recheck_power q cand attempts polls c = (attempts', polls', c') \<Longrightarrow> same_log (mc_disk (snd c)) (mc_disk (snd c'))"
proof (induction q cand attempts polls c rule: recheck_power.induct)
  case (1 q cand attempts polls c)
  obtain r c1 where step: "calibration_step q cand c = (r, c1)" by (cases "calibration_step q cand c")
  have refl: "same_log d d" for d by (simp add: same_log_def)
  show ?case
  proof (cases "length attempts < power_p99_max_attempts \<and> \<not> cl_stop q polls")
    case False
    then show ?thesis using 1(2) refl by (subst (asm) recheck_power.simps) (auto split: if_splits)
  next
    case True
    show ?thesis
    proof (cases "hard_failure (sr_outcome r) \<or> power_recheck_resolved (attempts @ [r]) (cl_power_limit_w q) None")
      case stop: True
      then show ?thesis using 1(2) True step step_log [OF step] by (subst (asm) recheck_power.simps) simp
    next
      case again: False
      then have "recheck_power q cand (attempts @ [r]) (polls + 1) c1 = (attempts', polls', c')"
        using 1(2) True step by (subst (asm) recheck_power.simps) simp
      then show ?thesis
        using 1(1) [OF _ _ step [symmetric]] True again gate_log_trans [OF step_log [OF step]] by simp
    qed
  qed
qed

lemma calibration_log:
  assumes "calibration_attempts q cand s = (rechecked, attempts, polls, m)"
  shows "same_log (mc_disk (gr_machine s)) (mc_disk m)"
proof -
  obtain r c where step: "calibration_step q cand (calibration_cursor q cand, gr_machine s) = (r, c)"
    by (cases "calibration_step q cand (calibration_cursor q cand, gr_machine s)")
  have "m = snd c \<or> (\<exists>polls' attempts' c'. recheck_power q cand [r] (gr_polls s) c = (attempts', polls', c') \<and> m = snd c')"
    using assms step by (auto simp: calibration_attempts_def Let_def split: if_splits prod.splits)
  then show ?thesis
  proof (elim disjE exE conjE)
    assume "m = snd c"
    then show ?thesis using step_log [OF step] by simp
  next
    fix polls' attempts' c'
    assume c': "recheck_power q cand [r] (gr_polls s) c = (attempts', polls', c')" "m = snd c'"
    show ?thesis using gate_log_trans [OF step_log [OF step] recheck_log [OF c'(1)]] c'(2) by simp
  qed
qed

lemma calibration_grows:
  assumes "run_power_calibration q s = (summary, s')"
  shows "log_grows (cl_env q) s s'"
proof (cases "\<not> cl_stop q (gr_polls s) \<and> (\<exists>cand. calibration_admitted q (gr_machine s) = Inr cand)")
  case False
  then show ?thesis
    using assms by (auto simp: run_power_calibration_def Let_def split: if_splits sum.splits)
next
  case True
  then obtain cand where cand: "calibration_admitted q (gr_machine s) = Inr cand" by blast
  obtain rechecked attempts polls m where a: "calibration_attempts q cand (poll s) = (rechecked, attempts, polls, m)"
    by (cases "calibration_attempts q cand (poll s)")
  obtain conservative oc rs where j: "judge_calibration (cl_power_limit_w q) rechecked attempts = (conservative, oc, rs)"
    by (cases "judge_calibration (cl_power_limit_w q) rechecked attempts")
  let ?c = "en_observations (cl_env q)"
  obtain res d where ap: "append_counted ?c (map (calibration_observation q cand) rs) 0 (mc_disk m) = (res, d)"
    by (cases "append_counted ?c (map (calibration_observation q cand) rs) 0 (mc_disk m)")
  have disk: "mc_disk (gr_machine s') = d"
    using assms True cand a j ap by (cases res) (auto simp: run_power_calibration_def Let_def)
  have log: "same_log (mc_disk (gr_machine s)) (mc_disk m)" using calibration_log [OF a] by simp
  have none: "\<forall>ob\<in>set (map (calibration_observation q cand) rs). no_new_evidence (cl_env q) ob"
    by (auto simp: no_new_evidence_def is_current_apply_qualification_evidence_def calibration_observation_def
        calibration_context_def observation_from_anchored_step_def Let_def)
  show ?thesis
    unfolding log_grows_def Let_def
    using append_counted_grows [OF ap] same_log_ready [OF log] same_log_load [OF log] disk none by (metis subsetD)
qed

lemma quarantine_log: "same_log d (append_condemnation c now sev kind gpu target mv run why d)"
  by (auto simp: append_condemnation_def ledger_append_def append_line_def same_log_def fs_append_def fs_defs
      ledger_file_def observations_file_def split: option.split)

section \<open>The evidence a qualified gate leaves\<close>

lemma exact_anchor:
  assumes "plan_power_calibration_candidate sane target mv reference lims = Inr cand" and "distinct (map pt_index sane)"
  shows "po_voltage_mv (ap_anchor cand) = mv"
proof -
  obtain p where p: "find (\<lambda>p. pt_mv p = mv \<and> pt_mhz p < target) sane = Some p"
    "plan_anchored sane (pt_index p) target reference lims = Inr cand"
    using assms(1)
    by (auto simp: plan_power_calibration_candidate_def select_exact_apply_anchor_bin_def split: option.splits sum.splits)
  have mem: "p \<in> set sane" "pt_mv p = mv" using p(1) by (auto simp: find_Some_iff)
  define anchor where "anchor = ap_anchor cand"
  have "plan_bounded_positive_offset sane (pt_index p) target reference lims = Inr anchor"
    using plan_anchored_Inr [OF p(2)] by (simp add: anchor_def)
  then obtain q where q: "find (\<lambda>q. pt_index q = pt_index p) sane = Some q" "po_voltage_mv anchor = pt_mv q"
    by (auto simp: plan_bounded_positive_offset_def Let_def split: if_splits option.splits)
  have "q \<in> set sane" "pt_index q = pt_index p" using q(1) by (auto simp: find_Some_iff)
  then have "q = p" using assms(2) mem(1) by (auto simp: distinct_map inj_on_def)
  then show ?thesis using q(2) mem(2) by (simp add: anchor_def)
qed

text \<open>A validated dwell of the gate is evidence for the pair, under the pattern it ran.\<close>

lemma gate_dwell_evidence:
  assumes "gate_dwell p stage ms purpose pat k n s = (Inr r, s')" and "sr_outcome r = OcValidated"
    and "is_qualification purpose" and "proves_origin (gp_env p)"
    and "oc_evidence_kind (gp_ctx p) = ApplyQualification"
    and "oc_qualification_contract (gp_ctx p) = Some f2_qualification_contract_version"
  shows "is_current_apply_qualification_evidence (gate_observation p r)"
    and "is_some_and (fo_coverage (gate_observation p r)) (\<lambda>c. cv_pattern c = Some pat)"
proof -
  obtain r0 sd anchor target where run: "r = annotate_qualification_report Fsgl4 (Some pat) k n r0"
    and sd: "sr_coverage r0 = sd_coverage sd" "\<exists>ms req g. sd = fst (en_workload (gp_env p) ms req g)"
      "sr_provenance r0 = Some (unwrap_or (sd_provenance sd) (en_build (gp_env p)))"
      "enforce_voltage_authority (classify_f2_stress_dwell sd target purpose) sd anchor = DoStable"
    and d: "sr_reset_ok r0 = Some True" "sr_boot_flag_cleared r0"
    by (rule gate_dwell_from [OF assms(1,2)])
  have cov: "is_some_and (sd_coverage sd) (\<lambda>c. cv_verdict c = QPass)"
    using sd(4) assms(3) stable_dwell_exact [of sd target purpose anchor] by (cases purpose) auto
  then obtain c where c: "sr_coverage r0 = Some c" "cv_verdict c = QPass"
    using sd(1) by (auto simp: is_some_and_def split: option.splits)
  have prov: "\<exists>pv. sr_provenance r0 = Some pv \<and> is_reproducible pv"
    using sd(2,3) cov assms(4) by (auto simp: proves_origin_def proven_def Let_def)
  have fields: "sr_provenance r = sr_provenance r0" "sr_reset_ok r = sr_reset_ok r0"
    "sr_boot_flag_cleared r = sr_boot_flag_cleared r0"
    "sr_coverage r = Some (c\<lparr>cv_strength := Fsgl4, cv_pattern := Some pat, cv_pass_index := k, cv_retry_count := n\<rparr>)"
    using run c(1) by (simp_all add: annotate_qualification_report_def)
  show "is_current_apply_qualification_evidence (gate_observation p r)"
    using assms(2,5,6) fields c(2) prov d
    by (auto simp: is_current_apply_qualification_evidence_def gate_observation_def observation_from_anchored_step_def
        Let_def map_outcome_def is_validated_def has_proven_cleanup_def has_reproducible_provenance_def is_some_and_def)
  show "is_some_and (fo_coverage (gate_observation p r)) (\<lambda>c. cv_pattern c = Some pat)"
    using fields by (simp add: gate_observation_def observation_from_anchored_step_def Let_def is_some_and_def)
qed

lemma gate_observation_pair:
  "fo_run_id (gate_observation (apply_gate_params q cand) r) = aq_run_id q"
  "fo_target_mhz (gate_observation (apply_gate_params q cand) r) = aq_target_mhz q"
  "fo_anchor_mv (gate_observation (apply_gate_params q cand) r) = po_voltage_mv (ap_anchor cand)"
  "fo_gpu_key (gate_observation (apply_gate_params q cand) r) = Some (aq_gpu_key q)"
  by (simp_all add: gate_observation_def apply_gate_params_def observation_from_anchored_step_def Let_def)

lemma qualified_leaves_endurance:
  assumes "run_apply_qualification q s = (summary, s')" and "as_qualified summary"
    and "observations_ready (en_observations (aq_env q)) (mc_disk (gr_machine s))"
    and "proves_origin (aq_env q)" and "distinct (map pt_index (aq_sane q))"
  shows "point_has_current_endurance_qualification
    (load_observations (en_observations (aq_env q)) (mc_disk (gr_machine s'))) (aq_run_id q) (aq_target_mhz q) (aq_apply_mv q)
    (aq_gpu_key q)"
proof -
  have no: "\<not> as_qualified (apply_refused b why)" for b why by (simp add: apply_refused_def)
  obtain cand oc where plan: "plan_power_calibration_candidate (aq_sane q) (aq_target_mhz q) (aq_apply_mv q)
      (aq_reference_offset_mhz q) (aq_limits q) = Inr cand"
    and gate: "gate_anchored_candidate (apply_gate_params q cand) ((poll s)\<lparr>gr_executed := 0\<rparr>) = (oc, s')"
    and sum: "summary = apply_summary_of oc (gr_executed s')"
    using assms(1,2) no
    by (auto simp: run_apply_qualification_def Let_def split: if_splits sum.splits option.splits prod.splits)
  let ?p = "apply_gate_params q cand"
  have oc: "oc = Qualified" using assms(2) sum by (cases oc) (simp_all add: apply_summary_of_def)
  have p: "gp_env ?p = aq_env q" "gp_exact_apply ?p" "oc_evidence_kind (gp_ctx ?p) = ApplyQualification"
    "oc_qualification_contract (gp_ctx ?p) = Some f2_qualification_contract_version" "oc_coverage (gp_ctx ?p) = None"
    by (simp_all add: apply_gate_params_def)
  show ?thesis
    using gate [unfolded oc]
  proof (cases rule: gate_cases)
    case (stopped goldens)
    then show ?thesis using gate_patterns_told by blast
  next
    case (endurance goldens s1)
    have ready: "gate_ready ?p s1"
      using gate_patterns_grows [OF endurance(3)] assms(3) by (auto simp: log_grows_def Let_def p)
    show ?thesis
      using endurance(4)
    proof (cases rule: endurance_cases)
      case none
      then show ?thesis using gate_dwell_Inl(4) [OF none] by auto
    next
      case (dwelt r s2)
      then have ok: "sr_outcome r = OcValidated" by auto
      note ev = gate_dwell_evidence [OF dwelt(1) ok _ assms(4) [folded p(1)] p(3,4)]
      have "gate_log ?p s' = gate_log ?p s1 @ [gate_observation ?p r]"
        using gate_dwell_Inr(1) [OF dwelt(1) ready] dwelt(2) by simp
      then have "gate_observation ?p r \<in> set (load_observations (en_observations (aq_env q)) (mc_disk (gr_machine s')))"
        by (simp add: p)
      then show ?thesis
        using ev exact_anchor [OF plan assms(5)] unfolding point_has_current_endurance_qualification_def
        by (auto simp: gate_observation_pair intro!: bexI [of _ "gate_observation ?p r"])
    qed
  qed (use p in auto)
qed

text \<open>
  What the loop relies on: every bin of the curve has its own index, the log can be read, and the host either
  proves every passing dwell, or proves none and the log holds no evidence of this run (a run resumed by a
  build that lost its revision would hold some).
\<close>

definition host_inv :: "('x, 'g) forge_host \<Rightarrow> 'g gate_run \<Rightarrow> bool" where
  "host_inv h s \<longleftrightarrow>
     distinct (map pt_index (ho_sane h)) \<and> observations_ready (en_observations (ho_env h)) (mc_disk (gr_machine s)) \<and>
     (proves_origin (ho_env h) \<or>
      proves_nothing (ho_env h) \<and>
      (\<forall>ob\<in>set (load_observations (en_observations (ho_env h)) (mc_disk (gr_machine s))).
         fo_run_id ob = ho_run_id h \<longrightarrow> \<not> is_current_apply_qualification_evidence ob))"

lemma host_grows:
  assumes "log_grows (ho_env h) s s'" and "host_inv h s"
  shows "host_inv h s'" and "set (fe_observations (real_engines h) s) \<subseteq> set (fe_observations (real_engines h) s')"
proof -
  let ?log = "\<lambda>s. load_observations (en_observations (ho_env h)) (mc_disk (gr_machine s))"
  obtain obs where ready: "observations_ready (en_observations (ho_env h)) (mc_disk (gr_machine s'))"
    and obs: "?log s' = ?log s @ obs" "\<forall>ob\<in>set obs. no_new_evidence (ho_env h) ob"
    using assms unfolding log_grows_def Let_def host_inv_def by blast
  show "host_inv h s'"
    unfolding host_inv_def obs(1)
    using assms(2) ready obs(2) by (auto simp: host_inv_def no_new_evidence_def)
  show "set (fe_observations (real_engines h) s) \<subseteq> set (fe_observations (real_engines h) s')"
    using obs(1) by (simp add: real_engines_def)
qed

lemma p95_unread:
  assumes "\<forall>ob\<in>set obs. fo_run_id ob = run \<longrightarrow> \<not> is_current_apply_qualification_evidence ob"
  shows "current_apply_qualification_p95_clock_at_anchor obs run target mv gpu = None"
proof -
  have "filter (at_apply_pair is_current_apply_qualification_pass (Some run) target mv gpu) obs = []"
    using assms
    by (auto simp: filter_empty_conv at_apply_pair_def is_none_or_def is_current_apply_qualification_pass_def)
  then show ?thesis
    by (simp add: current_apply_qualification_p95_clock_at_anchor_def opt_bind_def no_patterns_def
        required_qualification_patterns_def)
qed

lemma real_gate: "fe_gate (real_engines h) k offset limit = run_apply_qualification (apply_request_of h k offset limit)"
  and real_calibrate: "fe_calibrate (real_engines h) k offset limit = run_power_calibration (calibration_request_of h k offset limit)"
  by (simp_all add: real_engines_def)

lemma real_gate_settles:
  assumes "host_inv h m" and "fe_gate (real_engines h) k offset limit m = (r, m')" and "as_qualified r"
  shows "gate_settled (host_frame h cap say) (real_engines h) k m'"
proof -
  let ?q = "apply_request_of h k offset limit"
  have run: "run_apply_qualification ?q m = (r, m')" and env: "aq_env ?q = ho_env h"
    using assms(2) by (simp_all add: real_gate apply_request_of_def)
  have "host_inv h m'" using host_grows(1) [OF _ assms(1)] qualification_grows [OF run] env by simp
  then consider "proves_origin (ho_env h)"
    | "\<forall>ob\<in>set (load_observations (en_observations (ho_env h)) (mc_disk (gr_machine m'))).
         fo_run_id ob = ho_run_id h \<longrightarrow> \<not> is_current_apply_qualification_evidence ob"
    unfolding host_inv_def by blast
  then show ?thesis
  proof cases
    case 1
    then show ?thesis
      using qualified_leaves_endurance [OF run assms(3)] assms(1)
      by (simp add: apply_request_of_def host_inv_def real_engines_def host_frame_def gate_settled_def)
  next
    case 2
    show ?thesis
      using p95_unread [OF 2] by (simp add: gate_settled_def real_engines_def host_frame_def)
  qed
qed

interpretation real_forge: forge_contract "host_frame h cap say" "real_engines h" "host_inv h" for h cap say
proof (unfold_locales, goal_cases)
  case (1 m k offset limit r m')
  then have "log_grows (ho_env h) m m'"
    using qualification_grows [of "apply_request_of h k offset limit" m r m'] by (simp add: real_gate apply_request_of_def)
  then show ?case using host_grows 1(1) by blast
next
  case (2 m k offset limit r m')
  then show ?case by (rule real_gate_settles)
next
  case (3 m k offset limit cal m')
  then have "log_grows (ho_env h) m m'"
    using calibration_grows [of "calibration_request_of h k offset limit" m cal m'] by (simp add: real_calibrate calibration_request_of_def)
  then show ?case using host_grows 3(1) by blast
next
  case (4 m k why)
  let ?m = "fe_quarantine (real_engines h) k why m"
  have "same_log (mc_disk (gr_machine m)) (mc_disk (gr_machine ?m))"
    by (simp add: real_engines_def quarantine_log)
  then have "log_grows (ho_env h) m ?m"
    using same_log_ready same_log_load by (simp add: log_grows_def Let_def)
  then show ?case using host_grows 4 by blast
qed

section \<open>Properties\<close>

definition gate_published ::
  "f2_observation list \<Rightarrow> string option \<Rightarrow> string \<Rightarrow> power_sweep_point \<Rightarrow> power_sweep_point \<Rightarrow> bool" where
  "gate_published obs run gpu q q' \<longleftrightarrow>
     (\<exists>mv d w. ps_vf_table_voltage_mv q = Some mv \<and> ps_power_p99_w q = Some d \<and>
        complete_apply_gate_p99_at_anchor obs run (point_target q) mv gpu = Some w \<and>
        ps_power_p99_w q' = Some (f32_max d w) \<and> f2_apply_key q' = f2_apply_key q \<and>
        point_apply_qualified q' = point_apply_qualified q)"

lemma publish_set_ok:
  "publish_set_power obs run gpu ps = (Inr n, ps') \<Longrightarrow> length ps' = length ps \<and>
     (\<forall>q'. Some q' \<in> set ps' \<longrightarrow> (\<exists>q. Some q \<in> set ps \<and> gate_published obs run gpu q q'))"
proof (induction ps arbitrary: n ps')
  case (Cons x ps)
  show ?case
  proof (cases x)
    case None
    then obtain r qs where "publish_set_power obs run gpu ps = (Inr r, qs)" "ps' = None # qs"
      using Cons.prems by (auto split: prod.splits)
    then show ?thesis using Cons.IH [of r qs] by auto
  next
    case (Some q)
    then obtain changed q' r qs where q: "publish_point_power obs run gpu q = Inr (changed, q')"
      "publish_set_power obs run gpu ps = (Inr r, qs)" "ps' = Some q' # qs"
      using Cons.prems by (auto split: sum.splits prod.splits) (metis map_sum.simps(1) old.sum.exhaust sum.distinct(1))
    have "gate_published obs run gpu q q'"
      using q(1)
      by (auto simp: gate_published_def publish_point_power_def opt_filter_def opt_bind_def Let_def f2_apply_key_def
          point_apply_qualified_def split: option.splits if_splits)
    then show ?thesis using Cons.IH [OF q(2)] q(3) Some by auto
  qed
qed simp

text \<open>C10: a forge publishes only what it has proven. When the selection ends, either the profiles that stood
  before are untouched, or every profile that stands now names an exact pair which was not excluded, which
  passed the gate of the current contract, whose Endurance evidence and whose complete gate belong to this
  run, and which stayed below the power cap; the power shown is the greater of its calibrated power and the
  complete gate's.\<close>

theorem forge_publishes_only_proven:
  assumes "run_selection fr en classified m aborted retain prog = Some (prog', s)" and "exact_apply_required fr"
    and "distinct (keys_of classified)"
  shows "profiles_of prog' = profiles_of prog \<or>
    (\<forall>q. Some q \<in> set (profiles_of prog') \<longrightarrow>
      (\<exists>p k d w. f2_apply_key q = Some k \<and> f2_apply_key p = Some k \<and> p \<in> fst ` set (sl_classified s) \<and>
        k \<notin> sl_excluded s \<and> point_apply_qualified q \<and>
        point_has_current_endurance_qualification (fe_observations en (sl_machine s)) (sf_run_id fr) (fst k) (snd k)
          (sf_gpu_key fr) \<and>
        complete_apply_gate_p99_at_anchor (fe_observations en (sl_machine s)) (Some (sf_run_id fr)) (fst k) (snd k)
          (sf_gpu_key fr) = Some w \<and>
        ps_power_p99_w p = Some d \<and> ps_power_p99_w q = Some (f32_max d w) \<and>
        (sf_cap fr > Fin 0 \<longrightarrow> is_off_cap_safe p (sf_cap fr))))"
proof -
  obtain found where loop: "select_loop fr en (start_selection fr classified m aborted retain) = Some (found, s)"
    and prog': "prog' = conclude_selection fr en found s prog"
    using assms(1) by (auto simp: run_selection_def split: option.splits)
  have d: "distinct (keys_of (sl_classified (start_selection fr classified m aborted retain)))"
    using assms(3) by (simp add: start_selection_def)
  note pub = loop_publishes [OF loop assms(2) d, THEN conjunct2, rule_format]
  let ?obs = "fe_observations en (sl_machine s)"
  show ?thesis
  proof (cases "\<exists>profiles n ps. found = Some profiles \<and>
      publish_set_power ?obs (Some (sf_run_id fr)) (sf_gpu_key fr) (profile_list profiles) = (Inr n, ps)")
    case False
    then have "profiles_of prog' = profiles_of prog"
      using prog' by (auto simp: conclude_selection_def publish_profiles_def profiles_of_def Let_def split: option.splits sum.splits prod.splits)
    then show ?thesis ..
  next
    case True
    then obtain profiles n ps where f: "found = Some profiles"
      "publish_set_power ?obs (Some (sf_run_id fr)) (sf_gpu_key fr) (profile_list profiles) = (Inr n, ps)" by blast
    note ok = publish_set_ok [OF f(2)]
    obtain a b c where ps: "ps = [a, b, c]"
      using ok by (auto simp: profile_list_def length_Suc_conv numeral_3_eq_3)
    have of': "profiles_of prog' = ps"
      using prog' f by (simp add: conclude_selection_def publish_profiles_def profiles_of_def Let_def ps)
    show ?thesis
    proof (intro disjI2 allI impI)
      fix q assume "Some q \<in> set (profiles_of prog')"
      then obtain p mv dd w where p: "p \<in> profile_set profiles" "ps_vf_table_voltage_mv p = Some mv" "ps_power_p99_w p = Some dd"
        "complete_apply_gate_p99_at_anchor ?obs (Some (sf_run_id fr)) (point_target p) mv (sf_gpu_key fr) = Some w"
        "ps_power_p99_w q = Some (f32_max dd w)" "f2_apply_key q = f2_apply_key p"
        "point_apply_qualified q = point_apply_qualified p"
        using ok unfolding of' profile_set_list gate_published_def by blast
      have k: "f2_apply_key p = Some (point_target p, mv)" using p(2) by (simp add: f2_apply_key_def point_target_def)
      show "\<exists>p k d w. f2_apply_key q = Some k \<and> f2_apply_key p = Some k \<and> p \<in> fst ` set (sl_classified s) \<and>
        k \<notin> sl_excluded s \<and> point_apply_qualified q \<and>
        point_has_current_endurance_qualification ?obs (sf_run_id fr) (fst k) (snd k) (sf_gpu_key fr) \<and>
        complete_apply_gate_p99_at_anchor ?obs (Some (sf_run_id fr)) (fst k) (snd k) (sf_gpu_key fr) = Some w \<and>
        ps_power_p99_w p = Some d \<and> ps_power_p99_w q = Some (f32_max d w) \<and>
        (sf_cap fr > Fin 0 \<longrightarrow> is_off_cap_safe p (sf_cap fr))"
        using pub [OF f(1) p(1)] k p(3-7)
        by (intro exI [of _ p] exI [of _ "(point_target p, mv)"] exI [of _ dd] exI [of _ w])
          (auto simp: already_qualified_def)
    qed
  qed
qed

text \<open>C24: the selection comes to an end. Over the real engines, from whatever points it is given, the loop
  returns, provided that every bin of the curve has its own index, that the evidence log can be read, and
  that the host is consistent about the origin of its measurements: either every workload that passes its
  coverage reports a reproducible origin (the build knows its revision and the driver names itself), or none
  does and the log holds no evidence of this run yet. A dwell that could not start, which reports no origin,
  passes no coverage and is no obstacle.\<close>

theorem selection_returns:
  assumes "distinct (map pt_index (ho_sane h))"
    and "observations_ready (en_observations (ho_env h)) (mc_disk (gr_machine (sl_machine s)))"
    and "proves_origin (ho_env h) \<or>
      proves_nothing (ho_env h) \<and>
      (\<forall>ob\<in>set (load_observations (en_observations (ho_env h)) (mc_disk (gr_machine (sl_machine s)))).
         fo_run_id ob = ho_run_id h \<longrightarrow> \<not> is_current_apply_qualification_evidence ob)"
  shows "\<exists>found s'. select_loop (host_frame h cap say) (real_engines h) s = Some (found, s')"
proof -
  let ?keys = "{k. Some k \<in> set (keys_of (sl_classified s))}"
  let ?T = "fst ` ?keys" and ?V = "snd ` ?keys \<union> set (bins_of (ho_sane h))"
  have "finite (set (keys_of (sl_classified s)))" by simp
  then have "finite (the ` set (keys_of (sl_classified s)))" by blast
  then have fin: "finite ?keys" by (rule rev_finite_subset) force
  have inv: "host_inv h (sl_machine s)" using assms unfolding host_inv_def by blast
  have "k \<in> ?T \<times> ?V" if "Some k \<in> set (keys_of (sl_classified s))" for k
    using that by (cases k) force
  moreover have "sf_curve (host_frame h cap say) = ho_sane h" by (simp add: host_frame_def)
  ultimately have "\<exists>r. select_loop (host_frame h cap say) (real_engines h) s = Some r"
    using inv fin by (intro real_forge.loop_returns [where T = ?T and V = ?V]) (simp_all add: real_forge.boxed_def)
  then show ?thesis by force
qed

definition bench_host :: "f2_observation codec \<Rightarrow> (unit, toy_card) forge_host" where
  "bench_host c =
     \<lparr>ho_env = bench_env c, ho_ledger = \<lparr>enc = (\<lambda>_. None), dec = (\<lambda>_. None)\<rparr>, ho_run_id = ''run'', ho_gpu_key = ''gpu'',
      ho_run_scoped = False, ho_sane = toy_curve, ho_limits = hardware_limits toy_curve 1950,
      ho_goldens = Some bench_goldens, ho_policy = f2_policy StandardMode, ho_stop = (\<lambda>_. False)\<rparr>"

definition bench_selection :: "toy_card gate_run selection" where
  "bench_selection =
     \<lparr>sl_machine = bench_run (\<lambda>_. None) 0 0, sl_classified = [(sample_candidate, Fin 1)], sl_excluded = {},
      sl_override = None, sl_aborted = False, sl_retain = False\<rparr>"

theorem selection_returns_witness:
  "\<exists>found s'. select_loop (host_frame (bench_host (two_codec (sample_failure 840) (sample_failure 850))) (Fin 0) (\<lambda>_. []))
     (real_engines (bench_host (two_codec (sample_failure 840) (sample_failure 850)))) bench_selection = Some (found, s')"
proof (rule selection_returns)
  let ?c = "two_codec (sample_failure 840) (sample_failure 850)"
  have "proves_origin (bench_env ?c)"
    by (simp add: proves_origin_def proven_def Let_def bench_env_def toy_env_def bench_dwell_def toy_dwell_def sample_reproducible)
  then have "proves_origin (ho_env (bench_host ?c))" by (simp add: bench_host_def)
  then show "proves_origin (ho_env (bench_host ?c)) \<or> proves_nothing (ho_env (bench_host ?c)) \<and>
      (\<forall>ob\<in>set (load_observations (en_observations (ho_env (bench_host ?c))) (mc_disk (gr_machine (sl_machine bench_selection)))).
         fo_run_id ob = ho_run_id (bench_host ?c) \<longrightarrow> \<not> is_current_apply_qualification_evidence ob)" ..
  show "distinct (map pt_index (ho_sane (bench_host ?c)))" by (simp add: bench_host_def toy_curve_def)
  show "observations_ready (en_observations (ho_env (bench_host ?c))) (mc_disk (gr_machine (sl_machine bench_selection)))"
    using two_codec_ready [of "sample_failure 840" "sample_failure 850"]
    by (simp add: bench_host_def bench_env_def toy_env_def bench_selection_def bench_run_def)
qed

definition gated_candidate :: power_sweep_point where
  "gated_candidate = sample_candidate\<lparr>ps_power_p99_w := Some (Fin 100), ps_p95_clock_mhz := Some 1900,
     ps_confidence := Some confidence_threshold, ps_validation_count := Some 1, ps_apply_qualified := True,
     ps_apply_qualification_version := Some f2_qualification_contract_version\<rparr>"

definition gated_frame :: selection_frame where
  "gated_frame = \<lparr>sf_curve = [], sf_gpu_key = ''gpu'', sf_run_id = ''run'', sf_cap = Fin 0,
     sf_policy = f2_policy StandardMode, sf_text = (\<lambda>_. [])\<rparr>"

text \<open>Engines whose log already holds the gate of the pair.\<close>

definition gated_engines :: "unit forge_engines" where
  "gated_engines =
     \<lparr>fe_gate = (\<lambda>_ _ _ m. (apply_refused False ExactApplyInconclusive, m)),
      fe_calibrate = (\<lambda>_ _ _ m. (calibration_refused False CalibrationCancelled, m)),
      fe_observations = (\<lambda>_. sample_gate_log), fe_record = (\<lambda>_. default_record), fe_condemned = (\<lambda>_. no_pairs),
      fe_quarantine = (\<lambda>_ _ m. m)\<rparr>"

lemma gated_key: "f2_apply_key gated_candidate = Some (1900, 850)"
  by (simp add: f2_apply_key_def gated_candidate_def sample_candidate_def default_power_point_def)

lemma threshold_reached: "confidence_threshold \<le> confidence_threshold"
  by (simp add: confidence_threshold_def policy_balanced_def f64_round_def Let_def f32_order)

lemma gated_regime: "regime_exclusions gated_frame [(gated_candidate, Fin 1)] = []"
proof -
  have "f2_boundary_point_is_qualified gated_candidate (required_confirmations gated_frame) confidence_threshold"
    using threshold_reached
    by (simp add: f2_boundary_point_is_qualified_def gated_candidate_def required_confirmations_def gated_frame_def
        required_qualification_passes_def f2_policy_def f2_descent_detector_passes_def as_u32_def f32_order)
  moreover have "ps_target_clock_mhz gated_candidate = Some 1900" "ps_p95_clock_mhz gated_candidate = Some 1900"
    "ps_vf_table_voltage_mv gated_candidate = Some 850" "ps_base_apply_mv gated_candidate = None"
    by (simp_all add: gated_candidate_def sample_candidate_def default_power_point_def)
  ultimately show ?thesis
    by (simp add: regime_exclusions_def f2_regime_candidate_refusal_def f2_regime_support_def support_target_def
        regime_anchors_def map_filter_def max_of_def is_some_and_def)
qed

lemma gated_pool: "candidate_pool policy_balanced (Fin 0) [(gated_candidate, Fin 1)] = [(gated_candidate, Fin 1)]"
proof -
  obtain f where "f32_round (95 / 100) = Fin f" "\<bar>f - 95 / 100\<bar> \<le> 95 / 100 / 2 ^ 24"
    using f32_round_small [of "95 / 100"] by auto
  then have "\<not> is_power_bound_point gated_candidate"
    by (auto simp: is_power_bound_point_def is_power_bound_frac_def valid_cap_frac_def power_bound_frac_def
        gated_candidate_def sample_candidate_def default_power_point_def is_some_and_def f32_is_finite_def f32_order abs_le_iff)
  then show ?thesis
    by (simp add: candidate_pool_def working_points_def useful_frontier_points_def trusted_points_def off_cap_points_def
        f32_order)
qed

lemma gated_loop:
  "select_loop gated_frame gated_engines (start_selection gated_frame [(gated_candidate, Fin 1)] () False False) =
     Some (Some (synthesize_forge_profiles_capped [(gated_candidate, Fin 1)] policy_balanced (Fin 0)),
       start_selection gated_frame [(gated_candidate, Fin 1)] () False False)"
  and gated_profiles: "profile_list (synthesize_forge_profiles_capped [(gated_candidate, Fin 1)] policy_balanced (Fin 0)) =
     [Some gated_candidate, Some gated_candidate, Some gated_candidate]"
  and gated_exact: "exact_apply_required gated_frame"
proof -
  let ?s = "start_selection gated_frame [(gated_candidate, Fin 1)] () False False"
  let ?P = "synthesize_forge_profiles_capped [(gated_candidate, Fin 1)] policy_balanced (Fin 0)"
  have el: "eligible_points ?s = [(gated_candidate, Fin 1)]"
    by (simp add: eligible_points_def start_selection_def gated_regime gated_key is_some_and_def)
  have syn: "synthesized gated_frame ?s = ?P"
    by (simp add: synthesized_def el f2_apply_godforge_override_def) (simp add: start_selection_def gated_frame_def)
  show P: "profile_list ?P = [Some gated_candidate, Some gated_candidate, Some gated_candidate]"
  proof -
    have in_pool: "fst ` set (candidate_pool policy_balanced (Fin 0) [(gated_candidate, Fin 1)]) = {gated_candidate}"
      by (simp add: gated_pool)
    have "max_by godforge_order (candidate_pool policy_balanced (Fin 0) [(gated_candidate, Fin 1)]) = Some (gated_candidate, Fin 1)"
      by (simp add: gated_pool)
    then show ?thesis
      using synthesis_cases [of policy_balanced "Fin 0" "[(gated_candidate, Fin 1)]"] in_pool
        select_brokkrs_mem [of policy_balanced gated_candidate "candidate_pool policy_balanced (Fin 0) [(gated_candidate, Fin 1)]"]
        select_deep_calm_mem [of policy_balanced gated_candidate "candidate_pool policy_balanced (Fin 0) [(gated_candidate, Fin 1)]"]
      by (auto simp: profile_list_def unwrap_or_def split: option.splits)
  qed
  have sel: "f2_unique_profile_points (profile_list ?P) = [gated_candidate]"
    by (simp add: P f2_unique_profile_points_def gated_key)
  have "sample_observation ApplyQualification Endurance 850 180 ObValidated \<in> set sample_gate_log"
    by (simp add: sample_gate_log_def)
  moreover have "is_current_apply_qualification_evidence (sample_observation ApplyQualification Endurance 850 180 ObValidated)"
    using sample_gate_reading [of None 850 Endurance] by (simp add: gate_reading_def at_apply_pair_def is_none_or_def)
  ultimately have "point_has_current_endurance_qualification sample_gate_log ''run'' 1900 850 ''gpu''"
    unfolding point_has_current_endurance_qualification_def
    by (auto simp: sample_observation_def sample_coverage_def is_some_and_def intro!: bexI)
  then have aq: "already_qualified gated_frame gated_engines ?s (1900, 850)"
    by (simp add: already_qualified_def pair_approved_def start_selection_def gated_key gated_frame_def gated_engines_def
        point_apply_qualified_def) (simp add: gated_candidate_def)
  show exact: "exact_apply_required gated_frame"
    by (simp add: exact_apply_required_def gated_frame_def required_qualification_passes_def f2_policy_def
        f2_descent_detector_passes_def)
  have "select_round gated_frame gated_engines ?s = (Publish ?P, ?s)"
    by (simp add: select_round_def el syn sel [unfolded P] P exact judge_selected_def gated_key aq Let_def)
  then show "select_loop gated_frame gated_engines ?s = Some (Some ?P, ?s)" by (simp add: select_loop.simps)
qed

theorem forge_publishes_only_proven_witness:
  "\<exists>prog' s q w. run_selection gated_frame gated_engines [(gated_candidate, Fin 1)] () False False idle_progress =
       Some (prog', s) \<and> sp_godforge prog' = Some q \<and> point_apply_qualified q \<and>
     complete_apply_gate_p99_at_anchor sample_gate_log (Some ''run'') 1900 850 ''gpu'' = Some w \<and>
     ps_power_p99_w q = Some (f32_max (Fin 100) w)"
proof -
  let ?s = "start_selection gated_frame [(gated_candidate, Fin 1)] () False False"
  let ?prog = "conclude_selection gated_frame gated_engines
      (Some (synthesize_forge_profiles_capped [(gated_candidate, Fin 1)] policy_balanced (Fin 0))) ?s idle_progress"
  have run: "run_selection gated_frame gated_engines [(gated_candidate, Fin 1)] () False False idle_progress = Some (?prog, ?s)"
    by (simp add: run_selection_def gated_loop)
  have d: "distinct (keys_of [(gated_candidate, Fin 1)])" by (simp add: keys_of_def)
  obtain w where w: "complete_apply_gate_p99_at_anchor sample_gate_log (Some ''run'') 1900 850 ''gpu'' = Some w"
    using apply_gate_lemma(1) [of sample_gate_log "Some ''run''" 1900 850 "''gpu''"] sample_gate_complete by blast
  have power: "ps_power_p99_w gated_candidate = Some (Fin 100)" "ps_vf_table_voltage_mv gated_candidate = Some 850"
    "point_target gated_candidate = 1900"
    by (simp_all add: gated_candidate_def sample_candidate_def default_power_point_def point_target_def)
  have "\<exists>q. publish_point_power sample_gate_log (Some ''run'') ''gpu'' gated_candidate = Inr q"
    by (simp add: publish_point_power_def power w opt_filter_def opt_bind_def usable_power_def f32_is_finite_def
        f32_order Let_def)
  then obtain c q where q: "publish_point_power sample_gate_log (Some ''run'') ''gpu'' gated_candidate = Inr (c, q)" by auto
  have "profiles_of ?prog = [Some q, Some q, Some q]"
    by (simp add: conclude_selection_def publish_profiles_def gated_profiles q Let_def profiles_of_def)
      (simp add: gated_engines_def gated_frame_def q)
  then have god: "sp_godforge ?prog = Some q" "Some q \<in> set (profiles_of ?prog)" "profiles_of ?prog \<noteq> profiles_of idle_progress"
    by (simp_all add: profiles_of_def idle_progress_def)
  from forge_publishes_only_proven [OF run gated_exact d] god obtain p k dd v
    where p: "f2_apply_key p = Some k" "p \<in> fst ` set (sl_classified ?s)" "point_apply_qualified q"
      "complete_apply_gate_p99_at_anchor (fe_observations gated_engines (sl_machine ?s)) (Some (sf_run_id gated_frame))
        (fst k) (snd k) (sf_gpu_key gated_frame) = Some v"
      "ps_power_p99_w p = Some dd" "ps_power_p99_w q = Some (f32_max dd v)" by blast
  have "p = gated_candidate" using p(2) by (simp add: start_selection_def)
  moreover from this have "k = (1900, 850)" using p(1) by (simp add: gated_key)
  ultimately have "v = w" "dd = Fin 100"
    using p(4,5) w power(1) by (simp_all add: gated_frame_def gated_engines_def)
  then show ?thesis using run god(1) p(3,6) w by blast
qed

end
