(* ===== verification/RealSweep.thy ===== *)
theory RealSweep
  imports GpuApply "HOL-Library.Signed_Division"
begin

text \<open>
  The sweeps on the hardware that search by a voltage lock and a clock offset:
  \<open>service/src/gpu_sweep_real.rs\<close>, \<open>gpu_mem_sweep.rs\<close> and \<open>gpu_forge_all.rs\<close>, over the machine of
  \<open>GpuApply\<close>. A load is a request to the stress battery; its reply and the card after it are an argument
  that may depend on how many loads came before, and so is the stop flag. A load that panics has no
  verdict. Published progress is what the last publication holds; log lines are left out.
\<close>

section \<open>Loads\<close>

datatype load_request =
  VramCheck u64 u32
| Warmup
| CombinedLoad u64
| MemChase u64
| BandwidthOnce u64
| BandwidthStats u64

definition vram_gate :: load_request where
  "vram_gate = VramCheck (4 * 1024 * 1024 * 1024) 2"

record load_reply =
  ld_result :: "stability_result option"
  ld_peak_mhz :: u32
  ld_temp_c :: "f32 option"
  ld_peak_gbps :: f64
  ld_min_gbps :: f64
  ld_mem_mhz :: u32

record 'g load_env =
  le_vendor :: "'g vendor"
  le_codecs :: codecs
  le_now :: string
  le_legacy :: "'g \<Rightarrow> (u32 \<times> u32) list option"
  le_load :: "load_request \<Rightarrow> nat \<Rightarrow> 'g \<Rightarrow> load_reply \<times> 'g"
  le_stop :: "nat \<Rightarrow> bool"
  le_open :: "nat \<Rightarrow> bool"
  le_recover :: "nat \<Rightarrow> bool"

record 'g bench =
  bn_machine :: "'g machine"
  bn_loads :: nat

definition run_load :: "'g load_env \<Rightarrow> load_request \<Rightarrow> 'g bench \<Rightarrow> load_reply \<times> 'g bench" where
  "run_load env q b =
     (case le_load env q (bn_loads b) (mc_gpu (bn_machine b)) of
        (r, g) \<Rightarrow> (r, b\<lparr>bn_machine := (bn_machine b)\<lparr>mc_gpu := g\<rparr>, bn_loads := bn_loads b + 1\<rparr>))"

definition caught :: "load_reply \<Rightarrow> stability_result" where
  "caught r = unwrap_or (ld_result r) ResCrash"

definition stop_seen :: "'g load_env \<Rightarrow> 'g bench \<Rightarrow> bool" where
  "stop_seen env b = le_stop env (bn_loads b)"

text \<open>A driver call whose result is tested, and one whose result is passed over.\<close>

definition on_card :: "('a, 'g) drv \<Rightarrow> 'g bench \<Rightarrow> (driver_error, 'a) result \<times> 'g bench" where
  "on_card f b = (case f (mc_gpu (bn_machine b)) of (r, g) \<Rightarrow> (r, b\<lparr>bn_machine := (bn_machine b)\<lparr>mc_gpu := g\<rparr>\<rparr>))"

definition card_ignored :: "('a, 'g) drv \<Rightarrow> 'g bench \<Rightarrow> 'g bench" where
  "card_ignored f b = snd (on_card f b)"

definition on_store :: "(disk \<Rightarrow> 'r \<times> disk) \<Rightarrow> 'g bench \<Rightarrow> 'g bench" where
  "on_store f b = b\<lparr>bn_machine := (bn_machine b)\<lparr>mc_disk := snd (f (mc_disk (bn_machine b)))\<rparr>\<rparr>"

definition arm_ignored :: "'g load_env \<Rightarrow> (string \<times> i64) list \<Rightarrow> string \<Rightarrow> 'g bench \<Rightarrow> 'g bench" where
  "arm_ignored env intent phase =
     on_store (arm_boot_flag (cx_flag (le_codecs env))
       \<lparr>bf_intent = from_axes intent, bf_phase = phase, bf_timestamp = le_now env\<rparr>)"

definition reset_ignored :: "'g load_env \<Rightarrow> 'g bench \<Rightarrow> 'g bench" where
  "reset_ignored env = card_ignored (reset_all (le_vendor env))"

section \<open>The sweep over voltages\<close>

record quality =
  ql_passes :: u32
  ql_step_mhz :: i32
  ql_margin_mhz :: u32
  ql_warmup_s :: u64
  ql_voltages :: "u32 list"
  ql_cap_mhz :: i32

definition quality_fast :: quality where
  "quality_fast = \<lparr>ql_passes = 1, ql_step_mhz = 30, ql_margin_mhz = 60, ql_warmup_s = 5, ql_voltages = [925, 875],
     ql_cap_mhz = 330\<rparr>"

definition quality_thorough :: quality where
  "quality_thorough = \<lparr>ql_passes = 3, ql_step_mhz = 15, ql_margin_mhz = 90, ql_warmup_s = 12,
     ql_voltages = [950, 925, 900, 875], ql_cap_mhz = 390\<rparr>"

definition idle_sweep :: gpu_sweep_progress where
  "idle_sweep = \<lparr>gr_phase = SwIdle, gr_current = None, gr_freq_index = 0, gr_total_freqs = 0, gr_tradeoffs = [],
     gr_profiles = None, gr_simulated = False, gr_measured_mhz = None, gr_gpu_temp_c = None,
     gr_last_result = None, gr_validation_note = None\<rparr>"

definition cliff_approach_mhz :: u32 where "cliff_approach_mhz = 75"

definition fine_step :: "quality \<Rightarrow> i32" where
  "fine_step q = max (ql_step_mhz q sdiv 3) 5"

record 'g real_sweep =
  rs_bench :: "'g bench"
  rs_prog :: gpu_sweep_progress
  rs_points :: "tradeoff_point list"
  rs_crashed :: bool
  rs_top :: "(u32 \<times> i32) option"
  rs_min_unstable :: "u32 option"

datatype climb_end = ClimbDone "u32 option" | BreakVoltages

definition validate_pass :: "quality \<Rightarrow> load_request" where
  "validate_pass q = CombinedLoad (2500 * max (ql_passes q) 1)"

definition note_unstable :: "u32 \<Rightarrow> 'g real_sweep \<Rightarrow> 'g real_sweep" where
  "note_unstable peak s =
     s\<lparr>rs_min_unstable := Some (case rs_min_unstable s of None \<Rightarrow> peak | Some u \<Rightarrow> min u peak)\<rparr>"

definition show_step :: "u32 \<Rightarrow> load_reply \<Rightarrow> 'g real_sweep \<Rightarrow> 'g real_sweep" where
  "show_step v r s =
     s\<lparr>rs_prog := (rs_prog s)\<lparr>gr_current := Some \<lparr>vp_freq_mhz = ld_peak_mhz r, vp_voltage_mv = v\<rparr>,
        gr_measured_mhz := Some (ld_peak_mhz r), gr_gpu_temp_c := ld_temp_c r, gr_last_result := Some (caught r)\<rparr>\<rparr>"

text \<open>One step of the climb: armed, offset, loaded. \<open>None\<close> is a refused offset.\<close>

definition climb_load ::
  "'g load_env \<Rightarrow> quality \<Rightarrow> u32 \<Rightarrow> i32 \<Rightarrow> 'g real_sweep \<Rightarrow> load_reply option \<times> 'g real_sweep" where
  "climb_load env q v offset s =
     (let b1 = arm_ignored env [(''gpu_voltage_mv'', int v), (''gpu_offset_mhz'', offset)] ''gpu_real_sweep'' (rs_bench s)
      in case on_card (set_core_offset_mhz (le_vendor env) offset) b1 of
           (Inl _, b2) \<Rightarrow> (None, s\<lparr>rs_bench := b2\<rparr>)
         | (Inr _, b2) \<Rightarrow>
             (case run_load env (validate_pass q) b2 of
                (r, b3) \<Rightarrow> (Some r, show_step v r (s\<lparr>rs_bench := b3\<rparr>))))"

definition next_step :: "quality \<Rightarrow> u32 option \<Rightarrow> u32 \<Rightarrow> i32 \<Rightarrow> i32" where
  "next_step q cliff peak step =
     (case cliff of
        None \<Rightarrow> step
      | Some u \<Rightarrow> if u32_add peak cliff_approach_mhz \<ge> u then fine_step q else step)"

definition climb_stable :: "u32 \<Rightarrow> nat \<Rightarrow> i32 \<Rightarrow> 'g real_sweep \<Rightarrow> 'g real_sweep" where
  "climb_stable v vi offset s =
     (let s1 = s\<lparr>rs_bench := on_store clear_boot_flag (rs_bench s)\<rparr>
      in if vi = 0 then s1\<lparr>rs_top := Some (v, offset)\<rparr> else s1)"

definition climb_crash ::
  "'g load_env \<Rightarrow> u32 \<Rightarrow> u32 option \<Rightarrow> 'g real_sweep \<Rightarrow> climb_end \<times> 'g real_sweep" where
  "climb_crash env peak best s =
     (let s1 = note_unstable peak s;
          b = card_ignored (unlock_core_voltage (le_vendor env))
                (card_ignored (set_core_offset_mhz (le_vendor env) 0) (rs_bench s1))
      in if le_recover env (bn_loads b) then (ClimbDone best, s1\<lparr>rs_bench := b\<rparr>)
         else (BreakVoltages, s1\<lparr>rs_bench := b, rs_crashed := True\<rparr>))"

partial_function (option) climb ::
  "'g load_env \<Rightarrow> quality \<Rightarrow> nat \<Rightarrow> u32 \<Rightarrow> u32 option \<Rightarrow> i32 \<Rightarrow> i32 \<Rightarrow> 'g real_sweep \<Rightarrow>
   (climb_end \<times> 'g real_sweep) option" where
  "climb env q vi v best offset step s =
     (if stop_seen env (rs_bench s) then Some (BreakVoltages, s)
      else case climb_load env q v offset s of
             (None, s1) \<Rightarrow> Some (ClimbDone best, s1)
           | (Some r, s1) \<Rightarrow>
               (case caught r of
                  ResStable \<Rightarrow>
                    (let s2 = climb_stable v vi offset s1;
                         step' = next_step q (rs_min_unstable s2) (ld_peak_mhz r) step
                     in if i32_add offset step' > ql_cap_mhz q then Some (ClimbDone (Some (ld_peak_mhz r)), s2)
                        else climb env q vi v (Some (ld_peak_mhz r)) (i32_add offset step') step' s2)
                | ResCrash \<Rightarrow> Some (climb_crash env (ld_peak_mhz r) best s1)
                | _ \<Rightarrow> Some (ClimbDone best, note_unstable (ld_peak_mhz r) s1)))"

definition record_voltage :: "'g load_env \<Rightarrow> quality \<Rightarrow> u32 \<Rightarrow> u32 option \<Rightarrow> 'g real_sweep \<Rightarrow> 'g real_sweep" where
  "record_voltage env q v best s =
     (let points = (case best of
                      None \<Rightarrow> rs_points s
                    | Some mhz \<Rightarrow>
                        if u32_sat_sub mhz (ql_margin_mhz q) > 0
                        then rs_points s @ [\<lparr>tp_freq_mhz = u32_sat_sub mhz (ql_margin_mhz q), tp_vmin_mv = v\<rparr>]
                        else rs_points s)
      in s\<lparr>rs_points := points, rs_prog := (rs_prog s)\<lparr>gr_tradeoffs := points\<rparr>,
           rs_bench := card_ignored (set_core_offset_mhz (le_vendor env) 0) (rs_bench s)\<rparr>)"

fun sweep_voltages ::
  "'g load_env \<Rightarrow> quality \<Rightarrow> nat \<Rightarrow> u32 list \<Rightarrow> 'g real_sweep \<Rightarrow> 'g real_sweep option" where
  "sweep_voltages env q vi [] s = Some s"
| "sweep_voltages env q vi (v # vs) s =
     (if stop_seen env (rs_bench s) then Some s
      else case on_card (lock_core_voltage_mv (le_vendor env) v) (rs_bench s) of
             (Inl _, b) \<Rightarrow> Some (s\<lparr>rs_bench := b\<rparr>)
           | (Inr _, b) \<Rightarrow>
               (case climb env q vi v None 0 (ql_step_mhz q)
                       (s\<lparr>rs_bench := b,
                          rs_prog := (rs_prog s)\<lparr>gr_phase := SwVoltageBisection, gr_freq_index := vi\<rparr>\<rparr>) of
                  None \<Rightarrow> None
                | Some (BreakVoltages, s1) \<Rightarrow> Some s1
                | Some (ClimbDone best, s1) \<Rightarrow> sweep_voltages env q (vi + 1) vs (record_voltage env q v best s1)))"

text \<open>The long validation: two attempts at the candidate, backed off by the margin and again after a silent
  error. The note starts as the failure; an offset that is refused leaves it.\<close>

definition soak_attempt ::
  "'g load_env \<Rightarrow> quality \<Rightarrow> u32 \<Rightarrow> nat \<Rightarrow> i32 \<Rightarrow> sweep_text \<Rightarrow> 'g real_sweep \<Rightarrow>
   bool \<times> i32 \<times> sweep_text \<times> 'g real_sweep" where
  "soak_attempt env q v0 attempt val_off msg s =
     (let b1 = arm_ignored env [(''gpu_voltage_mv'', int v0), (''gpu_offset_mhz'', val_off)] ''gpu_real_validate'' (rs_bench s);
          b2 = card_ignored (lock_core_voltage_mv (le_vendor env) v0) b1
      in case on_card (set_core_offset_mhz (le_vendor env) val_off) b2 of
           (Inl _, b3) \<Rightarrow> (False, val_off, msg, s\<lparr>rs_bench := b3\<rparr>)
         | (Inr _, b3) \<Rightarrow>
             (case run_load env (CombinedLoad 60000) b3 of
                (r, b4) \<Rightarrow>
                  (let s1 = s\<lparr>rs_bench := b4, rs_prog := (rs_prog s)\<lparr>gr_measured_mhz := Some (ld_peak_mhz r),
                        gr_gpu_temp_c := ld_temp_c r, gr_last_result := Some (caught r)\<rparr>\<rparr>
                   in if is_stable (caught r)
                      then (False, val_off, SoakPassed (ld_peak_mhz r) v0,
                            s1\<lparr>rs_bench := on_store clear_boot_flag b4\<rparr>)
                      else if caught r = ResCrash then (False, val_off, SoakCrashed, s1\<lparr>rs_crashed := True\<rparr>)
                      else (True, max (i32_sub val_off (i32_mul (ql_step_mhz q) 2)) 0, SoakRetry (attempt + 1), s1))))"

fun soak ::
  "'g load_env \<Rightarrow> quality \<Rightarrow> u32 \<Rightarrow> nat list \<Rightarrow> i32 \<Rightarrow> sweep_text \<Rightarrow> 'g real_sweep \<Rightarrow> sweep_text \<times> 'g real_sweep" where
  "soak env q v0 [] val_off msg s = (msg, s)"
| "soak env q v0 (a # as) val_off msg s =
     (case soak_attempt env q v0 a val_off msg s of
        (again, val_off', msg', s') \<Rightarrow>
          if again then soak env q v0 as val_off' msg' s' else (msg', s'))"

definition long_validation :: "'g load_env \<Rightarrow> quality \<Rightarrow> 'g real_sweep \<Rightarrow> 'g real_sweep" where
  "long_validation env q s =
     (if rs_crashed s \<or> stop_seen env (rs_bench s) then s
      else case rs_top s of
             None \<Rightarrow> s
           | Some (v0, off0) \<Rightarrow>
               (case soak env q v0 [0, 1] (max (i32_sub off0 (as_i32 (ql_margin_mhz q))) 0) SoakFailed
                       (s\<lparr>rs_prog := (rs_prog s)\<lparr>gr_phase := SwSynthesis, gr_validation_note := Some SoakRunning\<rparr>\<rparr>) of
                  (msg, s') \<Rightarrow> s'\<lparr>rs_prog := (rs_prog s')\<lparr>gr_validation_note := Some msg\<rparr>\<rparr>))"

definition publish_points :: "'g load_env \<Rightarrow> 'g real_sweep \<Rightarrow> 'g real_sweep" where
  "publish_points env s =
     (let baseline = (if rs_points s = [] then 0 else Max (set (map tp_freq_mhz (rs_points s))))
      in s\<lparr>rs_bench := on_store clear_boot_flag (reset_ignored env (rs_bench s)),
           rs_prog := (rs_prog s)\<lparr>gr_profiles := synthesize_profiles baseline (rs_points s),
                        gr_tradeoffs := rs_points s, gr_current := None\<rparr>\<rparr>)"

definition finish_real :: "'g load_env \<Rightarrow> 'g real_sweep \<Rightarrow> 'g real_sweep" where
  "finish_real env s =
     s\<lparr>rs_bench := on_store clear_boot_flag (reset_ignored env (rs_bench s)),
       rs_prog := (rs_prog s)\<lparr>gr_current := None, gr_phase := (if rs_crashed s then SwAborted else SwDone),
                    gr_freq_index := gr_total_freqs (rs_prog s)\<rparr>\<rparr>"

text \<open>The warm-up loads until its time is over or the sweep is stopped; how many loads that takes is an
  argument.\<close>

fun warm_up :: "'g load_env \<Rightarrow> nat \<Rightarrow> 'g bench \<Rightarrow> 'g bench" where
  "warm_up env 0 b = b"
| "warm_up env (Suc n) b = (if stop_seen env b then b else warm_up env n (snd (run_load env Warmup b)))"

definition run_real_sweep ::
  "'g load_env \<Rightarrow> quality \<Rightarrow> nat \<Rightarrow> 'g bench \<Rightarrow> (gpu_sweep_progress \<times> 'g bench) option" where
  "run_real_sweep env q warm b =
     (if \<not> le_open env (bn_loads b) then Some (idle_sweep, b)
      else let prog = idle_sweep\<lparr>gr_total_freqs := length (ql_voltages q)\<rparr> in
      case run_load env vram_gate (reset_ignored env b) of
        (r, b1) \<Rightarrow>
          if \<not> is_stable (caught r)
          then Some (prog\<lparr>gr_phase := SwAborted, gr_last_result := Some (caught r)\<rparr>, reset_ignored env b1)
          else
            map_option (\<lambda>s. (rs_prog s, rs_bench s))
              (map_option (\<lambda>s. finish_real env (long_validation env q (publish_points env s)))
                (sweep_voltages env q 0 (ql_voltages q)
                   \<lparr>rs_bench = warm_up env warm b1, rs_prog = prog\<lparr>gr_phase := SwBaseline\<rparr>, rs_points = [],
                    rs_crashed = False, rs_top = None, rs_min_unstable = None\<rparr>)))"

section \<open>The sweep over memory offsets\<close>

datatype mem_text =
  TestIntegrity i32
| TestBandwidth i32
| NoStableOffset
| CombinedSoak i32
| NotRecovered
| OffsetValidated i32

record mem_sweep_point =
  mp_offset_mhz :: i32
  mp_mem_mhz :: u32
  mp_bandwidth_gbps :: f32
  mp_min_gbps :: f32
  mp_stable :: bool

record mem_sweep_progress =
  mw_phase :: sweep_phase
  mw_running :: bool
  mw_current_offset_mhz :: i32
  mw_current_mem_mhz :: u32
  mw_current_gbps :: f32
  mw_baseline_gbps :: f32
  mw_points :: "mem_sweep_point list"
  mw_peak_offset_mhz :: i32
  mw_peak_gbps :: f32
  mw_validation_note :: "mem_text option"

definition idle_mem :: mem_sweep_progress where
  "idle_mem = \<lparr>mw_phase = SwIdle, mw_running = False, mw_current_offset_mhz = 0, mw_current_mem_mhz = 0,
     mw_current_gbps = Fin 0, mw_baseline_gbps = Fin 0, mw_points = [], mw_peak_offset_mhz = 0,
     mw_peak_gbps = Fin 0, mw_validation_note = None\<rparr>"

definition f64_as_f32 :: "f64 \<Rightarrow> f32" where
  "f64_as_f32 x = (case x of Fin r \<Rightarrow> f32_round r | y \<Rightarrow> y)"

record 'g mem_sweep =
  mm_bench :: "'g bench"
  mm_prog :: mem_sweep_progress
  mm_crashed :: bool

definition consistency :: "f64 \<Rightarrow> f64 \<Rightarrow> f64" where
  "consistency peak minbw = (if peak > Fin 0 then f64_div minbw peak else Fin 0)"

definition mem_intent :: "i32 \<Rightarrow> (string \<times> i64) list" where
  "mem_intent offset = [(''gpu_mem_offset_mhz'', offset)]"

text \<open>One offset of the search: integrity, then bandwidth unless the chase panicked. The result says whether
  to go on. The running maximum of the bandwidth, which nothing reads, is left out.\<close>

definition mem_measure ::
  "'g load_env \<Rightarrow> i32 \<Rightarrow> 'g mem_sweep \<Rightarrow> bool \<times> 'g mem_sweep" where
  "mem_measure env offset s =
     (case run_load env (MemChase 8000) (mm_bench s) of
        (chase, b1) \<Rightarrow>
          (let crashed = (ld_result chase = None); integ = caught chase;
               (stats, b2) = (if crashed then (chase, b1) else run_load env (BandwidthStats 4000) b1);
               peak = (if crashed then Fin 0 else ld_peak_gbps stats);
               minbw = (if crashed then Fin 0 else ld_min_gbps stats);
               consistent = (consistency peak minbw \<ge> f64_round (93 / 100));
               stable = (is_stable integ \<and> \<not> crashed \<and> peak > Fin 0 \<and> consistent);
               b3 = (if stable then on_store clear_boot_flag b2 else b2);
               p = mm_prog s;
               p1 = p\<lparr>mw_current_offset_mhz := offset, mw_current_mem_mhz := ld_mem_mhz stats,
                      mw_current_gbps := f64_as_f32 peak, mw_validation_note := None,
                      mw_points := mw_points p @
                        [\<lparr>mp_offset_mhz = offset, mp_mem_mhz = ld_mem_mhz stats, mp_bandwidth_gbps = f64_as_f32 peak,
                          mp_min_gbps = f64_as_f32 minbw, mp_stable = stable\<rparr>]\<rparr>
           in if \<not> is_stable integ \<or> crashed \<or> \<not> consistent
              then (False, s\<lparr>mm_bench := b3, mm_prog := p1, mm_crashed := crashed\<rparr>)
              else (True, s\<lparr>mm_bench := b3,
                            mm_prog := p1\<lparr>mw_peak_gbps := f64_as_f32 peak, mw_peak_offset_mhz := offset\<rparr>\<rparr>)))"

definition mem_step_mhz :: i32 where "mem_step_mhz = 50"
definition mem_cap_mhz :: i32 where "mem_cap_mhz = 1500"

function mem_search :: "'g load_env \<Rightarrow> i32 \<Rightarrow> 'g mem_sweep \<Rightarrow> 'g mem_sweep" where
  "mem_search env offset s =
     (if stop_seen env (mm_bench s) then s
      else let b1 = arm_ignored env (mem_intent offset) ''gpu_mem_sweep'' (mm_bench s)
      in case on_card (set_mem_offset_mhz (le_vendor env) offset) b1 of
           (Inl _, b2) \<Rightarrow> s\<lparr>mm_bench := b2\<rparr>
         | (Inr _, b2) \<Rightarrow>
             (case mem_measure env offset (s\<lparr>mm_bench := b2\<rparr>) of
                (again, s') \<Rightarrow>
                  if again \<and> offset + mem_step_mhz \<le> mem_cap_mhz then mem_search env (offset + mem_step_mhz) s'
                  else s'))"
  by pat_completeness auto

termination
  by (relation "Wellfounded.measure (\<lambda>(env, offset, s). nat (mem_cap_mhz - offset))")
    (auto simp: mem_cap_mhz_def mem_step_mhz_def)

declare mem_search.simps [simp del]

definition set_peak :: "i32 \<Rightarrow> 'g mem_sweep \<Rightarrow> 'g mem_sweep" where
  "set_peak off s = s\<lparr>mm_prog := (mm_prog s)\<lparr>mw_peak_offset_mhz := off\<rparr>\<rparr>"

definition set_mem_note :: "mem_text \<Rightarrow> 'g mem_sweep \<Rightarrow> 'g mem_sweep" where
  "set_mem_note t s = s\<lparr>mm_prog := (mm_prog s)\<lparr>mw_validation_note := Some t\<rparr>\<rparr>"

text \<open>The soak under combined load, receding by two steps.\<close>

function mem_soak :: "'g load_env \<Rightarrow> i32 \<Rightarrow> 'g mem_sweep \<Rightarrow> 'g mem_sweep" where
  "mem_soak env off s =
     (if off \<le> 0 then set_mem_note NoStableOffset s
      else let s0 = set_mem_note (CombinedSoak off) s;
               b1 = card_ignored (set_mem_offset_mhz (le_vendor env) off)
                      (arm_ignored env (mem_intent off) ''gpu_mem_validate'' (mm_bench s0));
               receded = max (off - 2 * mem_step_mhz) 0
      in case run_load env (CombinedLoad 40000) b1 of
           (r, b2) \<Rightarrow>
             if caught r = ResCrash
             then (let b3 = card_ignored (set_mem_offset_mhz (le_vendor env) 0) b2
                   in if le_recover env (bn_loads b3)
                      then mem_soak env (off - 2 * mem_step_mhz) (set_peak receded (s0\<lparr>mm_bench := b3\<rparr>))
                      else set_mem_note NotRecovered (s0\<lparr>mm_bench := b3, mm_crashed := True\<rparr>))
             else (case run_load env (BandwidthStats 20000) b2 of
                     (bw, b3) \<Rightarrow>
                       if is_stable (caught r) \<and>
                          consistency (ld_peak_gbps bw) (ld_min_gbps bw) \<ge> f64_round (96 / 100)
                       then set_mem_note (OffsetValidated off)
                              (set_peak off (s0\<lparr>mm_bench := on_store clear_boot_flag b3\<rparr>))
                       else mem_soak env (off - 2 * mem_step_mhz) (set_peak receded (s0\<lparr>mm_bench := b3\<rparr>))))"
  by pat_completeness auto

termination
  by (relation "Wellfounded.measure (\<lambda>(env, off, s). nat off)") (auto simp: mem_step_mhz_def)

declare mem_soak.simps [simp del]

definition run_mem_sweep :: "'g load_env \<Rightarrow> 'g bench \<Rightarrow> mem_sweep_progress \<times> 'g bench" where
  "run_mem_sweep env b =
     (if \<not> le_open env (bn_loads b) then (idle_mem, b)
      else case run_load env (BandwidthOnce 2000) (reset_ignored env b) of
        (r, b1) \<Rightarrow>
          (let baseline = f64_as_f32 (ld_peak_gbps r);
               s1 = mem_search env mem_step_mhz
                 \<lparr>mm_bench = b1,
                  mm_prog = idle_mem\<lparr>mw_running := True, mw_phase := SwVoltageBisection,
                    mw_baseline_gbps := baseline, mw_peak_gbps := baseline\<rparr>,
                  mm_crashed = False\<rparr>;
               s2 = (if \<not> mm_crashed s1 \<and> \<not> stop_seen env (mm_bench s1) \<and> mw_peak_offset_mhz (mm_prog s1) > 0
                     then mem_soak env (mw_peak_offset_mhz (mm_prog s1)) s1 else s1)
           in ((mm_prog s2)\<lparr>mw_running := False, mw_current_offset_mhz := 0,
                 mw_phase := (if mm_crashed s2 then SwAborted else SwDone)\<rparr>,
               on_store clear_boot_flag (reset_ignored env (mm_bench s2)))))"

section \<open>The whole package\<close>

datatype package_note = VramGateFailed | PackageValidated | PackageReceded

record forge_all_progress =
  fp_running :: bool
  fp_phase :: string
  fp_note :: "package_note option"

definition core_voltage_mv :: u32 where "core_voltage_mv = 900"

datatype core_end = CoreAborted | CoreBest u32

function core_climb :: "'g load_env \<Rightarrow> i32 \<Rightarrow> u32 \<Rightarrow> 'g bench \<Rightarrow> core_end \<times> 'g bench" where
  "core_climb env offset best b =
     (if stop_seen env b then (CoreAborted, b)
      else case run_load env (CombinedLoad 6000) (card_ignored (set_core_offset_mhz (le_vendor env) offset) b) of
        (r, b1) \<Rightarrow>
          (case caught r of
             ResStable \<Rightarrow>
               (if offset + 15 > 300 then (CoreBest (ld_peak_mhz r), b1)
                else core_climb env (offset + 15) (ld_peak_mhz r) b1)
           | ResCrash \<Rightarrow> (CoreBest best, card_ignored (set_core_offset_mhz (le_vendor env) 0) b1)
           | _ \<Rightarrow> (CoreBest best, b1)))"
  by pat_completeness auto

termination
  by (relation "Wellfounded.measure (\<lambda>(env, offset, best, b). nat (300 - offset))") auto

declare core_climb.simps [simp del]

text \<open>One memory offset of the package: combined load, bandwidth and integrity, the last two only on a device
  that is still there.\<close>

definition package_try :: "'g load_env \<Rightarrow> i32 \<Rightarrow> 'g bench \<Rightarrow> bool \<times> 'g bench" where
  "package_try env moff b =
     (case run_load env (CombinedLoad 6000) (card_ignored (set_mem_offset_mhz (le_vendor env) moff) b) of
        (r, b1) \<Rightarrow>
          if caught r = ResCrash
          then (False, card_ignored (set_mem_offset_mhz (le_vendor env) 0) b1)
          else (case run_load env (BandwidthStats 3000) b1 of
                  (bw, b2) \<Rightarrow>
                    (case run_load env (VramCheck (2 * 1024 * 1024 * 1024) 1) b2 of
                       (vr, b3) \<Rightarrow>
                         (is_stable (caught r) \<and> is_stable (caught vr) \<and> ld_peak_gbps bw > Fin 0 \<and>
                          f64_div (ld_min_gbps bw) (ld_peak_gbps bw) \<ge> f64_round (95 / 100), b3))))"

function package_climb :: "'g load_env \<Rightarrow> i32 \<Rightarrow> i32 \<Rightarrow> 'g bench \<Rightarrow> i32 \<times> 'g bench" where
  "package_climb env moff best b =
     (if stop_seen env b then (best, b)
      else case package_try env moff b of
        (ok, b1) \<Rightarrow>
          if \<not> ok then (best, b1)
          else if moff + 50 > 1500 then (moff, b1)
          else package_climb env (moff + 50) moff b1)"
  by pat_completeness auto

termination
  by (relation "Wellfounded.measure (\<lambda>(env, moff, best, b). nat (1500 - moff))") auto

declare package_climb.simps [simp del]

definition apply_core_ignored :: "'g load_env \<Rightarrow> u32 \<Rightarrow> 'g bench \<Rightarrow> 'g bench" where
  "apply_core_ignored env freq =
     card_ignored (apply_core (le_vendor env) (le_legacy env) \<lparr>vp_freq_mhz = freq, vp_voltage_mv = core_voltage_mv\<rparr>)"

fun package_soak :: "'g load_env \<Rightarrow> u32 \<Rightarrow> nat list \<Rightarrow> i32 \<Rightarrow> 'g bench \<Rightarrow> bool \<times> i32 \<times> 'g bench" where
  "package_soak env freq [] mem b = (False, mem, b)"
| "package_soak env freq (attempt # attempts) mem b =
     (let mem0 = max mem 0
      in case run_load env (CombinedLoad 120000) (card_ignored (set_mem_offset_mhz (le_vendor env) mem0) b) of
           (r, b1) \<Rightarrow>
             if is_stable (caught r) then (True, mem0, b1)
             else let b2 = (if caught r = ResCrash
                            then (let b' = card_ignored (set_mem_offset_mhz (le_vendor env) 0) b1
                                  in if le_recover env (bn_loads b') then apply_core_ignored env freq b' else b')
                            else b1)
                  in if mem0 - 100 \<le> 0 \<and> attempt \<ge> 1 then (False, 0, b2)
                     else package_soak env freq attempts (mem0 - 100) b2)"

definition persist_package :: "'g load_env \<Rightarrow> u32 \<Rightarrow> bool \<Rightarrow> i32 \<Rightarrow> 'g bench \<Rightarrow> 'g bench" where
  "persist_package env freq soak_ok mem b =
     b\<lparr>bn_machine := snd (apply_and_persist (le_vendor env) (le_legacy env) (le_codecs env) (le_now env) ''Forge All''
         (if freq > 0 then Some \<lparr>vp_freq_mhz = freq, vp_voltage_mv = core_voltage_mv\<rparr> else None)
         (if soak_ok \<and> mem > 0 then Some mem else None) (bn_machine b))\<rparr>"

text \<open>From the core's clock on: apply it, search the memory, soak the package.\<close>

definition tune_package :: "'g load_env \<Rightarrow> u32 \<Rightarrow> 'g bench \<Rightarrow> bool \<times> i32 \<times> 'g bench" where
  "tune_package env freq b =
     (let apply_if = (\<lambda>b. if freq > 0 then apply_core_ignored env freq b else b)
      in case package_climb env 50 0 (apply_if b) of
           (mem, b1) \<Rightarrow>
             package_soak env freq [0, 1, 2] mem
               (apply_if (card_ignored (set_mem_offset_mhz (le_vendor env) 0) b1)))"

definition forge_all_finish :: "'g load_env \<Rightarrow> string \<Rightarrow> package_note option \<Rightarrow> 'g bench \<Rightarrow> forge_all_progress \<times> 'g bench" where
  "forge_all_finish env phase msg b =
     (\<lparr>fp_running = False, fp_phase = phase, fp_note = msg\<rparr>, reset_ignored env b)"

definition run_forge_all :: "'g load_env \<Rightarrow> 'g bench \<Rightarrow> forge_all_progress \<times> 'g bench" where
  "run_forge_all env b =
     (if \<not> le_open env (bn_loads b) then forge_all_finish env ''aborted'' None b
      else case run_load env vram_gate (reset_ignored env b) of
        (r, b1) \<Rightarrow>
          if \<not> is_stable (caught r) then forge_all_finish env ''aborted'' (Some VramGateFailed) b1
          else if stop_seen env b1 then forge_all_finish env ''aborted'' None b1
          else case on_card (lock_core_voltage_mv (le_vendor env) core_voltage_mv) b1 of
            (Inl _, b2) \<Rightarrow> forge_all_finish env ''aborted'' None b2
          | (Inr _, b2) \<Rightarrow>
              (case core_climb env 0 0 b2 of
                 (CoreAborted, b3) \<Rightarrow> forge_all_finish env ''aborted'' None b3
               | (CoreBest best, b3) \<Rightarrow>
                   (let freq = u32_sat_sub best 45
                    in case tune_package env freq (card_ignored (set_core_offset_mhz (le_vendor env) 0) b3) of
                         (soak_ok, mem, b4) \<Rightarrow>
                           (\<lparr>fp_running = False, fp_phase = ''done'',
                             fp_note = Some (if soak_ok then PackageValidated else PackageReceded)\<rparr>,
                            persist_package env freq soak_ok mem b4))))"

section \<open>Frames\<close>

abbreviation card_of :: "'g bench \<Rightarrow> 'g" where "card_of b \<equiv> mc_gpu (bn_machine b)"
abbreviation disk_of :: "'g bench \<Rightarrow> disk" where "disk_of b \<equiv> mc_disk (bn_machine b)"

lemma on_card_simps [simp]:
  "card_of (snd (on_card f b)) = snd (f (card_of b))" "disk_of (snd (on_card f b)) = disk_of b"
  "bn_loads (snd (on_card f b)) = bn_loads b" "fst (on_card f b) = fst (f (card_of b))"
  by (simp_all add: on_card_def split: prod.split)

lemma card_ignored_simps [simp]:
  "card_of (card_ignored f b) = snd (f (card_of b))" "disk_of (card_ignored f b) = disk_of b"
  "bn_loads (card_ignored f b) = bn_loads b"
  by (simp_all add: card_ignored_def)

lemma on_store_simps [simp]:
  "card_of (on_store f b) = card_of b" "disk_of (on_store f b) = snd (f (disk_of b))"
  "bn_loads (on_store f b) = bn_loads b"
  by (simp_all add: on_store_def)

lemma arm_ignored_simps [simp]:
  "card_of (arm_ignored env i ph b) = card_of b" "bn_loads (arm_ignored env i ph b) = bn_loads b"
  by (simp_all add: arm_ignored_def)

lemma reset_ignored_simps [simp]:
  "card_of (reset_ignored env b) = snd (reset_all (le_vendor env) (card_of b))"
  "disk_of (reset_ignored env b) = disk_of b" "bn_loads (reset_ignored env b) = bn_loads b"
  by (simp_all add: reset_ignored_def)

lemma run_load_simps [simp]:
  "card_of (snd (run_load env q b)) = snd (le_load env q (bn_loads b) (card_of b))"
  "disk_of (snd (run_load env q b)) = disk_of b" "bn_loads (snd (run_load env q b)) = bn_loads b + 1"
  "fst (run_load env q b) = fst (le_load env q (bn_loads b) (card_of b))"
  by (simp_all add: run_load_def split: prod.split)

lemma pair_split: "(case p of (x, y) \<Rightarrow> f x y) = f (fst p) (snd p)"
  by (simp add: case_prod_beta)

section \<open>What a sweep writes\<close>

text \<open>A property of the card that the loads and the writes within the limits keep.\<close>

definition kept_within :: "'g load_env \<Rightarrow> quality \<Rightarrow> ('g \<Rightarrow> bool) \<Rightarrow> bool" where
  "kept_within env q P \<longleftrightarrow>
     (\<forall>g. P g \<longrightarrow>
       (\<forall>rq n. P (snd (le_load env rq n g))) \<and> (\<forall>v\<in>set (ql_voltages q). P (snd (lock_core_voltage_mv (le_vendor env) v g))) \<and>
       (\<forall>off. 0 \<le> off \<and> off \<le> ql_cap_mhz q \<longrightarrow> P (snd (set_core_offset_mhz (le_vendor env) off g))) \<and>
       P (snd (unlock_core_voltage (le_vendor env) g)) \<and> P (snd (reset_all (le_vendor env) g)))"

definition top_ok :: "quality \<Rightarrow> 'g real_sweep \<Rightarrow> bool" where
  "top_ok q s \<longleftrightarrow> (case rs_top s of None \<Rightarrow> True | Some (v, off) \<Rightarrow>
     v \<in> set (ql_voltages q) \<and> 0 \<le> off \<and> off \<le> ql_cap_mhz q)"

abbreviation rs_card :: "'g real_sweep \<Rightarrow> 'g" where "rs_card s \<equiv> card_of (rs_bench s)"
abbreviation rs_loads :: "'g real_sweep \<Rightarrow> nat" where "rs_loads s \<equiv> bn_loads (rs_bench s)"

definition tame_quality :: "quality \<Rightarrow> bool" where
  "tame_quality q \<longleftrightarrow> 5 \<le> ql_step_mhz q \<and> ql_step_mhz q < 2 ^ 30 \<and> 0 \<le> ql_cap_mhz q \<and> ql_cap_mhz q < 2 ^ 30 \<and>
     ql_margin_mhz q < 2 ^ 31"

lemma tame_presets: "tame_quality quality_fast" "tame_quality quality_thorough"
  by (simp_all add: tame_quality_def quality_fast_def quality_thorough_def)

lemma fine_step_tame:
  assumes "tame_quality q" shows "5 \<le> fine_step q" "fine_step q \<le> ql_step_mhz q"
proof -
  have "ql_step_mhz q sdiv 3 \<le> ql_step_mhz q"
    using assms by (simp add: tame_quality_def signed_divide_int_def) linarith
  then show "5 \<le> fine_step q" "fine_step q \<le> ql_step_mhz q" using assms by (auto simp: fine_step_def tame_quality_def)
qed

lemma kept_load: "kept_within env q P \<Longrightarrow> P (card_of b) \<Longrightarrow> P (card_of (snd (run_load env rq b)))"
  by (simp add: kept_within_def)

lemma kept_offset:
  "kept_within env q P \<Longrightarrow> P g \<Longrightarrow> 0 \<le> off \<Longrightarrow> off \<le> ql_cap_mhz q \<Longrightarrow> P (snd (set_core_offset_mhz (le_vendor env) off g))"
  by (simp add: kept_within_def)

lemma climb_load_kept:
  assumes "kept_within env q P" and "P (rs_card s)" and "0 \<le> off" and "off \<le> ql_cap_mhz q"
    and "climb_load env q v off s = (x, s')"
  shows "P (rs_card s') \<and> rs_top s' = rs_top s \<and> rs_loads s' \<le> rs_loads s + 1"
proof -
  have "P (snd (set_core_offset_mhz (le_vendor env) off (rs_card s)))" by (rule kept_offset [OF assms(1-4)])
  then show ?thesis
    using assms(1,5)
    by (auto simp: climb_load_def Let_def pair_split kept_within_def show_step_def split: sum.splits)
qed

lemma climb_ends:
  assumes "tame_quality q" and "kept_within env q P" and "v \<in> set (ql_voltages q)"
    and "P (rs_card s)" and "top_ok q s" and "0 \<le> off" and "off \<le> ql_cap_mhz q"
    and "5 \<le> step" and "step \<le> ql_step_mhz q"
  shows "\<exists>e s'. climb env q vi v best off step s = Some (e, s') \<and> P (rs_card s') \<and> top_ok q s' \<and>
    rs_loads s' \<le> rs_loads s + nat ((ql_cap_mhz q - off) div 5) + 1"
  using assms(4-)
proof (induction "nat (ql_cap_mhz q - off)" arbitrary: off step best s rule: less_induct)
  case less
  obtain x s1 where x: "climb_load env q v off s = (x, s1)" by fastforce
  note k = climb_load_kept [OF assms(2) less.prems(1,3,4) x]
  have t1: "top_ok q s1" using k less.prems(2) by (simp add: top_ok_def)
  note unfold = climb.simps [of env q vi v best off step s]
  show ?case
  proof (cases "stop_seen env (rs_bench s) \<or> x = None")
    case True
    then show ?thesis using unfold x k t1 less.prems by auto
  next
    case False
    then obtain r where r: "x = Some r" "\<not> stop_seen env (rs_bench s)" by auto
    let ?peak = "ld_peak_mhz r"
    show ?thesis
    proof (cases "caught r")
      case ResStable
      define s2 where "s2 = climb_stable v vi off s1"
      define step' where "step' = next_step q (rs_min_unstable s2) ?peak step"
      have s2: "P (rs_card s2)" "top_ok q s2" "rs_loads s2 = rs_loads s1"
        using k t1 assms(3) less.prems by (auto simp: s2_def climb_stable_def top_ok_def Let_def)
      have st: "5 \<le> step'" "step' \<le> ql_step_mhz q"
        using less.prems fine_step_tame [OF assms(1)] by (auto simp: step'_def next_step_def split: option.split)
      have "is_i32 (off + step')" using st less.prems assms(1) by (simp add: tame_quality_def is_i32_def)
      then have add: "i32_add off step' = off + step'" by (simp add: i32_add_def)
      show ?thesis
      proof (cases "off + step' > ql_cap_mhz q")
        case True
        then show ?thesis
          using unfold x r ResStable s2 k add by (simp add: s2_def [symmetric] step'_def [symmetric] Let_def)
      next
        case False
        then have "nat (ql_cap_mhz q - (off + step')) < nat (ql_cap_mhz q - off)" using st less.prems by simp
        from less.hyps [OF this s2(1,2) _ _ st, of "Some ?peak"] False less.prems st obtain e s'
          where rec: "climb env q vi v (Some ?peak) (off + step') step' s2 = Some (e, s')" "P (rs_card s')" "top_ok q s'"
            "rs_loads s' \<le> rs_loads s2 + nat ((ql_cap_mhz q - (off + step')) div 5) + 1"
          by auto
        have "(ql_cap_mhz q - (off + step')) div 5 + 1 \<le> (ql_cap_mhz q - off) div 5" using st by linarith
        moreover have "0 \<le> (ql_cap_mhz q - (off + step')) div 5" using False by simp
        ultimately have "nat ((ql_cap_mhz q - (off + step')) div 5) + 1 \<le> nat ((ql_cap_mhz q - off) div 5)"
          by linarith
        then show ?thesis
          using unfold x r ResStable False add rec k s2(3)
          by (simp add: s2_def [symmetric] step'_def [symmetric] Let_def)
      qed
    next
      case ResCrash
      obtain e s' where c: "climb_crash env ?peak best s1 = (e, s')" by fastforce
      have "P (rs_card s')" "top_ok q s'" "rs_loads s' = rs_loads s1"
        using c k t1 assms(1,2) kept_offset [OF assms(2), of "rs_card s1" 0]
        by (auto simp: climb_crash_def note_unstable_def Let_def kept_within_def top_ok_def tame_quality_def
            split: if_splits)
      then show ?thesis using unfold x r ResCrash c k by simp
    qed (use unfold x r k t1 in \<open>auto simp: note_unstable_def top_ok_def\<close>)
  qed
qed

text \<open>The most loads one voltage takes.\<close>

definition climb_bound :: "quality \<Rightarrow> nat" where
  "climb_bound q = nat (ql_cap_mhz q div 5) + 1"

lemma voltages_end:
  assumes "tame_quality q" and "kept_within env q P" and "set vs \<subseteq> set (ql_voltages q)"
    and "P (rs_card s)" and "top_ok q s"
  shows "\<exists>s'. sweep_voltages env q vi vs s = Some s' \<and> P (rs_card s') \<and> top_ok q s' \<and>
    rs_loads s' \<le> rs_loads s + length vs * climb_bound q"
  using assms(3-)
proof (induction vs arbitrary: vi s)
  case (Cons v vs)
  obtain x b where l: "on_card (lock_core_voltage_mv (le_vendor env) v) (rs_bench s) = (x, b)" by fastforce
  have b: "P (card_of b)" "bn_loads b = rs_loads s"
  proof -
    have "b = snd (on_card (lock_core_voltage_mv (le_vendor env) v) (rs_bench s))" by (simp add: l)
    then show "P (card_of b)" "bn_loads b = rs_loads s"
      using assms(2) Cons.prems by (simp_all add: kept_within_def)
  qed
  show ?case
  proof (cases "stop_seen env (rs_bench s) \<or> is_err x")
    case True
    then show ?thesis using l b Cons.prems by (auto simp: is_err_def top_ok_def split: sum.split)
  next
    case False
    let ?s0 = "s\<lparr>rs_bench := b, rs_prog := (rs_prog s)\<lparr>gr_phase := SwVoltageBisection, gr_freq_index := vi\<rparr>\<rparr>"
    have "\<exists>e s'. climb env q vi v None 0 (ql_step_mhz q) ?s0 = Some (e, s') \<and> P (rs_card s') \<and> top_ok q s' \<and>
        rs_loads s' \<le> rs_loads ?s0 + nat ((ql_cap_mhz q - 0) div 5) + 1"
      by (rule climb_ends [OF assms(1,2)])
        (use Cons.prems b assms(1) in \<open>simp_all add: top_ok_def tame_quality_def\<close>)
    then obtain e s1 where c: "climb env q vi v None 0 (ql_step_mhz q) ?s0 = Some (e, s1)"
      "P (rs_card s1)" "top_ok q s1" "rs_loads s1 \<le> rs_loads s + climb_bound q"
      by (auto simp: climb_bound_def b)
    show ?thesis
    proof (cases e)
      case BreakVoltages
      then show ?thesis using False l c by (auto split: sum.split)
    next
      case (ClimbDone best)
      let ?s2 = "record_voltage env q v best s1"
      have "P (rs_card ?s2)" "top_ok q ?s2" "rs_loads ?s2 = rs_loads s1"
        using c assms(1,2) kept_offset [OF assms(2), of "rs_card s1" 0]
        by (auto simp: record_voltage_def Let_def top_ok_def tame_quality_def)
      with Cons.IH [of ?s2 "vi + 1"] Cons.prems c False l ClimbDone show ?thesis
        by (auto split: sum.split)
    qed
  qed
qed simp

lemma soak_kept:
  assumes "kept_within env q P" and "v0 \<in> set (ql_voltages q)" and "P (rs_card s)" and "0 \<le> off" and "off \<le> ql_cap_mhz q"
    and "tame_quality q" and "soak env q v0 as off msg s = (msg', s')"
  shows "P (rs_card s') \<and> rs_loads s' \<le> rs_loads s + length as"
  using assms(3-5,7)
proof (induction "as" arbitrary: off msg s)
  case (Cons a "as")
  obtain again off1 msg1 s1 where a: "soak_attempt env q v0 a off msg s = (again, off1, msg1, s1)"
    by (metis prod_cases4)
  have lock: "P (snd (lock_core_voltage_mv (le_vendor env) v0 (rs_card s)))"
    using assms(1,2) Cons.prems(1) by (simp add: kept_within_def)
  have "P (snd (set_core_offset_mhz (le_vendor env) off (snd (lock_core_voltage_mv (le_vendor env) v0 (rs_card s)))))"
    by (rule kept_offset [OF assms(1) lock]) (use Cons.prems in simp_all)
  moreover have "i32_sub off (i32_mul (ql_step_mhz q) 2) \<le> off"
    using Cons.prems assms(6) by (simp add: i32_sub_def i32_mul_def tame_quality_def is_i32_def)
  ultimately have s1: "P (rs_card s1)" "rs_loads s1 \<le> rs_loads s + 1" "again \<Longrightarrow> 0 \<le> off1 \<and> off1 \<le> ql_cap_mhz q"
    using a assms(1) Cons.prems(2,3)
    by (auto simp: soak_attempt_def Let_def pair_split kept_within_def split: sum.splits if_splits)
  show ?case
    using Cons.prems(4) Cons.IH [of s1 off1 msg1] s1 a by (cases again) auto
qed simp

lemma warm_up_kept:
  "kept_within env q P \<Longrightarrow> P (card_of b) \<Longrightarrow>
   P (card_of (warm_up env n b)) \<and> bn_loads (warm_up env n b) \<le> bn_loads b + n"
  by (induction env n b rule: warm_up.induct) (auto simp: kept_within_def)

lemma validation_kept:
  assumes "kept_within env q P" and "tame_quality q" and "P (rs_card s)" and "top_ok q s"
  shows "P (rs_card (long_validation env q s)) \<and> rs_loads (long_validation env q s) \<le> rs_loads s + 2"
proof (cases "rs_crashed s \<or> stop_seen env (rs_bench s) \<or> rs_top s = None")
  case True
  then show ?thesis using assms(3) by (auto simp: long_validation_def)
next
  case False
  then obtain v0 off0 where t: "rs_top s = Some (v0, off0)" by auto
  let ?off = "max (i32_sub off0 (as_i32 (ql_margin_mhz q))) 0"
  let ?s0 = "s\<lparr>rs_prog := (rs_prog s)\<lparr>gr_phase := SwSynthesis, gr_validation_note := Some SoakRunning\<rparr>\<rparr>"
  obtain msg s' where k: "soak env q v0 [0, 1] ?off SoakFailed ?s0 = (msg, s')" by fastforce
  have off0: "v0 \<in> set (ql_voltages q)" "0 \<le> off0" "off0 \<le> ql_cap_mhz q" using assms(4) t by (auto simp: top_ok_def)
  have "?off \<le> ql_cap_mhz q"
  proof -
    have "is_i32 (off0 - int (ql_margin_mhz q))" "is_i32 (int (ql_margin_mhz q))"
      using off0 assms(2) by (auto simp: tame_quality_def is_i32_def)
    then have "i32_sub off0 (as_i32 (ql_margin_mhz q)) = off0 - int (ql_margin_mhz q)"
      by (simp add: i32_sub_def as_i32_def)
    then show ?thesis using off0 by simp
  qed
  from soak_kept [OF assms(1) off0(1) _ _ this assms(2) k] assms(3) False t k show ?thesis
    by (auto simp: long_validation_def)
qed

section \<open>What the memory sweep ends with\<close>

lemma mem_measure_peak:
  "mem_measure env offset s = (again, s') \<Longrightarrow> mw_peak_offset_mhz (mm_prog s') \<in> {mw_peak_offset_mhz (mm_prog s), offset} \<and>
   mw_validation_note (mm_prog s') = None \<and> (again \<longrightarrow> mm_crashed s' = mm_crashed s)"
  by (auto simp: mem_measure_def Let_def pair_split split: if_splits)

lemma mem_search_peak:
  assumes "0 \<le> offset" and "offset \<le> mem_cap_mhz" and "0 \<le> mw_peak_offset_mhz (mm_prog s)"
    and "mw_peak_offset_mhz (mm_prog s) \<le> mem_cap_mhz" and "mw_validation_note (mm_prog s) = None"
  shows "0 \<le> mw_peak_offset_mhz (mm_prog (mem_search env offset s)) \<and>
    mw_peak_offset_mhz (mm_prog (mem_search env offset s)) \<le> mem_cap_mhz \<and>
    mw_validation_note (mm_prog (mem_search env offset s)) = None"
  using assms
proof (induction env offset s rule: mem_search.induct)
  case (1 env offset s)
  define b1 where "b1 = arm_ignored env (mem_intent offset) ''gpu_mem_sweep'' (mm_bench s)"
  obtain x b2 where x: "on_card (set_mem_offset_mhz (le_vendor env) offset) b1 = (x, b2)" by fastforce
  note unfold = mem_search.simps [of env offset s, folded b1_def, unfolded x Let_def]
  show ?case
  proof (cases "stop_seen env (mm_bench s) \<or> is_err x")
    case True
    then show ?thesis using unfold "1.prems" by (auto simp: is_err_def split: sum.splits)
  next
    case False
    then obtain u where u: "x = Inr u" "\<not> stop_seen env (mm_bench s)" by (cases x) auto
    obtain again s' where m: "mem_measure env offset (s\<lparr>mm_bench := b2\<rparr>) = (again, s')" by fastforce
    note M = mem_measure_peak [OF m]
    have P: "0 \<le> mw_peak_offset_mhz (mm_prog s')" "mw_peak_offset_mhz (mm_prog s') \<le> mem_cap_mhz"
      "mw_validation_note (mm_prog s') = None"
      using M "1.prems" by auto
    show ?thesis
    proof (cases "again \<and> offset + mem_step_mhz \<le> mem_cap_mhz")
      case True
      then have "mem_search env offset s = mem_search env (offset + mem_step_mhz) s'"
        using unfold u m by simp
      moreover have "0 \<le> offset + mem_step_mhz" using "1.prems"(1) by (simp add: mem_step_mhz_def)
      ultimately show ?thesis
        using "1.IH" [OF u(2) b1_def x [symmetric] u(1) m [symmetric] True] True P by (auto simp: mem_step_mhz_def)
    next
      case False
      then have "mem_search env offset s = s'" using unfold u m by auto
      then show ?thesis using P by simp
    qed
  qed
qed

text \<open>The soak ends in one of three ways; a card that does not come back leaves the peak at the offset that
  lost it.\<close>

lemma mem_soak_ends:
  assumes "mw_peak_offset_mhz (mm_prog s) = max off 0" and "\<not> mm_crashed s"
  shows "case mw_validation_note (mm_prog (mem_soak env off s)) of
      Some (OffsetValidated k) \<Rightarrow> k = mw_peak_offset_mhz (mm_prog (mem_soak env off s)) \<and> 0 < k \<and>
        \<not> mm_crashed (mem_soak env off s)
    | Some NoStableOffset \<Rightarrow> mw_peak_offset_mhz (mm_prog (mem_soak env off s)) = 0 \<and> \<not> mm_crashed (mem_soak env off s)
    | Some NotRecovered \<Rightarrow> 0 < mw_peak_offset_mhz (mm_prog (mem_soak env off s)) \<and> mm_crashed (mem_soak env off s)
    | _ \<Rightarrow> False"
  using assms
proof (induction env off s rule: mem_soak.induct)
  case (1 env off s)
  show ?case
  proof (cases "off \<le> 0")
    case True
    then show ?thesis using "1.prems" by (simp add: mem_soak.simps set_mem_note_def)
  next
    case False
    define s0 where "s0 = set_mem_note (CombinedSoak off) s"
    define b1 where "b1 = card_ignored (set_mem_offset_mhz (le_vendor env) off)
        (arm_ignored env (mem_intent off) ''gpu_mem_validate'' (mm_bench s0))"
    obtain r b2 where r: "run_load env (CombinedLoad 40000) b1 = (r, b2)" by fastforce
    define b3 where "b3 = card_ignored (set_mem_offset_mhz (le_vendor env) 0) b2"
    obtain bw b4 where bw: "run_load env (BandwidthStats 20000) b2 = (bw, b4)" by fastforce
    note unfold = mem_soak.simps [of env off s, unfolded Let_def, folded s0_def, folded b1_def, unfolded r prod.case,
        folded b3_def, unfolded bw prod.case]
    have s0: "mm_prog s0 = (mm_prog s)\<lparr>mw_validation_note := Some (CombinedSoak off)\<rparr>" "mm_crashed s0 = mm_crashed s"
      by (simp_all add: s0_def set_mem_note_def)
    have rec: "mw_peak_offset_mhz (mm_prog (set_peak (max (off - 2 * mem_step_mhz) 0) (s0\<lparr>mm_bench := b\<rparr>))) =
        max (off - 2 * mem_step_mhz) 0" "\<not> mm_crashed (set_peak (max (off - 2 * mem_step_mhz) 0) (s0\<lparr>mm_bench := b\<rparr>))" for b
      using s0 "1.prems"(2) by (simp_all add: set_peak_def)
    note IH = "1.IH" [OF False s0_def b1_def refl r [symmetric]]
    consider (returned) "caught r = ResCrash" "le_recover env (bn_loads b3)"
      | (lost) "caught r = ResCrash" "\<not> le_recover env (bn_loads b3)"
      | (good) "caught r \<noteq> ResCrash" "is_stable (caught r) \<and> consistency (ld_peak_gbps bw) (ld_min_gbps bw) \<ge> f64_round (96 / 100)"
      | (bad) "caught r \<noteq> ResCrash" "\<not> (is_stable (caught r) \<and> consistency (ld_peak_gbps bw) (ld_min_gbps bw) \<ge> f64_round (96 / 100))"
      by blast
    then show ?thesis
    proof cases
      case returned
      then have "mem_soak env off s =
          mem_soak env (off - 2 * mem_step_mhz) (set_peak (max (off - 2 * mem_step_mhz) 0) (s0\<lparr>mm_bench := b3\<rparr>))"
        using unfold False by simp
      then show ?thesis using IH(1) [OF returned(1) b3_def returned(2) rec] by (simp only:)
    next
      case lost
      then show ?thesis using False unfold s0 "1.prems" by (simp add: set_mem_note_def)
    next
      case good
      then show ?thesis using False unfold s0 "1.prems" by (simp add: set_mem_note_def set_peak_def)
    next
      case bad
      then have "mem_soak env off s =
          mem_soak env (off - 2 * mem_step_mhz) (set_peak (max (off - 2 * mem_step_mhz) 0) (s0\<lparr>mm_bench := b4\<rparr>))"
        using unfold False by auto
      then show ?thesis using IH(2) [OF bad(1) bw [symmetric] bad(2) rec] by (simp only:)
    qed
  qed
qed

lemma lost_card_keeps_its_peak:
  assumes "0 < off" and "b1 = card_ignored (set_mem_offset_mhz (le_vendor env) off)
      (arm_ignored env (mem_intent off) ''gpu_mem_validate'' (mm_bench s))"
    and "run_load env (CombinedLoad 40000) b1 = (r, b2)" and "caught r = ResCrash" and "\<not> le_recover env (bn_loads b2)"
  shows "mw_peak_offset_mhz (mm_prog (mem_soak env off s)) = mw_peak_offset_mhz (mm_prog s) \<and>
    mw_validation_note (mm_prog (mem_soak env off s)) = Some NotRecovered \<and> mm_crashed (mem_soak env off s)"
  using assms by (simp add: mem_soak.simps [of env off s] set_mem_note_def)

section \<open>What the package leaves\<close>

lemma core_climb_step:
  "core_climb env offset best b =
     (let l = run_load env (CombinedLoad 6000) (card_ignored (set_core_offset_mhz (le_vendor env) offset) b)
      in if stop_seen env b then (CoreAborted, b)
         else if caught (fst l) = ResStable
         then (if offset + 15 > 300 then (CoreBest (ld_peak_mhz (fst l)), snd l)
               else core_climb env (offset + 15) (ld_peak_mhz (fst l)) (snd l))
         else (CoreBest best, if caught (fst l) = ResCrash
                              then card_ignored (set_core_offset_mhz (le_vendor env) 0) (snd l) else snd l))"
  by (subst core_climb.simps) (simp add: pair_split Let_def split: stability_result.split)

lemma core_climb_disk: "disk_of (snd (core_climb env offset best b)) = disk_of b"
proof (induction "nat (300 - offset)" arbitrary: offset best b rule: less_induct)
  case less
  let ?l = "run_load env (CombinedLoad 6000) (card_ignored (set_core_offset_mhz (le_vendor env) offset) b)"
  have d: "disk_of (snd ?l) = disk_of b" by simp
  show ?case
  proof (cases "offset + 15 > 300")
    case True
    then show ?thesis using d by (subst core_climb_step) (simp add: Let_def)
  next
    case False
    then have "disk_of (snd (core_climb env (offset + 15) x (snd ?l))) = disk_of (snd ?l)" for x
      by (intro less.hyps) simp
    then show ?thesis using False d by (subst core_climb_step) (simp add: Let_def)
  qed
qed

definition soak_load :: "'g load_env \<Rightarrow> i32 \<Rightarrow> 'g bench \<Rightarrow> load_reply \<times> 'g bench" where
  "soak_load env mem b = run_load env (CombinedLoad 120000) (card_ignored (set_mem_offset_mhz (le_vendor env) mem) b)"

definition soak_recovered :: "'g load_env \<Rightarrow> u32 \<Rightarrow> load_reply \<times> 'g bench \<Rightarrow> 'g bench" where
  "soak_recovered env freq l =
     (if caught (fst l) = ResCrash
      then (let b' = card_ignored (set_mem_offset_mhz (le_vendor env) 0) (snd l)
            in if le_recover env (bn_loads b') then apply_core_ignored env freq b' else b')
      else snd l)"

lemma package_soak_step:
  "package_soak env freq (a # as) mem b =
     (if is_stable (caught (fst (soak_load env (max mem 0) b))) then (True, max mem 0, snd (soak_load env (max mem 0) b))
      else if max mem 0 - 100 \<le> 0 \<and> a \<ge> 1 then (False, 0, soak_recovered env freq (soak_load env (max mem 0) b))
      else package_soak env freq as (max mem 0 - 100) (soak_recovered env freq (soak_load env (max mem 0) b)))"
  by (simp add: soak_load_def soak_recovered_def pair_split Let_def)

declare package_soak.simps(2) [simp del]

lemma package_soak_none:
  "package_soak env freq as mem b = (ok, mem', b') \<Longrightarrow> mem \<le> 0 \<Longrightarrow> mem' \<le> 0 \<and> disk_of b' = disk_of b"
proof (induction "as" arbitrary: mem b)
  case (Cons a "as")
  have d: "disk_of (snd (soak_load env 0 b)) = disk_of b" "disk_of (soak_recovered env freq (soak_load env 0 b)) = disk_of b"
    by (simp_all add: soak_load_def soak_recovered_def apply_core_ignored_def Let_def)
  from Cons.prems(2) have m: "max mem 0 = 0" by simp
  show ?case
    using Cons.prems(1) Cons.IH [of "- 100" "soak_recovered env freq (soak_load env 0 b)"] d
    unfolding package_soak_step m by (auto split: if_splits)
qed simp

lemma tune_stopped:
  assumes "tune_package env freq b = (ok, mem, b')" and "\<forall>n. bn_loads b \<le> n \<longrightarrow> le_stop env n" and "0 < freq"
  shows "mem \<le> 0" and "disk_of b' = disk_of b"
proof -
  have "package_climb env 50 0 (apply_core_ignored env freq b) = (0, apply_core_ignored env freq b)"
    using assms(2) by (simp add: package_climb.simps stop_seen_def apply_core_ignored_def)
  then have "package_soak env freq [0, 1, 2] 0
      (apply_core_ignored env freq (card_ignored (set_mem_offset_mhz (le_vendor env) 0) (apply_core_ignored env freq b))) =
      (ok, mem, b')"
    using assms(1,3) by (simp add: tune_package_def Let_def del: package_soak.simps)
  from package_soak_none [OF this] show "mem \<le> 0" and "disk_of b' = disk_of b"
    by (simp_all add: apply_core_ignored_def)
qed

section \<open>Properties\<close>

text \<open>C36: a sweep of a preset always ends, after a bounded number of loads, and writes nothing outside its
  limits: whatever the loads return, a property of the card that loads, the listed voltages, offsets
  between zero and the cap, unlocking and the full reset keep is kept by the whole sweep.\<close>

theorem real_sweep_within_limits:
  assumes "tame_quality q" and "kept_within env q P" and "P (card_of b)"
  shows "\<exists>prog b'. run_real_sweep env q warm b = Some (prog, b') \<and> P (card_of b') \<and>
    bn_loads b' \<le> bn_loads b + warm + length (ql_voltages q) * climb_bound q + 3"
proof (cases "le_open env (bn_loads b)")
  case True
  obtain r b1 where r: "run_load env vram_gate (reset_ignored env b) = (r, b1)" by fastforce
  have "b1 = snd (run_load env vram_gate (reset_ignored env b))" by (simp only: r snd_conv)
  then have b1: "P (card_of b1)" "bn_loads b1 = bn_loads b + 1"
    using assms(2,3) by (simp_all add: kept_within_def)
  show ?thesis
  proof (cases "is_stable (caught r)")
    case stable: True
    note w = warm_up_kept [OF assms(2) b1(1), of warm]
    let ?s0 = "\<lparr>rs_bench = warm_up env warm b1, rs_prog = (idle_sweep\<lparr>gr_total_freqs := length (ql_voltages q)\<rparr>)
        \<lparr>gr_phase := SwBaseline\<rparr>, rs_points = [], rs_crashed = False, rs_top = None, rs_min_unstable = None\<rparr>"
    have "\<exists>s1. sweep_voltages env q 0 (ql_voltages q) ?s0 = Some s1 \<and> P (rs_card s1) \<and> top_ok q s1 \<and>
        rs_loads s1 \<le> rs_loads ?s0 + length (ql_voltages q) * climb_bound q"
      by (rule voltages_end [OF assms(1,2)]) (use w in \<open>simp_all add: top_ok_def\<close>)
    then obtain s1 where s1: "sweep_voltages env q 0 (ql_voltages q) ?s0 = Some s1" "P (rs_card s1)" "top_ok q s1"
      "rs_loads s1 \<le> rs_loads ?s0 + length (ql_voltages q) * climb_bound q" by blast
    let ?s2 = "publish_points env s1"
    have s2: "P (rs_card ?s2)" "top_ok q ?s2" "rs_loads ?s2 = rs_loads s1"
      using s1 assms(2) by (auto simp: publish_points_def Let_def top_ok_def kept_within_def)
    note v = validation_kept [OF assms(2,1) s2(1,2)]
    have "P (rs_card (finish_real env (long_validation env q ?s2)))"
      "rs_loads (finish_real env (long_validation env q ?s2)) = rs_loads (long_validation env q ?s2)"
      using v assms(2) by (simp_all add: finish_real_def kept_within_def)
    then show ?thesis
      using True r stable s1 s2 v w b1 by (simp add: run_real_sweep_def Let_def)
  next
    case False
    then show ?thesis using True r b1 assms(2) by (simp add: run_real_sweep_def kept_within_def)
  qed
qed (use assms(3) in \<open>simp add: run_real_sweep_def\<close>)

text \<open>What the published peak of the memory sweep means. A note of validation names the peak itself, and
  without a stable offset the peak is zero; but when the card did not come back from the soak the sweep
  publishes, as its peak, the offset that lost the card, and the request for the memory peak only asks for a
  positive one.\<close>

lemma mem_peak_meaning:
  "case fst (run_mem_sweep env b) of p \<Rightarrow>
     (case mw_validation_note p of
        Some (OffsetValidated k) \<Rightarrow> mw_peak_offset_mhz p = k \<and> 0 < k \<and> mw_phase p = SwDone
      | Some NoStableOffset \<Rightarrow> mw_peak_offset_mhz p = 0 \<and> mw_phase p = SwDone
      | Some NotRecovered \<Rightarrow> 0 < mw_peak_offset_mhz p \<and> mw_phase p = SwAborted
      | Some _ \<Rightarrow> False
      | None \<Rightarrow> True)"
proof (cases "le_open env (bn_loads b)")
  case True
  obtain r b1 where r: "run_load env (BandwidthOnce 2000) (reset_ignored env b) = (r, b1)" by fastforce
  define s0 where "s0 = \<lparr>mm_bench = b1, mm_prog = idle_mem\<lparr>mw_running := True, mw_phase := SwVoltageBisection,
      mw_baseline_gbps := f64_as_f32 (ld_peak_gbps r), mw_peak_gbps := f64_as_f32 (ld_peak_gbps r)\<rparr>, mm_crashed = False\<rparr>"
  define s1 where "s1 = mem_search env mem_step_mhz s0"
  have "0 \<le> mw_peak_offset_mhz (mm_prog s1) \<and> mw_peak_offset_mhz (mm_prog s1) \<le> mem_cap_mhz \<and>
      mw_validation_note (mm_prog s1) = None"
    unfolding s1_def by (rule mem_search_peak) (simp_all add: s0_def idle_mem_def mem_step_mhz_def mem_cap_mhz_def)
  then show ?thesis
    unfolding run_mem_sweep_def r prod.case Let_def s0_def [symmetric] s1_def [symmetric]
    using mem_soak_ends [of s1 "mw_peak_offset_mhz (mm_prog s1)" env] True
    by (cases "\<not> mm_crashed s1 \<and> \<not> stop_seen env (mm_bench s1) \<and> 0 < mw_peak_offset_mhz (mm_prog s1)")
      (auto split: option.splits mem_text.splits)
qed (simp add: run_mem_sweep_def idle_mem_def)

text \<open>Stopping the package does not stop it. Once the core's clock is chosen, a raised stop flag only skips
  the memory search: the soak runs, whatever it says the core is persisted for every boot, and the run
  reports that it is done. Up to that point no boot flag was armed, so a crash on the way left no trace.\<close>

lemma stopped_package_is_persisted:
  assumes "le_open env (bn_loads b)"
    and "run_load env vram_gate (reset_ignored env b) = (r, b1)"
    and "is_stable (caught r)" and "\<not> stop_seen env b1"
    and "on_card (lock_core_voltage_mv (le_vendor env) core_voltage_mv) b1 = (Inr u, b2)"
    and "core_climb env 0 0 b2 = (CoreBest best, b3)" and "45 < best"
    and "\<forall>n. bn_loads b3 \<le> n \<longrightarrow> le_stop env n"
    and "run_forge_all env b = (p, b')"
  shows "fp_phase p = ''done'' \<and>
    (\<exists>m x. mc_disk m = disk_of b \<and>
       apply_and_persist (le_vendor env) (le_legacy env) (le_codecs env) (le_now env) ''Forge All''
         (Some \<lparr>vp_freq_mhz = best - 45, vp_voltage_mv = core_voltage_mv\<rparr>) None m = (x, bn_machine b'))"
proof -
  let ?freq = "u32_sat_sub best 45"
  have freq: "?freq = best - 45" "0 < ?freq" using assms(7) by (simp_all add: u32_sat_sub_def)
  have "b1 = snd (run_load env vram_gate (reset_ignored env b))"
    "b2 = snd (on_card (lock_core_voltage_mv (le_vendor env) core_voltage_mv) b1)"
    by (simp_all only: assms(2,5) snd_conv)
  then have d2: "disk_of b2 = disk_of b" by simp
  have d3: "disk_of b3 = disk_of b2" using core_climb_disk [of env 0 0 b2] assms(6) by simp
  let ?b4 = "card_ignored (set_core_offset_mhz (le_vendor env) 0) b3"
  obtain ok mem b5 where t: "tune_package env ?freq ?b4 = (ok, mem, b5)" by (metis prod_cases3)
  have T: "mem \<le> 0" "disk_of b5 = disk_of b3"
    using tune_stopped [OF t _ freq(2)] assms(8) by simp_all
  have run: "(p, b') = (\<lparr>fp_running = False, fp_phase = ''done'',
      fp_note = Some (if ok then PackageValidated else PackageReceded)\<rparr>, persist_package env ?freq ok mem b5)"
    using assms(1,3,4,9) by (simp add: run_forge_all_def assms(2,5,6) t Let_def)
  obtain x m' where a: "apply_and_persist (le_vendor env) (le_legacy env) (le_codecs env) (le_now env) ''Forge All''
      (Some \<lparr>vp_freq_mhz = best - 45, vp_voltage_mv = core_voltage_mv\<rparr>) None (bn_machine b5) = (x, m')" by fastforce
  then have "bn_machine b' = m'" using run T(1) freq by (simp add: persist_package_def)
  then show ?thesis using run a T(2) d3 d2 by auto
qed

text \<open>The answer of one load.\<close>

definition quick_reply :: "stability_result \<Rightarrow> load_reply" where
  "quick_reply r = \<lparr>ld_result = Some r, ld_peak_mhz = 1900, ld_temp_c = None, ld_peak_gbps = Fin 1,
     ld_min_gbps = Fin 1, ld_mem_mhz = 0\<rparr>"

text \<open>A card that is its core offset, in kHz, under loads that start to fail.\<close>

definition offset_vendor :: "i32 vendor" where
  "offset_vendor =
     \<lparr>ven_locks = (\<lambda>_. Some [(3, False, 0)]), ven_set_locks = (\<lambda>_ g. (True, g)), ven_set_core = (\<lambda>khz _. (True, khz)),
      ven_set_mem = (\<lambda>_ g. (True, g)), ven_status = (\<lambda>_ _. None), ven_base = (\<lambda>_ _. None),
      ven_get_point = (\<lambda>_ _. None), ven_set_point = (\<lambda>_ _ g. (0, g)), ven_probe = (\<lambda>_. 1),
      ven_lock_clock = (\<lambda>_ _ g. (True, g)), ven_reset_clock = (\<lambda>g. (True, g))\<rparr>"

definition offset_env :: "i32 load_env" where
  "offset_env = \<lparr>le_vendor = offset_vendor, le_codecs = toy_codecs, le_now = ''now'', le_legacy = (\<lambda>_. None),
     le_load = (\<lambda>_ n g. (quick_reply (if n < 7 then ResStable else ResSilentError), g)),
     le_stop = (\<lambda>_. False), le_open = (\<lambda>_. True), le_recover = (\<lambda>_. False)\<rparr>"

definition offset_bench :: "i32 bench" where
  "offset_bench = \<lparr>bn_machine = \<lparr>mc_disk = toy_disk, mc_gpu = 0, mc_timers = []\<rparr>, bn_loads = 0\<rparr>"

definition within_cap :: "i32 \<Rightarrow> bool" where
  "within_cap khz \<longleftrightarrow> 0 \<le> khz \<and> khz \<le> 1000 * ql_cap_mhz quality_fast"

lemma offset_kept: "kept_within offset_env quality_fast within_cap"
  unfolding kept_within_def
  apply (intro allI impI conjI ballI)
  subgoal by (simp add: offset_env_def)
  subgoal by (simp add: offset_env_def offset_vendor_def lock_core_voltage_mv_def drv_of_def drv_then_def)
  subgoal for g off
    using i32_wrap_id [of "off * 1000"]
    by (simp add: offset_env_def offset_vendor_def set_core_offset_mhz_def drv_of_def drv_then_def within_cap_def quality_fast_def
        i32_mul_def is_i32_def)
  subgoal by (simp add: offset_env_def offset_vendor_def unlock_core_voltage_def drv_of_def drv_then_def)
  subgoal by (simp add: offset_env_def offset_vendor_def reset_all_def unlock_core_voltage_def set_core_offset_mhz_def set_mem_offset_mhz_def vf_curve_supported_def i32_mul_def i32_wrap_def
        drv_of_def drv_then_def within_cap_def quality_fast_def)
  done

theorem real_sweep_within_limits_witness:
  "\<exists>prog b'. run_real_sweep offset_env quality_fast 1 offset_bench = Some (prog, b') \<and>
     0 \<le> card_of b' \<and> card_of b' \<le> 1000 * ql_cap_mhz quality_fast \<and>
     bn_loads b' \<le> 1 + 2 * climb_bound quality_fast + 3"
  using real_sweep_within_limits [OF tame_presets(1) offset_kept, of offset_bench 1]
  by (simp add: offset_bench_def within_cap_def quality_fast_def)

end
