(* ===== verification/ForgeRecovery.thy ===== *)
theory ForgeRecovery
  imports ForgeState
begin

text \<open>
  What a forge run leaves behind: the properties of the checkpoint, the resume and the incidents of
  \<open>ForgeState\<close>, together with the recovery at the next start of the service.
\<close>

section \<open>A restored checkpoint\<close>

definition qualified_point :: power_sweep_point where
  "qualified_point = default_power_point\<lparr>ps_target_clock_mhz := Some 1900, ps_vf_table_voltage_mv := Some 900,
     ps_apply_qualified := True, ps_apply_qualification_version := Some 25\<rparr>"

definition finished_progress :: forge_progress where
  "finished_progress = idle_progress\<lparr>sp_godforge := Some qualified_point, sp_brokkrs := Some qualified_point,
     sp_deep_calm := Some qualified_point, fg_is_undervolt := True, fg_profiles_qualified := True,
     fg_phase := ''finished''\<rparr>"

definition state_disk :: disk where
  "state_disk = empty_disk\<lparr>files := [forge_state_file_name \<mapsto> ''s'']\<rparr>"

lemma forge_file_other [simp]:
  "forge_state_file_name \<noteq> record_file" "forge_state_file_name \<noteq> boot_flag_file"
  "forge_state_file_name \<noteq> clean_shutdown_file" "forge_state_file_name \<noteq> ledger_file"
  "forge_state_file_name \<noteq> observations_file" "forge_state_file_name \<noteq> applied_file"
  by (simp_all add: forge_state_file_name_def file_names ledger_file_def observations_file_def applied_file_def)

lemmas forge_file_other_sym [simp] = forge_file_other [symmetric]

lemma trim_s: "trim_boms ''s'' = ''s''"
  by (simp add: trim_boms.simps [of "''s''"] bom_def)

lemma restored_finished:
  "load_forge_state (toy_forge_codecs default_record finished_progress) ''g'' state_disk =
     (Some finished_progress, state_disk)"
proof -
  let ?cx = "toy_forge_codecs default_record finished_progress"
  have r: "load_record (cx_record ?cx) state_disk = default_record"
    by (simp add: load_record_def fs_read_def state_disk_def empty_disk_def)
  have l: "ledger_pairs (cx_event ?cx) state_disk ''g'' = no_pairs"
    by (simp add: ledger_pairs_def ledger_load_def load_lines_def fs_read_def state_disk_def
        empty_disk_def condemned_pairs_of_def)
  have q: "point_apply_qualified qualified_point"
    by (simp add: point_apply_qualified_def qualified_point_def f2_qualification_contract_version_def)
  have prof: "profiles_of finished_progress = [Some qualified_point, Some qualified_point, Some qualified_point]"
    by (simp add: profiles_of_def finished_progress_def)
  have dec: "decode_forge_state ?cx ''s'' ''g'' = LoadedState finished_progress"
    using q by (simp add: decode_forge_state_def toy_forge_codecs_def trim_s drop_old_qualification_def prof
        points_apply_qualified_def label_interrupted_def close_checkpoint_def)
      (simp add: finished_progress_def idle_progress_def)
  have "\<not> point_field_failure default_record no_pairs qualified_point"
    by (simp add: point_field_failure_def field_pair_blacklisted_def is_blacklisted_def default_record_def
        field_floor_refuses_def field_vf_floor_mv_def field_points_def refuses_def no_pairs_def
        vf_floor_envelope_def envelope_at_def running_envelope_def List.map_filter_def is_some_and_def)
  then have "reject_condemned default_record no_pairs finished_progress = finished_progress"
    by (simp add: reject_condemned_def prof set_has_field_failure_def)
  moreover have "reject_pending default_record finished_progress = finished_progress"
    by (simp add: reject_pending_def default_record_def)
  moreover have "restore_power ?cx ''g'' finished_progress state_disk = (finished_progress, state_disk)"
    by (simp add: restore_power_def prof publish_point_power_def qualified_point_def default_power_point_def
        opt_filter_def opt_bind_def)
  moreover have "fs_read forge_state_file_name state_disk = Inr ''s''"
    by (simp add: fs_read_def state_disk_def empty_disk_def)
  ultimately show ?thesis by (simp add: load_forge_state_def dec r l)
qed

lemma finished_flags: "fg_is_undervolt finished_progress" "fg_profiles_qualified finished_progress"
  by (simp_all add: finished_progress_def)

section \<open>Resume\<close>

lemma compat_mismatch_self: "compat_mismatch c c = None"
  by (simp add: compat_mismatch_def)

text \<open>A run is resumed exactly when no incident is pending, no worker runs, and the published progress
  is a closed checkpoint of a paused run that this very program, on this card and driver, wrote with its
  mode, its learning policy and its run; only then does the world change into that of a started worker.\<close>

lemma resume_exact:
  "fst (resume_forge cx cur d w) = Inr (mode, learning) \<longleftrightarrow>
     pending_forge_incident (load_record (cx_record cx) d) = None \<and> \<not> fw_running w \<and>
     \<not> fg_running (fw_progress w) \<and> fg_phase (fw_progress w) = ''paused'' \<and>
     (\<exists>c. cur = Inr c \<and> fg_resume_compatibility (fw_progress w) = Some c) \<and>
     opt_bind (fg_mode (fw_progress w)) mode_from_id = Some mode \<and>
     opt_bind (fg_learning (fw_progress w)) learning_from_id = Some learning \<and>
     fg_run_id (fw_progress w) \<noteq> None"
proof -
  have valid: "validate_resume_checkpoint p c = Inr (mode, learning) \<longleftrightarrow>
      \<not> fg_running p \<and> fg_phase p = ''paused'' \<and> fg_resume_compatibility p = Some c \<and>
      opt_bind (fg_mode p) mode_from_id = Some mode \<and>
      opt_bind (fg_learning p) learning_from_id = Some learning \<and> fg_run_id p \<noteq> None" for p c
    using compat_mismatch_None
    by (auto simp: compat_mismatch_self validate_resume_checkpoint_def split: option.splits)
  have start: "fst (start_with_intent cx d w) \<longleftrightarrow>
      pending_forge_incident (load_record (cx_record cx) d) = None \<and> \<not> fw_running w"
    by (auto simp: start_with_intent_eq)
  show ?thesis
  proof (cases cur)
    case (Inl e)
    then show ?thesis by (simp add: resume_forge_def)
  next
    case (Inr c)
    show ?thesis
    proof (cases "validate_resume_checkpoint (fw_progress w) c")
      case (Inl e)
      with valid [of "fw_progress w" c] show ?thesis by (auto simp: resume_forge_def Inr)
    next
      case V: (Inr ml)
      have "fst (resume_forge cx cur d w) = Inr (mode, learning) \<longleftrightarrow>
          fst (start_with_intent cx d w) \<and> ml = (mode, learning)"
        using start by (auto simp: resume_forge_def Inr V split: prod.splits bool.splits)
      with valid [of "fw_progress w" c] start show ?thesis by (auto simp: Inr V)
    qed
  qed
qed

section \<open>An interrupted run\<close>

definition record_kept :: "forge_codecs \<Rightarrow> safe_loop_record \<Rightarrow> bool" where
  "record_kept cx r \<longleftrightarrow> (\<exists>s. enc (cx_record cx) r = Some s \<and> dec (cx_record cx) (strip_bom s) = Some r)"

definition record_writable :: "disk \<Rightarrow> bool" where
  "record_writable d \<longleftrightarrow> \<not> refused d record_file \<and> \<not> unreadable d record_file \<and> \<not> dir_refused d"

lemma record_kept_load:
  "record_kept cx r \<Longrightarrow> record_writable d \<Longrightarrow> load_record (cx_record cx) (snd (save_record (cx_record cx) r d)) = r"
  by (auto simp: record_kept_def record_writable_def intro: load_after_save)

lemma save_forge_state_cases: "save_forge_state cx gpu p d = d \<or>
    (\<exists>s. save_forge_state cx gpu p d = snd (fs_write forge_state_file_name s d))"
  by (auto simp: save_forge_state_def split: option.split)

lemma save_forge_state_other:
  assumes "forge_state_file_name \<noteq> n"
  shows "fs_read n (save_forge_state cx gpu p d) = fs_read n d"
    and "fs_exists n (save_forge_state cx gpu p d) = fs_exists n d"
  using save_forge_state_cases [of cx gpu p d] fs_frame [OF assms] by metis+

lemma save_forge_state_frame:
  "load_record c (save_forge_state cx gpu p d) = load_record c d"
  "read_boot_flag fc (save_forge_state cx gpu p d) = read_boot_flag fc d"
  "is_boot_flag_armed (save_forge_state cx gpu p d) = is_boot_flag_armed d"
  "is_clean_shutdown_present (save_forge_state cx gpu p d) = is_clean_shutdown_present d"
  by (simp_all add: load_record_def read_boot_flag_def is_boot_flag_armed_def
      is_clean_shutdown_present_def save_forge_state_other)

lemma save_forge_state_permissions:
  "refused (save_forge_state cx gpu p d) = refused d"
  "unreadable (save_forge_state cx gpu p d) = unreadable d"
  "dir_refused (save_forge_state cx gpu p d) = dir_refused d"
  by (auto simp: save_forge_state_def fs_write_def split: option.split)

lemma boot_keeps_pending: "pending_forge_incident (boot_record b r) = pending_forge_incident r"
  by (cases b) (auto simp: boot_defs split: option.splits)

lemma record_incident_new:
  assumes "record_incident cx inc r d = (True, d')" and "record_kept cx (snd (record_forge_incident inc r))"
    and "record_writable d"
  shows "load_record (cx_record cx) d' = snd (record_forge_incident inc r) \<and>
    pending_forge_incident (snd (record_forge_incident inc r)) = Some inc \<and> record_writable d'"
proof -
  have d': "d' = snd (save_record (cx_record cx) (snd (record_forge_incident inc r)) d)"
    and "fst (record_forge_incident inc r)"
    using assms(1) by (auto simp: record_incident_def split: prod.splits if_splits)
  moreover from this(2) have "pending_forge_incident (snd (record_forge_incident inc r)) = Some inc"
    by (auto simp: record_forge_incident_def Let_def split: if_splits)
  ultimately show ?thesis
    using record_kept_load [OF assms(2,3)] assms(3)
    by (simp add: record_writable_def save_record_permissions)
qed

lemma reconcile_recorded:
  assumes "reconcile_interrupted_forge cx now nanos d = (True, d1)"
    and "read_forge_file cx d = Some file"
    and "record_kept cx (snd (record_forge_incident (restart_incident cx now nanos d file)
           (load_record (cx_record cx) d)))"
    and "record_writable d"
  shows "load_record (cx_record cx) d1 =
      snd (record_forge_incident (restart_incident cx now nanos d file) (load_record (cx_record cx) d)) \<and>
    pending_forge_incident (load_record (cx_record cx) d1) = Some (restart_incident cx now nanos d file) \<and>
    record_writable d1"
proof -
  obtain d' p where i: "record_incident cx (restart_incident cx now nanos d file)
      (load_record (cx_record cx) d) d = (True, d')" and d1: "d1 = save_forge_state cx (fs_gpu_key file) p d'"
    using assms(1,2) by (auto simp: reconcile_interrupted_forge_def Let_def split: if_splits prod.splits)
  from record_incident_new [OF i assms(3,4)] show ?thesis
    by (simp add: d1 save_forge_state_frame save_forge_state_permissions record_writable_def)
qed

lemma reconcile_frame:
  "read_boot_flag fc (snd (reconcile_interrupted_forge cx now nanos d)) = read_boot_flag fc d"
  "is_boot_flag_armed (snd (reconcile_interrupted_forge cx now nanos d)) = is_boot_flag_armed d"
  by (auto simp: reconcile_interrupted_forge_def record_incident_def Let_def save_forge_state_frame
      save_record_frame split: option.split prod.split)

text \<open>C4: a run that a crash interrupted waits for the operator. When the service finds its checkpoint
  still running and records the incident, then after the recovery of this start, whatever it decides
  about the boot flag, the incident is pending on disk, neither a start nor a resume is admitted, and
  the re-application at boot only releases locks.\<close>

theorem interrupted_run_waits:
  assumes "reconcile_interrupted_forge cx now nanos d = (True, d1)"
    and "read_forge_file cx d = Some file"
    and "run_startup_recovery (cx_flag cx) (cx_record cx) msg d1 = (r2, d2)"
    and "record_kept cx (snd (record_forge_incident (restart_incident cx now nanos d file)
           (load_record (cx_record cx) d)))"
    and "record_kept cx r2" and "record_writable d"
    and "mc_disk m = d2" and "m' = reapply_on_boot v legacy settle polls (codecs.truncate cx) now' reboot m"
  shows "pending_forge_incident (load_record (cx_record cx) d2) =
      Some (restart_incident cx now nanos d file) \<and>
    start_with_intent cx d2 w = (False, w) \<and> resume_forge cx cur d2 w = (Inl PendingIncidentBlocks, w) \<and>
    mc_gpu m' = snd (unlock_core_voltage v (snd (reset_core_clock_lock v (mc_gpu m)))) \<and>
    mc_timers m' = mc_timers m"
proof -
  have wr: "record_writable d1" and pend: "pending_forge_incident (load_record (cx_record cx) d1) =
      Some (restart_incident cx now nanos d file)"
    using reconcile_recorded [OF assms(1,2,4,6)] by blast+
  obtain s where s: "enc (cx_record cx) r2 = Some s" "dec (cx_record cx) (strip_bom s) = Some r2"
    using assms(5) by (auto simp: record_kept_def)
  have r2: "r2 = fst (run_startup_recovery (cx_flag cx) (cx_record cx) msg d1)" by (simp add: assms(3))
  have "load_record (cx_record cx) (snd (run_startup_recovery (cx_flag cx) (cx_record cx) msg d1)) = r2"
    by (rule startup_persists [OF s _ _ _ r2]) (use wr in \<open>simp_all add: record_writable_def\<close>)
  then have "load_record (cx_record cx) d2 = r2" by (simp add: assms(3))
  moreover have "pending_forge_incident r2 = Some (restart_incident cx now nanos d file)"
    by (simp add: r2 startup_record boot_keeps_pending pend)
  ultimately have p: "pending_forge_incident (load_record (cx_record cx) d2) =
      Some (restart_incident cx now nanos d file)" by simp
  then have "mc_gpu m' = snd (unlock_core_voltage v (snd (reset_core_clock_lock v (mc_gpu m)))) \<and>
      mc_timers m' = mc_timers m"
    unfolding assms(8) reapply_on_boot_def Let_def
    by (simp add: assms(7) [symmetric] codecs.truncate_def split: option.split)
  with p show ?thesis by (simp add: start_with_intent_eq resume_forge_def)
qed

definition running_progress :: forge_progress where
  "running_progress = idle_progress\<lparr>fg_running := True, fg_run_id := Some ''run''\<rparr>"

definition interrupted_record :: safe_loop_record where
  "interrupted_record = snd (record_forge_incident
     (restart_incident (toy_forge_codecs default_record running_progress) ''now'' None state_disk
        \<lparr>fs_schema = 1, fs_gpu_key = ''g'', fs_progress = running_progress\<rparr>) default_record)"

theorem interrupted_run_waits_witness:
  "\<exists>d1. reconcile_interrupted_forge (toy_forge_codecs interrupted_record running_progress) ''now'' None state_disk =
      (True, d1) \<and>
    fst (start_with_intent (toy_forge_codecs interrupted_record running_progress)
      (snd (run_startup_recovery (cx_flag (toy_forge_codecs interrupted_record running_progress))
         (cx_record (toy_forge_codecs interrupted_record running_progress)) None d1)) idle_world) = False"
proof -
  let ?cx = "toy_forge_codecs interrupted_record running_progress"
  define chk where "chk = \<lparr>fs_schema = 1, fs_gpu_key = ''g'', fs_progress = running_progress\<rparr>"
  define inc where "inc = restart_incident ?cx ''now'' None state_disk chk"
  have chk: "read_forge_file ?cx state_disk = Some chk"
    by (simp add: read_forge_file_def fs_read_def state_disk_def empty_disk_def toy_forge_codecs_def trim_s
        chk_def forge_state_schema_def)
  have r0: "load_record (cx_record ?cx) state_disk = default_record"
    by (simp add: load_record_def fs_read_def state_disk_def empty_disk_def)
  have inc: "snd (record_forge_incident inc default_record) = interrupted_record"
    by (simp add: inc_def interrupted_record_def chk_def restart_incident_def armed_candidate_def
        toy_forge_codecs_def read_boot_flag_def is_clean_shutdown_present_def)
  have new: "fst (record_forge_incident inc default_record)"
    by (simp add: record_forge_incident_def default_record_def Let_def)
  have rf: "record_forge_incident inc default_record = (True, interrupted_record)"
    using inc new by (simp add: prod_eq_iff)
  have wr: "record_writable state_disk"
    by (simp add: record_writable_def state_disk_def empty_disk_def)
  have kept: "record_kept ?cx interrupted_record"
    by (simp add: record_kept_def toy_forge_codecs_def strip_bom_def bom_def)
  define d1 where "d1 = snd (reconcile_interrupted_forge ?cx ''now'' None state_disk)"
  have rec: "reconcile_interrupted_forge ?cx ''now'' None state_disk = (True, d1)"
    using rf unfolding d1_def
    by (simp add: reconcile_interrupted_forge_def chk r0 inc_def [symmetric] record_incident_def Let_def)
      (simp add: chk_def forge_state_schema_def running_progress_def)
  have p: "pending_forge_incident interrupted_record \<noteq> None" "\<not> safe_mode interrupted_record"
      "sl_state interrupted_record = Unstable"
    by (simp_all add: inc [symmetric] record_forge_incident_def default_record_def Let_def)
  have load1: "load_record (cx_record ?cx) d1 = interrupted_record"
    using reconcile_recorded [OF rec chk] kept wr by (simp add: r0 inc_def [symmetric] inc)
  have noflag: "read_boot_flag (cx_flag ?cx) d1 = None"
    by (simp add: d1_def reconcile_frame) (simp add: read_boot_flag_def fs_read_def state_disk_def empty_disk_def)
  have "fst (run_startup_recovery (cx_flag ?cx) (cx_record ?cx) None d1) = interrupted_record"
    using p by (auto simp: startup_record boot_view_def noflag load1 boot_record_def decide_recovery_def
        split: option.split)
  then obtain d2 where d2: "run_startup_recovery (cx_flag ?cx) (cx_record ?cx) None d1 = (interrupted_record, d2)"
    by (cases "run_startup_recovery (cx_flag ?cx) (cx_record ?cx) None d1") simp
  have "start_with_intent ?cx d2 idle_world = (False, idle_world)"
    by (rule interrupted_run_waits [where m = "\<lparr>mc_disk = d2, mc_gpu = (), mc_timers = []\<rparr>",
          OF rec chk d2 _ kept wr _ refl, THEN conjunct2, THEN conjunct1])
      (simp_all add: r0 inc_def [symmetric] inc kept)
  with rec show ?thesis by (intro exI [of _ d1]) (simp add: d2)
qed

section \<open>Driver resets during a run\<close>

lemma ledger_append_record: "load_record rc (snd (ledger_append c e d)) = load_record rc d"
  by (simp add: load_record_def ledger_append_def append_line_frame ledger_file_def record_file_def)

lemma append_condemnation_record: "load_record rc (append_condemnation c now sev kind gpu t mv run n d) = load_record rc d"
  by (simp add: append_condemnation_def ledger_append_record)

text \<open>The message of a driver reset claims more than is done. The first reset of a run is recorded with
  the armed intent blacklisted; a later one of the same run is a duplicate incident, and then the record
  with the new region is not saved: the armed intent stays outside every region on disk.\<close>

lemma second_reset_not_blacklisted:
  assumes "fw_active w" and "read_forge_file cx d = Some chk" and "fg_run_id (fs_progress chk) = Some run"
    and "Some run \<in> inc_run_id ` set (forge_incidents (load_record (cx_record cx) d))"
    and "read_boot_flag (cx_flag cx) d = Some flag" and "bf_phase flag = supervised_f2_forge_phase"
    and "\<not> is_blacklisted (load_record (cx_record cx) d) (bf_intent flag)"
    and "record_active_forge_tdr cx now nanos gpu event w d = (recorded, w', d')"
  shows "\<not> recorded \<and> load_record (cx_record cx) d' = load_record (cx_record cx) d \<and>
    \<not> is_blacklisted (load_record (cx_record cx) d') (bf_intent flag) \<and>
    (fw_registered w \<longleftrightarrow> w' = w\<lparr>fw_manual_stop := False, fw_stop := True\<rparr> \<and> fw_registered w')"
proof -
  let ?r = "load_record (cx_record cx) d"
  have dup: "record_forge_incident inc (push_region p ?r) = (False, push_region p ?r)"
    if "inc_run_id inc = Some run" for inc p
  proof -
    obtain known where k: "known \<in> set (forge_incidents ?r)" "inc_run_id known = Some run"
      using assms(4) by force
    moreover have "forge_incidents (push_region p ?r) = forge_incidents ?r"
      by (simp add: push_region_def)
    ultimately show ?thesis using that by (auto simp: record_forge_incident_def Let_def)
  qed
  have "recorded = False \<and> load_record (cx_record cx) d' = ?r \<and> w' = request_active_forge_stop w"
    using assms(8,1-3,5,6)
    by (auto simp: record_active_forge_tdr_def record_incident_def dup forge_incident_new_def opt_filter_def
        opt_bind_def append_condemnation_record Let_def split: option.splits)
  with assms(7) show ?thesis by (auto simp: request_active_forge_stop_def)
qed

definition repeated_disk :: disk where
  "repeated_disk = empty_disk\<lparr>files :=
     [forge_state_file_name \<mapsto> ''s'', record_file \<mapsto> ''r'', boot_flag_file \<mapsto> ''f'']\<rparr>"

end
