(* ===== verification/Sentinel.thy ===== *)
theory Sentinel
  imports ForgeRecovery
begin

text \<open>
  \<open>crates/service/src/tdr_sentinel.rs\<close>: the watcher that answers a driver reset or a wrong canary while a
  profile is applied. It condemns the failed pair, returns to stock and re-applies the profile a few bins
  higher, at most twice; a second layer reconciles at the next boot what it could not see. The queries of
  the event log and the canary's verdict are arguments, as are the clock's texts; the lines of its log
  and of its status card are rendered by functions of the environment.
\<close>

section \<open>Events of the driver\<close>

definition quote_mark :: char where "quote_mark = CHR 0x27"

definition parse_event_system_time :: "string \<Rightarrow> string option" where
  "parse_event_system_time xml =
     (let tag = ''SystemTime='' @ [quote_mark]
      in opt_bind (str_find tag xml) (\<lambda>i.
           let rest = drop (i + length tag) xml
           in map_option (\<lambda>n. take n rest) (str_find [quote_mark] rest)))"

text \<open>\<open>parse_from_rfc3339(..).timestamp_millis()\<close> is the argument \<open>millis\<close>.\<close>

definition event_epoch_ms :: "(string \<Rightarrow> i64 option) \<Rightarrow> string \<Rightarrow> u64 option" where
  "event_epoch_ms millis ts = opt_bind (millis ts) (\<lambda>x. if 0 \<le> x then Some (nat x) else None)"

definition boot_time_tolerance_ms :: u64 where "boot_time_tolerance_ms = 30000"

definition current_boot_epoch_ms :: "u64 \<Rightarrow> u64 \<Rightarrow> u64" where
  "current_boot_epoch_ms now uptime = u64_sat_sub now uptime"

definition event_is_from_current_boot :: "(string \<Rightarrow> i64 option) \<Rightarrow> string \<Rightarrow> u64 \<Rightarrow> bool" where
  "event_is_from_current_boot millis ts boot \<longleftrightarrow>
     is_some_and (event_epoch_ms millis ts) (\<lambda>ms. ms \<ge> u64_sat_sub boot boot_time_tolerance_ms)"

definition initial_reboot_guard :: "(string \<Rightarrow> i64 option) \<Rightarrow> string option \<Rightarrow> u64 \<Rightarrow> string option" where
  "initial_reboot_guard millis newest boot =
     opt_filter (\<lambda>ts. event_is_from_current_boot millis ts boot) newest"

definition new_tdr_event_since ::
  "(string \<Rightarrow> i64 option) \<Rightarrow> string option \<Rightarrow> string option \<Rightarrow> u64 \<Rightarrow> string option" where
  "new_tdr_event_since millis newest baseline started =
     opt_bind newest (\<lambda>ts.
       if baseline = Some ts then None
       else opt_bind (event_epoch_ms millis ts) (\<lambda>ms.
              if u64_sat_add ms 1000 \<ge> started then Some ts else None))"

text \<open>Characters of UTF-8: a byte of the form 10xxxxxx continues one.\<close>

definition continues_char :: "char \<Rightarrow> bool" where
  "continues_char c \<longleftrightarrow> 128 \<le> (of_char c :: nat) \<and> (of_char c :: nat) < 192"

fun take_chars :: "nat \<Rightarrow> string \<Rightarrow> string" where
  "take_chars n [] = []"
| "take_chars n (c # s) =
     (if continues_char c then c # take_chars n s
      else if n = 0 then [] else c # take_chars (n - 1) s)"

definition is_ascii_digit :: "char \<Rightarrow> bool" where
  "is_ascii_digit c \<longleftrightarrow> 48 \<le> (of_char c :: nat) \<and> (of_char c :: nat) \<le> 57"

definition utc_order_key :: "string \<Rightarrow> string option" where
  "utc_order_key ts =
     (let second = take_chars 19 ts
      in if length second \<noteq> 19 then None
         else (let tail = drop 19 ts;
                   fraction = (if tail \<noteq> [] \<and> hd tail = CHR ''.''
                               then take 9 (takeWhile is_ascii_digit (tl tail)) else [])
               in Some (second @ fraction @ replicate (9 - length fraction) CHR ''0'')))"

definition event_belongs_to_applied_session :: "string \<Rightarrow> string option \<Rightarrow> bool" where
  "event_belongs_to_applied_session event applied_at =
     (case applied_at of
        None \<Rightarrow> False
      | Some since \<Rightarrow>
          (case (utc_order_key event, utc_order_key since) of
             (Some e, Some a) \<Rightarrow> e \<ge> a
           | _ \<Rightarrow> False))"

section \<open>Decision\<close>

definition sentinel_tdr_bump_bins :: usize where "sentinel_tdr_bump_bins = 3"
definition sentinel_silent_bump_bins :: usize where "sentinel_silent_bump_bins = 2"
definition sentinel_max_bumps :: u32 where "sentinel_max_bumps = 2"
definition cross_layer_dedup_s :: u64 where "cross_layer_dedup_s = 90"

datatype sentinel_action =
  SentinelIgnore
| ForgeOwns
| Bump u32 u32
| GoStock u32 u32

definition canary_returned_failure :: "stability_result \<Rightarrow> bool" where
  "canary_returned_failure r \<longleftrightarrow> r \<noteq> ResStable"

definition get_or_last :: "nat \<Rightarrow> 'a list \<Rightarrow> 'a option" where
  "get_or_last i xs = (if i < length xs then Some (xs ! i) else if xs = [] then None else Some (last xs))"

definition sentinel_decide ::
  "(u32 \<times> u32) option \<Rightarrow> bool \<Rightarrow> u32 \<Rightarrow> u32 list \<Rightarrow> usize \<Rightarrow> sentinel_action" where
  "sentinel_decide applied armed bumps bins bump_bins =
     (case applied of
        None \<Rightarrow> SentinelIgnore
      | Some (target, anchor) \<Rightarrow>
          if armed then ForgeOwns
          else if bumps \<ge> sentinel_max_bumps then GoStock target anchor
          else case get_or_last (bump_bins - 1) bins of
                 Some mv \<Rightarrow> Bump target mv
               | None \<Rightarrow> GoStock target anchor)"

definition bins_above_anchor :: "'g vendor \<Rightarrow> 'g \<Rightarrow> u32 \<Rightarrow> u32 list" where
  "bins_above_anchor v g anchor =
     remdups_adj (sort (filter (\<lambda>mv. mv > anchor)
       (map pt_mv (filter (\<lambda>p. is_f2_sane_point (pt_mv p) (pt_mhz p)) (read_vf_base_curve_modern v g)))))"

section \<open>Durable effects\<close>

definition baseline_file :: string where "baseline_file = ''sentinel_baseline.txt''"
definition sentinel_status_file :: string where "sentinel_status_file = ''sentinel_status.json''"
definition sentinel_log_file :: string where "sentinel_log_file = ''sentinel_log.jsonl''"

definition persist_baseline :: "string \<Rightarrow> disk \<Rightarrow> disk" where
  "persist_baseline ts d = snd (fs_write baseline_file ts d)"

definition failure_intent :: "u32 \<Rightarrow> u32 \<Rightarrow> tuning_point" where
  "failure_intent target mv = from_axes [(''gpu_freq_mhz'', int target), (''gpu_vf_bin_mv'', int mv)]"

definition persist_field_failure ::
  "forge_codecs \<Rightarrow> string \<Rightarrow> string \<Rightarrow> u32 \<Rightarrow> u32 \<Rightarrow> string \<Rightarrow> disk \<Rightarrow> disk" where
  "persist_field_failure cx now gpu target failed note d =
     (let region = region_around (failure_intent target failed) default_blacklist_radius;
          r = load_record (cx_record cx) d;
          d1 = (if region \<in> set (blacklist r) then d
                else snd (save_record (cx_record cx) (push_exact_region (failure_intent target failed) r) d))
      in if (target, failed) \<in> set (rigid (ledger_pairs (cx_event cx) d1 gpu)) then d1
         else append_condemnation (cx_event cx) now Rigid ''field-tdr'' (Some gpu) target failed None note d1)"

datatype sentinel_entry =
  EntryBootReconcile string u32 u32
| EntrySameEpisode string
| EntryIgnore string
| EntryForgeOwns string
| EntryResetFailed string
| EntryBump string u32 u32 u32 u32
| EntryReapplyFailed string
| EntryExhausted string u32 u32
| EntryForgeStop

record 'g sentinel_env =
  sv_vendor :: "'g vendor"
  sv_settle :: "'g \<Rightarrow> 'g"
  sv_polls :: nat
  sv_codecs :: forge_codecs
  sv_now :: string
  sv_nanos :: "i64 option"
  sv_gpu_key :: string
  sv_line :: "sentinel_entry \<Rightarrow> string"
  sv_card :: "sentinel_entry \<Rightarrow> string"

definition append_sentinel_log :: "'g sentinel_env \<Rightarrow> sentinel_entry \<Rightarrow> disk \<Rightarrow> disk" where
  "append_sentinel_log env e d = snd (fs_append sentinel_log_file (sv_line env e) d)"

definition write_sentinel_status :: "'g sentinel_env \<Rightarrow> sentinel_entry \<Rightarrow> disk \<Rightarrow> disk" where
  "write_sentinel_status env e d = snd (fs_write sentinel_status_file (sv_card env e) d)"

definition demote_after_boot_failure ::
  "'g sentinel_env \<Rightarrow> undervolt_apply \<Rightarrow> string \<Rightarrow> disk \<Rightarrow> disk" where
  "demote_after_boot_failure env uv source d =
     append_sentinel_log env (EntryBootReconcile source (uv_target_mhz uv) (uv_anchor_mv uv))
       (clear_applied
          (persist_field_failure (sv_codecs env) (sv_now env) (sv_gpu_key env) (uv_target_mhz uv)
             (uv_anchor_mv uv) (source @ '' after this profile was applied; boot stays stock'') d))"

text \<open>The newest driver reset and the newest bugcheck, as a time and a stop code, are queried; the hex
  rendering of the code is the argument \<open>hex\<close>.\<close>

definition boot_source :: "(u64 \<Rightarrow> string) \<Rightarrow> (string \<times> u64) option \<Rightarrow> string" where
  "boot_source hex session =
     (case session of
        Some (_, code) \<Rightarrow> ''WER bugcheck 0x'' @ hex code
      | None \<Rightarrow> ''nvlddmkm-153 TDR/wedge'')"

definition startup_reconcile ::
  "'g sentinel_env \<Rightarrow> (u64 \<Rightarrow> string) \<Rightarrow> string option \<Rightarrow> (string \<times> u64) option \<Rightarrow> disk \<Rightarrow> bool \<times> disk" where
  "startup_reconcile env hex newest bugcheck d =
     (let baseline = (case fs_read baseline_file d of Inl _ \<Rightarrow> None | Inr s \<Rightarrow> Some s);
          profile = load_applied (cx_applied (sv_codecs env)) d;
          new_tdr = is_some_and newest (\<lambda>ts. is_some_and baseline (\<lambda>old. ts > trim old));
          session = opt_bind profile (\<lambda>p. opt_filter (\<lambda>(ts, code).
             event_belongs_to_applied_session ts (ap_applied_at p) \<and>
             classify_bugcheck code = OcInstability) bugcheck);
          commit = (\<lambda>d. case newest of None \<Rightarrow> d | Some ts \<Rightarrow> persist_baseline ts d)
      in case opt_bind profile ap_undervolt of
           None \<Rightarrow> (False, commit d)
         | Some uv \<Rightarrow>
             if \<not> new_tdr \<and> session = None then (False, commit d)
             else (True, commit (demote_after_boot_failure env uv (boot_source hex session) d)))"

section \<open>The live watcher\<close>

record 'g sentinel =
  se_machine :: "'g machine"
  se_last_action :: u64
  se_reboot :: "string option"
  se_bumps :: u32
  se_last_handled :: "string option"

definition reset_sentinel_state :: "'g sentinel \<Rightarrow> string list \<times> 'g sentinel" where
  "reset_sentinel_state s =
     (case fold (\<lambda>f (problems, d).
               (case remove_if_present f d of
                  (Inr _, d') \<Rightarrow> (problems, d')
                | (Inl _, d') \<Rightarrow> (problems @ [f], d')))
             [baseline_file, sentinel_status_file, sentinel_log_file] ([], mc_disk (se_machine s)) of
        (problems, d) \<Rightarrow>
          (problems, s\<lparr>se_machine := (se_machine s)\<lparr>mc_disk := d\<rparr>, se_last_action := 0\<rparr>))"

text \<open>The exchange of \<open>claim_action_epoch\<close> when nobody else writes in between.\<close>

definition claim_action_epoch :: "u64 \<Rightarrow> u64 \<Rightarrow> bool \<times> u64" where
  "claim_action_epoch last_action now =
     (if last_action \<noteq> 0 \<and> u64_sat_sub now last_action < cross_layer_dedup_s then (False, last_action)
      else (True, now))"

definition sentinel_suffix :: string where
  "sentinel_suffix = [CHR 0x20, CHR 0xC2, CHR 0xB7, CHR 0x20] @ ''sentinela''"

definition base_label :: "string \<Rightarrow> string" where
  "base_label l = trim_end (case str_find sentinel_suffix l of None \<Rightarrow> l | Some i \<Rightarrow> take i l)"

definition bump_label :: "string \<Rightarrow> string \<Rightarrow> u32 \<Rightarrow> u32 \<Rightarrow> u32 \<Rightarrow> string" where
  "bump_label prior kind failed mv strike =
     base_label prior @ sentinel_suffix @ '' '' @ kind @ '': '' @ show_int (int failed) @
     [CHR 0xE2, CHR 0x86, CHR 0x92] @ show_int (int mv) @ '' mV (strike '' @ show_int (int strike) @ ''/3)''"

definition on_disk :: "(disk \<Rightarrow> disk) \<Rightarrow> 'g sentinel \<Rightarrow> 'g sentinel" where
  "on_disk f s = s\<lparr>se_machine := (se_machine s)\<lparr>mc_disk := f (mc_disk (se_machine s))\<rparr>\<rparr>"

definition applied_pair :: "forge_codecs \<Rightarrow> disk \<Rightarrow> (u32 \<times> u32) option" where
  "applied_pair cx d =
     opt_bind (load_applied (cx_applied cx) d)
       (\<lambda>p. map_option (\<lambda>u. (uv_target_mhz u, uv_anchor_mv u)) (ap_undervolt p))"

text \<open>A bump: condemn, reset, re-apply at the higher bin.\<close>

definition sentinel_bump ::
  "'g sentinel_env \<Rightarrow> string \<Rightarrow> u32 \<Rightarrow> u32 \<Rightarrow> u32 \<Rightarrow> u32 \<Rightarrow> 'g sentinel \<Rightarrow> bool \<times> 'g sentinel" where
  "sentinel_bump env kind bumps target failed mv s =
     (let cx = sv_codecs env;
          prior = load_applied (cx_applied cx) (mc_disk (se_machine s));
          label = (case prior of None \<Rightarrow> [] | Some p \<Rightarrow> ap_label p);
          mem = opt_bind prior ap_mem_offset;
          strike = u32_add bumps 1;
          s1 = on_disk (persist_field_failure cx (sv_now env) (sv_gpu_key env) target failed
                 (''in-game '' @ kind @ ''; sentinel auto-fallback to '' @ show_int (int mv) @ '' mV'')) s
      in case gpu_reset (sv_vendor env) (codecs.truncate cx) (se_machine s1) of
           (Inl _, m) \<Rightarrow>
             (False, on_disk (append_sentinel_log env (EntryResetFailed kind) \<circ> clear_applied)
                       (s1\<lparr>se_machine := m\<rparr>))
         | (Inr _, m) \<Rightarrow>
             (case apply_and_persist_undervolt (sv_vendor env) (sv_settle env) (sv_polls env)
                     (codecs.truncate cx) (sv_now env) (bump_label label kind failed mv strike)
                     target mv mem m of
                (Inr _, m') \<Rightarrow>
                  (True, on_disk (write_sentinel_status env (EntryBump kind strike target failed mv) \<circ>
                                  append_sentinel_log env (EntryBump kind strike target failed mv))
                           (s1\<lparr>se_machine := m'\<rparr>))
              | (Inl _, m') \<Rightarrow>
                  (False, on_disk (append_sentinel_log env (EntryReapplyFailed kind) \<circ> clear_applied)
                            (s1\<lparr>se_machine := m'\<rparr>))))"

definition sentinel_stock ::
  "'g sentinel_env \<Rightarrow> string \<Rightarrow> u32 \<Rightarrow> u32 \<Rightarrow> 'g sentinel \<Rightarrow> 'g sentinel" where
  "sentinel_stock env kind target failed s =
     (let cx = sv_codecs env;
          s1 = on_disk (persist_field_failure cx (sv_now env) (sv_gpu_key env) target failed
                 (kind @ '' after a prior bump this session; ladder exhausted, stock'')) s
      in on_disk (write_sentinel_status env (EntryExhausted kind target failed) \<circ>
                  append_sentinel_log env (EntryExhausted kind target failed) \<circ> clear_applied)
           (s1\<lparr>se_machine := snd (gpu_reset (sv_vendor env) (codecs.truncate cx) (se_machine s1))\<rparr>))"

definition handle_failure ::
  "'g sentinel_env \<Rightarrow> u64 \<Rightarrow> u32 \<Rightarrow> usize \<Rightarrow> string \<Rightarrow> 'g sentinel \<Rightarrow> bool \<times> 'g sentinel" where
  "handle_failure env now_s bumps bump_bins kind s =
     (let d = mc_disk (se_machine s);
          applied = applied_pair (sv_codecs env) d;
          bins = (case applied of None \<Rightarrow> []
                  | Some (_, mv) \<Rightarrow> bins_above_anchor (sv_vendor env) (mc_gpu (se_machine s)) mv);
          skip = (\<lambda>e. (False, on_disk (append_sentinel_log env e) s))
      in if se_last_action s \<noteq> 0 \<and> u64_sat_sub now_s (se_last_action s) < cross_layer_dedup_s
         then skip (EntrySameEpisode kind)
         else case sentinel_decide applied (is_boot_flag_armed d) bumps bins bump_bins of
           SentinelIgnore \<Rightarrow> skip (EntryIgnore kind)
         | ForgeOwns \<Rightarrow> skip (EntryForgeOwns kind)
         | Bump target mv \<Rightarrow>
             (case claim_action_epoch (se_last_action s) now_s of
                (False, _) \<Rightarrow> skip (EntrySameEpisode kind)
              | (True, stamp) \<Rightarrow>
                  sentinel_bump env kind bumps target (case applied of Some (_, a) \<Rightarrow> a | None \<Rightarrow> 0) mv
                    (s\<lparr>se_last_action := stamp\<rparr>))
         | GoStock target failed \<Rightarrow>
             (case claim_action_epoch (se_last_action s) now_s of
                (False, _) \<Rightarrow> skip (EntrySameEpisode kind)
              | (True, stamp) \<Rightarrow> (False, sentinel_stock env kind target failed (s\<lparr>se_last_action := stamp\<rparr>))))"

text \<open>One turn of the event-log layer. \<open>floor\<close> is the second at which the service started; \<open>residual\<close> is
  the newest event after the cooldown.\<close>

definition commit_event :: "string \<Rightarrow> 'g sentinel \<Rightarrow> 'g sentinel" where
  "commit_event ts s = (on_disk (persist_baseline ts) s)\<lparr>se_last_handled := Some ts\<rparr>"

definition watch_poll ::
  "'g sentinel_env \<Rightarrow> string \<Rightarrow> u64 \<Rightarrow> string option \<Rightarrow> string option \<Rightarrow> forge_world \<times> 'g sentinel \<Rightarrow>
   forge_world \<times> 'g sentinel" where
  "watch_poll env start_floor now_s newest residual ws =
     (case ws of (w, s) \<Rightarrow>
      case newest of
        None \<Rightarrow> (w, s)
      | Some ts \<Rightarrow>
          if se_last_handled s = Some ts then (w, s)
          else if length ts \<ge> 19 \<and> take 19 ts < start_floor then (w, commit_event ts s)
          else
            (let s1 = s\<lparr>se_reboot := Some ts\<rparr>
             in if fw_active w
                then (case record_active_forge_tdr (sv_codecs env) (sv_now env) (sv_nanos env) (sv_gpu_key env)
                             ts w (mc_disk (se_machine s1)) of
                        (_, w', d) \<Rightarrow>
                          (w', commit_event ts (on_disk (append_sentinel_log env EntryForgeStop)
                                 (s1\<lparr>se_machine := (se_machine s1)\<lparr>mc_disk := d\<rparr>\<rparr>))))
                else (case handle_failure env now_s (se_bumps s1) sentinel_tdr_bump_bins ''tdr'' s1 of
                        (bumped, s2) \<Rightarrow>
                          (let s3 = (if bumped then s2\<lparr>se_bumps := u32_add (se_bumps s2) 1\<rparr> else s2);
                               s4 = commit_event ts s3
                           in (w, case residual of None \<Rightarrow> s4 | Some r \<Rightarrow> commit_event r s4)))))"

text \<open>One turn of the canary layer: \<open>utilization\<close> as the driver reports it, \<open>verdict\<close> absent when no context
  could be created.\<close>

definition canary_poll ::
  "'g sentinel_env \<Rightarrow> u64 \<Rightarrow> f64 option \<Rightarrow> stability_result option \<Rightarrow> forge_world \<Rightarrow> 'g sentinel \<Rightarrow> 'g sentinel" where
  "canary_poll env now_s utilization verdict w s =
     (let d = mc_disk (se_machine s)
      in if applied_pair (sv_codecs env) d = None \<or> is_boot_flag_armed d \<or> fw_active w then s
         else if \<not> is_some_and utilization (\<lambda>u. f32_ge u (Fin 30)) then s
         else case verdict of
           None \<Rightarrow> s
         | Some r \<Rightarrow>
             if \<not> canary_returned_failure r then s
             else case handle_failure env now_s (se_bumps s) sentinel_silent_bump_bins ''silent-canary'' s of
                    (bumped, s') \<Rightarrow> if bumped then s'\<lparr>se_bumps := u32_add (se_bumps s') 1\<rparr> else s')"

section \<open>Two layers at once\<close>

text \<open>
  \<open>claim_action_epoch\<close> as its threads run it: each loads the stamp, decides, and exchanges it if it is
  still the one it loaded, otherwise starts over. \<open>reset_sentinel_state\<close> is the other writer of the
  stamp: a full reset stores zero at any moment. The ghost \<open>cl_marks\<close> lists the successful claims and
  these wipes, the latest first.
\<close>

datatype claim_mark = Claimed u64 | Wiped

datatype claim_pc = ClaimStart u64 | ClaimLoaded u64 u64 | ClaimEnd bool

record claim_state =
  cl_stamp :: u64
  cl_threads :: "nat \<Rightarrow> claim_pc"
  cl_marks :: "claim_mark list"

inductive claim_step :: "claim_state \<Rightarrow> claim_state \<Rightarrow> bool" where
  cs_load: "cl_threads s t = ClaimStart now \<Longrightarrow>
     claim_step s (s\<lparr>cl_threads := (cl_threads s)(t := ClaimLoaded now (cl_stamp s))\<rparr>)"
| cs_denied: "cl_threads s t = ClaimLoaded now previous \<Longrightarrow> previous \<noteq> 0 \<Longrightarrow>
     u64_sat_sub now previous < cross_layer_dedup_s \<Longrightarrow>
     claim_step s (s\<lparr>cl_threads := (cl_threads s)(t := ClaimEnd False)\<rparr>)"
| cs_exchange: "cl_threads s t = ClaimLoaded now previous \<Longrightarrow>
     \<not> (previous \<noteq> 0 \<and> u64_sat_sub now previous < cross_layer_dedup_s) \<Longrightarrow> cl_stamp s = previous \<Longrightarrow>
     claim_step s (s\<lparr>cl_stamp := now, cl_threads := (cl_threads s)(t := ClaimEnd True),
                     cl_marks := Claimed now # cl_marks s\<rparr>)"
| cs_again: "cl_threads s t = ClaimLoaded now previous \<Longrightarrow>
     \<not> (previous \<noteq> 0 \<and> u64_sat_sub now previous < cross_layer_dedup_s) \<Longrightarrow> cl_stamp s \<noteq> previous \<Longrightarrow>
     claim_step s (s\<lparr>cl_threads := (cl_threads s)(t := ClaimStart now)\<rparr>)"
| cs_wipe: "claim_step s (s\<lparr>cl_stamp := 0, cl_marks := Wiped # cl_marks s\<rparr>)"

text \<open>A thread whose claim has ended may come back with another reading of the clock.\<close>

inductive claim_run :: "claim_state \<Rightarrow> bool" where
  cr_init: "claim_run \<lparr>cl_stamp = stamp, cl_threads = (\<lambda>t. ClaimEnd False), cl_marks = []\<rparr>"
| cr_enter: "claim_run s \<Longrightarrow> cl_threads s t = ClaimEnd b \<Longrightarrow> now \<noteq> 0 \<Longrightarrow>
     claim_run (s\<lparr>cl_threads := (cl_threads s)(t := ClaimStart now)\<rparr>)"
| cr_step: "claim_run s \<Longrightarrow> claim_step s s' \<Longrightarrow> claim_run s'"

inductive_cases claim_stepE: "claim_step s s'"

section \<open>Lemmas\<close>

lemma sentinel_files_other [simp]:
  "baseline_file \<noteq> record_file" "baseline_file \<noteq> applied_file" "baseline_file \<noteq> boot_flag_file"
  "baseline_file \<noteq> ledger_file" "baseline_file \<noteq> sentinel_log_file" "baseline_file \<noteq> sentinel_status_file"
  "sentinel_log_file \<noteq> record_file" "sentinel_log_file \<noteq> applied_file" "sentinel_log_file \<noteq> boot_flag_file"
  "sentinel_log_file \<noteq> ledger_file" "sentinel_log_file \<noteq> baseline_file"
  "sentinel_status_file \<noteq> record_file" "sentinel_status_file \<noteq> applied_file"
  "sentinel_status_file \<noteq> boot_flag_file" "sentinel_status_file \<noteq> ledger_file"
  by (simp_all add: baseline_file_def sentinel_log_file_def sentinel_status_file_def file_names
      applied_file_def ledger_file_def)

lemma log_frame:
  "n \<noteq> sentinel_log_file \<Longrightarrow> fs_read n (append_sentinel_log env e d) = fs_read n d"
  "n \<noteq> sentinel_log_file \<Longrightarrow> fs_exists n (append_sentinel_log env e d) = fs_exists n d"
  "n \<noteq> sentinel_status_file \<Longrightarrow> fs_read n (write_sentinel_status env e d) = fs_read n d"
  "n \<noteq> sentinel_status_file \<Longrightarrow> fs_exists n (write_sentinel_status env e d) = fs_exists n d"
  "n \<noteq> baseline_file \<Longrightarrow> fs_read n (persist_baseline ts d) = fs_read n d"
  "n \<noteq> baseline_file \<Longrightarrow> fs_exists n (persist_baseline ts d) = fs_exists n d"
  unfolding append_sentinel_log_def write_sentinel_status_def persist_baseline_def fs_append_def
  using fs_frame by metis+

text \<open>The log, the card and the cursor leave the record, the flag, the profile and the ledger alone.\<close>

lemma sentinel_frame [simp]:
  "load_record c (append_sentinel_log env e d) = load_record c d"
  "load_record c (write_sentinel_status env e d) = load_record c d"
  "load_record c (persist_baseline ts d) = load_record c d"
  "load_applied ac (append_sentinel_log env e d) = load_applied ac d"
  "load_applied ac (write_sentinel_status env e d) = load_applied ac d"
  "load_applied ac (persist_baseline ts d) = load_applied ac d"
  "is_boot_flag_armed (append_sentinel_log env e d) = is_boot_flag_armed d"
  "is_boot_flag_armed (write_sentinel_status env e d) = is_boot_flag_armed d"
  "is_boot_flag_armed (persist_baseline ts d) = is_boot_flag_armed d"
  "ledger_load lc (append_sentinel_log env e d) = ledger_load lc d"
  "ledger_load lc (write_sentinel_status env e d) = ledger_load lc d"
  "ledger_load lc (persist_baseline ts d) = ledger_load lc d"
  by (simp_all add: load_record_def load_applied_def is_boot_flag_armed_def ledger_load_def load_lines_def
      log_frame sentinel_files_other [symmetric])

lemma clear_applied_frame:
  "load_record c (clear_applied d) = load_record c d"
  "refused (clear_applied d) = refused d" "unreadable (clear_applied d) = unreadable d"
  "dir_refused (clear_applied d) = dir_refused d"
  by (auto simp: load_record_def clear_applied_def fs_remove_def fs_read_def applied_file_def record_file_def
      split: option.split)

lemma clear_applied_gone: "\<not> refused d applied_file \<Longrightarrow> load_applied c (clear_applied d) = None"
  by (auto simp: load_applied_def clear_applied_def fs_remove_def fs_read_def)

lemma applied_pair_frame:
  "applied_pair cx (append_sentinel_log env e d) = applied_pair cx d"
  "applied_pair cx (write_sentinel_status env e d) = applied_pair cx d"
  "applied_pair cx (persist_baseline ts d) = applied_pair cx d"
  by (simp_all add: applied_pair_def)

text \<open>The record with the region of a failed pair.\<close>

definition condemned_record :: "u32 \<Rightarrow> u32 \<Rightarrow> safe_loop_record \<Rightarrow> safe_loop_record" where
  "condemned_record target failed = push_exact_region (failure_intent target failed)"

lemma condemned_blacklisted: "is_blacklisted (condemned_record target failed r) (failure_intent target failed)"
  by (simp add: condemned_record_def push_exact_blacklists)

lemma append_condemnation_frame:
  "n \<noteq> ledger_file \<Longrightarrow> fs_read n (append_condemnation c now sev kind gpu t mv run nt d) = fs_read n d"
  "refused (append_condemnation c now sev kind gpu t mv run nt d) = refused d"
  "unreadable (append_condemnation c now sev kind gpu t mv run nt d) = unreadable d"
  "dir_refused (append_condemnation c now sev kind gpu t mv run nt d) = dir_refused d"
  by (simp add: append_condemnation_def ledger_append_def append_line_frame)
    (auto simp: append_condemnation_def ledger_append_def append_line_def fs_append_def fs_write_def
      fs_create_dir_def split: option.split)

lemma persist_failure_record:
  assumes "record_kept cx (condemned_record target failed (load_record (cx_record cx) d))" and "record_writable d"
  shows "load_record (cx_record cx) (persist_field_failure cx now gpu target failed msg d) =
      condemned_record target failed (load_record (cx_record cx) d)"
  using record_kept_load [OF assms]
  by (auto simp: persist_field_failure_def condemned_record_def push_exact_region_def append_condemnation_record Let_def)

lemma persist_failure_permissions:
  "refused (persist_field_failure cx now gpu target failed msg d) = refused d"
  "unreadable (persist_field_failure cx now gpu target failed msg d) = unreadable d"
  "dir_refused (persist_field_failure cx now gpu target failed msg d) = dir_refused d"
  by (simp_all add: persist_field_failure_def append_condemnation_frame save_record_permissions Let_def)

lemma persist_failure_applied:
  "load_applied c (persist_field_failure cx now gpu target failed msg d) = load_applied c d"
  by (simp add: persist_field_failure_def load_applied_def append_condemnation_frame save_record_def
      write_doc_frame applied_file_def record_file_def ledger_file_def Let_def)

lemma bins_above: "mv \<in> set (bins_above_anchor v g anchor) \<Longrightarrow> anchor < mv \<and>
    (\<exists>p\<in>set (read_vf_base_curve_modern v g). pt_mv p = mv \<and> is_f2_sane_point (pt_mv p) (pt_mhz p))"
  by (auto simp: bins_above_anchor_def)

lemma get_or_last_mem: "get_or_last i xs = Some x \<Longrightarrow> x \<in> set xs"
  by (auto simp: get_or_last_def split: if_splits)

lemma decide_bump:
  assumes "sentinel_decide applied armed bumps bins n = Bump target mv"
  shows "\<exists>anchor. applied = Some (target, anchor)" and "\<not> armed" and "bumps < sentinel_max_bumps"
    and "mv \<in> set bins"
  using assms get_or_last_mem [of _ bins mv]
  by (auto simp: sentinel_decide_def split: option.splits if_splits)

fun claim_clock :: "claim_pc \<Rightarrow> bool" where
  "claim_clock (ClaimStart now) \<longleftrightarrow> now \<noteq> 0"
| "claim_clock (ClaimLoaded now _) \<longleftrightarrow> now \<noteq> 0"
| "claim_clock (ClaimEnd _) \<longleftrightarrow> True"

fun apart :: "claim_mark list \<Rightarrow> bool" where
  "apart (Claimed later # Claimed earlier # ms) \<longleftrightarrow> earlier + 90 \<le> later \<and> apart (Claimed earlier # ms)"
| "apart (_ # ms) \<longleftrightarrow> apart ms"
| "apart [] \<longleftrightarrow> True"

definition claims_ok :: "claim_state \<Rightarrow> bool" where
  "claims_ok s \<longleftrightarrow> apart (cl_marks s) \<and>
    (\<forall>t ms. cl_marks s = Claimed t # ms \<longrightarrow> t = cl_stamp s \<and> t \<noteq> 0) \<and>
    (\<forall>t. claim_clock (cl_threads s t))"

lemma apart_wiped [simp]: "apart (Wiped # ms) = apart ms"
  by (cases ms) auto

lemma apart_tail: "apart (m # ms) \<Longrightarrow> apart ms"
  by (induction "m # ms" rule: apart.induct) auto

lemma apart_suffix: "apart (pre @ ms) \<Longrightarrow> apart ms"
  by (induction pre) (auto dest: apart_tail)

lemma apart_sorted:
  "apart (map Claimed ws @ ms) \<Longrightarrow> sorted_wrt (\<lambda>later earlier. earlier + 90 \<le> later) ws"
proof (induction ws)
  case (Cons w ws)
  then show ?case
  proof (cases ws)
    case (Cons v vs)
    with Cons.prems Cons.IH have "v + 90 \<le> w" "sorted_wrt (\<lambda>later earlier. earlier + 90 \<le> later) (v # vs)"
      by auto
    then show ?thesis by (auto simp: Cons)
  qed simp
qed simp

lemma claims_ok_exchange:
  assumes "claims_ok s" and "\<not> (cl_stamp s \<noteq> 0 \<and> u64_sat_sub now (cl_stamp s) < cross_layer_dedup_s)"
  shows "apart (Claimed now # cl_marks s)"
proof (cases "cl_marks s")
  case (Cons m ms)
  with assms show ?thesis
    by (cases m) (auto simp: claims_ok_def u64_sat_sub_def cross_layer_dedup_s_def)
qed simp

lemma claims_ok_step: "claim_step s s' \<Longrightarrow> claims_ok s \<Longrightarrow> claims_ok s'"
proof (induction rule: claim_step.induct)
  case (cs_load s t now)
  then have now: "now \<noteq> 0" unfolding claims_ok_def by (metis claim_clock.simps(1))
  with cs_load show ?case by (simp add: claims_ok_def)
next
  case (cs_exchange s t now previous)
  then have now: "now \<noteq> 0" unfolding claims_ok_def by (metis claim_clock.simps(2))
  with cs_exchange claims_ok_exchange [of s now] show ?case by (simp add: claims_ok_def)
next
  case (cs_again s t now previous)
  then have now: "now \<noteq> 0" unfolding claims_ok_def by (metis claim_clock.simps(2))
  with cs_again show ?case by (simp add: claims_ok_def)
qed (simp_all add: claims_ok_def)

text \<open>A reset of the tuning keeps what the record condemns and the permissions of the files.\<close>

lemma truncate_simps [simp]:
  "cx_flag (codecs.truncate cx) = cx_flag cx" "cx_record (codecs.truncate cx) = cx_record cx"
  "cx_applied (codecs.truncate cx) = cx_applied cx"
  by (simp_all add: codecs.truncate_def)

lemma gpu_reset_permissions:
  "refused (mc_disk (snd (gpu_reset v cx m))) = refused (mc_disk m)"
  "unreadable (mc_disk (snd (gpu_reset v cx m))) = unreadable (mc_disk m)"
  "dir_refused (mc_disk (snd (gpu_reset v cx m))) = dir_refused (mc_disk m)"
proof -
  have "refused (snd (clear_boot_flag d)) = refused d" "unreadable (snd (clear_boot_flag d)) = unreadable d"
    "dir_refused (snd (clear_boot_flag d)) = dir_refused d" for d
    by (simp_all add: clear_boot_flag_def remove_if_present_cases)
  then show "refused (mc_disk (snd (gpu_reset v cx m))) = refused (mc_disk m)"
    "unreadable (mc_disk (snd (gpu_reset v cx m))) = unreadable (mc_disk m)"
    "dir_refused (mc_disk (snd (gpu_reset v cx m))) = dir_refused (mc_disk m)"
    by (auto simp: gpu_reset_def Let_def clear_applied_frame save_record_permissions
        split: prod.splits dest!: arg_cong [where f = snd])
qed

lemma gpu_reset_blacklist:
  assumes "record_kept cx (clear_recovery_latch r)" and "record_writable (mc_disk m)"
    and "load_record (cx_record cx) (mc_disk m) = r"
  shows "blacklist (load_record (cx_record cx) (mc_disk (snd (gpu_reset v (codecs.truncate cx) m)))) = blacklist r"
proof -
  have wr: "record_writable (clear_applied (mc_disk m))"
    using assms(2) by (simp add: record_writable_def clear_applied_frame)
  have "load_record (cx_record cx) (snd (clear_boot_flag (snd (save_record (cx_record cx) (clear_recovery_latch r)
      (clear_applied (mc_disk m)))))) = clear_recovery_latch r"
    by (simp add: clear_boot_flag_frame record_kept_load [OF assms(1) wr])
  then show ?thesis
    using assms(3)
    by (auto simp: gpu_reset_def Let_def clear_applied_frame clear_recovery_latch_def split: prod.splits
        dest!: arg_cong [where f = snd])
qed

lemma remember_profile_record: "load_record c (mc_disk (remember_profile cx p m)) = load_record c (mc_disk m)"
  by (auto simp: remember_profile_def start_timer_def save_applied_def load_record_def fs_read_write_other
      applied_file_other split: option.split)

lemma apply_undervolt_record:
  "load_record c (mc_disk (snd (apply_and_persist_undervolt v settle polls cx now label target mv mem m))) =
     load_record c (mc_disk m)"
proof -
  have "load_record c (mc_disk m1) = load_record c (mc_disk m)" if "arm cx i ph t m = (x, m1)" for i ph t x m1
    using that arm_frame [of c "cx_flag cx" _ "mc_disk m"]
    by (auto simp: arm_def split: prod.splits sum.splits dest!: arg_cong [where f = snd])
  then show ?thesis
    by (auto simp: apply_and_persist_undervolt_def remember_profile_record split: prod.splits sum.splits)
qed

definition bumped_profile :: "string \<Rightarrow> string \<Rightarrow> u32 \<Rightarrow> u32 \<Rightarrow> i32 option \<Rightarrow> applied_profile" where
  "bumped_profile now label target mv mem =
     \<lparr>ap_label = label, ap_core = Some \<lparr>vp_freq_mhz = target, vp_voltage_mv = mv\<rparr>, ap_mem_offset = mem,
      ap_applied_at = Some now, ap_undervolt = Some \<lparr>uv_target_mhz = target, uv_anchor_mv = mv\<rparr>\<rparr>"

lemma apply_undervolt_profile:
  assumes "apply_and_persist_undervolt v settle polls cx now label target mv mem m = (Inr u, m')"
    and "enc (cx_applied cx) (bumped_profile now label target mv mem) = Some t"
    and "dec (cx_applied cx) (trim_boms t) = Some (bumped_profile now label target mv mem)"
    and "\<not> refused (mc_disk m) applied_file" and "\<not> unreadable (mc_disk m) applied_file"
  shows "load_applied (cx_applied cx) (mc_disk m') = Some (bumped_profile now label target mv mem)"
proof -
  let ?i = "apply_intent (Some \<lparr>vp_freq_mhz = target, vp_voltage_mv = mv\<rparr>) mem"
  obtain m1 where a: "arm cx ?i ''gpu_apply_undervolt'' now m = (Inr (), m1)"
    and m': "\<exists>g. m' = remember_profile cx (bumped_profile now label target mv mem) (m1\<lparr>mc_gpu := g\<rparr>)"
    using assms(1) by (auto simp: apply_and_persist_undervolt_def bumped_profile_def split: prod.splits sum.splits)
  have "refused (mc_disk m1) = refused (mc_disk m)" "unreadable (mc_disk m1) = unreadable (mc_disk m)"
    "\<not> dir_refused (mc_disk m1)"
    using a by (auto simp: arm_def store_defs fs_defs split: prod.splits sum.splits option.splits if_splits)
  with m' assms(2-5) show ?thesis
    by (auto simp: remember_profile_def start_timer_def load_applied_def save_applied_def fs_write_def fs_read_def)
qed

section \<open>Properties\<close>

text \<open>C5: however the threads of the layers and the full resets interleave, the recoveries claimed between
  two full resets are claimed at least ninety seconds apart: of two layers that see the same failure at
  most one acts, unless a full reset wipes the stamp between them.\<close>

theorem claims_are_apart:
  assumes "claim_run s" and "cl_marks s = later @ map Claimed ws @ earlier"
  shows "sorted_wrt (\<lambda>later earlier. earlier + 90 \<le> later) ws"
proof -
  have "claims_ok s"
    using assms(1)
  proof induction
    case (cr_enter s t b now)
    then show ?case by (auto simp: claims_ok_def)
  next
    case (cr_step s s')
    then show ?case by (blast intro: claims_ok_step)
  qed (simp add: claims_ok_def)
  then have "apart (later @ map Claimed ws @ earlier)" using assms(2) by (simp add: claims_ok_def)
  then show ?thesis by (rule apart_sorted [OF apart_suffix])
qed

lemma claim_once:
  assumes run: "claim_run s" and "cl_threads s t = ClaimEnd b" and "now \<noteq> 0"
    and free: "\<not> (cl_stamp s \<noteq> 0 \<and> u64_sat_sub now (cl_stamp s) < cross_layer_dedup_s)"
  shows "claim_run (s\<lparr>cl_stamp := now, cl_threads := (cl_threads s)(t := ClaimEnd True),
    cl_marks := Claimed now # cl_marks s\<rparr>)"
proof -
  let ?s1 = "s\<lparr>cl_threads := (cl_threads s)(t := ClaimStart now)\<rparr>"
  have r1: "claim_run ?s1" by (rule cr_enter [OF run assms(2,3)])
  have r2: "claim_run (?s1\<lparr>cl_threads := (cl_threads ?s1)(t := ClaimLoaded now (cl_stamp ?s1))\<rparr>)"
    (is "claim_run ?s2")
    by (rule cr_step [OF r1 cs_load]) simp
  have "claim_run (?s2\<lparr>cl_stamp := now, cl_threads := (cl_threads ?s2)(t := ClaimEnd True),
      cl_marks := Claimed now # cl_marks ?s2\<rparr>)"
    by (rule cr_step [OF r2 cs_exchange [of _ _ _ "cl_stamp s"]]) (use free in simp_all)
  then show ?thesis by simp
qed

text \<open>A claim, a full reset five seconds later, a claim of another layer at once, and a third one.\<close>

lemma three_claims:
  "claim_run \<lparr>cl_stamp = 600, cl_threads = (\<lambda>t. ClaimEnd False)(0 := ClaimEnd True, 1 := ClaimEnd True),
     cl_marks = [Claimed 600, Claimed 505, Wiped, Claimed 500]\<rparr>"
proof -
  let ?s = "\<lparr>cl_stamp = 400, cl_threads = (\<lambda>t. ClaimEnd False), cl_marks = []\<rparr> :: claim_state"
  have r1: "claim_run (?s\<lparr>cl_stamp := 500, cl_threads := (cl_threads ?s)(0 := ClaimEnd True),
      cl_marks := Claimed 500 # cl_marks ?s\<rparr>)" (is "claim_run ?s1")
    by (rule claim_once [OF cr_init, where b = False]) (simp_all add: u64_sat_sub_def cross_layer_dedup_s_def)
  have r2: "claim_run (?s1\<lparr>cl_stamp := 0, cl_marks := Wiped # cl_marks ?s1\<rparr>)" (is "claim_run ?s2")
    by (rule cr_step [OF r1 cs_wipe])
  have r3: "claim_run (?s2\<lparr>cl_stamp := 505, cl_threads := (cl_threads ?s2)(1 := ClaimEnd True),
      cl_marks := Claimed 505 # cl_marks ?s2\<rparr>)" (is "claim_run ?s3")
    by (rule claim_once [OF r2, where b = False]) simp_all
  have "claim_run (?s3\<lparr>cl_stamp := 600, cl_threads := (cl_threads ?s3)(0 := ClaimEnd True),
      cl_marks := Claimed 600 # cl_marks ?s3\<rparr>)"
    by (rule claim_once [OF r3, where b = True]) (simp_all add: u64_sat_sub_def cross_layer_dedup_s_def)
  then show ?thesis by (simp add: fun_upd_twist)
qed

theorem claims_are_apart_witness:
  "sorted_wrt (\<lambda>later earlier. earlier + 90 \<le> later) [600, 505 :: nat] \<and>
   claim_run \<lparr>cl_stamp = 600, cl_threads = (\<lambda>t. ClaimEnd False)(0 := ClaimEnd True, 1 := ClaimEnd True),
     cl_marks = [Claimed 600, Claimed 505, Wiped, Claimed 500]\<rparr>"
  using claims_are_apart [OF three_claims, of "[]" "[600, 505]" "[Wiped, Claimed 500]"] three_claims by simp

text \<open>A crash that only shows at the next boot demotes the profile. When the reconciliation of the start
  demotes, the pair is blacklisted on disk, no profile is left, and the re-application at boot touches
  the card no further than releasing its locks.\<close>

lemma crashed_profile_not_reapplied:
  assumes "startup_reconcile env hex newest bugcheck d = (True, d')"
    and "applied_pair (sv_codecs env) d = Some (target, failed)"
    and "record_kept (sv_codecs env) (condemned_record target failed (load_record (cx_record (sv_codecs env)) d))"
    and "record_writable d" and "\<not> refused d applied_file"
    and "mc_disk m = d'" and "m' = reapply_on_boot v legacy settle polls (codecs.truncate (sv_codecs env)) now reboot m"
  shows "load_applied (cx_applied (sv_codecs env)) d' = None \<and>
    field_pair_blacklisted (load_record (cx_record (sv_codecs env)) d') target failed \<and>
    mc_gpu m' = snd (unlock_core_voltage v (snd (reset_core_clock_lock v (mc_gpu m)))) \<and>
    mc_timers m' = mc_timers m"
proof -
  let ?cx = "sv_codecs env"
  obtain p uv where p: "load_applied (cx_applied ?cx) d = Some p" "ap_undervolt p = Some uv"
    "uv_target_mhz uv = target" "uv_anchor_mv uv = failed"
    using assms(2) by (auto simp: applied_pair_def opt_bind_def split: option.splits)
  obtain msg where d': "d' = (case newest of None \<Rightarrow> id | Some ts \<Rightarrow> persist_baseline ts)
      (append_sentinel_log env (EntryBootReconcile msg target failed)
        (clear_applied (persist_field_failure ?cx (sv_now env) (sv_gpu_key env) target failed
           (msg @ '' after this profile was applied; boot stays stock'') d)))"
    using assms(1) p
    by (cases newest) (auto simp: startup_reconcile_def opt_bind_def demote_after_boot_failure_def Let_def
        split: if_splits)
  have gone: "load_applied (cx_applied ?cx) d' = None"
    using assms(5) by (auto simp: d' clear_applied_gone persist_failure_permissions split: option.split)
  have "load_record (cx_record ?cx) d' = condemned_record target failed (load_record (cx_record ?cx) d)"
    using persist_failure_record [OF assms(3,4)]
    by (auto simp: d' clear_applied_frame split: option.split)
  then have "field_pair_blacklisted (load_record (cx_record ?cx) d') target failed"
    using condemned_blacklisted [of target failed "load_record (cx_record ?cx) d"]
    by (simp add: field_pair_blacklisted_def failure_intent_def)
  moreover have "mc_gpu m' = snd (unlock_core_voltage v (snd (reset_core_clock_lock v (mc_gpu m)))) \<and>
      mc_timers m' = mc_timers m"
    unfolding assms(7) reapply_on_boot_def Let_def
    using gone by (simp add: assms(6) codecs.truncate_def split: option.split)
  ultimately show ?thesis using gone by blast
qed

definition sentinel_disk :: disk where
  "sentinel_disk = empty_disk\<lparr>files := [applied_file \<mapsto> ''p'', baseline_file \<mapsto> ''a'']\<rparr>"

text \<open>Codecs that know the default record, that record with one region, and one profile at 800 mV.\<close>

definition low_profile :: applied_profile where
  "low_profile = bumped_profile ''now'' ''l'' 1900 800 None"

definition sentinel_codecs :: forge_codecs where
  "sentinel_codecs = (toy_forge_codecs (condemned_record 1900 800 default_record) idle_progress)
     \<lparr>cx_applied := \<lparr>enc = (\<lambda>_. Some ''q''),
        dec = (\<lambda>s. if s = ''p'' then Some low_profile
                   else if s = ''q'' then Some (bumped_profile ''now'' (bump_label ''l'' ''tdr'' 800 850 1) 1900 850 None)
                   else None)\<rparr>\<rparr>"

definition sentinel_toy_env :: "toy_card sentinel_env" where
  "sentinel_toy_env = \<lparr>sv_vendor = toy_vendor False, sv_settle = (\<lambda>g. g), sv_polls = 20,
     sv_codecs = sentinel_codecs, sv_now = ''now'', sv_nanos = None, sv_gpu_key = ''g'',
     sv_line = (\<lambda>_. ''e''), sv_card = (\<lambda>_. ''c'')\<rparr>"

lemma trim_one: "trim_boms [c] = [c]"
  by (simp add: trim_boms.simps [of "[c]"] bom_def)

lemma sentinel_toy_facts:
  "applied_pair sentinel_codecs sentinel_disk = Some (1900, 800)"
  "load_applied (cx_applied sentinel_codecs) sentinel_disk = Some low_profile"
  "load_record (cx_record sentinel_codecs) sentinel_disk = default_record"
  "record_kept sentinel_codecs (condemned_record 1900 800 default_record)"
  "record_writable sentinel_disk" "\<not> refused sentinel_disk f" "\<not> unreadable sentinel_disk f"
  "\<not> is_boot_flag_armed sentinel_disk"
proof -
  show load: "load_applied (cx_applied sentinel_codecs) sentinel_disk = Some low_profile"
    by (simp add: load_applied_def sentinel_codecs_def fs_read_def sentinel_disk_def empty_disk_def trim_one
        sentinel_files_other [symmetric])
  then show "applied_pair sentinel_codecs sentinel_disk = Some (1900, 800)"
    by (simp add: applied_pair_def low_profile_def bumped_profile_def opt_bind_def)
  show "load_record (cx_record sentinel_codecs) sentinel_disk = default_record"
    by (simp add: load_record_def fs_read_def sentinel_disk_def empty_disk_def applied_file_other [symmetric]
        sentinel_files_other [symmetric])
  show "record_kept sentinel_codecs (condemned_record 1900 800 default_record)"
    by (simp add: record_kept_def sentinel_codecs_def toy_forge_codecs_def strip_bom_def bom_def)
  show "record_writable sentinel_disk" "\<not> refused sentinel_disk f" "\<not> unreadable sentinel_disk f"
    by (simp_all add: record_writable_def sentinel_disk_def empty_disk_def)
  show "\<not> is_boot_flag_armed sentinel_disk"
    by (simp add: is_boot_flag_armed_def fs_exists_def sentinel_disk_def empty_disk_def
        applied_file_other [symmetric] sentinel_files_other [symmetric])
qed

lemma sentinel_bump_outcome:
  assumes "sentinel_bump env kind bumps target failed mv s = (b, s')"
    and "r = load_record (cx_record (sv_codecs env)) (mc_disk (se_machine s))"
    and "record_kept (sv_codecs env) (condemned_record target failed r)"
    and "record_kept (sv_codecs env) (clear_recovery_latch (condemned_record target failed r))"
    and "record_writable (mc_disk (se_machine s))"
    and "\<not> refused (mc_disk (se_machine s)) applied_file" "\<not> unreadable (mc_disk (se_machine s)) applied_file"
    and "load_applied (cx_applied (sv_codecs env)) (mc_disk (se_machine s)) = Some prior"
    and "p = bumped_profile (sv_now env) (bump_label (ap_label prior) kind failed mv (u32_add bumps 1)) target mv
           (ap_mem_offset prior)"
    and "enc (cx_applied (sv_codecs env)) p = Some t" "dec (cx_applied (sv_codecs env)) (trim_boms t) = Some p"
  shows "field_pair_blacklisted (load_record (cx_record (sv_codecs env)) (mc_disk (se_machine s'))) target failed \<and>
    (if b then applied_pair (sv_codecs env) (mc_disk (se_machine s')) = Some (target, mv) \<and>
               is_boot_flag_armed (mc_disk (se_machine s'))
     else load_applied (cx_applied (sv_codecs env)) (mc_disk (se_machine s')) = None)"
proof -
  let ?cx = "sv_codecs env" and ?d = "mc_disk (se_machine s)"
  let ?msg = "''in-game '' @ kind @ ''; sentinel auto-fallback to '' @ show_int (int mv) @ '' mV''"
  define d1 where "d1 = persist_field_failure ?cx (sv_now env) (sv_gpu_key env) target failed ?msg ?d"
  define m1 where "m1 = (se_machine s)\<lparr>mc_disk := d1\<rparr>"
  have rec1: "load_record (cx_record ?cx) d1 = condemned_record target failed r"
    using persist_failure_record [OF assms(3) [unfolded assms(2)] assms(5)] by (simp add: d1_def assms(2))
  have perm1: "refused d1 = refused ?d" "unreadable d1 = unreadable ?d" "record_writable d1"
    using assms(5) by (simp_all add: d1_def persist_failure_permissions record_writable_def)
  obtain x m2 where g: "gpu_reset (sv_vendor env) (codecs.truncate ?cx) m1 = (x, m2)" by fastforce
  have black2: "blacklist (load_record (cx_record ?cx) (mc_disk m2)) = blacklist (condemned_record target failed r)"
    using gpu_reset_blacklist [OF assms(4), of m1 "sv_vendor env"] rec1 perm1 g by (simp add: m1_def)
  have perm2: "refused (mc_disk m2) = refused ?d" "unreadable (mc_disk m2) = unreadable ?d"
    using gpu_reset_permissions [of "sv_vendor env" "codecs.truncate ?cx" m1] g perm1 by (simp_all add: m1_def)
  have black: "field_pair_blacklisted r' target failed"
    if "blacklist r' = blacklist (condemned_record target failed r)" for r'
    using that condemned_blacklisted [of target failed r]
    by (simp add: field_pair_blacklisted_def is_blacklisted_def failure_intent_def)
  show ?thesis
  proof (cases x)
    case (Inl e)
    have "b = False" "mc_disk (se_machine s') = append_sentinel_log env (EntryResetFailed kind) (clear_applied (mc_disk m2))"
      using assms(1) g by (auto simp: sentinel_bump_def on_disk_def Let_def d1_def m1_def Inl)
    then show ?thesis
      using black black2 assms(6) by (simp add: clear_applied_frame clear_applied_gone perm2)
  next
    case (Inr u)
    obtain y m3 where ap: "apply_and_persist_undervolt (sv_vendor env) (sv_settle env) (sv_polls env)
        (codecs.truncate ?cx) (sv_now env) (bump_label (ap_label prior) kind failed mv (u32_add bumps 1)) target mv
        (ap_mem_offset prior) m2 = (y, m3)" by fastforce
    have rec3: "load_record (cx_record ?cx) (mc_disk m3) = load_record (cx_record ?cx) (mc_disk m2)"
      using apply_undervolt_record ap by (metis snd_conv)
    show ?thesis
    proof (cases y)
      case Y: (Inl e)
      have "b = False" "mc_disk (se_machine s') = append_sentinel_log env (EntryReapplyFailed kind) (clear_applied (mc_disk m3))"
        using assms(1) g ap assms(8)
        by (auto simp: sentinel_bump_def on_disk_def Let_def d1_def m1_def Inr Y opt_bind_def)
      moreover have "refused (mc_disk m3) = refused (mc_disk m2)"
        using apply_undervolt_cases [OF ap] by auto
      ultimately show ?thesis
        using black black2 rec3 assms(6) by (simp add: clear_applied_frame clear_applied_gone perm2)
    next
      case Y: (Inr w)
      have b: "b" "mc_disk (se_machine s') = write_sentinel_status env (EntryBump kind (u32_add bumps 1) target failed mv)
          (append_sentinel_log env (EntryBump kind (u32_add bumps 1) target failed mv) (mc_disk m3))"
        using assms(1) g ap assms(8)
        by (auto simp: sentinel_bump_def on_disk_def Let_def d1_def m1_def Inr Y opt_bind_def)
      have "load_applied (cx_applied ?cx) (mc_disk m3) = Some p"
        using apply_undervolt_profile [OF ap [unfolded Y], of t] assms(6,7,9-11) perm2 by simp
      then have "applied_pair ?cx (mc_disk m3) = Some (target, mv)"
        by (simp add: applied_pair_def assms(9) bumped_profile_def opt_bind_def)
      moreover have "is_boot_flag_armed (mc_disk m3)"
        using apply_undervolt_cases [OF ap] by (auto simp: Y)
      ultimately show ?thesis
        using black black2 rec3 b by (simp add: applied_pair_frame)
    qed
  qed
qed

text \<open>C6: a live failure never leaves the failed pair applied. When the claim succeeds and a bump is decided,
  the pair is blacklisted on disk first, the next anchor is strictly higher, and afterwards either the
  profile at the higher anchor is remembered with the boot flag armed, or no profile is left.\<close>

theorem bump_condemns_and_climbs:
  assumes "handle_failure env now_s bumps n kind s = (b, s')"
    and "applied_pair (sv_codecs env) (mc_disk (se_machine s)) = Some (target, failed)"
    and "sentinel_decide (Some (target, failed)) (is_boot_flag_armed (mc_disk (se_machine s))) bumps
           (bins_above_anchor (sv_vendor env) (mc_gpu (se_machine s)) failed) n = Bump target mv"
    and "fst (claim_action_epoch (se_last_action s) now_s)"
    and "r = load_record (cx_record (sv_codecs env)) (mc_disk (se_machine s))"
    and "record_kept (sv_codecs env) (condemned_record target failed r)"
    and "record_kept (sv_codecs env) (clear_recovery_latch (condemned_record target failed r))"
    and "record_writable (mc_disk (se_machine s))"
    and "\<not> refused (mc_disk (se_machine s)) applied_file" "\<not> unreadable (mc_disk (se_machine s)) applied_file"
    and "load_applied (cx_applied (sv_codecs env)) (mc_disk (se_machine s)) = Some prior"
    and "p = bumped_profile (sv_now env) (bump_label (ap_label prior) kind failed mv (u32_add bumps 1)) target mv
           (ap_mem_offset prior)"
    and "enc (cx_applied (sv_codecs env)) p = Some t" "dec (cx_applied (sv_codecs env)) (trim_boms t) = Some p"
  shows "failed < mv \<and>
    field_pair_blacklisted (load_record (cx_record (sv_codecs env)) (mc_disk (se_machine s'))) target failed \<and>
    (if b then applied_pair (sv_codecs env) (mc_disk (se_machine s')) = Some (target, mv) \<and>
               is_boot_flag_armed (mc_disk (se_machine s'))
     else load_applied (cx_applied (sv_codecs env)) (mc_disk (se_machine s')) = None)"
proof -
  have "sentinel_bump env kind bumps target failed mv (s\<lparr>se_last_action := now_s\<rparr>) = (b, s')"
    using assms(1-4) by (auto simp: handle_failure_def claim_action_epoch_def Let_def split: if_splits)
  from sentinel_bump_outcome [OF this, of r prior p t] bins_above [OF decide_bump(4) [OF assms(3)]] show ?thesis
    using assms(5-14) by simp
qed

theorem bump_condemns_and_climbs_witness:
  "\<exists>b s'. handle_failure sentinel_toy_env 1000 0 2 ''tdr''
      \<lparr>se_machine = \<lparr>mc_disk = sentinel_disk, mc_gpu = stock_card, mc_timers = []\<rparr>, se_last_action = 0,
       se_reboot = None, se_bumps = 0, se_last_handled = None\<rparr> = (b, s') \<and>
    field_pair_blacklisted (load_record (cx_record sentinel_codecs) (mc_disk (se_machine s'))) 1900 800"
proof -
  let ?s = "\<lparr>se_machine = \<lparr>mc_disk = sentinel_disk, mc_gpu = stock_card, mc_timers = []\<rparr>, se_last_action = 0,
       se_reboot = None, se_bumps = 0, se_last_handled = None\<rparr>"
  have env: "sv_codecs sentinel_toy_env = sentinel_codecs" "sv_vendor sentinel_toy_env = toy_vendor False"
    "sv_now sentinel_toy_env = ''now''" by (simp_all add: sentinel_toy_env_def)
  obtain b s' where h: "handle_failure sentinel_toy_env 1000 0 2 ''tdr'' ?s = (b, s')" by fastforce
  have bins: "bins_above_anchor (toy_vendor False) stock_card 800 = [825, 850, 875, 900, 925]"
    by (simp add: bins_above_anchor_def toy_curves toy_curve_def is_f2_sane_point_def)
  have latch: "clear_recovery_latch (condemned_record 1900 800 default_record) = condemned_record 1900 800 default_record"
    by (simp add: clear_recovery_latch_def condemned_record_def push_exact_region_def default_record_def Let_def)
  have "field_pair_blacklisted (load_record (cx_record sentinel_codecs) (mc_disk (se_machine s'))) 1900 800"
    using bump_condemns_and_climbs [OF h, of 1900 800 850 default_record low_profile _ "''q''"]
    by (simp add: env sentinel_toy_facts bins latch sentinel_decide_def sentinel_max_bumps_def get_or_last_def
        claim_action_epoch_def)
      (simp add: sentinel_codecs_def low_profile_def bumped_profile_def trim_one u32_add_def)
  with h show ?thesis by blast
qed

text \<open>The third failure of a session goes to stock: the pair is condemned and no profile is left.\<close>

lemma exhausted_goes_stock:
  assumes "handle_failure env now_s bumps n kind s = (b, s')"
    and "applied_pair (sv_codecs env) (mc_disk (se_machine s)) = Some (target, failed)"
    and "\<not> is_boot_flag_armed (mc_disk (se_machine s))" and "sentinel_max_bumps \<le> bumps"
    and "fst (claim_action_epoch (se_last_action s) now_s)"
    and "\<not> refused (mc_disk (se_machine s)) applied_file"
  shows "\<not> b \<and> load_applied (cx_applied (sv_codecs env)) (mc_disk (se_machine s')) = None"
proof -
  have "(b, s') = (False, sentinel_stock env kind target failed (s\<lparr>se_last_action := now_s\<rparr>))"
    using assms(1-5)
    by (auto simp: handle_failure_def claim_action_epoch_def sentinel_decide_def Let_def split: if_splits)
  then show ?thesis
    using assms(6)
    by (auto simp: sentinel_stock_def on_disk_def clear_applied_gone gpu_reset_permissions
        persist_failure_permissions Let_def)
qed

lemma handle_bumped: "handle_failure env now_s bumps n kind s = (True, s') \<Longrightarrow> bumps < sentinel_max_bumps"
  by (auto simp: handle_failure_def Let_def dest: decide_bump(3)
      split: if_splits sentinel_action.splits prod.splits bool.splits)

lemma handle_keeps_bumps: "handle_failure env now_s bumps n kind s = (b, s') \<Longrightarrow> se_bumps s' = se_bumps s"
  by (auto simp: handle_failure_def sentinel_bump_def sentinel_stock_def on_disk_def Let_def
      split: if_splits sentinel_action.splits prod.splits bool.splits sum.splits)

lemma handle_counts:
  assumes "handle_failure env now_s (se_bumps s) n kind (s\<lparr>se_reboot := rb\<rparr>) = (True, s')"
  shows "u32_add (se_bumps s') 1 \<le> sentinel_max_bumps"
  using handle_bumped [OF assms] handle_keeps_bumps [OF assms] by (simp add: u32_add_def sentinel_max_bumps_def)

text \<open>The budget of a session: neither layer ever takes the counter past two.\<close>

lemma bumps_bounded_watch:
  assumes "se_bumps s \<le> sentinel_max_bumps" and "watch_poll env fl now_s newest residual (w, s) = (w', s')"
  shows "se_bumps s' \<le> sentinel_max_bumps"
  using assms
  by (auto simp: watch_poll_def commit_event_def on_disk_def Let_def
      dest: handle_counts handle_keeps_bumps split: option.splits if_splits prod.splits)

lemma bumps_bounded_canary:
  assumes "se_bumps s \<le> sentinel_max_bumps"
  shows "se_bumps (canary_poll env now_s util verdict w s) \<le> sentinel_max_bumps"
proof -
  have "s = s\<lparr>se_reboot := se_reboot s\<rparr>" by simp
  with assms show ?thesis
    using handle_counts [of env now_s s sentinel_silent_bump_bins "''silent-canary''" "se_reboot s"]
    by (auto simp: canary_poll_def Let_def dest: handle_keeps_bumps split: option.splits prod.splits)
qed

text \<open>C40: the flag of an apply hides a driver reset. For eight seconds after an apply the boot flag stands; a
  reset that the driver recovers from in that window is taken for one of the forge: neither the record nor
  the condemnation ledger learns of it and the profile stays. Its event is committed, so once the window has closed the next start does not
  demote the profile either.\<close>

theorem reset_in_window_forgotten:
  assumes "\<not> fw_active w" and "se_last_handled s \<noteq> Some ts"
    and "\<not> (length ts \<ge> 19 \<and> take 19 ts < start_floor)"
    and "is_boot_flag_armed (mc_disk (se_machine s))"
    and "applied_pair (sv_codecs env) (mc_disk (se_machine s)) = Some pair"
    and "\<not> refused (mc_disk (se_machine s)) baseline_file" "\<not> unreadable (mc_disk (se_machine s)) baseline_file"
    and "trim ts = ts"
    and "watch_poll env start_floor now_s (Some ts) None (w, s) = (w', s')"
    and "d = snd (clear_boot_flag (mc_disk (se_machine s')))"
  shows "w' = w \<and> se_bumps s' = se_bumps s \<and> se_reboot s' = Some ts \<and>
    mc_gpu (se_machine s') = mc_gpu (se_machine s) \<and>
    load_record c d = load_record c (mc_disk (se_machine s)) \<and>
    load_applied ac d = load_applied ac (mc_disk (se_machine s)) \<and>
    ledger_load lc d = ledger_load lc (mc_disk (se_machine s)) \<and>
    fst (startup_reconcile env hex (Some ts) None d) = False"
proof -
  obtain e where s': "s' = commit_event ts (on_disk (append_sentinel_log env e) (s\<lparr>se_reboot := Some ts\<rparr>))"
    and w': "w' = w"
    using assms(1-5,9)
    by (auto simp: watch_poll_def handle_failure_def sentinel_decide_def Let_def on_disk_def
        split: if_splits)
  have flag: "fs_read n (snd (clear_boot_flag d0)) = fs_read n d0" if "n \<noteq> boot_flag_file" for n d0
    using that fs_read_remove_other [of boot_flag_file n d0] by (simp add: clear_boot_flag_def)
  define d1 where "d1 = append_sentinel_log env e (mc_disk (se_machine s))"
  have d: "d = snd (clear_boot_flag (persist_baseline ts d1))"
    by (simp add: assms(10) s' commit_event_def on_disk_def d1_def)
  have "\<not> refused d1 baseline_file" "\<not> unreadable d1 baseline_file"
    using assms(6,7) by (auto simp: d1_def append_sentinel_log_def fs_append_def fs_write_def)
  then have "fs_read baseline_file d = Inr ts"
    by (simp add: d flag) (simp add: persist_baseline_def fs_write_def fs_read_def)
  then have "fst (startup_reconcile env hex (Some ts) None d) = False"
    by (simp add: startup_reconcile_def is_some_and_def assms(8) opt_filter_def opt_bind_def Let_def
        split: option.split)
  moreover have "load_record c d = load_record c (mc_disk (se_machine s))"
    by (simp add: d load_record_def flag log_frame d1_def sentinel_files_other [symmetric])
  moreover have "load_applied ac d = load_applied ac (mc_disk (se_machine s))"
    by (simp add: d load_applied_def flag log_frame d1_def sentinel_files_other [symmetric] applied_file_other)
  moreover have "fs_read ledger_file d = fs_read ledger_file (mc_disk (se_machine s))"
    by (simp add: d flag log_frame d1_def sentinel_files_other [symmetric] ledger_file_def file_names
        sentinel_log_file_def baseline_file_def)
  then have "ledger_load lc d = ledger_load lc (mc_disk (se_machine s))"
    by (simp add: ledger_load_def load_lines_def)
  ultimately show ?thesis by (simp add: w' s' commit_event_def on_disk_def)
qed

definition window_disk :: disk where
  "window_disk = sentinel_disk\<lparr>files := (files sentinel_disk)(boot_flag_file \<mapsto> ''f'')\<rparr>"

definition window_sentinel :: "toy_card sentinel" where
  "window_sentinel = \<lparr>se_machine = \<lparr>mc_disk = window_disk, mc_gpu = stock_card, mc_timers = [5]\<rparr>,
     se_last_action = 0, se_reboot = None, se_bumps = 0, se_last_handled = None\<rparr>"

theorem reset_in_window_forgotten_witness:
  "applied_pair sentinel_codecs (snd (clear_boot_flag (mc_disk (se_machine (snd
     (watch_poll sentinel_toy_env ''2'' 1000 (Some ''b'') None (idle_world, window_sentinel))))))) = Some (1900, 800)"
proof -
  let ?ws = "watch_poll sentinel_toy_env ''2'' 1000 (Some ''b'') None (idle_world, window_sentinel)"
  obtain w' s' where ws: "?ws = (w', s')" by fastforce
  have cx: "sv_codecs sentinel_toy_env = sentinel_codecs" by (simp add: sentinel_toy_env_def)
  have disk: "mc_disk (se_machine window_sentinel) = window_disk" "se_last_handled window_sentinel = None"
    by (simp_all add: window_sentinel_def)
  have armed: "is_boot_flag_armed window_disk" "\<not> refused window_disk f" "\<not> unreadable window_disk f" for f
    by (simp_all add: window_disk_def is_boot_flag_armed_def fs_exists_def sentinel_disk_def empty_disk_def)
  have load: "load_applied (cx_applied sentinel_codecs) window_disk = Some low_profile"
    using sentinel_toy_facts(2)
    by (auto simp: load_applied_def fs_read_def window_disk_def applied_file_other sentinel_toy_facts
        split: option.splits)
  then have pair: "applied_pair sentinel_codecs window_disk = Some (1900, 800)"
    by (simp add: applied_pair_def low_profile_def bumped_profile_def opt_bind_def)
  have "trim ''b'' = ''b''" by (rule trim_ends) (simp_all add: white_space_def)
  from reset_in_window_forgotten [where pair = "(1900, 800)" and ac = "cx_applied sentinel_codecs",
      OF _ _ _ _ _ _ _ this ws refl]
  have "load_applied (cx_applied sentinel_codecs) (snd (clear_boot_flag (mc_disk (se_machine s')))) = Some low_profile"
    by (simp add: cx disk armed pair load idle_world_def)
  then show ?thesis
    by (simp add: ws applied_pair_def low_profile_def bumped_profile_def opt_bind_def)
qed

end
