(* ===== verification/Service.thy ===== *)
theory Service
  imports Sentinel
begin

text \<open>
  The service as a whole: the order of its start and stop in \<open>crates/service/src/service_impl.rs\<close>, and the
  requests of \<open>crates/service/src/ipc_server.rs\<close> with the guards that stand before them. The other engines
  (validation, sweeps, benchmark, detector laboratory) are an interface: what the dispatcher asks of
  them. A request that launches one of their workers hands it the disk and the card, with which the worker
  may do anything. The texts of the answers are constructors.
\<close>

section \<open>Requests\<close>

datatype ipc_request =
  Ping | DetectHardware | ReadSensors | GetCapabilityReport | GetDriverStatus | GetSafeLoopStatus
| AcknowledgeForgeIncident | GetGpuCurve | StartGpuValidation | GetGpuValidation | StartRealSweep
| StartRealSweepFast | StopRealSweep | GetRealSweepProgress | StartMemSweep | StopMemSweep
| GetMemSweepProgress | ApplyGodforge | ApplyBrokkrs | ApplyDeepCalm | ApplyMemPeak | ResetGpuTuning
| ResetGpuTuningFull | GetAppliedProfile | VerifyAppliedProfile | StartForgeAll | StopForgeAll
| GetForgeAllProgress | StartBenchmark | StopBenchmark | GetBenchmarkProgress | StartPowerSweep
| StartPowerSweepClean | StartPowerSweepFast | StartPowerSweepLong | StopPowerSweep | ResumePowerSweep
| GetPowerSweepProgress | ApplyPowerGodforge | ApplyPowerBrokkrs | ApplyPowerDeepCalm
| ReportPowerGodforgeUnstable | ReportPowerBrokkrsUnstable | ReportPowerDeepCalmUnstable
| ExportForgeLog | GetSentinelStatus | StartGameTrace | StopGameTrace | GetGameTraceStatus
| ApplyManualDiagnosticPoint u32 u32 | ResetManualDiagnosticPoint | GetManualDiagnosticPointStatus
| StartDetectorLab string u32 | StopDetectorLab | GetDetectorLabStatus

definition gpu_write_requires_idle :: "ipc_request \<Rightarrow> bool" where
  "gpu_write_requires_idle rq \<longleftrightarrow>
     (case rq of
        StartGpuValidation \<Rightarrow> True | StartRealSweep \<Rightarrow> True | StartRealSweepFast \<Rightarrow> True
      | StartMemSweep \<Rightarrow> True | ApplyGodforge \<Rightarrow> True | ApplyBrokkrs \<Rightarrow> True | ApplyDeepCalm \<Rightarrow> True
      | ApplyMemPeak \<Rightarrow> True | StartForgeAll \<Rightarrow> True | StartBenchmark \<Rightarrow> True | StartPowerSweep \<Rightarrow> True
      | StartPowerSweepClean \<Rightarrow> True | StartPowerSweepFast \<Rightarrow> True | StartPowerSweepLong \<Rightarrow> True
      | ResumePowerSweep \<Rightarrow> True | ApplyPowerGodforge \<Rightarrow> True | ApplyPowerBrokkrs \<Rightarrow> True
      | ApplyPowerDeepCalm \<Rightarrow> True | ApplyManualDiagnosticPoint _ _ \<Rightarrow> True | _ \<Rightarrow> False)"

definition gpu_reboot_guard_applies :: "ipc_request \<Rightarrow> bool" where
  "gpu_reboot_guard_applies rq \<longleftrightarrow>
     gpu_write_requires_idle rq \<or> (case rq of StartDetectorLab _ _ \<Rightarrow> True | _ \<Rightarrow> False)"

text \<open>
  What the dispatcher asks of the engines. A worker runs beside the service; here everything it writes is put
  into the request that launched it: \<open>eg_launch\<close> launches a worker of an engine that is not modelled and
  returns the disk and the card as that worker leaves them, and \<open>eg_forge\<close> is what the worker of a Forge run
  makes of them. Both may be any function. \<open>eg_other\<close> stands for the requests that read a status or raise a
  stop flag.
\<close>

record ('g, 'e) engines =
  eg_running :: "'e \<Rightarrow> bool"
  eg_lab_running :: "'e \<Rightarrow> bool"
  eg_profile :: "ipc_request \<Rightarrow> 'e \<Rightarrow> (string \<times> vf_point) option"
  eg_peak_offset :: "'e \<Rightarrow> i32"
  eg_stop_all :: "'e \<Rightarrow> 'e"
  eg_stop_lab :: "'e \<Rightarrow> 'e"
  eg_launch :: "ipc_request \<Rightarrow> 'e \<Rightarrow> 'g machine \<Rightarrow> bool \<times> 'e \<times> 'g machine"
  eg_forge :: "ipc_request \<Rightarrow> 'g machine \<Rightarrow> 'g machine"
  eg_other :: "ipc_request \<Rightarrow> 'e \<Rightarrow> bool \<times> 'e"

record ('g, 'e) service =
  sx_sentinel :: "'g sentinel"
  sx_forge :: forge_world
  sx_manual :: manual_status
  sx_engines :: 'e

datatype ipc_failure =
  LeaseHeld
| RebootNeeded string
| IncidentUnacknowledged
| ForgeBusy
| ResumeRefused forge_text
| ReportRefused forge_text
| ProfilesProvisional
| ProfileCondemned
| NoForgePoint
| NoConfirmedPower
| NotQualified
| ManualRefused manual_apply_error
| ManualResetRefused gpu_apply_error
| StopLabFirst
| AcknowledgeFailed io_error
| RunSweepFirst
| EngineRefused

datatype ipc_response =
  Failure ipc_failure
| ApplyStatus "gpu_apply_error option"
| ResetStatus "gpu_apply_error option" "string list"
| ForgeStatus forge_progress
| ManualStatus manual_status
| OtherStatus

section \<open>Applying a profile\<close>

definition sx_machine :: "('g, 'e) service \<Rightarrow> 'g machine" where
  "sx_machine s = se_machine (sx_sentinel s)"

definition with_machine :: "'g machine \<Rightarrow> ('g, 'e) service \<Rightarrow> ('g, 'e) service" where
  "with_machine m s = s\<lparr>sx_sentinel := (sx_sentinel s)\<lparr>se_machine := m\<rparr>\<rparr>"

definition err_option :: "('e, 'a) result \<Rightarrow> 'e option" where
  "err_option r = (case r of Inl e \<Rightarrow> Some e | Inr _ \<Rightarrow> None)"

definition default_profile :: applied_profile where
  "default_profile = \<lparr>ap_label = [], ap_core = None, ap_mem_offset = None, ap_applied_at = None,
                      ap_undervolt = None\<rparr>"

definition applied_or_default :: "'g sentinel_env \<Rightarrow> 'g machine \<Rightarrow> applied_profile" where
  "applied_or_default env m = unwrap_or (load_applied (cx_applied (sv_codecs env)) (mc_disk m)) default_profile"

definition undervolt_apply_params :: "power_sweep_point \<Rightarrow> u32 \<times> u32" where
  "undervolt_apply_params q =
     (unwrap_or (ps_target_clock_mhz q) (ps_clock_mhz q), unwrap_or (ps_vf_table_voltage_mv q) (ps_voltage_mv q))"

definition apply_undervolt_profile ::
  "'g sentinel_env \<Rightarrow> power_sweep_point option \<Rightarrow> string \<Rightarrow> 'g machine \<Rightarrow> ipc_response \<times> 'g machine" where
  "apply_undervolt_profile env pt label m =
     (case pt of
        None \<Rightarrow> (Failure NoForgePoint, m)
      | Some q \<Rightarrow>
          if \<not> is_some_and (ps_power_p99_w q) usable_power then (Failure NoConfirmedPower, m)
          else if \<not> point_apply_qualified q then (Failure NotQualified, m)
          else (case undervolt_apply_params q of (target, anchor) \<Rightarrow>
                case apply_and_persist_undervolt (sv_vendor env) (sv_settle env) (sv_polls env)
                       (codecs.truncate (sv_codecs env)) (sv_now env) label target anchor
                       (ap_mem_offset (applied_or_default env m)) m of
                  (r, m') \<Rightarrow> (ApplyStatus (err_option r), m')))"

definition apply_with_mem ::
  "'g sentinel_env \<Rightarrow> ('g \<Rightarrow> (u32 \<times> u32) list option) \<Rightarrow> applied_profile \<Rightarrow> 'g machine \<Rightarrow>
   ipc_response \<times> 'g machine" where
  "apply_with_mem env legacy ap m =
     (case apply_and_persist (sv_vendor env) legacy (codecs.truncate (sv_codecs env)) (sv_now env)
             (ap_label ap) (ap_core ap) (ap_mem_offset ap) m of
        (r, m') \<Rightarrow> (ApplyStatus (err_option r), m'))"

definition apply_power_profile ::
  "'g sentinel_env \<Rightarrow> ('g \<Rightarrow> (u32 \<times> u32) list option) \<Rightarrow> power_sweep_point option \<Rightarrow> string \<Rightarrow> 'g machine \<Rightarrow>
   ipc_response \<times> 'g machine" where
  "apply_power_profile env legacy pt label m =
     (case pt of
        None \<Rightarrow> (Failure NoForgePoint, m)
      | Some q \<Rightarrow>
          apply_with_mem env legacy
            ((applied_or_default env m)
               \<lparr>ap_core := Some \<lparr>vp_freq_mhz = ps_clock_mhz q, vp_voltage_mv = ps_voltage_mv q\<rparr>,
                ap_label := label\<rparr>) m)"

definition apply_forge_profile ::
  "'g sentinel_env \<Rightarrow> ('g \<Rightarrow> (u32 \<times> u32) list option) \<Rightarrow> forge_progress \<Rightarrow> power_sweep_point option \<Rightarrow>
   string \<Rightarrow> 'g machine \<Rightarrow> ipc_response \<times> 'g machine" where
  "apply_forge_profile env legacy p pt label m =
     (let r = load_record (cx_record (sv_codecs env)) (mc_disk m)
      in if pending_forge_incident r \<noteq> None then (Failure IncidentUnacknowledged, m)
         else if fg_is_undervolt p
         then (if \<not> fg_profiles_qualified p then (Failure ProfilesProvisional, m)
               else case pt of
                 None \<Rightarrow> apply_undervolt_profile env None label m
               | Some q \<Rightarrow>
                   (case undervolt_apply_params q of (target, anchor) \<Rightarrow>
                      if field_pair_blacklisted r target anchor \<or>
                         refuses (ledger_pairs (cx_event (sv_codecs env)) (mc_disk m) (sv_gpu_key env)) target anchor
                      then (Failure ProfileCondemned, m)
                      else apply_undervolt_profile env (Some q) label m))
         else apply_power_profile env legacy pt label m)"

section \<open>The dispatcher\<close>

definition gpu_operation_running :: "('g, 'e) engines \<Rightarrow> ('g, 'e) service \<Rightarrow> bool" where
  "gpu_operation_running eg s \<longleftrightarrow>
     eg_running eg (sx_engines s) \<or> fg_running (fw_progress (sx_forge s)) \<or> ms_active (sx_manual s) \<or>
     eg_lab_running eg (sx_engines s)"

definition on_machine ::
  "('g machine \<Rightarrow> ipc_response \<times> 'g machine) \<Rightarrow> ('g, 'e) service \<Rightarrow> ipc_response \<times> ('g, 'e) service" where
  "on_machine f s = (case f (sx_machine s) of (resp, m) \<Rightarrow> (resp, with_machine m s))"

definition start_forge ::
  "'g sentinel_env \<Rightarrow> ('g, 'e) service \<Rightarrow> ipc_response \<times> ('g, 'e) service" where
  "start_forge env s =
     (let d = mc_disk (sx_machine s)
      in case start_with_intent (sv_codecs env) d (sx_forge s) of
           (True, w) \<Rightarrow> (ForgeStatus (fw_progress w), s\<lparr>sx_forge := w\<rparr>)
         | (False, w) \<Rightarrow>
             (Failure (if pending_forge_incident (load_record (cx_record (sv_codecs env)) d) \<noteq> None
                       then IncidentUnacknowledged else ForgeBusy), s\<lparr>sx_forge := w\<rparr>))"

definition resume_request ::
  "'g sentinel_env \<Rightarrow> (forge_text, resume_compat) result \<Rightarrow> ('g, 'e) service \<Rightarrow>
   ipc_response \<times> ('g, 'e) service" where
  "resume_request env cur s =
     (case resume_forge (sv_codecs env) cur (mc_disk (sx_machine s)) (sx_forge s) of
        (Inl e, w) \<Rightarrow> (Failure (ResumeRefused e), s\<lparr>sx_forge := w\<rparr>)
      | (Inr _, w) \<Rightarrow> (ForgeStatus (fw_progress w), s\<lparr>sx_forge := w\<rparr>))"

definition report_request ::
  "'g sentinel_env \<Rightarrow> string \<Rightarrow> ('g, 'e) service \<Rightarrow> ipc_response \<times> ('g, 'e) service" where
  "report_request env key s =
     (case report_profile_unstable (sv_codecs env) (sv_now env) (sv_nanos env) (sv_gpu_key env) key
             (sx_forge s) (mc_disk (sx_machine s)) of
        (r, w, d) \<Rightarrow>
          ((case r of Inl e \<Rightarrow> Failure (ReportRefused e) | Inr p \<Rightarrow> ForgeStatus p),
           with_machine ((sx_machine s)\<lparr>mc_disk := d\<rparr>) (s\<lparr>sx_forge := w\<rparr>)))"

definition acknowledge_request ::
  "'g sentinel_env \<Rightarrow> ('g, 'e) service \<Rightarrow> ipc_response \<times> ('g, 'e) service" where
  "acknowledge_request env s =
     (case acknowledge_on_disk (cx_record (sv_codecs env)) (mc_disk (sx_machine s)) of
        (r, d) \<Rightarrow>
          ((case r of Inl e \<Rightarrow> Failure (AcknowledgeFailed e) | Inr _ \<Rightarrow> OtherStatus),
           with_machine ((sx_machine s)\<lparr>mc_disk := d\<rparr>) s))"

text \<open>Both resets stop every engine first; the full one also forgets what was learned.\<close>

definition stop_everything :: "('g, 'e) engines \<Rightarrow> ('g, 'e) service \<Rightarrow> ('g, 'e) service" where
  "stop_everything eg s =
     s\<lparr>sx_engines := eg_stop_all eg (sx_engines s), sx_forge := handle_abort (sx_forge s)\<rparr>"

definition reset_request ::
  "'g sentinel_env \<Rightarrow> ('g, 'e) engines \<Rightarrow> forge_text \<Rightarrow> ('g, 'e) service \<Rightarrow> ipc_response \<times> ('g, 'e) service" where
  "reset_request env eg text s =
     (let s1 = stop_everything eg s
      in case gpu_reset (sv_vendor env) (codecs.truncate (sv_codecs env)) (sx_machine s1) of
           (Inl e, m) \<Rightarrow> (ResetStatus (Some e) [], with_machine m s1)
         | (Inr _, m) \<Rightarrow>
             (ResetStatus None [],
              with_machine m (s1\<lparr>sx_manual := idle_status, sx_forge := recover_after_reset text (sx_forge s1)\<rparr>)))"

definition full_reset_request ::
  "'g sentinel_env \<Rightarrow> ('g, 'e) engines \<Rightarrow> forge_text \<Rightarrow> ('g, 'e) service \<Rightarrow> ipc_response \<times> ('g, 'e) service" where
  "full_reset_request env eg text s =
     (let s1 = stop_everything eg s
      in case gpu_reset (sv_vendor env) (codecs.truncate (sv_codecs env)) (sx_machine s1) of
           (Inl e, m) \<Rightarrow> (ResetStatus (Some e) [], with_machine m s1)
         | (Inr _, m) \<Rightarrow>
             (case save_record (cx_record (sv_codecs env)) default_record (mc_disk m) of (r1, d1) \<Rightarrow>
              case clear_all_learning d1 of (errors, d2) \<Rightarrow>
              case clear_persisted_forge_state d2 of (r3, d3) \<Rightarrow>
              case reset_sentinel_state ((sx_sentinel s1)\<lparr>se_machine := m\<lparr>mc_disk := d3\<rparr>\<rparr>) of (problems, sen) \<Rightarrow>
                (ResetStatus None
                   ((if is_err r1 then [record_file] else []) @ errors @
                    (if is_err r3 then [forge_state_file_name] else []) @ problems),
                 s1\<lparr>sx_sentinel := sen, sx_manual := idle_status,
                    sx_forge := forget_after_full_reset text (sx_forge s1)\<rparr>)))"

definition sweep_apply_request ::
  "'g sentinel_env \<Rightarrow> ('g, 'e) engines \<Rightarrow> ('g \<Rightarrow> (u32 \<times> u32) list option) \<Rightarrow> ipc_request \<Rightarrow> ('g, 'e) service \<Rightarrow>
   ipc_response \<times> ('g, 'e) service" where
  "sweep_apply_request env eg legacy rq s =
     (case eg_profile eg rq (sx_engines s) of
        None \<Rightarrow> (Failure RunSweepFirst, s)
      | Some (name, point) \<Rightarrow>
          on_machine (\<lambda>m. apply_with_mem env legacy
            ((applied_or_default env m)\<lparr>ap_label := name, ap_core := Some point\<rparr>) m) s)"

definition mem_peak_request ::
  "'g sentinel_env \<Rightarrow> ('g, 'e) engines \<Rightarrow> ('g \<Rightarrow> (u32 \<times> u32) list option) \<Rightarrow> ('g, 'e) service \<Rightarrow>
   ipc_response \<times> ('g, 'e) service" where
  "mem_peak_request env eg legacy s =
     (let peak = eg_peak_offset eg (sx_engines s)
      in if peak \<le> 0 then (Failure RunSweepFirst, s)
         else on_machine (\<lambda>m.
           let ap = (applied_or_default env m)\<lparr>ap_mem_offset := Some peak\<rparr>
           in apply_with_mem env legacy (if ap_label ap = [] then ap\<lparr>ap_label := ''Custom''\<rparr> else ap) m) s)"

definition manual_apply_request ::
  "'g sentinel_env \<Rightarrow> u64 option \<Rightarrow> u32 \<Rightarrow> u32 \<Rightarrow> ('g, 'e) service \<Rightarrow> ipc_response \<times> ('g, 'e) service" where
  "manual_apply_request env epoch target mv s =
     (case manual_point_apply (sv_vendor env) (sv_settle env) (sv_polls env) (codecs.truncate (sv_codecs env))
             (sv_now env) epoch target mv (sx_manual s, sx_machine s) of
        (r, st, m) \<Rightarrow>
          ((case r of Inl e \<Rightarrow> Failure (ManualRefused e) | Inr st' \<Rightarrow> ManualStatus st'),
           with_machine m (s\<lparr>sx_manual := st\<rparr>)))"

definition manual_reset_request ::
  "'g sentinel_env \<Rightarrow> ('g, 'e) engines \<Rightarrow> ('g, 'e) service \<Rightarrow> ipc_response \<times> ('g, 'e) service" where
  "manual_reset_request env eg s =
     (if eg_lab_running eg (sx_engines s) then (Failure StopLabFirst, s)
      else case manual_point_reset (sv_vendor env) (sx_manual s, sx_machine s) of
        (r, st, m) \<Rightarrow>
          ((case r of Inl e \<Rightarrow> Failure (ManualResetRefused e) | Inr st' \<Rightarrow> ManualStatus st'),
           with_machine m (s\<lparr>sx_manual := st\<rparr>)))"

definition forge_label :: "ipc_request \<Rightarrow> string" where
  "forge_label rq =
     (case rq of ApplyPowerGodforge \<Rightarrow> ''Godforge''
      | ApplyPowerBrokkrs \<Rightarrow> ''Brokkr'' @ [quote_mark] @ ''s Best''
      | _ \<Rightarrow> ''Deep Calm'')"

definition forge_point :: "ipc_request \<Rightarrow> forge_progress \<Rightarrow> power_sweep_point option" where
  "forge_point rq p =
     (case rq of ApplyPowerGodforge \<Rightarrow> sp_godforge p | ApplyPowerBrokkrs \<Rightarrow> sp_brokkrs p | _ \<Rightarrow> sp_deep_calm p)"

record 'g request_env =
  rq_env :: "'g sentinel_env"
  rq_legacy :: "'g \<Rightarrow> (u32 \<times> u32) list option"
  rq_identity :: "(forge_text, resume_compat) result"
  rq_epoch :: "u64 option"
  rq_text :: forge_text

definition engine_request ::
  "('g, 'e) engines \<Rightarrow> ipc_request \<Rightarrow> ('g, 'e) service \<Rightarrow> ipc_response \<times> ('g, 'e) service" where
  "engine_request eg rq s =
     (case eg_other eg rq (sx_engines s) of
        (ok, e) \<Rightarrow> (if ok then OtherStatus else Failure EngineRefused, s\<lparr>sx_engines := e\<rparr>))"

definition launch_request ::
  "('g, 'e) engines \<Rightarrow> ipc_request \<Rightarrow> ('g, 'e) service \<Rightarrow> ipc_response \<times> ('g, 'e) service" where
  "launch_request eg rq s =
     (case eg_launch eg rq (sx_engines s) (sx_machine s) of
        (ok, e, m) \<Rightarrow>
          (if ok then OtherStatus else Failure EngineRefused, with_machine m (s\<lparr>sx_engines := e\<rparr>)))"

text \<open>An accepted start or resumption launched the worker of the Forge run.\<close>

definition launch_forge ::
  "('g, 'e) engines \<Rightarrow> ipc_request \<Rightarrow> ipc_response \<times> ('g, 'e) service \<Rightarrow> ipc_response \<times> ('g, 'e) service" where
  "launch_forge eg rq answer =
     (case answer of
        (ForgeStatus p, s) \<Rightarrow> (ForgeStatus p, with_machine (eg_forge eg rq (sx_machine s)) s)
      | _ \<Rightarrow> answer)"

definition dispatch ::
  "'g request_env \<Rightarrow> ('g, 'e) engines \<Rightarrow> ipc_request \<Rightarrow> ('g, 'e) service \<Rightarrow> ipc_response \<times> ('g, 'e) service" where
  "dispatch re eg rq s =
     (let env = rq_env re; legacy = rq_legacy re; p = fw_progress (sx_forge s);
          forge_apply = on_machine (apply_forge_profile env legacy p (forge_point rq p) (forge_label rq)) s
      in case rq of
           AcknowledgeForgeIncident \<Rightarrow> acknowledge_request env s
         | ApplyGodforge \<Rightarrow> sweep_apply_request env eg legacy rq s
         | ApplyBrokkrs \<Rightarrow> sweep_apply_request env eg legacy rq s
         | ApplyDeepCalm \<Rightarrow> sweep_apply_request env eg legacy rq s
         | ApplyMemPeak \<Rightarrow> mem_peak_request env eg legacy s
         | ResetGpuTuning \<Rightarrow> reset_request env eg (rq_text re) s
         | ResetGpuTuningFull \<Rightarrow> full_reset_request env eg (rq_text re) s
         | StartPowerSweep \<Rightarrow> launch_forge eg rq (start_forge env s)
         | StartPowerSweepClean \<Rightarrow> launch_forge eg rq (start_forge env s)
         | StartPowerSweepFast \<Rightarrow> launch_forge eg rq (start_forge env s)
         | StartPowerSweepLong \<Rightarrow> launch_forge eg rq (start_forge env s)
         | StopPowerSweep \<Rightarrow>
             (let w = handle_stop (sx_forge s) in (ForgeStatus (fw_progress w), s\<lparr>sx_forge := w\<rparr>))
         | ResumePowerSweep \<Rightarrow> launch_forge eg rq (resume_request env (rq_identity re) s)
         | GetPowerSweepProgress \<Rightarrow> (ForgeStatus p, s)
         | ApplyPowerGodforge \<Rightarrow> forge_apply
         | ApplyPowerBrokkrs \<Rightarrow> forge_apply
         | ApplyPowerDeepCalm \<Rightarrow> forge_apply
         | ReportPowerGodforgeUnstable \<Rightarrow> report_request env ''godforge'' s
         | ReportPowerBrokkrsUnstable \<Rightarrow> report_request env ''brokkrs'' s
         | ReportPowerDeepCalmUnstable \<Rightarrow> report_request env ''deep_calm'' s
         | ApplyManualDiagnosticPoint target mv \<Rightarrow> manual_apply_request env (rq_epoch re) target mv s
         | ResetManualDiagnosticPoint \<Rightarrow> manual_reset_request env eg s
         | GetManualDiagnosticPointStatus \<Rightarrow> (ManualStatus (sx_manual s), s)
         | StartGpuValidation \<Rightarrow> launch_request eg rq s
         | StartRealSweep \<Rightarrow> launch_request eg rq s
         | StartRealSweepFast \<Rightarrow> launch_request eg rq s
         | StartMemSweep \<Rightarrow> launch_request eg rq s
         | StartForgeAll \<Rightarrow> launch_request eg rq s
         | StartBenchmark \<Rightarrow> launch_request eg rq s
         | StartDetectorLab recipe duration \<Rightarrow> launch_request eg rq s
         | _ \<Rightarrow> engine_request eg rq s)"

definition handle_request ::
  "'g request_env \<Rightarrow> ('g, 'e) engines \<Rightarrow> ipc_request \<Rightarrow> ('g, 'e) service \<Rightarrow> ipc_response \<times> ('g, 'e) service" where
  "handle_request re eg rq s =
     (if gpu_write_requires_idle rq \<and> gpu_operation_running eg s then (Failure LeaseHeld, s)
      else case (if gpu_reboot_guard_applies rq then se_reboot (sx_sentinel s) else None) of
        Some event \<Rightarrow> (Failure (RebootNeeded event), s)
      | None \<Rightarrow> dispatch re eg rq s)"

section \<open>Start and stop\<close>

record start_queries =
  sq_message :: "string option"
  sq_newest :: "string option"
  sq_bugcheck :: "(string \<times> u64) option"
  sq_millis :: "string \<Rightarrow> i64 option"
  sq_boot_ms :: u64
  sq_hex :: "u64 \<Rightarrow> string"

definition service_start ::
  "'g request_env \<Rightarrow> start_queries \<Rightarrow> 'g machine \<Rightarrow> 'e \<Rightarrow> ('g, 'e) service" where
  "service_start re q m e =
     (let env = rq_env re; cx = sv_codecs env;
          d1 = snd (reconcile_interrupted_forge cx (sv_now env) (sv_nanos env) (mc_disk m));
          d2 = snd (run_startup_recovery (cx_flag cx) (cx_record cx) (sq_message q) d1);
          reboot = initial_reboot_guard (sq_millis q) (sq_newest q) (sq_boot_ms q);
          d3 = snd (startup_reconcile env (sq_hex q) (sq_newest q) (sq_bugcheck q) d2);
          m1 = reapply_on_boot (sv_vendor env) (rq_legacy re) (sv_settle env) (sv_polls env)
                 (codecs.truncate cx) (sv_now env) (reboot \<noteq> None) (m\<lparr>mc_disk := d3\<rparr>)
      in case restore_handle_progress cx (sv_gpu_key env) (rq_identity re) (mc_disk m1) of
           (p, d4) \<Rightarrow>
             \<lparr>sx_sentinel = \<lparr>se_machine = m1\<lparr>mc_disk := d4\<rparr>, se_last_action = 0, se_reboot = reboot,
                             se_bumps = 0, se_last_handled = sq_newest q\<rparr>,
              sx_forge = idle_world\<lparr>fw_progress := p\<rparr>, sx_manual = idle_status, sx_engines = e\<rparr>)"

definition service_stop :: "'g request_env \<Rightarrow> ('g, 'e) engines \<Rightarrow> ('g, 'e) service \<Rightarrow> ('g, 'e) service" where
  "service_stop re eg s =
     (let s1 = s\<lparr>sx_engines := eg_stop_lab eg (sx_engines s)\<rparr>
      in case manual_point_reset (sv_vendor (rq_env re)) (sx_manual s1, sx_machine s1) of
           (_, st, m) \<Rightarrow>
             with_machine (m\<lparr>mc_disk := snd (write_clean_shutdown (sv_now (rq_env re)) (mc_disk m))\<rparr>)
               (s1\<lparr>sx_manual := st\<rparr>))"

end
