(* ===== verification/ServiceProps.thy ===== *)
theory ServiceProps
  imports Service
begin

text \<open>
  What the requests and the start of the service guarantee: the card is written only by an admitted
  request and under the boot flag, a forge profile is applied only when it is qualified and nothing
  stands against it, and a crash is never answered by a re-application.
\<close>

section \<open>Frames\<close>

lemma machine_simps [simp]:
  "sx_machine (with_machine m s) = m" "sx_machine (s\<lparr>sx_forge := w\<rparr>) = sx_machine s"
  "sx_machine (s\<lparr>sx_manual := st\<rparr>) = sx_machine s" "sx_machine (s\<lparr>sx_engines := e\<rparr>) = sx_machine s"
  by (simp_all add: sx_machine_def with_machine_def)

lemma engine_machine: "sx_machine (snd (engine_request eg rq s)) = sx_machine s"
  by (simp add: engine_request_def split: prod.split)

lemma start_machine: "sx_machine (snd (start_forge env s)) = sx_machine s"
  by (simp add: start_forge_def Let_def split: prod.split bool.split)

lemma resume_machine: "sx_machine (snd (resume_request env cur s)) = sx_machine s"
  by (simp add: resume_request_def split: prod.split sum.split)

lemma report_card: "mc_gpu (sx_machine (snd (report_request env key s))) = mc_gpu (sx_machine s)"
  by (simp add: report_request_def split: prod.split)

lemma acknowledge_card: "mc_gpu (sx_machine (snd (acknowledge_request env s))) = mc_gpu (sx_machine s)"
  by (simp add: acknowledge_request_def split: prod.split)

lemma on_machine_machine: "sx_machine (snd (on_machine f s)) = snd (f (sx_machine s))"
  by (simp add: on_machine_def split: prod.split)

lemmas request_frames = engine_machine start_machine resume_machine report_card acknowledge_card
  on_machine_machine

text \<open>An apply that changed the machine left the boot flag armed.\<close>

lemma apply_with_mem_armed:
  "snd (apply_with_mem env legacy ap m) = m \<or> is_boot_flag_armed (mc_disk (snd (apply_with_mem env legacy ap m)))"
  using apply_persist_cases [of "sv_vendor env" legacy "codecs.truncate (sv_codecs env)" "sv_now env" "ap_label ap"
      "ap_core ap" "ap_mem_offset ap" m]
  by (fastforce simp: apply_with_mem_def split: prod.split)

lemma apply_undervolt_profile_armed:
  "snd (apply_undervolt_profile env pt label m) = m \<or>
   is_boot_flag_armed (mc_disk (snd (apply_undervolt_profile env pt label m)))"
proof -
  have "snd (apply_and_persist_undervolt v st po cx nw label t a mem m) = m \<or>
      is_boot_flag_armed (mc_disk (snd (apply_and_persist_undervolt v st po cx nw label t a mem m)))"
    for v st po cx nw t a mem
    using apply_undervolt_cases [of v st po cx nw label t a mem m] by (metis prod.collapse)
  then show ?thesis
    by (simp add: apply_undervolt_profile_def split: option.split prod.split)
      (metis snd_conv)
qed

lemma apply_forge_armed:
  "snd (apply_forge_profile env legacy p pt label m) = m \<or>
   is_boot_flag_armed (mc_disk (snd (apply_forge_profile env legacy p pt label m)))"
  using apply_undervolt_profile_armed [of env None label m] apply_undervolt_profile_armed [of env pt label m]
    apply_with_mem_armed [of env legacy]
  by (auto simp: apply_forge_profile_def apply_power_profile_def Let_def split: option.split prod.split)

section \<open>Properties\<close>

text \<open>The requests whose worker writes the card after the answer.\<close>

definition launches_worker :: "ipc_request \<Rightarrow> bool" where
  "launches_worker rq \<longleftrightarrow>
     rq \<in> {StartGpuValidation, StartRealSweep, StartRealSweepFast, StartMemSweep, StartForgeAll, StartBenchmark,
           StartPowerSweep, StartPowerSweepClean, StartPowerSweepFast, StartPowerSweepLong, ResumePowerSweep}"

text \<open>C7: a request changes the card only when it was admitted. It is one of the three resets; or a launch of the
  detector laboratory, with no driver reset standing against this boot; or a request that needs the tuning
  lease, made while no operation holds it and no driver reset stands against this boot. In the last case the
  boot flag is armed when an apply is done. The temporary manual point and the launches of the workers (the
  Forge runs, the sweeps, the validation, the benchmark, forge-all), which here may do anything to the card,
  are admitted in the same way and come without that.\<close>

theorem card_changed_only_when_admitted:
  assumes "handle_request re eg rq s = (resp, s')" and "mc_gpu (sx_machine s') \<noteq> mc_gpu (sx_machine s)"
  shows "rq \<in> {ResetGpuTuning, ResetGpuTuningFull, ResetManualDiagnosticPoint} \<or>
    (\<exists>recipe duration. rq = StartDetectorLab recipe duration) \<and> se_reboot (sx_sentinel s) = None \<or>
    (gpu_write_requires_idle rq \<and> \<not> gpu_operation_running eg s \<and> se_reboot (sx_sentinel s) = None \<and>
     (is_boot_flag_armed (mc_disk (sx_machine s')) \<or> (\<exists>target mv. rq = ApplyManualDiagnosticPoint target mv) \<or>
      launches_worker rq))"
proof -
  have d: "dispatch re eg rq s = (resp, s')"
    and lease: "gpu_write_requires_idle rq \<Longrightarrow> \<not> gpu_operation_running eg s \<and> se_reboot (sx_sentinel s) = None"
    and lab: "gpu_reboot_guard_applies rq \<Longrightarrow> se_reboot (sx_sentinel s) = None"
    using assms by (auto simp: handle_request_def gpu_reboot_guard_applies_def split: if_splits option.splits)
  have s': "s' = snd (dispatch re eg rq s)" by (simp add: d)
  have mem: "sx_machine (snd (mem_peak_request env eg legacy s)) = sx_machine s \<or>
      is_boot_flag_armed (mc_disk (sx_machine (snd (mem_peak_request env eg legacy s))))" for env legacy
    using apply_with_mem_armed by (auto simp: mem_peak_request_def on_machine_machine Let_def)
  have sweep: "sx_machine (snd (sweep_apply_request env eg legacy rq s)) = sx_machine s \<or>
      is_boot_flag_armed (mc_disk (sx_machine (snd (sweep_apply_request env eg legacy rq s))))" for env legacy
    using apply_with_mem_armed by (auto simp: sweep_apply_request_def on_machine_machine split: option.split)
  note facts = mem [of "rq_env re" "rq_legacy re"] sweep [of "rq_env re" "rq_legacy re"]
    apply_forge_armed [of "rq_env re" "rq_legacy re" "fw_progress (sx_forge s)"
      "forge_point rq (fw_progress (sx_forge s))" "forge_label rq" "sx_machine s"]
  show ?thesis
  proof (cases "gpu_write_requires_idle rq")
    case True
    then show ?thesis
      using lease facts assms(2) unfolding s'
      by (cases rq) (auto simp: gpu_write_requires_idle_def launches_worker_def dispatch_def Let_def request_frames)
  next
    case False
    then show ?thesis
      using assms(2) lab unfolding s'
      by (cases rq) (auto simp: gpu_write_requires_idle_def gpu_reboot_guard_applies_def launches_worker_def dispatch_def Let_def request_frames)
  qed
qed

text \<open>A service over the toy card whose other engines are idle, and one with a qualified point to apply.\<close>

definition idle_engines :: "(toy_card, unit) engines" where
  "idle_engines = \<lparr>eg_running = (\<lambda>_. False), eg_lab_running = (\<lambda>_. False), eg_profile = (\<lambda>_ _. None),
     eg_peak_offset = (\<lambda>_. 500), eg_stop_all = id, eg_stop_lab = id, eg_launch = (\<lambda>_ e m. (True, e, m)),
     eg_forge = (\<lambda>_ m. m), eg_other = (\<lambda>_ e. (True, e))\<rparr>"

definition toy_request_env :: "toy_card request_env" where
  "toy_request_env = \<lparr>rq_env = sentinel_toy_env, rq_legacy = (\<lambda>_. None), rq_identity = Inl IdentityUnknown,
     rq_epoch = None, rq_text = InternalFailure\<rparr>"

definition toy_service :: "toy_card \<Rightarrow> disk \<Rightarrow> forge_world \<Rightarrow> (toy_card, unit) service" where
  "toy_service g d w = \<lparr>sx_sentinel = \<lparr>se_machine = \<lparr>mc_disk = d, mc_gpu = g, mc_timers = []\<rparr>,
     se_last_action = 0, se_reboot = None, se_bumps = 0, se_last_handled = None\<rparr>,
     sx_forge = w, sx_manual = idle_status, sx_engines = ()\<rparr>"

definition ready_point :: power_sweep_point where
  "ready_point = qualified_point\<lparr>ps_vf_table_voltage_mv := Some 850, ps_power_p99_w := Some (Fin 100)\<rparr>"

definition ready_service :: "(toy_card, unit) service" where
  "ready_service = toy_service stock_card empty_disk
     (idle_world\<lparr>fw_progress := finished_progress\<lparr>sp_godforge := Some ready_point\<rparr>\<rparr>)"

lemma ready_machine: "sx_machine ready_service = \<lparr>mc_disk = empty_disk, mc_gpu = stock_card, mc_timers = []\<rparr>"
  by (simp add: ready_service_def toy_service_def sx_machine_def)

lemma ready_forge:
  "fw_progress (sx_forge ready_service) = finished_progress\<lparr>sp_godforge := Some ready_point\<rparr>"
  "fg_is_undervolt (fw_progress (sx_forge ready_service))"
  by (simp_all add: ready_service_def toy_service_def finished_flags)

lemma ready_arm: "arm (codecs.truncate sentinel_codecs) i ph now (sx_machine ready_service) =
    (Inr (), (sx_machine ready_service)\<lparr>mc_disk := empty_disk\<lparr>files := [boot_flag_file \<mapsto> ''f'']\<rparr>\<rparr>)"
  by (simp add: arm_def ready_machine empty_disk_def sentinel_codecs_def toy_forge_codecs_def store_defs fs_defs
      fun_upd_def)

lemma ready_applies:
  "mc_gpu (sx_machine (snd (handle_request toy_request_env idle_engines ApplyPowerGodforge ready_service))) \<noteq>
     mc_gpu (sx_machine ready_service)"
proof -
  have idle: "\<not> gpu_operation_running idle_engines ready_service" "se_reboot (sx_sentinel ready_service) = None"
    by (simp_all add: gpu_operation_running_def idle_engines_def ready_service_def toy_service_def idle_world_def
        idle_status_def finished_progress_def idle_progress_def)
  have load: "load_record c empty_disk = default_record" "load_applied ac empty_disk = None" for c ac
    by (simp_all add: load_record_def load_applied_def fs_read_def empty_disk_def)
  have free: "\<not> field_pair_blacklisted default_record t a" "\<not> refuses (ledger_pairs ec empty_disk gpu) t a" for t a ec gpu
    by (simp_all add: field_pair_blacklisted_def is_blacklisted_def field_floor_refuses_def field_vf_floor_mv_def
        default_record_def refuses_def ledger_pairs_def ledger_load_def load_lines_def fs_read_def empty_disk_def
        condemned_pairs_of_def vf_floor_envelope_def is_some_and_def envelope_at_def running_envelope_def field_points_def no_pairs_def)
  have usable: "usable_power (Fin 100)" "point_apply_qualified ready_point" "undervolt_apply_params ready_point = (1900, 850)"
    by (simp_all add: usable_power_def f32_is_finite_def f32_order ready_point_def point_apply_qualified_def qualified_point_def
        f2_qualification_contract_version_def undervolt_apply_params_def)
  obtain g' where g: "apply_anchored_undervolt (toy_vendor False) (\<lambda>g. g) 20 1900 850 stock_card = (Inr (), g')"
    "snd g' = 850000"
    using toy_apply [of False] by auto
  let ?r = "handle_request toy_request_env idle_engines ApplyPowerGodforge ready_service"
  have "apply_and_persist_undervolt (toy_vendor False) (\<lambda>g. g) 20 (codecs.truncate sentinel_codecs) ''now'' l 1900 850 None
      (sx_machine ready_service) = (Inr (), remember_profile (codecs.truncate sentinel_codecs) (bumped_profile ''now'' l 1900 850 None)
        ((sx_machine ready_service)\<lparr>mc_disk := empty_disk\<lparr>files := [boot_flag_file \<mapsto> ''f'']\<rparr>, mc_gpu := g'\<rparr>))" for l
    unfolding apply_and_persist_undervolt_def ready_arm
    by (simp add: ready_machine g apply_mem_offset_def bumped_profile_def)
  moreover have "ps_power_p99_w ready_point = Some (Fin 100)" by (simp add: ready_point_def)
  ultimately have "mc_gpu (sx_machine (snd ?r)) = g'"
    using idle finished_flags load free usable ready_forge
    by (simp add: handle_request_def gpu_reboot_guard_applies_def gpu_write_requires_idle_def
        dispatch_def Let_def on_machine_machine forge_point_def apply_forge_profile_def apply_undervolt_profile_def
        toy_request_env_def sentinel_toy_env_def ready_machine applied_or_default_def default_profile_def
        default_record_def is_some_and_def)
  then show ?thesis using g(2) by (auto simp: ready_machine stock_card_def)
qed

theorem card_changed_only_when_admitted_witness:
  "\<exists>resp s'. handle_request toy_request_env idle_engines ApplyPowerGodforge ready_service = (resp, s') \<and>
     is_boot_flag_armed (mc_disk (sx_machine s'))"
proof -
  obtain resp s' where r: "handle_request toy_request_env idle_engines ApplyPowerGodforge ready_service = (resp, s')"
    by fastforce
  from card_changed_only_when_admitted [OF r] ready_applies r show ?thesis by (auto simp: launches_worker_def)
qed

text \<open>C8: an undervolt profile of the forge reaches the card only when everything it rests on holds: the run
  qualified its profiles, no incident is pending, the point carries its apply qualification and a
  measured power, and neither the blacklist nor the ledger refuses the pair that is written.\<close>

theorem forge_apply_admits_only_qualified:
  assumes "handle_request re eg rq s = (resp, s')"
    and "rq \<in> {ApplyPowerGodforge, ApplyPowerBrokkrs, ApplyPowerDeepCalm}"
    and "fg_is_undervolt (fw_progress (sx_forge s))" and "sx_machine s' \<noteq> sx_machine s"
  shows "\<exists>q target anchor. forge_point rq (fw_progress (sx_forge s)) = Some q \<and>
    undervolt_apply_params q = (target, anchor) \<and>
    fg_profiles_qualified (fw_progress (sx_forge s)) \<and> point_apply_qualified q \<and>
    is_some_and (ps_power_p99_w q) usable_power \<and>
    (let cx = sv_codecs (rq_env re); d = mc_disk (sx_machine s); r = load_record (cx_record cx) d
     in pending_forge_incident r = None \<and> \<not> field_pair_blacklisted r target anchor \<and>
        \<not> refuses (ledger_pairs (cx_event cx) d (sv_gpu_key (rq_env re))) target anchor)"
proof -
  let ?p = "fw_progress (sx_forge s)"
  let ?f = "apply_forge_profile (rq_env re) (rq_legacy re) ?p (forge_point rq ?p) (forge_label rq)"
  have "s' = s \<or> sx_machine s' = snd (?f (sx_machine s))"
    using assms(1,2) on_machine_machine [of ?f s]
    by (auto simp: handle_request_def dispatch_def Let_def split: if_splits option.splits dest: arg_cong [where f = snd])
  with assms(4) have "snd (?f (sx_machine s)) \<noteq> sx_machine s" by auto
  then show ?thesis
    using assms(3)
    by (auto simp: apply_forge_profile_def apply_undervolt_profile_def Let_def
        split: if_splits option.splits prod.splits)
qed

theorem forge_apply_admits_only_qualified_witness:
  "point_apply_qualified ready_point \<and> fg_profiles_qualified (fw_progress (sx_forge ready_service))"
proof -
  obtain resp s' where r: "handle_request toy_request_env idle_engines ApplyPowerGodforge ready_service = (resp, s')"
    by fastforce
  with ready_applies have "sx_machine s' \<noteq> sx_machine ready_service" by auto
  from forge_apply_admits_only_qualified [OF r _ ready_forge(2) this] show ?thesis
    by (auto simp: forge_point_def ready_forge)
qed

section \<open>The start\<close>

lemma flag_read_armed: "read_boot_flag fc d \<noteq> None \<Longrightarrow> is_boot_flag_armed d"
  by (auto simp: read_boot_flag_def is_boot_flag_armed_def fs_read_def fs_exists_def split: sum.splits if_splits option.splits)

lemma save_record_marker: "is_clean_shutdown_present (snd (save_record rc r d)) = is_clean_shutdown_present d"
  by (simp add: save_record_def is_clean_shutdown_present_def write_doc_frame file_names)

lemma reconcile_marker: "is_clean_shutdown_present (snd (reconcile_interrupted_forge cx now nanos d)) =
    is_clean_shutdown_present d"
  by (auto simp: reconcile_interrupted_forge_def record_incident_def Let_def save_forge_state_frame
      save_record_marker split: option.split prod.split)

lemma reconcile_permissions: "refused (snd (reconcile_interrupted_forge cx now nanos d)) = refused d"
  by (auto simp: reconcile_interrupted_forge_def record_incident_def Let_def save_forge_state_permissions
      save_record_permissions split: option.split prod.split)

lemma startup_permissions: "refused (snd (run_startup_recovery fc rc msg d)) = refused d"
  by (simp add: run_startup_recovery_def Let_def save_record_permissions clear_permissions)

lemma append_line_exists: "n \<noteq> f \<Longrightarrow> fs_exists f (snd (append_line n c e d)) = fs_exists f d"
  unfolding append_line_def fs_append_def using fs_frame
  by (auto simp: fs_create_dir_def fs_write_def fs_exists_def split: option.split)

lemma persist_failure_armed:
  "is_boot_flag_armed (persist_field_failure cx now gpu target failed msg d) = is_boot_flag_armed d"
proof -
  have "is_boot_flag_armed (snd (save_record c r d)) = is_boot_flag_armed d" for c r d
    by (simp add: save_record_frame)
  moreover have "is_boot_flag_armed (append_condemnation c now sev kind gk t mv run nt d) = is_boot_flag_armed d"
    for c sev kind gk t mv run nt d
    by (simp add: is_boot_flag_armed_def append_condemnation_def ledger_append_def append_line_exists
        boot_flag_file_def ledger_file_def)
  ultimately show ?thesis by (simp add: persist_field_failure_def Let_def)
qed

lemma startup_reconcile_armed:
  "is_boot_flag_armed (snd (startup_reconcile env hex newest bugcheck d)) = is_boot_flag_armed d"
  by (auto simp: startup_reconcile_def Let_def demote_after_boot_failure_def persist_failure_armed
      split: option.split)

lemma startup_reconcile_gone:
  assumes "fst (startup_reconcile env hex newest bugcheck d)" and "\<not> refused d applied_file"
  shows "load_applied ac (snd (startup_reconcile env hex newest bugcheck d)) = None"
  using assms
  by (auto simp: startup_reconcile_def Let_def demote_after_boot_failure_def clear_applied_gone
      persist_failure_permissions split: option.split option.splits if_splits)

lemma reapply_releases_only:
  assumes "reboot \<or> is_boot_flag_armed (mc_disk m) \<or> load_applied (cx_applied cx) (mc_disk m) = None"
  shows "mc_gpu (reapply_on_boot v legacy settle polls cx now reboot m) =
      snd (unlock_core_voltage v (snd (reset_core_clock_lock v (mc_gpu m))))"
    and "mc_timers (reapply_on_boot v legacy settle polls cx now reboot m) = mc_timers m"
  using assms by (auto simp: reapply_on_boot_def Let_def split: option.split)

text \<open>C9: a start after a crash re-applies nothing. When the flag of an apply is still armed without a clean
  shutdown, or the driver has been reset within this boot, or the boot reconciliation lays the crash on
  the profile, the service starts with the card's locks released and no other write to it, and with no timer running.\<close>

theorem crash_never_reapplies:
  assumes "d1 = snd (reconcile_interrupted_forge (sv_codecs (rq_env re)) (sv_now (rq_env re)) (sv_nanos (rq_env re))
      (mc_disk m))"
    and "d2 = snd (run_startup_recovery (cx_flag (sv_codecs (rq_env re))) (cx_record (sv_codecs (rq_env re)))
      (sq_message q) d1)"
    and "(read_boot_flag (cx_flag (sv_codecs (rq_env re))) (mc_disk m) \<noteq> None \<and>
          \<not> is_clean_shutdown_present (mc_disk m)) \<or>
        initial_reboot_guard (sq_millis q) (sq_newest q) (sq_boot_ms q) \<noteq> None \<or>
        (fst (startup_reconcile (rq_env re) (sq_hex q) (sq_newest q) (sq_bugcheck q) d2) \<and>
         \<not> refused (mc_disk m) applied_file)"
  shows "mc_gpu (sx_machine (service_start re q m e)) =
      snd (unlock_core_voltage (sv_vendor (rq_env re)) (snd (reset_core_clock_lock (sv_vendor (rq_env re)) (mc_gpu m)))) \<and>
    mc_timers (sx_machine (service_start re q m e)) = mc_timers m"
proof -
  let ?cx = "sv_codecs (rq_env re)"
  define d3 where "d3 = snd (startup_reconcile (rq_env re) (sq_hex q) (sq_newest q) (sq_bugcheck q) d2)"
  have "is_boot_flag_armed d3"
    if "read_boot_flag (cx_flag ?cx) (mc_disk m) \<noteq> None" "\<not> is_clean_shutdown_present (mc_disk m)"
    using that flag_read_armed [OF that(1)]
    by (auto simp: d3_def startup_reconcile_armed assms(1,2) startup_flag reconcile_frame boot_view_def
        reconcile_marker split: option.split)
  moreover have "load_applied (cx_applied ?cx) d3 = None"
    if "fst (startup_reconcile (rq_env re) (sq_hex q) (sq_newest q) (sq_bugcheck q) d2)"
      "\<not> refused (mc_disk m) applied_file"
    using startup_reconcile_gone [OF that(1)] that(2)
    by (simp add: d3_def assms(1,2) startup_permissions reconcile_permissions)
  ultimately have ok: "initial_reboot_guard (sq_millis q) (sq_newest q) (sq_boot_ms q) \<noteq> None \<or>
      is_boot_flag_armed (mc_disk (m\<lparr>mc_disk := d3\<rparr>)) \<or>
      load_applied (cx_applied (codecs.truncate ?cx)) (mc_disk (m\<lparr>mc_disk := d3\<rparr>)) = None"
    using assms(3) by auto
  have eq: "\<exists>d4. sx_machine (service_start re q m e) =
      (reapply_on_boot (sv_vendor (rq_env re)) (rq_legacy re) (sv_settle (rq_env re)) (sv_polls (rq_env re))
        (codecs.truncate ?cx) (sv_now (rq_env re))
        (initial_reboot_guard (sq_millis q) (sq_newest q) (sq_boot_ms q) \<noteq> None) (m\<lparr>mc_disk := d3\<rparr>))\<lparr>mc_disk := d4\<rparr>"
    by (auto simp: service_start_def Let_def sx_machine_def d3_def assms(1,2) split: prod.split)
  then show ?thesis using reapply_releases_only [OF ok] by fastforce
qed

text \<open>What an interrupted start looks like: the flag of an apply is on disk, its profile too.\<close>

definition start_idle_queries :: start_queries where
  "start_idle_queries = \<lparr>sq_message = None, sq_newest = None, sq_bugcheck = None, sq_millis = (\<lambda>_. None),
     sq_boot_ms = 0, sq_hex = (\<lambda>_. ''0'')\<rparr>"

theorem crash_never_reapplies_witness:
  "mc_timers (sx_machine (service_start toy_request_env start_idle_queries
     \<lparr>mc_disk = window_disk, mc_gpu = stock_card, mc_timers = []\<rparr> ())) = []"
proof -
  let ?m = "\<lparr>mc_disk = window_disk, mc_gpu = stock_card, mc_timers = []\<rparr>"
  have cx: "sv_codecs (rq_env toy_request_env) = sentinel_codecs"
    by (simp add: toy_request_env_def sentinel_toy_env_def)
  have "read_boot_flag (cx_flag sentinel_codecs) window_disk \<noteq> None" "\<not> is_clean_shutdown_present window_disk"
    by (simp_all add: read_boot_flag_def fs_read_def window_disk_def sentinel_disk_def empty_disk_def
        sentinel_codecs_def toy_forge_codecs_def strip_bom_def bom_def is_clean_shutdown_present_def fs_exists_def
        file_names applied_file_def baseline_file_def)
  with crash_never_reapplies [OF refl refl, of toy_request_env ?m start_idle_queries "()"]
  show ?thesis by (simp add: cx)
qed

section \<open>The memory peak over an applied undervolt\<close>

lemma apply_persist_done:
  assumes "apply_and_persist v legacy cx now label core mem m = (Inr u, m')"
    and "enc (cx_applied cx) p = Some t" and "dec (cx_applied cx) (trim_boms t) = Some p"
    and "p = \<lparr>ap_label = label, ap_core = core, ap_mem_offset = mem, ap_applied_at = Some now, ap_undervolt = None\<rparr>"
    and "\<not> refused (mc_disk m) applied_file" and "\<not> unreadable (mc_disk m) applied_file"
  shows "load_applied (cx_applied cx) (mc_disk m') = Some p \<and>
    mc_gpu m' = snd (drv_then (case core of None \<Rightarrow> \<lambda>g. (Inr (), g) | Some c \<Rightarrow> apply_core v legacy c)
                       (apply_mem_offset v mem) (mc_gpu m))"
proof -
  obtain m1 g where a: "arm cx (apply_intent core mem) ''gpu_apply'' now m = (Inr (), m1)"
    and g: "drv_then (case core of None \<Rightarrow> \<lambda>g. (Inr (), g) | Some c \<Rightarrow> apply_core v legacy c)
        (apply_mem_offset v mem) (mc_gpu m1) = (Inr (), g)"
    and m': "m' = remember_profile cx p (m1\<lparr>mc_gpu := g\<rparr>)"
    using assms(1) unfolding apply_and_persist_def assms(4) by (auto split: prod.splits sum.splits)
  have "refused (mc_disk m1) = refused (mc_disk m)" "unreadable (mc_disk m1) = unreadable (mc_disk m)"
    "\<not> dir_refused (mc_disk m1)" and gpu: "mc_gpu m1 = mc_gpu m"
    using a by (auto simp: arm_def store_defs fs_defs split: prod.splits sum.splits option.splits if_splits)
  with assms(2,3,5,6) show ?thesis
    by (simp add: m' g [unfolded gpu])
      (auto simp: remember_profile_def start_timer_def load_applied_def save_applied_def fs_write_def fs_read_def)
qed

text \<open>The memory peak loses the undervolt. Over an applied undervolt profile an accepted request for the
  memory peak writes the core through the ceiling path, without the anchor's lock and verification, and
  the profile it stores keeps its name but not its undervolt part: from then on the sentinel finds no
  pair to condemn or to raise.\<close>

lemma mem_peak_drops_undervolt:
  assumes "handle_request re eg ApplyMemPeak s = (ApplyStatus None, s')"
    and "load_applied (cx_applied (sv_codecs (rq_env re))) (mc_disk (sx_machine s)) = Some ap"
    and "ap_undervolt ap = Some uv" and "ap_label ap \<noteq> []"
    and "p = ap\<lparr>ap_mem_offset := Some (eg_peak_offset eg (sx_engines s)),
                ap_applied_at := Some (sv_now (rq_env re)), ap_undervolt := None\<rparr>"
    and "enc (cx_applied (sv_codecs (rq_env re))) p = Some t"
    and "dec (cx_applied (sv_codecs (rq_env re))) (trim_boms t) = Some p"
    and "\<not> refused (mc_disk (sx_machine s)) applied_file" "\<not> unreadable (mc_disk (sx_machine s)) applied_file"
  shows "load_applied (cx_applied (sv_codecs (rq_env re))) (mc_disk (sx_machine s')) = Some p \<and>
    applied_pair (sv_codecs (rq_env re)) (mc_disk (sx_machine s)) = Some (uv_target_mhz uv, uv_anchor_mv uv) \<and>
    applied_pair (sv_codecs (rq_env re)) (mc_disk (sx_machine s')) = None \<and>
    mc_gpu (sx_machine s') =
      snd (drv_then (case ap_core ap of None \<Rightarrow> \<lambda>g. (Inr (), g)
                     | Some c \<Rightarrow> apply_core (sv_vendor (rq_env re)) (rq_legacy re) c)
             (apply_mem_offset (sv_vendor (rq_env re)) (Some (eg_peak_offset eg (sx_engines s))))
             (mc_gpu (sx_machine s)))"
proof -
  let ?env = "rq_env re" and ?m = "sx_machine s" and ?peak = "eg_peak_offset eg (sx_engines s)"
  have "mem_peak_request ?env eg (rq_legacy re) s = (ApplyStatus None, s')"
    using assms(1) by (auto simp: handle_request_def dispatch_def Let_def split: if_splits option.splits)
  then have r: "apply_and_persist (sv_vendor ?env) (rq_legacy re) (codecs.truncate (sv_codecs ?env)) (sv_now ?env)
      (ap_label ap) (ap_core ap) (Some ?peak) ?m = (Inr (), sx_machine s')"
    using assms(2,4)
    by (auto simp: mem_peak_request_def on_machine_def apply_with_mem_def err_option_def applied_or_default_def
        Let_def split: if_splits prod.splits sum.splits)
  have p: "p = \<lparr>ap_label = ap_label ap, ap_core = ap_core ap, ap_mem_offset = Some ?peak,
      ap_applied_at = Some (sv_now ?env), ap_undervolt = None\<rparr>"
    by (simp add: assms(5))
  from apply_persist_done [OF r _ _ p, of t] assms(2,3,6-9)
  show ?thesis by (simp add: applied_pair_def opt_bind_def p)
qed

definition peak_profile :: "applied_profile" where
  "peak_profile = (bumped_profile ''now'' ''l'' 1900 850 (Some 500))\<lparr>ap_undervolt := None\<rparr>"

definition peak_env :: "toy_card request_env" where
  "peak_env = toy_request_env\<lparr>rq_env := sentinel_toy_env\<lparr>sv_codecs := sentinel_codecs\<lparr>cx_applied :=
     \<lparr>enc = (\<lambda>_. Some ''q''), dec = (\<lambda>s. if s = ''p'' then Some (bumped_profile ''now'' ''l'' 1900 850 None)
        else if s = ''q'' then Some peak_profile else None)\<rparr>\<rparr>\<rparr>\<rparr>"

definition peak_service :: "(toy_card, unit) service" where
  "peak_service = toy_service stock_card sentinel_disk idle_world"

end
