(* ===== verification/Spec2Isabelle.thy ===== *)
theory Spec2Isabelle
  imports CoreSeed F2ClockSafe ForgeHost Ledger RealSweep ServiceProps
begin

text \<open>
  Nidavellir undervolts a graphics card. A service (\<open>crates/service\<close>) plans points of the card's
  voltage/frequency curve, writes them through the vendor's libraries, loads the card, verifies that the
  curve held, and learns from what happened. A point that is too low crashes the machine, so every write
  stands between two persistent facts: a boot flag on disk that a crash leaves behind, and the evidence
  that an attempt appended to logs. This development translates that part of the program: what keeps the
  machine recoverable, what is refused, what is learned, and what counts as qualified.

  The theories, from the bottom up, with the code that they translate:

  \<open>Prelude\<close>, \<open>Float32\<close>: the machine integers of the sources with wrap-around and saturation written out,
  the ordered lists that stand for a \<open>BTreeMap\<close>, the file system as a map with refusals, and the single
  precision numbers as exact rationals rounded to 24 bits.

  \<open>SafeLoop\<close>, \<open>Store\<close>, \<open>SafeLoopRuntime\<close>: \<open>core/src/safe_loop.rs\<close> and
  \<open>service/src/safe_loop_runtime.rs\<close>. The tuning point and its blacklist regions, the phase machine, the
  persisted record with its incidents, the store (flag, record, clean-shutdown marker), and the recovery
  at service start. The lemmas show that a machine that keeps booting with a raised flag enters Safe Mode
  at the third boot and not before, that the startup over files implements the abstract recovery decision,
  that every reachable record is well-formed, and that a crashed point is blacklisted.

  \<open>VfFloor\<close>, \<open>Condemnation\<close>, \<open>Jsonl\<close>, \<open>Ledger\<close>: \<open>core/src/condemnation.rs\<close>. The voltage floor that the
  recorded hard failures raise, the condemned pairs, and the append-only files. The locale \<open>append_log\<close> of
  \<open>Jsonl\<close> states what an append and a load promise each other; it is interpreted on the ledger and on the
  evidence log.

  \<open>VfPlan\<close>, \<open>CoreSeed\<close>, \<open>GpuDriver\<close>, \<open>VfVerify\<close>: the planners and write loops of \<open>gpu-nvapi/src/lib.rs\<close>,
  the locks of \<open>core/src/nvml_gpu.rs\<close>, the core cluster and the stock clock ceiling of
  \<open>service/src/gpu_power_sweep.rs\<close>, and the verdict on the live curve of \<open>service/src/gpu_verify.rs\<close>.

  \<open>F2Apply\<close>, \<open>F2Guards\<close>, \<open>GpuApply\<close>: \<open>apply_anchored\<close> and the undervolt apply of
  \<open>service/src/gpu_undervolt.rs\<close>, the refusals before a write, and \<open>gpu_apply.rs\<close> with \<open>manual_point.rs\<close>:
  apply under the boot flag, the survival window, the boot re-application, the reset.

  \<open>F2Observation\<close>: the evidence log of \<open>core/src/f2_observation.rs\<close>, the frontier learned from it and
  the gate that admits an exact pair.

  \<open>F2Motor\<close>, \<open>F2Real\<close>, \<open>F2Plan\<close>, \<open>F2Record\<close>: the fail-closed step (arm, apply, verify, dwell, reset,
  clear), the descent and the candidate transaction of \<open>gpu_undervolt.rs\<close> over an interface of
  operations, the real operations over a machine, the pure planners, and the recording of a sweep by
  \<open>gpu_f2_sweep.rs\<close>. The locales \<open>f2_motor\<close>, \<open>f2_descent\<close> and \<open>f2_invariant\<close> state what the step
  needs from its operations; they are interpreted on the real ones.

  \<open>F2Discovery\<close>, \<open>F2Qualify\<close>: the decisions of the live discovery, the qualification of an active
  candidate, the gate of the exact Apply pair and the order in which its phases are persisted.
  \<open>F2Calibrate\<close> is the measurement of the power at one exact pair, over the same step.

  \<open>F2Descent\<close>, \<open>F2Clock\<close>, \<open>F2ClockSafe\<close>: the discovery of one clock, \<open>run_confirmed_f2_clock_discovery\<close>.
  \<open>F2Descent\<close> is the walk over the planned bins as a state machine: one bin deeper, an adaptive jump over bins
  that the power limit holds, the bisection of a bracket after a failure, the descent bin by bin below a
  qualified one. \<open>F2Clock\<close> is the rest: the resumed plan, the transaction of a bin with its repeated
  measurements and its qualification, the persisted reports, the gate of the boundary and the summary.
  \<open>F2ClockSafe\<close> adds to the locales \<open>f2_invariant\<close> and \<open>f2_descent\<close> what a transaction keeps and holds the
  properties.

  \<open>ForgeProfiles\<close>, \<open>ForgeSelect\<close>, \<open>ForgeHost\<close>: the end of a forge in \<open>gpu_power_sweep.rs\<close>. \<open>ForgeProfiles\<close>
  is the pure part: the margin above a boundary, the synthesis of Godforge, Brokkr's Best and Deep Calm, the
  regime that a point needs, the fast drop and the plan of a vertical repair. \<open>ForgeSelect\<close> is the loop that
  synthesizes, sends each selected pair through the gate, and approves, repairs, replaces or excludes it
  until three profiles stand; what it asks of the machine is the record \<open>forge_engines\<close> and what it relies on
  the locale \<open>forge_contract\<close>. \<open>ForgeHost\<close> builds those engines from \<open>F2Qualify\<close>, \<open>F2Calibrate\<close> and the
  ledger over one disk and one card and interprets the locale on them.

  \<open>ForgeState\<close>, \<open>ForgeRecovery\<close>: the checkpoint, the handle, the resume identity, the incidents and the
  clean run of \<open>service/src/gpu_power_sweep.rs\<close>. The worker thread of the forge is any sequence of
  progress that it publishes before it ends or panics; \<open>forge_step\<close> interleaves the threads with the requests,
  one atomic store at a time where a start raises and a worker that ends lowers the shared flags, and lists
  the threads that really exist.

  \<open>Sentinel\<close>: \<open>service/src/tdr_sentinel.rs\<close>. The watch on driver resets and the canary: the claim of an
  action by concurrent threads, which a full reset may wipe, the decision, the bump to a higher bin, the
  fall to stock, and the reconciliation at start.

  \<open>SweepEngine\<close>, \<open>RealSweep\<close>: the older search by offset. \<open>SweepEngine\<close> is \<open>core/src/gpu_sweep.rs\<close> with the
  simulated silicon of \<open>gpu_control.rs\<close>: the bisection of one clock, the engine of commands and verdicts,
  the three named profiles. \<open>RealSweep\<close> is \<open>service/src/gpu_sweep_real.rs\<close>, \<open>gpu_mem_sweep.rs\<close> and
  \<open>gpu_forge_all.rs\<close>: the climbs over clock and memory offsets on the real card, over a record of the
  loads, the stop flag and the recovery of the device.

  \<open>Service\<close>, \<open>ServiceProps\<close>: \<open>service_impl.rs\<close> and \<open>ipc_server.rs\<close>. The order of start and stop, the
  guards before a request and the requests that touch the card or the learned state, composed from the
  theories above; the engines that are not modelled are an interface of functions. What a launched worker
  writes is put into the request that launched it and may be anything.

  How the model reads. A Rust struct is a record and an enum is a datatype with the same constructors;
  \<open>u8\<close> to \<open>u64\<close> and \<open>usize\<close> are natural numbers and \<open>i32\<close>, \<open>i64\<close> integers, with the wrap-around or
  saturation of the source's operation written out; \<open>f32\<close> is the type of \<open>Float32\<close>. A \<open>Result\<close> is a
  sum with the error on the left. The file system is a map from names to contents that may refuse an
  access; a write that is refused leaves the old content, where the real call may also leave a truncated file; a machine is the device together with that map; an operation takes it and returns the changed
  one. What is not in the repository is an argument: the vendor libraries are a record of functions over
  the device, a JSON codec a pair of functions with the round trip as hypothesis, clock texts and event
  logs values, a workload a function from its request to telemetry and the changed card, and the stop
  flag a function from the number of loads to a boolean.

  Loops. No fuel is used; the warm-up of a sweep, which runs against the clock, takes the number of its loads as
  an argument. Recursion is structural, or over a list that the code walks, or a \<open>function\<close>
  with its termination proof: \<open>qualify_active_loop\<close> and \<open>gate_patterns\<close> end because every turn either
  leaves a pattern behind or pays from its retry budget, and \<open>F2Qualify.gate_terminates_in_bounds\<close> gives the
  bound on the dwells that follows; \<open>recheck_power\<close> measures at most three times; \<open>climb_condemned\<close> climbs
  through the finitely many bins of the curve; \<open>recheck_bin\<close> repeats a bin three times in all. Four loops are \<open>partial_function (option)\<close>: \<open>RealSweep.climb\<close>,
  whose step comes from the caller's preset, \<open>SweepEngine.drive\<close>, an engine driven against verdicts,
  \<open>ForgeSelect.select_loop\<close>, which repeats as long as a turn changes anything, and
  \<open>F2Clock.walk_candidates\<close>, which may climb back; that they return is part of
  \<open>real_sweep_within_limits\<close> and \<open>sweep_brackets_every_clock\<close> and is \<open>selection_returns\<close> and
  \<open>discovery_ends\<close>, by a measure that allows at most 2n + 4 turns over n bins. Threads and timers are
  steps or turns of explicit state.

  What the properties show. Recovery: \<open>boots_trip_safe_mode\<close>, \<open>startup_refines_boot\<close>,
  \<open>crashed_point_blacklisted\<close>, \<open>crash_never_reapplies\<close>, \<open>interrupted_run_waits\<close>. Refusals: a condemned
  point stays refused whatever is appended later (\<open>condemned_stays_refused\<close>, \<open>ledger_remembers\<close>,
  \<open>observed_failure_stays_bad\<close>), while the lemma \<open>more_failures_can_admit\<close> shows that the floor is not
  monotone in the evidence. Writing: an apply that succeeds holds; one that fails is closed by a reset that confirms stock
  or names what it could not confirm; the card is changed only by an admitted request, and by an apply only
  under the flag (\<open>undervolt_apply_holds\<close>, \<open>undervolt_apply_fails_closed\<close>,
  \<open>no_write_without_flag\<close>, \<open>card_changed_only_when_admitted\<close>, \<open>forge_apply_admits_only_qualified\<close>). The step
  and the transaction: \<open>descent_shape\<close>, \<open>confirmed_step_recovers\<close>, \<open>transaction_all_or_nothing\<close>,
  \<open>descent_leaves_flag_exactly\<close>. Qualification: \<open>apply_qualified_debt_paid\<close>, \<open>gate_terminates_in_bounds\<close>,
  \<open>calibration_tells_flag\<close>. The discovery of a clock: it always returns, tells when the boot flag stands and
  measures nothing that is condemned (\<open>discovery_ends\<close>, \<open>discovery_tells_flag\<close>,
  \<open>discovery_tests_only_allowed\<close>). The profiles: a forge publishes only what it has proven, within the ceilings,
  and its selection ends on a host that is consistent about the origin of its measurements (\<open>forge_publishes_only_proven\<close>, \<open>published_profiles_are_safe\<close>, \<open>profiles_keep_their_floors\<close>,
  \<open>vertical_repair_sound\<close>, \<open>selection_returns\<close>).
  The older sweeps: \<open>sweep_brackets_every_clock\<close>, \<open>sweep_finds_the_frontier\<close>, \<open>real_sweep_within_limits\<close>. The forge and the sentinel: \<open>one_worker_owns_the_card\<close>,
  \<open>interrupted_run_waits\<close>, \<open>claims_are_apart\<close>, \<open>bump_condemns_and_climbs\<close>. Where the code does not do
  what it means to, the theorem says what it does: \<open>reset_lends_the_card_twice\<close>,
  \<open>reset_in_window_forgotten\<close>; the lemmas \<open>overtaken_worker_uncovered\<close>, \<open>mem_peak_meaning\<close>,
  \<open>stopped_package_is_persisted\<close>, \<open>persist_failure_drops_retain\<close>, \<open>second_reset_not_blacklisted\<close>, \<open>mem_peak_drops_undervolt\<close>, \<open>survival_window\<close> and \<open>torn_line_swallows\<close> do the
  same for smaller cases.

  Not modelled. The workloads themselves (\<open>crates/gpu-stress\<close>: shaders and their timing on a device), the
  sensors and the PawnIO driver (I/O and registers), the transport of the IPC server and the user interface
  (pipes, serialisation and display), the detector laboratory and the game trace (offline measurement), and
  the benchmark (averages for display). Of the forge, the walk that runs the modelled discovery for one clock
  after another before the selection starts, the preheat and the capture of golden images, the
  older frontier search behind a command line, and the classification of raw samples into evidence: the
  bookkeeping of progress and estimates is most of that walk. Log lines and progress events are left out of the operations that
  are modelled: nothing branches on them.
\<close>

end
